(* ===== verification/Prelude.thy ===== *)
theory Prelude
  imports Main "HOL-Library.Sublist" "HOL-Library.Char_ord" "HOL-Library.List_Lexorder"
begin

text \<open>
  Shared material of the development: the named collections the component proofs draw on, the
  Go string and byte operations the modelled code uses, Go's 32- and 64-bit signed arithmetic with
  its wrap-around written out, and time.

  A Go \<open>string\<close> is a sequence of bytes, and a HOL \<open>char\<close> is a byte, so a Go string is a HOL
  \<open>string\<close>: \<open>length\<close> is \<open>len\<close>, \<open>s ! i\<close> (with \<open>i < length s\<close>) is \<open>s[i]\<close>. Sized integers are
  \<open>int\<close> values; every operation of the source that can leave the type's range goes through
  \<open>i32\<close> or \<open>i64\<close>. A \<open>time.Time\<close> is an \<open>int\<close> count of nanoseconds, a \<open>time.Duration\<close> likewise.
\<close>

named_theorems gostr "facts about Go string operations"
named_theorems wrap "facts about Go sized integers"
named_theorems route "case splits of handlers and verdicts"

subsection \<open>Sized integers\<close>

definition i64 :: "int \<Rightarrow> int" where
  "i64 x = (x + 2 ^ 63) mod 2 ^ 64 - 2 ^ 63"

definition i32 :: "int \<Rightarrow> int" where
  "i32 x = (x + 2 ^ 31) mod 2 ^ 32 - 2 ^ 31"

abbreviation max_int64 :: int where "max_int64 \<equiv> 9223372036854775807"
abbreviation min_int64 :: int where "min_int64 \<equiv> - 9223372036854775808"

lemma i64_id [wrap]: "min_int64 \<le> x \<Longrightarrow> x \<le> max_int64 \<Longrightarrow> i64 x = x"
  by (simp add: i64_def)

lemma i32_id [wrap]: "- 2147483648 \<le> x \<Longrightarrow> x \<le> 2147483647 \<Longrightarrow> i32 x = x"
  by (simp add: i32_def)

lemma i64_range: "min_int64 \<le> i64 x \<and> i64 x \<le> max_int64"
proof -
  have "0 \<le> (x + 2 ^ 63) mod 2 ^ 64" "(x + 2 ^ 63) mod 2 ^ 64 < (2 ^ 64 :: int)"
    by simp_all
  then show ?thesis by (simp add: i64_def)
qed

lemma centred_mod_add: "((x + h) mod m - h + b + h) mod m = (x + b + h) mod (m :: int)"
proof -
  have "((x + h) mod m - h + b + h) mod m = ((x + h) mod m + b) mod m"
    by simp
  also have "\<dots> = ((x + h) + b) mod m"
    by (rule mod_add_left_eq)
  also have "\<dots> = (x + b + h) mod m"
    by (simp only: add.assoc add.commute [of h b])
  finally show ?thesis .
qed

lemma i64_add_left: "i64 (i64 a + b) = i64 (a + b)"
  unfolding i64_def by (simp only: centred_mod_add)

lemma i64_add_right: "i64 (a + i64 b) = i64 (a + b)"
  by (metis add.commute i64_add_left)

lemma i64_diff_left: "i64 (i64 a - b) = i64 (a - b)"
  using i64_add_left [of a "- b"] by simp

lemma i64_idem: "i64 (i64 a) = i64 a"
  using i64_add_left [of a 0] by simp

lemmas i64_ring [wrap] = i64_add_left i64_add_right i64_diff_left i64_idem

lemma fold_i64_sum:
  "fold (\<lambda>x t. if c x then i64 (t + i64 (g x)) else t) xs (i64 a) =
   i64 (a + sum_list (map (\<lambda>x. if c x then g x else 0) xs))"
proof (induction xs arbitrary: a)
  case (Cons x xs)
  show ?case
  proof (cases "c x")
    case True
    then have "fold (\<lambda>x t. if c x then i64 (t + i64 (g x)) else t) (x # xs) (i64 a) =
        fold (\<lambda>x t. if c x then i64 (t + i64 (g x)) else t) xs (i64 (a + g x))"
      by (simp add: wrap i64_add_left i64_add_right)
    then show ?thesis using True Cons.IH [of "a + g x"] by (simp add: add.assoc)
  qed (use Cons.IH in simp)
qed simp

text \<open>Go's integer division and remainder truncate towards zero.\<close>

definition tdiv :: "int \<Rightarrow> int \<Rightarrow> int" where
  "tdiv a b = sgn a * sgn b * (\<bar>a\<bar> div \<bar>b\<bar>)"

definition trem :: "int \<Rightarrow> int \<Rightarrow> int" where
  "trem a b = a - b * tdiv a b"

lemma tdiv_nonneg: "0 \<le> a \<Longrightarrow> 0 < b \<Longrightarrow> tdiv a b = a div b"
  by (cases "a = 0") (auto simp: tdiv_def sgn_if)

lemma trem_nonneg: "0 \<le> a \<Longrightarrow> 0 < b \<Longrightarrow> trem a b = a mod b"
  by (simp add: trem_def tdiv_nonneg minus_mult_div_eq_mod)

text \<open>\<open>time.Time.Sub\<close> saturates at the ends of \<open>time.Duration\<close>.\<close>

type_synonym time = int
type_synonym duration = int

definition time_sub :: "time \<Rightarrow> time \<Rightarrow> duration" where
  "time_sub a b = max min_int64 (min max_int64 (a - b))"

abbreviation nano_second :: int where "nano_second \<equiv> 1000000000"
abbreviation nano_minute :: int where "nano_minute \<equiv> 60000000000"
abbreviation nano_hour :: int where "nano_hour \<equiv> 3600000000000"

subsection \<open>Bytes\<close>

abbreviation byte :: "char \<Rightarrow> nat" where "byte c \<equiv> of_char c"

lemma char_of_is: "char_of (n :: nat) = c \<longleftrightarrow> n mod 256 = byte c"
  by (metis char_of_char of_char_of)

definition is_lower :: "char \<Rightarrow> bool" where
  "is_lower c \<longleftrightarrow> 97 \<le> byte c \<and> byte c \<le> 122"

definition is_upper :: "char \<Rightarrow> bool" where
  "is_upper c \<longleftrightarrow> 65 \<le> byte c \<and> byte c \<le> 90"

definition is_digit :: "char \<Rightarrow> bool" where
  "is_digit c \<longleftrightarrow> 48 \<le> byte c \<and> byte c \<le> 57"

definition ascii_lower :: "char \<Rightarrow> char" where
  "ascii_lower c = (if is_upper c then char_of (byte c + 32) else c)"

definition is_space :: "char \<Rightarrow> bool" where
  "is_space c \<longleftrightarrow> (9 \<le> byte c \<and> byte c \<le> 13) \<or> byte c = 32"

definition is_ascii :: "char \<Rightarrow> bool" where
  "is_ascii c \<longleftrightarrow> byte c < 128"

text \<open>
  \<open>strings.ToLower\<close>: the ASCII path maps bytes; a string with a non-ASCII byte goes through
  Unicode's tables, which the definitions that use it take as the argument \<open>ul\<close>.
\<close>

definition to_lower :: "(string \<Rightarrow> string) \<Rightarrow> string \<Rightarrow> string" where
  "to_lower ul s = (if list_all is_ascii s then map ascii_lower s else ul s)"

text \<open>\<open>strings.TrimSpace\<close>, with Unicode's white space again an argument.\<close>

definition trim_space :: "(string \<Rightarrow> string) \<Rightarrow> string \<Rightarrow> string" where
  "trim_space ut s =
     (if list_all is_ascii s then rev (dropWhile is_space (rev (dropWhile is_space s))) else ut s)"

lemma ascii_lower_id: "\<not> is_upper c \<Longrightarrow> ascii_lower c = c"
  by (simp add: ascii_lower_def)

lemma is_lower_ascii_lower: "is_upper c \<Longrightarrow> is_lower (ascii_lower c)"
  by (simp add: ascii_lower_def is_lower_def is_upper_def)

lemma lower_not_upper: "is_lower c \<Longrightarrow> \<not> is_upper c"
  by (simp add: is_lower_def is_upper_def)

lemma not_upper_ascii_lower: "\<not> is_upper (ascii_lower c)"
  by (cases "is_upper c") (simp_all add: is_lower_ascii_lower lower_not_upper ascii_lower_id)

lemma ascii_lower_idem: "ascii_lower (ascii_lower c) = ascii_lower c"
  by (simp add: ascii_lower_id not_upper_ascii_lower)

lemma to_lower_id:
  "list_all is_ascii s \<Longrightarrow> list_all (\<lambda>c. \<not> is_upper c) s \<Longrightarrow> to_lower ul s = s"
  by (auto simp: to_lower_def list_all_iff ascii_lower_id intro!: map_idI)

subsection \<open>Strings\<close>

definition cut_prefix :: "string \<Rightarrow> string \<Rightarrow> string option" where
  "cut_prefix s p = (if prefix p s then Some (drop (length p) s) else None)"

definition cut_suffix :: "string \<Rightarrow> string \<Rightarrow> string option" where
  "cut_suffix s p = (if suffix p s then Some (take (length s - length p) s) else None)"

definition trim_prefix :: "string \<Rightarrow> string \<Rightarrow> string" where
  "trim_prefix s p = (case cut_prefix s p of Some r \<Rightarrow> r | None \<Rightarrow> s)"

definition trim_suffix :: "string \<Rightarrow> string \<Rightarrow> string" where
  "trim_suffix s p = (case cut_suffix s p of Some r \<Rightarrow> r | None \<Rightarrow> s)"

lemma cut_prefix_Some [gostr]: "cut_prefix s p = Some r \<longleftrightarrow> s = p @ r"
  by (auto simp: cut_prefix_def prefix_def)

lemma cut_suffix_Some [gostr]: "cut_suffix s p = Some r \<longleftrightarrow> s = r @ p"
  by (auto simp: cut_suffix_def suffix_def)

lemma cut_prefix_append [simp]: "cut_prefix (p @ r) p = Some r"
  by (simp add: gostr)

lemma cut_suffix_append [simp]: "cut_suffix (r @ p) p = Some r"
  by (simp add: gostr)

text \<open>\<open>strings.Split\<close> and \<open>strings.Join\<close> on a one-byte separator; \<open>strings.Cut\<close> likewise.\<close>

fun split_on :: "char \<Rightarrow> string \<Rightarrow> string list" where
  "split_on c [] = [[]]"
| "split_on c (x # xs) =
     (if x = c then [] # split_on c xs
      else (case split_on c xs of [] \<Rightarrow> [[x]] | y # ys \<Rightarrow> (x # y) # ys))"

fun join_with :: "char \<Rightarrow> string list \<Rightarrow> string" where
  "join_with c [] = []"
| "join_with c [x] = x"
| "join_with c (x # y # ys) = x @ c # join_with c (y # ys)"

fun cut_at :: "char \<Rightarrow> string \<Rightarrow> string \<times> string \<times> bool" where
  "cut_at c [] = ([], [], False)"
| "cut_at c (x # xs) =
     (if x = c then ([], xs, True)
      else (case cut_at c xs of (b, a, f) \<Rightarrow> (x # b, a, f)))"

text \<open>\<open>strings.SplitN\<close>: at most \<open>n\<close> parts, the last one the unsplit rest.\<close>

fun split_n :: "char \<Rightarrow> nat \<Rightarrow> string \<Rightarrow> string list" where
  "split_n c 0 s = []"
| "split_n c (Suc 0) s = [s]"
| "split_n c (Suc (Suc n)) s =
     (case cut_at c s of (b, a, found) \<Rightarrow> if found then b # split_n c (Suc n) a else [s])"

lemma split_on_nonempty [simp]: "split_on c s \<noteq> []"
  by (cases s) (auto split: list.splits)

lemma join_split_on [gostr]: "join_with c (split_on c s) = s"
proof (induction s)
  case (Cons x xs)
  then show ?case
    by (cases "split_on c xs"; cases "tl (split_on c xs)") (auto split: list.splits)
qed simp

lemma split_on_append:
  "split_on c (s @ c # t) = split_on c s @ split_on c t"
proof (induction s)
  case (Cons x xs)
  then show ?case by (cases "split_on c xs") auto
qed simp

lemma split_on_no_sep: "c \<notin> set s \<Longrightarrow> split_on c s = [s]"
  by (induction s) auto

lemma split_join [gostr]:
  "ls \<noteq> [] \<Longrightarrow> \<forall>l\<in>set ls. c \<notin> set l \<Longrightarrow> split_on c (join_with c ls) = ls"
  by (induction c ls rule: join_with.induct) (auto simp: split_on_no_sep split_on_append)

lemma split_on_parts: "l \<in> set (split_on c s) \<Longrightarrow> c \<notin> set l"
  by (induction s arbitrary: l) (auto split: if_splits list.splits)

lemma set_split_on: "x \<noteq> c \<Longrightarrow> x \<in> set s \<longleftrightarrow> (\<exists>l\<in>set (split_on c s). x \<in> set l)"
proof (induction s)
  case (Cons y ys)
  then show ?case by (cases "split_on c ys") auto
qed simp

lemma length_split_on: "length (split_on c s) = Suc (count_list s c)"
proof (induction s)
  case (Cons y ys)
  then show ?case by (cases "split_on c ys") auto
qed simp

lemma join_with_append:
  "xs \<noteq> [] \<Longrightarrow> ys \<noteq> [] \<Longrightarrow> join_with c (xs @ ys) = join_with c xs @ c # join_with c ys"
  by (induction c xs rule: join_with.induct) (auto simp: neq_Nil_conv)

lemma cut_at_found: "cut_at c s = (b, a, True) \<Longrightarrow> s = b @ c # a \<and> c \<notin> set b"
  by (induction s arbitrary: b a) (auto split: if_splits prod.splits)

lemma cut_at_missing: "cut_at c s = (b, a, False) \<Longrightarrow> b = s \<and> a = [] \<and> c \<notin> set s"
  by (induction s arbitrary: b a) (auto split: if_splits prod.splits)

lemma cut_at_append [simp]: "c \<notin> set b \<Longrightarrow> cut_at c (b @ c # a) = (b, a, True)"
  by (induction b) auto

lemma cut_at_absent [simp]: "c \<notin> set s \<Longrightarrow> cut_at c s = (s, [], False)"
  by (induction s) auto

text \<open>Decimal rendering of a natural number, as \<open>%d\<close> and \<open>strconv.FormatInt\<close> print it.\<close>

fun show_nat :: "nat \<Rightarrow> string" where
  "show_nat n =
     (if n < 10 then [char_of (48 + n)] else show_nat (n div 10) @ [char_of (48 + n mod 10)])"

declare show_nat.simps [simp del]

definition show_int :: "int \<Rightarrow> string" where
  "show_int i = (if i < 0 then CHR ''-'' # show_nat (nat (- i)) else show_nat (nat i))"

end
