(* ===== verification/HourWindow.thy ===== *)
theory HourWindow
  imports Prelude
begin

text \<open>
  The trailing-hour window of \<open>internal/broker/limits.go\<close>: sixty one-minute buckets of int64 sums.
  \<open>window_of\<close> relates a window to the charges made so far, and \<open>hw_sum_spec\<close> shows that the ring of
  buckets computes, modulo 2^64, the sum of exactly the charges of the last sixty minutes, however
  long ago the others were.
\<close>

record hour_window =
  buckets :: "int list"
  minutes :: "int list"

definition new_window :: hour_window where
  "new_window = \<lparr>buckets = replicate 60 0, minutes = replicate 60 0\<rparr>"

definition unix_minute :: "time \<Rightarrow> int" where
  "unix_minute now = tdiv (now div nano_second) 60"

definition hw_add :: "hour_window \<Rightarrow> time \<Rightarrow> int \<Rightarrow> hour_window" where
  "hw_add h now n =
     (let m = unix_minute now;
          i = nat (trem m 60);
          h' = (if minutes h ! i \<noteq> m
                then h\<lparr>minutes := (minutes h)[i := m], buckets := (buckets h)[i := 0]\<rparr>
                else h)
      in h'\<lparr>buckets := (buckets h')[i := i64 (buckets h' ! i + n)]\<rparr>)"

definition hw_sum :: "hour_window \<Rightarrow> time \<Rightarrow> int" where
  "hw_sum h now =
     (let m = unix_minute now in
      fold (\<lambda>i total. if buckets h ! i \<noteq> 0 \<and> m - minutes h ! i < 60
                      then i64 (total + buckets h ! i) else total) [0..<60] 0)"

subsection \<open>What the window means\<close>

type_synonym charge_event = "int \<times> int"

definition charged_in :: "(int \<Rightarrow> bool) \<Rightarrow> charge_event list \<Rightarrow> int" where
  "charged_in P evs = sum_list (map snd (filter (\<lambda>e. P (fst e)) evs))"

definition slot_ok :: "charge_event list \<Rightarrow> int \<Rightarrow> hour_window \<Rightarrow> nat \<Rightarrow> bool" where
  "slot_ok evs hi h i \<longleftrightarrow>
     (minutes h ! i = 0 \<or> minutes h ! i mod 60 = int i) \<and> 0 \<le> minutes h ! i \<and> minutes h ! i \<le> hi \<and>
     (\<forall>e\<in>set evs. fst e mod 60 = int i \<longrightarrow> fst e \<le> minutes h ! i) \<and>
     buckets h ! i = i64 (charged_in (\<lambda>m. m mod 60 = int i \<and> m = minutes h ! i) evs)"

definition window_of :: "charge_event list \<Rightarrow> int \<Rightarrow> hour_window \<Rightarrow> bool" where
  "window_of evs hi h \<longleftrightarrow>
     length (buckets h) = 60 \<and> length (minutes h) = 60 \<and> 0 \<le> hi \<and>
     (\<forall>e\<in>set evs. 0 \<le> fst e \<and> fst e \<le> hi) \<and> (\<forall>i<60. slot_ok evs hi h i)"

lemma unix_minute_nonneg: "0 \<le> now \<Longrightarrow> 0 \<le> unix_minute now"
  by (simp add: unix_minute_def tdiv_nonneg pos_imp_zdiv_nonneg_iff)

lemma unix_minute_mono: "0 \<le> a \<Longrightarrow> a \<le> b \<Longrightarrow> unix_minute a \<le> unix_minute b"
  by (simp add: unix_minute_def tdiv_nonneg pos_imp_zdiv_nonneg_iff zdiv_mono1)

lemma charged_in_Nil [simp]: "charged_in P [] = 0"
  by (simp add: charged_in_def)

lemma charged_in_snoc:
  "charged_in P (evs @ [(m, n)]) = charged_in P evs + (if P m then n else 0)"
  by (simp add: charged_in_def)

lemma charged_in_none: "\<forall>e\<in>set evs. \<not> P (fst e) \<Longrightarrow> charged_in P evs = 0"
  by (simp add: charged_in_def filter_empty_conv)

lemma window_of_new: "window_of [] 0 new_window"
  by (simp add: window_of_def slot_ok_def new_window_def i64_def)

lemma window_of_later: "window_of evs l h \<Longrightarrow> l \<le> l' \<Longrightarrow> window_of evs l' h"
  by (fastforce simp: window_of_def slot_ok_def)

subsection \<open>Adding a charge\<close>

text \<open>The bucket the charge falls in, emptied first when it holds an older minute.\<close>

definition turn_slot :: "hour_window \<Rightarrow> int \<Rightarrow> nat \<Rightarrow> hour_window" where
  "turn_slot h m i =
     (if minutes h ! i \<noteq> m then h\<lparr>minutes := (minutes h)[i := m], buckets := (buckets h)[i := 0]\<rparr> else h)"

lemma turn_slot_ok:
  assumes w: "window_of evs hi h" and m: "hi \<le> m" and i: "i < 60" and im: "m mod 60 = int i"
  shows "buckets (turn_slot h m i) ! i = i64 (charged_in (\<lambda>e. e mod 60 = int i \<and> e = m) evs)"
proof (cases "minutes h ! i = m")
  case True
  then show ?thesis using w i im by (simp add: window_of_def slot_ok_def turn_slot_def)
next
  case False
  have "minutes h ! i \<le> hi" using w i by (simp add: window_of_def slot_ok_def)
  then have "minutes h ! i < m" using False m by linarith
  then have "\<forall>e\<in>set evs. \<not> (fst e mod 60 = int i \<and> fst e = m)"
    using w i by (fastforce simp: window_of_def slot_ok_def)
  then have "charged_in (\<lambda>e. e mod 60 = int i \<and> e = m) evs = 0" by (rule charged_in_none)
  moreover have "length (buckets h) = 60" using w by (simp add: window_of_def)
  ultimately show ?thesis using False i by (simp add: turn_slot_def i64_def)
qed

lemma window_of_add:
  assumes w: "window_of evs hi h" and now: "0 \<le> now" and hi: "hi \<le> unix_minute now"
  shows "window_of (evs @ [(unix_minute now, n)]) (unix_minute now) (hw_add h now n)"
proof -
  let ?m = "unix_minute now"
  let ?i = "nat (?m mod 60)"
  let ?t = "turn_slot h ?m ?i"
  have m0: "0 \<le> ?m" using now by (rule unix_minute_nonneg)
  then have i: "?i < 60" "int ?i = ?m mod 60" "nat (trem ?m 60) = ?i"
    by (simp_all add: trem_nonneg nat_less_iff)
  have len: "length (buckets h) = 60" "length (minutes h) = 60" using w by (simp_all add: window_of_def)
  have slot: "buckets ?t ! ?i = i64 (charged_in (\<lambda>e. e mod 60 = int ?i \<and> e = ?m) evs)"
    by (rule turn_slot_ok [OF w hi i(1)]) (simp add: i)
  have add: "hw_add h now n = ?t\<lparr>buckets := (buckets ?t)[?i := i64 (buckets ?t ! ?i + n)]\<rparr>"
    by (simp add: hw_add_def Let_def i(3) turn_slot_def)
  have mins: "minutes ?t = (minutes h)[?i := ?m]"
    by (cases "minutes h ! ?i = ?m") (simp_all add: turn_slot_def, metis list_update_id)
  have lens: "length (buckets ?t) = 60" using len by (simp add: turn_slot_def)
  have others: "buckets ?t ! j = buckets h ! j" if "j \<noteq> ?i" for j
    using that by (simp add: turn_slot_def)
  have "slot_ok (evs @ [(?m, n)]) ?m (hw_add h now n) j" if "j < 60" for j
  proof (cases "j = ?i")
    case True
    have "\<forall>e\<in>set evs. fst e \<le> ?m" using w hi by (fastforce simp: window_of_def)
    then show ?thesis
      using True i len lens m0 unfolding slot_ok_def add
      by (simp add: mins slot charged_in_snoc i64_add_left)
  next
    case False
    then have "?m mod 60 \<noteq> int j" using i(2) by (metis nat_int)
    moreover have "slot_ok evs hi h j" using w that by (simp add: window_of_def)
    ultimately show ?thesis
      using False hi unfolding slot_ok_def add by (simp add: mins others charged_in_snoc)
  qed
  then show ?thesis
    using w hi len lens m0 unfolding window_of_def add by (fastforce simp: mins)
qed

subsection \<open>Reading the sum\<close>

lemma one_slot_each:
  assumes "0 \<le> e" "e \<le> m" and "\<forall>i<60. mins i = 0 \<or> mins i mod 60 = int i"
    and "\<forall>i<60. mins i \<le> m" and "\<forall>i<60. 0 \<le> mins i" and "e \<le> mins (nat (e mod 60))"
  shows "sum_list (map (\<lambda>i. if m - mins i < 60 \<and> e mod 60 = int i \<and> e = mins i then n else (0::int)) [0..<60])
         = (if m - e < 60 then n else 0)"
proof -
  let ?i = "nat (e mod 60)"
  have i: "?i < 60" "int ?i = e mod 60" using assms(1) by (simp_all add: nat_less_iff)
  have live: "e = mins ?i" if "m - mins ?i < 60" "m - e < 60"
  proof -
    have "mins ?i mod 60 = e mod 60 \<or> mins ?i = 0" using assms(3) i by auto
    then show ?thesis
    proof
      assume "mins ?i mod 60 = e mod 60"
      then have "(mins ?i - e) mod 60 = 0" by (simp add: mod_diff_eq [symmetric])
      moreover have "0 \<le> mins ?i - e" "mins ?i - e < 60" using assms i that by auto
      ultimately show ?thesis by simp
    qed (use assms in auto)
  qed
  have iff: "m - mins ?i < 60 \<and> e = mins ?i \<longleftrightarrow> m - e < 60"
  proof
    assume "m - e < 60"
    then have "m - mins ?i < 60" using assms(6) by linarith
    then show "m - mins ?i < 60 \<and> e = mins ?i" using live \<open>m - e < 60\<close> by blast
  next
    assume "m - mins ?i < 60 \<and> e = mins ?i"
    then show "m - e < 60" by simp
  qed
  have "sum_list (map (\<lambda>i. if m - mins i < 60 \<and> e mod 60 = int i \<and> e = mins i then n else 0) [0..<60])
      = (\<Sum>i\<in>{0..<60}. if i = ?i then (if m - mins ?i < 60 \<and> e = mins ?i then n else 0) else 0)"
    using i(2) by (subst sum_set_upt_conv_sum_list_nat [symmetric], intro sum.cong) auto
  also have "\<dots> = (if m - e < 60 then n else 0)"
    using i(1) iff by (simp only: sum.delta finite_atLeastLessThan atLeastLessThan_iff) auto
  finally show ?thesis .
qed

lemma charged_by_slot:
  assumes "\<forall>e\<in>set evs. 0 \<le> fst e \<and> fst e \<le> m" and "\<forall>i<60. mins i = 0 \<or> mins i mod 60 = int i"
    and "\<forall>i<60. mins i \<le> m" and "\<forall>i<60. 0 \<le> mins i"
    and "\<forall>e\<in>set evs. fst e \<le> mins (nat (fst e mod 60))"
  shows "sum_list (map (\<lambda>i. if m - mins i < 60
                              then charged_in (\<lambda>e. e mod 60 = int i \<and> e = mins i) evs else 0) [0..<60])
         = charged_in (\<lambda>e. m - e < 60) evs"
  using assms(1,5)
proof (induction evs rule: rev_induct)
  case (snoc ev evs)
  obtain e n where ev: "ev = (e, n)" by (cases ev)
  let ?f = "\<lambda>i. if m - mins i < 60 then charged_in (\<lambda>e. e mod 60 = int i \<and> e = mins i) evs else 0"
  let ?g = "\<lambda>i. if m - mins i < 60 \<and> e mod 60 = int i \<and> e = mins i then n else (0::int)"
  have "sum_list (map ?g [0..<60]) = (if m - e < 60 then n else 0)"
    using snoc.prems assms(2-4) ev by (intro one_slot_each) auto
  moreover have "sum_list (map ?f [0..<60]) = charged_in (\<lambda>e. m - e < 60) evs"
    using snoc by simp
  moreover have "(\<lambda>i. if m - mins i < 60
      then charged_in (\<lambda>e. e mod 60 = int i \<and> e = mins i) (evs @ [ev]) else 0) = (\<lambda>i. ?f i + ?g i)"
    by (auto simp: ev charged_in_snoc)
  ultimately show ?case by (simp only: sum_list_addf ev charged_in_snoc)
qed (simp cong: if_cong)

lemma hw_sum_fold:
  assumes "\<forall>i<60. buckets h ! i = i64 (g i)"
  shows "hw_sum h now =
     i64 (sum_list (map (\<lambda>i. if unix_minute now - minutes h ! i < 60 then g i else 0) [0..<60]))"
proof -
  let ?c = "\<lambda>i. unix_minute now - minutes h ! i < 60"
  have step: "(if buckets h ! i \<noteq> 0 \<and> ?c i then i64 (t + buckets h ! i) else i64 t) =
      (if ?c i then i64 (t + i64 (g i)) else i64 t)" if "i < 60" for i t
    using assms that by auto
  have "fold (\<lambda>i t. if buckets h ! i \<noteq> 0 \<and> ?c i then i64 (t + buckets h ! i) else t) xs (i64 a) =
        fold (\<lambda>i t. if ?c i then i64 (t + i64 (g i)) else t) xs (i64 a)" if "\<forall>i\<in>set xs. i < 60" for xs a
    using that
  proof (induction xs arbitrary: a)
    case (Cons i xs)
    have "i64 (g i) = 0 \<Longrightarrow> i64 (a + g i) = i64 a"
      by (metis i64_add_right add_0_right)
    then show ?case using Cons assms by (auto simp: i64_add_left i64_add_right i64_idem)
  qed simp
  from this [of "[0..<60]" 0] show ?thesis
    using fold_i64_sum [of ?c g "[0..<60]" 0]
    by (simp add: hw_sum_def Let_def i64_def)
qed

lemma hw_sum_spec:
  assumes w: "window_of evs hi h" and hi: "hi \<le> unix_minute now"
  shows "hw_sum h now = i64 (charged_in (\<lambda>m. unix_minute now - m < 60) evs)"
proof -
  have slots: "\<forall>i<60. slot_ok evs hi h i" using w by (simp add: window_of_def)
  have evs: "\<forall>e\<in>set evs. 0 \<le> fst e \<and> fst e \<le> unix_minute now"
    using w hi by (fastforce simp: window_of_def)
  have "\<forall>e\<in>set evs. fst e \<le> minutes h ! nat (fst e mod 60)"
  proof
    fix e assume e: "e \<in> set evs"
    then have "0 \<le> fst e" using evs by blast
    then have "nat (fst e mod 60) < 60" "int (nat (fst e mod 60)) = fst e mod 60"
      by (simp_all add: nat_less_iff)
    then show "fst e \<le> minutes h ! nat (fst e mod 60)"
      using slots e by (auto simp: slot_ok_def)
  qed
  then have "sum_list (map (\<lambda>i. if unix_minute now - minutes h ! i < 60
        then charged_in (\<lambda>e. e mod 60 = int i \<and> e = minutes h ! i) evs else 0) [0..<60])
      = charged_in (\<lambda>m. unix_minute now - m < 60) evs"
    using evs slots hi by (intro charged_by_slot) (fastforce simp: slot_ok_def)+
  then show ?thesis
    using hw_sum_fold [of h "\<lambda>i. charged_in (\<lambda>m. m mod 60 = int i \<and> m = minutes h ! i) evs" now] slots
    by (simp add: slot_ok_def)
qed

end
