(* ===== verification/Regex.thy ===== *)
theory Regex
  imports Prelude
begin

text \<open>
  Anchored regular expressions, so that each \<open>regexp.MustCompile("^...$")\<close> of the source is
  transcribed as it is written and its match computed. \<open>rx_match\<close> decides by Brzozowski derivatives;
  \<open>lang\<close> is the set of strings the expression means, and \<open>rx_match_lang\<close> shows that they agree.
  The classes of the modelled expressions hold ASCII characters only, where Go's match over runes
  and a match over bytes are the same.
\<close>

datatype rx =
    Eps
  | Cls "char \<Rightarrow> bool"
  | Seq rx rx
  | Alt rx rx
  | Rep nat nat rx
  | Star rx
  | Nil_rx

fun nullable :: "rx \<Rightarrow> bool" where
  "nullable Eps = True"
| "nullable (Cls p) = False"
| "nullable (Seq r s) = (nullable r \<and> nullable s)"
| "nullable (Alt r s) = (nullable r \<or> nullable s)"
| "nullable (Rep lo hi r) = (lo \<le> hi \<and> (lo = 0 \<or> nullable r))"
| "nullable (Star r) = True"
| "nullable Nil_rx = False"

fun deriv :: "char \<Rightarrow> rx \<Rightarrow> rx" where
  "deriv c Eps = Nil_rx"
| "deriv c (Cls p) = (if p c then Eps else Nil_rx)"
| "deriv c (Seq r s) =
     (if nullable r then Alt (Seq (deriv c r) s) (deriv c s) else Seq (deriv c r) s)"
| "deriv c (Alt r s) = Alt (deriv c r) (deriv c s)"
| "deriv c (Rep lo hi r) =
     (if hi = 0 \<or> hi < lo then Nil_rx else Seq (deriv c r) (Rep (lo - 1) (hi - 1) r))"
| "deriv c (Star r) = Seq (deriv c r) (Star r)"
| "deriv c Nil_rx = Nil_rx"

fun rx_match :: "rx \<Rightarrow> string \<Rightarrow> bool" where
  "rx_match r [] = nullable r"
| "rx_match r (c # cs) = rx_match (deriv c r) cs"

abbreviation Opt :: "rx \<Rightarrow> rx" where "Opt r \<equiv> Alt Eps r"
abbreviation Plus :: "rx \<Rightarrow> rx" where "Plus r \<equiv> Seq r (Star r)"
abbreviation Ch :: "char \<Rightarrow> rx" where "Ch c \<equiv> Cls (\<lambda>x. x = c)"

subsection \<open>The language of an expression\<close>

definition conc :: "string set \<Rightarrow> string set \<Rightarrow> string set" where
  "conc A B = {u @ v | u v. u \<in> A \<and> v \<in> B}"

definition star :: "string set \<Rightarrow> string set" where
  "star A = {concat us | us. set us \<subseteq> A}"

definition reps :: "nat \<Rightarrow> nat \<Rightarrow> string set \<Rightarrow> string set" where
  "reps lo hi A = {concat us | us. set us \<subseteq> A \<and> lo \<le> length us \<and> length us \<le> hi}"

fun lang :: "rx \<Rightarrow> string set" where
  "lang Eps = {[]}"
| "lang (Cls p) = {[c] | c. p c}"
| "lang (Seq r s) = conc (lang r) (lang s)"
| "lang (Alt r s) = lang r \<union> lang s"
| "lang (Rep lo hi r) = reps lo hi (lang r)"
| "lang (Star r) = star (lang r)"
| "lang Nil_rx = {}"

lemma in_conc: "w \<in> conc A B \<longleftrightarrow> (\<exists>u v. w = u @ v \<and> u \<in> A \<and> v \<in> B)"
  by (auto simp: conc_def)

lemma in_star: "w \<in> star A \<longleftrightarrow> (\<exists>us. w = concat us \<and> set us \<subseteq> A)"
  by (auto simp: star_def)

lemma in_reps:
  "w \<in> reps lo hi A \<longleftrightarrow> (\<exists>us. w = concat us \<and> set us \<subseteq> A \<and> lo \<le> length us \<and> length us \<le> hi)"
  by (auto simp: reps_def)

lemma nil_conc: "[] \<in> conc A B \<longleftrightarrow> [] \<in> A \<and> [] \<in> B"
  by (auto simp: in_conc)

lemma nil_reps: "[] \<in> reps lo hi A \<longleftrightarrow> lo \<le> hi \<and> (lo = 0 \<or> [] \<in> A)"
proof
  assume "[] \<in> reps lo hi A"
  then obtain us where us: "[] = concat us" "set us \<subseteq> A" "lo \<le> length us" "length us \<le> hi"
    unfolding in_reps by blast
  show "lo \<le> hi \<and> (lo = 0 \<or> [] \<in> A)"
  proof (cases us)
    case Nil
    then show ?thesis using us by simp
  next
    case (Cons u vs)
    then have "u = []" "u \<in> A" using us by simp_all
    then show ?thesis using us by simp
  qed
next
  assume h: "lo \<le> hi \<and> (lo = 0 \<or> [] \<in> A)"
  have "[] = concat (replicate lo [])" "set (replicate lo []) \<subseteq> A"
    "lo \<le> length (replicate lo [])" "length (replicate lo []) \<le> hi"
    using h by auto
  then show "[] \<in> reps lo hi A" unfolding in_reps by blast
qed

lemma nullable_lang: "nullable r \<longleftrightarrow> [] \<in> lang r"
  by (induction r) (auto simp: nil_conc nil_reps in_star intro: exI [of _ "[]"])

lemma cons_conc:
  "c # w \<in> conc A B \<longleftrightarrow> w \<in> conc {v. c # v \<in> A} B \<or> ([] \<in> A \<and> c # w \<in> B)"
proof
  assume "c # w \<in> conc A B"
  then obtain u v where uv: "c # w = u @ v" "u \<in> A" "v \<in> B" unfolding in_conc by blast
  show "w \<in> conc {v. c # v \<in> A} B \<or> ([] \<in> A \<and> c # w \<in> B)"
  proof (cases u)
    case Nil
    then show ?thesis using uv by simp
  next
    case (Cons d u')
    then have "w = u' @ v" "c # u' \<in> A" using uv by simp_all
    then show ?thesis using uv(3) unfolding in_conc mem_Collect_eq by blast
  qed
next
  assume "w \<in> conc {v. c # v \<in> A} B \<or> ([] \<in> A \<and> c # w \<in> B)"
  then show "c # w \<in> conc A B"
  proof
    assume "w \<in> conc {v. c # v \<in> A} B"
    then obtain u v where "w = u @ v" "c # u \<in> A" "v \<in> B" unfolding in_conc by blast
    then show ?thesis unfolding in_conc by (intro exI [of _ "c # u"] exI [of _ v]) simp
  next
    assume "[] \<in> A \<and> c # w \<in> B"
    then show ?thesis unfolding in_conc by (intro exI [of _ "[]"] exI [of _ "c # w"]) simp
  qed
qed

lemma cons_concat:
  "c # w = concat us \<Longrightarrow>
     \<exists>k v vs. us = replicate k [] @ (c # v) # vs \<and> w = v @ concat vs"
proof (induction us)
  case (Cons u us)
  show ?case
  proof (cases u)
    case Nil
    then obtain k v vs where "us = replicate k [] @ (c # v) # vs" "w = v @ concat vs"
      using Cons by auto
    then show ?thesis using Nil by (intro exI [of _ "Suc k"]) auto
  next
    case (Cons d v)
    then show ?thesis using \<open>c # w = concat (u # us)\<close> by (intro exI [of _ 0]) auto
  qed
qed simp

lemma star_cons:
  "c # w \<in> star A \<Longrightarrow> \<exists>v vs. w = v @ concat vs \<and> c # v \<in> A \<and> set vs \<subseteq> A"
proof -
  assume "c # w \<in> star A"
  then obtain us where us: "c # w = concat us" "set us \<subseteq> A" unfolding in_star by blast
  from cons_concat [OF us(1)] obtain k v vs where
    split: "us = replicate k [] @ (c # v) # vs" "w = v @ concat vs" by blast
  have "c # v \<in> A" "set vs \<subseteq> A" using us(2) unfolding split(1) by simp_all
  then show ?thesis using split(2) by blast
qed

lemma cons_star: "c # w \<in> star A \<longleftrightarrow> w \<in> conc {v. c # v \<in> A} (star A)"
proof
  assume "c # w \<in> star A"
  from star_cons [OF this] show "w \<in> conc {v. c # v \<in> A} (star A)"
    unfolding in_conc in_star mem_Collect_eq by blast
next
  assume "w \<in> conc {v. c # v \<in> A} (star A)"
  then obtain v vs where vs: "w = v @ concat vs" "c # v \<in> A" "set vs \<subseteq> A"
    unfolding in_conc in_star mem_Collect_eq by blast
  then have "c # w = concat ((c # v) # vs)" "set ((c # v) # vs) \<subseteq> A" by simp_all
  then show "c # w \<in> star A" unfolding in_star by blast
qed

lemma reps_cons:
  "c # w \<in> reps lo hi A \<Longrightarrow>
     \<exists>v vs. w = v @ concat vs \<and> c # v \<in> A \<and> set vs \<subseteq> A \<and> lo \<le> Suc (length vs) \<and> Suc (length vs) \<le> hi"
proof -
  assume "c # w \<in> reps lo hi A"
  then obtain us where us: "c # w = concat us" "set us \<subseteq> A" "lo \<le> length us" "length us \<le> hi"
    unfolding in_reps by blast
  from cons_concat [OF us(1)] obtain k v vs where
    split: "us = replicate k [] @ (c # v) # vs" "w = v @ concat vs" by blast
  let ?tl = "replicate k [] @ vs"
  have "c # v \<in> A" "set ?tl \<subseteq> A" using us(2) unfolding split(1) by simp_all
  moreover have "w = v @ concat ?tl" using split(2) by simp
  moreover have "lo \<le> Suc (length ?tl)" "Suc (length ?tl) \<le> hi"
    using us(3,4) unfolding split(1) by simp_all
  ultimately show ?thesis by blast
qed

lemma cons_reps:
  "c # w \<in> reps lo hi A \<longleftrightarrow>
     hi \<noteq> 0 \<and> lo \<le> hi \<and> w \<in> conc {v. c # v \<in> A} (reps (lo - 1) (hi - 1) A)"
proof
  assume "c # w \<in> reps lo hi A"
  from reps_cons [OF this] obtain v vs where
    vs: "w = v @ concat vs" "c # v \<in> A" "set vs \<subseteq> A" "lo \<le> Suc (length vs)" "Suc (length vs) \<le> hi"
    by blast
  then have "lo - 1 \<le> length vs" "length vs \<le> hi - 1" "hi \<noteq> 0" "lo \<le> hi" by linarith+
  then show "hi \<noteq> 0 \<and> lo \<le> hi \<and> w \<in> conc {v. c # v \<in> A} (reps (lo - 1) (hi - 1) A)"
    using vs unfolding in_conc in_reps mem_Collect_eq by blast
next
  assume h: "hi \<noteq> 0 \<and> lo \<le> hi \<and> w \<in> conc {v. c # v \<in> A} (reps (lo - 1) (hi - 1) A)"
  then obtain v vs where vs: "w = v @ concat vs" "c # v \<in> A" "set vs \<subseteq> A"
    "lo - 1 \<le> length vs" "length vs \<le> hi - 1"
    unfolding in_conc in_reps mem_Collect_eq by blast
  have "lo \<le> Suc (length vs)" "Suc (length vs) \<le> hi" using vs(4,5) h by linarith+
  then have "c # w = concat ((c # v) # vs)" "set ((c # v) # vs) \<subseteq> A"
    "lo \<le> length ((c # v) # vs)" "length ((c # v) # vs) \<le> hi"
    using vs by simp_all
  then show "c # w \<in> reps lo hi A" unfolding in_reps by blast
qed

lemma deriv_lang: "w \<in> lang (deriv c r) \<longleftrightarrow> c # w \<in> lang r"
proof (induction r arbitrary: w)
  case (Seq r s)
  have "lang (deriv c r) = {v. c # v \<in> lang r}" using Seq.IH(1) by auto
  then show ?case using Seq.IH(2) by (simp add: cons_conc nullable_lang)
next
  case (Star r)
  have "lang (deriv c r) = {v. c # v \<in> lang r}" using Star.IH by auto
  then show ?case by (simp add: cons_star)
next
  case (Rep lo hi r)
  have "lang (deriv c r) = {v. c # v \<in> lang r}" using Rep.IH by auto
  then show ?case by (auto simp: cons_reps)
qed auto

lemma rx_match_lang: "rx_match r w \<longleftrightarrow> w \<in> lang r"
  by (induction w arbitrary: r) (auto simp: nullable_lang deriv_lang)

subsection \<open>Facts shared by the transcribed expressions\<close>

lemma match_Seq: "rx_match (Seq r s) w \<longleftrightarrow> (\<exists>u v. w = u @ v \<and> rx_match r u \<and> rx_match s v)"
  by (simp add: rx_match_lang in_conc)

lemma match_Alt: "rx_match (Alt r s) w \<longleftrightarrow> rx_match r w \<or> rx_match s w"
  by (simp add: rx_match_lang)

lemma match_Eps: "rx_match Eps w \<longleftrightarrow> w = []"
  by (simp add: rx_match_lang)

lemma match_Cls: "rx_match (Cls p) w \<longleftrightarrow> (\<exists>c. w = [c] \<and> p c)"
  by (auto simp: rx_match_lang)

lemma match_Star: "rx_match (Star r) w \<longleftrightarrow> (\<exists>us. w = concat us \<and> (\<forall>u\<in>set us. rx_match r u))"
  by (auto simp: rx_match_lang in_star subset_iff)

lemma concat_singletons:
  "\<forall>u\<in>set us. \<exists>c. u = [c] \<and> p c \<Longrightarrow> list_all p (concat us) \<and> length (concat us) = length us"
  by (induction us) auto

lemma singletons_of: "list_all p w \<Longrightarrow> w = concat (map (\<lambda>c. [c]) w) \<and> (\<forall>u\<in>set (map (\<lambda>c. [c]) w). \<exists>c. u = [c] \<and> p c)"
  by (induction w) auto

lemma match_Star_Cls: "rx_match (Star (Cls p)) w \<longleftrightarrow> list_all p w"
proof
  assume "rx_match (Star (Cls p)) w"
  then obtain us where "w = concat us" "\<forall>u\<in>set us. \<exists>c. u = [c] \<and> p c"
    by (auto simp: match_Star match_Cls)
  then show "list_all p w" using concat_singletons by blast
next
  assume "list_all p w"
  from singletons_of [OF this] show "rx_match (Star (Cls p)) w"
    unfolding match_Star match_Cls by blast
qed

lemma match_Rep_Cls:
  "rx_match (Rep lo hi (Cls p)) w \<longleftrightarrow> list_all p w \<and> lo \<le> length w \<and> length w \<le> hi"
proof
  assume "rx_match (Rep lo hi (Cls p)) w"
  then obtain us where us: "w = concat us" "\<forall>u\<in>set us. \<exists>c. u = [c] \<and> p c" "lo \<le> length us" "length us \<le> hi"
    by (auto simp: rx_match_lang in_reps subset_iff)
  with concat_singletons [OF us(2)] show "list_all p w \<and> lo \<le> length w \<and> length w \<le> hi" by simp
next
  assume h: "list_all p w \<and> lo \<le> length w \<and> length w \<le> hi"
  from singletons_of [OF h [THEN conjunct1]] have
    "w = concat (map (\<lambda>c. [c]) w)" "set (map (\<lambda>c. [c]) w) \<subseteq> lang (Cls p)" by auto
  moreover have "lo \<le> length (map (\<lambda>c. [c]) w)" "length (map (\<lambda>c. [c]) w) \<le> hi" using h by auto
  ultimately show "rx_match (Rep lo hi (Cls p)) w"
    unfolding rx_match_lang lang.simps in_reps by blast
qed

lemmas rx_cases = match_Seq match_Alt match_Eps match_Cls match_Star_Cls match_Rep_Cls

text \<open>Every character of a matched string lies in one of the expression's classes.\<close>

fun chars_in :: "(char \<Rightarrow> bool) \<Rightarrow> rx \<Rightarrow> bool" where
  "chars_in P Eps = True"
| "chars_in P (Cls q) = (\<forall>c. q c \<longrightarrow> P c)"
| "chars_in P (Seq r s) = (chars_in P r \<and> chars_in P s)"
| "chars_in P (Alt r s) = (chars_in P r \<and> chars_in P s)"
| "chars_in P (Rep lo hi r) = chars_in P r"
| "chars_in P (Star r) = chars_in P r"
| "chars_in P Nil_rx = True"

lemma list_all_concat: "\<forall>u\<in>set us. list_all P u \<Longrightarrow> list_all P (concat us)"
  by (induction us) auto

lemma lang_chars: "chars_in P r \<Longrightarrow> w \<in> lang r \<Longrightarrow> list_all P w"
proof (induction r arbitrary: w)
  case (Seq r s)
  then show ?case by (auto simp: in_conc)
next
  case (Rep lo hi r)
  then show ?case by (auto simp: in_reps subset_iff intro!: list_all_concat)
next
  case (Star r)
  then show ?case by (auto simp: in_star subset_iff intro!: list_all_concat)
qed auto

lemma match_chars: "chars_in P r \<Longrightarrow> rx_match r w \<Longrightarrow> list_all P w"
  by (simp add: rx_match_lang lang_chars)

text \<open>A literal, and the expression of a fixed string.\<close>

fun lit :: "string \<Rightarrow> rx" where
  "lit [] = Eps"
| "lit (c # cs) = Seq (Ch c) (lit cs)"

lemma match_lit [simp]: "rx_match (lit s) w \<longleftrightarrow> w = s"
  by (induction s arbitrary: w) (auto simp: match_Seq match_Cls match_Eps)

end
