(* ===== verification/BrokerLedger.thy ===== *)
theory BrokerLedger
  imports HourWindow Regex
begin

text \<open>
  The egress broker's spend ledger (\<open>internal/broker\<close>: \<open>limits.go\<close>, \<open>usageledger.go\<close>, the limit types
  of \<open>config.go\<close>, \<open>reserve\<close> and \<open>shortfall\<close> of \<open>server.go\<close>, the usage arithmetic of \<open>usage.go\<close>, the
  model ids of \<open>inspect.go\<close> and \<open>provider.BareModelID\<close>). Every sum is an int64 with its wrap-around.
  The pods' counters are shared by pointer between the map and the releases of in-flight requests,
  so the ledger holds a store from addresses to counters beside the map from pod keys to addresses.
  Prices come from floating-point rates: the pricer's two functions are arguments.
\<close>

subsection \<open>Model ids\<close>

definition BedrockGeoPrefixes :: "string list" where
  "BedrockGeoPrefixes = [''us'', ''us-gov'', ''eu'', ''apac'', ''jp'', ''au'', ''global'']"

fun strip_geo :: "string list \<Rightarrow> string \<Rightarrow> string option" where
  "strip_geo [] id' = None"
| "strip_geo (geo # geos) id' =
     (case cut_prefix id' (geo @ ''.anthropic.'') of Some rest \<Rightarrow> Some rest | None \<Rightarrow> strip_geo geos id')"

record unicode =
  u_lower :: "string \<Rightarrow> string"
  u_trim :: "string \<Rightarrow> string"

definition BareModelID :: "unicode \<Rightarrow> string \<Rightarrow> string" where
  "BareModelID u s =
     (let s1 = to_lower (u_lower u) (trim_space (u_trim u) s);
          s2 = (case cut_at (CHR ''/'') s1 of (_, rest, ok) \<Rightarrow> if ok then rest else s1)
      in case strip_geo BedrockGeoPrefixes s2 of
           Some rest \<Rightarrow> rest
         | None \<Rightarrow> trim_prefix s2 ''anthropic.'')"

definition arnModel :: "string \<Rightarrow> string" where
  "arnModel arn =
     (let parts = split_n (CHR '':'') 6 arn in
      if length parts \<noteq> 6 \<or> parts ! 0 \<noteq> ''arn'' \<or> \<not> prefix ''aws'' (parts ! 1) \<or> parts ! 2 \<noteq> ''bedrock''
      then []
      else (case cut_at (CHR ''/'') (parts ! 5) of (typ, mid, ok) \<Rightarrow>
        if \<not> ok \<or> mid = [] \<or> CHR ''/'' \<in> set mid then []
        else if typ = ''foundation-model'' \<or> typ = ''inference-profile'' then mid
        else []))"

definition bareModel :: "unicode \<Rightarrow> string \<Rightarrow> string" where
  "bareModel u s =
     (let s1 = to_lower (u_lower u) (trim_space (u_trim u) s) in
      if prefix ''arn:'' s1
      then (let m = arnModel s1 in if m = [] then [] else BareModelID u m)
      else BareModelID u s1)"

definition modelKeyRE :: rx where
  "modelKeyRE =
     Seq (Cls (\<lambda>c. is_lower c \<or> is_digit c))
         (Rep 0 127 (Cls (\<lambda>c. is_lower c \<or> is_digit c \<or> c \<in> set ''._:@-'')))"

abbreviation ModelInvalid :: string where "ModelInvalid \<equiv> ''(invalid)''"
abbreviation ModelOther :: string where "ModelOther \<equiv> ''(other)''"
definition MaxModels :: nat where "MaxModels = 8"

definition modelKey :: "unicode \<Rightarrow> string \<Rightarrow> string" where
  "modelKey u wire = (let m = bareModel u wire in if rx_match modelKeyRE m then m else ModelInvalid)"

subsection \<open>Usage\<close>

record usage =
  u_input :: int
  cacheCreation :: int
  cacheWrite1h :: int
  cacheRead :: int
  u_output :: int

definition no_usage :: usage where
  "no_usage = \<lparr>u_input = 0, cacheCreation = 0, cacheWrite1h = 0, cacheRead = 0, u_output = 0\<rparr>"

definition usage_cacheWrite5m :: "usage \<Rightarrow> int" where
  "usage_cacheWrite5m u = max (i64 (cacheCreation u - cacheWrite1h u)) 0"

definition usage_total :: "usage \<Rightarrow> int" where
  "usage_total u = i64 (i64 (i64 (u_input u + cacheCreation u) + cacheRead u) + u_output u)"

definition usage_merge :: "usage \<Rightarrow> usage \<Rightarrow> usage" where
  "usage_merge u v =
     \<lparr>u_input = max (u_input u) (u_input v), cacheCreation = max (cacheCreation u) (cacheCreation v),
      cacheWrite1h = max (cacheWrite1h u) (cacheWrite1h v),
      cacheRead = max (cacheRead u) (cacheRead v), u_output = max (u_output u) (u_output v)\<rparr>"

definition usage_minus :: "usage \<Rightarrow> usage \<Rightarrow> usage" where
  "usage_minus u v =
     \<lparr>u_input = i64 (u_input u - u_input v), cacheCreation = i64 (cacheCreation u - cacheCreation v),
      cacheWrite1h = i64 (cacheWrite1h u - cacheWrite1h v),
      cacheRead = i64 (cacheRead u - cacheRead v), u_output = i64 (u_output u - u_output v)\<rparr>"

definition usage_mergeAdd :: "usage \<Rightarrow> usage \<Rightarrow> usage" where
  "usage_mergeAdd u v =
     \<lparr>u_input = i64 (u_input u + u_input v), cacheCreation = i64 (cacheCreation u + cacheCreation v),
      cacheWrite1h = i64 (cacheWrite1h u + cacheWrite1h v),
      cacheRead = i64 (cacheRead u + cacheRead v), u_output = i64 (u_output u + u_output v)\<rparr>"

subsection \<open>Limits\<close>

record limits =
  requestsPerPod :: int
  concurrentPerPod :: int
  concurrencyWait :: duration
  tokensPerPod :: int
  tokensPerHour :: int
  limit_unit :: string
  costPerPod :: int
  costPerHour :: int
  maxTokensCeiling :: int

definition limits_cost :: "limits \<Rightarrow> bool" where
  "limits_cost l \<longleftrightarrow> limit_unit l = ''cost''"

definition podCostLimit :: "limits \<Rightarrow> int \<Rightarrow> int" where
  "podCostLimit l budget = (if 0 < budget \<and> budget < costPerPod l then budget else costPerPod l)"

definition over :: "int \<Rightarrow> int \<Rightarrow> int \<Rightarrow> bool" where
  "over committed reserve limit \<longleftrightarrow> limit \<le> committed \<or> limit < i64 (committed + reserve)"

record reservation =
  r_tokens :: int
  r_cost :: int
  r_budget :: int

definition maxChargeMicroUSD :: int where "maxChargeMicroUSD = 1000000000000000"

subsection \<open>The ledger\<close>

record model_usage =
  mu_route :: string
  mu_credential :: string
  observed :: usage
  shortfall_tokens :: int

type_synonym model_entry = "string \<times> string"

record pod_counters =
  requests :: int
  inflight :: int
  tokens :: int
  reserved :: int
  cost :: int
  costReserved :: int
  seen :: time
  firstSeen :: time
  models :: "(model_entry \<times> model_usage) list"
  freed :: bool

definition new_pod :: "time \<Rightarrow> pod_counters" where
  "new_pod now = \<lparr>requests = 0, inflight = 0, tokens = 0, reserved = 0, cost = 0, costReserved = 0,
     seen = now, firstSeen = now, models = [], freed = False\<rparr>"

record ledger =
  l_limits :: limits
  pods :: "string \<Rightarrow> nat option"
  heap :: "nat \<Rightarrow> pod_counters"
  next_addr :: nat
  hour :: hour_window
  hourCost :: hour_window
  l_reserved :: int
  reservedCost :: int
  lastSweep :: time

definition newLedger :: "limits \<Rightarrow> ledger" where
  "newLedger lim = \<lparr>l_limits = lim, pods = (\<lambda>_. None), heap = (\<lambda>_. new_pod 0), next_addr = 0,
     hour = new_window, hourCost = new_window, l_reserved = 0, reservedCost = 0, lastSweep = 0\<rparr>"

definition ledgerTTL :: duration where "ledgerTTL = 24 * nano_hour"

definition sweepLocked :: "ledger \<Rightarrow> time \<Rightarrow> ledger" where
  "sweepLocked l now =
     (if time_sub now (lastSweep l) < nano_minute then l
      else l\<lparr>lastSweep := now,
             pods := (\<lambda>name. case pods l name of
                None \<Rightarrow> None
              | Some a \<Rightarrow> if inflight (heap l a) = 0 \<and> ledgerTTL < time_sub now (seen (heap l a))
                          then None else Some a)\<rparr>)"

definition podLocked :: "ledger \<Rightarrow> string \<Rightarrow> time \<Rightarrow> ledger \<times> nat" where
  "podLocked l pod now =
     (case pods l pod of
        Some a \<Rightarrow> (l\<lparr>heap := (heap l)(a := (heap l a)\<lparr>seen := now\<rparr>)\<rparr>, a)
      | None \<Rightarrow> (l\<lparr>pods := (pods l)(pod \<mapsto> next_addr l),
                   heap := (heap l)(next_addr l := new_pod now),
                   next_addr := Suc (next_addr l)\<rparr>, next_addr l))"

datatype refusal =
    HourlyTokenCeiling int
  | HourlyCostCeiling int
  | PodTokens int
  | PodCost int
  | PodRequests int
  | PodConcurrent int

datatype verdict = Admitted | Refused refusal | WaitFor refusal

definition tryAdmit :: "ledger \<Rightarrow> string \<Rightarrow> reservation \<Rightarrow> time \<Rightarrow> ledger \<times> nat \<times> verdict" where
  "tryAdmit l0 pod res now =
     (let (l, a) = podLocked (sweepLocked l0 now) pod now;
          p = heap l a;
          lim = l_limits l;
          podCost = podCostLimit lim (r_budget res)
      in if 0 < tokensPerHour lim \<and> over (i64 (hw_sum (hour l) now + l_reserved l)) (r_tokens res) (tokensPerHour lim)
           then (l, a, Refused (HourlyTokenCeiling (tokensPerHour lim)))
         else if limits_cost lim \<and> 0 < costPerHour lim \<and>
                 over (i64 (hw_sum (hourCost l) now + reservedCost l)) (r_cost res) (costPerHour lim)
           then (l, a, Refused (HourlyCostCeiling (costPerHour lim)))
         else if 0 < tokensPerPod lim \<and> over (i64 (tokens p + reserved p)) (r_tokens res) (tokensPerPod lim)
           then (l, a, Refused (PodTokens (tokensPerPod lim)))
         else if limits_cost lim \<and> over (i64 (cost p + costReserved p)) (r_cost res) podCost
           then (l, a, Refused (PodCost podCost))
         else if 0 < requestsPerPod lim \<and> requestsPerPod lim \<le> requests p
           then (l, a, Refused (PodRequests (requestsPerPod lim)))
         else if 0 < concurrentPerPod lim \<and> concurrentPerPod lim \<le> inflight p
           then (if concurrencyWait lim \<le> 0 then (l, a, Refused (PodConcurrent (concurrentPerPod lim)))
                 else (l\<lparr>heap := (heap l)(a := p\<lparr>freed := True\<rparr>)\<rparr>, a,
                       WaitFor (PodConcurrent (concurrentPerPod lim))))
         else (l\<lparr>heap := (heap l)(a := p\<lparr>requests := i64 (requests p + 1),
                   inflight := i64 (inflight p + 1),
                   reserved := i64 (reserved p + r_tokens res),
                   costReserved := i64 (costReserved p + r_cost res)\<rparr>),
                 l_reserved := i64 (l_reserved l + r_tokens res),
                 reservedCost := i64 (reservedCost l + r_cost res)\<rparr>, a, Admitted))"

definition release :: "ledger \<Rightarrow> nat \<Rightarrow> reservation \<Rightarrow> time \<Rightarrow> ledger" where
  "release l a res now =
     (let p = heap l a in
      l\<lparr>heap := (heap l)(a := p\<lparr>inflight := i64 (inflight p - 1),
           reserved := i64 (reserved p - r_tokens res),
           costReserved := i64 (costReserved p - r_cost res),
           seen := now, freed := False\<rparr>),
        l_reserved := i64 (l_reserved l - r_tokens res),
        reservedCost := i64 (reservedCost l - r_cost res)\<rparr>)"

text \<open>
  \<open>admit\<close> clamps the reservation, then tries until something other than the in-flight cap decides,
  its wait ends or its caller goes away. What the wait sees is a list of wake-ups: a freed slot, with
  the ledger as other requests have left it and the time, or the end of the wait; \<open>None\<close> is a wait
  that has not ended yet.
\<close>

definition clampReservation :: "reservation \<Rightarrow> reservation" where
  "clampReservation res =
     res\<lparr>r_tokens := max (r_tokens res) 0, r_cost := min (max (r_cost res) 0) maxChargeMicroUSD\<rparr>"

datatype wake = Freed ledger time | DeadlineReached ledger | CtxDone ledger

fun admit_wait :: "string \<Rightarrow> reservation \<Rightarrow> ledger \<times> nat \<times> verdict \<Rightarrow> wake list
    \<Rightarrow> (ledger \<times> nat \<times> verdict) option" where
  "admit_wait pod res (l, a, WaitFor r) (Freed l' now # ws) = admit_wait pod res (tryAdmit l' pod res now) ws"
| "admit_wait pod res (l, a, WaitFor r) (DeadlineReached l' # ws) = Some (l', a, Refused r)"
| "admit_wait pod res (l, a, WaitFor r) (CtxDone l' # ws) = Some (l', a, Refused r)"
| "admit_wait pod res (l, a, WaitFor r) [] = None"
| "admit_wait pod res (l, a, Admitted) ws = Some (l, a, Admitted)"
| "admit_wait pod res (l, a, Refused r) ws = Some (l, a, Refused r)"

definition admit :: "ledger \<Rightarrow> string \<Rightarrow> reservation \<Rightarrow> time \<Rightarrow> wake list
    \<Rightarrow> (ledger \<times> nat \<times> verdict) option" where
  "admit l pod res now ws =
     (let r = clampReservation res in admit_wait pod r (tryAdmit l pod r now) ws)"

definition chargeLocked :: "ledger \<Rightarrow> nat \<Rightarrow> int \<Rightarrow> int \<Rightarrow> time \<Rightarrow> ledger" where
  "chargeLocked l a n c now =
     (let l1 = (if 0 < n
                then l\<lparr>heap := (heap l)(a := (heap l a)\<lparr>tokens := i64 (tokens (heap l a) + n)\<rparr>),
                       hour := hw_add (hour l) now n\<rparr>
                else l)
      in if 0 < c
         then l1\<lparr>heap := (heap l1)(a := (heap l1 a)\<lparr>cost := i64 (cost (heap l1 a) + c)\<rparr>),
                 hourCost := hw_add (hourCost l1) now c\<rparr>
         else l1)"

definition charge :: "ledger \<Rightarrow> string \<Rightarrow> int \<Rightarrow> time \<Rightarrow> ledger" where
  "charge l pod n now =
     (if n \<le> 0 then l else (case podLocked l pod now of (l', a) \<Rightarrow> chargeLocked l' a n 0 now))"

definition modelLocked :: "(model_entry \<times> model_usage) list \<Rightarrow> string \<Rightarrow> string \<Rightarrow> string
    \<Rightarrow> (model_entry \<times> model_usage) list \<times> model_entry" where
  "modelLocked ms m route cred =
     (let fresh = \<lparr>mu_route = route, mu_credential = cred, observed = no_usage, shortfall_tokens = 0\<rparr>;
          key = (m, cred); other = (ModelOther, cred)
      in if map_of ms key \<noteq> None then (ms, key)
         else if MaxModels \<le> length ms
              then (if map_of ms other \<noteq> None then (ms, other) else (ms @ [(other, fresh)], other))
              else (ms @ [(key, fresh)], key))"

definition update_entry :: "model_entry \<Rightarrow> (model_usage \<Rightarrow> model_usage)
    \<Rightarrow> (model_entry \<times> model_usage) list \<Rightarrow> (model_entry \<times> model_usage) list" where
  "update_entry k f ms = map (\<lambda>(k', m). (k', if k' = k then f m else m)) ms"

record pricer =
  p_cost :: "string \<Rightarrow> usage \<Rightarrow> int"
  p_outputCost :: "string \<Rightarrow> int \<Rightarrow> int"

definition record_model :: "ledger \<Rightarrow> nat \<Rightarrow> string \<Rightarrow> string \<Rightarrow> string \<Rightarrow> (model_usage \<Rightarrow> model_usage) \<Rightarrow> ledger" where
  "record_model l a m route cred f =
     (let p = heap l a; (ms, key) = modelLocked (models p) m route cred
      in l\<lparr>heap := (heap l)(a := p\<lparr>models := update_entry key f ms\<rparr>)\<rparr>)"

definition observe :: "unicode \<Rightarrow> pricer \<Rightarrow> ledger \<Rightarrow> string \<Rightarrow> string \<Rightarrow> string \<Rightarrow> string \<Rightarrow> usage \<Rightarrow> time
    \<Rightarrow> ledger \<times> int" where
  "observe u pr l pod m route cred d now =
     (if usage_total d \<le> 0 then (l, 0)
      else let c = p_cost pr m d;
               (l1, a) = podLocked l pod now;
               l2 = record_model l1 a (modelKey u m) route cred
                      (\<lambda>mu. mu\<lparr>observed := usage_mergeAdd (observed mu) d\<rparr>)
           in (chargeLocked l2 a (usage_total d) c now, c))"

definition ledger_shortfall :: "unicode \<Rightarrow> pricer \<Rightarrow> ledger \<Rightarrow> string \<Rightarrow> string \<Rightarrow> string \<Rightarrow> string \<Rightarrow> int \<Rightarrow> time
    \<Rightarrow> ledger \<times> int" where
  "ledger_shortfall u pr l pod m route cred n now =
     (if n \<le> 0 then (l, 0)
      else let c = p_outputCost pr m n;
               (l1, a) = podLocked l pod now;
               l2 = record_model l1 a (modelKey u m) route cred
                      (\<lambda>mu. mu\<lparr>shortfall_tokens := i64 (shortfall_tokens mu + n)\<rparr>)
           in (chargeLocked l2 a n c now, c))"

record pod_totals =
  pt_requests :: int
  pt_tokens :: int
  pt_cost :: int

definition totals :: "ledger \<Rightarrow> string \<Rightarrow> pod_totals" where
  "totals l pod =
     (case pods l pod of
        None \<Rightarrow> \<lparr>pt_requests = 0, pt_tokens = 0, pt_cost = 0\<rparr>
      | Some a \<Rightarrow> \<lparr>pt_requests = requests (heap l a), pt_tokens = tokens (heap l a),
                   pt_cost = cost (heap l a)\<rparr>)"

subsection \<open>The request's worst case (server.go)\<close>

text \<open>\<open>reserve\<close> of \<open>server.go\<close> for a metered request: the size estimate plus the output bound.\<close>

definition reserve :: "pricer \<Rightarrow> bool \<Rightarrow> string \<Rightarrow> int \<Rightarrow> int \<Rightarrow> int \<Rightarrow> reservation" where
  "reserve pr metered m estimate outputBound budget =
     (if metered then \<lparr>r_tokens = i64 (estimate + outputBound),
                       r_cost = p_outputCost pr m outputBound, r_budget = budget\<rparr>
      else \<lparr>r_tokens = 0, r_cost = 0, r_budget = budget\<rparr>)"

definition shortfall :: "usage \<Rightarrow> int \<Rightarrow> int \<Rightarrow> int" where
  "shortfall sn estimate outputBound =
     (let i = max (i64 (i64 (u_input sn + cacheCreation sn) + cacheRead sn)) estimate;
          out = max (u_output sn) outputBound
      in i64 (i64 (i + out) - usage_total sn))"

text \<open>
  The output bound of an inspected request: its own \<open>max_tokens\<close>, refused above a configured
  ceiling, else the ceiling.
\<close>

definition outputBound :: "limits \<Rightarrow> int \<Rightarrow> int option" where
  "outputBound lim maxTokens =
     (if 0 < maxTokensCeiling lim \<and> maxTokensCeiling lim < maxTokens then None
      else Some (if maxTokens = 0 then maxTokensCeiling lim else maxTokens))"

end
