(* ===== verification/LedgerSafety.thy ===== *)
theory LedgerSafety
  imports BrokerLedger
begin

text \<open>
  The spend ledger as a transition system: requests are admitted or refused, their usage is charged,
  and they release their reservation, in any order and on any pods. \<open>accounted\<close> is the invariant that
  ties every counter to the requests in flight. A reservation or a charge is limited only by the
  contract \<open>ok\<close>, a parameter of the steps, so the accounting holds whatever requests do, and the
  token cap is proved under the contract that names what the broker relies on.
\<close>

record request =
  rq_pod :: string
  rq_addr :: nat
  rq_res :: reservation
  rq_charged :: int

record sys =
  led :: ledger
  reqs :: "request list"
  clock :: time

definition sum_of :: "(request \<Rightarrow> int) \<Rightarrow> nat \<Rightarrow> request list \<Rightarrow> int" where
  "sum_of f a rs = sum_list (map f (filter (\<lambda>q. rq_addr q = a) rs))"

definition in_flight :: "nat \<Rightarrow> request list \<Rightarrow> int" where
  "in_flight a rs = sum_of (\<lambda>_. 1) a rs"

inductive ledger_step :: "(limits \<Rightarrow> request \<Rightarrow> bool) \<Rightarrow> unicode \<Rightarrow> pricer \<Rightarrow> sys \<Rightarrow> sys \<Rightarrow> bool"
  for ok u pr where
  admitted:
  "tryAdmit (led s) pod (clampReservation res) now = (l', a, Admitted) \<Longrightarrow> clock s \<le> now \<Longrightarrow>
   int (length (reqs s)) < max_int64 \<Longrightarrow>
   q = \<lparr>rq_pod = pod, rq_addr = a, rq_res = clampReservation res, rq_charged = 0\<rparr> \<Longrightarrow>
   ok (l_limits (led s)) q \<Longrightarrow>
   ledger_step ok u pr s \<lparr>led = l', reqs = reqs s @ [q], clock = now\<rparr>"
| turned_away:
  "tryAdmit (led s) pod (clampReservation res) now = (l', a, v) \<Longrightarrow> v \<noteq> Admitted \<Longrightarrow> clock s \<le> now \<Longrightarrow>
   ledger_step ok u pr s \<lparr>led = l', reqs = reqs s, clock = now\<rparr>"
| observed_usage:
  "reqs s = qs @ q # qs' \<Longrightarrow> observe u pr (led s) (rq_pod q) m route cred d now = (l', c) \<Longrightarrow>
   clock s \<le> now \<Longrightarrow> q' = q\<lparr>rq_charged := rq_charged q + max 0 (usage_total d)\<rparr> \<Longrightarrow>
   ok (l_limits (led s)) q' \<Longrightarrow>
   ledger_step ok u pr s \<lparr>led = l', reqs = qs @ q' # qs', clock = now\<rparr>"
| charged_shortfall:
  "reqs s = qs @ q # qs' \<Longrightarrow> ledger_shortfall u pr (led s) (rq_pod q) m route cred n now = (l', c) \<Longrightarrow>
   clock s \<le> now \<Longrightarrow> q' = q\<lparr>rq_charged := rq_charged q + max 0 n\<rparr> \<Longrightarrow>
   ok (l_limits (led s)) q' \<Longrightarrow>
   ledger_step ok u pr s \<lparr>led = l', reqs = qs @ q' # qs', clock = now\<rparr>"
| released:
  "reqs s = qs @ q # qs' \<Longrightarrow> clock s \<le> now \<Longrightarrow>
   ledger_step ok u pr s
     \<lparr>led = release (led s) (rq_addr q) (rq_res q) now, reqs = qs @ qs', clock = now\<rparr>"

inductive ledger_reach :: "(limits \<Rightarrow> request \<Rightarrow> bool) \<Rightarrow> unicode \<Rightarrow> pricer \<Rightarrow> limits \<Rightarrow> sys \<Rightarrow> bool"
  for ok u pr lim where
  start: "0 \<le> t0 \<Longrightarrow> ledger_reach ok u pr lim \<lparr>led = newLedger lim, reqs = [], clock = t0\<rparr>"
| step: "ledger_reach ok u pr lim s \<Longrightarrow> ledger_step ok u pr s s' \<Longrightarrow> ledger_reach ok u pr lim s'"

definition accounted :: "ledger \<Rightarrow> request list \<Rightarrow> bool" where
  "accounted l rs \<longleftrightarrow>
     (\<forall>q\<in>set rs. pods l (rq_pod q) = Some (rq_addr q)) \<and>
     (\<forall>pod a. pods l pod = Some a \<longrightarrow> a < next_addr l) \<and>
     (\<forall>pod pod' a. pods l pod = Some a \<longrightarrow> pods l pod' = Some a \<longrightarrow> pod = pod') \<and>
     int (length rs) \<le> max_int64 \<and>
     (\<forall>a<next_addr l. inflight (heap l a) = in_flight a rs \<and>
        reserved (heap l a) = i64 (sum_of (r_tokens \<circ> rq_res) a rs) \<and>
        costReserved (heap l a) = i64 (sum_of (r_cost \<circ> rq_res) a rs)) \<and>
     l_reserved l = i64 (sum_list (map (r_tokens \<circ> rq_res) rs)) \<and>
     reservedCost l = i64 (sum_list (map (r_cost \<circ> rq_res) rs))"

subsection \<open>Sums over the requests of one pod\<close>

lemma sum_of_Nil [simp]: "sum_of f a [] = 0"
  by (simp add: sum_of_def)

lemma sum_of_Cons [simp]:
  "sum_of f a (q # rs) = (if rq_addr q = a then f q else 0) + sum_of f a rs"
  by (simp add: sum_of_def)

lemma sum_of_append [simp]: "sum_of f a (xs @ ys) = sum_of f a xs + sum_of f a ys"
  by (simp add: sum_of_def)

lemma sum_of_none: "\<forall>q\<in>set rs. rq_addr q \<noteq> a \<Longrightarrow> sum_of f a rs = 0"
  by (induction rs) auto

lemma in_flight_bounds: "0 \<le> in_flight a rs \<and> in_flight a rs \<le> int (length rs)"
  unfolding in_flight_def by (induction rs) auto

lemma in_flight_pos: "q \<in> set rs \<Longrightarrow> 0 < in_flight (rq_addr q) rs"
  using in_flight_bounds unfolding in_flight_def
  by (induction rs) (auto simp: in_flight_def add_pos_nonneg)

subsection \<open>The parts of the operations\<close>

lemma sweep_simps [simp]:
  "heap (sweepLocked l now) = heap l" "next_addr (sweepLocked l now) = next_addr l"
  "l_limits (sweepLocked l now) = l_limits l" "l_reserved (sweepLocked l now) = l_reserved l"
  "reservedCost (sweepLocked l now) = reservedCost l" "hour (sweepLocked l now) = hour l"
  "hourCost (sweepLocked l now) = hourCost l"
  by (simp_all add: sweepLocked_def)

lemma sweep_pods_sub: "pods (sweepLocked l now) pod = Some a \<Longrightarrow> pods l pod = Some a"
  by (auto simp: sweepLocked_def split: if_splits option.splits)

lemma sweep_keeps: "pods l pod = Some a \<Longrightarrow> inflight (heap l a) \<noteq> 0 \<Longrightarrow> pods (sweepLocked l now) pod = Some a"
  by (simp add: sweepLocked_def)

lemma accounted_inflight:
  "accounted l rs \<Longrightarrow> q \<in> set rs \<Longrightarrow> inflight (heap l (rq_addr q)) \<noteq> 0"
  unfolding accounted_def using in_flight_pos [of q rs] by (metis less_irrefl)

lemma accounted_sweep: "accounted l rs \<Longrightarrow> accounted (sweepLocked l now) rs"
proof -
  assume acc: "accounted l rs"
  have "pods (sweepLocked l now) (rq_pod q) = Some (rq_addr q)" if "q \<in> set rs" for q
    using acc that accounted_inflight [OF acc that] by (intro sweep_keeps) (auto simp: accounted_def)
  then show ?thesis using acc unfolding accounted_def by (auto dest!: sweep_pods_sub)
qed

text \<open>
  An update of a pod's counters that leaves its reservations alone, and of the windows, keeps the
  accounts: \<open>charge\<close> and the per-model records are such updates.
\<close>

lemma accounted_cong:
  assumes "accounted l rs"
    and "pods l' = pods l" "next_addr l' = next_addr l" "l_reserved l' = l_reserved l"
    and "reservedCost l' = reservedCost l"
    and "\<And>a. inflight (heap l' a) = inflight (heap l a)"
    and "\<And>a. reserved (heap l' a) = reserved (heap l a)"
    and "\<And>a. costReserved (heap l' a) = costReserved (heap l a)"
  shows "accounted l' rs"
  using assms unfolding accounted_def by simp

lemma podLocked_accounted:
  assumes acc: "accounted l rs" and eq: "podLocked l pod now = (l', a)"
  shows "accounted l' rs" "pods l' pod = Some a" "a < next_addr l'" "l_limits l' = l_limits l"
proof -
  have "accounted l' rs \<and> pods l' pod = Some a \<and> a < next_addr l' \<and> l_limits l' = l_limits l"
  proof (cases "pods l pod")
    case (Some b)
    then have l': "l' = l\<lparr>heap := (heap l)(b := (heap l b)\<lparr>seen := now\<rparr>)\<rparr>" "a = b"
      using eq by (auto simp: podLocked_def)
    have "accounted l' rs" by (rule accounted_cong [OF acc]) (simp_all add: l')
    then show ?thesis using acc Some l' by (simp add: accounted_def)
  next
    case None
    then have l': "l' = l\<lparr>pods := (pods l)(pod \<mapsto> next_addr l),
        heap := (heap l)(next_addr l := new_pod now), next_addr := Suc (next_addr l)\<rparr>" "a = next_addr l"
      using eq by (auto simp: podLocked_def)
    have nobody: "\<forall>q\<in>set rs. rq_addr q \<noteq> next_addr l \<and> rq_pod q \<noteq> pod"
      using acc None unfolding accounted_def by (metis less_irrefl option.distinct(1))
    then have "in_flight (next_addr l) rs = 0" "sum_of (r_tokens \<circ> rq_res) (next_addr l) rs = 0"
      "sum_of (r_cost \<circ> rq_res) (next_addr l) rs = 0"
      unfolding in_flight_def by (simp_all add: sum_of_none)
    moreover have "pods l p = Some b \<Longrightarrow> b < next_addr l" for p b
      using acc by (simp add: accounted_def)
    ultimately have "accounted l' rs"
      using acc nobody unfolding accounted_def l'
      by (auto simp: new_pod_def i64_def less_Suc_eq split: if_splits)
    then show ?thesis by (simp add: l')
  qed
  then show "accounted l' rs" "pods l' pod = Some a" "a < next_addr l'" "l_limits l' = l_limits l"
    by blast+
qed

lemma podLocked_in_map:
  "pods l pod = Some a \<Longrightarrow> podLocked l pod now = (l\<lparr>heap := (heap l)(a := (heap l a)\<lparr>seen := now\<rparr>)\<rparr>, a)"
  by (simp add: podLocked_def)

lemma chargeLocked_keeps [simp]:
  "pods (chargeLocked l a n c now) = pods l" "next_addr (chargeLocked l a n c now) = next_addr l"
  "l_limits (chargeLocked l a n c now) = l_limits l"
  "l_reserved (chargeLocked l a n c now) = l_reserved l"
  "reservedCost (chargeLocked l a n c now) = reservedCost l"
  "inflight (heap (chargeLocked l a n c now) b) = inflight (heap l b)"
  "requests (heap (chargeLocked l a n c now) b) = requests (heap l b)"
  "reserved (heap (chargeLocked l a n c now) b) = reserved (heap l b)"
  "costReserved (heap (chargeLocked l a n c now) b) = costReserved (heap l b)"
  "models (heap (chargeLocked l a n c now) b) = models (heap l b)"
  by (simp_all add: chargeLocked_def Let_def)

lemma chargeLocked_tokens:
  "tokens (heap (chargeLocked l a n c now) b) =
     (if b = a \<and> 0 < n then i64 (tokens (heap l b) + n) else tokens (heap l b))"
  by (simp add: chargeLocked_def Let_def)

lemma record_model_keeps [simp]:
  "pods (record_model l a m route cred f) = pods l"
  "next_addr (record_model l a m route cred f) = next_addr l"
  "l_limits (record_model l a m route cred f) = l_limits l"
  "l_reserved (record_model l a m route cred f) = l_reserved l"
  "reservedCost (record_model l a m route cred f) = reservedCost l"
  "inflight (heap (record_model l a m route cred f) b) = inflight (heap l b)"
  "requests (heap (record_model l a m route cred f) b) = requests (heap l b)"
  "reserved (heap (record_model l a m route cred f) b) = reserved (heap l b)"
  "costReserved (heap (record_model l a m route cred f) b) = costReserved (heap l b)"
  "tokens (heap (record_model l a m route cred f) b) = tokens (heap l b)"
  by (simp_all add: record_model_def Let_def split: prod.splits)

subsection \<open>Admission\<close>

text \<open>The checks of \<open>tryAdmit\<close> on the counters it looks at; \<open>None\<close> is a pass.\<close>

definition refusal_of :: "ledger \<Rightarrow> nat \<Rightarrow> reservation \<Rightarrow> time \<Rightarrow> refusal option" where
  "refusal_of l a res now =
     (let p = heap l a; lim = l_limits l in
      if 0 < tokensPerHour lim \<and> over (i64 (hw_sum (hour l) now + l_reserved l)) (r_tokens res) (tokensPerHour lim)
        then Some (HourlyTokenCeiling (tokensPerHour lim))
      else if limits_cost lim \<and> 0 < costPerHour lim \<and>
              over (i64 (hw_sum (hourCost l) now + reservedCost l)) (r_cost res) (costPerHour lim)
        then Some (HourlyCostCeiling (costPerHour lim))
      else if 0 < tokensPerPod lim \<and> over (i64 (tokens p + reserved p)) (r_tokens res) (tokensPerPod lim)
        then Some (PodTokens (tokensPerPod lim))
      else if limits_cost lim \<and>
              over (i64 (cost p + costReserved p)) (r_cost res) (podCostLimit lim (r_budget res))
        then Some (PodCost (podCostLimit lim (r_budget res)))
      else if 0 < requestsPerPod lim \<and> requestsPerPod lim \<le> requests p
        then Some (PodRequests (requestsPerPod lim))
      else if 0 < concurrentPerPod lim \<and> concurrentPerPod lim \<le> inflight p
        then Some (PodConcurrent (concurrentPerPod lim))
      else None)"

definition take_slot :: "ledger \<Rightarrow> nat \<Rightarrow> reservation \<Rightarrow> ledger" where
  "take_slot l a res =
     (let p = heap l a in
      l\<lparr>heap := (heap l)(a := p\<lparr>requests := i64 (requests p + 1), inflight := i64 (inflight p + 1),
           reserved := i64 (reserved p + r_tokens res),
           costReserved := i64 (costReserved p + r_cost res)\<rparr>),
        l_reserved := i64 (l_reserved l + r_tokens res),
        reservedCost := i64 (reservedCost l + r_cost res)\<rparr>)"

lemma tryAdmit_cases:
  assumes "tryAdmit l0 pod res now = (l', a, v)"
  obtains (admitted) l where "podLocked (sweepLocked l0 now) pod now = (l, a)"
      "refusal_of l a res now = None" "l' = take_slot l a res" "v = Admitted"
    | (turned_away) l f where "podLocked (sweepLocked l0 now) pod now = (l, a)"
      "refusal_of l a res now \<noteq> None" "v \<noteq> Admitted"
      "l' = l\<lparr>heap := (heap l)(a := (heap l a)\<lparr>freed := f\<rparr>)\<rparr>"
proof -
  obtain l b where lb: "podLocked (sweepLocked l0 now) pod now = (l, b)" by fastforce
  have same: "l = l\<lparr>heap := (heap l)(a := (heap l a)\<lparr>freed := freed (heap l a)\<rparr>)\<rparr>" by simp
  show thesis
  proof (cases "refusal_of l b res now")
    case None
    then show thesis using assms lb
      by (intro admitted [of l]) (auto simp: tryAdmit_def refusal_of_def take_slot_def Let_def split: if_splits)
  next
    case (Some r)
    show thesis
    proof (cases "v = WaitFor (PodConcurrent (concurrentPerPod (l_limits l)))")
      case True
      then show thesis using assms lb Some
        by (intro turned_away [of l True])
           (auto simp: tryAdmit_def refusal_of_def Let_def split: if_splits)
    next
      case False
      then have "l' = l" "b = a" "v \<noteq> Admitted" using assms lb Some
        by (auto simp: tryAdmit_def refusal_of_def Let_def split: if_splits)
      then show thesis using lb Some same by (intro turned_away [of l "freed (heap l a)"]) auto
    qed
  qed
qed

lemma accounted_take_slot:
  assumes acc: "accounted l rs" and a: "a < next_addr l" "pods l pod = Some a"
    and room: "int (length rs) < max_int64"
  shows "accounted (take_slot l a res)
           (rs @ [\<lparr>rq_pod = pod, rq_addr = a, rq_res = res, rq_charged = 0\<rparr>])"
proof -
  have "i64 (in_flight a rs + 1) = in_flight a rs + 1"
    using in_flight_bounds [of a rs] room by (intro i64_id) auto
  then show ?thesis
    using acc a room unfolding accounted_def take_slot_def in_flight_def
    by (auto simp: Let_def wrap add.commute)
qed

lemma sum_of_remove: "sum_of f a (qs @ q # qs') = (if rq_addr q = a then f q else 0) + sum_of f a (qs @ qs')"
  by simp

lemma accounted_release:
  assumes acc: "accounted l (qs @ q # qs')"
  shows "accounted (release l (rq_addr q) (rq_res q) now) (qs @ qs')"
proof -
  let ?a = "rq_addr q"
  have "?a < next_addr l" using acc by (auto simp: accounted_def)
  moreover have "i64 (in_flight ?a (qs @ qs')) = in_flight ?a (qs @ qs')"
    using in_flight_bounds [of ?a "qs @ qs'"] acc by (intro i64_id) (auto simp: accounted_def)
  moreover have "in_flight ?a (qs @ q # qs') - 1 = in_flight ?a (qs @ qs')"
    by (simp add: in_flight_def)
  ultimately show ?thesis
    using acc unfolding accounted_def release_def Let_def
    by (auto simp: wrap in_flight_def algebra_simps)
qed

lemma accounted_charged:
  "accounted l (qs @ q # qs') \<Longrightarrow> accounted l (qs @ q\<lparr>rq_charged := c\<rparr> # qs')"
  by (simp add: accounted_def in_flight_def)

text \<open>A charge made for a request in flight lands on the counters its release will use.\<close>

lemma observe_in_flight:
  assumes "pods l pod = Some a" "observe u pr l pod m route cred d now = (l', c)"
  shows "l' = l \<and> usage_total d \<le> 0 \<or>
    0 < usage_total d \<and>
    l' = chargeLocked (record_model (l\<lparr>heap := (heap l)(a := (heap l a)\<lparr>seen := now\<rparr>)\<rparr>) a
           (modelKey u m) route cred (\<lambda>mu. mu\<lparr>observed := usage_mergeAdd (observed mu) d\<rparr>))
           a (usage_total d) (p_cost pr m d) now"
  using assms by (auto simp: observe_def podLocked_in_map Let_def split: if_splits)

lemma shortfall_in_flight:
  assumes "pods l pod = Some a" "ledger_shortfall u pr l pod m route cred n now = (l', c)"
  shows "l' = l \<and> n \<le> 0 \<or>
    0 < n \<and>
    l' = chargeLocked (record_model (l\<lparr>heap := (heap l)(a := (heap l a)\<lparr>seen := now\<rparr>)\<rparr>) a
           (modelKey u m) route cred (\<lambda>mu. mu\<lparr>shortfall_tokens := i64 (shortfall_tokens mu + n)\<rparr>))
           a n (p_outputCost pr m n) now"
  using assms by (auto simp: ledger_shortfall_def podLocked_in_map Let_def split: if_splits)

text \<open>
  Seen from the counters, a charge of \<open>n\<close> to the pod at \<open>a\<close> adds \<open>n\<close> tokens when it is positive and
  leaves the map, the reservations, the request and in-flight counts as they were.
\<close>

definition charge_effect :: "ledger \<Rightarrow> nat \<Rightarrow> int \<Rightarrow> ledger \<Rightarrow> bool" where
  "charge_effect l a n l' \<longleftrightarrow>
     pods l' = pods l \<and> next_addr l' = next_addr l \<and> l_limits l' = l_limits l \<and>
     l_reserved l' = l_reserved l \<and> reservedCost l' = reservedCost l \<and>
     (\<forall>b. inflight (heap l' b) = inflight (heap l b) \<and> reserved (heap l' b) = reserved (heap l b) \<and>
          costReserved (heap l' b) = costReserved (heap l b) \<and>
          requests (heap l' b) = requests (heap l b) \<and>
          tokens (heap l' b) = (if b = a \<and> 0 < n then i64 (tokens (heap l b) + n) else tokens (heap l b)))"

lemma observe_effect:
  "pods l pod = Some a \<Longrightarrow> observe u pr l pod m route cred d now = (l', c) \<Longrightarrow>
   charge_effect l a (max 0 (usage_total d)) l'"
  using observe_in_flight [of l pod a u pr m route cred d now l' c]
  by (auto simp: charge_effect_def chargeLocked_tokens)

lemma shortfall_effect:
  "pods l pod = Some a \<Longrightarrow> ledger_shortfall u pr l pod m route cred n now = (l', c) \<Longrightarrow>
   charge_effect l a (max 0 n) l'"
  using shortfall_in_flight [of l pod a u pr m route cred n now l' c]
  by (auto simp: charge_effect_def chargeLocked_tokens)

lemma accounted_charge_effect: "accounted l rs \<Longrightarrow> charge_effect l a n l' \<Longrightarrow> accounted l' rs"
  by (erule accounted_cong) (simp_all add: charge_effect_def)

lemma accounted_freed:
  "accounted l rs \<Longrightarrow> accounted (l\<lparr>heap := (heap l)(a := (heap l a)\<lparr>freed := f\<rparr>)\<rparr>) rs"
  by (erule accounted_cong) simp_all

subsection \<open>Every step keeps the accounts\<close>

lemma accounted_step:
  assumes "ledger_step ok u pr s s'" "accounted (led s) (reqs s)"
  shows "accounted (led s') (reqs s')"
  using assms
proof (cases rule: ledger_step.cases)
  case (admitted pod res now l' a q)
  from admitted(2) obtain l where l: "podLocked (sweepLocked (led s) now) pod now = (l, a)"
      "l' = take_slot l a (clampReservation res)"
    by (cases rule: tryAdmit_cases) auto
  note pod = podLocked_accounted [OF accounted_sweep [OF assms(2), of now] l(1)]
  show ?thesis
    using accounted_take_slot [OF pod(1,3,2) admitted(4)] by (simp add: admitted l)
next
  case (turned_away pod res now l' a v)
  from turned_away(2) obtain l f where l: "podLocked (sweepLocked (led s) now) pod now = (l, a)"
      "l' = l\<lparr>heap := (heap l)(a := (heap l a)\<lparr>freed := f\<rparr>)\<rparr>"
    by (cases rule: tryAdmit_cases) (use turned_away(3) in auto)
  note pod = podLocked_accounted [OF accounted_sweep [OF assms(2), of now] l(1)]
  show ?thesis using accounted_freed [OF pod(1)] by (simp add: turned_away l)
next
  case (observed_usage qs q qs' m route cred d now l' c q')
  have p: "pods (led s) (rq_pod q) = Some (rq_addr q)"
    using assms(2) observed_usage(2) by (simp add: accounted_def)
  show ?thesis
    using accounted_charged [OF accounted_charge_effect [OF assms(2) observe_effect [OF p observed_usage(3)],
          unfolded observed_usage(2)]]
    by (simp add: observed_usage)
next
  case (charged_shortfall qs q qs' m route cred n now l' c q')
  have p: "pods (led s) (rq_pod q) = Some (rq_addr q)"
    using assms(2) charged_shortfall(2) by (simp add: accounted_def)
  show ?thesis
    using accounted_charged [OF accounted_charge_effect [OF assms(2) shortfall_effect [OF p charged_shortfall(3)],
          unfolded charged_shortfall(2)]]
    by (simp add: charged_shortfall)
next
  case (released qs q qs' now)
  show ?thesis using accounted_release [of "led s" qs q qs' now] assms(2) released by simp
qed

lemma accounted_start: "accounted (newLedger lim) []"
  by (simp add: accounted_def newLedger_def i64_def)

lemma accounted_reach: "ledger_reach ok u pr lim s \<Longrightarrow> accounted (led s) (reqs s)"
  by (induction rule: ledger_reach.induct) (auto simp: accounted_start intro: accounted_step)

subsection \<open>The caps\<close>

lemma podLocked_heap:
  assumes "podLocked l pod now = (l', a)"
  shows "heap l' b = (if b = a then (case pods l pod of Some _ \<Rightarrow> (heap l a)\<lparr>seen := now\<rparr> | None \<Rightarrow> new_pod now)
                      else heap l b)"
  using assms by (auto simp: podLocked_def split: option.splits)

definition pod_within :: "limits \<Rightarrow> pod_counters \<Rightarrow> bool" where
  "pod_within lim p \<longleftrightarrow>
     (0 < requestsPerPod lim \<longrightarrow> 0 \<le> requests p \<and> requests p \<le> requestsPerPod lim) \<and>
     (0 < concurrentPerPod lim \<longrightarrow> inflight p \<le> concurrentPerPod lim)"

definition within_caps :: "ledger \<Rightarrow> bool" where
  "within_caps l \<longleftrightarrow> (\<forall>pod a. pods l pod = Some a \<longrightarrow> pod_within (l_limits l) (heap l a))"

lemma pod_within_new: "pod_within lim (new_pod now)"
  by (simp add: pod_within_def new_pod_def)

lemma pod_within_seen [simp]: "pod_within lim (p\<lparr>seen := now\<rparr>) = pod_within lim p"
  by (simp add: pod_within_def)

lemma refusal_None:
  assumes "refusal_of l a res now = None"
  shows "0 < requestsPerPod (l_limits l) \<Longrightarrow> requests (heap l a) < requestsPerPod (l_limits l)"
    and "0 < concurrentPerPod (l_limits l) \<Longrightarrow> inflight (heap l a) < concurrentPerPod (l_limits l)"
    and "0 < tokensPerPod (l_limits l) \<Longrightarrow>
       \<not> over (i64 (tokens (heap l a) + reserved (heap l a))) (r_tokens res) (tokensPerPod (l_limits l))"
    and "limits_cost (l_limits l) \<Longrightarrow>
       \<not> over (i64 (cost (heap l a) + costReserved (heap l a))) (r_cost res)
              (podCostLimit (l_limits l) (r_budget res))"
    and "0 < tokensPerHour (l_limits l) \<Longrightarrow>
       \<not> over (i64 (hw_sum (hour l) now + l_reserved l)) (r_tokens res) (tokensPerHour (l_limits l))"
    and "limits_cost (l_limits l) \<Longrightarrow> 0 < costPerHour (l_limits l) \<Longrightarrow>
       \<not> over (i64 (hw_sum (hourCost l) now + reservedCost l)) (r_cost res) (costPerHour (l_limits l))"
  using assms by (auto simp: refusal_of_def Let_def split: if_splits)

definition limits_int64 :: "limits \<Rightarrow> bool" where
  "limits_int64 lim \<longleftrightarrow> requestsPerPod lim \<le> max_int64 \<and> concurrentPerPod lim \<le> max_int64"

text \<open>
  The contract under which the token cap is exact: a request is charged at most what it reserved, and
  its reservation leaves the cap's sums inside an int64 (which \<open>MaxTokensCeiling\<close> and the body cap
  give when they are configured).
\<close>

definition keeps_reservation :: "limits \<Rightarrow> request \<Rightarrow> bool" where
  "keeps_reservation lim q \<longleftrightarrow>
     0 \<le> rq_charged q \<and> rq_charged q \<le> r_tokens (rq_res q) \<and>
     2 * tokensPerPod lim + r_tokens (rq_res q) \<le> max_int64"

abbreviation owed :: "request \<Rightarrow> int" where
  "owed q \<equiv> r_tokens (rq_res q) - rq_charged q"

definition within_tokens :: "ledger \<Rightarrow> request list \<Rightarrow> bool" where
  "within_tokens l rs \<longleftrightarrow>
     (\<forall>q\<in>set rs. keeps_reservation (l_limits l) q) \<and>
     (\<forall>pod a. pods l pod = Some a \<longrightarrow>
        0 \<le> tokens (heap l a) \<and>
        tokens (heap l a) + sum_of owed a rs \<le> tokensPerPod (l_limits l) \<and>
        sum_of (r_tokens \<circ> rq_res) a rs \<le> tokensPerPod (l_limits l))"

lemma within_tokensD:
  assumes "within_tokens l rs" "pods l pod = Some a"
  shows "0 \<le> tokens (heap l a)" "tokens (heap l a) + sum_of owed a rs \<le> tokensPerPod (l_limits l)"
    "sum_of (r_tokens \<circ> rq_res) a rs \<le> tokensPerPod (l_limits l)"
  using assms unfolding within_tokens_def by blast+

lemma within_tokens_good:
  "within_tokens l rs \<Longrightarrow> q \<in> set rs \<Longrightarrow> keeps_reservation (l_limits l) q"
  unfolding within_tokens_def by blast

lemma within_tokensI:
  assumes "\<And>q. q \<in> set rs \<Longrightarrow> keeps_reservation (l_limits l) q"
    and "\<And>pod a. pods l pod = Some a \<Longrightarrow> 0 \<le> tokens (heap l a)"
    and "\<And>pod a. pods l pod = Some a \<Longrightarrow>
           tokens (heap l a) + sum_of owed a rs \<le> tokensPerPod (l_limits l)"
    and "\<And>pod a. pods l pod = Some a \<Longrightarrow>
           sum_of (r_tokens \<circ> rq_res) a rs \<le> tokensPerPod (l_limits l)"
  shows "within_tokens l rs"
  using assms unfolding within_tokens_def by blast

lemma within_caps_sweep: "within_caps l \<Longrightarrow> within_caps (sweepLocked l now)"
  by (auto simp: within_caps_def dest!: sweep_pods_sub)

lemma within_tokens_sweep: "within_tokens l rs \<Longrightarrow> within_tokens (sweepLocked l now) rs"
  by (auto simp: within_tokens_def dest!: sweep_pods_sub)

lemma within_caps_podLocked:
  assumes "within_caps l" "podLocked l pod now = (l', a)"
  shows "within_caps l'"
  using assms
  by (auto simp: within_caps_def podLocked_def pod_within_new split: option.splits if_splits)

lemma nobody_at_new:
  assumes "accounted l rs" "pods l pod = None" "podLocked l pod now = (l', a)"
  shows "\<forall>q\<in>set rs. rq_addr q \<noteq> a"
proof
  fix q assume "q \<in> set rs"
  then have "pods l (rq_pod q) = Some (rq_addr q)" using assms(1) unfolding accounted_def by blast
  then have "rq_addr q < next_addr l" using assms(1) unfolding accounted_def by blast
  then show "rq_addr q \<noteq> a" using assms(2,3) by (auto simp: podLocked_def)
qed

lemma within_tokens_podLocked:
  assumes acc: "accounted l rs" and w: "within_tokens l rs" and eq: "podLocked l pod now = (l', a)"
    and L: "0 \<le> tokensPerPod (l_limits l)"
  shows "within_tokens l' rs"
proof (cases "pods l pod")
  case (Some b)
  then show ?thesis using w podLocked_in_map [OF Some, of now] eq by (auto simp: within_tokens_def)
next
  case None
  have l': "l' = l\<lparr>pods := (pods l)(pod \<mapsto> next_addr l),
        heap := (heap l)(next_addr l := new_pod now), next_addr := Suc (next_addr l)\<rparr>" "a = next_addr l"
      using eq None by (auto simp: podLocked_def)
  have "sum_of f (next_addr l) rs = 0" for f
    using nobody_at_new [OF acc None eq] l'(2) by (simp add: sum_of_none)
  moreover have "pods l p = Some b \<Longrightarrow> b \<noteq> next_addr l" for p b
    using acc unfolding accounted_def by (metis less_irrefl)
  ultimately show ?thesis using w L unfolding within_tokens_def l' by (auto simp: new_pod_def)
qed

lemma within_caps_take_slot:
  assumes caps: "within_caps l" and acc: "accounted l rs" and lim: "limits_int64 (l_limits l)"
    and pass: "refusal_of l a res now = None" and a: "pods l pod = Some a" "a < next_addr l"
  shows "within_caps (take_slot l a res)"
proof -
  have "0 \<le> inflight (heap l a)" using acc a in_flight_bounds by (simp add: accounted_def)
  moreover have "i64 (x + 1) = x + 1" if "0 \<le> x" "x < L" "L \<le> max_int64" for x L
    using that by (intro i64_id) auto
  ultimately have
    "0 < requestsPerPod (l_limits l) \<Longrightarrow>
       0 \<le> i64 (requests (heap l a) + 1) \<and> i64 (requests (heap l a) + 1) \<le> requestsPerPod (l_limits l)"
    "0 < concurrentPerPod (l_limits l) \<Longrightarrow> i64 (inflight (heap l a) + 1) \<le> concurrentPerPod (l_limits l)"
    using refusal_None(1,2) [OF pass] caps a lim
    by (auto simp: within_caps_def pod_within_def limits_int64_def)
  then show ?thesis using caps
    by (auto simp: within_caps_def pod_within_def take_slot_def Let_def)
qed

lemma owed_nonneg: "\<forall>q\<in>set rs. keeps_reservation lim q \<Longrightarrow> 0 \<le> sum_of owed a rs"
  by (induction rs) (auto simp: keeps_reservation_def)

lemma reserved_nonneg: "\<forall>q\<in>set rs. keeps_reservation lim q \<Longrightarrow> 0 \<le> sum_of (r_tokens \<circ> rq_res) a rs"
  by (induction rs) (auto simp: keeps_reservation_def)

lemma within_tokens_take_slot:
  assumes w: "within_tokens l rs" and acc: "accounted l rs" and L: "0 < tokensPerPod (l_limits l)"
    and pass: "refusal_of l a res now = None" and a: "pods l pod = Some a" "a < next_addr l"
    and q: "q = \<lparr>rq_pod = pod, rq_addr = a, rq_res = res, rq_charged = 0\<rparr>"
    and ok: "keeps_reservation (l_limits l) q"
  shows "within_tokens (take_slot l a res) (rs @ [q])"
proof -
  let ?L = "tokensPerPod (l_limits l)"
  let ?t = "tokens (heap l a)" and ?R = "sum_of (r_tokens \<circ> rq_res) a rs"
  have good: "\<forall>q\<in>set rs. keeps_reservation (l_limits l) q" using w by (simp add: within_tokens_def)
  have inv: "0 \<le> ?t" "?t + sum_of owed a rs \<le> ?L" "?R \<le> ?L"
    using w a by (auto simp: within_tokens_def)
  have nn: "0 \<le> sum_of owed a rs" "0 \<le> ?R" using owed_nonneg [OF good] reserved_nonneg [OF good] by auto
  have res: "0 \<le> r_tokens res" "2 * ?L + r_tokens res \<le> max_int64"
    using ok q by (auto simp: keeps_reservation_def)
  have exact: "i64 ?R = ?R" "i64 (?t + ?R) = ?t + ?R"
      "i64 (?t + ?R + r_tokens res) = ?t + ?R + r_tokens res"
    using inv nn res by (auto intro!: i64_id)
  have "reserved (heap l a) = i64 ?R" using acc a by (auto simp: accounted_def)
  then have "\<not> over (?t + ?R) (r_tokens res) ?L" using refusal_None(3) [OF pass L] exact by simp
  then have fit: "?t + ?R + r_tokens res \<le> ?L" using exact by (simp add: over_def)
  have le: "sum_of owed a rs \<le> ?R"
    using good by (induction rs) (auto simp: keeps_reservation_def)
  have "?t + (sum_of owed a rs + r_tokens res) \<le> ?L" "?R + r_tokens res \<le> ?L"
    using fit le inv by linarith+
  then show ?thesis
    using w ok q by (auto simp: within_tokens_def take_slot_def Let_def)
qed

lemma within_tokens_charge:
  assumes w: "within_tokens l (qs @ q # qs')" and acc: "accounted l (qs @ q # qs')"
    and L: "0 < tokensPerPod (l_limits l)" "tokensPerPod (l_limits l) \<le> max_int64" and n: "0 \<le> n"
    and eff: "charge_effect l (rq_addr q) n l'" and q': "q' = q\<lparr>rq_charged := rq_charged q + n\<rparr>"
    and ok: "keeps_reservation (l_limits l) q'"
  shows "within_tokens l' (qs @ q' # qs')"
proof -
  let ?a = "rq_addr q"
  let ?L = "tokensPerPod (l_limits l)"
  have good: "\<forall>p\<in>set (qs @ q' # qs'). keeps_reservation (l_limits l) p"
    using w ok by (auto simp: within_tokens_def)
  have a: "pods l (rq_pod q) = Some ?a" using acc by (simp add: accounted_def)
  note inv = within_tokensD(1,2) [OF w a]
  have owed: "sum_of owed ?a (qs @ q # qs') = sum_of owed ?a (qs @ q' # qs') + n"
    by (simp add: q')
  have "0 \<le> sum_of owed ?a (qs @ q' # qs')" by (rule owed_nonneg [OF good])
  then have new: "i64 (tokens (heap l ?a) + n) = tokens (heap l ?a) + n"
      "tokens (heap l ?a) + n + sum_of owed ?a (qs @ q' # qs') \<le> ?L"
    using inv owed L n by (auto intro!: i64_id)
  have same: "sum_of (r_tokens \<circ> rq_res) b (qs @ q' # qs') = sum_of (r_tokens \<circ> rq_res) b (qs @ q # qs')" for b
    by (simp add: q')
  have others: "b \<noteq> ?a \<Longrightarrow> sum_of owed b (qs @ q' # qs') = sum_of owed b (qs @ q # qs')" for b
    by (simp add: q')
  have toks: "tokens (heap l' b) = (if b = ?a then tokens (heap l b) + n else tokens (heap l b))" for b
    using eff new(1) n by (auto simp: charge_effect_def)
  have lim: "l_limits l' = l_limits l" "pods l' = pods l" using eff by (simp_all add: charge_effect_def)
  show ?thesis
  proof (rule within_tokensI)
    show "keeps_reservation (l_limits l') p" if "p \<in> set (qs @ q' # qs')" for p
      using good that lim by metis
    fix p b assume b: "pods l' p = Some b"
    then have b': "pods l p = Some b" using lim by simp
    note D = within_tokensD [OF w b']
    show "0 \<le> tokens (heap l' b)" using D(1) toks [of b] n by (simp split: if_splits)
    show "tokens (heap l' b) + sum_of owed b (qs @ q' # qs') \<le> tokensPerPod (l_limits l')"
    proof (cases "b = ?a")
      case True
      then show ?thesis using new(2) toks [of b] lim(1) by (simp only: if_True refl)
    next
      case False
      then show ?thesis using D(2) toks [of b] others [OF False] lim(1) by (simp only: if_False)
    qed
    show "sum_of (r_tokens \<circ> rq_res) b (qs @ q' # qs') \<le> tokensPerPod (l_limits l')"
      using D(3) same [of b] lim(1) by (simp only:)
  qed
qed

lemma release_simps:
  "pods (release l a res now) = pods l" "l_limits (release l a res now) = l_limits l"
  "tokens (heap (release l a res now) b) = tokens (heap l b)"
  "requests (heap (release l a res now) b) = requests (heap l b)"
  by (simp_all add: release_def Let_def)

lemma within_tokens_release:
  assumes w: "within_tokens l (qs @ q # qs')"
  shows "within_tokens (release l (rq_addr q) (rq_res q) now) (qs @ qs')"
proof (rule within_tokensI)
  have "keeps_reservation (l_limits l) q" using w by (rule within_tokens_good) simp
  then have less: "sum_of owed b (qs @ qs') \<le> sum_of owed b (qs @ q # qs')"
    "sum_of (r_tokens \<circ> rq_res) b (qs @ qs') \<le> sum_of (r_tokens \<circ> rq_res) b (qs @ q # qs')" for b
    by (auto simp: keeps_reservation_def)
  fix pod b assume "pods (release l (rq_addr q) (rq_res q) now) pod = Some b"
  then have "pods l pod = Some b" by (simp add: release_simps)
  note D = within_tokensD [OF w this]
  show "0 \<le> tokens (heap (release l (rq_addr q) (rq_res q) now) b)"
    using D(1) by (simp add: release_simps)
  show "tokens (heap (release l (rq_addr q) (rq_res q) now) b) + sum_of owed b (qs @ qs')
      \<le> tokensPerPod (l_limits (release l (rq_addr q) (rq_res q) now))"
    unfolding release_simps using D(2) less(1) [of b] by linarith
  show "sum_of (r_tokens \<circ> rq_res) b (qs @ qs')
      \<le> tokensPerPod (l_limits (release l (rq_addr q) (rq_res q) now))"
    unfolding release_simps using D(3) less(2) [of b] by linarith
next
  fix p assume "p \<in> set (qs @ qs')"
  then have "p \<in> set (qs @ q # qs')" by auto
  from within_tokens_good [OF w this]
  show "keeps_reservation (l_limits (release l (rq_addr q) (rq_res q) now)) p"
    by (simp only: release_simps)
qed

lemma within_caps_release:
  assumes caps: "within_caps l" and acc: "accounted l (qs @ q # qs')"
  shows "within_caps (release l (rq_addr q) (rq_res q) now)"
proof -
  let ?a = "rq_addr q"
  have "inflight (heap l ?a) = in_flight ?a (qs @ q # qs')" using acc by (auto simp: accounted_def)
  moreover have "0 < in_flight ?a (qs @ q # qs')" by (rule in_flight_pos) simp
  moreover have "in_flight ?a (qs @ q # qs') \<le> max_int64"
    using in_flight_bounds [of ?a "qs @ q # qs'"] acc by (auto simp: accounted_def)
  ultimately have "i64 (inflight (heap l ?a) - 1) \<le> inflight (heap l ?a)"
    by (subst i64_id) auto
  then have "pod_within lim (heap l ?a) \<Longrightarrow> pod_within lim (heap (release l ?a (rq_res q) now) ?a)" for lim
    by (auto simp: pod_within_def release_def Let_def)
  moreover have "b \<noteq> ?a \<Longrightarrow> heap (release l ?a (rq_res q) now) b = heap l b" for b
    by (simp add: release_def Let_def)
  ultimately show ?thesis using caps unfolding within_caps_def release_simps by metis
qed

lemma within_caps_charge: "within_caps l \<Longrightarrow> charge_effect l a n l' \<Longrightarrow> within_caps l'"
  by (simp add: within_caps_def pod_within_def charge_effect_def)

lemma within_caps_freed:
  "within_caps l \<Longrightarrow> within_caps (l\<lparr>heap := (heap l)(a := (heap l a)\<lparr>freed := f\<rparr>)\<rparr>)"
  by (auto simp: within_caps_def pod_within_def)

lemma within_tokens_freed:
  "within_tokens l rs \<Longrightarrow> within_tokens (l\<lparr>heap := (heap l)(a := (heap l a)\<lparr>freed := f\<rparr>)\<rparr>) rs"
  by (auto simp: within_tokens_def)

lemma take_slot_limits [simp]: "l_limits (take_slot l a res) = l_limits l"
  by (simp add: take_slot_def Let_def)

lemma podLocked_limits: "podLocked l pod now = (l', a) \<Longrightarrow> l_limits l' = l_limits l"
  by (auto simp: podLocked_def split: option.splits)

lemma limits_step:
  assumes "ledger_step ok u pr s s'" "accounted (led s) (reqs s)"
  shows "l_limits (led s') = l_limits (led s)"
  using assms
proof (cases rule: ledger_step.cases)
  case (admitted pod res now l' a q)
  from admitted(2) show ?thesis
    by (cases rule: tryAdmit_cases) (auto simp: admitted(1) dest: podLocked_limits)
next
  case (turned_away pod res now l' a v)
  from turned_away(2) show ?thesis
    by (cases rule: tryAdmit_cases) (auto simp: turned_away(1) dest: podLocked_limits)
next
  case (observed_usage qs q qs' m route cred d now l' c q')
  have "pods (led s) (rq_pod q) = Some (rq_addr q)"
    using assms(2) observed_usage(2) by (simp add: accounted_def)
  from observe_effect [OF this observed_usage(3)] show ?thesis
    by (simp add: observed_usage charge_effect_def)
next
  case (charged_shortfall qs q qs' m route cred n now l' c q')
  have "pods (led s) (rq_pod q) = Some (rq_addr q)"
    using assms(2) charged_shortfall(2) by (simp add: accounted_def)
  from shortfall_effect [OF this charged_shortfall(3)] show ?thesis
    by (simp add: charged_shortfall charge_effect_def)
qed (simp add: release_simps)

lemma within_caps_step:
  assumes "ledger_step ok u pr s s'" and acc: "accounted (led s) (reqs s)"
    and caps: "within_caps (led s)" and lim: "limits_int64 (l_limits (led s))"
  shows "within_caps (led s')"
  using assms(1)
proof (cases rule: ledger_step.cases)
  case (admitted pod res now l' a q)
  from admitted(2) obtain l where l: "podLocked (sweepLocked (led s) now) pod now = (l, a)"
      "refusal_of l a (clampReservation res) now = None" "l' = take_slot l a (clampReservation res)"
    by (cases rule: tryAdmit_cases) auto
  note pod = podLocked_accounted [OF accounted_sweep [OF acc, of now] l(1)]
  have "within_caps l" by (rule within_caps_podLocked [OF within_caps_sweep [OF caps] l(1)])
  from within_caps_take_slot [OF this pod(1) _ l(2) pod(2,3)] show ?thesis
    using lim pod(4) by (simp add: admitted l(3))
next
  case (turned_away pod res now l' a v)
  from turned_away(2) obtain l f where l: "podLocked (sweepLocked (led s) now) pod now = (l, a)"
      "l' = l\<lparr>heap := (heap l)(a := (heap l a)\<lparr>freed := f\<rparr>)\<rparr>"
    by (cases rule: tryAdmit_cases) (use turned_away(3) in auto)
  have "within_caps l" by (rule within_caps_podLocked [OF within_caps_sweep [OF caps] l(1)])
  then show ?thesis using within_caps_freed by (simp add: turned_away l)
next
  case (observed_usage qs q qs' m route cred d now l' c q')
  have p: "pods (led s) (rq_pod q) = Some (rq_addr q)"
    using acc observed_usage(2) by (simp add: accounted_def)
  show ?thesis using within_caps_charge [OF caps observe_effect [OF p observed_usage(3)]]
    by (simp add: observed_usage)
next
  case (charged_shortfall qs q qs' m route cred n now l' c q')
  have p: "pods (led s) (rq_pod q) = Some (rq_addr q)"
    using acc charged_shortfall(2) by (simp add: accounted_def)
  show ?thesis using within_caps_charge [OF caps shortfall_effect [OF p charged_shortfall(3)]]
    by (simp add: charged_shortfall)
next
  case (released qs q qs' now)
  then show ?thesis using within_caps_release [OF caps] acc by simp
qed

lemma within_tokens_step:
  assumes "ledger_step keeps_reservation u pr s s'" and acc: "accounted (led s) (reqs s)"
    and w: "within_tokens (led s) (reqs s)"
    and L: "0 < tokensPerPod (l_limits (led s))" "tokensPerPod (l_limits (led s)) \<le> max_int64"
  shows "within_tokens (led s') (reqs s')"
  using assms(1)
proof (cases rule: ledger_step.cases)
  case (admitted pod res now l' a q)
  from admitted(2) obtain l where l: "podLocked (sweepLocked (led s) now) pod now = (l, a)"
      "refusal_of l a (clampReservation res) now = None" "l' = take_slot l a (clampReservation res)"
    by (cases rule: tryAdmit_cases) auto
  note pod = podLocked_accounted [OF accounted_sweep [OF acc, of now] l(1)]
  have "within_tokens l (reqs s)"
    using within_tokens_podLocked [OF accounted_sweep [OF acc] within_tokens_sweep [OF w] l(1)] L by simp
  from within_tokens_take_slot [OF this pod(1) _ l(2) pod(2,3) admitted(5)] show ?thesis
    using L admitted(6) pod(4) by (simp add: admitted(1) l(3))
next
  case (turned_away pod res now l' a v)
  from turned_away(2) obtain l f where l: "podLocked (sweepLocked (led s) now) pod now = (l, a)"
      "l' = l\<lparr>heap := (heap l)(a := (heap l a)\<lparr>freed := f\<rparr>)\<rparr>"
    by (cases rule: tryAdmit_cases) (use turned_away(3) in auto)
  have "within_tokens l (reqs s)"
    using within_tokens_podLocked [OF accounted_sweep [OF acc] within_tokens_sweep [OF w] l(1)] L by simp
  then show ?thesis using within_tokens_freed by (simp add: turned_away l)
next
  case (observed_usage qs q qs' m route cred d now l' c q')
  have p: "pods (led s) (rq_pod q) = Some (rq_addr q)"
    using acc observed_usage(2) by (simp add: accounted_def)
  show ?thesis
    using within_tokens_charge [OF w [unfolded observed_usage(2)] acc [unfolded observed_usage(2)] L _
        observe_effect [OF p observed_usage(3)] observed_usage(5) observed_usage(6)]
    by (simp add: observed_usage(1))
next
  case (charged_shortfall qs q qs' m route cred n now l' c q')
  have p: "pods (led s) (rq_pod q) = Some (rq_addr q)"
    using acc charged_shortfall(2) by (simp add: accounted_def)
  show ?thesis
    using within_tokens_charge [OF w [unfolded charged_shortfall(2)] acc [unfolded charged_shortfall(2)] L _
        shortfall_effect [OF p charged_shortfall(3)] charged_shortfall(5) charged_shortfall(6)]
    by (simp add: charged_shortfall(1))
next
  case (released qs q qs' now)
  then show ?thesis using within_tokens_release w by simp
qed

lemma limits_reach: "ledger_reach ok u pr lim s \<Longrightarrow> l_limits (led s) = lim"
  by (induction rule: ledger_reach.induct)
     (simp_all add: newLedger_def limits_step accounted_reach)

lemma within_caps_reach:
  assumes "ledger_reach ok u pr lim s" "limits_int64 lim"
  shows "within_caps (led s)"
  using assms
proof (induction rule: ledger_reach.induct)
  case (step s s')
  then show ?case
    using within_caps_step [OF step.hyps(2) accounted_reach [OF step.hyps(1)]] limits_reach by metis
qed (simp add: within_caps_def newLedger_def)

lemma within_tokens_reach:
  assumes "ledger_reach keeps_reservation u pr lim s"
    and "0 < tokensPerPod lim" "tokensPerPod lim \<le> max_int64"
  shows "within_tokens (led s) (reqs s)"
  using assms
proof (induction rule: ledger_reach.induct)
  case (step s s')
  then show ?case
    using within_tokens_step [OF step.hyps(2) accounted_reach [OF step.hyps(1)]] limits_reach by metis
qed (simp add: within_tokens_def newLedger_def)

subsection \<open>The per-model records\<close>

definition models_total :: "(model_entry \<times> model_usage) list \<Rightarrow> int" where
  "models_total ms = sum_list (map (\<lambda>(_, mu). usage_total (observed mu) + shortfall_tokens mu) ms)"

definition models_ok :: "pod_counters \<Rightarrow> bool" where
  "models_ok p \<longleftrightarrow>
     distinct (map fst (models p)) \<and>
     length (filter (\<lambda>e. fst (fst e) \<noteq> ModelOther) (models p)) \<le> MaxModels \<and>
     tokens p = i64 (models_total (models p))"

lemma usage_total_exact: "usage_total u = i64 (u_input u + cacheCreation u + cacheRead u + u_output u)"
  by (simp only: usage_total_def i64_add_left)

lemma i64_add4:
  "i64 (i64 a + i64 b + i64 c + i64 d) = i64 (a + b + c + d)"
proof -
  have "i64 (i64 a + i64 b + i64 c + i64 d) = i64 (i64 a + i64 b + i64 c + d)"
    by (rule i64_add_right)
  also have "\<dots> = i64 (i64 (i64 a + i64 b + i64 c) + d)" by (rule i64_add_left [symmetric])
  also have "i64 (i64 a + i64 b + i64 c) = i64 (i64 a + i64 b + c)" by (rule i64_add_right)
  also have "\<dots> = i64 (i64 (i64 a + i64 b) + c)" by (rule i64_add_left [symmetric])
  also have "i64 (i64 a + i64 b) = i64 (a + b)" by (simp only: i64_add_right i64_add_left)
  finally show ?thesis by (simp only: i64_add_left)
qed

lemma usage_total_mergeAdd: "usage_total (usage_mergeAdd u v) = i64 (usage_total u + usage_total v)"
  unfolding usage_total_exact i64_add_left i64_add_right
  unfolding usage_mergeAdd_def usage.simps i64_add4 by (simp add: algebra_simps)

lemma models_total_fresh:
  "models_total (ms @ [(k, \<lparr>mu_route = r, mu_credential = c, observed = no_usage, shortfall_tokens = 0\<rparr>)])
   = models_total ms"
  by (simp add: models_total_def usage_total_def no_usage_def i64_def)

lemma models_total_update:
  "distinct (map fst ms) \<Longrightarrow> map_of ms k = Some mu \<Longrightarrow>
   models_total (update_entry k f ms) =
     models_total ms - (usage_total (observed mu) + shortfall_tokens mu)
       + (usage_total (observed (f mu)) + shortfall_tokens (f mu))"
proof (induction ms)
  case (Cons e ms)
  obtain k' m where e: "e = (k', m)" by (cases e)
  show ?case
  proof (cases "k' = k")
    case True
    then have "update_entry k f ms = ms"
      using Cons.prems(1) e unfolding update_entry_def by (intro map_idI) force
    then show ?thesis using True Cons.prems e by (simp add: models_total_def update_entry_def)
  next
    case False
    then show ?thesis using Cons e by (simp add: models_total_def update_entry_def)
  qed
qed simp

lemma modelLocked_spec:
  assumes "modelLocked ms m route cred = (ms', k)" "distinct (map fst ms)"
    and "length (filter (\<lambda>e. fst (fst e) \<noteq> ModelOther) ms) \<le> MaxModels"
  shows "distinct (map fst ms')" "length (filter (\<lambda>e. fst (fst e) \<noteq> ModelOther) ms') \<le> MaxModels"
    "models_total ms' = models_total ms" "\<exists>mu. map_of ms' k = Some mu"
proof -
  have le: "length (filter (\<lambda>e. fst (fst e) \<noteq> ModelOther) ms) \<le> length ms" by simp
  show "distinct (map fst ms')"
    using assms(1,2) by (auto simp: modelLocked_def Let_def map_of_eq_None_iff split: if_splits)
  show "length (filter (\<lambda>e. fst (fst e) \<noteq> ModelOther) ms') \<le> MaxModels"
    using assms(1,3) le by (auto simp: modelLocked_def Let_def not_le Suc_le_eq split: if_splits
        intro: le_less_trans [OF length_filter_le])
  show "models_total ms' = models_total ms"
    using assms(1) by (auto simp: modelLocked_def Let_def models_total_fresh split: if_splits)
  show "\<exists>mu. map_of ms' k = Some mu"
    using assms(1) by (auto simp: modelLocked_def Let_def map_add_def split: if_splits option.splits)
qed

lemma update_entry_keys [simp]: "map fst (update_entry k f ms) = map fst ms"
  by (auto simp: update_entry_def)

lemma update_entry_filter:
  "length (filter (\<lambda>e. P (fst e)) (update_entry k f ms)) = length (filter (\<lambda>e. P (fst e)) ms)"
  by (induction ms) (auto simp: update_entry_def)

text \<open>Recording an increment of \<open>n\<close> tokens and charging it leaves the records and the total in step.\<close>

lemma models_ok_charge:
  assumes ok: "\<And>b. models_ok (heap l b)" and n: "0 < n"
    and f: "\<And>mu. i64 (usage_total (observed (f mu)) + shortfall_tokens (f mu)) =
                   i64 (usage_total (observed mu) + shortfall_tokens mu + n)"
  shows "models_ok (heap (chargeLocked (record_model l a m route cred f) a n c now) b)"
proof (cases "b = a")
  case False
  then have "models (heap (record_model l a m route cred f) b) = models (heap l b)"
    by (simp add: record_model_def Let_def split: prod.splits)
  then show ?thesis using False ok [of b] by (simp add: models_ok_def chargeLocked_tokens)
next
  case True
  obtain ms k where mk: "modelLocked (models (heap l a)) m route cred = (ms, k)"
    by (cases "modelLocked (models (heap l a)) m route cred")
  have p: "distinct (map fst (models (heap l a)))"
    "length (filter (\<lambda>e. fst (fst e) \<noteq> ModelOther) (models (heap l a))) \<le> MaxModels"
    "tokens (heap l a) = i64 (models_total (models (heap l a)))"
    using ok [of a] by (simp_all add: models_ok_def)
  note spec = modelLocked_spec [OF mk p(1,2)]
  then obtain mu where mu: "map_of ms k = Some mu" by blast
  have ms: "models (heap (record_model l a m route cred f) a) = update_entry k f ms"
    by (simp add: record_model_def mk)
  let ?old = "usage_total (observed mu) + shortfall_tokens mu"
  let ?new = "usage_total (observed (f mu)) + shortfall_tokens (f mu)"
  have "i64 (models_total (update_entry k f ms)) = i64 (models_total ms - ?old + ?new)"
    by (simp add: models_total_update [OF spec(1) mu])
  also have "\<dots> = i64 (models_total ms - ?old + i64 ?new)" by (simp only: i64_add_right)
  also have "\<dots> = i64 (models_total ms + n)" unfolding f i64_add_right by simp
  finally have "i64 (tokens (heap l a) + n) = i64 (models_total (update_entry k f ms))"
    by (simp add: p(3) spec(3) i64_add_left)
  then show ?thesis
    using True n spec(1,2) ms update_entry_filter [of "\<lambda>k. fst k \<noteq> ModelOther" k f ms]
    by (simp add: models_ok_def chargeLocked_tokens)
qed

lemma models_ok_same:
  "models p' = models p \<Longrightarrow> tokens p' = tokens p \<Longrightarrow> models_ok p' = models_ok p"
  by (simp add: models_ok_def)

lemma models_ok_new: "models_ok (new_pod now)"
  by (simp add: models_ok_def new_pod_def models_total_def i64_def)

lemma models_ok_seen: "models_ok (p\<lparr>seen := now\<rparr>) = models_ok p"
  by (simp add: models_ok_def)

lemma models_ok_podLocked:
  "(\<And>b. models_ok (heap l b)) \<Longrightarrow> podLocked l pod now = (l', a) \<Longrightarrow> models_ok (heap l' b)"
  by (auto simp: podLocked_heap models_ok_seen models_ok_new split: option.splits)

lemma models_ok_observe:
  assumes ok: "\<And>b. models_ok (heap l b)" and "observe u pr l pod m route cred d now = (l', c)"
  shows "models_ok (heap l' b)"
proof (cases "usage_total d \<le> 0")
  case False
  obtain l1 a where l1: "podLocked l pod now = (l1, a)" by fastforce
  have "models_ok (heap l1 b)" for b by (rule models_ok_podLocked [OF ok l1])
  from models_ok_charge [OF this, of "usage_total d"] False assms(2) l1 show ?thesis
    by (auto simp: observe_def Let_def usage_total_mergeAdd wrap algebra_simps)
qed (use assms in \<open>simp add: observe_def\<close>)

lemma models_ok_shortfall:
  assumes ok: "\<And>b. models_ok (heap l b)" and "ledger_shortfall u pr l pod m route cred n now = (l', c)"
  shows "models_ok (heap l' b)"
proof (cases "n \<le> 0")
  case False
  obtain l1 a where l1: "podLocked l pod now = (l1, a)" by fastforce
  have "models_ok (heap l1 b)" for b by (rule models_ok_podLocked [OF ok l1])
  from models_ok_charge [OF this, of n] False assms(2) l1 show ?thesis
    by (auto simp: ledger_shortfall_def Let_def wrap algebra_simps)
qed (use assms in \<open>simp add: ledger_shortfall_def\<close>)

lemma models_ok_step:
  assumes "ledger_step ok u pr s s'" and inv: "\<And>b. models_ok (heap (led s) b)"
  shows "models_ok (heap (led s') b)"
  using assms(1)
proof (cases rule: ledger_step.cases)
  case (admitted pod res now l' a q)
  from admitted(2) obtain l where l: "podLocked (sweepLocked (led s) now) pod now = (l, a)"
      "l' = take_slot l a (clampReservation res)"
    by (cases rule: tryAdmit_cases) auto
  have "models_ok (heap l b)" for b by (rule models_ok_podLocked [OF _ l(1)]) (simp add: inv)
  then show ?thesis by (auto simp: admitted(1) l(2) take_slot_def Let_def models_ok_def)
next
  case (turned_away pod res now l' a v)
  from turned_away(2) obtain l f where l: "podLocked (sweepLocked (led s) now) pod now = (l, a)"
      "l' = l\<lparr>heap := (heap l)(a := (heap l a)\<lparr>freed := f\<rparr>)\<rparr>"
    by (cases rule: tryAdmit_cases) (use turned_away(3) in auto)
  have "models_ok (heap l b)" for b by (rule models_ok_podLocked [OF _ l(1)]) (simp add: inv)
  then show ?thesis by (auto simp: turned_away(1) l(2) models_ok_def)
next
  case (observed_usage qs q qs' m route cred d now l' c q')
  then show ?thesis using models_ok_observe [OF inv] by simp
next
  case (charged_shortfall qs q qs' m route cred n now l' c q')
  then show ?thesis using models_ok_shortfall [OF inv] by simp
next
  case (released qs q qs' now)
  then show ?thesis using inv by (auto simp: release_def Let_def models_ok_def)
qed

lemma models_ok_reach: "ledger_reach ok u pr lim s \<Longrightarrow> models_ok (heap (led s) b)"
proof (induction arbitrary: b rule: ledger_reach.induct)
  case (step s s')
  then show ?case using models_ok_step by blast
qed (simp add: newLedger_def models_ok_new)

end
