(* ===== verification/LedgerProps.thy ===== *)
theory LedgerProps
  imports LedgerSafety
begin

text \<open>
  What the spend ledger promises, stated over its own operations: the accounts of every reachable
  state, the caps, the meaning of the trailing-hour sum, the settlement of a cut response, the bound
  on the per-model records, and the wrap-around a reservation near the end of int64 causes.
\<close>

subsection \<open>A concrete run\<close>

definition demo_limits :: limits where
  "demo_limits = \<lparr>requestsPerPod = 5, concurrentPerPod = 2, concurrencyWait = 0, tokensPerPod = 1000,
     tokensPerHour = 0, limit_unit = ''tokens'', costPerPod = 0, costPerHour = 0,
     maxTokensCeiling = 0\<rparr>"

definition demo_res :: "int \<Rightarrow> reservation" where
  "demo_res n = \<lparr>r_tokens = n, r_cost = 0, r_budget = 0\<rparr>"

definition demo_unicode :: unicode where
  "demo_unicode = \<lparr>u_lower = (\<lambda>s. s), u_trim = (\<lambda>s. s)\<rparr>"

definition demo_pricer :: pricer where
  "demo_pricer = \<lparr>p_cost = (\<lambda>_ _. 0), p_outputCost = (\<lambda>_ _. 0)\<rparr>"

definition demo_request :: request where
  "demo_request = \<lparr>rq_pod = ''pod'', rq_addr = 0, rq_res = demo_res 400, rq_charged = 0\<rparr>"

definition demo_led :: ledger where
  "demo_led = fst (tryAdmit (newLedger demo_limits) ''pod'' (demo_res 400) 0)"

lemma demo_admit:
  "tryAdmit (newLedger demo_limits) ''pod'' (clampReservation (demo_res 400)) 0 = (demo_led, 0, Admitted)"
  by (simp add: demo_led_def tryAdmit_def clampReservation_def demo_res_def newLedger_def demo_limits_def
      sweepLocked_def podLocked_def new_pod_def over_def time_sub_def limits_cost_def i64_def maxChargeMicroUSD_def Let_def)

lemma clamp_demo: "clampReservation (demo_res 400) = demo_res 400"
  by (simp add: clampReservation_def demo_res_def maxChargeMicroUSD_def)

lemma demo_reach:
  assumes "ok demo_limits demo_request"
  shows "ledger_reach ok u pr demo_limits \<lparr>led = demo_led, reqs = [demo_request], clock = 0\<rparr>"
proof -
  let ?s = "\<lparr>led = newLedger demo_limits, reqs = [], clock = 0\<rparr>"
  have "ledger_step ok u pr ?s \<lparr>led = demo_led, reqs = reqs ?s @ [demo_request], clock = 0\<rparr>"
    using assms demo_admit
    by (intro ledger_step.admitted [where res = "demo_res 400" and pod = "''pod''" and a = 0])
       (auto simp: demo_request_def clamp_demo newLedger_def)
  then show ?thesis using ledger_reach.step [OF ledger_reach.start [of 0 ok u pr demo_limits]] by simp
qed

lemma demo_pods: "pods demo_led ''pod'' = Some 0"
  using accounted_reach [OF demo_reach [of "\<lambda>_ _. True" demo_unicode demo_pricer]]
  by (simp add: accounted_def demo_request_def)

subsection \<open>Properties\<close>

text \<open>
  C13. Whatever requests do, in every reachable state of the broker's spend ledger every request in
  flight still has its pod in the map with the counters its release will change (the idle sweep
  never drops them), each pod's in-flight count is the number of its requests in flight, and the
  outstanding token and cost reservations, per pod and broker-wide, are the int64 sums of what those
  requests reserved, so once all are released nothing stays reserved.
\<close>

theorem ledger_accounts:
  assumes "ledger_reach ok u pr lim s"
  shows "(\<forall>q\<in>set (reqs s). pods (led s) (rq_pod q) = Some (rq_addr q)) \<and>
    (\<forall>pod a. pods (led s) pod = Some a \<longrightarrow>
       inflight (heap (led s) a) = int (length (filter (\<lambda>q. rq_pod q = pod) (reqs s))) \<and>
       reserved (heap (led s) a) =
         i64 (sum_list (map (r_tokens \<circ> rq_res) (filter (\<lambda>q. rq_pod q = pod) (reqs s)))) \<and>
       costReserved (heap (led s) a) =
         i64 (sum_list (map (r_cost \<circ> rq_res) (filter (\<lambda>q. rq_pod q = pod) (reqs s))))) \<and>
    l_reserved (led s) = i64 (sum_list (map (r_tokens \<circ> rq_res) (reqs s))) \<and>
    reservedCost (led s) = i64 (sum_list (map (r_cost \<circ> rq_res) (reqs s)))"
proof -
  have acc: "accounted (led s) (reqs s)" by (rule accounted_reach [OF assms])
  have map: "\<forall>q\<in>set (reqs s). pods (led s) (rq_pod q) = Some (rq_addr q)"
    using acc unfolding accounted_def by blast
  have "filter (\<lambda>q. rq_pod q = pod) (reqs s) = filter (\<lambda>q. rq_addr q = a) (reqs s)"
    if a: "pods (led s) pod = Some a" for pod a
  proof (rule filter_cong [OF refl])
    fix q assume "q \<in> set (reqs s)"
    then have "pods (led s) (rq_pod q) = Some (rq_addr q)" using map by blast
    moreover have "pods (led s) (rq_pod q) = Some a \<Longrightarrow> rq_pod q = pod"
      using acc a unfolding accounted_def by blast
    ultimately show "rq_pod q = pod \<longleftrightarrow> rq_addr q = a" using a by auto
  qed
  moreover have "a < next_addr (led s)" if "pods (led s) pod = Some a" for pod a
    using acc that unfolding accounted_def by blast
  ultimately show ?thesis
    using acc map unfolding accounted_def in_flight_def sum_of_def
    by (simp add: sum_list_triv)
qed

lemma ledger_accounts_witness:
  "ledger_reach (\<lambda>_ _. True) demo_unicode demo_pricer demo_limits
     \<lparr>led = demo_led, reqs = [demo_request], clock = 0\<rparr> \<and>
   reserved (heap demo_led 0) = 400 \<and> inflight (heap demo_led 0) = 1 \<and> l_reserved demo_led = 400"
  using ledger_accounts [OF demo_reach [of "\<lambda>_ _. True" demo_unicode demo_pricer, OF TrueI]]
    demo_reach [of "\<lambda>_ _. True" demo_unicode demo_pricer, OF TrueI] demo_pods
  by (simp add: demo_request_def demo_res_def i64_def)

text \<open>
  C14. Token cap. When every request is charged at most what it reserved and its reservation leaves
  the cap's sums inside an int64, no reachable state has charged a pod more than TokensPerPod, and
  the reservations a pod holds never exceed it either.
\<close>

theorem ledger_token_cap:
  assumes "ledger_reach keeps_reservation u pr lim s"
    and "0 < tokensPerPod lim" "tokensPerPod lim \<le> max_int64"
    and "pods (led s) pod = Some a"
  shows "0 \<le> tokens (heap (led s) a) \<and> tokens (heap (led s) a) \<le> tokensPerPod lim \<and>
    sum_list (map (r_tokens \<circ> rq_res) (filter (\<lambda>q. rq_addr q = a) (reqs s))) \<le> tokensPerPod lim"
proof -
  have w: "within_tokens (led s) (reqs s)" by (rule within_tokens_reach [OF assms(1-3)])
  note D = within_tokensD [OF w assms(4), unfolded limits_reach [OF assms(1)]]
  have "0 \<le> sum_of owed a (reqs s)"
    by (rule owed_nonneg) (use within_tokens_good [OF w] in blast)
  then show ?thesis using D unfolding sum_of_def by linarith
qed

lemma ledger_token_cap_witness:
  "tokens (heap demo_led 0) \<le> 1000"
proof -
  have ok: "keeps_reservation demo_limits demo_request"
    by (simp add: keeps_reservation_def demo_limits_def demo_request_def demo_res_def)
  have "0 < tokensPerPod demo_limits" "tokensPerPod demo_limits \<le> max_int64"
    by (simp_all add: demo_limits_def)
  from ledger_token_cap [OF demo_reach [of keeps_reservation demo_unicode demo_pricer, OF ok] this, of "''pod''" 0]
  show ?thesis using demo_pods by (simp add: demo_limits_def)
qed

text \<open>
  Request and concurrency caps. Whatever requests reserve and are charged, no pod is ever admitted
  more than RequestsPerPod requests nor has more than ConcurrentPerPod in flight, when those limits
  are configured.
\<close>

theorem ledger_request_caps:
  assumes "ledger_reach ok u pr lim s" "limits_int64 lim" "pods (led s) pod = Some a"
  shows "(0 < requestsPerPod lim \<longrightarrow> requests (heap (led s) a) \<le> requestsPerPod lim) \<and>
    (0 < concurrentPerPod lim \<longrightarrow>
       int (length (filter (\<lambda>q. rq_addr q = a) (reqs s))) \<le> concurrentPerPod lim)"
proof -
  have "pod_within lim (heap (led s) a)"
    using within_caps_reach [OF assms(1,2)] limits_reach [OF assms(1)] assms(3)
    unfolding within_caps_def by metis
  moreover have "inflight (heap (led s) a) = int (length (filter (\<lambda>q. rq_addr q = a) (reqs s)))"
    using accounted_reach [OF assms(1)] assms(3)
    unfolding accounted_def in_flight_def sum_of_def by (simp add: sum_list_triv)
  ultimately show ?thesis by (simp add: pod_within_def)
qed

lemma ledger_request_caps_witness:
  "requests (heap demo_led 0) \<le> 5 \<and> int (length (filter (\<lambda>q. rq_addr q = 0) [demo_request])) \<le> 2"
  using ledger_request_caps [OF demo_reach [of "\<lambda>_ _. True" demo_unicode demo_pricer, OF TrueI], of "''pod''" 0]
    demo_pods by (simp add: limits_int64_def demo_limits_def)

text \<open>
  The usage a run's controller reads. In every reachable state the tokens charged to a pod are, as
  an int64, the sum over its per-model records of the observed usage and the shortfalls; the records'
  keys are distinct, and at most MaxModels of them are for anything but the shared overflow model,
  whatever model ids the pod names.
\<close>

theorem ledger_models_account:
  assumes "ledger_reach ok u pr lim s"
  shows "tokens (heap (led s) a) =
      i64 (sum_list (map (\<lambda>(_, mu). usage_total (observed mu) + shortfall_tokens mu) (models (heap (led s) a))))
    \<and> distinct (map fst (models (heap (led s) a)))
    \<and> length (filter (\<lambda>e. fst (fst e) \<noteq> ModelOther) (models (heap (led s) a))) \<le> 8"
  using models_ok_reach [OF assms, of a] by (simp add: models_ok_def models_total_def MaxModels_def)

lemma ledger_models_account_witness: "models (heap demo_led 0) = [] \<and> tokens (heap demo_led 0) = 0"
proof -
  have "models (heap demo_led 0) = []"
    by (simp add: demo_led_def tryAdmit_def demo_res_def newLedger_def demo_limits_def
      sweepLocked_def podLocked_def new_pod_def over_def time_sub_def limits_cost_def i64_def Let_def)
  then show ?thesis
    using ledger_models_account [OF demo_reach [of "\<lambda>_ _. True" demo_unicode demo_pricer, OF TrueI], of 0]
    by (simp add: i64_def)
qed

text \<open>
  The trailing-hour window. After any charges made in time order, the sum the hourly ceiling is
  checked against is the int64 sum of exactly the charges of the current minute and the fifty-nine
  before it, however often the ring of sixty buckets has been reused.
\<close>

theorem hour_window_sum:
  assumes "sorted (map fst evs)" "\<forall>e\<in>set evs. 0 \<le> fst e \<and> fst e \<le> now" "0 \<le> now"
  shows "hw_sum (foldl (\<lambda>h e. hw_add h (fst e) (snd e)) new_window evs) now =
    i64 (sum_list (map snd (filter (\<lambda>e. unix_minute now - unix_minute (fst e) < 60) evs)))"
proof -
  have window: "window_of (map (\<lambda>e. (unix_minute (fst e), snd e)) evs)
      (if evs = [] then 0 else unix_minute (fst (last evs)))
      (foldl (\<lambda>h e. hw_add h (fst e) (snd e)) new_window evs)"
    if "sorted (map fst evs)" "\<forall>e\<in>set evs. 0 \<le> fst e"
    using that
  proof (induction evs rule: rev_induct)
    case (snoc e evs)
    let ?hi = "if evs = [] then 0 else unix_minute (fst (last evs))"
    have "\<forall>d\<in>set evs. fst d \<le> fst e" using snoc.prems by (auto simp: sorted_append)
    then have "?hi \<le> unix_minute (fst e)"
      using snoc.prems by (auto simp: unix_minute_nonneg unix_minute_mono)
    moreover have "window_of (map (\<lambda>e. (unix_minute (fst e), snd e)) evs) ?hi
        (foldl (\<lambda>h e. hw_add h (fst e) (snd e)) new_window evs)"
      using snoc by (auto simp: sorted_append)
    ultimately show ?case using window_of_add [of _ ?hi _ "fst e" "snd e"] snoc.prems by simp
  qed (simp add: window_of_new)
  have "(if evs = [] then 0 else unix_minute (fst (last evs))) \<le> unix_minute now"
    using assms by (auto simp: unix_minute_nonneg unix_minute_mono)
  from hw_sum_spec [OF window this] assms show ?thesis
    by (simp add: charged_in_def filter_map comp_def)
qed

lemma hour_window_sum_witness:
  "hw_sum (foldl (\<lambda>h e. hw_add h (fst e) (snd e)) new_window
     [(0, 5), (nano_hour, 7), (nano_hour + nano_minute, 11)]) (2 * nano_hour) = 11"
  by (subst hour_window_sum) (simp_all add: unix_minute_def tdiv_nonneg i64_def)

text \<open>
  Cost admission. When a request is admitted under the cost unit and CostPerPod leaves room for
  one charge in an int64, the pod's committed spend with the request's own reservation, as it stands
  after the admission, is within the pod's cap: never above CostPerPod, nor above the pod's budget
  annotation when it has one. No choice of max_tokens can defeat the check.
\<close>

theorem cost_admission:
  assumes "tryAdmit l pod (clampReservation res) now = (l', a, Admitted)"
    and "limits_cost (l_limits l)" "costPerPod (l_limits l) \<le> max_int64 - maxChargeMicroUSD"
  shows "i64 (cost (heap l' a) + costReserved (heap l' a)) \<le> costPerPod (l_limits l) \<and>
    (0 < r_budget res \<longrightarrow> i64 (cost (heap l' a) + costReserved (heap l' a)) \<le> r_budget res)"
  using assms(1)
proof (cases rule: tryAdmit_cases)
  case (admitted l1)
  let ?r = "clampReservation res"
  let ?lim = "l_limits l"
  have lim: "l_limits l1 = ?lim" using podLocked_limits [OF admitted(1)] by simp
  define c where "c = i64 (cost (heap l1 a) + costReserved (heap l1 a))"
  have r: "0 \<le> r_cost ?r" "r_cost ?r \<le> maxChargeMicroUSD" "r_budget ?r = r_budget res"
    by (simp_all add: clampReservation_def maxChargeMicroUSD_def)
  have pod: "podCostLimit ?lim b \<le> costPerPod ?lim" "0 < b \<Longrightarrow> podCostLimit ?lim b \<le> b" for b
    by (simp_all add: podCostLimit_def)
  have pass: "\<not> over c (r_cost ?r) (podCostLimit ?lim (r_budget ?r))"
    using refusal_None(4) [OF admitted(2)] assms(2) by (simp add: lim c_def)
  have "min_int64 \<le> c" using i64_range c_def by simp
  moreover have "c < podCostLimit ?lim (r_budget ?r)" using pass by (simp add: over_def)
  ultimately have "i64 (c + r_cost ?r) = c + r_cost ?r"
    using r pod(1) [of "r_budget ?r"] assms(3) by (intro i64_id) linarith+
  then have "c + r_cost ?r \<le> podCostLimit ?lim (r_budget ?r)" using pass by (simp add: over_def)
  moreover have "i64 (cost (heap l' a) + costReserved (heap l' a)) = i64 (c + r_cost ?r)"
    by (simp add: admitted(3) take_slot_def Let_def c_def wrap add.assoc)
  ultimately show ?thesis using \<open>i64 (c + r_cost ?r) = c + r_cost ?r\<close> pod [of "r_budget ?r"] r(3)
    by (metis order_trans)
qed simp

definition demo_cost_limits :: limits where
  "demo_cost_limits = demo_limits\<lparr>limit_unit := ''cost'', costPerPod := 2000000\<rparr>"

lemma cost_admission_witness:
  "\<exists>l'. tryAdmit (newLedger demo_cost_limits) ''pod''
           (clampReservation \<lparr>r_tokens = 10, r_cost = 500000, r_budget = 900000\<rparr>) 0 = (l', 0, Admitted) \<and>
        i64 (cost (heap l' 0) + costReserved (heap l' 0)) \<le> 900000"
proof -
  let ?r = "\<lparr>r_tokens = 10, r_cost = 500000, r_budget = 900000\<rparr>"
  obtain l' a v where run: "tryAdmit (newLedger demo_cost_limits) ''pod'' (clampReservation ?r) 0 = (l', a, v)"
    by (cases "tryAdmit (newLedger demo_cost_limits) ''pod'' (clampReservation ?r) 0")
  then have "a = 0 \<and> v = Admitted"
    by (auto simp: tryAdmit_def clampReservation_def newLedger_def demo_limits_def demo_cost_limits_def
      sweepLocked_def podLocked_def new_pod_def over_def time_sub_def limits_cost_def i64_def
      podCostLimit_def maxChargeMicroUSD_def Let_def split: if_splits)
  then show ?thesis
    using run cost_admission [of "newLedger demo_cost_limits" "''pod''" ?r 0 l' 0]
    by (simp add: newLedger_def demo_cost_limits_def limits_cost_def maxChargeMicroUSD_def)
qed

text \<open>
  Settlement. A metered response whose usage never became final is charged, in all, its worst
  case: the larger of the observed input and the size estimate plus the larger of the observed output
  and the output bound. That is never less than what the request reserved, and exactly that when the
  response stayed within its estimate and bound, so such a request keeps the contract of the token
  cap; a cut stream is never cheaper than a complete one.
\<close>

theorem settlement_worst_case:
  assumes "\<forall>x\<in>{u_input sn, cacheCreation sn, cacheRead sn, u_output sn, est, bound}.
             0 \<le> x \<and> x \<le> 2 ^ 60"
  shows "usage_total sn + shortfall sn est bound =
           max (u_input sn + cacheCreation sn + cacheRead sn) est + max (u_output sn) bound \<and>
         0 \<le> shortfall sn est bound \<and>
         r_tokens (reserve pr True m est bound budget) \<le> usage_total sn + shortfall sn est bound \<and>
         (u_input sn + cacheCreation sn + cacheRead sn \<le> est \<and> u_output sn \<le> bound \<longrightarrow>
            usage_total sn + shortfall sn est bound = r_tokens (reserve pr True m est bound budget))"
proof -
  let ?in = "u_input sn + cacheCreation sn + cacheRead sn"
  let ?i = "max ?in est" and ?o = "max (u_output sn) bound"
  have b: "0 \<le> u_input sn" "0 \<le> cacheCreation sn" "0 \<le> cacheRead sn" "0 \<le> u_output sn" "0 \<le> est"
      "0 \<le> bound" "u_input sn \<le> 1152921504606846976" "cacheCreation sn \<le> 1152921504606846976"
      "cacheRead sn \<le> 1152921504606846976" "u_output sn \<le> 1152921504606846976"
      "est \<le> 1152921504606846976" "bound \<le> 1152921504606846976"
    using assms by simp_all
  have "i64 ?in = ?in" "i64 (?in + u_output sn) = ?in + u_output sn" "i64 (est + bound) = est + bound"
      "i64 (?i + ?o) = ?i + ?o" "i64 (?i + ?o - (?in + u_output sn)) = ?i + ?o - (?in + u_output sn)"
    using b by (auto intro!: i64_id)
  then have total: "usage_total sn = ?in + u_output sn"
    and sf: "shortfall sn est bound = ?i + ?o - (?in + u_output sn)"
    and res: "r_tokens (reserve pr True m est bound budget) = est + bound"
    by (simp_all add: usage_total_def shortfall_def reserve_def wrap Let_def)
  show ?thesis unfolding total sf res by (auto simp: max_def)
qed

lemma settlement_worst_case_witness:
  "shortfall \<lparr>u_input = 900, cacheCreation = 0, cacheWrite1h = 0, cacheRead = 50, u_output = 1\<rparr> 400 4096 = 4095"
  using settlement_worst_case
    [of "\<lparr>u_input = 900, cacheCreation = 0, cacheWrite1h = 0, cacheRead = 50, u_output = 1\<rparr>" 400 4096
        demo_pricer "[]" 0]
  by (simp add: usage_total_def i64_def)


end
