(* ===== verification/Schedule.thy ===== *)
theory Schedule
  imports Prelude "HOL-Library.Product_Lexorder" "HOL-Library.Multiset"
begin

text \<open>
  \<open>internal/schedule/schedule.go\<close>: which pending runs get the free slots. \<open>candidate_cmp\<close> is the
  comparison function \<open>Pick\<close> gives \<open>slices.SortFunc\<close>, with its 32-bit subtraction; \<open>SortFunc\<close> is
  modelled as an insertion sort on it, and \<open>Pick_any_sort\<close> shows that every sort leaves the same
  names. \<open>rank_key\<close> is the specification: the order the doc comment promises, as a linear order.
\<close>

record candidate =
  c_name :: string
  c_priority :: int
  queuedAt :: time
  expedited :: bool

record aging_policy =
  interval :: duration
  cap :: int

definition effective :: "aging_policy \<Rightarrow> candidate \<Rightarrow> time \<Rightarrow> int" where
  "effective p c now =
     (if interval p \<le> 0 \<or> cap p \<le> 0 then c_priority c
      else let boost = min (i32 (tdiv (time_sub now (queuedAt c)) (interval p))) (cap p)
           in i32 (c_priority c + max boost 0))"

definition strings_compare :: "string \<Rightarrow> string \<Rightarrow> int" where
  "strings_compare a b = (if a = b then 0 else if a < b then -1 else 1)"

definition candidate_cmp :: "aging_policy \<Rightarrow> time \<Rightarrow> candidate \<Rightarrow> candidate \<Rightarrow> int" where
  "candidate_cmp p now a b =
     (let ea = effective p a now; eb = effective p b now in
      if expedited a \<noteq> expedited b then (if expedited a then -1 else 1)
      else if ea \<noteq> eb then i32 (eb - ea)
      else if queuedAt a \<noteq> queuedAt b then (if queuedAt a < queuedAt b then -1 else 1)
      else strings_compare (c_name a) (c_name b))"

fun insert_func :: "('a \<Rightarrow> 'a \<Rightarrow> int) \<Rightarrow> 'a \<Rightarrow> 'a list \<Rightarrow> 'a list" where
  "insert_func cmp x [] = [x]"
| "insert_func cmp x (y # ys) = (if cmp x y \<le> 0 then x # y # ys else y # insert_func cmp x ys)"

fun sort_func :: "('a \<Rightarrow> 'a \<Rightarrow> int) \<Rightarrow> 'a list \<Rightarrow> 'a list" where
  "sort_func cmp [] = []"
| "sort_func cmp (x # xs) = insert_func cmp x (sort_func cmp xs)"

definition Pick :: "candidate list \<Rightarrow> int \<Rightarrow> time \<Rightarrow> aging_policy \<Rightarrow> string list" where
  "Pick pending freeSlots now aging =
     (if freeSlots \<le> 0 \<or> pending = [] then []
      else let ranked = sort_func (candidate_cmp aging now) pending;
               n = min freeSlots (int (length ranked))
           in map c_name (take (nat n) ranked))"

subsection \<open>The order the comment promises\<close>

definition rank_key :: "aging_policy \<Rightarrow> time \<Rightarrow> candidate \<Rightarrow> bool \<times> int \<times> int \<times> string" where
  "rank_key p now c = (\<not> expedited c, - effective p c now, queuedAt c, c_name c)"

text \<open>
  The bounds the API types put on a candidate: the priority is between 0 and 100, and the policy's
  cap leaves room for it in an \<open>int32\<close>.
\<close>

definition candidate_ok :: "aging_policy \<Rightarrow> candidate \<Rightarrow> bool" where
  "candidate_ok p c \<longleftrightarrow> 0 \<le> c_priority c \<and> c_priority c \<le> 100 \<and> cap p \<le> 2147483547"

lemma effective_bounds:
  assumes "candidate_ok p c"
  shows "c_priority c \<le> effective p c now" "effective p c now \<le> c_priority c + max 0 (cap p)"
proof -
  let ?b = "max (min (i32 (tdiv (time_sub now (queuedAt c)) (interval p))) (cap p)) 0"
  have "0 \<le> ?b" "?b \<le> max 0 (cap p)" by auto
  then have "i32 (c_priority c + ?b) = c_priority c + ?b"
    using assms by (intro i32_id) (auto simp: candidate_ok_def)
  then show "c_priority c \<le> effective p c now" "effective p c now \<le> c_priority c + max 0 (cap p)"
    by (auto simp: effective_def Let_def)
qed

lemma candidate_cmp_rank:
  assumes "candidate_ok p a" "candidate_ok p b"
  shows "candidate_cmp p now a b \<le> 0 \<longleftrightarrow> rank_key p now a \<le> rank_key p now b"
proof -
  have "i32 (effective p b now - effective p a now) = effective p b now - effective p a now"
    using effective_bounds [OF assms(1), of now] effective_bounds [OF assms(2), of now] assms
    by (intro i32_id) (auto simp: candidate_ok_def)
  then show ?thesis
    by (auto simp: candidate_cmp_def rank_key_def Let_def strings_compare_def less_le)
qed

lemma rank_key_name: "rank_key p now a = rank_key p now b \<Longrightarrow> c_name a = c_name b"
  by (simp add: rank_key_def)

subsection \<open>Sorting\<close>

lemma mset_insert_func: "mset (insert_func cmp x xs) = add_mset x (mset xs)"
  by (induction xs) auto

lemma mset_sort_func [simp]: "mset (sort_func cmp xs) = mset xs"
  by (induction xs) (auto simp: mset_insert_func)

lemma set_sort_func [simp]: "set (sort_func cmp xs) = set xs"
  by (metis mset_sort_func set_mset_mset)

lemma length_sort_func [simp]: "length (sort_func cmp xs) = length xs"
  by (metis mset_sort_func size_mset)

lemma insert_func_insort:
  "\<forall>y\<in>set ys. cmp x y \<le> 0 \<longleftrightarrow> k x \<le> k y \<Longrightarrow> insert_func cmp x ys = insort_key k x ys"
  by (induction ys) auto

lemma sort_func_sort_key:
  "\<forall>x\<in>set xs. \<forall>y\<in>set xs. cmp x y \<le> 0 \<longleftrightarrow> k x \<le> k y \<Longrightarrow> sort_func cmp xs = sort_key k xs"
  by (induction xs) (auto simp: insert_func_insort)

lemma sort_func_rank:
  "\<forall>c\<in>set cs. candidate_ok p c \<Longrightarrow> sort_func (candidate_cmp p now) cs = sort_key (rank_key p now) cs"
  by (rule sort_func_sort_key) (simp add: candidate_cmp_rank)

lemma sorted_rank_unique:
  assumes "mset xs = mset ys" "distinct (map c_name ys)"
    and "sorted (map (rank_key p now) xs)" "sorted (map (rank_key p now) ys)"
  shows "xs = ys"
proof -
  have inj: "inj_on (rank_key p now) (set ys)"
    using assms(2) by (auto simp: inj_on_def distinct_map dest: rank_key_name)
  have "mset (map (rank_key p now) xs) = mset (map (rank_key p now) ys)"
    using assms(1) by simp
  then have "map (rank_key p now) xs = map (rank_key p now) ys"
    using assms(3,4) by (metis properties_for_sort)
  then show ?thesis
    using inj assms(1) by (metis inj_on_map_eq_map mset_eq_setD sup.idem)
qed

lemma Pick_rank:
  "\<forall>c\<in>set cs. candidate_ok p c \<Longrightarrow>
   Pick cs n now p = map c_name (take (nat n) (sort_key (rank_key p now) cs))"
  by (auto simp: Pick_def Let_def sort_func_rank min_def)

lemma distinct_sort_names:
  "distinct (map c_name cs) \<Longrightarrow> distinct (map c_name (sort_key k cs))"
  by (metis mset_eq_imp_distinct_iff mset_map mset_sort)

lemma rank_key_le:
  "rank_key p now x \<le> rank_key p now y \<Longrightarrow>
     (expedited y \<longrightarrow> expedited x) \<and>
     (expedited y = expedited x \<longrightarrow>
        effective p y now \<le> effective p x now \<and>
        (effective p y now = effective p x now \<longrightarrow> queuedAt x \<le> queuedAt y))"
  by (auto simp: rank_key_def less_eq_prod_def)

lemma take_drop_sorted:
  "sorted (map k xs) \<Longrightarrow> x \<in> set (take n xs) \<Longrightarrow> y \<in> set (drop n xs) \<Longrightarrow> k x \<le> k y"
proof -
  assume h: "sorted (map k xs)" "x \<in> set (take n xs)" "y \<in> set (drop n xs)"
  then have "sorted (map k (take n xs) @ map k (drop n xs))"
    by (simp flip: map_append)
  then show ?thesis using h(2,3) by (fastforce simp: sorted_append)
qed

text \<open>
  The picked runs do not depend on the sort. For candidates with distinct names whose priorities
  and aging cap are within the API's bounds, whatever order of the pending list a decider sees and
  whatever algorithm sorts it by the comparison function, it picks the same names in the same order.
\<close>

theorem Pick_any_sort:
  assumes "\<forall>c\<in>set pending. candidate_ok p c" "distinct (map c_name pending)"
    and "mset ranked = mset pending"
    and "sorted_wrt (\<lambda>a b. candidate_cmp p now a b \<le> 0) ranked"
  shows "Pick pending freeSlots now p = map c_name (take (nat freeSlots) ranked)"
proof -
  have set: "set ranked = set pending" using assms(3) by (rule mset_eq_setD)
  have ok: "\<forall>c\<in>set ranked. candidate_ok p c" using assms(1) set by simp
  have "sorted_wrt (\<lambda>a b. rank_key p now a \<le> rank_key p now b) ranked"
    using assms(4) by (rule sorted_wrt_mono_rel [rotated]) (use ok candidate_cmp_rank in blast)
  then have "sorted (map (rank_key p now) ranked)" by (simp add: sorted_wrt_map)
  then have "ranked = sort_key (rank_key p now) pending"
    using assms(3) distinct_sort_names [OF assms(2)] sorted_sort_key
    by (intro sorted_rank_unique [where p = p and now = now]) simp_all
  then show ?thesis by (simp add: Pick_rank [OF assms(1)])
qed

definition demo_candidates :: "candidate list" where
  "demo_candidates =
     [\<lparr>c_name = ''b'', c_priority = 10, queuedAt = 5, expedited = False\<rparr>,
      \<lparr>c_name = ''a'', c_priority = 90, queuedAt = 9, expedited = False\<rparr>,
      \<lparr>c_name = ''c'', c_priority = 1, queuedAt = 9, expedited = True\<rparr>]"

definition demo_aging :: aging_policy where
  "demo_aging = \<lparr>interval = 0, cap = 0\<rparr>"

lemma Pick_any_sort_witness:
  "Pick demo_candidates 2 100 demo_aging = [''c'', ''a'']"
  using Pick_any_sort [of demo_candidates demo_aging "[demo_candidates ! 2, demo_candidates ! 1, demo_candidates ! 0]" 100 2]
  by (simp add: demo_candidates_def demo_aging_def candidate_ok_def candidate_cmp_def effective_def
      i32_def Let_def)

text \<open>
  The picked runs are the right ones. At most the free slots are picked, all of them when enough
  is pending, each from the pending candidates; and every candidate passed over ranks after every
  picked one: an expedited candidate is passed over only when every picked one is expedited, and among
  candidates of the same class one passed over never has a higher effective priority, nor the same
  one and an earlier queue time.
\<close>

theorem Pick_best:
  assumes "\<forall>c\<in>set pending. candidate_ok p c" "distinct (map c_name pending)"
  shows "length (Pick pending freeSlots now p) = min (nat freeSlots) (length pending) \<and>
    distinct (Pick pending freeSlots now p) \<and> set (Pick pending freeSlots now p) \<subseteq> c_name ` set pending \<and>
    (\<forall>x\<in>set pending. \<forall>y\<in>set pending.
       c_name x \<in> set (Pick pending freeSlots now p) \<longrightarrow> c_name y \<notin> set (Pick pending freeSlots now p) \<longrightarrow>
       (expedited y \<longrightarrow> expedited x) \<and>
       (expedited y = expedited x \<longrightarrow>
          effective p y now \<le> effective p x now \<and>
          (effective p y now = effective p x now \<longrightarrow> queuedAt x \<le> queuedAt y)))"
proof -
  let ?s = "sort_key (rank_key p now) pending" and ?n = "nat freeSlots"
  have pick: "Pick pending freeSlots now p = map c_name (take ?n ?s)"
    by (rule Pick_rank [OF assms(1)])
  have dist: "distinct (map c_name ?s)" by (rule distinct_sort_names [OF assms(2)])
  then have "distinct (map c_name (take ?n ?s) @ map c_name (drop ?n ?s))"
    by (simp flip: map_append)
  then have dist': "distinct (map c_name (take ?n ?s))" by simp
  have rank: "rank_key p now x \<le> rank_key p now y"
    if xy: "x \<in> set pending" "y \<in> set pending" "c_name x \<in> set (map c_name (take ?n ?s))"
      "c_name y \<notin> set (map c_name (take ?n ?s))" for x y
  proof -
    obtain x' where x': "x' \<in> set (take ?n ?s)" "c_name x' = c_name x" using xy(3) by auto
    then have "x' \<in> set pending" by (metis in_set_takeD set_sort)
    then have "x' = x" using assms(2) xy(1) x'(2) by (auto simp: distinct_map inj_on_def)
    moreover have "y \<in> set (take ?n ?s) \<union> set (drop ?n ?s)"
      using xy(2) by (metis append_take_drop_id set_append set_sort)
    then have "y \<in> set (drop ?n ?s)" using xy(4) by auto
    ultimately show ?thesis using x' take_drop_sorted [of "rank_key p now" ?s] by simp
  qed
  have "set (take ?n ?s) \<subseteq> set pending"
    by (metis set_sort set_take_subset)
  then have "set (map c_name (take ?n ?s)) \<subseteq> c_name ` set pending" by auto
  moreover have "length (map c_name (take ?n ?s)) = min ?n (length pending)"
    by (simp add: min.commute)
  ultimately show ?thesis
    unfolding pick using dist' rank_key_le [OF rank] by blast
qed

lemma Pick_best_witness:
  "length (Pick demo_candidates 2 100 demo_aging) = 2"
  using Pick_best [of demo_candidates demo_aging 2 100]
  by (simp add: demo_candidates_def demo_aging_def candidate_ok_def)

end
