(* ===== verification/ProxyPath.thy ===== *)
theory ProxyPath
  imports Regex
begin

text \<open>
  \<open>internal/egressproxy/path.go\<close> and the body caps of \<open>limits.go\<close>: the grammar of the module-proxy and
  checksum-database paths the egress proxy forwards. The functions of \<open>golang.org/x/mod/module\<close> are
  not part of the repository and are the fields of a record every parser takes; what the proxy checks
  itself (shape, alphabets, case-unescaping) is modelled in full.
\<close>

record go_module =
  UnescapePath :: "string \<Rightarrow> string option"
  CheckImportPath :: "string \<Rightarrow> bool"
  UnescapeVersion :: "string \<Rightarrow> string option"
  CanonicalVersion :: "string \<Rightarrow> string"
  IsPseudoVersion :: "string \<Rightarrow> bool"

datatype route = RouteNone | RouteGo | RouteSumDB

datatype kind =
    KindNone | KindList | KindInfo | KindMod | KindZip | KindLatest | KindSupported | KindLookup | KindTile

record proxy_request =
  rq_route :: route
  rq_kind :: kind
  rq_module :: string
  rq_version :: string
  rq_upstream :: string

datatype path_error = PathError bool string

abbreviation badPath :: "string \<Rightarrow> path_error" where "badPath rule \<equiv> PathError False rule"

definition SumDBName :: string where "SumDBName = ''sum.golang.org''"
definition MaxPathLen :: nat where "MaxPathLen = 1024"
definition maxVersionLen :: nat where "maxVersionLen = 128"

definition ModuleChecked :: "proxy_request \<Rightarrow> bool" where
  "ModuleChecked r \<longleftrightarrow> rq_module r \<noteq> []"

definition VersionGated :: "proxy_request \<Rightarrow> bool" where
  "VersionGated r = (case rq_kind r of
     KindInfo \<Rightarrow> True | KindMod \<Rightarrow> True | KindZip \<Rightarrow> True | KindLookup \<Rightarrow> True | _ \<Rightarrow> False)"

definition checkShape :: "string \<Rightarrow> path_error option" where
  "checkShape p =
     (if MaxPathLen < length p then Some (badPath ''path too long'')
      else if list_ex (\<lambda>e. e = [] \<or> e = ''.'' \<or> e = ''..'') (split_on (CHR ''/'') p)
        then Some (badPath ''empty or dot path element'')
      else None)"

definition moduleByteOK :: "char \<Rightarrow> bool" where
  "moduleByteOK c \<longleftrightarrow> is_lower c \<or> is_digit c \<or> c \<in> set ''._~+!/-''"

definition versionByteOK :: "char \<Rightarrow> bool" where
  "versionByteOK c \<longleftrightarrow> is_lower c \<or> is_upper c \<or> is_digit c \<or> c \<in> set ''!#$&()+,-.=@[]^_{}~''"

fun unescape_from :: "bool \<Rightarrow> string \<Rightarrow> string option" where
  "unescape_from bang [] = (if bang then None else Some [])"
| "unescape_from bang (c # cs) =
     (if 128 \<le> byte c \<or> is_upper c then None
      else if bang then
        (if \<not> is_lower c then None
         else map_option ((#) (char_of (byte c - 97 + 65))) (unescape_from False cs))
      else if c = CHR ''!'' then unescape_from True cs
      else map_option ((#) c) (unescape_from False cs))"

definition unescape :: "string \<Rightarrow> string option" where
  "unescape esc = unescape_from False esc"

definition parseModule :: "go_module \<Rightarrow> string \<Rightarrow> path_error + string" where
  "parseModule g esc =
     (if esc = [] then Inl (badPath ''empty module path'')
      else if \<not> list_all moduleByteOK esc
        then Inl (badPath ''module path has a character outside the escaped module-path alphabet'')
      else (case UnescapePath g esc of
              Some m \<Rightarrow> Inr m
            | None \<Rightarrow> (case unescape esc of
                Some m \<Rightarrow> if CheckImportPath g m then Inr m else Inl (badPath ''invalid module path'')
              | None \<Rightarrow> Inl (badPath ''invalid module path''))))"

definition parseVersion :: "go_module \<Rightarrow> string \<Rightarrow> path_error + string" where
  "parseVersion g esc =
     (if esc = [] \<or> maxVersionLen < length esc then Inl (badPath ''version is empty or too long'')
      else if \<not> list_all versionByteOK esc
        then Inl (badPath ''version has a character outside the escaped version alphabet'')
      else (case UnescapeVersion g esc of
              Some v \<Rightarrow> Inr v
            | None \<Rightarrow> Inl (badPath ''invalid version'')))"

text \<open>\<open>strings.LastIndex\<close>, as the text before and after the last occurrence.\<close>

fun cut_last :: "string \<Rightarrow> string \<Rightarrow> (string \<times> string) option" where
  "cut_last sep [] = (if sep = [] then Some ([], []) else None)"
| "cut_last sep (c # cs) =
     (case cut_last sep cs of
        Some (b, a) \<Rightarrow> Some (c # b, a)
      | None \<Rightarrow> map_option (\<lambda>a. ([], a)) (cut_prefix (c # cs) sep))"

definition proxyFile :: "string \<Rightarrow> (kind \<times> string) option" where
  "proxyFile file =
     (if file = ''list'' then Some (KindList, [])
      else case cut_suffix file ''.info'' of Some v \<Rightarrow> Some (KindInfo, v) | None \<Rightarrow>
        (case cut_suffix file ''.mod'' of Some v \<Rightarrow> Some (KindMod, v) | None \<Rightarrow>
        (case cut_suffix file ''.zip'' of Some v \<Rightarrow> Some (KindZip, v) | None \<Rightarrow> None)))"

definition ParseGoProxy :: "go_module \<Rightarrow> string \<Rightarrow> path_error + proxy_request" where
  "ParseGoProxy g p =
     (case checkShape p of Some e \<Rightarrow> Inl e | None \<Rightarrow>
      (case (case cut_suffix p ''/@latest'' of
               Some m \<Rightarrow> Inr (m, KindLatest, [])
             | None \<Rightarrow> (case cut_last ''/@v/'' p of
                 None \<Rightarrow> Inl (badPath ''not a module proxy path (<module>/@v/... or <module>/@latest)'')
               | Some (m, file) \<Rightarrow> (case proxyFile file of
                   None \<Rightarrow> Inl (badPath ''not a module proxy file (list, .info, .mod, .zip)'')
                 | Some (k, escVer) \<Rightarrow> Inr (m, k, escVer)))) of
         Inl e \<Rightarrow> Inl e
       | Inr (escMod, k, escVer) \<Rightarrow>
          (case parseModule g escMod of Inl e \<Rightarrow> Inl e | Inr m \<Rightarrow>
             (let req = \<lparr>rq_route = RouteGo, rq_kind = k, rq_module = m, rq_version = [], rq_upstream = p\<rparr> in
              if k = KindInfo \<or> k = KindMod \<or> k = KindZip
              then (case parseVersion g escVer of
                      Inl e \<Rightarrow> Inl e | Inr v \<Rightarrow> Inr (req\<lparr>rq_version := v\<rparr>))
              else Inr req))))"

abbreviation digits3 :: rx where "digits3 \<equiv> Rep 3 3 (Cls is_digit)"

definition tilePattern :: rx where
  "tilePattern =
     Seq (lit ''tile/'') (Seq (Plus (Cls is_digit)) (Seq (Ch (CHR ''/''))
       (Seq (Alt (lit ''data'') (Plus (Cls is_digit))) (Seq (Ch (CHR ''/''))
       (Seq (Star (Seq (Ch (CHR ''x'')) (Seq digits3 (Ch (CHR ''/'')))))
       (Seq digits3 (Opt (Seq (lit ''.p/'') (Plus (Cls is_digit))))))))))"

definition ParseSumDB :: "go_module \<Rightarrow> string \<Rightarrow> path_error + proxy_request" where
  "ParseSumDB g p =
     (case cut_at (CHR ''/'') p of (name, rest, _) \<Rightarrow>
      if name \<noteq> SumDBName then Inl (PathError True ''unknown checksum database'')
      else case checkShape p of Some e \<Rightarrow> Inl e | None \<Rightarrow>
       (let req = \<lparr>rq_route = RouteSumDB, rq_kind = KindNone, rq_module = [], rq_version = [],
                   rq_upstream = rest\<rparr> in
        if rest = ''supported'' then Inr (req\<lparr>rq_kind := KindSupported\<rparr>)
        else if rest = ''latest'' then Inr (req\<lparr>rq_kind := KindLatest\<rparr>)
        else if prefix ''lookup/'' rest then
          (case cut_at (CHR ''@'') (trim_prefix rest ''lookup/'') of (escMod, escVer, ok) \<Rightarrow>
            if \<not> ok then Inl (badPath ''lookup is not <module>@<version>'')
            else case parseModule g escMod of Inl e \<Rightarrow> Inl e | Inr m \<Rightarrow>
              (case parseVersion g escVer of Inl e \<Rightarrow> Inl e | Inr v \<Rightarrow>
                 Inr (req\<lparr>rq_kind := KindLookup, rq_module := m, rq_version := v\<rparr>)))
        else if rx_match tilePattern rest then Inr (req\<lparr>rq_kind := KindTile\<rparr>)
        else Inl (badPath ''not a checksum database path (supported, latest, lookup, tile)'')))"

definition VersionAllowed :: "go_module \<Rightarrow> string \<Rightarrow> bool \<Rightarrow> bool" where
  "VersionAllowed g v allowPseudo =
     (if v = [] \<or> CanonicalVersion g v \<noteq> v then False else allowPseudo \<or> \<not> IsPseudoVersion g v)"

subsection \<open>Body caps (limits.go)\<close>

definition bodyCap :: "int \<Rightarrow> proxy_request \<Rightarrow> int" where
  "bodyCap maxZipBytes r =
     (if rq_route r = RouteSumDB \<and> rq_kind r = KindLatest then 8192
      else case rq_kind r of
          KindZip \<Rightarrow> maxZipBytes
        | KindMod \<Rightarrow> 16777216
        | KindList \<Rightarrow> 4194304
        | KindLookup \<Rightarrow> 65536
        | KindTile \<Rightarrow> 1048576
        | _ \<Rightarrow> 65536)"

subsection \<open>Shape and alphabets\<close>

lemma checkShape_None:
  "checkShape p = None \<longleftrightarrow>
     length p \<le> 1024 \<and> (\<forall>e\<in>set (split_on (CHR ''/'') p). e \<noteq> [] \<and> e \<noteq> ''.'' \<and> e \<noteq> ''..'')"
  by (auto simp: checkShape_def MaxPathLen_def list_ex_iff)

lemma cut_last_Some: "cut_last sep s = Some (b, a) \<Longrightarrow> s = b @ sep @ a"
proof (induction s arbitrary: b)
  case (Cons c cs)
  then show ?case by (auto simp: gostr split: option.splits)
qed (auto split: if_splits)

lemma proxyFile_Some:
  "proxyFile file = Some (k, v) \<Longrightarrow>
     (k = KindList \<and> file = ''list'' \<and> v = []) \<or> (k = KindInfo \<and> file = v @ ''.info'') \<or>
     (k = KindMod \<and> file = v @ ''.mod'') \<or> (k = KindZip \<and> file = v @ ''.zip'')"
  by (auto simp: proxyFile_def gostr split: if_splits option.splits)

lemma parseModule_Inr: "parseModule g esc = Inr m \<Longrightarrow> esc \<noteq> [] \<and> list_all moduleByteOK esc"
  by (auto simp: parseModule_def split: if_splits)

lemma parseVersion_Inr:
  "parseVersion g esc = Inr v \<Longrightarrow> esc \<noteq> [] \<and> length esc \<le> 128 \<and> list_all versionByteOK esc"
  by (auto simp: parseVersion_def maxVersionLen_def split: if_splits)

subsection \<open>Case escaping\<close>

text \<open>The encoding \<open>unescape\<close> reverses: an upper-case letter becomes \<open>!\<close> and its lower case.\<close>

fun escape :: "string \<Rightarrow> string" where
  "escape [] = []"
| "escape (c # cs) = (if is_upper c then CHR ''!'' # ascii_lower c # escape cs else c # escape cs)"

lemma upper_of_lower:
  "is_lower c \<Longrightarrow> is_upper (char_of (byte c - 97 + 65)) \<and> ascii_lower (char_of (byte c - 97 + 65)) = c"
  by (auto simp: is_lower_def is_upper_def ascii_lower_def char_of_is)

lemma lower_of_upper:
  "is_upper c \<Longrightarrow> is_lower (ascii_lower c) \<and> char_of (byte (ascii_lower c) - 97 + 65) = c"
  by (auto simp: is_lower_def is_upper_def ascii_lower_def)

lemma bang_not_letter: "\<not> is_upper (CHR ''!'')" "\<not> is_lower (CHR ''!'')" "byte (CHR ''!'') < 128"
  by (simp_all add: is_upper_def is_lower_def)

lemma lower_ascii: "is_lower c \<Longrightarrow> byte c < 128" "is_upper c \<Longrightarrow> byte c < 128"
  by (simp_all add: is_lower_def is_upper_def)

lemma unescape_from_escape:
  "list_all is_ascii m \<Longrightarrow> CHR ''!'' \<notin> set m \<Longrightarrow> unescape_from False (escape m) = Some m"
proof (induction m)
  case (Cons c m)
  show ?case
  proof (cases "is_upper c")
    case True
    note up = lower_of_upper [OF True]
    then have "\<not> 128 \<le> byte (ascii_lower c)" "\<not> is_upper (ascii_lower c)"
      using lower_ascii(1) lower_not_upper by (auto simp: not_le)
    then show ?thesis using Cons True up by (auto simp: bang_not_letter)
  next
    case False
    then show ?thesis using Cons by (auto simp: is_ascii_def)
  qed
qed simp

lemma escape_unescape_from:
  "(unescape_from False esc = Some m \<longrightarrow>
      escape m = esc \<and> CHR ''!'' \<notin> set m \<and> list_all is_ascii m) \<and>
   (unescape_from True esc = Some m \<longrightarrow>
      escape m = CHR ''!'' # esc \<and> CHR ''!'' \<notin> set m \<and> list_all is_ascii m)"
proof (induction esc arbitrary: m)
  case (Cons c cs)
  have up: "is_lower c \<Longrightarrow> is_upper (char_of (byte c - 97 + 65)) \<and>
      ascii_lower (char_of (byte c - 97 + 65)) = c \<and> char_of (byte c - 97 + 65) \<noteq> CHR ''!'' \<and>
      is_ascii (char_of (byte c - 97 + 65))"
    using upper_of_lower bang_not_letter lower_ascii unfolding is_ascii_def by metis
  show ?case
  proof (cases "128 \<le> byte c \<or> is_upper c \<or> c = CHR ''!''")
    case True
    then show ?thesis using Cons bang_not_letter by auto
  next
    case False
    then have "is_ascii c" by (simp add: is_ascii_def)
    then show ?thesis using Cons up False by (auto split: if_splits)
  qed
qed simp

text \<open>
  Case unescaping is a bijection. Unescaping an escaped module path gives the path back, and
  whatever unescapes to a path is that path's escaping: two different escaped paths never name the
  same module, so an allowlist on the unescaped path decides about the one upstream path.
\<close>

theorem unescape_roundtrip:
  "(list_all is_ascii m \<and> CHR ''!'' \<notin> set m \<longrightarrow> unescape (escape m) = Some m) \<and>
   (unescape e = Some m \<longrightarrow> escape m = e)"
  using unescape_from_escape [of m] escape_unescape_from [of e m] by (auto simp: unescape_def)

lemma unescape_roundtrip_witness:
  "unescape ''github.com/!azure/x'' = Some ''github.com/Azure/x'' \<and>
   escape ''github.com/Azure/x'' = ''github.com/!azure/x''"
proof -
  have "list_all is_ascii ''github.com/Azure/x'' \<and> CHR ''!'' \<notin> set ''github.com/Azure/x''"
    by (simp add: is_ascii_def)
  moreover have "escape ''github.com/Azure/x'' = ''github.com/!azure/x''"
    by (simp add: is_upper_def ascii_lower_def char_of_is)
  ultimately show ?thesis using unescape_roundtrip [of "''github.com/Azure/x''" "[]"] by metis
qed

subsection \<open>The parsers\<close>

text \<open>What a forwarded byte may be: no control character, space, percent sign, query or backslash.\<close>

definition forwardable :: "char \<Rightarrow> bool" where
  "forwardable c \<longleftrightarrow> 33 \<le> byte c \<and> byte c \<le> 126 \<and> c \<notin> set ''%?'' \<and> byte c \<noteq> 92"

lemma moduleByteOK_forwardable: "moduleByteOK c \<Longrightarrow> forwardable c"
  by (auto simp: moduleByteOK_def forwardable_def is_lower_def is_digit_def)

lemma versionByteOK_forwardable: "versionByteOK c \<Longrightarrow> forwardable c"
  by (auto simp: versionByteOK_def forwardable_def is_lower_def is_upper_def is_digit_def)

lemma parseModule_forwardable: "parseModule g esc = Inr m \<Longrightarrow> list_all forwardable esc"
  using parseModule_Inr [of g esc m] moduleByteOK_forwardable by (auto simp: list_all_iff)

lemma parseVersion_forwardable: "parseVersion g esc = Inr v \<Longrightarrow> list_all forwardable esc"
  using parseVersion_Inr [of g esc v] versionByteOK_forwardable by (auto simp: list_all_iff)

lemma literals_forwardable:
  "list_all forwardable ''/@latest''" "list_all forwardable ''/@v/''" "list_all forwardable ''list''"
  "list_all forwardable ''.info''" "list_all forwardable ''.mod''" "list_all forwardable ''.zip''"
  by (simp_all add: forwardable_def)

text \<open>
  The requests of the module proxy's protocol: an escaped module path with \<open>/@latest\<close>, \<open>/@v/list\<close> or a
  version's \<open>.info\<close>, \<open>.mod\<close> or \<open>.zip\<close>.
\<close>

definition goproxy_request :: "go_module \<Rightarrow> proxy_request \<Rightarrow> bool" where
  "goproxy_request g r \<longleftrightarrow>
     (\<exists>esc. parseModule g esc = Inr (rq_module r) \<and>
       (rq_kind r = KindLatest \<and> rq_upstream r = esc @ ''/@latest'' \<and> rq_version r = [] \<or>
        rq_kind r = KindList \<and> rq_upstream r = esc @ ''/@v/'' @ ''list'' \<and> rq_version r = [] \<or>
        (\<exists>ver ext. parseVersion g ver = Inr (rq_version r) \<and> rq_upstream r = esc @ ''/@v/'' @ ver @ ext \<and>
           (rq_kind r, ext) \<in> {(KindInfo, ''.info''), (KindMod, ''.mod''), (KindZip, ''.zip'')})))"

lemma ParseGoProxy_shape:
  assumes "ParseGoProxy g p = Inr r"
  shows "checkShape p = None \<and> rq_route r = RouteGo \<and> rq_upstream r = p"
  using assms
  by (auto simp: ParseGoProxy_def Let_def split: option.splits sum.splits if_splits prod.splits)

lemma ParseGoProxy_request:
  assumes "ParseGoProxy g p = Inr r"
  shows "goproxy_request g r"
proof (cases "cut_suffix p ''/@latest''")
  case (Some esc)
  then show ?thesis using assms unfolding goproxy_request_def
    by (auto simp: ParseGoProxy_def Let_def gostr split: option.splits sum.splits if_splits)
next
  case None
  then obtain esc fl k v where c: "cut_last ''/@v/'' p = Some (esc, fl)" "proxyFile fl = Some (k, v)"
    using assms by (auto simp: ParseGoProxy_def split: option.splits)
  have p: "p = esc @ ''/@v/'' @ fl" by (rule cut_last_Some [OF c(1)])
  show ?thesis
    using assms None c p proxyFile_Some [OF c(2)] unfolding goproxy_request_def
    by (auto simp: ParseGoProxy_def Let_def split: option.splits sum.splits if_splits)
qed

lemma goproxy_request_forwardable: "goproxy_request g r \<Longrightarrow> list_all forwardable (rq_upstream r)"
  unfolding goproxy_request_def
  using parseModule_forwardable parseVersion_forwardable literals_forwardable
  by (elim exE conjE disjE) (auto simp: forwardable_def)

text \<open>
  A module-proxy path is forwarded only as a request of the protocol. When the parser accepts a
  path it forwards exactly that path, which is one of the five request forms over a module path and
  version that passed their checks; it is at most 1024 bytes, has no empty, dot or dot-dot element,
  and holds no control character, space, percent sign, question mark or backslash.
\<close>

theorem ParseGoProxy_sound:
  assumes "ParseGoProxy g p = Inr r"
  shows "rq_upstream r = p \<and> rq_route r = RouteGo \<and> goproxy_request g r \<and> length p \<le> 1024 \<and>
    {[], ''.'', ''..''} \<inter> set (split_on (CHR ''/'') p) = {} \<and> list_all forwardable p"
  using ParseGoProxy_shape [OF assms] ParseGoProxy_request [OF assms] goproxy_request_forwardable
  by (fastforce simp: checkShape_None)

definition demo_module :: go_module where
  "demo_module = \<lparr>UnescapePath = unescape, CheckImportPath = (\<lambda>_. True), UnescapeVersion = unescape,
     CanonicalVersion = (\<lambda>v. v), IsPseudoVersion = (\<lambda>_. False)\<rparr>"

definition demo_path :: string where "demo_path = ''a.b/!c/@v/v1.mod''"

lemma demo_path_parses:
  "ParseGoProxy demo_module demo_path =
     Inr \<lparr>rq_route = RouteGo, rq_kind = KindMod, rq_module = ''a.b/C'', rq_version = ''v1'',
          rq_upstream = demo_path\<rparr>"
  by (simp add: ParseGoProxy_def demo_path_def checkShape_def MaxPathLen_def cut_suffix_def cut_prefix_def
      suffix_def proxyFile_def parseModule_def parseVersion_def maxVersionLen_def moduleByteOK_def
      versionByteOK_def is_lower_def is_upper_def is_digit_def demo_module_def unescape_def Let_def char_of_is)

lemma ParseGoProxy_sound_witness: "list_all forwardable demo_path \<and> length demo_path \<le> 1024"
  using ParseGoProxy_sound [OF demo_path_parses] by simp

subsection \<open>The checksum database\<close>

lemma tile_forwardable: "rx_match tilePattern w \<Longrightarrow> list_all forwardable w"
  by (rule match_chars) (auto simp: tilePattern_def forwardable_def is_digit_def)

lemma lookup_prefix: "prefix ''lookup/'' rest \<Longrightarrow> rest = ''lookup/'' @ trim_prefix rest ''lookup/''"
  by (auto simp: trim_prefix_def cut_prefix_def prefix_def)

definition sumdb_request :: "go_module \<Rightarrow> proxy_request \<Rightarrow> bool" where
  "sumdb_request g r \<longleftrightarrow>
     (rq_kind r = KindSupported \<and> rq_upstream r = ''supported'' \<and> rq_module r = [] \<and> rq_version r = []) \<or>
     (rq_kind r = KindLatest \<and> rq_upstream r = ''latest'' \<and> rq_module r = [] \<and> rq_version r = []) \<or>
     (rq_kind r = KindTile \<and> rx_match tilePattern (rq_upstream r) \<and> rq_module r = [] \<and> rq_version r = []) \<or>
     (rq_kind r = KindLookup \<and>
       (\<exists>esc ver. rq_upstream r = ''lookup/'' @ esc @ CHR ''@'' # ver \<and>
          parseModule g esc = Inr (rq_module r) \<and> parseVersion g ver = Inr (rq_version r)))"

lemma sumdb_request_forwardable: "sumdb_request g r \<Longrightarrow> list_all forwardable (rq_upstream r)"
  unfolding sumdb_request_def
  using parseModule_forwardable parseVersion_forwardable tile_forwardable
  by (elim exE conjE disjE) (auto simp: forwardable_def)

lemma ParseSumDB_request:
  assumes cut: "cut_at (CHR ''/'') p = (SumDBName, rest, f)" and run: "ParseSumDB g p = Inr r"
  shows "checkShape p = None \<and> rq_route r = RouteSumDB \<and> rq_upstream r = rest \<and> sumdb_request g r"
proof (cases "prefix ''lookup/'' rest \<and> rest \<noteq> ''supported'' \<and> rest \<noteq> ''latest''")
  case True
  obtain esc ver ok where c: "cut_at (CHR ''@'') (trim_prefix rest ''lookup/'') = (esc, ver, ok)"
    by (cases "cut_at (CHR ''@'') (trim_prefix rest ''lookup/'')")
  then have ok: "ok" "checkShape p = None"
    using run cut True by (auto simp: ParseSumDB_def Let_def split: option.splits if_splits)
  have "trim_prefix rest ''lookup/'' = esc @ CHR ''@'' # ver"
    using c ok(1) by (intro cut_at_found [THEN conjunct1]) simp
  then have "rest = ''lookup/'' @ esc @ CHR ''@'' # ver"
    using lookup_prefix [of rest] True by simp
  then show ?thesis
    using run cut True c ok by (auto simp: ParseSumDB_def Let_def sumdb_request_def split: sum.splits)
next
  case False
  then show ?thesis using run cut
    by (auto simp: ParseSumDB_def Let_def sumdb_request_def split: option.splits if_splits)
qed

lemma sumdb_request_nonempty: "sumdb_request g r \<Longrightarrow> rq_upstream r \<noteq> []"
  by (auto simp: sumdb_request_def tilePattern_def match_Seq)

text \<open>
  A checksum-database path is forwarded only for sum.golang.org and only as a request of its
  protocol. When the parser accepts a path, the path is the database's name, a slash and what is
  forwarded, which is supported, latest, a lookup whose module and version passed their checks, or a
  tile; it has no empty or dot element and only forwardable bytes. A path of any other database is
  answered as not found.
\<close>

theorem ParseSumDB_sound:
  "(\<forall>r. ParseSumDB g p = Inr r \<longrightarrow>
      p = ''sum.golang.org'' @ CHR ''/'' # rq_upstream r \<and> rq_route r = RouteSumDB \<and>
      sumdb_request g r \<and> length p \<le> 1024 \<and>
      {[], ''.'', ''..''} \<inter> set (split_on (CHR ''/'') p) = {} \<and> list_all forwardable (rq_upstream r)) \<and>
   (fst (cut_at (CHR ''/'') p) \<noteq> ''sum.golang.org'' \<longrightarrow>
      (\<exists>rule. ParseSumDB g p = Inl (PathError True rule)))"
proof (intro conjI allI impI)
  fix r assume run: "ParseSumDB g p = Inr r"
  obtain name rest f where c: "cut_at (CHR ''/'') p = (name, rest, f)" by (cases "cut_at (CHR ''/'') p")
  have name: "name = SumDBName" using run c by (auto simp: ParseSumDB_def split: if_splits)
  note req = ParseSumDB_request [OF c [unfolded name] run]
  have "rest \<noteq> []" using req sumdb_request_nonempty by auto
  then have "f" using cut_at_missing [of "CHR ''/''" p name rest] c by (cases f) auto
  then have "cut_at (CHR ''/'') p = (SumDBName, rest, True)" using c name by simp
  then have p: "p = SumDBName @ CHR ''/'' # rest" by (rule cut_at_found [THEN conjunct1])
  then show "p = ''sum.golang.org'' @ CHR ''/'' # rq_upstream r" using req by (simp add: SumDBName_def)
  show "rq_route r = RouteSumDB" "sumdb_request g r" "list_all forwardable (rq_upstream r)"
    using req sumdb_request_forwardable by auto
  show "length p \<le> 1024" "{[], ''.'', ''..''} \<inter> set (split_on (CHR ''/'') p) = {}"
    using req by (auto simp: checkShape_None)
next
  assume "fst (cut_at (CHR ''/'') p) \<noteq> ''sum.golang.org''"
  then show "\<exists>rule. ParseSumDB g p = Inl (PathError True rule)"
    by (cases "cut_at (CHR ''/'') p") (auto simp: ParseSumDB_def SumDBName_def)
qed

definition demo_lookup :: string where "demo_lookup = ''sum.golang.org/lookup/a.b/!c@v1''"

lemma ParseSumDB_sound_witness:
  "sumdb_request demo_module \<lparr>rq_route = RouteSumDB, rq_kind = KindLookup, rq_module = ''a.b/C'',
     rq_version = ''v1'', rq_upstream = ''lookup/a.b/!c@v1''\<rparr>"
proof -
  have "ParseSumDB demo_module demo_lookup = Inr \<lparr>rq_route = RouteSumDB, rq_kind = KindLookup,
      rq_module = ''a.b/C'', rq_version = ''v1'', rq_upstream = ''lookup/a.b/!c@v1''\<rparr>"
    by (simp add: ParseSumDB_def demo_lookup_def SumDBName_def checkShape_def MaxPathLen_def cut_prefix_def
      trim_prefix_def parseModule_def parseVersion_def maxVersionLen_def moduleByteOK_def
      versionByteOK_def is_lower_def is_upper_def is_digit_def demo_module_def unescape_def Let_def char_of_is)
  then show ?thesis using ParseSumDB_sound [of demo_module demo_lookup] by blast
qed

end
