(* ===== verification/CostDate.thy ===== *)
theory CostDate
  imports Regex
begin

text \<open>
  The decimal costs and calendar keys the rollups are built from: \<open>ParseCostMicroUSD\<close>
  (\<open>internal/stats/stats.go\<close>), \<open>MicroUSD\<close> (\<open>internal/intentview/view.go\<close>), the schema's pattern for a
  cost (\<open>api/v1alpha1/common_types.go\<close>), and Go's formatting of a UTC day and month. The parsers are
  int64 loops with their wrap-around; the theorems give the exact micro-USD of every cost the schema
  accepts and an int64 can hold.
\<close>

subsection \<open>Parsing a cost\<close>

datatype cost_error = MalformedCost string

definition digit_val :: "char \<Rightarrow> int" where
  "digit_val c = int (byte c) - 48"

fun cost_whole :: "int \<Rightarrow> string \<Rightarrow> int option" where
  "cost_whole out [] = Some out"
| "cost_whole out (c # cs) =
     (if \<not> is_digit c then None else cost_whole (i64 (i64 (out * 10) + digit_val c)) cs)"

fun cost_frac :: "nat \<Rightarrow> int \<Rightarrow> int \<Rightarrow> string \<Rightarrow> int option" where
  "cost_frac i scale out [] = Some out"
| "cost_frac i scale out (c # cs) =
     (if \<not> is_digit c then None
      else if 6 \<le> i then Some out
      else cost_frac (Suc i) (tdiv scale 10) (i64 (out + i64 (digit_val c * scale))) cs)"

definition ParseCostMicroUSD :: "(string \<Rightarrow> string) \<Rightarrow> string \<Rightarrow> cost_error + int" where
  "ParseCostMicroUSD ut raw =
     (let s = trim_space ut raw in
      if s = [] then Inr 0
      else case cut_at (CHR ''.'') s of (whole, frac, _) \<Rightarrow>
        if frac = [] \<and> whole = [] then Inl (MalformedCost s)
        else (case cost_whole 0 whole of None \<Rightarrow> Inl (MalformedCost s)
              | Some w \<Rightarrow> (case cost_frac 0 100000 (i64 (w * 1000000)) frac of
                  None \<Rightarrow> Inl (MalformedCost s)
                | Some n \<Rightarrow> Inr n)))"

text \<open>
  \<open>strconv.ParseInt(s, 10, 64)\<close>: an optional sign and one or more digits, refused out of range.
\<close>

fun digits_value :: "int \<Rightarrow> string \<Rightarrow> int" where
  "digits_value acc [] = acc"
| "digits_value acc (c # cs) = digits_value (acc * 10 + digit_val c) cs"

definition parse_uint10 :: "string \<Rightarrow> int option" where
  "parse_uint10 s = (if s = [] \<or> \<not> list_all is_digit s then None else Some (digits_value 0 s))"

definition ParseInt10 :: "string \<Rightarrow> int option" where
  "ParseInt10 s =
     (case (case s of
              [] \<Rightarrow> None
            | c # cs \<Rightarrow> if c = CHR ''-'' then map_option uminus (parse_uint10 cs)
                        else if c = CHR ''+'' then parse_uint10 cs else parse_uint10 s) of
        None \<Rightarrow> None
      | Some n \<Rightarrow> if min_int64 \<le> n \<and> n \<le> max_int64 then Some n else None)"

definition MicroUSD :: "string \<Rightarrow> int" where
  "MicroUSD cost =
     (if cost = [] then 0
      else case cut_at (CHR ''.'') cost of (whole, frac, _) \<Rightarrow>
        (case ParseInt10 whole of
           None \<Rightarrow> 0
         | Some w \<Rightarrow> if w < 0 \<or> tdiv max_int64 1000000 < w then 0
             else (case ParseInt10 (take 6 (frac @ ''000000'')) of
                     None \<Rightarrow> 0 | Some f \<Rightarrow> i64 (i64 (w * 1000000) + f))))"

definition costPattern :: rx where
  "costPattern = Seq (Plus (Cls is_digit)) (Opt (Seq (Ch (CHR ''.'')) (Rep 1 6 (Cls is_digit))))"

subsection \<open>What a cost means\<close>

text \<open>The exact value, in micro-USD, of digits \<open>w\<close> before and \<open>f\<close> after the point.\<close>

definition micro_value :: "string \<Rightarrow> string \<Rightarrow> int" where
  "micro_value w f = digits_value 0 w * 1000000 + digits_value 0 f * 10 ^ (6 - length f)"

lemma digit_val_range: "is_digit c \<Longrightarrow> 0 \<le> digit_val c \<and> digit_val c \<le> 9"
  by (simp add: digit_val_def is_digit_def)

lemma digits_value_acc: "digits_value acc s = acc * 10 ^ length s + digits_value 0 s"
proof (induction s arbitrary: acc)
  case (Cons c cs)
  have "digits_value acc (c # cs) = (acc * 10 + digit_val c) * 10 ^ length cs + digits_value 0 cs"
    using Cons.IH [of "acc * 10 + digit_val c"] by simp
  moreover have "digits_value 0 (c # cs) = digit_val c * 10 ^ length cs + digits_value 0 cs"
    using Cons.IH [of "digit_val c"] by simp
  ultimately show ?case by (simp add: algebra_simps)
qed simp

lemma digits_value_append: "digits_value 0 (s @ t) = digits_value 0 s * 10 ^ length t + digits_value 0 t"
proof -
  have "digits_value acc (s @ t) = digits_value (digits_value acc s) t" for acc
    by (induction s arbitrary: acc) auto
  then show ?thesis using digits_value_acc [of "digits_value 0 s" t] by simp
qed

lemma digits_value_bounds:
  "list_all is_digit s \<Longrightarrow> 0 \<le> digits_value 0 s \<and> digits_value 0 s < 10 ^ length s"
proof (induction s rule: rev_induct)
  case (snoc c s)
  then have "0 \<le> digits_value 0 s" "digits_value 0 s < 10 ^ length s"
      "0 \<le> digit_val c" "digit_val c \<le> 9"
    using digit_val_range by auto
  then show ?case by (simp add: digits_value_append)
qed simp

lemma digits_value_mono: "list_all is_digit s \<Longrightarrow> 0 \<le> acc \<Longrightarrow> acc \<le> digits_value acc s"
proof (induction s arbitrary: acc)
  case (Cons c cs)
  then have "acc * 10 + digit_val c \<le> digits_value (acc * 10 + digit_val c) cs"
    using digit_val_range [of c] by simp
  then show ?case using Cons.prems digit_val_range [of c] by simp
qed simp

lemma cost_whole_exact:
  "list_all is_digit s \<Longrightarrow> 0 \<le> out \<Longrightarrow> digits_value out s \<le> max_int64 \<Longrightarrow>
   cost_whole out s = Some (digits_value out s)"
proof (induction s arbitrary: out)
  case (Cons c cs)
  let ?n = "out * 10 + digit_val c"
  have d: "0 \<le> digit_val c" "digit_val c \<le> 9" using Cons.prems(1) digit_val_range by auto
  have le: "?n \<le> digits_value ?n cs" using Cons.prems d by (intro digits_value_mono) auto
  have "i64 (i64 (out * 10) + digit_val c) = ?n"
    using Cons.prems le d by (simp add: i64_id)
  then show ?case using Cons.IH [of ?n] Cons.prems d by simp
qed simp

lemma cost_frac_exact:
  "list_all is_digit s \<Longrightarrow> length s \<le> 6 - i \<Longrightarrow> i \<le> 6 \<Longrightarrow> 0 \<le> out \<Longrightarrow>
   out + digits_value 0 s * 10 ^ (6 - i - length s) \<le> max_int64 \<Longrightarrow>
   cost_frac i (if i < 6 then 10 ^ (5 - i) else 0) out s =
     Some (out + digits_value 0 s * 10 ^ (6 - i - length s))"
proof (induction s arbitrary: i out)
  case (Cons c cs)
  let ?sc = "10 ^ (5 - i) :: int"
  let ?n = "out + digit_val c * ?sc"
  let ?rest = "digits_value 0 cs * 10 ^ (6 - Suc i - length cs)"
  have i: "i < 6" and len: "length cs \<le> 6 - Suc i" using Cons.prems by auto
  have d: "0 \<le> digit_val c" "digit_val c \<le> 9" using Cons.prems(1) digit_val_range by auto
  have cs: "list_all is_digit cs" using Cons.prems by simp
  have pos: "0 \<le> ?rest" using digits_value_bounds [OF cs] by simp
  have split: "digits_value 0 (c # cs) * 10 ^ (6 - i - length (c # cs)) = digit_val c * ?sc + ?rest"
  proof -
    have e: "5 - i = length cs + (6 - Suc i - length cs)" using len i by simp
    have v: "digits_value 0 (c # cs) = digit_val c * 10 ^ length cs + digits_value 0 cs"
      using digits_value_acc [of "digit_val c" cs] by simp
    have "digit_val c * ?sc = digit_val c * 10 ^ length cs * 10 ^ (6 - Suc i - length cs)"
      by (subst e) (simp only: power_add mult.assoc)
    moreover have "6 - i - length (c # cs) = 6 - Suc i - length cs" by simp
    ultimately show ?thesis by (simp only: v distrib_right)
  qed
  then have n: "?n + ?rest = out + digits_value 0 (c # cs) * 10 ^ (6 - i - length (c # cs))"
    by simp
  have sc: "0 \<le> digit_val c * ?sc" using d by simp
  have bound: "?n + ?rest \<le> max_int64" using Cons.prems(5) n by simp
  have step: "i64 (out + i64 (digit_val c * ?sc)) = ?n"
    using Cons.prems(4) bound pos sc by (simp add: i64_add_right i64_id)
  have scale: "tdiv ?sc 10 = (if Suc i < 6 then 10 ^ (5 - Suc i) else 0)"
  proof (cases "Suc i < 6")
    case True
    then have "5 - i = Suc (5 - Suc i)" by simp
    then show ?thesis using True by (simp add: tdiv_nonneg)
  next
    case False
    then show ?thesis using i by (simp add: tdiv_nonneg)
  qed
  have IH: "cost_frac (Suc i) (if Suc i < 6 then 10 ^ (5 - Suc i) else 0) ?n cs = Some (?n + ?rest)"
    using Cons.IH [OF cs, of "Suc i" ?n] len i Cons.prems(4) bound sc by simp
  have "cost_frac i ?sc out (c # cs) =
      cost_frac (Suc i) (tdiv ?sc 10) (i64 (out + i64 (digit_val c * ?sc))) cs"
    using i Cons.prems(1) by simp
  also have "\<dots> = Some (?n + ?rest)" by (simp only: step scale IH)
  finally have "cost_frac i ?sc out (c # cs) = Some (?n + ?rest)" .
  then show ?case using i n by simp
qed simp

text \<open>The strings of the schema's pattern.\<close>

lemma costPattern_cut:
  assumes "rx_match costPattern s" "cut_at (CHR ''.'') s = (w, f, d)"
  shows "w \<noteq> []" "list_all is_digit w" "list_all is_digit f" "length f \<le> 6" "list_all is_ascii s"
    "list_all (\<lambda>c. \<not> is_space c) s" "s \<noteq> []"
proof -
  have dot: "CHR ''.'' \<notin> set u" if "list_all is_digit u" for u
    using that by (auto simp: list_all_iff is_digit_def)
  have chars: "chars_in (\<lambda>c. is_digit c \<or> c = CHR ''.'') costPattern"
    by (simp add: costPattern_def)
  from assms(1) obtain u v where s: "s = u @ v" and mu: "rx_match (Plus (Cls is_digit)) u"
      and mv: "rx_match (Opt (Seq (Ch (CHR ''.'')) (Rep 1 6 (Cls is_digit)))) v"
    unfolding costPattern_def match_Seq [of "Plus (Cls is_digit)"] by blast
  from mu have u: "u \<noteq> []" "list_all is_digit u" by (auto simp: rx_cases)
  from mv have v: "v = [] \<or> (\<exists>g. v = CHR ''.'' # g \<and> length g \<le> 6 \<and> list_all is_digit g)"
    by (auto simp: rx_cases)
  then have "(v = [] \<and> w = u \<and> f = []) \<or> (v = CHR ''.'' # f \<and> w = u \<and> length f \<le> 6 \<and> list_all is_digit f)"
    using assms(2) v dot [OF u(2)] unfolding s by auto
  then show "w \<noteq> []" "list_all is_digit w" "list_all is_digit f" "length f \<le> 6" "s \<noteq> []"
    using u s by auto
  show "list_all is_ascii s" "list_all (\<lambda>c. \<not> is_space c) s"
    using match_chars [OF chars assms(1)] by (auto simp: list_all_iff is_ascii_def is_digit_def is_space_def)
qed

lemma trim_space_id:
  assumes "list_all is_ascii s" "list_all (\<lambda>c. \<not> is_space c) s"
  shows "trim_space ut s = s"
proof -
  have drop: "dropWhile is_space xs = xs" if "list_all (\<lambda>c. \<not> is_space c) xs" for xs
    using that by (cases xs) auto
  have "dropWhile is_space (rev s) = rev s" using assms(2) by (intro drop) (simp add: list_all_iff)
  then show ?thesis using drop [OF assms(2)] assms(1) by (simp add: trim_space_def)
qed

lemma zeros_value: "digits_value 0 (replicate n (CHR ''0'')) = 0"
  by (induction n) (auto simp: digit_val_def)

lemma ParseInt10_digits:
  "s \<noteq> [] \<Longrightarrow> list_all is_digit s \<Longrightarrow> digits_value 0 s \<le> max_int64 \<Longrightarrow> ParseInt10 s = Some (digits_value 0 s)"
  using digits_value_bounds [of s]
  by (cases s) (auto simp: ParseInt10_def parse_uint10_def is_digit_def)

lemma frac_padded:
  assumes "list_all is_digit f" "length f \<le> 6"
  shows "ParseInt10 (take 6 (f @ ''000000'')) = Some (digits_value 0 f * 10 ^ (6 - length f))"
proof -
  have "take n ''000000'' = replicate n (CHR ''0'')" if "n \<le> 6" for n :: nat
  proof -
    have "''000000'' = replicate 6 (CHR ''0'')" by (simp add: numeral_eq_Suc)
    then show ?thesis using that by (simp add: min_def)
  qed
  then have t: "take 6 (f @ ''000000'') = f @ replicate (6 - length f) (CHR ''0'')"
    using assms(2) by simp
  have digits: "list_all is_digit (f @ replicate (6 - length f) (CHR ''0''))"
    using assms(1) by (auto simp: list_all_iff is_digit_def)
  have "length (f @ replicate (6 - length f) (CHR ''0'')) = 6" using assms(2) by simp
  then have "digits_value 0 (f @ replicate (6 - length f) (CHR ''0'')) < 10 ^ 6"
    using digits_value_bounds [OF digits] by (metis)
  moreover have "f @ replicate (6 - length f) (CHR ''0'') \<noteq> []"
    using \<open>length (f @ _) = 6\<close> by auto
  ultimately show ?thesis
    using ParseInt10_digits [OF _ digits] unfolding t by (simp add: digits_value_append zeros_value)
qed

text \<open>
  On every cost the schema's pattern accepts whose exact value fits an int64, the rollups' parser and
  the intent view's parser both return exactly that value: no rounding, no wrap-around, no disagreement.
\<close>

theorem cost_parsers_exact:
  assumes "rx_match costPattern s" "cut_at (CHR ''.'') s = (w, f, d)" "micro_value w f \<le> max_int64"
  shows "ParseCostMicroUSD ut s = Inr (micro_value w f) \<and> MicroUSD s = micro_value w f"
proof -
  note c = costPattern_cut [OF assms(1,2)]
  let ?F = "digits_value 0 f * 10 ^ (6 - length f)"
  have w: "0 \<le> digits_value 0 w" and f: "0 \<le> ?F" using digits_value_bounds c by auto
  have m: "digits_value 0 w * 1000000 + ?F \<le> max_int64" using assms(3) by (simp add: micro_value_def)
  have id: "i64 (digits_value 0 w * 1000000) = digits_value 0 w * 1000000" using w f m by (simp add: i64_id)
  have whole: "cost_whole 0 w = Some (digits_value 0 w)" using cost_whole_exact [OF c(2), of 0] w f m by simp
  have frac: "cost_frac 0 100000 (digits_value 0 w * 1000000) f = Some (digits_value 0 w * 1000000 + ?F)"
    using cost_frac_exact [OF c(3), of 0 "digits_value 0 w * 1000000"] c(4) w m by simp
  have "ParseCostMicroUSD ut s = Inr (micro_value w f)"
    using c(1,7) by (simp add: ParseCostMicroUSD_def trim_space_id [OF c(5,6)] assms(2) whole id frac micro_value_def)
  moreover have "MicroUSD s = micro_value w f"
  proof -
    have pw: "ParseInt10 w = Some (digits_value 0 w)" using ParseInt10_digits c(1,2) w f m by simp
    have "\<not> tdiv max_int64 1000000 < digits_value 0 w" using f m by (simp add: tdiv_nonneg)
    moreover have "i64 (digits_value 0 w * 1000000 + ?F) = digits_value 0 w * 1000000 + ?F"
      using w f m by (simp add: i64_id)
    ultimately show ?thesis
      using c(7) w
      by (simp add: MicroUSD_def assms(2) pw frac_padded [OF c(3,4)] id micro_value_def del: take_append)
  qed
  ultimately show ?thesis ..
qed

lemma cost_parsers_exact_witness: "ParseCostMicroUSD (\<lambda>s. s) ''12.5'' = Inr 12500000 \<and> MicroUSD ''12.5'' = 12500000"
proof -
  have "rx_match costPattern ''12.5''" by (simp add: costPattern_def is_digit_def)
  then show ?thesis
    using cost_parsers_exact [of "''12.5''" "''12''" "''5''" True "\<lambda>s. s"]
    by (simp add: micro_value_def digit_val_def)
qed

subsection \<open>Calendar keys\<close>

text \<open>
  The proleptic Gregorian date of a count of days since 1970-01-01, and \<open>time.Format\<close> of a UTC time in
  the layouts \<open>2006-01-02\<close> and \<open>2006-01\<close> (for years 0 to 9999, which print with four digits).
\<close>

definition civil_from_days :: "int \<Rightarrow> int \<times> int \<times> int" where
  "civil_from_days days =
     (let z = days + 719468;
          era = z div 146097;
          doe = z mod 146097;
          yoe = (doe - doe div 1460 + doe div 36524 - doe div 146096) div 365;
          doy = doe - (365 * yoe + yoe div 4 - yoe div 100);
          mp = (5 * doy + 2) div 153;
          d = doy - (153 * mp + 2) div 5 + 1;
          m = (if mp < 10 then mp + 3 else mp - 9)
      in (yoe + era * 400 + (if m \<le> 2 then 1 else 0), m, d))"

definition unix_day :: "time \<Rightarrow> int" where
  "unix_day t = t div (24 * nano_hour)"

definition pad_int :: "nat \<Rightarrow> int \<Rightarrow> string" where
  "pad_int n i = (let s = show_nat (nat i) in replicate (n - length s) (CHR ''0'') @ s)"

definition day_key_of :: "int \<Rightarrow> string" where
  "day_key_of days =
     (case civil_from_days days of (y, m, d) \<Rightarrow>
        pad_int 4 y @ CHR ''-'' # pad_int 2 m @ CHR ''-'' # pad_int 2 d)"

definition day_key :: "time \<Rightarrow> string" where
  "day_key t = day_key_of (unix_day t)"

definition month_key :: "time \<Rightarrow> string" where
  "month_key t =
     (case civil_from_days (unix_day t) of (y, m, d) \<Rightarrow> pad_int 4 y @ CHR ''-'' # pad_int 2 m)"

lemma day_key_example: "day_key_of 20742 = ''2026-10-16''"
  by code_simp

end
