(* ===== verification/ApiTypes.thy ===== *)
theory ApiTypes
  imports Prelude
begin

text \<open>
  The custom-resource types of \<open>api/v1alpha1\<close>, reduced to the fields the modelled controllers read or
  write: the enumerations (each with the constructor of its unset value, Go's empty string), the
  parts of a Finding's spec and status, and the conditions. A pointer field is an option, a
  \<open>metav1.Time\<close> a time. \<open>meta.SetStatusCondition\<close> and its relatives belong to
  \<open>k8s.io/apimachinery\<close>, which is not part of the repository: they are the fields of a record
  \<open>meta_ops\<close> every handler takes as an argument, and \<open>meta_laws\<close> states what the handlers rely on:
  a condition that was set is the one found under its type, one that was removed is not found, and
  the conditions of other types stay as they are.
\<close>

subsection \<open>Enumerations\<close>

datatype phase =
    PhaseNone | PhaseOpened | PhaseEnhanced | PhaseInvestigating | PhaseQueued
  | PhaseAwaitingApproval | PhaseRemediating | PhaseInReview | PhaseRemediated | PhaseFailed
  | PhaseDismissed | PhaseHandedOff

datatype level = LevelNone | LevelLow | LevelMedium | LevelHigh | LevelCritical

datatype rating = RatingUnset | RatingNone | RatingLow | RatingMedium | RatingHigh | RatingCritical

datatype recommendation =
    RecommendationUnset | RecommendationRemediate | RecommendationIgnore | RecommendationManual

datatype hold_reason =
    HoldBreakingChangeAvailable | HoldLowConfidence | HoldExceedsAutomatedTurns
  | HoldExceedsAutomatedTokens

datatype run_kind = RunKindInvestigation | RunKindRemediation

datatype run_phase = RunUnset | RunPending | RunRunning | RunComplete | RunFailed

subsection \<open>Conditions\<close>

record condition =
  ctype :: string
  cstatus :: string
  creason :: string
  cmessage :: string
  cgeneration :: int

record meta_ops =
  setStatusCondition :: "condition list \<Rightarrow> condition \<Rightarrow> condition list"
  removeStatusCondition :: "condition list \<Rightarrow> string \<Rightarrow> condition list"
  findStatusCondition :: "condition list \<Rightarrow> string \<Rightarrow> condition option"
  isStatusConditionTrue :: "condition list \<Rightarrow> string \<Rightarrow> bool"

definition meta_laws :: "meta_ops \<Rightarrow> bool" where
  "meta_laws m \<longleftrightarrow>
     (\<forall>cs c t. findStatusCondition m (setStatusCondition m cs c) t =
        (if t = ctype c then Some c else findStatusCondition m cs t)) \<and>
     (\<forall>cs u t. findStatusCondition m (removeStatusCondition m cs u) t =
        (if t = u then None else findStatusCondition m cs t)) \<and>
     (\<forall>cs t. isStatusConditionTrue m cs t \<longleftrightarrow>
        (\<exists>c. findStatusCondition m cs t = Some c \<and> cstatus c = ''True''))"

definition demo_meta :: meta_ops where
  "demo_meta = \<lparr>setStatusCondition = (\<lambda>cs c. c # filter (\<lambda>x. ctype x \<noteq> ctype c) cs),
     removeStatusCondition = (\<lambda>cs t. filter (\<lambda>x. ctype x \<noteq> t) cs),
     findStatusCondition = (\<lambda>cs t. find (\<lambda>x. ctype x = t) cs),
     isStatusConditionTrue = (\<lambda>cs t. case find (\<lambda>x. ctype x = t) cs of
        None \<Rightarrow> False | Some c \<Rightarrow> cstatus c = ''True'')\<rparr>"

lemma find_filter_other: "(\<And>x. P x \<Longrightarrow> Q x) \<Longrightarrow> find P (filter Q xs) = find P xs"
  by (induction xs) auto

lemma find_filter_none: "(\<And>x. P x \<Longrightarrow> \<not> Q x) \<Longrightarrow> find P (filter Q xs) = None"
  by (induction xs) auto

lemma demo_meta_laws: "meta_laws demo_meta"
  by (auto simp: meta_laws_def demo_meta_def find_filter_other find_filter_none split: option.splits)

lemma meta_find_set:
  "meta_laws m \<Longrightarrow> findStatusCondition m (setStatusCondition m cs c) t =
     (if t = ctype c then Some c else findStatusCondition m cs t)"
  by (simp add: meta_laws_def)

lemma meta_find_remove:
  "meta_laws m \<Longrightarrow> findStatusCondition m (removeStatusCondition m cs u) t =
     (if t = u then None else findStatusCondition m cs t)"
  by (simp add: meta_laws_def)

lemma meta_true:
  "meta_laws m \<Longrightarrow> isStatusConditionTrue m cs t \<longleftrightarrow>
     (\<exists>c. findStatusCondition m cs t = Some c \<and> cstatus c = ''True'')"
  by (simp add: meta_laws_def)

text \<open>The boolean \<open>SetStatusCondition\<close> and \<open>RemoveStatusCondition\<close> return: whether anything changed.\<close>

definition set_changes :: "meta_ops \<Rightarrow> condition list \<Rightarrow> condition \<Rightarrow> bool" where
  "set_changes m cs c \<longleftrightarrow> findStatusCondition m cs (ctype c) \<noteq> Some c"

definition remove_changes :: "meta_ops \<Rightarrow> condition list \<Rightarrow> string \<Rightarrow> bool" where
  "remove_changes m cs t \<longleftrightarrow> findStatusCondition m cs t \<noteq> None"

abbreviation ConditionAccumulationComplete :: string where
  "ConditionAccumulationComplete \<equiv> ''AccumulationComplete''"
abbreviation ConditionContextEnhanced :: string where "ConditionContextEnhanced \<equiv> ''ContextEnhanced''"
abbreviation ConditionInvestigated :: string where "ConditionInvestigated \<equiv> ''Investigated''"
abbreviation ConditionApproved :: string where "ConditionApproved \<equiv> ''Approved''"
abbreviation ConditionRetried :: string where "ConditionRetried \<equiv> ''Retried''"
abbreviation ConditionForgeResolved :: string where "ConditionForgeResolved \<equiv> ''ForgeResolved''"
abbreviation ConditionComplete :: string where "ConditionComplete \<equiv> ''Complete''"
abbreviation ConditionSandboxRefused :: string where "ConditionSandboxRefused \<equiv> ''SandboxRefused''"
abbreviation ConditionDefaultImageHeld :: string where
  "ConditionDefaultImageHeld \<equiv> ''DefaultImageHeld''"
abbreviation ConditionReviewClosePending :: string where
  "ConditionReviewClosePending \<equiv> ''ReviewClosePending''"
abbreviation ConditionCredentialRequired :: string where
  "ConditionCredentialRequired \<equiv> ''CredentialRequired''"
abbreviation ConditionAgentsPaused :: string where "ConditionAgentsPaused \<equiv> ''AgentsPaused''"
abbreviation ConditionReady :: string where "ConditionReady \<equiv> ''Ready''"
abbreviation ConditionStalled :: string where "ConditionStalled \<equiv> ''Stalled''"

subsection \<open>References, estimates and results\<close>

record object_reference =
  or_name :: string
  or_uid :: string

record runner_image_ref =
  image :: string
  image_source :: string
  manifest :: string
  networkProfile :: string

abbreviation RunnerImageSourceRepository :: string where
  "RunnerImageSourceRepository \<equiv> ''repository''"

record agent_estimate =
  est_maxTurns :: int
  est_tokenBudget :: int

record agent_parameters =
  model :: string
  harness :: string
  maxTurns :: int
  tokenBudget :: int
  estimate :: "agent_estimate option"

record previous_attempt =
  pa_name :: string
  pa_attempt :: int
  pa_outcome :: string
  pa_detail :: string

record stage_result =
  sr_outcome :: string
  sr_harness :: string
  sr_model :: string
  sr_detail :: string

record user_ref =
  login :: string
  user_id :: int

subsection \<open>Finding\<close>

record finding_repository =
  repo_type :: string
  repo_url :: string
  repo_name :: string
  defaultBranch :: string

record approval =
  ap_by :: string
  ap_byID :: int
  ap_at :: time
  ap_note :: string

record action_request =
  ar_by :: string
  ar_byID :: int
  ar_at :: time

record finding_spec =
  integrationRef :: string
  trackingRef :: "string option"
  source :: string
  repository :: "finding_repository option"
  cloudResource :: "string option"
  alerts :: "string list"
  overflowAlerts :: int
  advisories :: "string list"
  ruleID :: string
  title :: string
  description :: string
  spec_severity :: level
  suspend :: bool
  spec_approval :: "approval option"
  spec_retry :: "action_request option"
  expedite :: "action_request option"

record phase_time =
  pt_phase :: phase
  pt_at :: time

record tracking_status =
  tr_integration :: string
  issueNumber :: int
  tr_url :: string
  tr_state :: string

record investigation_summary =
  is_name :: string
  is_attempt :: int
  is_outcome :: string
  is_recommendation :: recommendation
  is_confidence :: string
  is_exploitability :: rating
  is_likelihood :: rating
  is_impact :: rating
  is_awaitApproval :: bool
  is_holdReasons :: "hold_reason list"
  is_estimate :: "agent_estimate option"
  is_runnerImage :: "runner_image_ref option"
  is_completedAt :: "time option"

record remediation_summary =
  rs_name :: string
  rs_attempt :: int
  rs_outcome :: string
  rs_success :: bool
  rs_branch :: string
  rs_completedAt :: "time option"

record pull_request_status =
  pr_number :: int
  pr_url :: string
  pr_state :: string
  mergedAt :: "time option"
  mergeCommitSHA :: string

record attempt_counts =
  att_investigation :: int
  att_remediation :: int

record active_run =
  run_kind :: run_kind
  run_name :: string

record enrichment =
  en_enhancer :: string
  en_owners :: "string list"
  en_markdown :: string
  en_appliedAt :: time

record finding_status =
  phase :: phase
  phaseTimes :: "phase_time list"
  conditions :: "condition list"
  firstObservedAt :: "time option"
  accumulateUntil :: "time option"
  tracking :: "tracking_status option"
  enrichments :: "enrichment list"
  owners :: "string list"
  priority :: level
  investigation :: "investigation_summary option"
  remediation :: "remediation_summary option"
  pullRequest :: "pull_request_status option"
  attempts :: attempt_counts
  activeRun :: "active_run option"
  forge :: "string option"
  lastFailureReason :: string
  completedAt :: "time option"
  credentialHold :: "user_ref option"
  credentialHoldProvider :: string

record finding =
  f_name :: string
  f_namespace :: string
  f_uid :: string
  f_generation :: int
  f_deleting :: bool
  spec :: finding_spec
  status :: finding_status

end
