(* ===== verification/Attribution.thy ===== *)
theory Attribution
  imports CostDate ApiTypes
begin

text \<open>
  Who a run is attributed to (\<open>internal/attribution/attribution.go\<close>, the types of
  \<open>api/v1alpha1/attribution_types.go\<close>): the mode switch, the annotation value and its parser, and the
  re-attribution of people without a maul identity. \<open>attribution_ok\<close> is the validation rule the API
  puts on the type; the properties say the values written are read back as the same person.
\<close>

datatype attribution_reason =
    ReasonOrg | ReasonRequester | ReasonApprover | ReasonCommenter | ReasonReviewer | ReasonSubmitter
  | ReasonApproverUnregistered | ReasonSubmitterUnregistered

record attribution =
  at_user :: "user_ref option"
  at_reason :: attribution_reason

fun PersonReason :: "attribution_reason \<Rightarrow> bool" where
  "PersonReason ReasonRequester = True"
| "PersonReason ReasonApprover = True"
| "PersonReason ReasonCommenter = True"
| "PersonReason ReasonReviewer = True"
| "PersonReason ReasonSubmitter = True"
| "PersonReason _ = False"

datatype mode = ModeOff | ModeAttribute

definition ParseMode :: "(string \<Rightarrow> string) \<Rightarrow> string \<Rightarrow> mode option" where
  "ParseMode ut s =
     (let t = trim_space ut s in
      if t = [] \<or> t = ''off'' then Some ModeOff
      else if t = ''attribute'' then Some ModeAttribute else None)"

definition Stamp :: "mode \<Rightarrow> attribution option \<Rightarrow> attribution option" where
  "Stamp m a = (if m = ModeAttribute then a else None)"

definition ValueOrg :: string where "ValueOrg = ''org''"
definition idPrefix :: string where "idPrefix = ''github-id:''"

definition attribution_value :: "attribution option \<Rightarrow> string" where
  "attribution_value a =
     (case a of
        None \<Rightarrow> ValueOrg
      | Some x \<Rightarrow> (case at_user x of
          None \<Rightarrow> ValueOrg
        | Some u \<Rightarrow> if user_id u < 1 then ValueOrg else idPrefix @ show_int (user_id u)))"

definition attribution_annotation :: "mode \<Rightarrow> attribution option \<Rightarrow> string" where
  "attribution_annotation m a = (if m = ModeAttribute then attribution_value a else [])"

definition ValuePattern :: rx where
  "ValuePattern =
     Alt (lit ''org'')
       (Seq (lit ''github-id:'') (Seq (Cls (\<lambda>c. is_digit c \<and> c \<noteq> CHR ''0'')) (Rep 0 18 (Cls is_digit))))"

definition ParseValue :: "string \<Rightarrow> int option" where
  "ParseValue v =
     (if \<not> rx_match ValuePattern v then None
      else if v = ValueOrg then Some 0
      else (case ParseInt10 (trim_prefix v idPrefix) of
              None \<Rightarrow> None
            | Some i \<Rightarrow> if i < 1 then None else Some i))"

definition Org :: attribution where
  "Org = \<lparr>at_user = None, at_reason = ReasonOrg\<rparr>"

definition is_alnum :: "char \<Rightarrow> bool" where
  "is_alnum c \<longleftrightarrow> is_upper c \<or> is_lower c \<or> is_digit c"

definition loginRE :: rx where
  "loginRE = Seq (Cls is_alnum) (Star (Cls (\<lambda>c. is_alnum c \<or> c \<in> set ''_.-'')))"

definition maxLogin :: nat where "maxLogin = 64"

definition Registered :: "string \<Rightarrow> int \<Rightarrow> bool" where
  "Registered l i \<longleftrightarrow> 1 \<le> i \<and> length l \<le> maxLogin \<and> rx_match loginRE l"

definition To :: "string \<Rightarrow> int \<Rightarrow> attribution_reason \<Rightarrow> attribution" where
  "To l i reason =
     (if \<not> PersonReason reason then Org
      else if \<not> Registered l i then
        (if reason = ReasonSubmitter then \<lparr>at_user = None, at_reason = ReasonSubmitterUnregistered\<rparr>
         else \<lparr>at_user = None, at_reason = ReasonApproverUnregistered\<rparr>)
      else \<lparr>at_user = Some \<lparr>login = l, user_id = i\<rparr>, at_reason = reason\<rparr>)"

definition Display :: "attribution option \<Rightarrow> string" where
  "Display a =
     (case a of None \<Rightarrow> [] | Some x \<Rightarrow> (case at_user x of None \<Rightarrow> [] | Some u \<Rightarrow> CHR ''@'' # login u))"

subsection \<open>Values\<close>

definition attribution_ok :: "attribution \<Rightarrow> bool" where
  "attribution_ok a \<longleftrightarrow>
     ((at_user a \<noteq> None) = PersonReason (at_reason a)) \<and>
     (\<forall>u. at_user a = Some u \<longrightarrow> Registered (login u) (user_id u))"

lemma show_nat_digits: "list_all is_digit (show_nat n) \<and> digits_value 0 (show_nat n) = int n \<and> show_nat n \<noteq> []"
proof (induction n rule: show_nat.induct)
  case (1 n)
  have d: "is_digit (char_of (48 + k))" "digit_val (char_of (48 + k)) = int k" if "k < 10" for k :: nat
    using that by (simp_all add: is_digit_def digit_val_def)
  show ?case
  proof (cases "n < 10")
    case True
    then show ?thesis using d [OF True] by (simp add: show_nat.simps)
  next
    case False
    have m: "n mod 10 < 10" by simp
    have "int n = int (n div 10) * 10 + int (n mod 10)" by (simp add: zdiv_int zmod_int)
    then show ?thesis
      using 1 [OF False] d [OF m] False by (subst (1 2 3) show_nat.simps) (simp add: digits_value_append)
  qed
qed

lemma show_nat_first: "0 < n \<Longrightarrow> hd (show_nat n) \<noteq> CHR ''0''"
proof (induction n rule: show_nat.induct)
  case (1 n)
  show ?case
  proof (cases "n < 10")
    case True
    then have "hd (show_nat n) = char_of (48 + n)" by (simp add: show_nat.simps)
    moreover have "char_of (48 + n) = CHR ''0'' \<longleftrightarrow> (48 + n) mod 256 = byte (CHR ''0'')" by (rule char_of_is)
    ultimately show ?thesis using True 1 by simp
  next
    case False
    then have "hd (show_nat n) = hd (show_nat (n div 10))"
      using show_nat_digits [of "n div 10"] by (subst show_nat.simps) simp
    then show ?thesis using 1 False by simp
  qed
qed

lemma show_nat_length: "n < 10 ^ k \<Longrightarrow> 0 < k \<Longrightarrow> length (show_nat n) \<le> k"
proof (induction k arbitrary: n)
  case (Suc k)
  show ?case
  proof (cases "n < 10")
    case True
    then show ?thesis by (simp add: show_nat.simps)
  next
    case False
    then have "0 < k" using Suc.prems by (cases k) auto
    moreover have "n div 10 < 10 ^ k" using Suc.prems(1) by (simp add: div_less_iff_less_mult)
    ultimately have "length (show_nat (n div 10)) \<le> k" using Suc.IH by blast
    then show ?thesis using False by (subst show_nat.simps) simp
  qed
qed simp

lemma id_value_pattern:
  assumes "1 \<le> i" "i \<le> max_int64"
  shows "rx_match ValuePattern (idPrefix @ show_int i)"
proof -
  obtain c cs where s: "show_nat (nat i) = c # cs" using show_nat_digits [of "nat i"] by (cases "show_nat (nat i)") auto
  have "nat i < 10 ^ 19" using assms by simp
  then have "length cs \<le> 18" using show_nat_length [of "nat i" 19] s by simp
  moreover have "is_digit c" "list_all is_digit cs" using show_nat_digits [of "nat i"] s by auto
  moreover have "c \<noteq> CHR ''0''" using show_nat_first [of "nat i"] s assms(1) by simp
  moreover have "show_int i = c # cs" using assms(1) s by (simp add: show_int_def)
  ultimately show ?thesis
    unfolding ValuePattern_def match_Alt match_Seq [of "lit ''github-id:''"]
    by (simp add: idPrefix_def rx_cases) (metis append_Cons append_Nil)
qed

lemma parse_id_value:
  assumes "1 \<le> i" "i \<le> max_int64"
  shows "ParseValue (idPrefix @ show_int i) = Some i"
proof -
  have "ParseInt10 (show_int i) = Some i"
    using ParseInt10_digits [of "show_nat (nat i)"] show_nat_digits [of "nat i"] assms
    by (simp add: show_int_def)
  moreover have "trim_prefix (idPrefix @ show_int i) idPrefix = show_int i" by (simp add: trim_prefix_def)
  moreover have "idPrefix @ show_int i \<noteq> ValueOrg" by (simp add: idPrefix_def ValueOrg_def)
  ultimately show ?thesis
    using id_value_pattern [OF assms] assms(1) by (simp add: ParseValue_def)
qed

text \<open>
  An annotation value is read back as the person it was written for: the numeric id of an
  attribution to a person, 0 for the org, for every attribution with an int64 id; and the value
  always has the grammar the admission policy holds it to.
\<close>

theorem attribution_value_roundtrip:
  assumes "\<forall>x u. a = Some x \<longrightarrow> at_user x = Some u \<longrightarrow> user_id u \<le> max_int64"
  shows "rx_match ValuePattern (attribution_value a) \<and>
    ParseValue (attribution_value a) =
      Some (case a of None \<Rightarrow> 0 | Some x \<Rightarrow> (case at_user x of None \<Rightarrow> 0 | Some u \<Rightarrow> max 0 (user_id u)))"
proof -
  have org: "rx_match ValuePattern ValueOrg" "ParseValue ValueOrg = Some 0"
    by (simp_all add: ValuePattern_def ValueOrg_def ParseValue_def match_Alt)
  show ?thesis
    using assms org id_value_pattern parse_id_value
    by (auto simp: attribution_value_def split: option.splits)
qed

lemma attribution_value_roundtrip_witness:
  "ParseValue (attribution_value (Some (To ''octocat'' 583231 ReasonApprover))) = Some 583231"
proof -
  have "rx_match loginRE ''octocat''" by (simp add: loginRE_def is_alnum_def is_lower_def)
  then have "To ''octocat'' 583231 ReasonApprover =
      \<lparr>at_user = Some \<lparr>login = ''octocat'', user_id = 583231\<rparr>, at_reason = ReasonApprover\<rparr>"
    by (simp add: To_def Registered_def maxLogin_def)
  then show ?thesis
    using attribution_value_roundtrip [of "Some (To ''octocat'' 583231 ReasonApprover)"] by simp
qed

text \<open>
  Whatever login, id and reason a controller attributes a run by, the attribution it stamps meets
  the API's validation rule: a user exactly when the reason names a person, and then a user with a maul
  identity. A person without one is never billed, and a reason naming no person is the org's.
\<close>

theorem To_valid:
  "attribution_ok (To l i reason) \<and>
   (at_user (To l i reason) =
      (if PersonReason reason \<and> Registered l i then Some \<lparr>login = l, user_id = i\<rparr> else None))"
  by (cases reason) (auto simp: To_def Org_def attribution_ok_def)

end
