(* ===== verification/OnceLedger.thy ===== *)
theory OnceLedger
  imports Prelude
begin

text \<open>
  The exactly-once ledger both rollup kinds keep (\<open>status.recent\<close>, \<open>maxLedger\<close> in
  \<open>internal/stats/stats.go\<close>): the keys of the last 512 contributions. The locale is the contract of an
  apply operation over such a ledger; its lemmas say how long a contribution is remembered and that
  replays within that window change nothing. \<open>UsageStats\<close> and \<open>FindingStats\<close> interpret it on their
  apply functions.
\<close>

definition maxLedger :: nat where "maxLedger = 512"

definition keep_last :: "nat \<Rightarrow> 'a list \<Rightarrow> 'a list" where
  "keep_last n xs = drop (length xs - n) xs"

definition push_recent :: "string list \<Rightarrow> string \<Rightarrow> string list" where
  "push_recent rs k =
     (let rs' = rs @ [k] in if maxLedger < length rs' then drop (length rs' - maxLedger) rs' else rs')"

lemma push_recent_keep: "push_recent rs k = keep_last 512 (rs @ [k])"
  by (auto simp: push_recent_def keep_last_def maxLedger_def Let_def)

lemma length_push_recent: "length (push_recent rs k) \<le> 512"
  by (auto simp: push_recent_keep keep_last_def)

lemma push_recent_mem: "k \<in> set (push_recent rs k)"
proof -
  have "push_recent rs k = drop (Suc (length rs) - 512) rs @ [k]"
    by (simp add: push_recent_keep keep_last_def)
  then show ?thesis by simp
qed

text \<open>A key with \<open>ys\<close> after it survives a push while \<open>ys\<close> is shorter than the ledger.\<close>

lemma push_recent_later:
  assumes "rs = xs @ k # ys" "length ys < 511"
  shows "\<exists>xs'. push_recent rs j = xs' @ k # (ys @ [j])"
proof -
  have "push_recent rs j = drop (length xs + length ys + 2 - 512) xs @ k # ys @ [j]"
    using assms by (simp add: push_recent_keep keep_last_def)
  then show ?thesis by blast
qed

text \<open>The first contribution of each key, in order.\<close>

definition no_repeats :: "(string \<times> 'd) list \<Rightarrow> (string \<times> 'd) list" where
  "no_repeats ops = rev (fold (\<lambda>op acc. if fst op \<in> fst ` set acc then acc else op # acc) ops [])"

lemma no_repeats_snoc:
  "no_repeats (ops @ [op]) =
     (if fst op \<in> fst ` set (no_repeats ops) then no_repeats ops else no_repeats ops @ [op])"
  by (simp add: no_repeats_def)

lemma no_repeats_keys: "fst ` set (no_repeats ops) = fst ` set ops"
  by (induction ops rule: rev_induct) (auto simp: no_repeats_snoc, simp add: no_repeats_def)

lemma distinct_no_repeats: "distinct (map fst (no_repeats ops))"
  by (induction ops rule: rev_induct) (auto simp: no_repeats_snoc, simp add: no_repeats_def)

lemma length_no_repeats: "length (no_repeats ops) \<le> length ops"
  by (induction ops rule: rev_induct) (auto simp: no_repeats_snoc, simp add: no_repeats_def)

lemma push_recent_suffix:
  assumes "rs = xs @ zs" "length zs < 512"
  shows "\<exists>xs'. push_recent rs j = xs' @ zs @ [j] \<and> set xs' \<subseteq> set xs"
proof -
  have "push_recent rs j = drop (length xs + length zs + 1 - 512) xs @ zs @ [j]"
    using assms by (simp add: push_recent_keep keep_last_def)
  then show ?thesis using set_drop_subset by fastforce
qed

locale once_ledger =
  fixes recent :: "'s \<Rightarrow> string list" and apply_once :: "'s \<Rightarrow> string \<Rightarrow> 'd \<Rightarrow> 's \<times> bool"
  assumes seen_once: "k \<in> set (recent s) \<Longrightarrow> apply_once s k d = (s, False)"
    and fresh_once: "k \<notin> set (recent s) \<Longrightarrow>
      snd (apply_once s k d) \<and> recent (fst (apply_once s k d)) = push_recent (recent s) k"
begin

definition run_all :: "'s \<Rightarrow> (string \<times> 'd) list \<Rightarrow> 's" where
  "run_all s ops = foldl (\<lambda>s (k, d). fst (apply_once s k d)) s ops"

lemma run_all_Nil [simp]: "run_all s [] = s"
  by (simp add: run_all_def)

lemma run_all_Cons [simp]: "run_all s (op # ops) = run_all (fst (apply_once s (fst op) (snd op))) ops"
  by (simp add: run_all_def case_prod_unfold)

lemma run_all_append: "run_all s (ops @ ops') = run_all (run_all s ops) ops'"
  by (simp add: run_all_def)

lemma recent_step:
  "recent (fst (apply_once s k d)) = (if k \<in> set (recent s) then recent s else push_recent (recent s) k)"
  using seen_once fresh_once by simp

lemma applied_mem: "k \<in> set (recent (fst (apply_once s k d)))"
  by (simp add: recent_step push_recent_mem)

lemma remembered:
  assumes "recent s = xs @ k # ys" "length ys + length ops \<le> 511"
  shows "k \<in> set (recent (run_all s ops))"
  using assms
proof (induction ops arbitrary: s xs ys)
  case (Cons op ops)
  let ?s = "fst (apply_once s (fst op) (snd op))"
  show ?case
  proof (cases "fst op \<in> set (recent s)")
    case True
    then have "recent ?s = xs @ k # ys" using Cons.prems by (simp add: recent_step)
    then show ?thesis using Cons.IH [of ?s xs ys] Cons.prems by simp
  next
    case False
    obtain xs' where "push_recent (recent s) (fst op) = xs' @ k # (ys @ [fst op])"
      using push_recent_later [OF Cons.prems(1), of "fst op"] Cons.prems(2) by auto
    then have "recent ?s = xs' @ k # (ys @ [fst op])" using False by (simp add: recent_step)
    then show ?thesis using Cons.IH [of ?s xs' "ys @ [fst op]"] Cons.prems by simp
  qed
qed auto

lemma fresh_last: "k \<notin> set (recent s) \<Longrightarrow> \<exists>xs. recent (fst (apply_once s k d)) = xs @ k # []"
  by (auto simp: recent_step push_recent_keep keep_last_def)

lemma applied_then_remembered:
  assumes "k \<notin> set (recent s)" "length ops \<le> 511"
  shows "k \<in> set (recent (run_all (fst (apply_once s k d)) ops))"
  using fresh_last [OF assms(1)] remembered assms(2) by (metis list.size(3) add_0)

lemma replay_ignored:
  assumes "k \<notin> set (recent s)" "length ops \<le> 511"
  shows "apply_once (run_all (fst (apply_once s k d)) ops) k d' =
           (run_all (fst (apply_once s k d)) ops, False)"
  by (rule seen_once [OF applied_then_remembered [OF assms]])

text \<open>Dropping the repeats of a run of at most 512 contributions whose keys are new changes nothing.\<close>

lemma run_no_repeats:
  assumes "length ops \<le> 512" "\<forall>op\<in>set ops. fst op \<notin> set (recent s)"
  shows "run_all s ops = run_all s (no_repeats ops) \<and>
    (\<exists>xs. recent (run_all s ops) = xs @ map fst (no_repeats ops) \<and> set xs \<subseteq> set (recent s))"
  using assms
proof (induction ops rule: rev_induct)
  case Nil
  then show ?case by (simp add: no_repeats_def)
next
  case (snoc op ops)
  obtain k d where op: "op = (k, d)" by (cases op)
  from snoc obtain xs where IH: "run_all s ops = run_all s (no_repeats ops)"
      "recent (run_all s ops) = xs @ map fst (no_repeats ops)" "set xs \<subseteq> set (recent s)" by auto
  have keys: "k \<in> fst ` set (no_repeats ops) \<longleftrightarrow> k \<in> set (map fst (no_repeats ops))" by simp
  show ?case
  proof (cases "k \<in> fst ` set (no_repeats ops)")
    case True
    then have "k \<in> set (recent (run_all s ops))" using IH(2) by simp
    then have "run_all s (ops @ [op]) = run_all s ops" by (simp add: run_all_append op seen_once)
    then show ?thesis using True IH by (auto simp: no_repeats_snoc op)
  next
    case False
    have "k \<notin> set xs" using IH(3) snoc.prems(2) op by auto
    then have new: "k \<notin> set (recent (run_all s ops))" using False IH(2) by auto
    have "length (map fst (no_repeats ops)) < 512"
      using length_no_repeats [of ops] snoc.prems(1) by simp
    then obtain xs' where "push_recent (recent (run_all s ops)) k = xs' @ map fst (no_repeats ops) @ [k]"
        "set xs' \<subseteq> set xs"
      using push_recent_suffix [OF IH(2)] by blast
    then have "recent (run_all s (ops @ [op])) = xs' @ map fst (no_repeats (ops @ [op]))"
        "set xs' \<subseteq> set (recent s)"
      using new False IH(3) by (auto simp: run_all_append op recent_step no_repeats_snoc)
    moreover have "run_all s (ops @ [op]) = run_all s (no_repeats (ops @ [op]))"
      using False IH(1) by (simp add: run_all_append op no_repeats_snoc)
    ultimately show ?thesis by blast
  qed
qed

lemma set_push_recent: "set (push_recent rs k) \<subseteq> insert k (set rs)"
  using set_drop_subset [of "length (rs @ [k]) - 512" "rs @ [k]"] by (auto simp: push_recent_keep keep_last_def)

lemma recent_subset: "set (recent (run_all s ops)) \<subseteq> set (recent s) \<union> fst ` set ops"
proof (induction ops rule: rev_induct)
  case (snoc op ops)
  have "set (recent (run_all s (ops @ [op]))) \<subseteq> insert (fst op) (set (recent (run_all s ops)))"
    using set_push_recent [of "recent (run_all s ops)" "fst op"] by (simp add: run_all_append recent_step subset_insertI)
  then show ?case using snoc by auto
qed simp

lemma replays_ignored:
  "length ops \<le> 512 \<Longrightarrow> \<forall>op\<in>set ops. fst op \<notin> set (recent s) \<Longrightarrow> run_all s ops = run_all s (no_repeats ops)"
  using run_no_repeats by blast

end

end
