(* ===== verification/UsageStats.thy ===== *)
theory UsageStats
  imports Attribution OnceLedger Schedule "HOL-Library.AList"
begin

text \<open>
  The arithmetic of the UsageRollups (\<open>internal/stats/usage.go\<close>, the types of
  \<open>api/v1alpha1/usagerollup_types.go\<close>, the usage parts of \<open>common_types.go\<close>): a run's contribution, its
  application to a rollup under the exactly-once ledger, the retention, the month's top intents. A Go
  map is an association list with distinct keys; every int64 sum goes through \<open>i64\<close>.
\<close>

subsection \<open>Usage of one run\<close>

datatype usage_source = SourceUnset | SourceMeasured | SourcePartial | SourceReported
datatype usage_pricing = PricingUnset | PricingList | PricingSubscription

record measured_model =
  mm_inputTokens :: int
  mm_outputTokens :: int
  mm_cacheReadTokens :: int
  mm_cacheWrite5mTokens :: int
  mm_cacheWrite1hTokens :: int
  mm_costUSD :: string
  mm_pricing :: usage_pricing

record measured_usage =
  me_inputTokens :: int
  me_outputTokens :: int
  me_cacheReadTokens :: int
  me_cacheWriteTokens :: int
  me_estimatedShortfallTokens :: int
  me_costUSD :: string
  me_pricing :: usage_pricing
  me_models :: "measured_model list"

record usage_summary =
  us_inputTokens :: int
  us_outputTokens :: int
  us_cacheReadTokens :: int
  us_cacheCreationTokens :: int
  us_costUSD :: string
  us_source :: usage_source
  us_final :: bool
  us_measured :: "measured_usage option"

record usage_aggregate =
  a_runs :: int
  a_partialRuns :: int
  a_reportedRuns :: int
  a_unpricedRuns :: int
  a_inputTokens :: int
  a_outputTokens :: int
  a_cacheReadTokens :: int
  a_cacheWriteTokens :: int
  a_unmeteredTokens :: int
  a_costMicroUSD :: int
  a_notionalCostMicroUSD :: int
  a_reportedTokens :: int
  a_reportedCostMicroUSD :: int

definition no_aggregate :: usage_aggregate where
  "no_aggregate = \<lparr>a_runs = 0, a_partialRuns = 0, a_reportedRuns = 0, a_unpricedRuns = 0,
     a_inputTokens = 0, a_outputTokens = 0, a_cacheReadTokens = 0, a_cacheWriteTokens = 0,
     a_unmeteredTokens = 0, a_costMicroUSD = 0, a_notionalCostMicroUSD = 0, a_reportedTokens = 0,
     a_reportedCostMicroUSD = 0\<rparr>"

record usage_delta =
  d_kind :: string
  d_completedAt :: time
  d_intent :: string
  d_project :: string
  d_source :: usage_source
  d_usage :: usage_aggregate

definition Trusted :: "usage_delta \<Rightarrow> bool" where
  "Trusted d \<longleftrightarrow> d_source d = SourceMeasured \<or> d_source d = SourcePartial"

definition aggregate_tokens :: "usage_aggregate \<Rightarrow> int" where
  "aggregate_tokens u =
     i64 (i64 (i64 (a_inputTokens u + a_outputTokens u) + a_cacheReadTokens u) + a_cacheWriteTokens u)"

definition Tokens :: "usage_delta \<Rightarrow> int" where
  "Tokens d = aggregate_tokens (d_usage d)"

definition price :: "(string \<Rightarrow> string) \<Rightarrow> string \<Rightarrow> usage_pricing
    \<Rightarrow> usage_aggregate \<times> cost_error option \<Rightarrow> usage_aggregate \<times> cost_error option" where
  "price ut cst pricing st =
     (let (u, firstErr) = st;
          (micro, firstErr') = (case ParseCostMicroUSD ut cst of
             Inr n \<Rightarrow> (n, firstErr)
           | Inl e \<Rightarrow> (0, if firstErr = None then Some e else firstErr))
      in if pricing = PricingSubscription
         then (u\<lparr>a_notionalCostMicroUSD := i64 (a_notionalCostMicroUSD u + micro)\<rparr>, firstErr')
         else (u\<lparr>a_costMicroUSD := i64 (a_costMicroUSD u + micro)\<rparr>, firstErr'))"

definition model_tokens :: "measured_model \<Rightarrow> int" where
  "model_tokens mu =
     i64 (i64 (i64 (i64 (mm_inputTokens mu + mm_outputTokens mu) + mm_cacheReadTokens mu)
       + mm_cacheWrite5mTokens mu) + mm_cacheWrite1hTokens mu)"

definition price_model :: "(string \<Rightarrow> string) \<Rightarrow> measured_model
    \<Rightarrow> (usage_aggregate \<times> cost_error option) \<times> bool \<Rightarrow> (usage_aggregate \<times> cost_error option) \<times> bool" where
  "price_model ut mu acc =
     (case acc of (st, unpriced) \<Rightarrow>
        if mm_costUSD mu = [] then (st, unpriced \<or> 0 < model_tokens mu)
        else (price ut (mm_costUSD mu) (mm_pricing mu) st, unpriced))"

definition is_metered :: "usage_summary \<Rightarrow> bool" where
  "is_metered u \<longleftrightarrow>
     us_final u \<and> us_measured u \<noteq> None \<and> (us_source u = SourceMeasured \<or> us_source u = SourcePartial)"

definition metered_fields :: "usage_summary \<Rightarrow> measured_usage \<Rightarrow> usage_aggregate \<Rightarrow> usage_aggregate" where
  "metered_fields u m a =
     a\<lparr>a_partialRuns := (if us_source u = SourcePartial then 1 else 0),
       a_inputTokens := me_inputTokens m, a_outputTokens := me_outputTokens m,
       a_cacheReadTokens := me_cacheReadTokens m, a_cacheWriteTokens := me_cacheWriteTokens m,
       a_unmeteredTokens := me_estimatedShortfallTokens m\<rparr>"

text \<open>A figure with no split by model is priced as a whole.\<close>

definition price_unsplit :: "(string \<Rightarrow> string) \<Rightarrow> measured_usage \<Rightarrow> usage_aggregate
    \<Rightarrow> (usage_aggregate \<times> cost_error option) \<times> bool" where
  "price_unsplit ut m u0 =
     (if me_models m = []
      then (if me_costUSD m \<noteq> [] then (price ut (me_costUSD m) (me_pricing m) (u0, None), False)
            else ((u0, None), 0 < aggregate_tokens u0))
      else ((u0, None), False))"

definition UsageDeltaFrom :: "(string \<Rightarrow> string) \<Rightarrow> string \<Rightarrow> usage_summary option \<Rightarrow> time
    \<Rightarrow> usage_delta \<times> cost_error option" where
  "UsageDeltaFrom ut kind uo completed =
     (let d = \<lparr>d_kind = kind, d_completedAt = completed, d_intent = [], d_project = [],
               d_source = SourceReported, d_usage = no_aggregate\<lparr>a_runs := 1\<rparr>\<rparr>
      in case uo of
           None \<Rightarrow> (d\<lparr>d_usage := (d_usage d)\<lparr>a_reportedRuns := 1\<rparr>\<rparr>, None)
         | Some u \<Rightarrow> (case (is_metered u, us_measured u) of
             (True, Some m) \<Rightarrow>
               (case fold (price_model ut) (me_models m) (price_unsplit ut m (metered_fields u m (d_usage d))) of
                  ((u1, err), unpriced) \<Rightarrow>
                    (d\<lparr>d_source := us_source u,
                       d_usage := (if unpriced then u1\<lparr>a_unpricedRuns := 1\<rparr> else u1)\<rparr>, err))
           | _ \<Rightarrow>
               (let tok = i64 (i64 (i64 (us_inputTokens u + us_outputTokens u) + us_cacheReadTokens u)
                            + us_cacheCreationTokens u);
                    (c, err) = (case ParseCostMicroUSD ut (us_costUSD u) of
                                  Inr n \<Rightarrow> (n, None) | Inl e \<Rightarrow> (0, Some e))
                in (d\<lparr>d_usage := (d_usage d)\<lparr>a_reportedRuns := 1, a_reportedTokens := tok,
                        a_reportedCostMicroUSD := c\<rparr>\<rparr>, err))))"

subsection \<open>Scopes\<close>

datatype usage_scope_type = UsageScopeUser | UsageScopeUserProject | UsageScopeProject

record usage_scope =
  sc_type :: usage_scope_type
  sc_user :: string
  sc_project :: string

definition UsageUser :: "attribution option \<Rightarrow> string" where
  "UsageUser a = attribution_value a"

definition UsageScopes :: "string \<Rightarrow> string \<Rightarrow> usage_scope list" where
  "UsageScopes user project =
     \<lparr>sc_type = UsageScopeUser, sc_user = user, sc_project = []\<rparr> #
     (if project = [] then []
      else [\<lparr>sc_type = UsageScopeUserProject, sc_user = user, sc_project = project\<rparr>,
            \<lparr>sc_type = UsageScopeProject, sc_user = [], sc_project = project\<rparr>])"

fun scope_name :: "usage_scope_type \<Rightarrow> string" where
  "scope_name UsageScopeUser = ''user''"
| "scope_name UsageScopeUserProject = ''user-project''"
| "scope_name UsageScopeProject = ''project''"

text \<open>The first eight bytes of a SHA-256 in hex: \<open>crypto/sha256\<close> is the argument \<open>sha\<close>.\<close>

definition UsageObjectName :: "(string \<Rightarrow> string) \<Rightarrow> usage_scope \<Rightarrow> string" where
  "UsageObjectName sha sc =
     ''usage-'' @ scope_name (sc_type sc) @ ''-'' @ sha (sc_user sc @ CHR 0x00 # sc_project sc)"

subsection \<open>Buckets\<close>

record kind_totals =
  k_runs :: int
  k_tokens :: int
  k_cost :: int
  k_notional :: int

record usage_bucket =
  b_agg :: usage_aggregate
  b_kinds :: "(string \<times> kind_totals) list"

record top_intent =
  ti_intent :: string
  ti_project :: string
  ti_runs :: int
  ti_tokens :: int
  ti_cost :: int
  ti_notional :: int

record month_bucket =
  mb_bucket :: usage_bucket
  mb_top :: "top_intent list"

record usage_rollup_status =
  ur_schema :: int
  ur_login :: string
  ur_first :: "time option"
  ur_last :: "time option"
  ur_days :: "(string \<times> usage_bucket) list"
  ur_months :: "(string \<times> month_bucket) list"
  ur_recent :: "string list"

definition UsageRetentionDays :: nat where "UsageRetentionDays = 400"
definition UsageRetentionMonths :: nat where "UsageRetentionMonths = 120"
definition MaxTopIntents :: nat where "MaxTopIntents = 10"
definition UsageRollupSchemaVersion :: int where "UsageRollupSchemaVersion = 1"

definition new_bucket :: usage_bucket where "new_bucket = \<lparr>b_agg = no_aggregate, b_kinds = []\<rparr>"
definition new_month :: month_bucket where "new_month = \<lparr>mb_bucket = new_bucket, mb_top = []\<rparr>"
definition no_kind :: kind_totals where "no_kind = \<lparr>k_runs = 0, k_tokens = 0, k_cost = 0, k_notional = 0\<rparr>"

text \<open>Reading a Go map at an absent key gives the zero value.\<close>

definition at_key :: "(string \<times> 'v) list \<Rightarrow> string \<Rightarrow> 'v \<Rightarrow> 'v" where
  "at_key m k z = (case map_of m k of Some v \<Rightarrow> v | None \<Rightarrow> z)"

definition addAggregate :: "usage_aggregate \<Rightarrow> usage_aggregate \<Rightarrow> usage_aggregate" where
  "addAggregate a d =
     \<lparr>a_runs = i64 (a_runs a + a_runs d), a_partialRuns = i64 (a_partialRuns a + a_partialRuns d),
      a_reportedRuns = i64 (a_reportedRuns a + a_reportedRuns d),
      a_unpricedRuns = i64 (a_unpricedRuns a + a_unpricedRuns d),
      a_inputTokens = i64 (a_inputTokens a + a_inputTokens d),
      a_outputTokens = i64 (a_outputTokens a + a_outputTokens d),
      a_cacheReadTokens = i64 (a_cacheReadTokens a + a_cacheReadTokens d),
      a_cacheWriteTokens = i64 (a_cacheWriteTokens a + a_cacheWriteTokens d),
      a_unmeteredTokens = i64 (a_unmeteredTokens a + a_unmeteredTokens d),
      a_costMicroUSD = i64 (a_costMicroUSD a + a_costMicroUSD d),
      a_notionalCostMicroUSD = i64 (a_notionalCostMicroUSD a + a_notionalCostMicroUSD d),
      a_reportedTokens = i64 (a_reportedTokens a + a_reportedTokens d),
      a_reportedCostMicroUSD = i64 (a_reportedCostMicroUSD a + a_reportedCostMicroUSD d)\<rparr>"

definition addKind :: "kind_totals \<Rightarrow> usage_delta \<Rightarrow> kind_totals" where
  "addKind k d =
     \<lparr>k_runs = i64 (k_runs k + a_runs (d_usage d)), k_tokens = i64 (k_tokens k + Tokens d),
      k_cost = i64 (k_cost k + a_costMicroUSD (d_usage d)),
      k_notional = i64 (k_notional k + a_notionalCostMicroUSD (d_usage d))\<rparr>"

definition addBucket :: "usage_bucket \<Rightarrow> usage_delta \<Rightarrow> usage_bucket" where
  "addBucket b d =
     \<lparr>b_agg = addAggregate (b_agg b) (d_usage d),
      b_kinds = AList.update (d_kind d) (addKind (at_key (b_kinds b) (d_kind d) no_kind) d) (b_kinds b)\<rparr>"

subsection \<open>Top intents\<close>

definition cmp_int :: "int \<Rightarrow> int \<Rightarrow> int" where
  "cmp_int a b = (if a < b then -1 else if b < a then 1 else 0)"

fun cmp_or :: "int list \<Rightarrow> int" where
  "cmp_or [] = 0"
| "cmp_or (c # cs) = (if c \<noteq> 0 then c else cmp_or cs)"

definition compareTopIntent :: "top_intent \<Rightarrow> top_intent \<Rightarrow> int" where
  "compareTopIntent a b =
     cmp_or [cmp_int (i64 (ti_cost b + ti_notional b)) (i64 (ti_cost a + ti_notional a)),
             cmp_int (ti_tokens b) (ti_tokens a), cmp_int (ti_runs b) (ti_runs a),
             strings_compare (ti_intent a) (ti_intent b)]"

definition addTop :: "top_intent \<Rightarrow> usage_delta \<Rightarrow> top_intent" where
  "addTop t d =
     t\<lparr>ti_runs := i64 (ti_runs t + a_runs (d_usage d)), ti_tokens := i64 (ti_tokens t + Tokens d),
       ti_cost := i64 (ti_cost t + a_costMicroUSD (d_usage d)),
       ti_notional := i64 (ti_notional t + a_notionalCostMicroUSD (d_usage d))\<rparr>"

fun index_of :: "('a \<Rightarrow> bool) \<Rightarrow> 'a list \<Rightarrow> nat option" where
  "index_of P [] = None"
| "index_of P (x # xs) = (if P x then Some 0 else map_option Suc (index_of P xs))"

definition new_top :: "usage_delta \<Rightarrow> top_intent" where
  "new_top d = \<lparr>ti_intent = d_intent d, ti_project = d_project d, ti_runs = 0, ti_tokens = 0,
                ti_cost = 0, ti_notional = 0\<rparr>"

definition addTopIntent :: "top_intent list \<Rightarrow> usage_delta \<Rightarrow> top_intent list" where
  "addTopIntent ts d =
     (case index_of (\<lambda>t. ti_intent t = d_intent d) ts of
        Some i \<Rightarrow> sort_func compareTopIntent (ts[i := addTop (ts ! i) d])
      | None \<Rightarrow>
          if length ts < MaxTopIntents
          then sort_func compareTopIntent (ts @ [addTop (new_top d) d])
          else (let sorted = sort_func compareTopIntent ts;
                    l = length sorted - 1;
                    cand = addTop (new_top d) d
                in if 0 \<le> compareTopIntent cand (sorted ! l) then sorted
                   else sort_func compareTopIntent (sorted[l := cand])))"

subsection \<open>Retention and application\<close>

definition usageDayCutoff :: "time \<Rightarrow> string" where
  "usageDayCutoff now = day_key_of (unix_day now - (int UsageRetentionDays - 1))"

definition dropOldest :: "(string \<times> 'v) list \<Rightarrow> nat \<Rightarrow> (string \<times> 'v) list \<times> bool" where
  "dropOldest m keep =
     (if length m \<le> keep then (m, False)
      else let keys = sort (map fst m); gone = take (length keys - keep) keys
           in (filter (\<lambda>(k, _). k \<notin> set gone) m, True))"

definition CompactUsage :: "usage_rollup_status \<Rightarrow> time \<Rightarrow> usage_rollup_status \<times> bool" where
  "CompactUsage st now =
     (let cutoff = usageDayCutoff now;
          days1 = filter (\<lambda>(day, _). \<not> day < cutoff) (ur_days st);
          changed1 = list_ex (\<lambda>(day, _). day < cutoff) (ur_days st);
          (days2, changed2) = dropOldest days1 UsageRetentionDays;
          (months1, changed3) = dropOldest (ur_months st) UsageRetentionMonths
      in (st\<lparr>ur_days := days2, ur_months := months1\<rparr>, changed1 \<or> changed2 \<or> changed3))"

record contribution =
  c_delta :: usage_delta
  c_login :: string
  c_topIntents :: bool
  c_now :: time

definition add_day :: "(string \<times> usage_bucket) list \<Rightarrow> contribution \<Rightarrow> (string \<times> usage_bucket) list" where
  "add_day days c =
     (let d = c_delta c; day = day_key (d_completedAt d) in
      if \<not> day < usageDayCutoff (c_now c)
      then AList.update day (addBucket (at_key days day new_bucket) d) days else days)"

definition month_of :: "contribution \<Rightarrow> string" where
  "month_of c = month_key (d_completedAt (c_delta c))"

definition month_entry :: "month_bucket \<Rightarrow> contribution \<Rightarrow> month_bucket" where
  "month_entry mb c =
     (let d = c_delta c; mb1 = mb\<lparr>mb_bucket := addBucket (mb_bucket mb) d\<rparr> in
      if c_topIntents c \<and> d_intent d \<noteq> [] then mb1\<lparr>mb_top := addTopIntent (mb_top mb1) d\<rparr> else mb1)"

definition add_month :: "(string \<times> month_bucket) list \<Rightarrow> contribution \<Rightarrow> (string \<times> month_bucket) list" where
  "add_month months c =
     AList.update (month_of c) (month_entry (at_key months (month_of c) new_month) c) months"

definition ApplyUsage :: "usage_rollup_status \<Rightarrow> string \<Rightarrow> contribution \<Rightarrow> usage_rollup_status \<times> bool" where
  "ApplyUsage st ledgerKey c =
     (if ledgerKey \<in> set (ur_recent st) then (st, False)
      else let st1 = st\<lparr>ur_schema := max (ur_schema st) UsageRollupSchemaVersion,
                        ur_first := (if ur_first st = None then Some (c_now c) else ur_first st),
                        ur_last := Some (c_now c),
                        ur_login := (if c_login c \<noteq> [] then c_login c else ur_login st),
                        ur_days := add_day (ur_days st) c,
                        ur_months := add_month (ur_months st) c\<rparr>;
               st2 = fst (CompactUsage st1 (c_now c))
           in (st2\<lparr>ur_recent := push_recent (ur_recent st2) ledgerKey\<rparr>, True))"

subsection \<open>The ledger\<close>

lemma CompactUsage_recent [simp]: "ur_recent (fst (CompactUsage st now)) = ur_recent st"
  by (simp add: CompactUsage_def Let_def split: prod.splits)

interpretation usage_once: once_ledger ur_recent ApplyUsage
  by unfold_locales (simp_all add: ApplyUsage_def Let_def)

definition usage_run :: "usage_rollup_status \<Rightarrow> (string \<times> contribution) list \<Rightarrow> usage_rollup_status" where
  "usage_run st ops = foldl (\<lambda>s (k, c). fst (ApplyUsage s k c)) st ops"

lemma usage_run_all: "usage_run = usage_once.run_all"
  by (intro ext) (simp add: usage_run_def usage_once.run_all_def)

subsection \<open>Retention\<close>

lemma sorted_take_drop: "sorted xs \<Longrightarrow> x \<in> set (take n xs) \<Longrightarrow> y \<in> set (drop n xs) \<Longrightarrow> x \<le> y"
  using take_drop_sorted [of "\<lambda>x. x" xs x n y] by simp

lemma dropOldest_spec:
  assumes "distinct (map fst m)" "dropOldest m n = (m', ch)"
  shows "length m' = min n (length m)" "set m' \<subseteq> set m" "distinct (map fst m')" "ch \<longleftrightarrow> n < length m"
    "\<forall>x\<in>set m - set m'. \<forall>y\<in>set m'. fst x < fst y"
proof -
  let ?keys = "sort (map fst m)"
  let ?g = "take (length m - n) ?keys"
  have "length m' = min n (length m) \<and> set m' \<subseteq> set m \<and> distinct (map fst m') \<and> (ch \<longleftrightarrow> n < length m) \<and>
    (\<forall>x\<in>set m - set m'. \<forall>y\<in>set m'. fst x < fst y)"
  proof (cases "length m \<le> n")
    case True
    then show ?thesis using assms by (auto simp: dropOldest_def)
  next
    case False
    then have m': "m' = filter (\<lambda>x. fst x \<notin> set ?g) m" and ch: "ch"
      using assms(2) by (auto simp: dropOldest_def Let_def case_prod_unfold)
    have dk: "distinct ?keys" using assms(1) by simp
    have "length (filter (\<lambda>k. k \<in> set ?g) ?keys) = card (set ?g)"
    proof -
      have "length (filter (\<lambda>k. k \<in> set ?g) ?keys) = card (set (filter (\<lambda>k. k \<in> set ?g) ?keys))"
        using dk by (intro distinct_card [symmetric] distinct_filter)
      moreover have "set (filter (\<lambda>k. k \<in> set ?g) ?keys) = set ?g"
        using set_take_subset [of "length m - n" ?keys] by auto
      ultimately show ?thesis by simp
    qed
    also have "card (set ?g) = length m - n"
      using dk False by (simp add: distinct_card)
    finally have lg: "length (filter (\<lambda>k. k \<in> set ?g) ?keys) = length m - n" .
    have "length (filter (\<lambda>k. k \<notin> set ?g) (map fst m)) = length (filter (\<lambda>k. k \<notin> set ?g) ?keys)"
      by (metis mset_filter mset_sort size_mset)
    also have "\<dots> = n"
      using sum_length_filter_compl [of "\<lambda>k. k \<in> set ?g" ?keys] lg False by simp
    finally have "length m' = n" by (simp add: m' filter_map o_def)
    moreover have "distinct (map fst m')" using assms(1) m' by (simp add: distinct_map_filter)
    moreover have "fst x < fst y" if "x \<in> set m - set m'" "y \<in> set m'" for x y
    proof -
      have x: "fst x \<in> set ?g" and y: "fst y \<notin> set ?g" "fst y \<in> set ?keys" using that m' by auto
      then have "fst y \<in> set (drop (length m - n) ?keys)"
        by (metis Un_iff append_take_drop_id set_append)
      then have "fst x \<le> fst y" using sorted_take_drop [OF sorted_sort x] by simp
      then show ?thesis using x y by (metis order_le_less)
    qed
    ultimately show ?thesis using m' ch False by auto
  qed
  then show "length m' = min n (length m)" "set m' \<subseteq> set m" "distinct (map fst m')" "ch \<longleftrightarrow> n < length m"
    "\<forall>x\<in>set m - set m'. \<forall>y\<in>set m'. fst x < fst y" by blast+
qed


lemma dropOldest_same: "length m \<le> n \<Longrightarrow> dropOldest m n = (m, False)"
  by (simp add: dropOldest_def)

lemma distinct_fst_filter: "distinct (map fst m) \<Longrightarrow> distinct (map fst (filter P m))"
  by (rule distinct_map_filter)

text \<open>
  Retention keeps the right buckets and settles in one pass. From any rollup (a Go map has distinct
  keys), compaction leaves at most 400 days, none before the cutoff, and at most 120 months; it changes
  no bucket it keeps; a day it drops is before the cutoff or older than every day kept, a month it
  drops is older than every month kept; and compacting again at the same time changes nothing.
\<close>

theorem CompactUsage_retention:
  assumes "distinct (map fst (ur_days st))" "distinct (map fst (ur_months st))"
    and "CompactUsage st now = (st', ch)"
  shows "length (ur_days st') \<le> 400 \<and> length (ur_months st') \<le> 120 \<and>
    set (ur_days st') \<subseteq> set (ur_days st) \<and> set (ur_months st') \<subseteq> set (ur_months st) \<and>
    (\<forall>b\<in>set (ur_days st'). usageDayCutoff now \<le> fst b) \<and>
    (\<forall>b\<in>set (ur_days st) - set (ur_days st').
       fst b < usageDayCutoff now \<or> (\<forall>k\<in>set (ur_days st'). fst b < fst k)) \<and>
    (\<forall>b\<in>set (ur_months st) - set (ur_months st'). \<forall>k\<in>set (ur_months st'). fst b < fst k) \<and>
    CompactUsage st' now = (st', False)"
proof -
  let ?cut = "usageDayCutoff now"
  let ?d1 = "filter (\<lambda>(day, _). \<not> day < ?cut) (ur_days st)"
  obtain d2 c2 where d2: "dropOldest ?d1 400 = (d2, c2)" by force
  obtain m2 c3 where m2: "dropOldest (ur_months st) 120 = (m2, c3)" by force
  have st': "st' = st\<lparr>ur_days := d2, ur_months := m2\<rparr>"
    using assms(3) d2 m2 by (simp add: CompactUsage_def Let_def UsageRetentionDays_def UsageRetentionMonths_def)
  note D = dropOldest_spec [OF distinct_fst_filter [OF assms(1)] d2]
    and M = dropOldest_spec [OF assms(2) m2]
  have keep: "\<forall>b\<in>set d2. ?cut \<le> fst b" using D(2) by (auto simp: not_less)
  have "filter (\<lambda>(day, _). \<not> day < ?cut) d2 = d2"
    using keep by (auto simp: not_less intro!: filter_True)
  moreover have "\<not> list_ex (\<lambda>(day, _). day < ?cut) d2"
    using keep by (auto simp: list_ex_iff not_less)
  moreover have "dropOldest d2 400 = (d2, False)" "dropOldest m2 120 = (m2, False)"
    using D(1) M(1) by (simp_all add: dropOldest_same)
  ultimately have "CompactUsage st' now = (st', False)"
    by (simp add: CompactUsage_def Let_def st' UsageRetentionDays_def UsageRetentionMonths_def)
  moreover have "\<forall>b\<in>set (ur_days st) - set d2. fst b < ?cut \<or> (\<forall>k\<in>set d2. fst b < fst k)"
    using D(5) by auto
  ultimately show ?thesis using D(1,2) M(1,2,5) keep by (simp add: st') blast
qed

definition demo_rollup :: usage_rollup_status where
  "demo_rollup = \<lparr>ur_schema = 1, ur_login = [], ur_first = None, ur_last = None,
     ur_days = [(''1969-11-26'', new_bucket), (''1970-01-01'', new_bucket)], ur_months = [], ur_recent = []\<rparr>"

lemma CompactUsage_retention_witness:
  "length (ur_days (fst (CompactUsage demo_rollup (400 * 24 * nano_hour)))) \<le> 400"
  using CompactUsage_retention
    [of demo_rollup "400 * 24 * nano_hour" "fst (CompactUsage demo_rollup (400 * 24 * nano_hour))"
        "snd (CompactUsage demo_rollup (400 * 24 * nano_hour))"]
  by (simp add: demo_rollup_def)

subsection \<open>Top intents\<close>

definition top_key :: "top_intent \<Rightarrow> int \<times> int \<times> int \<times> string" where
  "top_key t = (- i64 (ti_cost t + ti_notional t), - ti_tokens t, - ti_runs t, ti_intent t)"

definition top_ok :: "top_intent list \<Rightarrow> bool" where
  "top_ok ts \<longleftrightarrow> length ts \<le> 10 \<and> distinct (map ti_intent ts) \<and> sorted (map top_key ts)"

lemma strings_compare_le: "strings_compare a b \<le> 0 \<longleftrightarrow> a \<le> b"
  by (auto simp: strings_compare_def)

lemma cmp_or_lex:
  "cmp_or [cmp_int b1 a1, cmp_int b2 a2, cmp_int b3 a3, strings_compare m n] \<le> 0 \<longleftrightarrow>
   (- a1, - a2, - a3, m) \<le> (- b1, - b2, - b3, n)"
  by (cases a1 b1 rule: linorder_cases; cases a2 b2 rule: linorder_cases; cases a3 b3 rule: linorder_cases)
    (simp_all add: cmp_int_def strings_compare_def order_less_imp_le)

lemma compareTopIntent_key: "compareTopIntent a b \<le> 0 \<longleftrightarrow> top_key a \<le> top_key b"
  unfolding compareTopIntent_def top_key_def by (rule cmp_or_lex)

lemma sort_top: "sort_func compareTopIntent ts = sort_key top_key ts"
  by (rule sort_func_sort_key) (simp add: compareTopIntent_key)

lemma index_of_Some: "index_of P xs = Some i \<Longrightarrow> i < length xs \<and> P (xs ! i)"
  by (induction xs arbitrary: i) (auto split: if_splits)

lemma index_of_None: "index_of P xs = None \<longleftrightarrow> (\<forall>x\<in>set xs. \<not> P x)"
  by (induction xs) auto

lemma addTop_intent [simp]: "ti_intent (addTop t d) = ti_intent t"
  by (simp add: addTop_def)

lemma new_top_intent [simp]: "ti_intent (new_top d) = d_intent d"
  by (simp add: new_top_def)

lemma sort_top_ok: "length ts \<le> 10 \<Longrightarrow> distinct (map ti_intent ts) \<Longrightarrow> top_ok (sort_func compareTopIntent ts)"
  unfolding top_ok_def sort_top
  by (metis length_sort mset_eq_imp_distinct_iff mset_map mset_sort sorted_sort_key)

lemma distinct_replaced:
  "distinct (map f xs) \<Longrightarrow> i < length xs \<Longrightarrow> f y \<notin> f ` set xs \<or> f y = f (xs ! i) \<Longrightarrow>
   distinct (map f (xs[i := y]))"
  by (auto simp: map_update distinct_list_update)

lemma addTopIntent_ok: "top_ok ts \<Longrightarrow> top_ok (addTopIntent ts d)"
proof -
  assume ok: "top_ok ts"
  show ?thesis
  proof (cases "index_of (\<lambda>t. ti_intent t = d_intent d) ts")
    case (Some i)
    have "map ti_intent (ts[i := addTop (ts ! i) d]) = map ti_intent ts"
      by (simp add: map_update) (metis list_update_beyond list_update_id map_update not_less)
    then have "distinct (map ti_intent (ts[i := addTop (ts ! i) d]))" using ok by (simp add: top_ok_def)
    then have "top_ok (sort_func compareTopIntent (ts[i := addTop (ts ! i) d]))"
      using ok by (intro sort_top_ok) (auto simp: top_ok_def)
    then show ?thesis using Some by (simp add: addTopIntent_def)
  next
    case None
    then have new: "d_intent d \<notin> ti_intent ` set ts" by (auto simp: index_of_None)
    let ?s = "sort_func compareTopIntent ts"
    have s: "top_ok ?s" using ok by (intro sort_top_ok) (auto simp: top_ok_def)
    have "top_ok (sort_func compareTopIntent (?s[length ?s - 1 := addTop (new_top d) d]))"
    proof (cases "ts = []")
      case False
      then have "length ?s - 1 < length ?s" by simp
      moreover have "ti_intent (addTop (new_top d) d) \<notin> ti_intent ` set ?s" using new by simp
      ultimately have "distinct (map ti_intent (?s[length ?s - 1 := addTop (new_top d) d]))"
        using s unfolding top_ok_def by (intro distinct_replaced) blast+
      then show ?thesis using s by (intro sort_top_ok) (simp_all add: top_ok_def)
    qed (simp add: top_ok_def)
    moreover have "top_ok (sort_func compareTopIntent (ts @ [addTop (new_top d) d]))" if "length ts < 10"
      using ok new that by (intro sort_top_ok) (auto simp: top_ok_def)
    ultimately show ?thesis using None s
      by (auto simp: addTopIntent_def Let_def MaxTopIntents_def)
  qed
qed

subsection \<open>The schema's bounds\<close>

definition rollup_ok :: "usage_rollup_status \<Rightarrow> bool" where
  "rollup_ok st \<longleftrightarrow>
     length (ur_days st) \<le> 400 \<and> length (ur_months st) \<le> 120 \<and> length (ur_recent st) \<le> 512 \<and>
     distinct (map fst (ur_days st)) \<and> distinct (map fst (ur_months st)) \<and>
     (\<forall>m\<in>set (ur_months st). top_ok (mb_top (snd m)))"

lemma set_update_AList: "x \<in> set (AList.update k v m) \<Longrightarrow> x = (k, v) \<or> x \<in> set m"
  by (induction m) (auto split: if_splits)

lemma at_key_cases: "at_key m k z = z \<or> (k, at_key m k z) \<in> set m"
  by (auto simp: at_key_def map_of_SomeD split: option.splits)

lemma CompactUsage_ok:
  assumes "distinct (map fst (ur_days st))" "distinct (map fst (ur_months st))"
    and "\<forall>m\<in>set (ur_months st). top_ok (mb_top (snd m))" "length (ur_recent st) \<le> 512"
  shows "rollup_ok (fst (CompactUsage st now))"
proof -
  let ?d1 = "filter (\<lambda>(day, _). \<not> day < usageDayCutoff now) (ur_days st)"
  obtain d2 c2 where d2: "dropOldest ?d1 400 = (d2, c2)" by force
  obtain m2 c3 where m2: "dropOldest (ur_months st) 120 = (m2, c3)" by force
  have e: "fst (CompactUsage st now) = st\<lparr>ur_days := d2, ur_months := m2\<rparr>"
    using d2 m2 by (simp add: CompactUsage_def Let_def UsageRetentionDays_def UsageRetentionMonths_def)
  show ?thesis
    using dropOldest_spec(1-3) [OF distinct_fst_filter [OF assms(1)] d2]
      dropOldest_spec(1-3) [OF assms(2) m2] assms(3,4)
    unfolding e rollup_ok_def by auto
qed

lemma top_ok_new: "top_ok (mb_top new_month)"
  by (simp add: new_month_def top_ok_def)

text \<open>
  Folding a run in never takes a rollup outside its schema: at most 400 days, 120 months and 512
  ledger keys, distinct map keys, and in every month at most 10 top intents, each intent once, highest
  first by cost, tokens, runs and name.
\<close>

theorem ApplyUsage_bounds:
  assumes "rollup_ok st"
  shows "rollup_ok (fst (ApplyUsage st k c))"
proof (cases "k \<in> set (ur_recent st)")
  case True
  then show ?thesis using assms by (simp add: ApplyUsage_def)
next
  case False
  define st1 where "st1 = st\<lparr>ur_schema := max (ur_schema st) UsageRollupSchemaVersion,
      ur_first := (if ur_first st = None then Some (c_now c) else ur_first st), ur_last := Some (c_now c),
      ur_login := (if c_login c \<noteq> [] then c_login c else ur_login st),
      ur_days := add_day (ur_days st) c, ur_months := add_month (ur_months st) c\<rparr>"
  have app: "fst (ApplyUsage st k c) =
      (fst (CompactUsage st1 (c_now c)))\<lparr>ur_recent := push_recent (ur_recent st) k\<rparr>"
    using False by (simp add: ApplyUsage_def Let_def st1_def)
  have "top_ok (mb_top (at_key (ur_months st) (month_of c) new_month))"
    using at_key_cases [of "ur_months st" "month_of c" new_month] assms top_ok_new
    by (auto simp: rollup_ok_def)
  then have "top_ok (mb_top (month_entry (at_key (ur_months st) (month_of c) new_month) c))"
    by (simp add: month_entry_def Let_def addTopIntent_ok)
  then have "\<forall>m\<in>set (ur_months st1). top_ok (mb_top (snd m))"
    using assms by (auto simp: st1_def add_month_def rollup_ok_def dest!: set_update_AList)
  then have "rollup_ok (fst (CompactUsage st1 (c_now c)))"
    using assms
    by (intro CompactUsage_ok) (auto simp: st1_def add_day_def add_month_def Let_def rollup_ok_def distinct_update)
  then show ?thesis unfolding app rollup_ok_def using length_push_recent by simp
qed

definition demo_contribution :: contribution where
  "demo_contribution = \<lparr>c_delta = fst (UsageDeltaFrom (\<lambda>s. s) ''plan'' None 0), c_login = [],
     c_topIntents = True, c_now = 0\<rparr>"

lemma ApplyUsage_bounds_witness:
  "length (ur_days (fst (ApplyUsage demo_rollup ''u:1'' demo_contribution))) \<le> 400"
proof -
  have "rollup_ok demo_rollup" by (simp add: demo_rollup_def rollup_ok_def)
  then have "rollup_ok (fst (ApplyUsage demo_rollup ''u:1'' demo_contribution))" by (rule ApplyUsage_bounds)
  then show ?thesis by (simp add: rollup_ok_def)
qed

subsection \<open>Exact totals\<close>

lemma set_no_repeats: "set (no_repeats ops) \<subseteq> set ops"
  by (induction ops rule: rev_induct) (auto simp: no_repeats_snoc, simp add: no_repeats_def)

definition agg_fields :: "(usage_aggregate \<Rightarrow> int) list" where
  "agg_fields = [a_runs, a_partialRuns, a_reportedRuns, a_unpricedRuns, a_inputTokens, a_outputTokens,
     a_cacheReadTokens, a_cacheWriteTokens, a_unmeteredTokens, a_costMicroUSD, a_notionalCostMicroUSD,
     a_reportedTokens, a_reportedCostMicroUSD]"

definition month_total :: "usage_rollup_status \<Rightarrow> string \<Rightarrow> usage_aggregate" where
  "month_total st m = b_agg (mb_bucket (at_key (ur_months st) m new_month))"

definition fresh_rollup :: usage_rollup_status where
  "fresh_rollup = \<lparr>ur_schema = 0, ur_login = [], ur_first = None, ur_last = None, ur_days = [],
     ur_months = [], ur_recent = []\<rparr>"

lemma addAggregate_field: "f \<in> set agg_fields \<Longrightarrow> f (addAggregate a d) = i64 (f a + f d)"
  by (auto simp: agg_fields_def addAggregate_def)

lemma no_aggregate_field: "f \<in> set agg_fields \<Longrightarrow> f no_aggregate = 0"
  by (auto simp: agg_fields_def no_aggregate_def)

lemma CompactUsage_months:
  "ur_months (fst (CompactUsage st now)) = fst (dropOldest (ur_months st) UsageRetentionMonths)"
  by (simp add: CompactUsage_def Let_def split: prod.splits)

lemma ApplyUsage_months:
  assumes "k \<notin> set (ur_recent st)" "card (insert (month_of c) (fst ` set (ur_months st))) \<le> 120"
    and "distinct (map fst (ur_months st))"
  shows "\<exists>mb. ur_months (fst (ApplyUsage st k c)) = AList.update (month_of c) mb (ur_months st) \<and>
    b_agg (mb_bucket mb) = addAggregate (month_total st (month_of c)) (d_usage (c_delta c))"
proof -
  let ?mb = "at_key (ur_months st) (month_of c) new_month"
  let ?ms = "add_month (ur_months st) c"
  have "distinct (map fst ?ms)" using assms(3) by (simp add: add_month_def distinct_update)
  then have "length ?ms = card (fst ` set ?ms)" by (metis distinct_card length_map set_map)
  also have "\<dots> \<le> 120" using assms(2) by (simp add: add_month_def dom_update)
  finally have "dropOldest ?ms UsageRetentionMonths = (?ms, False)"
    by (simp add: dropOldest_same UsageRetentionMonths_def)
  then have "ur_months (fst (ApplyUsage st k c)) = ?ms"
    using assms(1) by (simp add: ApplyUsage_def Let_def CompactUsage_months)
  moreover have "b_agg (mb_bucket (month_entry ?mb c)) = addAggregate (b_agg (mb_bucket ?mb)) (d_usage (c_delta c))"
    by (simp add: month_entry_def Let_def addBucket_def)
  ultimately show ?thesis unfolding month_total_def add_month_def by blast
qed

lemma usage_run_months:
  assumes "distinct (map fst ops)" "card (month_of ` snd ` set ops) \<le> 120"
  shows "distinct (map fst (ur_months (usage_run fresh_rollup ops))) \<and>
    fst ` set (ur_months (usage_run fresh_rollup ops)) = month_of ` snd ` set ops \<and>
    (\<forall>f\<in>set agg_fields. \<forall>m. f (month_total (usage_run fresh_rollup ops) m) =
       i64 (\<Sum>(k, c)\<leftarrow>ops. if month_of c = m then f (d_usage (c_delta c)) else 0))"
  using assms
proof (induction ops rule: rev_induct)
  case Nil
  then show ?case
    by (simp add: usage_run_def fresh_rollup_def month_total_def at_key_def new_month_def new_bucket_def
        no_aggregate_field i64_def)
next
  case (snoc op ops)
  obtain k c where op: "op = (k, c)" by (cases op)
  let ?s = "usage_run fresh_rollup ops"
  have sub: "month_of ` snd ` set ops \<subseteq> month_of ` snd ` set (ops @ [op])" by auto
  have "card (month_of ` snd ` set ops) \<le> 120"
    using card_mono [OF _ sub] snoc.prems(2) by simp
  then have IH: "distinct (map fst (ur_months ?s))" "fst ` set (ur_months ?s) = month_of ` snd ` set ops"
    "\<And>f m. f \<in> set agg_fields \<Longrightarrow> f (month_total ?s m) =
       i64 (\<Sum>(k, c)\<leftarrow>ops. if month_of c = m then f (d_usage (c_delta c)) else 0)"
    using snoc by auto
  have new: "k \<notin> set (ur_recent ?s)"
    using usage_once.recent_subset [of fresh_rollup ops] snoc.prems(1) op
    by (auto simp: usage_run_all fresh_rollup_def)
  have "card (insert (month_of c) (fst ` set (ur_months ?s))) \<le> 120"
    using snoc.prems(2) by (simp add: IH(2) op)
  then obtain mb where mb: "ur_months (fst (ApplyUsage ?s k c)) = AList.update (month_of c) mb (ur_months ?s)"
      "b_agg (mb_bucket mb) = addAggregate (month_total ?s (month_of c)) (d_usage (c_delta c))"
    using ApplyUsage_months [OF new _ IH(1)] by blast
  have run: "usage_run fresh_rollup (ops @ [(k, c)]) = fst (ApplyUsage ?s k c)" by (simp add: usage_run_def)
  have "f (month_total (fst (ApplyUsage ?s k c)) m) =
      i64 (\<Sum>(k, c)\<leftarrow>ops @ [op]. if month_of c = m then f (d_usage (c_delta c)) else 0)"
    if f: "f \<in> set agg_fields" for f m
  proof (cases "m = month_of c")
    case True
    then have "month_total (fst (ApplyUsage ?s k c)) m = addAggregate (month_total ?s m) (d_usage (c_delta c))"
      using mb by (simp add: month_total_def at_key_def update_conv)
    then show ?thesis using True f IH(3) [OF f, of m] by (simp add: op addAggregate_field i64_add_left)
  next
    case False
    then have "month_total (fst (ApplyUsage ?s k c)) m = month_total ?s m"
      using mb by (simp add: month_total_def at_key_def update_conv)
    then show ?thesis using False IH(3) [OF f, of m] by (simp add: op)
  qed
  moreover have "distinct (map fst (ur_months (fst (ApplyUsage ?s k c))))"
    "fst ` set (ur_months (fst (ApplyUsage ?s k c))) = month_of ` snd ` set (ops @ [op])"
    using mb(1) IH(1,2) by (simp_all add: op distinct_update dom_update)
  ultimately show ?case unfolding op run by blast
qed



subsection \<open>A run's contribution\<close>

definition micro_or_zero :: "(string \<Rightarrow> string) \<Rightarrow> string \<Rightarrow> int" where
  "micro_or_zero ut s = (case ParseCostMicroUSD ut s of Inr n \<Rightarrow> n | Inl _ \<Rightarrow> 0)"

definition priced_as :: "bool \<Rightarrow> measured_model \<Rightarrow> bool" where
  "priced_as subscription mu \<longleftrightarrow> mm_costUSD mu \<noteq> [] \<and> (mm_pricing mu = PricingSubscription) = subscription"

lemma i64_zero: "i64 0 = 0"
  by (simp add: i64_def)

lemma price_fst:
  "fst (price ut c p st) =
     (if p = PricingSubscription
      then (fst st)\<lparr>a_notionalCostMicroUSD := i64 (a_notionalCostMicroUSD (fst st) + micro_or_zero ut c)\<rparr>
      else (fst st)\<lparr>a_costMicroUSD := i64 (a_costMicroUSD (fst st) + micro_or_zero ut c)\<rparr>)"
  by (cases st) (simp add: price_def micro_or_zero_def split: sum.splits)

lemma fold_price_model:
  assumes "fold (price_model ut) ms ((u, e), b) = ((u', e'), b')"
    and "a_costMicroUSD u = i64 x" "a_notionalCostMicroUSD u = i64 y"
  shows "u' = u\<lparr>a_costMicroUSD := i64 (x + (\<Sum>mu\<leftarrow>ms. if priced_as False mu then micro_or_zero ut (mm_costUSD mu) else 0)),
      a_notionalCostMicroUSD := i64 (y + (\<Sum>mu\<leftarrow>ms. if priced_as True mu then micro_or_zero ut (mm_costUSD mu) else 0))\<rparr> \<and>
    b' = (b \<or> (\<exists>mu\<in>set ms. mm_costUSD mu = [] \<and> 0 < model_tokens mu))"
  using assms
proof (induction ms arbitrary: u e b x y)
  case Nil
  then show ?case by simp
next
  case (Cons mu ms)
  obtain u1 e1 b1 where s: "price_model ut mu ((u, e), b) = ((u1, e1), b1)" by (metis prod.exhaust)
  let ?x = "x + (if priced_as False mu then micro_or_zero ut (mm_costUSD mu) else 0)"
  let ?y = "y + (if priced_as True mu then micro_or_zero ut (mm_costUSD mu) else 0)"
  have u1: "u1 = u\<lparr>a_costMicroUSD := i64 ?x, a_notionalCostMicroUSD := i64 ?y\<rparr> \<and>
      b1 = (b \<or> (mm_costUSD mu = [] \<and> 0 < model_tokens mu))"
  proof (cases "mm_costUSD mu = []")
    case True
    then show ?thesis using s Cons.prems(2,3) by (auto simp: price_model_def priced_as_def)
  next
    case False
    then have "u1 = fst (price ut (mm_costUSD mu) (mm_pricing mu) (u, e))" "b1 = b"
      using s by (auto simp: price_model_def)
    then show ?thesis using False Cons.prems(2,3)
      by (auto simp: price_fst priced_as_def i64_add_left)
  qed
  have "fold (price_model ut) ms ((u1, e1), b1) = ((u', e'), b')" using Cons.prems(1) s by simp
  then show ?case using Cons.IH [of u1 e1 b1 ?x ?y] u1 by (auto simp: add.assoc)
qed

text \<open>
  A settled run contributes either the broker's metered figures or its pod's own report, never both,
  and always exactly one run. Metered (its usage final, with a broker figure of a trusted source): the
  broker's token counts, each model's cost added to the list cost or the notional cost by its own
  pricing, and no reported figure. Otherwise: one reported run, and every metered field zero.
\<close>

theorem UsageDeltaFrom_trusted_xor_reported:
  assumes d_def: "d = fst (UsageDeltaFrom ut kind u t)"
  shows "a_runs (d_usage d) = 1 \<and> d_kind d = kind \<and> d_completedAt d = t \<and>
    (Trusted d \<longleftrightarrow> (\<exists>s. u = Some s \<and> is_metered s)) \<and>
    (Trusted d \<longrightarrow> a_reportedRuns (d_usage d) = 0 \<and> a_reportedTokens (d_usage d) = 0 \<and>
       a_reportedCostMicroUSD (d_usage d) = 0) \<and>
    (\<not> Trusted d \<longrightarrow> a_reportedRuns (d_usage d) = 1 \<and> Tokens d = 0 \<and> a_partialRuns (d_usage d) = 0 \<and>
       a_unpricedRuns (d_usage d) = 0 \<and> a_unmeteredTokens (d_usage d) = 0 \<and>
       a_costMicroUSD (d_usage d) = 0 \<and> a_notionalCostMicroUSD (d_usage d) = 0) \<and>
    (\<forall>s m. u = Some s \<longrightarrow> is_metered s \<longrightarrow> us_measured s = Some m \<longrightarrow> me_models m \<noteq> [] \<longrightarrow>
       a_inputTokens (d_usage d) = me_inputTokens m \<and> a_outputTokens (d_usage d) = me_outputTokens m \<and>
       a_costMicroUSD (d_usage d) =
         i64 (\<Sum>mu\<leftarrow>me_models m. if priced_as False mu then micro_or_zero ut (mm_costUSD mu) else 0) \<and>
       a_notionalCostMicroUSD (d_usage d) =
         i64 (\<Sum>mu\<leftarrow>me_models m. if priced_as True mu then micro_or_zero ut (mm_costUSD mu) else 0))"
proof (cases "\<exists>s. u = Some s \<and> is_metered s")
  case False
  show ?thesis
  proof (cases u)
    case None
    then show ?thesis
      by (simp add: d_def UsageDeltaFrom_def Let_def Trusted_def Tokens_def aggregate_tokens_def
          no_aggregate_def i64_def)
  next
    case (Some s)
    then have m: "\<not> is_metered s" using False by simp
    obtain c e where "(case ParseCostMicroUSD ut (us_costUSD s) of Inr n \<Rightarrow> (n, None) | Inl e \<Rightarrow> (0, Some e)) = (c, e)"
      by (metis prod.exhaust)
    then have "\<exists>tok. d = \<lparr>d_kind = kind, d_completedAt = t, d_intent = [], d_project = [],
        d_source = SourceReported,
        d_usage = no_aggregate\<lparr>a_runs := 1, a_reportedRuns := 1, a_reportedTokens := tok,
                    a_reportedCostMicroUSD := c\<rparr>\<rparr>"
      using Some m by (simp add: d_def UsageDeltaFrom_def Let_def no_aggregate_def)
    then show ?thesis
      using Some m by (auto simp: Trusted_def Tokens_def aggregate_tokens_def no_aggregate_def i64_def)
  qed
next
  case True
  then obtain s m where s: "u = Some s" "is_metered s" "us_measured s = Some m" by (auto simp: is_metered_def)
  define u0 where "u0 = metered_fields s m (no_aggregate\<lparr>a_runs := 1\<rparr>)"
  obtain v e b where st0: "price_unsplit ut m u0 = ((v, e), b)" by (metis prod.exhaust)
  obtain v' e' b' where f: "fold (price_model ut) (me_models m) ((v, e), b) = ((v', e'), b')" by (metis prod.exhaust)
  have d: "d = \<lparr>d_kind = kind, d_completedAt = t, d_intent = [], d_project = [], d_source = us_source s,
      d_usage = (if b' then v'\<lparr>a_unpricedRuns := 1\<rparr> else v')\<rparr>"
    using s f st0 by (simp add: d_def UsageDeltaFrom_def Let_def u0_def)
  have z: "a_costMicroUSD u0 = 0" "a_notionalCostMicroUSD u0 = 0"
    by (simp_all add: u0_def metered_fields_def no_aggregate_def)
  have "v = fst (fst (price_unsplit ut m u0))" by (simp add: st0)
  then have "\<exists>x y. v = u0\<lparr>a_costMicroUSD := i64 x, a_notionalCostMicroUSD := i64 y\<rparr> \<and>
      (me_models m \<noteq> [] \<longrightarrow> x = 0 \<and> y = 0)"
  proof (cases "me_models m = [] \<and> me_costUSD m \<noteq> []")
    case True
    then have v: "v = fst (price ut (me_costUSD m) (me_pricing m) (u0, None))"
      using \<open>v = _\<close> by (simp add: price_unsplit_def)
    let ?c = "micro_or_zero ut (me_costUSD m)"
    show ?thesis
      by (rule exI [of _ "if me_pricing m = PricingSubscription then 0 else ?c"],
          rule exI [of _ "if me_pricing m = PricingSubscription then ?c else 0"])
        (use True z in \<open>simp add: v price_fst i64_zero\<close>)
  next
    case False
    then have "v = u0" using \<open>v = _\<close> by (auto simp: price_unsplit_def)
    then show ?thesis by (intro exI [of _ 0]) (use z in \<open>simp add: i64_zero\<close>)
  qed
  then obtain x y where xy: "v = u0\<lparr>a_costMicroUSD := i64 x, a_notionalCostMicroUSD := i64 y\<rparr>"
      "me_models m \<noteq> [] \<longrightarrow> x = 0 \<and> y = 0" by blast
  have "Trusted d" using d s(2) by (simp add: Trusted_def is_metered_def)
  moreover have "v' = u0\<lparr>a_costMicroUSD := i64 (x + (\<Sum>mu\<leftarrow>me_models m. if priced_as False mu then micro_or_zero ut (mm_costUSD mu) else 0)),
      a_notionalCostMicroUSD := i64 (y + (\<Sum>mu\<leftarrow>me_models m. if priced_as True mu then micro_or_zero ut (mm_costUSD mu) else 0))\<rparr>"
    using fold_price_model [OF f, of x y] by (simp add: xy(1))
  ultimately show ?thesis
    using xy(2) d s by (auto simp: u0_def metered_fields_def no_aggregate_def)
qed

definition demo_usage :: usage_summary where
  "demo_usage = \<lparr>us_inputTokens = 1, us_outputTokens = 1, us_cacheReadTokens = 0, us_cacheCreationTokens = 0,
     us_costUSD = ''9'', us_source = SourceMeasured, us_final = True,
     us_measured = Some \<lparr>me_inputTokens = 70, me_outputTokens = 30, me_cacheReadTokens = 0,
       me_cacheWriteTokens = 0, me_estimatedShortfallTokens = 5, me_costUSD = [], me_pricing = PricingUnset,
       me_models = [\<lparr>mm_inputTokens = 70, mm_outputTokens = 30, mm_cacheReadTokens = 0,
         mm_cacheWrite5mTokens = 0, mm_cacheWrite1hTokens = 0, mm_costUSD = ''0.25'',
         mm_pricing = PricingList\<rparr>]\<rparr>\<rparr>"

lemma UsageDeltaFrom_trusted_xor_reported_witness:
  "a_costMicroUSD (d_usage (fst (UsageDeltaFrom (\<lambda>s. s) ''plan'' (Some demo_usage) 0))) = 250000"
proof -
  obtain m where m: "us_measured demo_usage = Some m" "is_metered demo_usage" "me_models m \<noteq> []"
      "(\<Sum>mu\<leftarrow>me_models m. if priced_as False mu then micro_or_zero (\<lambda>s. s) (mm_costUSD mu) else 0) = 250000"
  proof
    have "list_all is_ascii ''0.25''" by (simp add: is_ascii_def)
    then show "(\<Sum>mu\<leftarrow>me_models (the (us_measured demo_usage)).
        if priced_as False mu then micro_or_zero (\<lambda>s. s) (mm_costUSD mu) else 0) = 250000"
      by (simp add: demo_usage_def priced_as_def micro_or_zero_def ParseCostMicroUSD_def trim_space_def
          is_space_def is_digit_def digit_val_def i64_def tdiv_def)
  qed (simp_all add: demo_usage_def is_metered_def)
  then show ?thesis
    using UsageDeltaFrom_trusted_xor_reported [OF refl, of "\<lambda>s. s" "''plan''" "Some demo_usage" 0]
    by (simp add: i64_def)
qed

end
