(* ===== verification/Finding.thy ===== *)
theory Finding
  imports ApiTypes
begin

text \<open>
  \<open>api/v1alpha1/transitions.go\<close>: the table of legal phase edges, the terminal phases, the retry
  helpers, and \<open>SetPhase\<close>, the only function that moves a Finding between phases. The state is the
  \<open>finding\<close> record; \<open>finding_log_ok\<close> is the invariant every successful \<open>SetPhase\<close> keeps: the phase
  log is a legal path that ends in the current phase, and the completion time is set exactly in the
  terminal phases.
\<close>

subsection \<open>The edge table\<close>

fun transitions :: "phase \<Rightarrow> phase list" where
  "transitions PhaseNone = [PhaseOpened]"
| "transitions PhaseOpened = [PhaseEnhanced, PhaseHandedOff]"
| "transitions PhaseEnhanced = [PhaseInvestigating, PhaseHandedOff]"
| "transitions PhaseInvestigating =
     [PhaseEnhanced, PhaseQueued, PhaseAwaitingApproval, PhaseDismissed, PhaseHandedOff, PhaseFailed]"
| "transitions PhaseQueued = [PhaseRemediating, PhaseHandedOff]"
| "transitions PhaseAwaitingApproval = [PhaseQueued, PhaseHandedOff]"
| "transitions PhaseRemediating = [PhaseQueued, PhaseInReview, PhaseHandedOff, PhaseFailed]"
| "transitions PhaseInReview = [PhaseRemediated, PhaseFailed, PhaseHandedOff]"
| "transitions PhaseRemediated = []"
| "transitions PhaseFailed = [PhaseEnhanced, PhaseQueued]"
| "transitions PhaseDismissed = [PhaseHandedOff]"
| "transitions PhaseHandedOff = [PhaseQueued]"

fun Terminal :: "phase \<Rightarrow> bool" where
  "Terminal PhaseRemediated = True"
| "Terminal PhaseFailed = True"
| "Terminal PhaseDismissed = True"
| "Terminal PhaseHandedOff = True"
| "Terminal _ = False"

definition CanTransition :: "phase \<Rightarrow> phase \<Rightarrow> bool" where
  "CanTransition p q \<longleftrightarrow> p = q \<or> q \<in> set (transitions p)"

subsection \<open>Retry\<close>

definition lastUnfailed :: "phase_time list \<Rightarrow> phase" where
  "lastUnfailed log =
     fold (\<lambda>pt prior. if pt_phase pt = PhaseFailed then prior else pt_phase pt) log PhaseNone"

definition RetryTarget :: "finding \<Rightarrow> phase" where
  "RetryTarget f =
     (if phase (status f) \<noteq> PhaseFailed then PhaseNone
      else (case lastUnfailed (phaseTimes (status f)) of
              PhaseInvestigating \<Rightarrow> PhaseEnhanced
            | PhaseRemediating \<Rightarrow> PhaseQueued
            | PhaseInReview \<Rightarrow> PhaseQueued
            | _ \<Rightarrow> PhaseNone))"

definition RetryRequested :: "finding \<Rightarrow> bool" where
  "RetryRequested f =
     (case spec_retry (spec f) of
        None \<Rightarrow> False
      | Some r \<Rightarrow> (case completedAt (status f) of None \<Rightarrow> True | Some t \<Rightarrow> t < ar_at r))"

subsection \<open>SetPhase\<close>

datatype error =
    IllegalTransition phase phase
  | OtherError string

definition SetPhase :: "finding \<Rightarrow> phase \<Rightarrow> time \<Rightarrow> error + finding" where
  "SetPhase f to now =
     (let from = phase (status f) in
      if \<not> CanTransition from to then Inl (IllegalTransition from to)
      else if from = to then Inr f
      else Inr (f\<lparr>status := (status f)
             \<lparr>phase := to,
              phaseTimes := phaseTimes (status f) @ [\<lparr>pt_phase = to, pt_at = now\<rparr>],
              completedAt := (if Terminal to then Some now else None)\<rparr>\<rparr>))"

subsection \<open>The log invariant\<close>

text \<open>
  \<open>legal_log p log\<close>: entered one after the other from phase \<open>p\<close>, the phases of the log are each one
  edge of the table away from the one before.
\<close>

fun legal_log :: "phase \<Rightarrow> phase_time list \<Rightarrow> bool" where
  "legal_log p [] = True"
| "legal_log p (pt # log) =
     (pt_phase pt \<noteq> p \<and> pt_phase pt \<in> set (transitions p) \<and> legal_log (pt_phase pt) log)"

fun log_phase :: "phase \<Rightarrow> phase_time list \<Rightarrow> phase" where
  "log_phase p [] = p"
| "log_phase p (pt # log) = log_phase (pt_phase pt) log"

definition finding_log_ok :: "finding \<Rightarrow> bool" where
  "finding_log_ok f \<longleftrightarrow>
     legal_log PhaseNone (phaseTimes (status f)) \<and>
     phase (status f) = log_phase PhaseNone (phaseTimes (status f)) \<and>
     completedAt (status f) =
       (if Terminal (phase (status f)) then Some (pt_at (last (phaseTimes (status f)))) else None)"

definition fresh_status :: finding_status where
  "fresh_status = \<lparr>phase = PhaseNone, phaseTimes = [], conditions = [], firstObservedAt = None,
     accumulateUntil = None, tracking = None, enrichments = [], owners = [], priority = LevelNone,
     investigation = None, remediation = None, pullRequest = None,
     attempts = \<lparr>att_investigation = 0, att_remediation = 0\<rparr>, activeRun = None, forge = None,
     lastFailureReason = [], completedAt = None, credentialHold = None,
     credentialHoldProvider = []\<rparr>"

lemma legal_log_snoc:
  "legal_log p (log @ [pt]) \<longleftrightarrow>
     legal_log p log \<and> pt_phase pt \<noteq> log_phase p log \<and> pt_phase pt \<in> set (transitions (log_phase p log))"
  by (induction p log rule: legal_log.induct) auto

lemma log_phase_snoc [simp]: "log_phase p (log @ [pt]) = pt_phase pt"
  by (induction p log rule: log_phase.induct) auto

lemma lastUnfailed_snoc [simp]:
  "lastUnfailed (log @ [pt]) = (if pt_phase pt = PhaseFailed then lastUnfailed log else pt_phase pt)"
  by (simp add: lastUnfailed_def)

lemma lastUnfailed_legal:
  "legal_log PhaseNone log \<Longrightarrow> log_phase PhaseNone log \<noteq> PhaseFailed \<Longrightarrow>
   lastUnfailed log = log_phase PhaseNone log"
  by (induction log rule: rev_induct) (auto simp: legal_log_snoc lastUnfailed_def)

lemma into_failed:
  "PhaseFailed \<in> set (transitions p) \<Longrightarrow> p \<in> {PhaseInvestigating, PhaseRemediating, PhaseInReview}"
  by (cases p) auto

lemma finding_log_ok_fresh: "status f = fresh_status \<Longrightarrow> finding_log_ok f"
  by (simp add: finding_log_ok_def fresh_status_def)

lemma SetPhase_Inr:
  "SetPhase f to now = Inr g \<longleftrightarrow>
     (phase (status f) = to \<and> g = f) \<or>
     (phase (status f) \<noteq> to \<and> to \<in> set (transitions (phase (status f))) \<and>
      g = f\<lparr>status := (status f)
             \<lparr>phase := to,
              phaseTimes := phaseTimes (status f) @ [\<lparr>pt_phase = to, pt_at = now\<rparr>],
              completedAt := (if Terminal to then Some now else None)\<rparr>\<rparr>)"
  by (auto simp: SetPhase_def CanTransition_def Let_def)

lemma SetPhase_legal:
  "to \<in> set (transitions (phase (status f))) \<Longrightarrow> \<exists>g. SetPhase f to now = Inr g"
  by (simp add: SetPhase_def CanTransition_def Let_def)

lemma SetPhase_phase: "SetPhase f to now = Inr g \<Longrightarrow> phase (status g) = to"
  by (auto simp: SetPhase_Inr)

lemma SetPhase_spec: "SetPhase f to now = Inr g \<Longrightarrow> spec g = spec f"
  by (auto simp: SetPhase_Inr)

lemma SetPhase_log_ok:
  "finding_log_ok f \<Longrightarrow> SetPhase f to now = Inr g \<Longrightarrow> finding_log_ok g"
  by (auto simp: SetPhase_Inr finding_log_ok_def legal_log_snoc)

text \<open>
  The invariant looks only at the phase, its log and the completion time, so an update of any other
  field keeps it.
\<close>

lemma finding_log_ok_cong:
  "phase (status g) = phase (status f) \<Longrightarrow> phaseTimes (status g) = phaseTimes (status f) \<Longrightarrow>
   completedAt (status g) = completedAt (status f) \<Longrightarrow> finding_log_ok g = finding_log_ok f"
  by (simp add: finding_log_ok_def)

lemma failed_log_prior:
  assumes "finding_log_ok f" "phase (status f) = PhaseFailed"
  shows "lastUnfailed (phaseTimes (status f)) \<in>
           {PhaseInvestigating, PhaseRemediating, PhaseInReview}"
proof -
  obtain log pt where log: "phaseTimes (status f) = log @ [pt]"
    using assms by (cases "phaseTimes (status f)" rule: rev_cases) (auto simp: finding_log_ok_def)
  then have ok: "legal_log PhaseNone log" "pt_phase pt = PhaseFailed"
      "log_phase PhaseNone log \<noteq> PhaseFailed" "PhaseFailed \<in> set (transitions (log_phase PhaseNone log))"
    using assms by (auto simp: finding_log_ok_def legal_log_snoc)
  then have "lastUnfailed (log @ [pt]) = log_phase PhaseNone log"
    using lastUnfailed_legal by simp
  then show ?thesis using into_failed [OF ok(4)] log by simp
qed

lemma RetryTarget_not_failed: "phase (status f) \<noteq> PhaseFailed \<Longrightarrow> RetryTarget f = PhaseNone"
  by (simp add: RetryTarget_def)

lemma RetryTarget_values: "RetryTarget f \<in> {PhaseNone, PhaseEnhanced, PhaseQueued}"
  by (auto simp: RetryTarget_def split: phase.splits)

end
