(* ===== verification/FindingStats.thy ===== *)
theory FindingStats
  imports UsageStats Finding
begin

text \<open>
  The arithmetic of the FindingRollups (\<open>internal/stats/stats.go\<close>, the types of
  \<open>api/v1alpha1/findingrollup_types.go\<close>): the contribution of one agent run and of one finding, and
  their application to a rollup under the exactly-once ledger. A histogram is an association list with
  distinct keys; every int64 sum goes through \<open>i64\<close>.
\<close>

subsection \<open>A run's contribution\<close>

record stage_report = stage_result +
  sr_numTurns :: int
  sr_usage :: usage_summary
  sr_elapsedMilliseconds :: int

record estimate_delta =
  ed_predictedTurns :: int
  ed_actualTurns :: int
  ed_predictedOutputTokens :: int
  ed_actualOutputTokens :: int

record stage_delta =
  sd_stage :: string
  sd_outcome :: string
  sd_succeeded :: bool
  sd_harness :: string
  sd_model :: string
  sd_inputTokens :: int
  sd_outputTokens :: int
  sd_cacheReadTokens :: int
  sd_cacheCreationTokens :: int
  sd_costMicroUSD :: int
  sd_elapsedMilliseconds :: int
  sd_turns :: int
  sd_estimate :: "estimate_delta option"

definition no_stage :: "string \<Rightarrow> bool \<Rightarrow> stage_delta" where
  "no_stage stage succeeded = \<lparr>sd_stage = stage, sd_outcome = ''aborted'', sd_succeeded = succeeded,
     sd_harness = [], sd_model = [], sd_inputTokens = 0, sd_outputTokens = 0, sd_cacheReadTokens = 0,
     sd_cacheCreationTokens = 0, sd_costMicroUSD = 0, sd_elapsedMilliseconds = 0, sd_turns = 0,
     sd_estimate = None\<rparr>"

definition StageDeltaFrom :: "(string \<Rightarrow> string) \<Rightarrow> string \<Rightarrow> stage_report option \<Rightarrow> bool
    \<Rightarrow> agent_estimate option \<Rightarrow> stage_delta \<times> cost_error option" where
  "StageDeltaFrom ut stage sto succeeded est =
     (let d = no_stage stage succeeded in
      case sto of None \<Rightarrow> (d, None) | Some st \<Rightarrow>
       (case ParseCostMicroUSD ut (us_costUSD (sr_usage st)) of
          Inl e \<Rightarrow> (d, Some e)
        | Inr c \<Rightarrow>
           (d\<lparr>sd_outcome := (if sr_outcome st \<noteq> [] then sr_outcome st else sd_outcome d),
              sd_harness := sr_harness st, sd_model := sr_model st,
              sd_inputTokens := us_inputTokens (sr_usage st),
              sd_outputTokens := us_outputTokens (sr_usage st),
              sd_cacheReadTokens := us_cacheReadTokens (sr_usage st),
              sd_cacheCreationTokens := us_cacheCreationTokens (sr_usage st),
              sd_costMicroUSD := c, sd_elapsedMilliseconds := sr_elapsedMilliseconds st,
              sd_turns := sr_numTurns st,
              sd_estimate := (case est of None \<Rightarrow> None | Some e \<Rightarrow>
                 if 0 < est_maxTurns e \<or> 0 < est_tokenBudget e
                 then Some \<lparr>ed_predictedTurns = est_maxTurns e, ed_actualTurns = sr_numTurns st,
                            ed_predictedOutputTokens = est_tokenBudget e,
                            ed_actualOutputTokens = us_outputTokens (sr_usage st)\<rparr>
                 else None)\<rparr>, None)))"

subsection \<open>Buckets\<close>

type_synonym histogram = "(string \<times> int) list"

definition bump :: "string \<Rightarrow> int \<Rightarrow> histogram \<Rightarrow> histogram" where
  "bump k n h = AList.update k (i64 (at_key h k 0 + n)) h"

record estimate_aggregate =
  ea_runs :: int
  ea_predictedTurns :: int
  ea_actualTurns :: int
  ea_predictedOutputTokens :: int
  ea_actualOutputTokens :: int

record stage_aggregate =
  sg_runs :: int
  sg_succeeded :: int
  sg_outcomes :: histogram
  sg_inputTokens :: int
  sg_outputTokens :: int
  sg_cacheReadTokens :: int
  sg_cacheCreationTokens :: int
  sg_costMicroUSD :: int
  sg_elapsedMilliseconds :: int
  sg_turns :: int
  sg_estimate :: "estimate_aggregate option"

record rollup_bucket =
  rb_findings :: int
  rb_phases :: histogram
  rb_recommendations :: histogram
  rb_attempts :: int
  rb_stages :: "(string \<times> stage_aggregate) list"

record monthly_bucket =
  mo_findings :: int
  mo_runs :: int
  mo_costMicroUSD :: int

record finding_rollup_status =
  fr_schema :: int
  fr_first :: "time option"
  fr_last :: "time option"
  fr_bucket :: rollup_bucket
  fr_monthly :: "(string \<times> monthly_bucket) list"
  fr_recent :: "string list"

definition RollupSchemaVersion :: int where "RollupSchemaVersion = 2"

definition new_stage_aggregate :: stage_aggregate where
  "new_stage_aggregate = \<lparr>sg_runs = 0, sg_succeeded = 0, sg_outcomes = [], sg_inputTokens = 0,
     sg_outputTokens = 0, sg_cacheReadTokens = 0, sg_cacheCreationTokens = 0, sg_costMicroUSD = 0,
     sg_elapsedMilliseconds = 0, sg_turns = 0, sg_estimate = None\<rparr>"

definition new_monthly :: monthly_bucket where
  "new_monthly = \<lparr>mo_findings = 0, mo_runs = 0, mo_costMicroUSD = 0\<rparr>"

definition new_finding_rollup :: finding_rollup_status where
  "new_finding_rollup = \<lparr>fr_schema = 0, fr_first = None, fr_last = None,
     fr_bucket = \<lparr>rb_findings = 0, rb_phases = [], rb_recommendations = [], rb_attempts = 0, rb_stages = []\<rparr>,
     fr_monthly = [], fr_recent = []\<rparr>"

definition add_estimate :: "estimate_delta option \<Rightarrow> estimate_aggregate option \<Rightarrow> estimate_aggregate option" where
  "add_estimate d cur =
     (case d of None \<Rightarrow> cur | Some e \<Rightarrow>
       (let est = (case cur of Some x \<Rightarrow> x | None \<Rightarrow>
              \<lparr>ea_runs = 0, ea_predictedTurns = 0, ea_actualTurns = 0, ea_predictedOutputTokens = 0,
               ea_actualOutputTokens = 0\<rparr>)
        in Some \<lparr>ea_runs = i64 (ea_runs est + 1),
                 ea_predictedTurns = i64 (ea_predictedTurns est + ed_predictedTurns e),
                 ea_actualTurns = i64 (ea_actualTurns est + ed_actualTurns e),
                 ea_predictedOutputTokens = i64 (ea_predictedOutputTokens est + ed_predictedOutputTokens e),
                 ea_actualOutputTokens = i64 (ea_actualOutputTokens est + ed_actualOutputTokens e)\<rparr>))"

definition add_stage :: "stage_aggregate \<Rightarrow> stage_delta \<Rightarrow> stage_aggregate" where
  "add_stage g d =
     \<lparr>sg_runs = i64 (sg_runs g + 1),
      sg_succeeded = (if sd_succeeded d then i64 (sg_succeeded g + 1) else sg_succeeded g),
      sg_outcomes = bump (sd_outcome d) 1 (sg_outcomes g),
      sg_inputTokens = i64 (sg_inputTokens g + sd_inputTokens d),
      sg_outputTokens = i64 (sg_outputTokens g + sd_outputTokens d),
      sg_cacheReadTokens = i64 (sg_cacheReadTokens g + sd_cacheReadTokens d),
      sg_cacheCreationTokens = i64 (sg_cacheCreationTokens g + sd_cacheCreationTokens d),
      sg_costMicroUSD = i64 (sg_costMicroUSD g + sd_costMicroUSD d),
      sg_elapsedMilliseconds = i64 (sg_elapsedMilliseconds g + sd_elapsedMilliseconds d),
      sg_turns = i64 (sg_turns g + sd_turns d),
      sg_estimate = add_estimate (sd_estimate d) (sg_estimate g)\<rparr>"

definition applyStage :: "rollup_bucket \<Rightarrow> stage_delta \<Rightarrow> rollup_bucket" where
  "applyStage b d =
     b\<lparr>rb_stages := AList.update (sd_stage d)
         (add_stage (at_key (rb_stages b) (sd_stage d) new_stage_aggregate) d) (rb_stages b)\<rparr>"

subsection \<open>Calibration\<close>

record calibration =
  cal_scope :: string
  cal_runs :: int
  cal_predictedTurns :: int
  cal_actualTurns :: int
  cal_predictedOutputTokens :: int
  cal_actualOutputTokens :: int

definition MinCalibrationRuns :: int where "MinCalibrationRuns = 3"

definition CalibrationFrom :: "finding_rollup_status option \<Rightarrow> string \<Rightarrow> calibration option" where
  "CalibrationFrom sto scope =
     (case sto of None \<Rightarrow> None | Some st \<Rightarrow>
       (case map_of (rb_stages (fr_bucket st)) ''remediation'' of None \<Rightarrow> None | Some agg \<Rightarrow>
         (case sg_estimate agg of None \<Rightarrow> None | Some e \<Rightarrow>
            if ea_runs e < MinCalibrationRuns then None
            else Some \<lparr>cal_scope = scope, cal_runs = ea_runs e,
                       cal_predictedTurns = tdiv (ea_predictedTurns e) (ea_runs e),
                       cal_actualTurns = tdiv (ea_actualTurns e) (ea_runs e),
                       cal_predictedOutputTokens = tdiv (ea_predictedOutputTokens e) (ea_runs e),
                       cal_actualOutputTokens = tdiv (ea_actualOutputTokens e) (ea_runs e)\<rparr>)))"

subsection \<open>A finding's contribution\<close>

record finding_delta =
  fd_phase :: string
  fd_prevPhase :: string
  fd_recommendation :: string
  fd_prevRecommendation :: string
  fd_attempts :: int
  fd_count :: bool
  fd_uncount :: bool
  fd_first :: bool

definition drop_one :: "string \<Rightarrow> histogram \<Rightarrow> histogram" where
  "drop_one k h = (if k \<noteq> [] \<and> 0 < at_key h k 0 then bump k (- 1) h else h)"

definition add_one :: "string \<Rightarrow> histogram \<Rightarrow> histogram" where
  "add_one k h = (if k \<noteq> [] then bump k 1 h else h)"

definition applyFinding :: "rollup_bucket \<Rightarrow> finding_delta \<Rightarrow> rollup_bucket" where
  "applyFinding b d =
     (let f1 = (if fd_count d then i64 (rb_findings b + 1) else rb_findings b);
          f2 = (if fd_uncount d \<and> 0 < f1 then i64 (f1 - 1) else f1)
      in b\<lparr>rb_findings := f2,
           rb_phases := add_one (fd_phase d) (drop_one (fd_prevPhase d) (rb_phases b)),
           rb_recommendations :=
             add_one (fd_recommendation d) (drop_one (fd_prevRecommendation d) (rb_recommendations b)),
           rb_attempts := i64 (rb_attempts b + fd_attempts d)\<rparr>)"

fun phase_string :: "phase \<Rightarrow> string" where
  "phase_string PhaseNone = []"
| "phase_string PhaseOpened = ''Opened''"
| "phase_string PhaseEnhanced = ''Enhanced''"
| "phase_string PhaseInvestigating = ''Investigating''"
| "phase_string PhaseQueued = ''Queued''"
| "phase_string PhaseAwaitingApproval = ''AwaitingApproval''"
| "phase_string PhaseRemediating = ''Remediating''"
| "phase_string PhaseInReview = ''InReview''"
| "phase_string PhaseRemediated = ''Remediated''"
| "phase_string PhaseFailed = ''Failed''"
| "phase_string PhaseDismissed = ''Dismissed''"
| "phase_string PhaseHandedOff = ''HandedOff''"

definition PhaseKey :: "phase \<Rightarrow> string" where
  "PhaseKey p = map ascii_lower (phase_string p)"

subsection \<open>Scopes\<close>

datatype rollup_scope_type = ScopeTotal | ScopeRepository | ScopeHarness | ScopeModel

record rollup_scope =
  rsc_type :: rollup_scope_type
  rsc_key :: string

fun rollup_scope_name :: "rollup_scope_type \<Rightarrow> string" where
  "rollup_scope_name ScopeTotal = ''total''"
| "rollup_scope_name ScopeRepository = ''repository''"
| "rollup_scope_name ScopeHarness = ''harness''"
| "rollup_scope_name ScopeModel = ''model''"

definition name_char :: "char \<Rightarrow> bool" where
  "name_char c \<longleftrightarrow> is_lower c \<or> is_digit c \<or> c = CHR ''-''"

definition sanitizeName :: "(string \<Rightarrow> string) \<Rightarrow> string \<Rightarrow> string" where
  "sanitizeName ul s =
     (let b = map (\<lambda>c. if name_char c then c else CHR ''-'') (to_lower ul s);
          out = rev (dropWhile (\<lambda>c. c = CHR ''-'') (rev (dropWhile (\<lambda>c. c = CHR ''-'') b)));
          out1 = (if out = [] then ''x'' else out)
      in if 40 < length out1 then take 40 out1 else out1)"

definition ScopeObjectName :: "(string \<Rightarrow> string) \<Rightarrow> (string \<Rightarrow> string) \<Rightarrow> rollup_scope \<Rightarrow> string" where
  "ScopeObjectName ul sha sc =
     (case rsc_type sc of
        ScopeTotal \<Rightarrow> ''total''
      | ScopeRepository \<Rightarrow> ''repo-'' @ sha (rsc_key sc)
      | t \<Rightarrow> rollup_scope_name t @ ''-'' @ sanitizeName ul (rsc_key sc))"

subsection \<open>Application\<close>

datatype rollup_delta = StageContribution stage_delta | FindingContribution finding_delta

record rollup_op =
  ro_delta :: rollup_delta
  ro_now :: time
  ro_month :: string

definition bump_month :: "(string \<times> monthly_bucket) list \<Rightarrow> string \<Rightarrow> rollup_delta
    \<Rightarrow> (string \<times> monthly_bucket) list" where
  "bump_month ms month d =
     (let m = at_key ms month new_monthly in
      case d of
        StageContribution s \<Rightarrow>
          if month = [] then ms
          else AList.update month (m\<lparr>mo_runs := i64 (mo_runs m + 1),
                 mo_costMicroUSD := i64 (mo_costMicroUSD m + sd_costMicroUSD s)\<rparr>) ms
      | FindingContribution f \<Rightarrow>
          if month \<noteq> [] \<and> fd_first f
          then AList.update month (m\<lparr>mo_findings := i64 (mo_findings m + 1)\<rparr>) ms else ms)"

definition Apply :: "finding_rollup_status \<Rightarrow> string \<Rightarrow> rollup_op \<Rightarrow> finding_rollup_status \<times> bool" where
  "Apply st ledgerKey c =
     (if ledgerKey \<in> set (fr_recent st) then (st, False)
      else (\<lparr>fr_schema = max (fr_schema st) RollupSchemaVersion,
             fr_first = (if fr_first st = None then Some (ro_now c) else fr_first st),
             fr_last = Some (ro_now c),
             fr_bucket = (case ro_delta c of
                StageContribution s \<Rightarrow> applyStage (fr_bucket st) s
              | FindingContribution f \<Rightarrow> applyFinding (fr_bucket st) f),
             fr_monthly = bump_month (fr_monthly st) (ro_month c) (ro_delta c),
             fr_recent = push_recent (fr_recent st) ledgerKey\<rparr>, True))"

interpretation finding_once: once_ledger fr_recent Apply
  by unfold_locales (simp_all add: Apply_def)

definition rollup_run :: "finding_rollup_status \<Rightarrow> (string \<times> rollup_op) list \<Rightarrow> finding_rollup_status" where
  "rollup_run st ops = foldl (\<lambda>s (k, c). fst (Apply s k c)) st ops"

lemma rollup_run_all: "rollup_run = finding_once.run_all"
  by (intro ext) (simp add: rollup_run_def finding_once.run_all_def)

subsection \<open>Histograms\<close>

lemma at_key_update: "at_key (AList.update k v m) j z = (if j = k then v else at_key m j z)"
  by (simp add: at_key_def update_conv)

lemma at_key_bump: "at_key (bump k n h) j 0 = (if j = k then i64 (at_key h k 0 + n) else at_key h j 0)"
  by (simp add: bump_def at_key_update)

lemma at_key_add_one:
  "at_key (add_one k h) j 0 = (if j = k \<and> k \<noteq> [] then i64 (at_key h k 0 + 1) else at_key h j 0)"
  by (simp add: add_one_def at_key_bump)

lemma at_key_drop_one:
  "at_key (drop_one k h) j 0 =
     (if j = k \<and> k \<noteq> [] \<and> 0 < at_key h k 0 then i64 (at_key h k 0 - 1) else at_key h j 0)"
  by (simp add: drop_one_def at_key_bump)

text \<open>
  A replayed contribution is ignored. Once a run's or a finding's contribution is in a rollup, the
  same key changes nothing and reports that it was already applied, whatever delta, time or month it
  comes with and whatever at most 511 other contributions were folded in since.
\<close>

theorem rollup_replay_ignored:
  assumes "k \<notin> set (fr_recent st)" "length ops \<le> 511"
  shows "Apply (rollup_run (fst (Apply st k c)) ops) k c' = (rollup_run (fst (Apply st k c)) ops, False)"
  unfolding rollup_run_all by (rule finding_once.replay_ignored [OF assms])

definition demo_op :: "string \<Rightarrow> rollup_op" where
  "demo_op stage = \<lparr>ro_delta = StageContribution (no_stage stage True), ro_now = 0, ro_month = ''1970-01''\<rparr>"

lemma rollup_replay_ignored_witness:
  "snd (Apply (rollup_run (fst (Apply new_finding_rollup ''i:1'' (demo_op ''investigation'')))
     [(''i:2'', demo_op ''remediation'')]) ''i:1'' (demo_op ''remediation'')) = False"
  using rollup_replay_ignored [of "''i:1''" new_finding_rollup "[(''i:2'', demo_op ''remediation'')]"
      "demo_op ''investigation''" "demo_op ''remediation''"]
  by (simp add: new_finding_rollup_def)

end
