(* ===== verification/FindingRollup.thy ===== *)
theory FindingRollup
  imports FindingStats
begin

text \<open>
  The rollup reconciler (\<open>internal/controller/rollup/rollup_controller.go\<close>): the scopes a run and a
  finding contribute to, the marker a finding's scope condition carries, the counting and reversal of
  terminal findings, the finalizers and the TTL. The cluster's FindingRollups are a map from object
  names; each write of one goes through \<open>applyScope\<close>. What the API server does to a call is an argument:
  \<open>CallOk\<close>, a refusal before any effect, a create whose next call fails, a write whose answer is lost.
  A conflict on a rollup is retried on the fresh object, so the call modelled is the attempt that ends
  the retry; a conflict on the finding's own status ends the reconcile, with what it wrote to the
  rollups in place.
\<close>

subsection \<open>Names\<close>

abbreviation ConditionRolledUpTotal :: string where "ConditionRolledUpTotal \<equiv> ''RolledUpTotal''"
abbreviation ConditionRolledUpRepository :: string where
  "ConditionRolledUpRepository \<equiv> ''RolledUpRepository''"
abbreviation ConditionRolledUpHarness :: string where "ConditionRolledUpHarness \<equiv> ''RolledUpHarness''"
abbreviation ConditionRolledUpModel :: string where "ConditionRolledUpModel \<equiv> ''RolledUpModel''"
abbreviation FinalizerRollupTotal :: string where "FinalizerRollupTotal \<equiv> ''maul.run/rollup-total''"
abbreviation FinalizerRollupRepository :: string where
  "FinalizerRollupRepository \<equiv> ''maul.run/rollup-repository''"
abbreviation FinalizerRollupHarness :: string where "FinalizerRollupHarness \<equiv> ''maul.run/rollup-harness''"
abbreviation FinalizerRollupModel :: string where "FinalizerRollupModel \<equiv> ''maul.run/rollup-model''"

record scope_target =
  tg_scope :: rollup_scope
  tg_condition :: string
  tg_finalizer :: string

definition total_target :: scope_target where
  "total_target = \<lparr>tg_scope = \<lparr>rsc_type = ScopeTotal, rsc_key = []\<rparr>,
     tg_condition = ConditionRolledUpTotal, tg_finalizer = FinalizerRollupTotal\<rparr>"

definition repo_target :: "string \<Rightarrow> scope_target" where
  "repo_target repoKey = \<lparr>tg_scope = \<lparr>rsc_type = ScopeRepository, rsc_key = repoKey\<rparr>,
     tg_condition = ConditionRolledUpRepository, tg_finalizer = FinalizerRollupRepository\<rparr>"

definition childScopes :: "string \<Rightarrow> string \<Rightarrow> string \<Rightarrow> scope_target list" where
  "childScopes repoKey harn mdl =
     [total_target, repo_target repoKey,
      \<lparr>tg_scope = \<lparr>rsc_type = ScopeHarness, rsc_key = harn\<rparr>,
       tg_condition = ConditionRolledUpHarness, tg_finalizer = FinalizerRollupHarness\<rparr>,
      \<lparr>tg_scope = \<lparr>rsc_type = ScopeModel, rsc_key = mdl\<rparr>,
       tg_condition = ConditionRolledUpModel, tg_finalizer = FinalizerRollupModel\<rparr>]"

definition findingScopes :: "string \<Rightarrow> scope_target list" where
  "findingScopes repoKey = [total_target, repo_target repoKey]"

subsection \<open>The counted marker\<close>

definition countedMarker :: "string \<Rightarrow> int \<Rightarrow> string \<Rightarrow> string" where
  "countedMarker ph sq rc = ''phase='' @ ph @ '';seq='' @ show_int sq @ '';rec='' @ rc"

text \<open>\<open>strconv.Atoi\<close> with its error dropped: 0 for a syntax error, the nearest int out of range.\<close>

definition atoi :: "string \<Rightarrow> int" where
  "atoi s =
     (case (case s of
              [] \<Rightarrow> None
            | c # cs \<Rightarrow> if c = CHR ''-'' then map_option uminus (parse_uint10 cs)
                        else if c = CHR ''+'' then parse_uint10 cs else parse_uint10 s) of
        None \<Rightarrow> 0 | Some n \<Rightarrow> max min_int64 (min max_int64 n))"

type_synonym marker = "string \<times> int \<times> string"

definition marker_part :: "string \<Rightarrow> marker \<Rightarrow> marker" where
  "marker_part part mk =
     (case mk of (ph, sq, rc) \<Rightarrow>
       ((case cut_prefix part ''phase='' of Some v \<Rightarrow> v | None \<Rightarrow> ph),
        (case cut_prefix part ''seq='' of Some v \<Rightarrow> atoi v | None \<Rightarrow> sq),
        (case cut_prefix part ''rec='' of Some v \<Rightarrow> v | None \<Rightarrow> rc)))"

definition parseCounted :: "string \<Rightarrow> marker" where
  "parseCounted msg = fold marker_part (split_on (CHR '';'') msg) ([], 0, [])"

subsection \<open>Writing a rollup\<close>

record rollup_object =
  fo_scope :: rollup_scope
  fo_status :: finding_rollup_status

type_synonym rollup_world = "string \<Rightarrow> rollup_object option"

datatype api_call = CallOk | CallRefused string | CallCreated string | CallLost string

datatype update_call = UpdateOk | UpdateConflict | UpdateRefused string

record rollup_env =
  re_meta :: meta_ops
  re_lower :: "string \<Rightarrow> string"
  re_trim :: "string \<Rightarrow> string"
  re_sha :: "string \<Rightarrow> string"
  re_now :: time
  re_ttl :: duration
  re_api :: "rollup_scope \<Rightarrow> api_call"
  re_update :: update_call

definition rollup_name :: "rollup_env \<Rightarrow> rollup_scope \<Rightarrow> string" where
  "rollup_name e sc = ScopeObjectName (re_lower e) (re_sha e) sc"

definition scope_object :: "rollup_env \<Rightarrow> rollup_world \<Rightarrow> rollup_scope \<Rightarrow> rollup_object" where
  "scope_object e w sc =
     (case w (rollup_name e sc) of
        Some ob \<Rightarrow> ob | None \<Rightarrow> \<lparr>fo_scope = sc, fo_status = new_finding_rollup\<rparr>)"

definition applyScope :: "rollup_env \<Rightarrow> rollup_world \<Rightarrow> rollup_scope \<Rightarrow> string \<Rightarrow> rollup_delta \<Rightarrow> string
    \<Rightarrow> rollup_world \<times> string option" where
  "applyScope e w sc ledgerKey delta month =
     (let month' = (if rsc_type sc \<noteq> ScopeTotal then [] else month);
          cur = scope_object e w sc;
          created = w(rollup_name e sc \<mapsto> cur);
          st = fst (Apply (fo_status cur) ledgerKey \<lparr>ro_delta = delta, ro_now = re_now e, ro_month = month'\<rparr>);
          written = w(rollup_name e sc \<mapsto> cur\<lparr>fo_status := st\<rparr>)
      in case re_api e sc of
           CallOk \<Rightarrow> (written, None)
         | CallRefused err \<Rightarrow> (w, Some err)
         | CallCreated err \<Rightarrow> (created, Some err)
         | CallLost err \<Rightarrow> (written, Some err))"

definition true_condition :: "string \<Rightarrow> string \<Rightarrow> string \<Rightarrow> condition" where
  "true_condition t reason msg =
     \<lparr>ctype = t, cstatus = ''True'', creason = reason, cmessage = msg, cgeneration = 0\<rparr>"

subsection \<open>Runs\<close>

record child_obj =
  co_kind :: string
  co_ledger :: string
  co_stage :: "stage_report option"
  co_succeeded :: bool
  co_settled :: bool
  co_estimate :: "agent_estimate option"
  co_conditions :: "condition list"
  co_deleting :: bool
  co_repo :: string

definition investigation_child :: "string \<Rightarrow> run_phase \<Rightarrow> stage_report option \<Rightarrow> condition list \<Rightarrow> bool \<Rightarrow> string
    \<Rightarrow> child_obj" where
  "investigation_child uid ph stage conds deleting repo =
     \<lparr>co_kind = ''investigation'', co_ledger = ''i:'' @ uid, co_stage = stage,
      co_succeeded = (ph = RunComplete), co_settled = (ph = RunComplete \<or> ph = RunFailed),
      co_estimate = None, co_conditions = conds, co_deleting = deleting, co_repo = repo\<rparr>"

definition remediation_child :: "string \<Rightarrow> run_phase \<Rightarrow> bool \<Rightarrow> stage_report option \<Rightarrow> agent_estimate option
    \<Rightarrow> condition list \<Rightarrow> bool \<Rightarrow> string \<Rightarrow> child_obj" where
  "remediation_child uid ph success stage est conds deleting repo =
     \<lparr>co_kind = ''remediation'', co_ledger = ''r:'' @ uid, co_stage = stage,
      co_succeeded = (ph = RunComplete \<and> success), co_settled = (ph = RunComplete \<or> ph = RunFailed),
      co_estimate = est, co_conditions = conds, co_deleting = deleting, co_repo = repo\<rparr>"

fun child_targets :: "rollup_env \<Rightarrow> string \<Rightarrow> stage_delta \<Rightarrow> string \<Rightarrow> scope_target list
    \<Rightarrow> rollup_world \<times> condition list \<times> bool \<Rightarrow> (rollup_world \<times> condition list \<times> bool) \<times> string option" where
  "child_targets e ledgerKey delta month [] acc = (acc, None)"
| "child_targets e ledgerKey delta month (t # ts) (w, conds, changed) =
     (if isStatusConditionTrue (re_meta e) conds (tg_condition t)
      then child_targets e ledgerKey delta month ts (w, conds, changed)
      else if rsc_type (tg_scope t) \<noteq> ScopeTotal \<and> rsc_key (tg_scope t) = []
      then child_targets e ledgerKey delta month ts
             (w, setStatusCondition (re_meta e) conds (true_condition (tg_condition t) ''NoScopeKey'' []), True)
      else (case applyScope e w (tg_scope t) ledgerKey (StageContribution delta) month of
              (w', Some err) \<Rightarrow> ((w', conds, changed), Some err)
            | (w', None) \<Rightarrow> child_targets e ledgerKey delta month ts
                (w', setStatusCondition (re_meta e) conds (true_condition (tg_condition t) ''Aggregated'' []),
                 True)))"

definition condition_of_finalizer :: "string \<Rightarrow> string option" where
  "condition_of_finalizer f =
     map_of [(FinalizerRollupTotal, ConditionRolledUpTotal),
             (FinalizerRollupRepository, ConditionRolledUpRepository),
             (FinalizerRollupHarness, ConditionRolledUpHarness),
             (FinalizerRollupModel, ConditionRolledUpModel)] f"

definition releaseFinalizers :: "meta_ops \<Rightarrow> condition list \<Rightarrow> string list \<Rightarrow> string list" where
  "releaseFinalizers m conds fins =
     filter (\<lambda>f. case condition_of_finalizer f of
                   None \<Rightarrow> True | Some t \<Rightarrow> \<not> isStatusConditionTrue m conds t) fins"

datatype result = Done | Requeue | RequeueAfter duration | Expired | Failure string

text \<open>
  A child's reconcile returns the rollups, the conditions stored on the run, its finalizers and the
  result.
\<close>

definition child :: "rollup_env \<Rightarrow> rollup_world \<Rightarrow> child_obj \<Rightarrow> string list
    \<Rightarrow> rollup_world \<times> condition list \<times> string list \<times> result" where
  "child e w c fins =
     (if \<not> co_settled c \<and> \<not> co_deleting c then (w, co_conditions c, fins, Done)
      else
        let delta = fst (StageDeltaFrom (re_trim e) (co_kind c) (co_stage c) (co_succeeded c) (co_estimate c))
        in case child_targets e (co_ledger c) delta (month_key (re_now e))
                  (childScopes (co_repo c) (sd_harness delta) (sd_model delta)) (w, co_conditions c, False) of
             ((w', conds, changed), Some err) \<Rightarrow> (w', co_conditions c, fins, Failure err)
           | ((w', conds, changed), None) \<Rightarrow>
               if changed \<and> re_update e = UpdateConflict then (w', co_conditions c, fins, Done)
               else (case (changed, re_update e) of
                       (True, UpdateRefused err) \<Rightarrow> (w', co_conditions c, fins, Failure err)
                     | _ \<Rightarrow> (w', conds,
                             if co_deleting c then releaseFinalizers (re_meta e) conds fins else fins, Done)))"

subsection \<open>Findings\<close>

record finding_counts =
  fc_phase :: string
  fc_repo :: string
  fc_recommendation :: string
  fc_month :: string
  fc_attempts :: int

definition finding_key :: "string \<Rightarrow> int \<Rightarrow> string" where
  "finding_key uid sq = ''f:'' @ uid @ CHR '':'' # show_int sq"

definition counted_marker :: "meta_ops \<Rightarrow> condition list \<Rightarrow> string \<Rightarrow> marker" where
  "counted_marker m conds t =
     (case findStatusCondition m conds t of
        Some c \<Rightarrow> if cstatus c = ''True'' then parseCounted (cmessage c) else ([], 0, [])
      | None \<Rightarrow> ([], 0, []))"

definition count_delta :: "finding_counts \<Rightarrow> marker \<Rightarrow> finding_delta \<times> string" where
  "count_delta c mk =
     (case mk of (counted, sq, countedRec) \<Rightarrow>
        (let swap = fc_recommendation c \<noteq> countedRec \<and> (counted = [] \<or> countedRec \<noteq> []);
             d = \<lparr>fd_phase = fc_phase c, fd_prevPhase = counted,
                  fd_recommendation = (if swap then fc_recommendation c else []),
                  fd_prevRecommendation = (if swap then countedRec else []),
                  fd_attempts = (if sq = 0 then fc_attempts c else 0),
                  fd_count = (counted = []), fd_uncount = False, fd_first = (sq = 0)\<rparr>
         in (d, if fd_recommendation d \<noteq> [] then fd_recommendation d else countedRec)))"

definition uncount_delta :: "marker \<Rightarrow> finding_delta" where
  "uncount_delta mk =
     (case mk of (counted, sq, countedRec) \<Rightarrow>
        \<lparr>fd_phase = [], fd_prevPhase = counted, fd_recommendation = [], fd_prevRecommendation = countedRec,
         fd_attempts = 0, fd_count = False, fd_uncount = True, fd_first = False\<rparr>)"

text \<open>
  What one scope owes for a finding: nothing, a marker alone, or a contribution with its ledger key,
  month and the marker it leaves.
\<close>

datatype owed =
    OwesNothing
  | OwesMarker
  | OwesDelta finding_delta string string string string

definition count_owed :: "meta_ops \<Rightarrow> string \<Rightarrow> finding_counts \<Rightarrow> condition list \<Rightarrow> scope_target \<Rightarrow> owed" where
  "count_owed m uid c conds t =
     (case counted_marker m conds (tg_condition t) of (counted, sq, countedRec) \<Rightarrow>
        if findStatusCondition m conds (tg_condition t) \<noteq> None \<and>
           cstatus (the (findStatusCondition m conds (tg_condition t))) = ''True'' \<and> counted = fc_phase c
        then OwesNothing
        else if rsc_type (tg_scope t) = ScopeRepository \<and> fc_repo c = [] then OwesMarker
        else (case count_delta c (counted, sq, countedRec) of (d, markerRec) \<Rightarrow>
          OwesDelta d (finding_key uid (i64 (sq + 1))) (fc_month c) ''Aggregated''
            (countedMarker (fc_phase c) (i64 (sq + 1)) markerRec)))"

definition uncount_owed :: "meta_ops \<Rightarrow> string \<Rightarrow> condition list \<Rightarrow> scope_target \<Rightarrow> owed" where
  "uncount_owed m uid conds t =
     (case findStatusCondition m conds (tg_condition t) of
        None \<Rightarrow> OwesNothing
      | Some cond \<Rightarrow>
          if cstatus cond \<noteq> ''True'' then OwesNothing
          else (case parseCounted (cmessage cond) of (counted, sq, countedRec) \<Rightarrow>
            if counted = [] then OwesNothing
            else OwesDelta (uncount_delta (counted, sq, countedRec)) (finding_key uid (i64 (sq + 1))) []
                   ''Reversed'' (countedMarker [] (i64 (sq + 1)) [])))"

fun settle_scopes :: "rollup_env \<Rightarrow> (condition list \<Rightarrow> scope_target \<Rightarrow> owed) \<Rightarrow> scope_target list
    \<Rightarrow> rollup_world \<times> condition list \<times> bool \<Rightarrow> (rollup_world \<times> condition list \<times> bool) \<times> string option" where
  "settle_scopes e owes [] acc = (acc, None)"
| "settle_scopes e owes (t # ts) (w, conds, changed) =
     (case owes conds t of
        OwesNothing \<Rightarrow> settle_scopes e owes ts (w, conds, changed)
      | OwesMarker \<Rightarrow> settle_scopes e owes ts
          (w, setStatusCondition (re_meta e) conds (true_condition (tg_condition t) ''NoScopeKey'' []), True)
      | OwesDelta d ledgerKey month reason msg \<Rightarrow>
          (case applyScope e w (tg_scope t) ledgerKey (FindingContribution d) month of
             (w', Some err) \<Rightarrow> ((w', conds, changed), Some err)
           | (w', None) \<Rightarrow> settle_scopes e owes ts
               (w', setStatusCondition (re_meta e) conds (true_condition (tg_condition t) reason msg), True)))"

definition repo_key :: "finding \<Rightarrow> string" where
  "repo_key f = (case repository (spec f) of Some r \<Rightarrow> repo_name r | None \<Rightarrow> [])"

fun recommendation_string :: "recommendation \<Rightarrow> string" where
  "recommendation_string RecommendationUnset = []"
| "recommendation_string RecommendationRemediate = ''remediate''"
| "recommendation_string RecommendationIgnore = ''ignore''"
| "recommendation_string RecommendationManual = ''manual''"

definition countFinding :: "rollup_env \<Rightarrow> rollup_world \<Rightarrow> finding \<Rightarrow> finding_counts
    \<Rightarrow> (rollup_world \<times> condition list \<times> bool) \<times> string option" where
  "countFinding e w f c =
     settle_scopes e (count_owed (re_meta e) (f_uid f) c) (findingScopes (fc_repo c))
       (w, conditions (status f), False)"

definition uncountFinding :: "rollup_env \<Rightarrow> rollup_world \<Rightarrow> finding
    \<Rightarrow> (rollup_world \<times> condition list \<times> bool) \<times> string option" where
  "uncountFinding e w f =
     settle_scopes e (uncount_owed (re_meta e) (f_uid f)) (findingScopes (repo_key f))
       (w, conditions (status f), False)"

definition DefaultTTL :: duration where "DefaultTTL = 336 * nano_hour"

definition enforceTTL :: "rollup_env \<Rightarrow> finding \<Rightarrow> result" where
  "enforceTTL e f =
     (let ttl = (if re_ttl e < 0 then DefaultTTL else re_ttl e) in
      case completedAt (status f) of
        None \<Rightarrow> Done
      | Some at \<Rightarrow>
          if ttl = 0 then Done
          else (let wait = time_sub (at + ttl) (re_now e) in
                if 0 < wait then RequeueAfter wait else Expired))"

definition is_terminal :: "finding \<Rightarrow> bool" where
  "is_terminal f \<longleftrightarrow> Terminal (phase (status f)) \<and> completedAt (status f) \<noteq> None"

definition counts_of :: "finding \<Rightarrow> time \<Rightarrow> finding_counts" where
  "counts_of f now =
     \<lparr>fc_phase = (if f_deleting f \<and> \<not> is_terminal f then ''deleted'' else PhaseKey (phase (status f))),
      fc_repo = repo_key f,
      fc_recommendation = (case investigation (status f) of
         Some i \<Rightarrow> recommendation_string (is_recommendation i) | None \<Rightarrow> []),
      fc_month = month_key now,
      fc_attempts = i32 (att_investigation (attempts (status f)) + att_remediation (attempts (status f)))\<rparr>"

definition store_conditions :: "rollup_env \<Rightarrow> finding \<Rightarrow> condition list \<Rightarrow> bool \<Rightarrow> result + finding" where
  "store_conditions e f conds changed =
     (if \<not> changed then Inr f
      else case re_update e of
        UpdateOk \<Rightarrow> Inr (f\<lparr>status := (status f)\<lparr>conditions := conds\<rparr>\<rparr>)
      | UpdateConflict \<Rightarrow> Inl Requeue
      | UpdateRefused err \<Rightarrow> Inl (Failure err))"

definition ReconcileFinding :: "rollup_env \<Rightarrow> rollup_world \<Rightarrow> finding \<Rightarrow> string list
    \<Rightarrow> rollup_world \<times> finding \<times> string list \<times> result" where
  "ReconcileFinding e w f fins =
     (if \<not> is_terminal f \<and> \<not> f_deleting f then
        if Terminal (phase (status f)) then (w, f, fins, Done)
        else (case uncountFinding e w f of
                ((w', _), Some err) \<Rightarrow> (w', f, fins, Failure err)
              | ((w', conds, changed), None) \<Rightarrow>
                  (case store_conditions e f conds changed of
                     Inl r \<Rightarrow> (w', f, fins, r) | Inr f' \<Rightarrow> (w', f', fins, Done)))
      else (case countFinding e w f (counts_of f (re_now e)) of
              ((w', _), Some err) \<Rightarrow> (w', f, fins, Failure err)
            | ((w', conds, changed), None) \<Rightarrow>
                (case store_conditions e f conds changed of
                   Inl r \<Rightarrow> (w', f, fins, r)
                 | Inr f' \<Rightarrow>
                     if f_deleting f
                     then (w', f', releaseFinalizers (re_meta e) (conditions (status f')) fins, Done)
                     else (w', f', fins, enforceTTL e f'))))"

definition findingRollupRelevant :: "finding \<Rightarrow> bool" where
  "findingRollupRelevant f \<longleftrightarrow>
     f_deleting f \<or> Terminal (phase (status f)) \<or>
     list_ex (\<lambda>c. ctype c \<in> {ConditionRolledUpTotal, ConditionRolledUpRepository,
        ConditionRolledUpHarness, ConditionRolledUpModel}) (conditions (status f))"

end
