(* ===== verification/RollupProps.thy ===== *)
theory RollupProps
  imports FindingRollup
begin

text \<open>
  The properties of the finding rollup's reconciler (\<open>FindingRollup\<close>): the counted marker reads back what it
  writes, a run is released only once its spend is in the total rollup, and the total rollup's
  histogram agrees with the markers of the findings in every reachable state, however often calls fail
  in between. The argument follows the code: a plan for the total rollup (what the reconcile would
  apply, under which ledger key, and the marker it then writes), the fact that a reconcile carries the
  plan out entirely or leaves it to be repeated, and the once-only ledger.
\<close>

subsection \<open>The marker\<close>

lemma show_int_digits: "0 \<le> n \<Longrightarrow> list_all is_digit (show_int n) \<and> show_int n \<noteq> [] \<and> digits_value 0 (show_int n) = n"
  using show_nat_digits [of "nat n"] by (simp add: show_int_def)

lemma digits_no_sep: "list_all is_digit s \<Longrightarrow> CHR '';'' \<notin> set s \<and> CHR '':'' \<notin> set s"
  by (auto simp: list_all_iff is_digit_def)

lemma atoi_show: "0 \<le> n \<Longrightarrow> n \<le> max_int64 \<Longrightarrow> atoi (show_int n) = n"
  using show_int_digits [of n]
  by (cases "show_int n") (auto simp: atoi_def parse_uint10_def is_digit_def)

lemma counted_marker_parse:
  assumes "CHR '';'' \<notin> set ph" "CHR '';'' \<notin> set rc" "0 \<le> sq" "sq \<le> max_int64"
  shows "parseCounted (countedMarker ph sq rc) = (ph, sq, rc)"
proof -
  have parts: "split_on (CHR '';'') (countedMarker ph sq rc) =
      [''phase='' @ ph, ''seq='' @ show_int sq, ''rec='' @ rc]"
  proof -
    have e: "countedMarker ph sq rc =
        (''phase='' @ ph) @ CHR '';'' # ((''seq='' @ show_int sq) @ CHR '';'' # (''rec='' @ rc))"
      by (simp add: countedMarker_def)
    have n: "CHR '';'' \<notin> set (''phase='' @ ph)" "CHR '';'' \<notin> set (''seq='' @ show_int sq)"
      "CHR '';'' \<notin> set (''rec='' @ rc)"
      using assms digits_no_sep show_int_digits by auto
    show ?thesis unfolding e split_on_append
      by (simp only: split_on_no_sep [OF n(1)] split_on_no_sep [OF n(2)] split_on_no_sep [OF n(3)]) simp
  qed
  have "atoi (show_int sq) = sq" using assms by (simp add: atoi_show)
  then show ?thesis unfolding parseCounted_def parts
    by (simp add: marker_part_def cut_prefix_def)
qed

text \<open>
  A finding's marker is read back as it was written: the counted phase, the sequence number and the
  recommendation, for every phase and recommendation without the separator and every non-negative
  sequence number.
\<close>

theorem counted_marker_roundtrip:
  assumes "CHR '';'' \<notin> set ph" "CHR '';'' \<notin> set rc" "0 \<le> sq" "sq \<le> max_int64"
  shows "parseCounted (countedMarker ph sq rc) = (ph, sq, rc)"
  using assms by (rule counted_marker_parse)

lemma counted_marker_roundtrip_witness:
  "parseCounted (countedMarker ''failed'' 3 ''remediate'') = (''failed'', 3, ''remediate'')"
  by (rule counted_marker_roundtrip) simp_all

lemma finding_key_inj:
  assumes "finding_key u s = finding_key u' s'" "0 \<le> s" "0 \<le> s'"
  shows "u = u' \<and> s = s'"
proof -
  have d: "CHR '':'' \<notin> set (show_int s)" "CHR '':'' \<notin> set (show_int s')"
    using show_int_digits digits_no_sep assms by blast+
  have "rev (show_int s) @ CHR '':'' # rev u = rev (show_int s') @ CHR '':'' # rev u'"
    using arg_cong [OF assms(1), of rev] by (simp add: finding_key_def)
  then have "cut_at (CHR '':'') (rev (show_int s) @ CHR '':'' # rev u) =
      cut_at (CHR '':'') (rev (show_int s') @ CHR '':'' # rev u')" by simp
  then have "u = u'" "show_int s = show_int s'" using d by simp_all
  then show ?thesis using show_int_digits assms(2,3) by metis
qed

subsection \<open>Conditions\<close>

text \<open>The conditions are those of \<open>meta_ops\<close>, under the laws \<open>meta_laws\<close>.\<close>

lemma true_condition_sel [simp]:
  "ctype (true_condition t r msg) = t" "cstatus (true_condition t r msg) = ''True''"
  "cmessage (true_condition t r msg) = msg"
  by (simp_all add: true_condition_def)

subsection \<open>Nothing is released before it is aggregated\<close>

definition in_rollup :: "rollup_env \<Rightarrow> rollup_world \<Rightarrow> rollup_scope \<Rightarrow> string \<Rightarrow> bool" where
  "in_rollup e w sc k \<longleftrightarrow> (\<exists>ob. w (rollup_name e sc) = Some ob \<and> k \<in> set (fr_recent (fo_status ob)))"

lemma Apply_remembers: "k \<in> set (fr_recent (fst (Apply st k c)))"
  by (rule finding_once.applied_mem)

lemma applyScope_in:
  "applyScope e w sc k d mo = (w', None) \<Longrightarrow> in_rollup e w' sc k"
  using Apply_remembers
  by (auto simp: applyScope_def Let_def in_rollup_def split: api_call.splits)

lemma applyScope_ok: "re_api e sc = CallOk \<Longrightarrow> snd (applyScope e w sc k d mo) = None"
  by (simp add: applyScope_def Let_def)

text \<open>A later write of the same contribution does not push the key out: its own ledger entry is the newest.\<close>

lemma applyScope_keeps:
  assumes "in_rollup e w sc k" "fst (applyScope e w sc' k d mo) = w'"
  shows "in_rollup e w' sc k"
proof -
  obtain ob where ob: "w (rollup_name e sc) = Some ob" "k \<in> set (fr_recent (fo_status ob))"
    using assms(1) by (auto simp: in_rollup_def)
  show ?thesis
  proof (cases "rollup_name e sc' = rollup_name e sc")
    case True
    then have so: "scope_object e w sc' = ob" using ob(1) by (simp add: scope_object_def)
    show ?thesis
      using assms(2) True ob so
      by (auto simp: applyScope_def Let_def in_rollup_def Apply_def split: api_call.splits)
  next
    case False
    then show ?thesis
      using assms(2) ob by (auto simp: applyScope_def Let_def in_rollup_def split: api_call.splits)
  qed
qed

lemma child_targets_keep:
  "child_targets e k delta mo ts acc = ((w', rest), err) \<Longrightarrow> in_rollup e (fst acc) sc k \<Longrightarrow> in_rollup e w' sc k"
proof (induction ts arbitrary: acc)
  case (Cons t ts)
  obtain w conds ch where acc: "acc = (w, conds, ch)" by (cases acc)
  obtain w1 err1 where a: "applyScope e w (tg_scope t) k (StageContribution delta) mo = (w1, err1)" by force
  have "in_rollup e w1 sc k" using applyScope_keeps Cons.prems(2) a acc by (metis fst_conv)
  then show ?case
    using Cons.prems Cons.IH a by (auto simp: acc split: if_splits option.splits)
qed auto

lemma child_targets_aggregated:
  assumes "meta_laws (re_meta e)"
    and "child_targets e k delta mo ts (w, conds, ch) = ((w', conds', ch'), None)"
    and "distinct (map tg_condition ts)" "t \<in> set ts"
    and "\<not> isStatusConditionTrue (re_meta e) conds (tg_condition t)"
  shows "in_rollup e w' (tg_scope t) k \<or> (rsc_type (tg_scope t) \<noteq> ScopeTotal \<and> rsc_key (tg_scope t) = [])"
  using assms(2-5)
proof (induction ts arbitrary: w conds ch)
  case (Cons u ts)
  note IH = Cons.IH and prems = Cons.prems
  show ?case
  proof (cases "t = u")
    case True
    show ?thesis
    proof (cases "rsc_type (tg_scope t) \<noteq> ScopeTotal \<and> rsc_key (tg_scope t) = []")
      case False
      then obtain w1 where a: "applyScope e w (tg_scope u) k (StageContribution delta) mo = (w1, None)"
        and r: "child_targets e k delta mo ts
          (w1, setStatusCondition (re_meta e) conds (true_condition (tg_condition u) ''Aggregated'' []), True)
          = ((w', conds', ch'), None)"
        using prems(1,4) True by (auto split: if_splits prod.splits option.splits)
      show ?thesis using child_targets_keep [OF r] applyScope_in [OF a] True by simp
    qed simp
  next
    case False
    have ne: "tg_condition t \<noteq> tg_condition u" using False prems(2,3) by (auto simp: image_iff)
    have pres: "\<not> isStatusConditionTrue (re_meta e)
        (setStatusCondition (re_meta e) conds (true_condition (tg_condition u) r [])) (tg_condition t)" for r
      using prems(4) ne by (simp add: meta_true [OF assms(1)] meta_find_set [OF assms(1)])
    have "\<exists>w1 c1 ch1. child_targets e k delta mo ts (w1, c1, ch1) = ((w', conds', ch'), None) \<and>
        \<not> isStatusConditionTrue (re_meta e) c1 (tg_condition t)"
      using prems(1) prems(4) pres by (auto split: if_splits prod.splits option.splits)
    then show ?thesis using IH prems(2,3) False by auto
  qed
qed simp

lemma childScopes_distinct: "distinct (map tg_condition (childScopes r h m))"
  by (simp add: childScopes_def total_target_def repo_target_def)

lemma condition_of_target:
  "t \<in> set (childScopes r h m) \<Longrightarrow> condition_of_finalizer (tg_finalizer t) = Some (tg_condition t)"
  by (auto simp: childScopes_def total_target_def repo_target_def condition_of_finalizer_def)

text \<open>
  A run's spend is never lost to its deletion. When the rollup reconciler takes a rollup finalizer
  off a run, the run is being deleted and the finalizer's scope already carried its aggregated mark, or
  this very reconcile folded the run into that scope's rollup (or there is no key to fold it under).
\<close>

theorem child_release_aggregated:
  assumes "meta_laws (re_meta e)" "child e w c fins = (w', conds', fins', r)"
    and "t \<in> set (childScopes (co_repo c)
           (sd_harness (fst (StageDeltaFrom (re_trim e) (co_kind c) (co_stage c) (co_succeeded c) (co_estimate c))))
           (sd_model (fst (StageDeltaFrom (re_trim e) (co_kind c) (co_stage c) (co_succeeded c) (co_estimate c)))))"
    and "tg_finalizer t \<in> set fins" "tg_finalizer t \<notin> set fins'"
  shows "co_deleting c \<and>
    (isStatusConditionTrue (re_meta e) (co_conditions c) (tg_condition t) \<or>
     in_rollup e w' (tg_scope t) (co_ledger c) \<or>
     (rsc_type (tg_scope t) \<noteq> ScopeTotal \<and> rsc_key (tg_scope t) = []))"
proof -
  let ?d = "fst (StageDeltaFrom (re_trim e) (co_kind c) (co_stage c) (co_succeeded c) (co_estimate c))"
  obtain w1 conds ch err where run: "child_targets e (co_ledger c) ?d (month_key (re_now e))
      (childScopes (co_repo c) (sd_harness ?d) (sd_model ?d)) (w, co_conditions c, False) = ((w1, conds, ch), err)"
    by (metis prod.exhaust)
  have fin: "err = None \<and> co_deleting c \<and> w' = w1"
    using assms(2,4,5) run
    by (auto simp: child_def Let_def split: if_splits option.splits bool.splits update_call.splits)
  show ?thesis
  proof (cases "isStatusConditionTrue (re_meta e) (co_conditions c) (tg_condition t)")
    case False
    then show ?thesis
      using child_targets_aggregated [OF assms(1) _ childScopes_distinct assms(3) False] run fin by blast
  qed (use fin in simp)
qed

definition demo_env :: rollup_env where
  "demo_env = \<lparr>re_meta = demo_meta, re_lower = (\<lambda>s. s), re_trim = (\<lambda>s. s), re_sha = (\<lambda>s. s), re_now = 0,
     re_ttl = 0, re_api = (\<lambda>_. CallOk), re_update = UpdateOk\<rparr>"

definition demo_child :: child_obj where
  "demo_child = investigation_child ''7'' RunFailed None [] True ''o/r''"

lemma child_release_aggregated_witness:
  "in_rollup demo_env (fst (child demo_env (\<lambda>_. None) demo_child [FinalizerRollupTotal]))
     (tg_scope total_target) ''i:7''"
proof -
  let ?r = "child demo_env (\<lambda>_. None) demo_child [FinalizerRollupTotal]"
  have c: "co_conditions demo_child = []" "co_ledger demo_child = ''i:7''" "co_deleting demo_child"
    "co_settled demo_child" "co_stage demo_child = None" "co_repo demo_child = ''o/r''"
    by (simp_all add: demo_child_def investigation_child_def)
  have e: "re_meta demo_env = demo_meta" "\<And>sc. re_api demo_env sc = CallOk" "re_update demo_env = UpdateOk"
    by (simp_all add: demo_env_def)
  have "FinalizerRollupTotal \<notin> set (fst (snd (snd ?r)))"
    by (simp add: child_def c e Let_def StageDeltaFrom_def no_stage_def childScopes_def total_target_def
        repo_target_def applyScope_def releaseFinalizers_def condition_of_finalizer_def demo_meta_def
        true_condition_def)
  then show ?thesis
    using child_release_aggregated [of demo_env "\<lambda>_. None" demo_child "[FinalizerRollupTotal]" "fst ?r"
        "fst (snd ?r)" "fst (snd (snd ?r))" "snd (snd (snd ?r))" total_target]
    by (simp add: e c demo_meta_laws childScopes_def) (simp add: total_target_def demo_meta_def)
qed


subsection \<open>The histogram of terminal findings\<close>

definition total_status :: "rollup_world \<Rightarrow> finding_rollup_status" where
  "total_status w = (case w ''total'' of Some ob \<Rightarrow> fo_status ob | None \<Rightarrow> new_finding_rollup)"

definition total_marker :: "meta_ops \<Rightarrow> finding \<Rightarrow> marker" where
  "total_marker m f = counted_marker m (conditions (status f)) ConditionRolledUpTotal"

lemma rollup_name_total: "rollup_name e sc = ''total'' \<longleftrightarrow> rsc_type sc = ScopeTotal"
  by (cases "rsc_type sc") (auto simp: rollup_name_def ScopeObjectName_def)

lemma total_scope_object:
  "rsc_type sc = ScopeTotal \<Longrightarrow> fo_status (scope_object e w sc) = total_status w"
  by (simp add: scope_object_def total_status_def rollup_name_total [THEN iffD2] split: option.splits)

lemma applyScope_total:
  assumes "applyScope e w sc k d mo = (w', err)" "rsc_type sc = ScopeTotal"
  shows "total_status w' = total_status w \<and> err \<noteq> None \<or>
    total_status w' = fst (Apply (total_status w) k \<lparr>ro_delta = d, ro_now = re_now e, ro_month = mo\<rparr>)"
  using assms total_scope_object [OF assms(2), of e w]
  by (auto simp: applyScope_def Let_def rollup_name_total [THEN iffD2] total_status_def [of "_(_ \<mapsto> _)"]
      split: api_call.splits)

lemma applyScope_other:
  assumes "applyScope e w sc k d mo = (w', err)" "rsc_type sc \<noteq> ScopeTotal"
  shows "total_status w' = total_status w"
proof -
  have "rollup_name e sc \<noteq> ''total''" using assms(2) by (simp add: rollup_name_total)
  then show ?thesis using assms(1)
    by (auto simp: applyScope_def Let_def total_status_def split: api_call.splits)
qed

lemma targets_sel [simp]:
  "rsc_type (tg_scope total_target) = ScopeTotal" "tg_condition total_target = ConditionRolledUpTotal"
  "rsc_type (tg_scope (repo_target r)) = ScopeRepository"
  "tg_condition (repo_target r) = ConditionRolledUpRepository"
  by (simp_all add: total_target_def repo_target_def)

lemma settle_repo:
  assumes "meta_laws (re_meta e)" "settle_scopes e owes [repo_target r] (w, conds, ch) = ((w', conds', ch'), err)"
  shows "total_status w' = total_status w \<and>
    findStatusCondition (re_meta e) conds' ConditionRolledUpTotal =
      findStatusCondition (re_meta e) conds ConditionRolledUpTotal \<and>
    ((\<forall>sc. re_api e sc = CallOk) \<longrightarrow> err = None)"
proof (cases "owes conds (repo_target r)")
  case (OwesDelta d k mo rs msg)
  obtain w1 err1 where a: "applyScope e w (tg_scope (repo_target r)) k (FindingContribution d) mo = (w1, err1)"
    by force
  have "(\<forall>sc. re_api e sc = CallOk) \<Longrightarrow> err1 = None"
    using applyScope_ok [of e "tg_scope (repo_target r)" w k "FindingContribution d" mo] a by simp
  then show ?thesis
    using assms(2) OwesDelta a applyScope_other [OF a]
    by (auto simp: meta_find_set [OF assms(1)] split: option.splits)
qed (use assms(2) in \<open>auto simp: meta_find_set [OF assms(1)]\<close>)

lemma settle_total:
  assumes "meta_laws (re_meta e)"
    and "settle_scopes e owes (findingScopes r) (w, conds, ch) = ((w', conds', ch'), err)"
    and "owes conds total_target \<noteq> OwesMarker"
  shows "case owes conds total_target of
      OwesNothing \<Rightarrow> total_status w' = total_status w \<and>
        findStatusCondition (re_meta e) conds' ConditionRolledUpTotal =
          findStatusCondition (re_meta e) conds ConditionRolledUpTotal \<and>
        ((\<forall>sc. re_api e sc = CallOk) \<longrightarrow> err = None)
    | OwesMarker \<Rightarrow> True
    | OwesDelta d k mo rs msg \<Rightarrow>
        (total_status w' = total_status w \<or>
         total_status w' = fst (Apply (total_status w) k
           \<lparr>ro_delta = FindingContribution d, ro_now = re_now e, ro_month = mo\<rparr>)) \<and>
        ((\<forall>sc. re_api e sc = CallOk) \<longrightarrow> err = None \<and>
           total_status w' = fst (Apply (total_status w) k
             \<lparr>ro_delta = FindingContribution d, ro_now = re_now e, ro_month = mo\<rparr>) \<and>
           findStatusCondition (re_meta e) conds' ConditionRolledUpTotal =
             Some (true_condition ConditionRolledUpTotal rs msg))"
proof (cases "owes conds total_target")
  case OwesNothing
  then show ?thesis using assms(2) settle_repo [OF assms(1)] by (simp add: findingScopes_def)
next
  case (OwesDelta d k mo rs msg)
  obtain w1 err1 where a: "applyScope e w (tg_scope total_target) k (FindingContribution d) mo = (w1, err1)"
    by force
  show ?thesis
  proof (cases err1)
    case (Some x)
    then have "w' = w1" "err = Some x" "\<not> (\<forall>sc. re_api e sc = CallOk)"
      using assms(2) OwesDelta a applyScope_ok [of e "tg_scope total_target" w k "FindingContribution d" mo]
      by (auto simp: findingScopes_def)
    then show ?thesis using OwesDelta applyScope_total [OF a] by auto
  next
    case None
    then have r: "settle_scopes e owes [repo_target r] (w1, setStatusCondition (re_meta e) conds
        (true_condition ConditionRolledUpTotal rs msg), True) = ((w', conds', ch'), err)"
      using assms(2) OwesDelta a by (simp add: findingScopes_def)
    show ?thesis
      using OwesDelta applyScope_total [OF a] None settle_repo [OF assms(1) r]
      by (auto simp: meta_find_set [OF assms(1)])
  qed
qed (use assms(3) in simp)


lemma ascii_lower_sep: "ascii_lower c = CHR '';'' \<longleftrightarrow> c = CHR '';''"
proof (cases "is_upper c")
  case True
  then have "is_lower (ascii_lower c)" by (rule is_lower_ascii_lower)
  then show ?thesis using True by (auto simp: is_lower_def is_upper_def)
qed (simp add: ascii_lower_id)

lemma PhaseKey_ok: "CHR '';'' \<notin> set (PhaseKey p) \<and> (Terminal p \<longrightarrow> PhaseKey p \<noteq> [])"
proof -
  have "CHR '';'' \<notin> set (phase_string p)" by (cases p) simp_all
  then have "CHR '';'' \<notin> set (PhaseKey p)" by (auto simp: PhaseKey_def) (metis ascii_lower_sep)
  moreover have "Terminal p \<longrightarrow> PhaseKey p \<noteq> []" by (cases p) (simp_all add: PhaseKey_def)
  ultimately show ?thesis by blast
qed

lemma count_phase_ok:
  "is_terminal f \<or> f_deleting f \<Longrightarrow>
   fc_phase (counts_of f now) \<noteq> [] \<and> CHR '';'' \<notin> set (fc_phase (counts_of f now))"
  using PhaseKey_ok [of "phase (status f)"] by (auto simp: counts_of_def is_terminal_def)

lemma recommendation_ok: "CHR '';'' \<notin> set (fc_recommendation (counts_of f now))"
proof -
  have "CHR '';'' \<notin> set (recommendation_string r)" for r by (cases r) simp_all
  then show ?thesis by (simp add: counts_of_def split: option.splits)
qed

text \<open>
  What a reconcile owes the total scope for a finding whose marker is \<open>mk\<close>: the contribution, its
  ledger key and the marker it leaves.
\<close>

definition total_plan :: "finding \<Rightarrow> time \<Rightarrow> marker \<Rightarrow> (finding_delta \<times> string \<times> marker) option" where
  "total_plan f now mk =
     (case mk of (counted, sq, countedRec) \<Rightarrow>
        if \<not> is_terminal f \<and> \<not> f_deleting f then
          (if Terminal (phase (status f)) \<or> counted = [] then None
           else Some (uncount_delta mk, finding_key (f_uid f) (i64 (sq + 1)), ([], i64 (sq + 1), [])))
        else if counted = fc_phase (counts_of f now) then None
        else (case count_delta (counts_of f now) mk of (d, markerRec) \<Rightarrow>
          Some (d, finding_key (f_uid f) (i64 (sq + 1)),
                (fc_phase (counts_of f now), i64 (sq + 1), markerRec))))"

lemma total_plan_time: "total_plan f now mk = total_plan f now' mk"
proof -
  have fields: "fc_phase (counts_of f now) = fc_phase (counts_of f now')"
    "fc_recommendation (counts_of f now) = fc_recommendation (counts_of f now')"
    "fc_attempts (counts_of f now) = fc_attempts (counts_of f now')"
    by (simp_all add: counts_of_def)
  have cd: "count_delta (counts_of f now) = count_delta (counts_of f now')"
    by (intro ext) (simp only: count_delta_def fields)
  show ?thesis unfolding total_plan_def cd fields(1) by (rule refl)
qed

definition all_ok :: "rollup_env \<Rightarrow> bool" where
  "all_ok e \<longleftrightarrow> (\<forall>sc. re_api e sc = CallOk) \<and> re_update e = UpdateOk"

definition applied_to :: "finding_rollup_status \<Rightarrow> finding_delta \<Rightarrow> string \<Rightarrow> finding_rollup_status \<Rightarrow> bool" where
  "applied_to st d k st' \<longleftrightarrow>
     (\<exists>now mo. st' = fst (Apply st k \<lparr>ro_delta = FindingContribution d, ro_now = now, ro_month = mo\<rparr>))"

lemma store_conditions_cases:
  "store_conditions e f conds ch = Inr f' \<Longrightarrow>
     f' = f \<or> (ch \<and> f' = f\<lparr>status := (status f)\<lparr>conditions := conds\<rparr>\<rparr>)"
  "store_conditions e f conds ch = Inl r \<Longrightarrow> \<not> all_ok e"
  by (auto simp: store_conditions_def all_ok_def split: if_splits update_call.splits)

lemma settle_changed:
  "settle_scopes e owes ts (w, conds, ch) = ((w', conds', ch'), None) \<Longrightarrow> ch' \<or> (conds' = conds \<and> ch' = ch)"
  by (induction ts arbitrary: w conds ch) (auto split: owed.splits prod.splits option.splits)

lemma store_all_ok:
  assumes "all_ok e" "settle_scopes e owes ts (w, conditions (status f), False) = ((w', conds, ch), None)"
  shows "\<exists>f'. store_conditions e f conds ch = Inr f' \<and> f_uid f' = f_uid f \<and>
    conditions (status f') = conds"
  using settle_changed [OF assms(2)] assms(1)
  by (auto simp: store_conditions_def all_ok_def)

lemma count_owed_total:
  assumes "is_terminal f \<or> f_deleting f" "mk = total_marker m f"
  shows "count_owed m (f_uid f) (counts_of f now) (conditions (status f)) total_target =
    (case total_plan f now mk of
       None \<Rightarrow> OwesNothing
     | Some (d, k, mk') \<Rightarrow> OwesDelta d k (fc_month (counts_of f now)) ''Aggregated''
         (countedMarker (fst mk') (fst (snd mk')) (snd (snd mk'))))"
proof -
  have ne: "fc_phase (counts_of f now) \<noteq> []" using count_phase_ok [OF assms(1)] by simp
  show ?thesis
    using assms ne
    by (cases "findStatusCondition m (conditions (status f)) ConditionRolledUpTotal")
      (auto simp: count_owed_def total_plan_def total_marker_def counted_marker_def split: prod.splits)
qed

lemma uncount_owed_total:
  assumes "\<not> is_terminal f" "\<not> f_deleting f" "\<not> Terminal (phase (status f))" "mk = total_marker m f"
  shows "uncount_owed m (f_uid f) (conditions (status f)) total_target =
    (case total_plan f now mk of
       None \<Rightarrow> OwesNothing
     | Some (d, k, mk') \<Rightarrow> OwesDelta d k [] ''Reversed''
         (countedMarker (fst mk') (fst (snd mk')) (snd (snd mk'))))"
  using assms
  by (cases "findStatusCondition m (conditions (status f)) ConditionRolledUpTotal")
    (auto simp: uncount_owed_def total_plan_def total_marker_def counted_marker_def split: prod.splits)


text \<open>
  One reconcile of a finding and the total rollup: what the marker says is owed is what is applied, at
  most once, and when no call fails it is applied and the marker moves with it.
\<close>

lemma reconcile_total:
  assumes "meta_laws (re_meta e)" "ReconcileFinding e w f fins = (w', f', fins', r)"
    and "mk = total_marker (re_meta e) f"
    and "CHR '';'' \<notin> set (snd (snd mk))" "0 \<le> fst (snd mk)" "fst (snd mk) < max_int64"
  shows "f_uid f' = f_uid f \<and>
    (case total_plan f (re_now e) mk of
       None \<Rightarrow> total_status w' = total_status w \<and> (all_ok e \<longrightarrow> total_marker (re_meta e) f' = mk)
     | Some (d, k, mk') \<Rightarrow>
         (total_status w' = total_status w \<or> applied_to (total_status w) d k (total_status w')) \<and>
         (all_ok e \<longrightarrow> applied_to (total_status w) d k (total_status w') \<and>
            total_marker (re_meta e) f' = mk'))"
proof -
  note M = assms(1)
  let ?P = "total_plan f (re_now e) mk"
  obtain c0 s0 r0 where mk: "mk = (c0, s0, r0)" by (cases mk)
  have s1: "i64 (s0 + 1) = s0 + 1" using assms(5,6) by (simp add: mk i64_id)
  have parsed: "parseCounted (countedMarker (fst mk') (fst (snd mk')) (snd (snd mk'))) = mk'"
    if P: "?P = Some (d, k, mk')" for d k mk'
  proof -
    have "CHR '';'' \<notin> set (fst mk')" "CHR '';'' \<notin> set (snd (snd mk'))" "fst (snd mk') = s0 + 1"
      using P assms(4) count_phase_ok [of f "re_now e"] recommendation_ok [of f "re_now e"]
      by (auto simp: total_plan_def mk s1 count_delta_def Let_def split: if_splits)
    then show ?thesis using counted_marker_parse [of "fst mk'" "snd (snd mk')" "fst (snd mk')"] assms(5,6) mk
      by (cases mk') simp
  qed
  show ?thesis
  proof (cases "\<not> is_terminal f \<and> \<not> f_deleting f \<and> Terminal (phase (status f))")
    case True
    then show ?thesis using assms(2,3) by (auto simp: ReconcileFinding_def total_plan_def mk)
  next
    case False
    define owes where "owes = (if \<not> is_terminal f \<and> \<not> f_deleting f
        then uncount_owed (re_meta e) (f_uid f) else count_owed (re_meta e) (f_uid f) (counts_of f (re_now e)))"
    define rk where "rk = (if \<not> is_terminal f \<and> \<not> f_deleting f then repo_key f else fc_repo (counts_of f (re_now e)))"
    obtain w1 conds ch err where S: "settle_scopes e owes (findingScopes rk) (w, conditions (status f), False) =
        ((w1, conds, ch), err)" by (metis prod.exhaust)
    have plan: "owes (conditions (status f)) total_target = (case ?P of None \<Rightarrow> OwesNothing
        | Some (d, k, mk') \<Rightarrow> OwesDelta d k (if \<not> is_terminal f \<and> \<not> f_deleting f then [] else fc_month (counts_of f (re_now e)))
            (if \<not> is_terminal f \<and> \<not> f_deleting f then ''Reversed'' else ''Aggregated'')
            (countedMarker (fst mk') (fst (snd mk')) (snd (snd mk'))))"
      using False uncount_owed_total [OF _ _ _ assms(3), of "re_now e"] count_owed_total [OF _ assms(3), of "re_now e"]
      by (auto simp: owes_def split: option.splits)
    have nm: "owes (conditions (status f)) total_target \<noteq> OwesMarker"
      unfolding plan by (auto split: option.splits)
    note T = settle_total [OF M S nm]
    have out: "w' = w1 \<and> (f' = f \<or> (\<exists>c. f' = f\<lparr>status := (status f)\<lparr>conditions := c\<rparr>\<rparr>)) \<and>
        (err = None \<longrightarrow> all_ok e \<longrightarrow> conditions (status f') = conds)"
    proof (cases err)
      case None
      show ?thesis
      proof (cases "store_conditions e f conds ch")
        case (Inl x)
        then show ?thesis using assms(2) S False None store_conditions_cases(2) [OF Inl]
          by (auto simp: ReconcileFinding_def owes_def rk_def countFinding_def uncountFinding_def split: if_splits)
      next
        case (Inr g)
        have g: "g = f \<or> (ch \<and> g = f\<lparr>status := (status f)\<lparr>conditions := conds\<rparr>\<rparr>)"
          using store_conditions_cases(1) [OF Inr] .
        have "all_ok e \<longrightarrow> conditions (status g) = conds"
          using store_all_ok [of e owes "findingScopes rk" w f w1 conds ch] S None Inr by auto
        moreover have "f' = g \<and> w' = w1"
          using assms(2) S False None Inr
          by (auto simp: ReconcileFinding_def owes_def rk_def countFinding_def uncountFinding_def split: if_splits)
        ultimately show ?thesis using g by auto
      qed
    next
      case (Some x)
      then show ?thesis using assms(2) S False
        by (auto simp: ReconcileFinding_def owes_def rk_def countFinding_def uncountFinding_def split: if_splits)
    qed
    then have uid: "f_uid f' = f_uid f" by auto
    have ok: "all_ok e \<Longrightarrow> \<forall>sc. re_api e sc = CallOk" by (simp add: all_ok_def)
    show ?thesis
    proof (cases ?P)
      case None
      then show ?thesis using T plan out uid ok assms(3)
        by (auto simp: total_marker_def counted_marker_def)
    next
      case (Some p)
      obtain d k mk' where p: "p = (d, k, mk')" by (cases p)
      have "findStatusCondition (re_meta e) conds ConditionRolledUpTotal =
          Some (true_condition ConditionRolledUpTotal rs (countedMarker (fst mk') (fst (snd mk')) (snd (snd mk'))))
          \<Longrightarrow> counted_marker (re_meta e) conds ConditionRolledUpTotal = mk'" for rs
        using parsed Some p by (simp add: counted_marker_def)
      then show ?thesis using T plan out uid ok Some p
        by (auto simp: total_marker_def applied_to_def)
    qed
  qed
qed


subsection \<open>The rollup counts what the markers say\<close>

definition counted_under :: "(string \<Rightarrow> marker) \<Rightarrow> string \<Rightarrow> string set" where
  "counted_under mk k = {u. fst (mk u) = k}"

definition counted_any :: "(string \<Rightarrow> marker) \<Rightarrow> string set" where
  "counted_any mk = {u. fst (mk u) \<noteq> []}"

definition histogram_ok :: "nat \<Rightarrow> finding_rollup_status \<Rightarrow> (string \<Rightarrow> marker) \<Rightarrow> bool" where
  "histogram_ok n st mk \<longleftrightarrow>
     finite (counted_any mk) \<and> card (counted_any mk) \<le> n \<and>
     (\<forall>k. k \<noteq> [] \<longrightarrow> at_key (rb_phases (fr_bucket st)) k 0 = int (card (counted_under mk k))) \<and>
     rb_findings (fr_bucket st) = int (card (counted_any mk)) \<and>
     (\<forall>u s. 0 \<le> s \<longrightarrow> finding_key u s \<in> set (fr_recent st) \<longrightarrow> s \<le> fst (snd (mk u))) \<and>
     (\<forall>u. 0 \<le> fst (snd (mk u)) \<and> fst (snd (mk u)) \<le> int n \<and> CHR '';'' \<notin> set (snd (snd (mk u))))"

lemma card_update:
  assumes "finite {u. P (f u)}"
  shows "finite {u. P ((f(a := x)) u)} \<and>
    int (card {u. P ((f(a := x)) u)}) =
      int (card {u. P (f u)}) - (if P (f a) then 1 else 0) + (if P x then 1 else 0)"
proof -
  let ?A = "{u. P (f u)}"
  have e: "{u. P ((f(a := x)) u)} = (if P x then insert a ?A else ?A - {a})" by auto
  have "int (card (?A - {a})) = int (card ?A) - 1" if "a \<in> ?A"
    using card_Suc_Diff1 [OF assms that] by linarith
  moreover have "card (insert a ?A) = (if a \<in> ?A then card ?A else Suc (card ?A))"
    using assms by (simp add: insert_absorb)
  ultimately show ?thesis using assms unfolding e by auto
qed

lemma counted_under_finite: "finite (counted_any mk) \<Longrightarrow> k \<noteq> [] \<Longrightarrow> finite (counted_under mk k)"
  by (rule finite_subset [of _ "counted_any mk"]) (auto simp: counted_any_def counted_under_def)

lemma counted_under_le: "finite (counted_any mk) \<Longrightarrow> k \<noteq> [] \<Longrightarrow> card (counted_under mk k) \<le> card (counted_any mk)"
  by (rule card_mono) (auto simp: counted_any_def counted_under_def)

lemma histogram_ok_mono:
  assumes "histogram_ok n st mk" "n \<le> n'"
  shows "histogram_ok n' st mk"
proof -
  note I = assms(1) [unfolded histogram_ok_def]
  have "0 \<le> fst (snd (mk u)) \<and> fst (snd (mk u)) \<le> int n' \<and> CHR '';'' \<notin> set (snd (snd (mk u)))" for u
  proof -
    have "0 \<le> fst (snd (mk u)) \<and> fst (snd (mk u)) \<le> int n \<and> CHR '';'' \<notin> set (snd (snd (mk u)))"
      using I by blast
    then show ?thesis using assms(2) by auto
  qed
  moreover have "card (counted_any mk) \<le> n'" using I assms(2) by linarith
  ultimately show ?thesis unfolding histogram_ok_def using I by blast
qed

text \<open>What both kinds of finding contribution look like: a phase left, a phase entered, never the same.\<close>

definition moves :: "string \<Rightarrow> finding_delta \<Rightarrow> string \<Rightarrow> bool" where
  "moves c0 d ph \<longleftrightarrow> fd_prevPhase d = c0 \<and> fd_phase d = ph \<and> ph \<noteq> c0 \<and>
     fd_count d = (c0 = []) \<and> fd_uncount d = (ph = [])"

lemma total_plan_moves:
  assumes "total_plan f now mk = Some (d, k, mk')"
  shows "moves (fst mk) d (fst mk') \<and> k = finding_key (f_uid f) (i64 (fst (snd mk) + 1)) \<and>
    fst (snd mk') = i64 (fst (snd mk) + 1) \<and>
    (CHR '';'' \<notin> set (snd (snd mk)) \<longrightarrow> CHR '';'' \<notin> set (snd (snd mk')))"
  using assms count_phase_ok [of f now] recommendation_ok [of f now]
  by (auto simp: total_plan_def moves_def uncount_delta_def count_delta_def Let_def split: if_splits prod.splits)

lemma set_recent_Apply: "set (fr_recent (fst (Apply st k c))) \<subseteq> insert k (set (fr_recent st))"
  using finding_once.recent_subset [of st "[(k, c)]"] by auto

lemma histogram_ok_apply:
  assumes "histogram_ok n st mk" "int n < max_int64"
    and "moves (fst (mk u)) d ph" "applied_to st d (finding_key u (fst (snd (mk u)) + 1)) st'"
    and "CHR '';'' \<notin> set rc"
  shows "histogram_ok (Suc n) st' (mk(u := (ph, fst (snd (mk u)) + 1, rc)))"
proof -
  let ?c0 = "fst (mk u)" and ?s0 = "fst (snd (mk u))"
  let ?mk' = "mk(u := (ph, ?s0 + 1, rc))" and ?k = "finding_key u (?s0 + 1)"
  note I = assms(1) [unfolded histogram_ok_def]
  note mv = assms(3) [unfolded moves_def]
  obtain now mo where st': "st' = fst (Apply st ?k \<lparr>ro_delta = FindingContribution d, ro_now = now, ro_month = mo\<rparr>)"
    using assms(4) by (auto simp: applied_to_def)
  have s0: "0 \<le> ?s0 + 1" using I by (simp add: add_nonneg_nonneg)
  have fresh: "?k \<notin> set (fr_recent st)"
  proof
    assume "?k \<in> set (fr_recent st)"
    then have "?s0 + 1 \<le> ?s0" using I s0 by blast
    then show False by simp
  qed
  have b: "fr_bucket st' = applyFinding (fr_bucket st) d" using fresh by (simp add: st' Apply_def)
  have fin: "finite (counted_any mk)" using I by blast
  have any: "finite (counted_any ?mk') \<and> int (card (counted_any ?mk')) =
      int (card (counted_any mk)) - (if ?c0 \<noteq> [] then 1 else 0) + (if ph \<noteq> [] then 1 else 0)"
    using card_update [of "\<lambda>m. fst m \<noteq> []" mk u "(ph, ?s0 + 1, rc)"] fin by (simp add: counted_any_def)
  have und: "int (card (counted_under ?mk' k)) = int (card (counted_under mk k)) -
      (if ?c0 = k then 1 else 0) + (if ph = k then 1 else 0)" if "k \<noteq> []" for k
    using card_update [of "\<lambda>m. fst m = k" mk u "(ph, ?s0 + 1, rc)"] counted_under_finite [OF fin that]
    by (simp add: counted_under_def)
  have bound: "int (card (counted_under mk k)) \<le> int n" if "k \<noteq> []" for k
    using counted_under_le [OF fin that] I by linarith
  have pos: "0 < card (counted_under mk ?c0)" if "?c0 \<noteq> []"
    using counted_under_finite [OF fin that] by (auto simp: card_gt_0_iff counted_under_def)
  have anypos: "0 < card (counted_any mk)" if "?c0 \<noteq> []"
    using fin that by (auto simp: card_gt_0_iff counted_any_def)
  have hist: "at_key (rb_phases (fr_bucket st')) k 0 = int (card (counted_under ?mk' k))" if k: "k \<noteq> []" for k
  proof -
    have h: "at_key (rb_phases (fr_bucket st)) j 0 = int (card (counted_under mk j))" if "j \<noteq> []" for j
      using I that by blast
    have "rb_phases (fr_bucket st') = add_one ph (drop_one ?c0 (rb_phases (fr_bucket st)))"
      using mv by (simp add: b applyFinding_def Let_def)
    then show ?thesis
      using und [OF k] h [OF k] bound [OF k] pos assms(2) k mv
      by (auto simp: at_key_add_one at_key_drop_one i64_id)
  qed
  have f: "rb_findings (fr_bucket st') = int (card (counted_any ?mk'))"
    using any I mv assms(2) anypos
    by (auto simp: b applyFinding_def Let_def i64_id)
  have keys: "s \<le> fst (snd (?mk' v))" if "0 \<le> s" "finding_key v s \<in> set (fr_recent st')" for v s
  proof -
    have sub: "finding_key v s = ?k \<or> finding_key v s \<in> set (fr_recent st)"
      using that(2) set_recent_Apply unfolding st' by blast
    from sub show ?thesis
    proof
      assume "finding_key v s = ?k"
      then have "v = u \<and> s = ?s0 + 1" using finding_key_inj that(1) s0 by blast
      then show ?thesis by simp
    next
      assume "finding_key v s \<in> set (fr_recent st)"
      then have "s \<le> fst (snd (mk v))" using I that(1) by blast
      then show ?thesis by auto
    qed
  qed
  have "card (counted_any ?mk') \<le> Suc n" using any I by (auto split: if_splits)
  moreover have "0 \<le> fst (snd (?mk' v)) \<and> fst (snd (?mk' v)) \<le> int (Suc n) \<and> CHR '';'' \<notin> set (snd (snd (?mk' v)))" for v
  proof -
    have "0 \<le> fst (snd (mk v)) \<and> fst (snd (mk v)) \<le> int n \<and> CHR '';'' \<notin> set (snd (snd (mk v)))"
      "0 \<le> ?s0 \<and> ?s0 \<le> int n" using I by blast+
    then show ?thesis using assms(5) by auto
  qed
  ultimately show ?thesis unfolding histogram_ok_def using any hist f keys by blast
qed


lemma histogram_ok_stage:
  assumes "histogram_ok n st mk" "\<forall>u s. k \<noteq> finding_key u s"
  shows "histogram_ok n (fst (Apply st k \<lparr>ro_delta = StageContribution d, ro_now = now, ro_month = mo\<rparr>)) mk"
proof (cases "k \<in> set (fr_recent st)")
  case True
  then show ?thesis using assms(1) by (simp add: Apply_def)
next
  case False
  let ?st = "fst (Apply st k \<lparr>ro_delta = StageContribution d, ro_now = now, ro_month = mo\<rparr>)"
  note I = assms(1) [unfolded histogram_ok_def]
  have b: "rb_phases (fr_bucket ?st) = rb_phases (fr_bucket st)" "rb_findings (fr_bucket ?st) = rb_findings (fr_bucket st)"
    using False by (simp_all add: Apply_def applyStage_def)
  have "s \<le> fst (snd (mk u))" if "0 \<le> s" "finding_key u s \<in> set (fr_recent ?st)" for u s
  proof -
    have "finding_key u s \<in> set (fr_recent st)"
      using set_recent_Apply [of st k] that(2) assms(2) by blast
    then show ?thesis using I that(1) by blast
  qed
  then show ?thesis unfolding histogram_ok_def b using I by blast
qed

text \<open>Runs contribute to the same rollup; none of it touches the findings' counts.\<close>

lemma child_targets_total:
  assumes "\<And>st d now mo. P st \<Longrightarrow> P (fst (Apply st k \<lparr>ro_delta = StageContribution d, ro_now = now, ro_month = mo\<rparr>))"
  shows "child_targets e k delta mo ts acc = ((w', rest), err) \<Longrightarrow> P (total_status (fst acc)) \<Longrightarrow> P (total_status w')"
proof (induction ts arbitrary: acc)
  case (Cons t ts)
  obtain w conds ch where acc: "acc = (w, conds, ch)" by (cases acc)
  obtain w1 err1 where a: "applyScope e w (tg_scope t) k (StageContribution delta) mo = (w1, err1)" by force
  have "P (total_status w1)"
  proof (cases "rsc_type (tg_scope t) = ScopeTotal")
    case True
    then show ?thesis using applyScope_total [OF a] assms Cons.prems(2) acc by auto
  qed (use applyScope_other [OF a] Cons.prems(2) acc in auto)
  then show ?case using Cons.prems Cons.IH a by (auto simp: acc split: if_splits option.splits)
qed auto

lemma child_total:
  assumes "child e w c fins = (w', rest)" "P (total_status w)"
    and "\<And>st d now mo. P st \<Longrightarrow> P (fst (Apply st (co_ledger c) \<lparr>ro_delta = StageContribution d, ro_now = now, ro_month = mo\<rparr>))"
  shows "P (total_status w')"
proof (cases "\<not> co_settled c \<and> \<not> co_deleting c")
  case True
  then show ?thesis using assms by (simp add: child_def)
next
  case False
  let ?d = "fst (StageDeltaFrom (re_trim e) (co_kind c) (co_stage c) (co_succeeded c) (co_estimate c))"
  obtain w1 conds ch err where run: "child_targets e (co_ledger c) ?d (month_key (re_now e))
      (childScopes (co_repo c) (sd_harness ?d) (sd_model ?d)) (w, co_conditions c, False) = ((w1, conds, ch), err)"
    by (metis prod.exhaust)
  have "w' = w1"
    using assms(1) run False
    by (auto simp: child_def Let_def split: if_splits option.splits bool.splits update_call.splits)
  then show ?thesis using child_targets_total [of P, OF assms(3) run] assms(2) by simp
qed

lemma child_key_other: "\<forall>u s. co_ledger (investigation_child uid ph sg cs dl rp) \<noteq> finding_key u s"
  "\<forall>u s. co_ledger (remediation_child uid ph sc sg es cs dl rp) \<noteq> finding_key u s"
  by (simp_all add: investigation_child_def remediation_child_def finding_key_def)

text \<open>
  The rollup loop as a transition system: the findings by UID, edited by everyone else in any way that
  leaves their rollup marker alone; runs folded in with any API outcome; and findings reconciled. A
  reconcile may fail at any call or lose its status update, and is then repeated while the finding is
  as it was, until one goes through.
\<close>

inductive failed_tries :: "meta_ops \<Rightarrow> finding \<Rightarrow> rollup_world \<Rightarrow> rollup_world \<Rightarrow> bool" for m f where
  none: "failed_tries m f w w"
| again: "failed_tries m f w w1 \<Longrightarrow> re_meta e = m \<Longrightarrow> ReconcileFinding e w1 f fins = (w2, f', fins', r) \<Longrightarrow>
    failed_tries m f w w2"

inductive rollup_reach :: "meta_ops \<Rightarrow> nat \<Rightarrow> rollup_world \<Rightarrow> (string \<Rightarrow> finding) \<Rightarrow> bool" for m where
  start: "(\<And>u. f_uid (fs u) = u) \<Longrightarrow> (\<And>u. total_marker m (fs u) = ([], 0, [])) \<Longrightarrow>
    rollup_reach m 0 (\<lambda>_. None) fs"
| edited: "rollup_reach m n w fs \<Longrightarrow> f_uid f = u \<Longrightarrow> total_marker m f = total_marker m (fs u) \<Longrightarrow>
    rollup_reach m n w (fs(u := f))"
| investigation: "rollup_reach m n w fs \<Longrightarrow>
    child e w (investigation_child uid ph sg cs dl rp) fins = (w', rest) \<Longrightarrow> rollup_reach m n w' fs"
| remediation: "rollup_reach m n w fs \<Longrightarrow>
    child e w (remediation_child uid ph sc sg es cs dl rp) fins = (w', rest) \<Longrightarrow> rollup_reach m n w' fs"
| reconciled: "rollup_reach m n w fs \<Longrightarrow> failed_tries m (fs u) w w1 \<Longrightarrow> re_meta e = m \<Longrightarrow> all_ok e \<Longrightarrow>
    ReconcileFinding e w1 (fs u) fins = (w', f', fins', r) \<Longrightarrow> rollup_reach m (Suc n) w' (fs(u := f'))"

lemma applied_again:
  assumes "applied_to st d k st1" "st2 = st1 \<or> applied_to st1 d k st2"
  shows "st2 = st1"
proof -
  have "k \<in> set (fr_recent st1)" using assms(1) Apply_remembers by (auto simp: applied_to_def)
  then show ?thesis using assms(2) by (auto simp: applied_to_def Apply_def)
qed

lemma failed_tries_total:
  assumes "failed_tries m f w w1" "meta_laws m" "mk = total_marker m f"
    and "CHR '';'' \<notin> set (snd (snd mk))" "0 \<le> fst (snd mk)" "fst (snd mk) < max_int64"
  shows "case total_plan f 0 mk of None \<Rightarrow> total_status w1 = total_status w
    | Some (d, k, mk') \<Rightarrow> total_status w1 = total_status w \<or> applied_to (total_status w) d k (total_status w1)"
  using assms(1)
proof (induction rule: failed_tries.induct)
  case (again w w1 e fins w2 f' fins' r)
  have R: "case total_plan f 0 mk of None \<Rightarrow> total_status w2 = total_status w1
    | Some (d, k, mk') \<Rightarrow> total_status w2 = total_status w1 \<or> applied_to (total_status w1) d k (total_status w2)"
    using reconcile_total [OF _ again.hyps(3), of mk] assms again.hyps(2) total_plan_time [of f "re_now e" mk 0]
    by (auto split: option.splits prod.splits)
  show ?case
  proof (cases "total_plan f 0 mk")
    case (Some p)
    obtain d k mk' where p: "p = (d, k, mk')" by (cases p)
    show ?thesis using R again.IH applied_again [of "total_status w" d k "total_status w1" "total_status w2"]
      by (auto simp: Some p)
  qed (use R again.IH in simp)
qed (simp split: option.splits prod.splits)

lemma rollup_reach_uid: "rollup_reach m n w fs \<Longrightarrow> f_uid (fs u) = u"
proof (induction arbitrary: u rule: rollup_reach.induct)
  case (reconciled n w fs v w1 e fins w' f' fins' r)
  have "f_uid f' = f_uid (fs v)"
    using reconciled.hyps(5)
    by (auto simp: ReconcileFinding_def store_conditions_def split: if_splits option.splits prod.splits sum.splits update_call.splits)
  then show ?case using reconciled by simp
qed auto

lemma rollup_reach_histogram:
  assumes "rollup_reach m n w fs" "meta_laws m" "int n < max_int64"
  shows "histogram_ok n (total_status w) (\<lambda>u. total_marker m (fs u))"
  using assms(1,3)
proof (induction rule: rollup_reach.induct)
  case (start fs)
  then show ?case
    by (simp add: histogram_ok_def counted_any_def counted_under_def total_status_def new_finding_rollup_def at_key_def)
next
  case (edited n w fs f u)
  have "(\<lambda>v. total_marker m ((fs(u := f)) v)) = (\<lambda>v. total_marker m (fs v))"
    using edited.hyps by auto
  then show ?case using edited by simp
next
  case (investigation n w fs e uid ph sg cs dl rp fins w' rest)
  show ?case
  proof (rule child_total [OF investigation.hyps(2), of "\<lambda>st. histogram_ok n st (\<lambda>u. total_marker m (fs u))"])
    show "histogram_ok n (total_status w) (\<lambda>u. total_marker m (fs u))" using investigation by simp
  qed (rule histogram_ok_stage [OF _ child_key_other(1)])
next
  case (remediation n w fs e uid ph sc sg es cs dl rp fins w' rest)
  show ?case
  proof (rule child_total [OF remediation.hyps(2), of "\<lambda>st. histogram_ok n st (\<lambda>u. total_marker m (fs u))"])
    show "histogram_ok n (total_status w) (\<lambda>u. total_marker m (fs u))" using remediation by simp
  qed (rule histogram_ok_stage [OF _ child_key_other(2)])
next
  case (reconciled n w fs u w1 e fins w' f' fins' r)
  let ?mk = "\<lambda>u. total_marker m (fs u)"
  have IH: "histogram_ok n (total_status w) ?mk" using reconciled by simp
  have mu: "0 \<le> fst (snd (?mk u))" "fst (snd (?mk u)) \<le> int n" "CHR '';'' \<notin> set (snd (snd (?mk u)))"
    using IH unfolding histogram_ok_def by blast+
  have lt: "fst (snd (?mk u)) < max_int64" "int n < max_int64" using mu reconciled.prems by simp_all
  have uid: "f_uid (fs u) = u" using reconciled.hyps(1) by (rule rollup_reach_uid)
  note F = failed_tries_total [OF reconciled.hyps(2) assms(2) refl mu(3,1) lt(1)]
  note R = reconcile_total [of e w1 "fs u" fins w' f' fins' r "?mk u", unfolded reconciled.hyps(3),
      OF assms(2) reconciled.hyps(5) refl mu(3,1) lt(1)]
  have T: "total_plan (fs u) (re_now e) (?mk u) = total_plan (fs u) 0 (?mk u)" by (rule total_plan_time)
  have upd: "(\<lambda>v. total_marker m ((fs(u := f')) v)) = ?mk(u := total_marker m f')" by auto
  show ?case
  proof (cases "total_plan (fs u) 0 (?mk u)")
    case None
    then have "total_status w' = total_status w" "total_marker m f' = ?mk u"
      using F R T reconciled.hyps(4) by auto
    then have "?mk(u := total_marker m f') = ?mk" by (simp add: fun_upd_idem)
    then show ?thesis
      using histogram_ok_mono [OF IH, of "Suc n"] \<open>total_status w' = total_status w\<close> unfolding upd by simp
  next
    case (Some p)
    obtain d k mk' where p: "p = (d, k, mk')" by (cases p)
    note P = total_plan_moves [OF Some [unfolded p]]
    have s1: "i64 (fst (snd (?mk u)) + 1) = fst (snd (?mk u)) + 1" using mu lt by (simp add: i64_id)
    have k: "k = finding_key u (fst (snd (?mk u)) + 1)" using P uid s1 by simp
    have mk': "total_marker m f' = mk'" "mk' = (fst mk', fst (snd (?mk u)) + 1, snd (snd mk'))"
      using R T reconciled.hyps(4) P s1 by (auto simp: Some p prod_eq_iff)
    have "applied_to (total_status w) d k (total_status w')"
    proof -
      have a: "applied_to (total_status w1) d k (total_status w')"
        using R T reconciled.hyps(4) by (simp add: Some p)
      have "total_status w1 = total_status w \<or> applied_to (total_status w) d k (total_status w1)"
        using F by (simp add: Some p)
      then show ?thesis
      proof
        assume b: "applied_to (total_status w) d k (total_status w1)"
        have "total_status w' = total_status w1" by (rule applied_again [OF b disjI2 [OF a]])
        then show ?thesis using b by simp
      qed (use a in simp)
    qed
    then have "histogram_ok (Suc n) (total_status w') (?mk(u := (fst mk', fst (snd (?mk u)) + 1, snd (snd mk'))))"
      using histogram_ok_apply [OF IH lt(2), of u d "fst mk'" "total_status w'" "snd (snd mk')"] P mu(3) k by simp
    then show ?thesis unfolding upd mk'(1) using mk'(2) by simp
  qed
qed


text \<open>
  C19. The rollup counts every finding exactly once, under the phase its marker names. Whatever findings
  are edited, retried, revived and reconciled in any order, and whatever calls fail, are lost or
  conflict in a reconcile that is then repeated on the same finding, the total rollup's histogram holds
  under each terminal phase exactly the number of findings whose marker says they are counted there,
  and its findings counter the number of findings counted at all.
\<close>

theorem rollup_counts_findings:
  assumes "rollup_reach m n w fs" "meta_laws m" "int n < max_int64"
  shows "(\<forall>k. k \<noteq> [] \<longrightarrow> at_key (rb_phases (fr_bucket (total_status w))) k 0 =
      int (card {u. fst (total_marker m (fs u)) = k})) \<and>
    rb_findings (fr_bucket (total_status w)) = int (card {u. fst (total_marker m (fs u)) \<noteq> []})"
  using rollup_reach_histogram [OF assms]
  unfolding histogram_ok_def counted_under_def counted_any_def by blast

definition demo_finding_spec :: finding_spec where
  "demo_finding_spec = \<lparr>integrationRef = ''gh'', trackingRef = None, source = ''ghas'', repository = None,
     cloudResource = None, alerts = [], overflowAlerts = 0, advisories = [], ruleID = [], title = ''t'', description = [], spec_severity = LevelHigh,
     suspend = False, spec_approval = None, spec_retry = None, expedite = None\<rparr>"

definition demo_finding :: "string \<Rightarrow> phase \<Rightarrow> finding" where
  "demo_finding uid p = \<lparr>f_name = ''f'', f_namespace = ''ns'', f_uid = uid, f_generation = 1,
     f_deleting = False, spec = demo_finding_spec,
     status = fresh_status\<lparr>phase := p, completedAt := (if Terminal p then Some 0 else None)\<rparr>\<rparr>"

definition at_phase :: "finding \<Rightarrow> phase \<Rightarrow> finding" where
  "at_phase f p = f\<lparr>status := (status f)\<lparr>phase := p, completedAt := (if Terminal p then Some 0 else None)\<rparr>\<rparr>"

lemma rollup_counts_findings_witness:
  "rb_findings (fr_bucket (total_status (fst (ReconcileFinding demo_env (\<lambda>_. None)
     (demo_finding ''7'' PhaseFailed) [])))) =
   int (card {u. fst (total_marker demo_meta (((\<lambda>u. demo_finding u PhaseFailed)(''7'' := fst (snd
     (ReconcileFinding demo_env (\<lambda>_. None) (demo_finding ''7'' PhaseFailed) [])))) u)) \<noteq> []})"
proof -
  let ?r = "ReconcileFinding demo_env (\<lambda>_. None) (demo_finding ''7'' PhaseFailed) []"
  have s: "rollup_reach demo_meta 0 (\<lambda>_. None) (\<lambda>u. demo_finding u PhaseFailed)"
    by (rule rollup_reach.start)
      (simp_all add: demo_finding_def total_marker_def counted_marker_def demo_meta_def fresh_status_def)
  have "rollup_reach demo_meta (Suc 0) (fst ?r) ((\<lambda>u. demo_finding u PhaseFailed)(''7'' := fst (snd ?r)))"
  proof (rule rollup_reach.reconciled [OF s failed_tries.none])
    show "re_meta demo_env = demo_meta" "all_ok demo_env" by (simp_all add: demo_env_def all_ok_def)
    show "ReconcileFinding demo_env (\<lambda>_. None) (demo_finding ''7'' PhaseFailed) [] =
        (fst ?r, fst (snd ?r), fst (snd (snd ?r)), snd (snd (snd ?r)))" by simp
  qed
  from rollup_counts_findings [OF this demo_meta_laws] show ?thesis by simp
qed

lemma total_plan_marks:
  assumes "total_plan f now mk = p" "\<not> Terminal (phase (status f)) \<or> is_terminal f \<or> f_deleting f"
  shows "fst (case p of None \<Rightarrow> mk | Some (d, k, mk') \<Rightarrow> mk') =
    (if is_terminal f \<or> f_deleting f then fc_phase (counts_of f now) else [])"
  using assms by (auto simp: total_plan_def count_delta_def split: if_splits prod.splits)

text \<open>
  A reconcile that goes through leaves the marker true: a finding in a terminal phase (with its
  completion time) is counted under that phase, one deleted mid-flight as deleted, and one back in
  flight is not counted.
\<close>

theorem reconcile_marks_phase:
  assumes "meta_laws (re_meta e)" "ReconcileFinding e w f fins = (w', f', fins', r)" "all_ok e"
    and "0 \<le> fst (snd (total_marker (re_meta e) f))" "fst (snd (total_marker (re_meta e) f)) < max_int64"
    and "CHR '';'' \<notin> set (snd (snd (total_marker (re_meta e) f)))"
    and "\<not> Terminal (phase (status f)) \<or> is_terminal f \<or> f_deleting f"
  shows "fst (total_marker (re_meta e) f') =
    (if is_terminal f then PhaseKey (phase (status f)) else if f_deleting f then ''deleted'' else [])"
proof -
  let ?mk = "total_marker (re_meta e) f" and ?p = "total_plan f (re_now e) (total_marker (re_meta e) f)"
  have "total_marker (re_meta e) f' = (case ?p of None \<Rightarrow> ?mk | Some (d, k, mk') \<Rightarrow> mk')"
    using reconcile_total [OF assms(1,2) refl assms(6,4,5)] assms(3) by (auto split: option.splits prod.splits)
  then show ?thesis using total_plan_marks [OF refl assms(7), where now = "re_now e" and mk = ?mk] by (auto simp: counts_of_def)
qed

lemma reconcile_marks_phase_witness:
  "fst (total_marker demo_meta (fst (snd (ReconcileFinding demo_env (\<lambda>_. None)
     (demo_finding ''7'' PhaseFailed) [])))) = ''failed''"
proof -
  let ?r = "ReconcileFinding demo_env (\<lambda>_. None) (demo_finding ''7'' PhaseFailed) []"
  have e: "re_meta demo_env = demo_meta" "all_ok demo_env" by (simp_all add: demo_env_def all_ok_def)
  have m: "total_marker demo_meta (demo_finding ''7'' PhaseFailed) = ([], 0, [])"
    by (simp add: demo_finding_def total_marker_def counted_marker_def demo_meta_def fresh_status_def)
  have t: "is_terminal (demo_finding ''7'' PhaseFailed)" "phase (status (demo_finding ''7'' PhaseFailed)) = PhaseFailed"
    by (simp_all add: is_terminal_def demo_finding_def fresh_status_def)
  have k: "PhaseKey PhaseFailed = ''failed''" by code_simp
  have "?r = (fst ?r, fst (snd ?r), fst (snd (snd ?r)), snd (snd (snd ?r)))" by simp
  from reconcile_marks_phase [OF _ this] show ?thesis
    using e m t k demo_meta_laws by simp
qed


end
