(* ===== verification/Utf8.thy ===== *)
theory Utf8
  imports Prelude
begin

text \<open>
  UTF-8 as Go reads it: \<open>utf8.ValidString\<close> with its exact ranges (no surrogates, no overlong forms,
  nothing above U+10FFFF), and the rune-boundary truncation the controllers apply to every text
  they store (\<open>truncate\<close> in \<open>internal/agentresult/agentresult.go\<close> and, word for word,
  \<open>internal/controller/integration/ingest.go\<close>). The theorem says what truncation keeps.
\<close>

definition cont :: "char \<Rightarrow> bool" where "cont c \<longleftrightarrow> 128 \<le> byte c \<and> byte c \<le> 191"

definition in_bytes :: "nat \<Rightarrow> nat \<Rightarrow> char \<Rightarrow> bool" where
  "in_bytes lo hi c \<longleftrightarrow> lo \<le> byte c \<and> byte c \<le> hi"

text \<open>The range the second byte must lie in, for a leading byte of three and of four.\<close>

definition second3 :: "char \<Rightarrow> char \<Rightarrow> bool" where
  "second3 a = in_bytes (if byte a = 224 then 160 else 128) (if byte a = 237 then 159 else 191)"

definition second4 :: "char \<Rightarrow> char \<Rightarrow> bool" where
  "second4 a = in_bytes (if byte a = 240 then 144 else 128) (if byte a = 244 then 143 else 191)"

fun valid_utf8 :: "string \<Rightarrow> bool" where
  "valid_utf8 [] = True"
| "valid_utf8 (a # s) =
     (if byte a < 128 then valid_utf8 s
      else if in_bytes 194 223 a then
        (case s of b # t \<Rightarrow> cont b \<and> valid_utf8 t | _ \<Rightarrow> False)
      else if in_bytes 224 239 a then
        (case s of b # c # t \<Rightarrow> second3 a b \<and> cont c \<and> valid_utf8 t | _ \<Rightarrow> False)
      else if in_bytes 240 244 a then
        (case s of b # c # d # t \<Rightarrow> second4 a b \<and> cont c \<and> cont d \<and> valid_utf8 t | _ \<Rightarrow> False)
      else False)"

lemma valid_ascii: "list_all is_ascii s \<Longrightarrow> valid_utf8 s"
  by (induction s) (auto simp: is_ascii_def)

text \<open>The loop \<open>for len(cut) > 0 && !utf8.ValidString(cut)\<close>, from a cut of \<open>n\<close> bytes down.\<close>

primrec shrink :: "string \<Rightarrow> nat \<Rightarrow> string" where
  "shrink s 0 = []"
| "shrink s (Suc n) = (if valid_utf8 (take (Suc n) s) then take (Suc n) s else shrink s n)"

definition truncate_utf8 :: "string \<Rightarrow> nat \<Rightarrow> string" where
  "truncate_utf8 s limit = (if length s \<le> limit then s else shrink s limit)"

lemma shrink_prefix: "prefix (shrink s n) s \<and> length (shrink s n) \<le> n \<and> valid_utf8 (shrink s n)"
  by (induction n) (auto simp: take_is_prefix)

lemma shrink_reaches:
  "k \<le> n \<Longrightarrow> valid_utf8 (take k s) \<Longrightarrow> length (take k s) \<le> length (shrink s n)"
proof (induction n)
  case (Suc n)
  then show ?case by (cases "k = Suc n") auto
qed simp

text \<open>A rune is at most four bytes, so a cut of a valid string lies at most three bytes past a boundary.\<close>

lemma boundary_near:
  assumes "valid_utf8 s" "n \<le> length s"
  shows "\<exists>k\<le>n. n \<le> k + 3 \<and> valid_utf8 (take k s)"
  using assms
proof (induction s arbitrary: n rule: length_induct)
  case (1 s)
  show ?case
  proof (cases "n \<le> 3")
    case True
    then show ?thesis by (intro exI [of _ 0]) auto
  next
    case False
    have step: "\<exists>k\<le>n. n \<le> k + 3 \<and> valid_utf8 (take k s)"
      if s: "s = r @ t" "valid_utf8 t" "length r \<le> 4" "r \<noteq> []"
        and r: "\<And>u. valid_utf8 u \<Longrightarrow> valid_utf8 (r @ u)" for r t
    proof -
      have "length t < length s" using s by simp
      moreover have "n - length r \<le> length t" using 1(3) s by simp
      ultimately obtain k where k: "k \<le> n - length r" "n - length r \<le> k + 3" "valid_utf8 (take k t)"
        using 1(1) s(2) by blast
      have "valid_utf8 (take (length r + k) s)" using r [OF k(3)] s(1) by simp
      then show ?thesis using k False s(3) by (intro exI [of _ "length r + k"]) auto
    qed
    obtain a s' where a: "s = a # s'" using False 1(3) by (cases s) auto
    note V = 1(2) [unfolded a]
    consider "byte a < 128" | "\<not> byte a < 128" "in_bytes 194 223 a"
      | "\<not> byte a < 128" "\<not> in_bytes 194 223 a" "in_bytes 224 239 a"
      | "\<not> byte a < 128" "\<not> in_bytes 194 223 a" "\<not> in_bytes 224 239 a" "in_bytes 240 244 a"
      using V by (auto split: if_splits)
    then show ?thesis
    proof cases
      case 1
      then show ?thesis using V by (intro step [of "[a]" s']) (auto simp: a)
    next
      case 2
      then obtain b t where "s' = b # t" "cont b" "valid_utf8 t" using V by (auto split: list.splits)
      then show ?thesis using 2 by (intro step [of "[a, b]" t]) (auto simp: a)
    next
      case 3
      then obtain b c t where "s' = b # c # t" "second3 a b" "cont c" "valid_utf8 t"
        using V by (auto split: list.splits)
      then show ?thesis using 3 by (intro step [of "[a, b, c]" t]) (auto simp: a)
    next
      case 4
      then obtain b c d t where "s' = b # c # d # t" "second4 a b" "cont c" "cont d" "valid_utf8 t"
        using V by (auto split: list.splits)
      then show ?thesis using 4 by (intro step [of "[a, b, c, d]" t]) (auto simp: a)
    qed
  qed
qed

text \<open>
  Truncation keeps valid text valid and cuts no more than it must: the result is a prefix of at
  most the limit, valid UTF-8, the whole text when it fits, and otherwise at most three bytes short
  of the limit.
\<close>

theorem truncate_keeps:
  assumes "valid_utf8 s"
  shows "prefix (truncate_utf8 s limit) s \<and> valid_utf8 (truncate_utf8 s limit) \<and>
    length (truncate_utf8 s limit) \<le> limit \<and>
    (if length s \<le> limit then truncate_utf8 s limit = s else limit \<le> length (truncate_utf8 s limit) + 3)"
proof (cases "length s \<le> limit")
  case False
  then obtain k where k: "k \<le> limit" "limit \<le> k + 3" "valid_utf8 (take k s)"
    using boundary_near [OF assms, of limit] by auto
  then have "length (take k s) = k" using False by simp
  then have "limit \<le> length (shrink s limit) + 3" using shrink_reaches [OF k(1,3)] k(2) by simp
  then show ?thesis using False shrink_prefix [of s limit] by (simp add: truncate_utf8_def)
qed (use assms in \<open>simp add: truncate_utf8_def\<close>)

definition e_acute :: string where "e_acute = [char_of (195 :: nat), char_of (169 :: nat)]"

lemma truncate_keeps_witness: "truncate_utf8 (e_acute @ e_acute) 3 = e_acute"
proof -
  have "valid_utf8 (e_acute @ e_acute)" by code_simp
  from truncate_keeps [OF this, of 3] show ?thesis by code_simp
qed

end
