(* ===== verification/Runs.thy ===== *)
theory Runs
  imports Complex_Main Finding Utf8 Attribution
begin

text \<open>
  What the run controllers share: the operator's pause (\<open>api/v1alpha1/paused.go\<close>), the text bounds,
  failure stages and retry hints of \<open>internal/agentresult/agentresult.go\<close>, and the repository-image
  guard of \<open>internal/runnerguard\<close>: when a launch may run the image a repository declares, what a
  collector does with an unfinished Job, and the marks that keep an attempt from being counted.
  Confidences are rationals: every value a JSON number decodes to is one, and \<open>FormatFloat(f, 'f', 4, 64)\<close>
  rounds it to the nearest multiple of 1/10000, ties to even.
\<close>

subsection \<open>The pause\<close>

definition HeldByPause :: "bool \<Rightarrow> run_phase \<Rightarrow> string option \<Rightarrow> bool" where
  "HeldByPause paused p job =
     (if \<not> paused then False
      else (case p of RunUnset \<Rightarrow> True | RunPending \<Rightarrow> True | RunRunning \<Rightarrow> job = None | _ \<Rightarrow> False))"

definition AgentsPausedMessage :: string where
  "AgentsPausedMessage =
     ''agents are paused by the operator (Helm agent.paused, --agents-paused): this run launches once the pause is lifted''"

definition paused_condition :: condition where
  "paused_condition = \<lparr>ctype = ConditionAgentsPaused, cstatus = ''True'', creason = ''Paused'',
     cmessage = AgentsPausedMessage, cgeneration = 0\<rparr>"

definition SyncAgentsPaused :: "meta_ops \<Rightarrow> condition list \<Rightarrow> bool \<Rightarrow> condition list \<times> bool" where
  "SyncAgentsPaused m conds held =
     (if \<not> held then (removeStatusCondition m conds ConditionAgentsPaused,
                      remove_changes m conds ConditionAgentsPaused)
      else (setStatusCondition m conds paused_condition, set_changes m conds paused_condition))"

lemma SyncAgentsPaused_settles:
  assumes "meta_laws m" "SyncAgentsPaused m conds held = (conds', changed)"
  shows "(isStatusConditionTrue m conds' ConditionAgentsPaused \<longleftrightarrow> held) \<and>
     snd (SyncAgentsPaused m conds' held) = False \<and>
     (t \<noteq> ConditionAgentsPaused \<longrightarrow> findStatusCondition m conds' t = findStatusCondition m conds t)"
  using assms
  by (auto simp: SyncAgentsPaused_def set_changes_def remove_changes_def meta_find_set meta_find_remove meta_true
      paused_condition_def split: if_splits)

subsection \<open>Bounds on stored text\<close>

abbreviation maxReport :: nat where "maxReport \<equiv> 65536"
abbreviation maxDetail :: nat where "maxDetail \<equiv> 4096"

definition TruncateReport :: "string \<Rightarrow> string" where
  "TruncateReport s = truncate_utf8 s maxReport"

definition TruncateDetail :: "string \<Rightarrow> string" where
  "TruncateDetail s = truncate_utf8 s maxDetail"

subsection \<open>What a retry is told\<close>

definition failureOutcomes :: "string list" where
  "failureOutcomes = [''runtime_error'', ''timeout'', ''budget_exceeded'', ''report_missing'', ''report_invalid'',
     ''commit_failed'', ''changeset_too_large'', ''image_incompatible'', ''changeset_rejected'', ''aborted'']"

definition PreviousAttempt :: "string \<Rightarrow> int \<Rightarrow> 'a stage_result_scheme option \<Rightarrow> previous_attempt option" where
  "PreviousAttempt name attempt st =
     (case st of
        None \<Rightarrow> None
      | Some s \<Rightarrow> Some \<lparr>pa_name = name, pa_attempt = attempt,
          pa_outcome = (if sr_outcome s \<in> set failureOutcomes then sr_outcome s else ''unknown''),
          pa_detail = TruncateDetail (sr_detail s)\<rparr>)"

text \<open>\<open>FailedStage\<close>: the agent's own stage when it reported one, with the verdict written over.\<close>

definition empty_stage :: stage_result where
  "empty_stage = \<lparr>sr_outcome = [], sr_harness = [], sr_model = [], sr_detail = []\<rparr>"

definition FailedStage :: "stage_result option \<Rightarrow> string \<Rightarrow> string \<Rightarrow> stage_result" where
  "FailedStage reported outcome detail =
     (case reported of None \<Rightarrow> empty_stage | Some st \<Rightarrow> st)\<lparr>sr_outcome := outcome, sr_detail := detail\<rparr>"

subsection \<open>Confidence\<close>

definition round_even :: "rat \<Rightarrow> int" where
  "round_even x =
     (let n = \<lfloor>x\<rfloor>; r = x - of_int n
      in if r < 1 / 2 \<or> r = 1 / 2 \<and> even n then n else n + 1)"

definition pad4 :: "int \<Rightarrow> string" where
  "pad4 n = map (\<lambda>d. char_of (48 + nat (n div d mod 10) :: nat)) [1000, 100, 10, 1]"

definition FormatConfidence :: "rat \<Rightarrow> string" where
  "FormatConfidence f =
     (if f < 0 \<or> 1 < f then []
      else let n = round_even (f * 10000) in show_int (n div 10000) @ ''.'' @ pad4 (n mod 10000))"

text \<open>The pattern of the field in the schema (\<open>api/v1alpha1/investigation_types.go\<close>).\<close>

definition ConfidencePattern :: rx where
  "ConfidencePattern =
     Alt (Seq (lit ''0'') (Rep 0 1 (Seq (lit ''.'') (Rep 1 4 (Cls is_digit)))))
         (Seq (lit ''1'') (Rep 0 1 (Seq (lit ''.'') (Rep 1 4 (Cls (\<lambda>c. c = CHR ''0''))))))"

lemma round_even_range:
  assumes "0 \<le> x" "x \<le> 10000"
  shows "0 \<le> round_even x \<and> round_even x \<le> 10000"
proof -
  obtain n where n: "n = \<lfloor>x\<rfloor>" by simp
  have lo: "0 \<le> n" and hi: "n \<le> 10000" using assms floor_mono [of x 10000] by (simp_all add: n)
  have r: "round_even x = n \<or> round_even x = n + 1" by (simp add: round_even_def Let_def n)
  show ?thesis
  proof (cases "n = 10000")
    case True
    then have "x = 10000" using assms of_int_floor_le [of x] by (simp add: n)
    then show ?thesis by (simp add: round_even_def)
  next
    case False
    then show ?thesis using lo hi r by linarith
  qed
qed

lemma digit_char: "0 \<le> n \<Longrightarrow> is_digit (char_of (48 + nat (n mod 10) :: nat))"
proof -
  have "nat (n mod 10) < 10" by (simp add: nat_less_iff)
  then show "is_digit (char_of (48 + nat (n mod 10) :: nat))" by (simp add: is_digit_def)
qed

lemma pad4_digits: "0 \<le> n \<Longrightarrow> list_all is_digit (pad4 n) \<and> length (pad4 n) = 4"
  using digit_char [of "n div 1000"] digit_char [of "n div 100"] digit_char [of "n div 10"] digit_char [of n]
  by (simp add: pad4_def pos_imp_zdiv_nonneg_iff)

text \<open>
  A confidence is always stored in a form the schema admits: the rendering of any confidence the
  agent reports is empty when it is out of range, and otherwise matches the field's pattern.
\<close>

theorem FormatConfidence_valid:
  "FormatConfidence f = [] \<and> (f < 0 \<or> 1 < f) \<or>
   0 \<le> f \<and> f \<le> 1 \<and> rx_match ConfidencePattern (FormatConfidence f)"
proof (cases "f < 0 \<or> 1 < f")
  case False
  let ?n = "round_even (f * 10000)"
  have n: "0 \<le> ?n" "?n \<le> 10000" using round_even_range [of "f * 10000"] False by auto
  have F: "FormatConfidence f = show_int (?n div 10000) @ ''.'' @ pad4 (?n mod 10000)"
    using False by (simp add: FormatConfidence_def Let_def)
  have frac: "rx_match (Rep 0 1 (Seq (lit ''.'') (Rep 1 4 (Cls p)))) (''.'' @ d)"
    if "list_all p d" "length d = 4" for p d
  proof -
    have "rx_match (Seq (lit ''.'') (Rep 1 4 (Cls p))) (''.'' @ d)"
      unfolding match_Seq by (intro exI [of _ "''.''"] exI [of _ d]) (use that in \<open>simp add: match_Rep_Cls\<close>)
    then show ?thesis unfolding rx_match_lang lang.simps in_reps
      by (intro exI [of _ "[''.'' @ d]"]) auto
  qed
  show ?thesis
  proof (cases "?n = 10000")
    case True
    have "show_int (10000 div 10000) @ ''.'' @ pad4 (10000 mod 10000) = ''1.0000''" by code_simp
    moreover have "rx_match ConfidencePattern ''1.0000''" by code_simp
    ultimately show ?thesis using False unfolding F True by (simp only:) simp
  next
    case False
    then have "?n div 10000 = 0" using n by simp
    moreover have "show_int 0 = ''0''" by code_simp
    ultimately have "show_int (?n div 10000) = ''0''" by simp
    moreover have "rx_match (Seq (lit ''0'') (Rep 0 1 (Seq (lit ''.'') (Rep 1 4 (Cls is_digit)))))
        (''0'' @ ''.'' @ pad4 (?n mod 10000))"
      unfolding match_Seq using frac pad4_digits [of "?n mod 10000"]
      by (intro exI [of _ "''0''"] exI [of _ "''.'' @ pad4 (?n mod 10000)"]) (simp add: match_lit)
    ultimately show ?thesis using \<open>\<not> (f < 0 \<or> 1 < f)\<close>
      unfolding F ConfidencePattern_def match_Alt by simp
  qed
qed (simp add: FormatConfidence_def)

subsection \<open>The repository-image guard\<close>

record runner_image =
  ri_image :: string
  ri_searchPath :: string
  ri_manifest :: string
  ri_rejected :: string

record job_image =
  js_runnerImage :: string
  js_runnerSearchPath :: string
  js_runnerImageManifest :: string

record guard =
  g_enabled :: bool
  g_tripped :: bool

definition SkipDisabled :: string where "SkipDisabled = ''repository images are disabled''"
definition SkipBreaker :: string where "SkipBreaker = ''the sandbox breaker is tripped''"
definition SkipRevived :: string where
  "SkipRevived = ''a human revived the finding, so it runs on the default image''"
definition SkipNoImage :: string where "SkipNoImage = ''the repository declares no runner image maul can use''"
definition SkipRejected :: string where
  "SkipRejected = ''the repository's runner-image declaration was rejected''"

definition Revived :: "finding \<Rightarrow> bool" where
  "Revived f \<longleftrightarrow>
     list_ex (\<lambda>pt. pt_phase pt = PhaseHandedOff \<or> pt_phase pt = PhaseFailed) (phaseTimes (status f))"

definition copy_image :: "runner_image \<Rightarrow> job_image \<Rightarrow> job_image" where
  "copy_image ri sp = sp\<lparr>js_runnerImage := ri_image ri, js_runnerSearchPath := ri_searchPath ri,
     js_runnerImageManifest := ri_manifest ri\<rparr>"

definition Pin :: "guard \<Rightarrow> job_image \<Rightarrow> runner_image option \<Rightarrow> finding \<Rightarrow> job_image \<times> string" where
  "Pin g sp ri fnd =
     (case ri of
        None \<Rightarrow> (sp, [])
      | Some i \<Rightarrow>
          if ri_image i = [] then (sp, [])
          else if \<not> g_enabled g then (sp, SkipDisabled)
          else if g_tripped g then (sp, SkipBreaker)
          else if Revived fnd then (sp, SkipRevived)
          else (copy_image i sp, []))"

definition PinFor :: "guard \<Rightarrow> job_image \<Rightarrow> runner_image option \<Rightarrow> job_image \<times> string" where
  "PinFor g sp ri =
     (case ri of
        None \<Rightarrow> (sp, SkipNoImage)
      | Some i \<Rightarrow>
          if ri_rejected i \<noteq> [] then (sp, SkipRejected)
          else if ri_image i = [] then (sp, SkipNoImage)
          else if \<not> g_enabled g then (sp, SkipDisabled)
          else if g_tripped g then (sp, SkipBreaker)
          else (copy_image i sp, []))"

lemmas skip_defs = SkipDisabled_def SkipBreaker_def SkipRevived_def SkipNoImage_def SkipRejected_def

lemma Pin_default_unless_safe:
  assumes "Pin g sp ri fnd = (sp', skipped)" "js_runnerImage sp = []" "js_runnerImage sp' \<noteq> []"
  shows "g_enabled g \<and> \<not> g_tripped g \<and> \<not> Revived fnd \<and> skipped = []"
  using assms by (auto simp: Pin_def skip_defs split: option.splits if_splits)

lemma PinFor_exact:
  assumes "PinFor g sp ri = (sp', skipped)"
  shows "(skipped = [] \<longleftrightarrow>
     (\<exists>i. ri = Some i \<and> ri_rejected i = [] \<and> ri_image i \<noteq> [] \<and> g_enabled g \<and> \<not> g_tripped g)) \<and>
     (skipped \<noteq> [] \<longrightarrow> sp' = sp)"
  using assms by (auto simp: PinFor_def skip_defs split: option.splits if_splits)

definition breaker_trip :: "guard \<Rightarrow> guard" where "breaker_trip g = g\<lparr>g_tripped := True\<rparr>"

subsection \<open>Unfinished Jobs\<close>

record job_status =
  j_done :: bool
  j_created :: time
  j_waiting :: string
  j_agentStarted :: bool
  j_waitingMessage :: string
  j_initExitCode :: "int option"
  j_imageSource :: string

definition PullGrace :: duration where "PullGrace = 2 * nano_minute"
definition PullPoll :: duration where "PullPoll = 30 * nano_second"
definition ExitSandboxUnenforced :: int where "ExitSandboxUnenforced = 78"

fun contains_str :: "string \<Rightarrow> string \<Rightarrow> bool" where
  "contains_str sub [] = (sub = [])"
| "contains_str sub (c # s) = (prefix sub (c # s) \<or> contains_str sub s)"

lemma contains_str_iff: "contains_str sub s \<longleftrightarrow> (\<exists>a b. s = a @ sub @ b)"
proof (induction s)
  case (Cons c s)
  have "(\<exists>a b. c # s = a @ sub @ b) \<longleftrightarrow> prefix sub (c # s) \<or> (\<exists>a b. s = a @ sub @ b)"
  proof
    assume "\<exists>a b. c # s = a @ sub @ b"
    then obtain a b where "c # s = a @ sub @ b" by blast
    then show "prefix sub (c # s) \<or> (\<exists>a b. s = a @ sub @ b)" by (cases a) auto
  next
    assume "prefix sub (c # s) \<or> (\<exists>a b. s = a @ sub @ b)"
    then show "\<exists>a b. c # s = a @ sub @ b"
    proof
      assume "prefix sub (c # s)"
      then show ?thesis by (auto simp: prefix_def intro: exI [of _ "[]"])
    next
      assume "\<exists>a b. s = a @ sub @ b"
      then obtain a b where "s = a @ sub @ b" by blast
      then show ?thesis by (intro exI [of _ "c # a"] exI [of _ b]) simp
    qed
  qed
  then show ?case using Cons by simp
qed simp

definition deterministicPull :: "(string \<Rightarrow> string) \<Rightarrow> string \<Rightarrow> string \<Rightarrow> bool" where
  "deterministicPull ul reason message =
     (if reason \<in> {''InvalidImageName'', ''CreateContainerConfigError''} then True
      else if reason \<in> {''ErrImagePull'', ''ImagePullBackOff''} then
        contains_str ''manifest unknown'' (to_lower ul message) \<or> contains_str ''not found'' (to_lower ul message)
      else False)"

definition Pending :: "(string \<Rightarrow> string) \<Rightarrow> job_status \<Rightarrow> time \<Rightarrow> duration \<times> string" where
  "Pending ul st now =
     (if j_done st \<or> j_imageSource st \<noteq> RunnerImageSourceRepository then (0, [])
      else let elapsed = time_sub now (j_created st)
      in if elapsed < PullGrace then (i64 (PullGrace - elapsed), [])
         else if deterministicPull ul (j_waiting st) (j_waitingMessage st) then
           (0, ''agent image pull failed: '' @ j_waiting st @
               (if j_waitingMessage st \<noteq> [] then '': '' @ j_waitingMessage st else []))
         else if \<not> j_agentStarted st then (PullPoll, [])
         else (0, []))"

definition SandboxRefused :: "job_status \<Rightarrow> bool" where
  "SandboxRefused st \<longleftrightarrow>
     j_imageSource st = RunnerImageSourceRepository \<and> j_initExitCode st = Some ExitSandboxUnenforced"

definition SandboxReason :: string where
  "SandboxReason = ''SandboxUnenforced: the sandbox probe found the agent pod's egress open (prepare exited 78): NetworkPolicy is not enforced, so repository-declared runner images are refused until the controller restarts''"

definition RefusedCondition :: "int \<Rightarrow> condition" where
  "RefusedCondition gen = \<lparr>ctype = ConditionSandboxRefused, cstatus = ''True'',
     creason = ''SandboxUnenforced'', cmessage = SandboxReason, cgeneration = gen\<rparr>"

definition HeldDetail :: "string \<Rightarrow> string" where
  "HeldDetail skipped = ''the repository declares an agent image but this run cannot use it ('' @ skipped @
     ''), and maul's default image carries none of the repository's toolchain, so a fix there could not be built or tested; approve the finding to remediate it on the default image anyway, untested''"

definition HeldCondition :: "int \<Rightarrow> string \<Rightarrow> condition" where
  "HeldCondition gen skipped = \<lparr>ctype = ConditionDefaultImageHeld, cstatus = ''True'',
     creason = ''RepositoryImageUnavailable'', cmessage = HeldDetail skipped, cgeneration = gen\<rparr>"

definition Refused :: "meta_ops \<Rightarrow> condition list \<Rightarrow> bool" where
  "Refused m conds = isStatusConditionTrue m conds ConditionSandboxRefused"

definition Held :: "meta_ops \<Rightarrow> condition list \<Rightarrow> bool" where
  "Held m conds = isStatusConditionTrue m conds ConditionDefaultImageHeld"

text \<open>
  A collector that finds a pull it must give up on is past the grace; until the grace is over it is
  told to look again, after a positive time of at most the grace.
\<close>

lemma Pending_grace:
  assumes "Pending ul st now = (wait, failure)"
  shows "(failure \<noteq> [] \<longrightarrow> \<not> j_done st \<and> PullGrace \<le> time_sub now (j_created st) \<and> wait = 0) \<and>
    (0 \<le> now - j_created st \<longrightarrow> 0 \<le> wait \<and> wait \<le> PullGrace)"
  using assms
  by (auto simp: Pending_def Let_def time_sub_def PullGrace_def PullPoll_def i64_id split: if_splits)

end
