(* ===== verification/Cluster.thy ===== *)
theory Cluster
  imports Runs
begin

text \<open>
  The objects of one finding's life as the API server stores them: the Finding, its Investigations and
  Remediations by name, its Repository; and what a controller does to them. A reconcile reads objects
  and then makes calls; it is modelled as the list of the calls it makes, each of them a function of
  the object as stored when the call runs. \<open>retry.RetryOnConflict(func() { Get; change; Update })\<close> is
  one such call: a conflicting update is repeated on the fresh object, so the update that takes effect
  is the change applied to the stored object. A call that changes nothing (an early \<open>return nil\<close>) is
  \<open>Skip\<close>, one that returns an error before its update \<open>Fail\<close>. \<open>run_effects n\<close> carries out the first
  \<open>n\<close> calls: a controller may crash, be stopped, or have the API server refuse a call between any two.
\<close>

subsection \<open>Runs\<close>

record run_stage = stage_result +
  st_finishedAt :: "time option"
  st_transcript :: "string option"

record inv_run =
  iv_name :: string
  iv_generation :: int
  iv_deleting :: bool
  iv_created :: time
  iv_finalizers :: "string list"
  iv_severity :: level
  iv_findingName :: string
  iv_findingUID :: string
  iv_attempt :: int
  iv_repositoryRef :: "string option"
  iv_parameters :: agent_parameters
  iv_previousAttempt :: "previous_attempt option"
  iv_attributedTo :: "attribution option"
  iv_phase :: run_phase
  iv_jobRef :: "string option"
  iv_runnerImage :: "runner_image_ref option"
  iv_stage :: "run_stage option"
  iv_exploitability :: "(rating \<times> string) option"
  iv_likelihood :: "(rating \<times> string) option"
  iv_impact :: "(rating \<times> string) option"
  iv_recommendation :: recommendation
  iv_confidence :: string
  iv_assessedSeverity :: level
  iv_priority :: level
  iv_awaitApproval :: bool
  iv_holdReasons :: "hold_reason list"
  iv_remediationParameters :: "agent_parameters option"
  iv_report :: string
  iv_conditions :: "condition list"

record rem_run =
  rm_name :: string
  rm_generation :: int
  rm_deleting :: bool
  rm_created :: time
  rm_finalizers :: "string list"
  rm_findingName :: string
  rm_findingUID :: string
  rm_investigationRef :: string
  rm_repositoryRef :: string
  rm_attempt :: int
  rm_priority :: int
  rm_parameters :: agent_parameters
  rm_approvedBy :: string
  rm_revival :: bool
  rm_previousAttempt :: "previous_attempt option"
  rm_attributedTo :: "attribution option"
  rm_phase :: run_phase
  rm_grantedAt :: "time option"
  rm_jobRef :: "string option"
  rm_runnerImage :: "runner_image_ref option"
  rm_stage :: "run_stage option"
  rm_success :: bool
  rm_confidence :: string
  rm_branch :: string
  rm_pushedCommit :: string
  rm_pullRequest :: "(int \<times> string) option"
  rm_report :: string
  rm_conditions :: "condition list"

record repo_object =
  rp_conditions :: "condition list"
  rp_artifact :: bool
  rp_resolvedSHA :: string
  rp_runnerImage :: "runner_image option"

definition empty_params :: agent_parameters where
  "empty_params = \<lparr>model = [], harness = [], maxTurns = 0, tokenBudget = 0, estimate = None\<rparr>"

definition settled_phase :: "run_phase \<Rightarrow> bool" where
  "settled_phase p \<longleftrightarrow> p = RunComplete \<or> p = RunFailed"

definition FinalizerJobs :: string where "FinalizerJobs = ''maul.run/jobs''"
definition FinalizerUsageRollup :: string where "FinalizerUsageRollup = ''maul.run/usage-rollup''"

definition Finalizers :: "attribution option \<Rightarrow> string list \<Rightarrow> string list" where
  "Finalizers attributedTo base = (if attributedTo = None then base else base @ [FinalizerUsageRollup])"

definition run_finalizers :: "string list" where
  "run_finalizers = [FinalizerJobs, ''maul.run/rollup-total'', ''maul.run/rollup-repository'',
     ''maul.run/rollup-harness'', ''maul.run/rollup-model'']"

subsection \<open>Calls\<close>

datatype 'a change = Skip | Fail error | Put 'a

fun stored :: "('a \<Rightarrow> 'a change) \<Rightarrow> 'a \<Rightarrow> 'a" where
  "stored w x = (case w x of Put y \<Rightarrow> y | _ \<Rightarrow> x)"

definition phase_then :: "finding \<Rightarrow> phase \<Rightarrow> time \<Rightarrow> (finding \<Rightarrow> finding) \<Rightarrow> finding change" where
  "phase_then cur to now upd = (case SetPhase cur to now of Inl e \<Rightarrow> Fail e | Inr g \<Rightarrow> Put (upd g))"

record cluster =
  c_fnd :: finding
  c_invs :: "string \<Rightarrow> inv_run option"
  c_rems :: "string \<Rightarrow> rem_run option"
  c_repo :: "repo_object option"

datatype effect =
    UpdateFinding "finding \<Rightarrow> finding change"
  | CreateRepository
  | CreateInvestigation inv_run
  | UpdateInvestigation string "inv_run \<Rightarrow> inv_run change"
  | CreateRemediation rem_run
  | UpdateRemediation bool string "rem_run \<Rightarrow> rem_run change"

text \<open>
  The boolean says whether the reconcile goes on. A create that finds the object is the lease already
  taken, and goes on. An update whose first argument is true is one whose skipping ends the reconcile.
\<close>

fun apply_effect :: "effect \<Rightarrow> cluster \<Rightarrow> cluster \<times> bool" where
  "apply_effect (UpdateFinding w) c =
     (c\<lparr>c_fnd := stored w (c_fnd c)\<rparr>, case w (c_fnd c) of Fail _ \<Rightarrow> False | _ \<Rightarrow> True)"
| "apply_effect CreateRepository c =
     (c\<lparr>c_repo := (case c_repo c of
        None \<Rightarrow> Some \<lparr>rp_conditions = [], rp_artifact = False, rp_resolvedSHA = [], rp_runnerImage = None\<rparr>
      | Some r \<Rightarrow> Some r)\<rparr>, True)"
| "apply_effect (CreateInvestigation r) c =
     (if c_invs c (iv_name r) = None then c\<lparr>c_invs := (c_invs c)(iv_name r \<mapsto> r)\<rparr> else c, True)"
| "apply_effect (UpdateInvestigation n w) c =
     (case c_invs c n of
        None \<Rightarrow> (c, True)
      | Some r \<Rightarrow> (c\<lparr>c_invs := (c_invs c)(n \<mapsto> stored w r)\<rparr>, case w r of Fail _ \<Rightarrow> False | _ \<Rightarrow> True))"
| "apply_effect (CreateRemediation r) c =
     (if c_rems c (rm_name r) = None then c\<lparr>c_rems := (c_rems c)(rm_name r \<mapsto> r)\<rparr> else c, True)"
| "apply_effect (UpdateRemediation must n w) c =
     (case c_rems c n of
        None \<Rightarrow> (c, \<not> must)
      | Some r \<Rightarrow> (c\<lparr>c_rems := (c_rems c)(n \<mapsto> stored w r)\<rparr>,
          case w r of Fail _ \<Rightarrow> False | Skip \<Rightarrow> \<not> must | Put _ \<Rightarrow> True))"

fun run_effects :: "nat \<Rightarrow> effect list \<Rightarrow> cluster \<Rightarrow> cluster" where
  "run_effects n [] c = c"
| "run_effects 0 (e # es) c = c"
| "run_effects (Suc n) (e # es) c =
     (case apply_effect e c of (c', go) \<Rightarrow> if go then run_effects n es c' else c')"

datatype reconcile = Settled | LookAgain duration | Errored string

text \<open>
  A property of the cluster that every call of a reconcile keeps is kept by the reconcile, wherever it
  stops.
\<close>

lemma run_effects_invariant:
  assumes "\<And>e c. e \<in> set es \<Longrightarrow> I c \<Longrightarrow> I (fst (apply_effect e c))" "I c"
  shows "I (run_effects n es c)"
  using assms
proof (induction es arbitrary: n c)
  case (Cons e es)
  obtain c' go where a: "apply_effect e c = (c', go)" by fastforce
  have c': "I c'" using Cons.prems(1) [of e c] Cons.prems(2) a by simp
  show ?case
  proof (cases n)
    case (Suc k)
    have "I (run_effects k es c')" using Cons.prems(1) c' by (intro Cons.IH) simp_all
    then show ?thesis using Suc a c' by simp
  qed (use Cons.prems in simp)
qed simp

text \<open>What a call does to the finding alone.\<close>

lemma apply_effect_fnd:
  "c_fnd (fst (apply_effect e c)) = (case e of UpdateFinding w \<Rightarrow> stored w (c_fnd c) | _ \<Rightarrow> c_fnd c)"
  by (cases e) (auto split: option.splits)

definition finding_calls :: "effect list \<Rightarrow> (finding \<Rightarrow> finding change) set" where
  "finding_calls es = {w. UpdateFinding w \<in> set es}"

lemma run_effects_finding:
  assumes "\<And>w f. w \<in> finding_calls es \<Longrightarrow> P f \<Longrightarrow> P (stored w f)" "P (c_fnd c)"
  shows "P (c_fnd (run_effects n es c))"
proof (rule run_effects_invariant)
  fix e and c :: cluster assume e: "e \<in> set es" and P: "P (c_fnd c)"
  show "P (c_fnd (fst (apply_effect e c)))"
  proof (cases e)
    case (UpdateFinding w)
    then show ?thesis using assms(1) [of w "c_fnd c"] e P by (simp add: finding_calls_def apply_effect_fnd)
  qed (use P in \<open>simp_all add: apply_effect_fnd del: apply_effect.simps\<close>)
qed (rule assms(2))

lemma run_effects_none: "finding_calls es = {} \<Longrightarrow> c_fnd (run_effects n es c) = c_fnd c"
  using run_effects_finding [of es "\<lambda>f. f = c_fnd c"] by simp

text \<open>The writes of \<open>SetPhase\<close> with the updates of other fields around it keep the phase log legal.\<close>

definition keeps_log :: "(finding \<Rightarrow> finding) \<Rightarrow> bool" where
  "keeps_log upd \<longleftrightarrow> (\<forall>f. phase (status (upd f)) = phase (status f) \<and> phaseTimes (status (upd f)) = phaseTimes (status f) \<and>
     completedAt (status (upd f)) = completedAt (status f))"

lemma keeps_log_ok: "keeps_log upd \<Longrightarrow> finding_log_ok (upd f) = finding_log_ok f"
  by (simp add: keeps_log_def finding_log_ok_def)

lemma phase_then_Put:
  "phase_then cur to now upd = Put g \<longleftrightarrow> (\<exists>h. SetPhase cur to now = Inr h \<and> g = upd h)"
  by (auto simp: phase_then_def split: sum.splits)

end
