(* ===== verification/Gate.thy ===== *)
theory Gate
  imports Cluster
begin

text \<open>
  The investigation gate (\<open>internal/controller/investigation/gate_controller.go\<close>): when an enhanced
  finding may be investigated, the repository it waits for, what the retry is told, the creation of the
  Investigation that is the lease, and the recovery of a failed investigation. The forge store and the
  clock are arguments; \<open>seen\<close> is the cluster as the controller's cache shows it, and every call acts on
  the stored objects.
\<close>

datatype forge_answer = ForgeFound string | ForgeNoMatch string | ForgeAmbiguous string | ForgeFailure string

record gate_env =
  ge_meta :: meta_ops
  ge_now :: time
  ge_minAge :: duration
  ge_params :: agent_parameters
  ge_attribution :: mode
  ge_resolve :: "string \<Rightarrow> forge_answer"

definition inv_name :: "finding \<Rightarrow> int \<Rightarrow> string" where
  "inv_name f n = f_name f @ ''-inv-'' @ show_int n"

definition src_name :: "finding \<Rightarrow> string" where
  "src_name f = f_name f @ ''-src''"

definition settleRequeue :: duration where "settleRequeue = 2 * nano_second"

subsection \<open>What the gate writes on the finding\<close>

definition forge_condition :: "finding \<Rightarrow> string \<Rightarrow> string \<Rightarrow> string \<Rightarrow> condition" where
  "forge_condition cur st reason message = \<lparr>ctype = ConditionForgeResolved, cstatus = st, creason = reason,
     cmessage = message, cgeneration = f_generation cur\<rparr>"

definition add_condition :: "meta_ops \<Rightarrow> condition \<Rightarrow> finding \<Rightarrow> finding" where
  "add_condition m c f = f\<lparr>status := (status f)\<lparr>conditions := setStatusCondition m (conditions (status f)) c\<rparr>\<rparr>"

definition park_change :: "gate_env \<Rightarrow> string \<Rightarrow> string \<Rightarrow> bool \<Rightarrow> finding \<Rightarrow> finding change" where
  "park_change e reason message handOff cur =
     (let cur' = add_condition (ge_meta e) (forge_condition cur ''False'' reason message) cur
      in if handOff \<and> phase (status cur') = PhaseEnhanced then
           phase_then cur' PhaseHandedOff (ge_now e)
             (\<lambda>f. f\<lparr>status := (status f)\<lparr>lastFailureReason := message\<rparr>\<rparr>)
         else Put cur')"

definition retried_condition :: "finding \<Rightarrow> condition" where
  "retried_condition cur = \<lparr>ctype = ConditionRetried, cstatus = ''True'', creason = ''RetryRequested'',
     cmessage = (case spec_retry (spec cur) of None \<Rightarrow> [] | Some r \<Rightarrow> ar_by r), cgeneration = f_generation cur\<rparr>"

text \<open>Shared with the spawner: consuming a retry that recovers to phase \<open>to\<close>.\<close>

definition retry_change :: "meta_ops \<Rightarrow> time \<Rightarrow> phase \<Rightarrow> finding \<Rightarrow> finding change" where
  "retry_change m now to cur =
     (if phase (status cur) \<noteq> PhaseFailed \<or> \<not> RetryRequested cur \<or> RetryTarget cur \<noteq> to then Skip
      else phase_then cur to now (add_condition m (retried_condition cur)))"

definition opened_change :: "gate_env \<Rightarrow> int \<Rightarrow> string \<Rightarrow> string \<Rightarrow> finding \<Rightarrow> finding change" where
  "opened_change e attempt name frg cur =
     (if phase (status cur) \<noteq> PhaseEnhanced then Skip
      else phase_then cur PhaseInvestigating (ge_now e)
        (\<lambda>f. add_condition (ge_meta e) (forge_condition cur ''True'' ''Resolved'' frg)
          (f\<lparr>status := (status f)
             \<lparr>attempts := (attempts (status f))\<lparr>att_investigation := attempt\<rparr>,
              activeRun := Some \<lparr>run_kind = RunKindInvestigation, run_name = name\<rparr>,
              forge := Some frg\<rparr>\<rparr>)))"

subsection \<open>The steps of a reconcile\<close>

fun gate_previous :: "meta_ops \<Rightarrow> cluster \<Rightarrow> finding \<Rightarrow> nat \<Rightarrow> previous_attempt option \<times> bool" where
  "gate_previous m seen f 0 = (None, True)"
| "gate_previous m seen f (Suc n) =
     (case c_invs seen (inv_name f (int (Suc n))) of
        None \<Rightarrow> (None, True)
      | Some iv \<Rightarrow>
          if iv_findingUID iv \<noteq> f_uid f then (None, True)
          else if iv_phase iv \<noteq> RunFailed \<and> iv_phase iv \<noteq> RunComplete then (None, False)
          else if Refused m (iv_conditions iv) then gate_previous m seen f n
          else if iv_phase iv = RunFailed then (PreviousAttempt (iv_name iv) (iv_attempt iv) (iv_stage iv), True)
          else (None, True))"

definition ReasonRunnerImageRejected :: string where "ReasonRunnerImageRejected = ''RunnerImageRejected''"

text \<open>\<open>ensureRepository\<close>: whether the artifact is ready, and the calls made.\<close>

definition ensureRepository :: "gate_env \<Rightarrow> cluster \<Rightarrow> bool \<times> effect list" where
  "ensureRepository e seen =
     (case c_repo seen of
        None \<Rightarrow> (False, [CreateRepository])
      | Some r \<Rightarrow>
          (case findStatusCondition (ge_meta e) (rp_conditions r) ConditionStalled of
             None \<Rightarrow> (isStatusConditionTrue (ge_meta e) (rp_conditions r) ConditionReady, [])
           | Some st \<Rightarrow>
               if cstatus st \<noteq> ''True'' then
                 (isStatusConditionTrue (ge_meta e) (rp_conditions r) ConditionReady, [])
               else if creason st = ReasonRunnerImageRejected then
                 (False, [UpdateFinding (park_change e ReasonRunnerImageRejected (TruncateDetail (cmessage st)) True)])
               else (False, [UpdateFinding (park_change e ''ArtifactStalled''
                       ''repository artifact exceeds the size cap'' True)])))"

definition new_investigation :: "gate_env \<Rightarrow> finding \<Rightarrow> int \<Rightarrow> previous_attempt option \<Rightarrow> inv_run" where
  "new_investigation e f attempt prev =
     (let attributedTo = Stamp (ge_attribution e) (Some Org) in
      \<lparr>iv_name = inv_name f attempt, iv_generation = 1, iv_deleting = False, iv_created = ge_now e,
       iv_finalizers = Finalizers attributedTo run_finalizers, iv_severity = spec_severity (spec f),
       iv_findingName = f_name f, iv_findingUID = f_uid f, iv_attempt = attempt,
       iv_repositoryRef = Some (src_name f), iv_parameters = ge_params e, iv_previousAttempt = prev,
       iv_attributedTo = attributedTo, iv_phase = RunUnset, iv_jobRef = None, iv_runnerImage = None,
       iv_stage = None, iv_exploitability = None, iv_likelihood = None, iv_impact = None,
       iv_recommendation = RecommendationUnset, iv_confidence = [], iv_assessedSeverity = LevelNone,
       iv_priority = LevelNone, iv_awaitApproval = False, iv_holdReasons = [],
       iv_remediationParameters = None, iv_report = [], iv_conditions = []\<rparr>)"

definition openInvestigation :: "gate_env \<Rightarrow> finding \<Rightarrow> string \<Rightarrow> previous_attempt option \<Rightarrow> effect list" where
  "openInvestigation e f frg prev =
     (let attempt = i32 (att_investigation (attempts (status f)) + 1) in
      [CreateInvestigation (new_investigation e f attempt prev),
       UpdateFinding (opened_change e attempt (inv_name f attempt) frg)])"

definition gate_reconcile :: "gate_env \<Rightarrow> cluster \<Rightarrow> effect list \<times> reconcile" where
  "gate_reconcile e seen =
     (let f = c_fnd seen in
      if f_deleting f \<or> suspend (spec f) then ([], Settled)
      else if phase (status f) = PhaseFailed then
        (if RetryRequested f \<and> RetryTarget f = PhaseEnhanced
         then ([UpdateFinding (retry_change (ge_meta e) (ge_now e) PhaseEnhanced)], Settled)
         else ([], Settled))
      else if phase (status f) \<noteq> PhaseEnhanced then ([], Settled)
      else if expedite (spec f) = None \<and>
              \<not> isStatusConditionTrue (ge_meta e) (conditions (status f)) ConditionAccumulationComplete
        then ([], Settled)
      else
        let wait = (if expedite (spec f) \<noteq> None then 0
                    else case firstObservedAt (status f) of
                           None \<Rightarrow> 0 | Some first \<Rightarrow> time_sub (first + ge_minAge e) (ge_now e))
        in if 0 < wait then ([], LookAgain wait)
           else case repository (spec f) of
             None \<Rightarrow> ([UpdateFinding (park_change e ''NoRepository''
                       ''finding has no identifiable repository'' True)], Settled)
           | Some rep \<Rightarrow>
               (case ge_resolve e (repo_url rep) of
                  ForgeNoMatch msg \<Rightarrow> ([UpdateFinding (park_change e ''NoForgeMatch'' msg False)], Settled)
                | ForgeAmbiguous msg \<Rightarrow> ([UpdateFinding (park_change e ''Ambiguous'' msg False)], Settled)
                | ForgeFailure msg \<Rightarrow> ([], Errored msg)
                | ForgeFound frg \<Rightarrow>
                    (case ensureRepository e seen of
                       (False, es) \<Rightarrow> (es, Settled)
                     | (True, es) \<Rightarrow>
                         (case gate_previous (ge_meta e) seen f (nat (att_investigation (attempts (status f)))) of
                            (prev, False) \<Rightarrow> (es, LookAgain settleRequeue)
                          | (prev, True) \<Rightarrow> (es @ openInvestigation e f frg prev, Settled)))))"

subsection \<open>Lemmas\<close>

lemma add_condition_fields [simp]:
  "phase (status (add_condition m c f)) = phase (status f)"
  "phaseTimes (status (add_condition m c f)) = phaseTimes (status f)"
  "completedAt (status (add_condition m c f)) = completedAt (status f)"
  "spec (add_condition m c f) = spec f" "f_uid (add_condition m c f) = f_uid f"
  "f_name (add_condition m c f) = f_name f" "attempts (status (add_condition m c f)) = attempts (status f)"
  by (simp_all add: add_condition_def)

end
