(* ===== verification/Models.thy ===== *)
theory Models
  imports Complex_Main Prelude
begin

text \<open>
  The model registry (\<open>internal/model/registry.go\<close>, \<open>internal/model/model.go\<close>) and the harness that runs a
  model (\<open>internal/harness/resolve.go\<close>). A registry entry's \<open>Supported\<close> map is an association list with
  one entry per harness; rates are the decimals the source writes, in USD per million tokens. The
  enabled set is a predicate on harness ids.
\<close>

definition ProviderAnthropic :: string where "ProviderAnthropic = ''anthropic''"
definition ProviderOpenAI :: string where "ProviderOpenAI = ''openai''"
definition HarnessClaude :: string where "HarnessClaude = ''claude''"
definition HarnessCodex :: string where "HarnessCodex = ''codex''"
definition HarnessCopilot :: string where "HarnessCopilot = ''copilot''"
definition HarnessFake :: string where "HarnessFake = ''fake''"

lemmas harness_ids = HarnessClaude_def HarnessCodex_def HarnessCopilot_def HarnessFake_def
  ProviderAnthropic_def ProviderOpenAI_def

record model_entry =
  m_id :: string
  m_providerID :: string
  m_name :: string
  m_inputUSD :: "rat option"
  m_cachedInputUSD :: "rat option"
  m_outputUSD :: "rat option"
  m_supported :: "(string \<times> string) list"
  m_preferred :: string

definition builtins :: "model_entry list" where
  "builtins = [
    \<lparr>m_id = ''anthropic/claude-haiku-4-5'', m_providerID = ProviderAnthropic, m_name = ''Claude Haiku 4.5'',
     m_inputUSD = Some 1, m_cachedInputUSD = Some (1 / 10), m_outputUSD = Some 5,
     m_supported = [(HarnessClaude, ''claude-haiku-4-5''), (HarnessCopilot, ''claude-haiku-4.5'')],
     m_preferred = HarnessClaude\<rparr>,
    \<lparr>m_id = ''anthropic/claude-sonnet-5'', m_providerID = ProviderAnthropic, m_name = ''Claude Sonnet 5'',
     m_inputUSD = Some 3, m_cachedInputUSD = Some (3 / 10), m_outputUSD = Some 15,
     m_supported = [(HarnessClaude, ''claude-sonnet-5''), (HarnessCopilot, ''claude-sonnet-5'')],
     m_preferred = HarnessClaude\<rparr>,
    \<lparr>m_id = ''anthropic/claude-opus-5'', m_providerID = ProviderAnthropic, m_name = ''Claude Opus 5'',
     m_inputUSD = Some 5, m_cachedInputUSD = Some (1 / 2), m_outputUSD = Some 25,
     m_supported = [(HarnessClaude, ''claude-opus-5''), (HarnessCopilot, ''claude-opus-5'')],
     m_preferred = HarnessClaude\<rparr>,
    \<lparr>m_id = ''anthropic/claude-fable-5'', m_providerID = ProviderAnthropic, m_name = ''Claude Fable 5'',
     m_inputUSD = Some 10, m_cachedInputUSD = Some 1, m_outputUSD = Some 50,
     m_supported = [(HarnessClaude, ''claude-fable-5''), (HarnessCopilot, ''claude-fable-5'')],
     m_preferred = HarnessClaude\<rparr>,
    \<lparr>m_id = ''openai/gpt-5.3-codex'', m_providerID = ProviderOpenAI, m_name = ''GPT-5.3 Codex'',
     m_inputUSD = Some (7 / 4), m_cachedInputUSD = Some (7 / 40), m_outputUSD = Some 14,
     m_supported = [(HarnessCodex, ''gpt-5.3-codex''), (HarnessCopilot, ''gpt-5.3-codex'')],
     m_preferred = HarnessCodex\<rparr>,
    \<lparr>m_id = ''openai/gpt-5.6-luna'', m_providerID = ProviderOpenAI, m_name = ''GPT-5.6 Luna'',
     m_inputUSD = Some 1, m_cachedInputUSD = Some (1 / 10), m_outputUSD = Some 6,
     m_supported = [(HarnessCodex, ''gpt-5.6-luna''), (HarnessCopilot, ''gpt-5.6-luna'')],
     m_preferred = HarnessCodex\<rparr>,
    \<lparr>m_id = ''openai/gpt-5.6-terra'', m_providerID = ProviderOpenAI, m_name = ''GPT-5.6 Terra'',
     m_inputUSD = Some (5 / 2), m_cachedInputUSD = Some (1 / 4), m_outputUSD = Some 15,
     m_supported = [(HarnessCodex, ''gpt-5.6-terra''), (HarnessCopilot, ''gpt-5.6-terra'')],
     m_preferred = HarnessCodex\<rparr>,
    \<lparr>m_id = ''openai/gpt-5.6-sol'', m_providerID = ProviderOpenAI, m_name = ''GPT-5.6 Sol'',
     m_inputUSD = Some 5, m_cachedInputUSD = Some (1 / 2), m_outputUSD = Some 30,
     m_supported = [(HarnessCodex, ''gpt-5.6-sol''), (HarnessCopilot, ''gpt-5.6-sol'')],
     m_preferred = HarnessCodex\<rparr>]"

definition HarnessBrokered :: "string \<Rightarrow> bool" where
  "HarnessBrokered h \<longleftrightarrow> h = HarnessClaude \<or> h = HarnessCodex"

definition HarnessProvider :: "string \<Rightarrow> string" where
  "HarnessProvider h =
     (if \<not> HarnessBrokered h then []
      else (case find (\<lambda>m. m_preferred m = h) builtins of None \<Rightarrow> [] | Some m \<Rightarrow> m_providerID m))"

definition ModelByID :: "model_entry list \<Rightarrow> string \<Rightarrow> model_entry option" where
  "ModelByID models i = find (\<lambda>m. m_id m = i) models"

definition BareID :: "model_entry \<Rightarrow> string" where
  "BareID m = (case cut_at (CHR ''/'') (m_id m) of (_, i, ok) \<Rightarrow> if ok then i else m_id m)"

definition CLIModelID :: "model_entry \<Rightarrow> string \<Rightarrow> string option" where
  "CLIModelID m h = map_of (m_supported m) h"

definition KnownHarnessIDs :: "string list" where
  "KnownHarnessIDs = [HarnessClaude, HarnessCodex, HarnessCopilot, HarnessFake]"

definition AllModels :: "(string \<Rightarrow> model_entry list option) \<Rightarrow> model_entry list" where
  "AllModels overrides =
     filter (\<lambda>m. overrides (m_providerID m) = None) builtins @
     concat (map (\<lambda>p. case overrides p of None \<Rightarrow> [] | Some ms \<Rightarrow> ms) [ProviderAnthropic, ProviderOpenAI])"

subsection \<open>Resolution\<close>

fun first_supporting :: "model_entry \<Rightarrow> (string \<Rightarrow> bool) \<Rightarrow> string list \<Rightarrow> (string \<times> string) option" where
  "first_supporting m enabled [] = None"
| "first_supporting m enabled (h # hs) =
     (if h = HarnessFake \<or> \<not> enabled h then first_supporting m enabled hs
      else (case CLIModelID m h of Some cli \<Rightarrow> Some (h, cli) | None \<Rightarrow> first_supporting m enabled hs))"

definition ResolveModel :: "model_entry \<Rightarrow> (string \<Rightarrow> bool) \<Rightarrow> (string \<times> string) option" where
  "ResolveModel m enabled =
     (case (if enabled (m_preferred m) then CLIModelID m (m_preferred m) else None) of
        Some i \<Rightarrow> Some (m_preferred m, i)
      | None \<Rightarrow>
          (case first_supporting m enabled KnownHarnessIDs of
             Some r \<Rightarrow> Some r
           | None \<Rightarrow> if enabled HarnessFake then Some (HarnessFake, BareID m) else None))"

lemma first_supporting_Some:
  "first_supporting m enabled hs = Some (h, cli) \<Longrightarrow>
   h \<in> set hs \<and> h \<noteq> HarnessFake \<and> enabled h \<and> CLIModelID m h = Some cli"
  by (induction hs) (auto split: if_splits option.splits)

lemma first_supporting_None:
  "first_supporting m enabled hs = None \<longleftrightarrow>
   (\<forall>h\<in>set hs. h \<noteq> HarnessFake \<longrightarrow> enabled h \<longrightarrow> CLIModelID m h = None)"
  by (induction hs) (auto split: option.splits)

lemma ResolveModel_sound:
  assumes "ResolveModel m enabled = Some (h, cli)"
  shows "enabled h \<and> (CLIModelID m h = Some cli \<or> h = HarnessFake \<and> cli = BareID m)"
  using assms first_supporting_Some [of m enabled KnownHarnessIDs h cli]
  by (auto simp: ResolveModel_def split: option.splits if_splits)

lemma ResolveModel_complete:
  assumes "h \<in> set KnownHarnessIDs" "enabled h" "CLIModelID m h \<noteq> None \<or> h = HarnessFake"
  shows "ResolveModel m enabled \<noteq> None"
  using assms first_supporting_None [of m enabled KnownHarnessIDs]
  by (auto simp: ResolveModel_def split: option.splits)

lemma ResolveModel_preferred:
  "enabled (m_preferred m) \<Longrightarrow> CLIModelID m (m_preferred m) = Some cli \<Longrightarrow>
   ResolveModel m enabled = Some (m_preferred m, cli)"
  by (simp add: ResolveModel_def)

text \<open>
  The registry is consistent: ids are distinct, an id starts with its vendor, the preferred harness is
  supported and brokered, and its provider is the model's own.
\<close>

lemma builtins_consistent:
  "distinct (map m_id builtins) \<and>
   (\<forall>m\<in>set builtins. prefix (m_providerID m @ ''/'') (m_id m) \<and> CLIModelID m (m_preferred m) \<noteq> None \<and>
      CLIModelID m HarnessCopilot \<noteq> None \<and> CLIModelID m (m_preferred m) = Some (BareID m) \<and>
      HarnessProvider (m_preferred m) = m_providerID m)"
  by code_simp

lemma HarnessProvider_values:
  "HarnessProvider h = (if h = HarnessClaude then ProviderAnthropic
     else if h = HarnessCodex then ProviderOpenAI else [])"
  by (simp add: HarnessProvider_def HarnessBrokered_def builtins_def harness_ids)

lemma ModelByID_Some: "ModelByID ms i = Some m \<Longrightarrow> m \<in> set ms \<and> m_id m = i"
  by (auto simp: ModelByID_def find_Some_iff)

end
