(* ===== verification/CredGate.thy ===== *)
theory CredGate
  imports Attribution Models
begin

text \<open>
  Per-user model credentials: the record's names and accepted values
  (\<open>api/v1alpha1/modelcredential_names.go\<close>, \<open>modelcredential_types.go\<close>) and the gate that decides whether
  a run waits for a person's credential (\<open>internal/credgate/credgate.go\<close>). SHA-256 is an argument: \<open>sh\<close>
  gives the 64 hexadecimal digits of a string's digest. A lookup returns an error, no record, or one.
\<close>

subsection \<open>The record\<close>

datatype credential_kind = ModelCredentialAPIKey | ModelCredentialOAuthToken

datatype credential_health = HealthUnset | ModelCredentialValid | ModelCredentialRejected | ModelCredentialUnknown

record model_credential =
  mc_name :: string
  mc_owner :: string
  mc_provider :: string
  mc_kind :: credential_kind
  mc_health :: credential_health

definition ModelCredentialProviders :: "string list" where
  "ModelCredentialProviders = [ProviderAnthropic, ProviderOpenAI]"

definition ModelCredentialOwner :: "int \<Rightarrow> string" where
  "ModelCredentialOwner i = ''github-id:'' @ show_int i"

definition ModelCredentialName :: "(string \<Rightarrow> string) \<Rightarrow> string \<Rightarrow> string \<Rightarrow> string" where
  "ModelCredentialName sh owner provider = take 16 (sh owner) @ ''-'' @ provider"

definition ModelCredentialSecretName :: "(string \<Rightarrow> string) \<Rightarrow> string \<Rightarrow> string \<Rightarrow> string" where
  "ModelCredentialSecretName sh owner provider = ''cred-'' @ ModelCredentialName sh owner provider"

definition fingerprintChar :: "char \<Rightarrow> bool" where
  "fingerprintChar c \<longleftrightarrow> is_lower c \<or> is_upper c \<or> is_digit c \<or> c = CHR ''_'' \<or> c = CHR ''-''"

definition ModelCredentialFingerprint :: "(string \<Rightarrow> string) \<Rightarrow> string \<Rightarrow> string" where
  "ModelCredentialFingerprint sh credential =
     (if 16 \<le> length credential
      then map (\<lambda>c. if fingerprintChar c then c else CHR ''*'') (drop (length credential - 4) credential)
      else ''****'') @ '':'' @ take 12 (sh credential)"

definition ModelCredentialKinds :: "string \<Rightarrow> credential_kind list" where
  "ModelCredentialKinds provider =
     (if provider = ProviderAnthropic then [ModelCredentialAPIKey, ModelCredentialOAuthToken]
      else if provider = ProviderOpenAI then [ModelCredentialAPIKey] else [])"

definition ModelCredentialKindAllowed :: "string \<Rightarrow> credential_kind \<Rightarrow> bool" where
  "ModelCredentialKindAllowed provider kind \<longleftrightarrow> kind \<in> set (ModelCredentialKinds provider)"

definition anthropicPrefix :: string where "anthropicPrefix = ''sk-ant-''"
definition anthropicAPIKeyPrefix :: string where "anthropicAPIKeyPrefix = ''sk-ant-api''"
definition anthropicOAuthTokenPrefix :: string where "anthropicOAuthTokenPrefix = ''sk-ant-oat''"
definition openaiPrefix :: string where "openaiPrefix = ''sk-''"

definition printable :: "char \<Rightarrow> bool" where "printable c \<longleftrightarrow> 33 \<le> byte c \<and> byte c \<le> 126"

definition ModelCredentialValue :: "(string \<Rightarrow> string) \<Rightarrow> string \<Rightarrow> string \<Rightarrow> credential_kind \<Rightarrow> string option" where
  "ModelCredentialValue ut raw provider kind =
     (if 3072 < length raw \<or> \<not> ModelCredentialKindAllowed provider kind then None
      else let v = trim_space ut raw; anthropic = prefix anthropicPrefix v
      in if v = [] \<or> \<not> list_all printable v then None
         else if provider = ProviderOpenAI then (if anthropic then None else Some v)
         else if prefix openaiPrefix v \<and> \<not> anthropic then None
         else if (kind = ModelCredentialAPIKey \<and> prefix anthropicOAuthTokenPrefix v) \<or>
                 (kind = ModelCredentialOAuthToken \<and> prefix anthropicAPIKeyPrefix v) then None
         else Some v)"

lemma ModelCredentialValue_ok:
  assumes "ModelCredentialValue ut raw provider kind = Some v"
  shows "v = trim_space ut raw \<and> v \<noteq> [] \<and> list_all printable v \<and> length raw \<le> 3072 \<and>
    provider \<in> set ModelCredentialProviders \<and> (provider = ProviderOpenAI \<longrightarrow> kind = ModelCredentialAPIKey)"
  using assms
  by (auto simp: ModelCredentialValue_def Let_def ModelCredentialKindAllowed_def ModelCredentialKinds_def
      ModelCredentialProviders_def ProviderAnthropic_def ProviderOpenAI_def split: if_splits)

text \<open>No value is taken for both providers, nor for both of Anthropic's kinds when it carries a prefix.\<close>

lemma ModelCredentialValue_distinct:
  assumes "ModelCredentialValue ut raw ProviderAnthropic kind = Some v"
    and "prefix openaiPrefix v" "ModelCredentialValue ut raw ProviderOpenAI kind' = Some v'"
  shows False
  using assms
  by (auto simp: ModelCredentialValue_def Let_def ProviderAnthropic_def ProviderOpenAI_def split: if_splits)

subsection \<open>The gate\<close>

datatype cred_mode = CredOff | CredAttribute | CredEnforce

definition CredParseMode :: "(string \<Rightarrow> string) \<Rightarrow> string \<Rightarrow> cred_mode option" where
  "CredParseMode ut s =
     (let t = trim_space ut s in
      if t = [] \<or> t = ''off'' then Some CredOff
      else if t = ''attribute'' then Some CredAttribute
      else if t = ''enforce'' then Some CredEnforce else None)"

definition Enforced :: "cred_mode \<Rightarrow> bool" where "Enforced m \<longleftrightarrow> m = CredEnforce"

definition ReasonMissing :: string where "ReasonMissing = ''CredentialMissing''"
definition ReasonRejected :: string where "ReasonRejected = ''CredentialRejected''"
definition ReasonUnverified :: string where "ReasonUnverified = ''CredentialUnverified''"

definition ProviderFor :: "string \<Rightarrow> string option" where
  "ProviderFor harn =
     (let h = (if harn = HarnessFake then HarnessClaude else harn); p = HarnessProvider h
      in if p \<in> set ModelCredentialProviders then Some p else None)"

record verdict =
  v_hold :: bool
  v_user :: "user_ref option"
  v_provider :: string
  v_reason :: string

definition no_verdict :: verdict where
  "no_verdict = \<lparr>v_hold = False, v_user = None, v_provider = [], v_reason = []\<rparr>"

definition Person :: "attribution option \<Rightarrow> user_ref option" where
  "Person a =
     (case a of
        None \<Rightarrow> None
      | Some x \<Rightarrow> (case at_user x of None \<Rightarrow> None | Some u \<Rightarrow> if user_id u < 1 then None else Some u))"

definition Owner :: "user_ref \<Rightarrow> string" where "Owner u = ModelCredentialOwner (user_id u)"

definition Judge :: "(string \<Rightarrow> string) \<Rightarrow> cred_mode \<Rightarrow> string \<Rightarrow> attribution option \<Rightarrow> model_credential option
    \<Rightarrow> verdict" where
  "Judge sh mode provider a cred =
     (case Person a of
        None \<Rightarrow> no_verdict
      | Some u \<Rightarrow>
          if \<not> Enforced mode then no_verdict
          else let held = (\<lambda>reason. \<lparr>v_hold = True, v_user = Some u, v_provider = provider, v_reason = reason\<rparr>)
          in case cred of
               None \<Rightarrow> held ReasonMissing
             | Some c \<Rightarrow>
                 if mc_owner c \<noteq> Owner u \<or> mc_provider c \<noteq> provider \<or>
                    mc_name c \<noteq> ModelCredentialName sh (Owner u) provider \<or>
                    \<not> ModelCredentialKindAllowed provider (mc_kind c) then held ReasonMissing
                 else if mc_health c = ModelCredentialValid then no_verdict
                 else if mc_health c = ModelCredentialRejected then held ReasonRejected
                 else held ReasonUnverified)"

type_synonym cred_lookup = "string \<Rightarrow> string \<Rightarrow> string + model_credential option"

definition Check :: "(string \<Rightarrow> string) \<Rightarrow> cred_mode \<Rightarrow> string \<Rightarrow> attribution option \<Rightarrow> cred_lookup option
    \<Rightarrow> string + verdict" where
  "Check sh mode provider a lookup =
     (case Person a of
        None \<Rightarrow> Inr no_verdict
      | Some u \<Rightarrow>
          if \<not> Enforced mode then Inr no_verdict
          else (case lookup of
                  None \<Rightarrow> Inl ''user credentials are enforced but no credential lookup is configured''
                | Some lk \<Rightarrow> (case lk (Owner u) provider of
                    Inl err \<Rightarrow> Inl (''read the '' @ provider @ '' model credential of '' @ login u @ '': '' @ err)
                  | Inr cred \<Rightarrow> Inr (Judge sh mode provider a cred))))"

definition Holds :: "(string \<Rightarrow> string) \<Rightarrow> cred_mode \<Rightarrow> string \<Rightarrow> string \<Rightarrow> int \<Rightarrow> cred_lookup option
    \<Rightarrow> string + bool" where
  "Holds sh mode provider lg i lookup =
     (if i < 1 then Inr (Enforced mode)
      else case Check sh mode provider
             (Some \<lparr>at_user = Some \<lparr>login = lg, user_id = i\<rparr>, at_reason = ReasonApprover\<rparr>) lookup of
             Inl err \<Rightarrow> Inl err
           | Inr v \<Rightarrow> Inr (v_hold v))"

definition ProviderName :: "string \<Rightarrow> string" where
  "ProviderName provider =
     (let p = (if provider = [] then ProviderAnthropic else provider)
      in if p = ProviderAnthropic then ''Anthropic'' else if p = ProviderOpenAI then ''OpenAI'' else p)"

definition CredentialKinds :: "string \<Rightarrow> string" where
  "CredentialKinds provider =
     (if provider = ProviderOpenAI then ''an OpenAI API key'' else ''an API key or a setup-token'')"

definition Message :: "verdict \<Rightarrow> string \<Rightarrow> bool \<Rightarrow> string" where
  "Message v accountURL reapprove =
     (case v_user v of
        None \<Rightarrow> []
      | Some u \<Rightarrow>
          if \<not> v_hold v then []
          else let who = ''@'' @ login u; name = ProviderName (v_provider v);
                   why = (if v_reason v = ReasonRejected then who @ '''s '' @ name @ '' credential was rejected by '' @ name
                          else if v_reason v = ReasonUnverified then
                            who @ '''s '' @ name @ '' credential has not been verified yet''
                          else who @ '' has no '' @ name @ '' credential stored in maul'');
                   place = (if accountURL \<noteq> [] then ''on the Account page ('' @ accountURL @ '')''
                             else ''on the status page's Account page'');
                   resume = ''Nothing is replanned: this resumes on its own once the credential is valid'' @
                     (if reapprove then '', or once an approver who has a valid credential approves it.'' else ''.'')
      in why @ '', and runs attributed to them use their own credential or none. '' @ who @
           '' can add or replace '' @ CredentialKinds (v_provider v) @ '' '' @ place @ ''. '' @ resume)"

subsection \<open>The decision\<close>

lemma ProviderFor_values:
  "ProviderFor harn = (if harn = HarnessClaude \<or> harn = HarnessFake then Some ProviderAnthropic
     else if harn = HarnessCodex then Some ProviderOpenAI else None)"
  by (simp add: ProviderFor_def HarnessProvider_values ModelCredentialProviders_def harness_ids Let_def)

text \<open>A record that pays for \<open>u\<close>'s runs on a provider.\<close>

definition pays :: "(string \<Rightarrow> string) \<Rightarrow> string \<Rightarrow> user_ref \<Rightarrow> model_credential \<Rightarrow> bool" where
  "pays sh provider u c \<longleftrightarrow>
     mc_owner c = Owner u \<and> mc_provider c = provider \<and> mc_name c = ModelCredentialName sh (Owner u) provider \<and>
     ModelCredentialKindAllowed provider (mc_kind c) \<and> mc_health c = ModelCredentialValid"

lemmas judge_defs = Judge_def no_verdict_def pays_def Let_def

text \<open>
  A run waits exactly when it is a person's, credentials are enforced, and that very person has no
  valid credential of their own for the provider; the verdict then names the person, the provider and
  a reason. Nothing else is ever held: not the org's runs, not under off or attribute.
\<close>

theorem Judge_exact:
  "(v_hold (Judge sh mode provider a cred) \<longleftrightarrow>
     (\<exists>u. Person a = Some u \<and> Enforced mode \<and> \<not> (\<exists>c. cred = Some c \<and> pays sh provider u c))) \<and>
   (v_hold (Judge sh mode provider a cred) \<longrightarrow>
     v_user (Judge sh mode provider a cred) = Person a \<and> v_provider (Judge sh mode provider a cred) = provider \<and>
     v_reason (Judge sh mode provider a cred) \<in> {ReasonMissing, ReasonRejected, ReasonUnverified}) \<and>
   (\<not> v_hold (Judge sh mode provider a cred) \<longrightarrow> Judge sh mode provider a cred = no_verdict)"
proof (cases "Person a")
  case (Some u)
  show ?thesis
  proof (cases cred)
    case None
    then show ?thesis using Some by (simp add: judge_defs)
  next
    case (Some c)
    let ?bad = "mc_owner c \<noteq> Owner u \<or> mc_provider c \<noteq> provider \<or>
      mc_name c \<noteq> ModelCredentialName sh (Owner u) provider \<or> \<not> ModelCredentialKindAllowed provider (mc_kind c)"
    have "\<not> Enforced mode \<or> ?bad \<or> (Enforced mode \<and> \<not> ?bad)" by blast
    then show ?thesis using Some \<open>Person a = Some u\<close>
      by (elim disjE) (simp_all add: judge_defs)
  qed
qed (simp add: judge_defs)

lemma Judge_exact_witness:
  "v_hold (Judge (\<lambda>s. s) CredEnforce ProviderAnthropic
     (Some \<lparr>at_user = Some \<lparr>login = ''al'', user_id = 3\<rparr>, at_reason = ReasonApprover\<rparr>) None)"
  using Judge_exact [of "\<lambda>s. s" CredEnforce ProviderAnthropic
     "Some \<lparr>at_user = Some \<lparr>login = ''al'', user_id = 3\<rparr>, at_reason = ReasonApprover\<rparr>" None]
  by (simp add: Person_def Enforced_def)

lemma Check_no_hold:
  "\<not> Enforced mode \<or> Person a = None \<Longrightarrow> Check sh mode provider a lookup = Inr no_verdict"
  by (auto simp: Check_def split: option.splits)

lemma Judge_off: "\<not> Enforced mode \<or> Person a = None \<Longrightarrow> Judge sh mode provider a cred = no_verdict"
  by (auto simp: Judge_def split: option.splits)

lemma Check_Inr:
  assumes "Check sh mode provider a lookup = Inr v"
  obtains cred where "v = Judge sh mode provider a cred"
proof (cases "\<not> Enforced mode \<or> Person a = None")
  case True
  then show thesis using assms Judge_off [of mode a sh provider None] Check_no_hold [of mode a sh provider lookup]
    by (intro that [of None]) simp
next
  case False
  then show thesis using assms by (auto simp: Check_def split: option.splits sum.splits intro: that [OF sym])
qed

lemma Message_held: "v_hold v \<Longrightarrow> v_user v = Some u \<Longrightarrow> Message v url re \<noteq> []"
  by (simp add: Message_def Let_def)

end
