(* ===== verification/Spawner.thy ===== *)
theory Spawner
  imports Gate CredGate
begin

text \<open>
  The remediation spawner (\<open>internal/controller/remediation/spawner_controller.go\<close>) and the credential
  hold (\<open>internal/controller/remediation/credential_hold.go\<close>): approvals and retries that bring a finding
  into the queue, what a remediation may spend and on which model, whom it is for, and the creation of
  the next attempt. The priority score, from floating-point weights, is an argument.
\<close>

record spawner_env =
  se_meta :: meta_ops
  se_now :: time
  se_allowlist :: "string list"
  se_defaultModel :: string
  se_enabled :: "string list"
  se_autoMaxTurns :: int
  se_autoTokenBudget :: int
  se_manualMaxTurns :: int
  se_manualTokenBudget :: int
  se_attribution :: mode
  se_credentials :: cred_mode
  se_lookup :: "cred_lookup option"
  se_accountURL :: string
  se_sha :: "string \<Rightarrow> string"
  se_score :: "level \<Rightarrow> rating \<Rightarrow> rating \<Rightarrow> rating \<Rightarrow> int"

definition rem_name :: "finding \<Rightarrow> int \<Rightarrow> string" where
  "rem_name f n = f_name f @ ''-rem-'' @ show_int n"

definition defaultAutoMaxTurns :: int where "defaultAutoMaxTurns = 80"
definition defaultAutoTokenBudget :: int where "defaultAutoTokenBudget = 400000"

subsection \<open>What a run may spend, and on what\<close>

definition resolved_harness :: "string list \<Rightarrow> string \<Rightarrow> string option" where
  "resolved_harness enabled mdl =
     (case ModelByID builtins mdl of
        None \<Rightarrow> None
      | Some m \<Rightarrow> map_option fst (ResolveModel m (\<lambda>h. h \<in> set enabled)))"

definition resolveParams :: "spawner_env \<Rightarrow> agent_parameters \<Rightarrow> agent_parameters" where
  "resolveParams e p =
     (let fallback = (let p' = p\<lparr>model := se_defaultModel e\<rparr> in
            case resolved_harness (se_enabled e) (se_defaultModel e) of
              None \<Rightarrow> p' | Some h \<Rightarrow> p'\<lparr>harness := h\<rparr>)
      in if model p \<noteq> [] \<and> model p \<in> set (se_allowlist e) then
           (case resolved_harness (se_enabled e) (model p) of
              Some h \<Rightarrow> p\<lparr>harness := h\<rparr> | None \<Rightarrow> fallback)
         else fallback)"

definition resolveGrant :: "spawner_env \<Rightarrow> agent_estimate option \<Rightarrow> bool \<Rightarrow> int \<times> int" where
  "resolveGrant e est approved =
     (let turns = (if se_autoMaxTurns e \<le> 0 then defaultAutoMaxTurns else se_autoMaxTurns e);
          budget = (if se_autoTokenBudget e \<le> 0 then defaultAutoTokenBudget else se_autoTokenBudget e);
          manualTurns = max (se_manualMaxTurns e) turns;
          manualBudget = max (se_manualTokenBudget e) budget
      in case est of
           None \<Rightarrow> (turns, budget)
         | Some es \<Rightarrow>
             if \<not> approved then (turns, budget)
             else ((if turns < est_maxTurns es then min (est_maxTurns es) manualTurns else turns),
                   (if budget < est_tokenBudget es then min (est_tokenBudget es) manualBudget else budget)))"

definition revivable :: "finding \<Rightarrow> bool" where
  "revivable f =
     (case spec_approval (spec f) of
        None \<Rightarrow> False
      | Some ap \<Rightarrow> repository (spec f) \<noteq> None \<and> investigation (status f) \<noteq> None \<and>
          (case completedAt (status f) of None \<Rightarrow> True | Some t \<Rightarrow> t < ap_at ap))"

definition approvedBy :: "finding \<Rightarrow> string" where
  "approvedBy f = (case spec_approval (spec f) of None \<Rightarrow> [] | Some ap \<Rightarrow> ap_by ap)"

definition Attribute :: "finding \<Rightarrow> attribution" where
  "Attribute f = (case spec_approval (spec f) of None \<Rightarrow> Org | Some ap \<Rightarrow> To (ap_by ap) (ap_byID ap) ReasonApprover)"

subsection \<open>The credential hold\<close>

definition CredentialRecheck :: duration where "CredentialRecheck = nano_minute"

definition judgeHeld :: "spawner_env \<Rightarrow> finding \<Rightarrow> attribution option \<Rightarrow> string
    \<Rightarrow> attribution option \<times> (string + verdict)" where
  "judgeHeld e f attributedTo provider =
     (case Check (se_sha e) (se_credentials e) provider attributedTo (se_lookup e) of
        Inl err \<Rightarrow> (attributedTo, Inl err)
      | Inr v \<Rightarrow>
          (case credentialHold (status f) of
             None \<Rightarrow> (attributedTo, Inr v)
           | Some held \<Rightarrow>
               if user_id held < 1 \<or>
                  \<not> isStatusConditionTrue (se_meta e) (conditions (status f)) ConditionCredentialRequired
               then (attributedTo, Inr v)
               else if (case Person attributedTo of
                          None \<Rightarrow> False | Some p \<Rightarrow> user_id p = user_id held \<or> \<not> v_hold v)
               then (attributedTo, Inr v)
               else let keep = Stamp (se_attribution e) (Some \<lparr>at_user = Some held, at_reason = ReasonApprover\<rparr>)
                 in (keep, Check (se_sha e) (se_credentials e) provider keep (se_lookup e))))"

definition hold_condition :: "spawner_env \<Rightarrow> verdict \<Rightarrow> int \<Rightarrow> condition" where
  "hold_condition e v gen =
     (if v_hold v then \<lparr>ctype = ConditionCredentialRequired, cstatus = ''True'', creason = v_reason v,
          cmessage = Message v (se_accountURL e) True, cgeneration = gen\<rparr>
      else \<lparr>ctype = ConditionCredentialRequired, cstatus = ''False'', creason = ''Resolved'',
          cmessage = ''the remediation's credential is usable'', cgeneration = gen\<rparr>)"

definition hold_change :: "spawner_env \<Rightarrow> verdict \<Rightarrow> finding \<Rightarrow> finding change" where
  "hold_change e v cur =
     (if phase (status cur) \<noteq> PhaseQueued then Skip
      else let c = hold_condition e v (f_generation cur);
               changed = set_changes (se_meta e) (conditions (status cur)) c \<or>
                 credentialHold (status cur) \<noteq> v_user v \<or> credentialHoldProvider (status cur) \<noteq> v_provider v
      in if \<not> changed then Skip
         else Put (add_condition (se_meta e) c
           (cur\<lparr>status := (status cur)\<lparr>credentialHold := v_user v, credentialHoldProvider := v_provider v\<rparr>\<rparr>)))"

text \<open>Whom the attempt is for, whether it is held, and the calls made; an error ends the reconcile.\<close>

definition holdForCredential :: "spawner_env \<Rightarrow> finding \<Rightarrow> attribution option \<Rightarrow> string
    \<Rightarrow> (attribution option \<times> bool \<times> effect list) + string" where
  "holdForCredential e f attributedTo harn =
     (case (case ProviderFor harn of
              Some provider \<Rightarrow> if Enforced (se_credentials e) then judgeHeld e f attributedTo provider
                              else (attributedTo, Inr no_verdict)
            | None \<Rightarrow> (attributedTo, Inr no_verdict)) of
        (_, Inl err) \<Rightarrow> Inr err
      | (att, Inr v) \<Rightarrow>
          let c = hold_condition e v 0 in
          if \<not> v_hold v \<and>
             \<not> isStatusConditionTrue (se_meta e) (conditions (status f)) ConditionCredentialRequired \<and>
             credentialHold (status f) = None
          then Inl (att, False, [])
          else if (case findStatusCondition (se_meta e) (conditions (status f)) ConditionCredentialRequired of
                     None \<Rightarrow> False
                   | Some old \<Rightarrow> cstatus old = cstatus c \<and> creason old = creason c \<and> cmessage old = cmessage c) \<and>
                  credentialHold (status f) = v_user v \<and> credentialHoldProvider (status f) = v_provider v
          then Inl (att, v_hold v, [])
          else Inl (att, v_hold v, [UpdateFinding (hold_change e v)]))"

subsection \<open>Into the queue\<close>

definition approved_condition :: "finding \<Rightarrow> condition" where
  "approved_condition cur = \<lparr>ctype = ConditionApproved, cstatus = ''True'', creason = ''ApprovalReceived'',
     cmessage = approvedBy cur, cgeneration = f_generation cur\<rparr>"

definition admit_change :: "spawner_env \<Rightarrow> phase \<Rightarrow> finding \<Rightarrow> finding change" where
  "admit_change e from cur =
     (if phase (status cur) \<noteq> from then Skip
      else phase_then cur PhaseQueued (se_now e) (add_condition (se_meta e) (approved_condition cur)))"

fun spawn_previous :: "meta_ops \<Rightarrow> cluster \<Rightarrow> finding \<Rightarrow> nat \<Rightarrow> previous_attempt option" where
  "spawn_previous m seen f 0 = None"
| "spawn_previous m seen f (Suc n) =
     (case c_rems seen (rem_name f (int (Suc n))) of
        None \<Rightarrow> None
      | Some rm \<Rightarrow>
          if rm_findingUID rm \<noteq> f_uid f then None
          else if Refused m (rm_conditions rm) \<or> Held m (rm_conditions rm) then spawn_previous m seen f n
          else if rm_phase rm = RunFailed then PreviousAttempt (rm_name rm) (rm_attempt rm) (rm_stage rm)
          else (case pullRequest (status f) of
                  None \<Rightarrow> None
                | Some pr \<Rightarrow>
                    if rm_success rm \<and> pr_state pr = ''closed'' then
                      Some \<lparr>pa_name = rm_name rm, pa_attempt = rm_attempt rm, pa_outcome = ''pull_request_closed'',
                        pa_detail = ''pull request #'' @ show_int (pr_number pr) @ '' was closed without being merged''\<rparr>
                    else None))"

definition new_remediation :: "spawner_env \<Rightarrow> finding \<Rightarrow> investigation_summary \<Rightarrow> int \<Rightarrow> agent_parameters
    \<Rightarrow> attribution option \<Rightarrow> previous_attempt option \<Rightarrow> rem_run" where
  "new_remediation e f s attempt params attributedTo prev =
     \<lparr>rm_name = rem_name f attempt, rm_generation = 1, rm_deleting = False, rm_created = se_now e,
      rm_finalizers = Finalizers attributedTo run_finalizers,
      rm_findingName = f_name f, rm_findingUID = f_uid f, rm_investigationRef = is_name s,
      rm_repositoryRef = src_name f, rm_attempt = attempt,
      rm_priority = se_score e (spec_severity (spec f)) (is_exploitability s) (is_likelihood s) (is_impact s),
      rm_parameters = params, rm_approvedBy = approvedBy f,
      rm_revival = (spec_approval (spec f) \<noteq> None \<and> 1 < attempt), rm_previousAttempt = prev,
      rm_attributedTo = attributedTo, rm_phase = RunUnset, rm_grantedAt = None, rm_jobRef = None,
      rm_runnerImage = None, rm_stage = None, rm_success = False, rm_confidence = [], rm_branch = [],
      rm_pushedCommit = [], rm_pullRequest = None, rm_report = [], rm_conditions = []\<rparr>"

definition count_change :: "int \<Rightarrow> finding \<Rightarrow> finding change" where
  "count_change attempt cur =
     (if attempt \<le> att_remediation (attempts (status cur)) then Skip
      else Put (cur\<lparr>status := (status cur)\<lparr>attempts := (attempts (status cur))\<lparr>att_remediation := attempt\<rparr>\<rparr>\<rparr>))"

definition spawn :: "spawner_env \<Rightarrow> cluster \<Rightarrow> effect list \<times> reconcile" where
  "spawn e seen =
     (let f = c_fnd seen; latest = att_remediation (attempts (status f)) in
      case (investigation (status f), repository (spec f)) of
        (Some s, Some _) \<Rightarrow>
          (if 0 < latest \<and> (case c_rems seen (rem_name f latest) of
               None \<Rightarrow> False | Some cur \<Rightarrow> rm_phase cur \<noteq> RunFailed \<and> rm_phase cur \<noteq> RunComplete)
           then ([], Settled)
           else
             let attempt = i32 (latest + 1);
                 suggested = (case c_invs seen (is_name s) of
                   None \<Rightarrow> empty_params
                 | Some iv \<Rightarrow> (case iv_remediationParameters iv of None \<Rightarrow> empty_params | Some p \<Rightarrow> p));
                 p1 = resolveParams e suggested;
                 params = (case resolveGrant e (estimate p1) (spec_approval (spec f) \<noteq> None) of
                   (t, b) \<Rightarrow> p1\<lparr>maxTurns := t, tokenBudget := b\<rparr>);
                 prev = spawn_previous (se_meta e) seen f (nat latest);
                 attributedTo = Stamp (se_attribution e) (Some (Attribute f))
             in case holdForCredential e f attributedTo (harness params) of
                  Inr err \<Rightarrow> ([], Errored err)
                | Inl (att, True, es) \<Rightarrow> (es, LookAgain CredentialRecheck)
                | Inl (att, False, es) \<Rightarrow>
                    (es @ [CreateRemediation (new_remediation e f s attempt params att prev),
                           UpdateFinding (count_change attempt)], Settled))
      | _ \<Rightarrow> ([], Settled))"

definition spawner_reconcile :: "spawner_env \<Rightarrow> cluster \<Rightarrow> effect list \<times> reconcile" where
  "spawner_reconcile e seen =
     (let f = c_fnd seen in
      if f_deleting f \<or> suspend (spec f) then ([], Settled)
      else (case phase (status f) of
              PhaseAwaitingApproval \<Rightarrow>
                if spec_approval (spec f) = None then ([], Settled)
                else ([UpdateFinding (admit_change e PhaseAwaitingApproval)], Settled)
            | PhaseHandedOff \<Rightarrow>
                if \<not> revivable f then ([], Settled)
                else ([UpdateFinding (admit_change e PhaseHandedOff)], Settled)
            | PhaseFailed \<Rightarrow>
                if \<not> RetryRequested f \<or> RetryTarget f \<noteq> PhaseQueued \<or> repository (spec f) = None \<or>
                   investigation (status f) = None
                then ([], Settled)
                else ([UpdateFinding (retry_change (se_meta e) (se_now e) PhaseQueued)], Settled)
            | PhaseQueued \<Rightarrow> spawn e seen
            | _ \<Rightarrow> ([], Settled)))"

subsection \<open>The grant\<close>

text \<open>
  What a remediation may spend is never below the automated budget and never above the larger of
  the automated and the manual one; it leaves the automated budget only with an approval, and then only
  as far as the estimate; and no estimate an agent writes can lower it.
\<close>

theorem resolveGrant_bounds:
  assumes "resolveGrant e est approved = (t, b)"
    and "auto_t = (if se_autoMaxTurns e \<le> 0 then defaultAutoMaxTurns else se_autoMaxTurns e)"
    and "auto_b = (if se_autoTokenBudget e \<le> 0 then defaultAutoTokenBudget else se_autoTokenBudget e)"
  shows "auto_t \<le> t \<and> t \<le> max (se_manualMaxTurns e) auto_t \<and> auto_b \<le> b \<and> b \<le> max (se_manualTokenBudget e) auto_b \<and>
    0 < t \<and> 0 < b \<and> (\<not> approved \<or> est = None \<longrightarrow> t = auto_t \<and> b = auto_b) \<and>
    (\<forall>es. est = Some es \<longrightarrow> t \<le> max auto_t (est_maxTurns es) \<and> b \<le> max auto_b (est_tokenBudget es))"
proof -
  have "0 < auto_t" "0 < auto_b"
    using assms(2,3) by (simp_all add: defaultAutoMaxTurns_def defaultAutoTokenBudget_def)
  then show ?thesis using assms(1) unfolding resolveGrant_def Let_def assms(2,3) [symmetric]
    by (auto split: option.splits if_splits)
qed

definition demo_spawner :: spawner_env where
  "demo_spawner = \<lparr>se_meta = demo_meta, se_now = 9, se_allowlist = [], se_defaultModel = [], se_enabled = [],
     se_autoMaxTurns = 0, se_autoTokenBudget = 0, se_manualMaxTurns = 0, se_manualTokenBudget = 0,
     se_attribution = ModeOff, se_credentials = CredOff, se_lookup = None, se_accountURL = [],
     se_sha = (\<lambda>s. s), se_score = (\<lambda>_ _ _ _. 0)\<rparr>"

lemma resolveGrant_bounds_witness:
  "80 \<le> fst (resolveGrant (demo_spawner\<lparr>se_manualMaxTurns := 100\<rparr>) (Some \<lparr>est_maxTurns = 120, est_tokenBudget = 9\<rparr>) True)"
proof -
  obtain t b where r: "resolveGrant (demo_spawner\<lparr>se_manualMaxTurns := 100\<rparr>) (Some \<lparr>est_maxTurns = 120, est_tokenBudget = 9\<rparr>) True = (t, b)"
    by (rule prod.exhaust)
  from resolveGrant_bounds [OF this refl refl] show ?thesis using r
    by (simp add: demo_spawner_def defaultAutoMaxTurns_def)
qed

end
