(* ===== verification/Investigate.thy ===== *)
theory Investigate
  imports Gate Schedule FindingRollup
begin

text \<open>
  The investigation controller (\<open>internal/controller/investigation/investigation_controller.go\<close>): the slot
  scheduler with the pause, and the life of one run: launch, collect, the verdict's routing, failure and
  retry, finalization. What the Job client answers (a Job's status, its events, what Create launched) is
  an argument of the handlers, as is the list of the finding's other runs. Usage measurement and the
  usage rollup after the run settled are not part of this model.
\<close>

record investigate_env =
  ie_meta :: meta_ops
  ie_now :: time
  ie_maxConcurrent :: int
  ie_paused :: bool
  ie_maxAttempts :: int
  ie_aging :: aging_policy
  ie_threshold :: rat
  ie_guard :: guard
  ie_score :: "level \<Rightarrow> int"
  ie_expedited :: "string \<Rightarrow> bool"
  ie_lower :: "string \<Rightarrow> string"

subsection \<open>The scheduler\<close>

definition inv_waiting :: "inv_run \<Rightarrow> bool" where
  "inv_waiting r \<longleftrightarrow> iv_phase r = RunPending \<or> iv_phase r = RunUnset"

definition inv_candidates :: "investigate_env \<Rightarrow> inv_run list \<Rightarrow> candidate list" where
  "inv_candidates e rs =
     map (\<lambda>r. \<lparr>c_name = iv_name r, c_priority = ie_score e (iv_severity r), queuedAt = iv_created r,
            expedited = (if iv_findingName r = [] then False else ie_expedited e (iv_findingName r))\<rparr>)
       (filter (\<lambda>r. inv_waiting r \<and> \<not> iv_deleting r) rs)"

definition inv_mark_paused :: "investigate_env \<Rightarrow> inv_run \<Rightarrow> inv_run \<times> bool" where
  "inv_mark_paused e r =
     (if iv_deleting r then (r, False)
      else case SyncAgentsPaused (ie_meta e) (iv_conditions r)
                  (HeldByPause (ie_paused e) (iv_phase r) (iv_jobRef r)) of
             (conds, changed) \<Rightarrow> if changed then (r\<lparr>iv_conditions := conds\<rparr>, True) else (r, False))"

definition inv_grant :: "inv_run \<Rightarrow> inv_run change" where
  "inv_grant r = (if inv_waiting r then Put (r\<lparr>iv_phase := RunRunning\<rparr>) else Skip)"

definition inv_schedule :: "investigate_env \<Rightarrow> inv_run list \<Rightarrow> inv_run list \<times> reconcile" where
  "inv_schedule e rs =
     (let running = int (length (filter (\<lambda>r. iv_phase r = RunRunning) rs));
          marked = map (inv_mark_paused e) rs;
          rs' = map fst marked
      in if ie_paused e then (rs', LookAgain (5 * nano_minute))
         else if list_ex snd marked then (rs', LookAgain nano_second)
         else
           let maxC = (if ie_maxConcurrent e \<le> 0 then 3 else ie_maxConcurrent e);
               names = Pick (inv_candidates e rs) (maxC - running) (ie_now e) (ie_aging e)
           in (map (\<lambda>r. if iv_name r \<in> set names then stored inv_grant r else r) rs',
               LookAgain (5 * nano_minute)))"

subsection \<open>What the agent reports\<close>

record inv_report =
  ir_stage :: stage_result
  ir_report :: string
  ir_exploitability :: "rating \<times> string"
  ir_likelihood :: "rating \<times> string"
  ir_impact :: "rating \<times> string"
  ir_recommendation :: recommendation
  ir_priority :: level
  ir_severity :: level
  ir_confidence :: rat
  ir_remediationModel :: string
  ir_estimatedMaxTurns :: int
  ir_estimatedTokenBudget :: int
  ir_awaitApproval :: bool
  ir_holdReasons :: "hold_reason list"

definition failed_report :: "stage_result \<Rightarrow> inv_report" where
  "failed_report st = \<lparr>ir_stage = st, ir_report = [], ir_exploitability = (RatingUnset, []),
     ir_likelihood = (RatingUnset, []), ir_impact = (RatingUnset, []),
     ir_recommendation = RecommendationUnset, ir_priority = LevelNone, ir_severity = LevelNone,
     ir_confidence = 0, ir_remediationModel = [], ir_estimatedMaxTurns = 0, ir_estimatedTokenBudget = 0,
     ir_awaitApproval = False, ir_holdReasons = []\<rparr>"

datatype 'r event = Reported 'r | Fatal string | OtherEvent

datatype 'r job_result = LogsGone string | ResultError string | ResultOK "'r event list" "string option"

datatype 'r job_answer = JobGone | JobReadError string | JobSeen job_status "'r job_result"

text \<open>The loop over the events: the last report, and the first fatal event, which ends it.\<close>

fun scan_events :: "'r option \<Rightarrow> 'r event list \<Rightarrow> 'r option \<times> string option" where
  "scan_events acc [] = (acc, None)"
| "scan_events acc (Reported r # es) = scan_events (Some r) es"
| "scan_events acc (Fatal msg # es) = (acc, Some msg)"
| "scan_events acc (OtherEvent # es) = scan_events acc es"

definition holdReasons :: "inv_report \<Rightarrow> hold_reason list" where
  "holdReasons r =
     (if ir_holdReasons r = [] \<and> ir_awaitApproval r then [HoldBreakingChangeAvailable] else ir_holdReasons r)"

definition estimateOf :: "inv_report \<Rightarrow> agent_estimate option" where
  "estimateOf r =
     (if ir_estimatedMaxTurns r \<le> 0 \<and> ir_estimatedTokenBudget r \<le> 0 then None
      else Some \<lparr>est_maxTurns = i32 (ir_estimatedMaxTurns r), est_tokenBudget = i64 (ir_estimatedTokenBudget r)\<rparr>)"

definition analysis :: "rating \<times> string \<Rightarrow> (rating \<times> string) option" where
  "analysis a = (if fst a = RatingUnset then None else Some (fst a, TruncateDetail (snd a)))"

definition ranRepositoryImage :: "runner_image_ref option \<Rightarrow> bool" where
  "ranRepositoryImage ri = (case ri of None \<Rightarrow> False | Some i \<Rightarrow> image_source i = RunnerImageSourceRepository)"

subsection \<open>Routing a verdict\<close>

definition inv_route :: "investigate_env \<Rightarrow> finding \<Rightarrow> inv_run \<Rightarrow> inv_report \<Rightarrow> phase \<times> level \<times> hold_reason list" where
  "inv_route e f r rep =
     (case ir_recommendation rep of
        RecommendationIgnore \<Rightarrow>
          (if ranRepositoryImage (iv_runnerImage r) then PhaseHandedOff else PhaseDismissed, ir_priority rep, [])
      | RecommendationManual \<Rightarrow> (PhaseHandedOff, ir_priority rep, [])
      | RecommendationRemediate \<Rightarrow>
          (if repository (spec f) = None then (PhaseHandedOff, ir_priority rep, [])
           else let holds = holdReasons rep @
                      (if ir_confidence rep < ie_threshold e then [HoldLowConfidence] else [])
                in if holds \<noteq> [] then (PhaseAwaitingApproval, ir_priority rep, holds)
                   else (PhaseQueued, ir_priority rep, []))
      | RecommendationUnset \<Rightarrow> (PhaseHandedOff, ir_priority rep, []))"

subsection \<open>Writes\<close>

definition settledAt :: "run_stage option \<Rightarrow> time \<Rightarrow> time option" where
  "settledAt prev now =
     (case prev of None \<Rightarrow> Some now | Some st \<Rightarrow> (case st_finishedAt st of Some t \<Rightarrow> Some t | None \<Rightarrow> Some now))"

definition stamped_stage :: "stage_result \<Rightarrow> run_stage option \<Rightarrow> time \<Rightarrow> string option \<Rightarrow> run_stage" where
  "stamped_stage st prev now transcript =
     \<lparr>sr_outcome = sr_outcome st, sr_harness = sr_harness st, sr_model = sr_model st,
      sr_detail = TruncateDetail (sr_detail st), st_finishedAt = settledAt prev now, st_transcript = transcript\<rparr>"

definition complete_condition :: "stage_result \<Rightarrow> int \<Rightarrow> condition" where
  "complete_condition st gen = \<lparr>ctype = ConditionComplete, cstatus = ''True'',
     creason = (if sr_outcome st = [] then ''Unknown'' else sr_outcome st),
     cmessage = TruncateDetail (sr_detail st), cgeneration = gen\<rparr>"

definition inv_stamp :: "investigate_env \<Rightarrow> inv_report \<Rightarrow> run_phase \<Rightarrow> string option \<Rightarrow> bool \<Rightarrow> inv_run \<Rightarrow> inv_run change" where
  "inv_stamp e rep p transcript refused cur =
     (let base = cur\<lparr>iv_phase := p,
            iv_stage := Some (stamped_stage (ir_stage rep) (iv_stage cur) (ie_now e) transcript),
            iv_report := TruncateReport (ir_report rep)\<rparr>;
          verdict = (if p \<noteq> RunComplete then base
            else base\<lparr>iv_exploitability := analysis (ir_exploitability rep),
              iv_likelihood := analysis (ir_likelihood rep), iv_impact := analysis (ir_impact rep),
              iv_recommendation := ir_recommendation rep, iv_confidence := FormatConfidence (ir_confidence rep),
              iv_assessedSeverity := ir_severity rep, iv_priority := ir_priority rep,
              iv_awaitApproval := (holdReasons rep \<noteq> []), iv_holdReasons := holdReasons rep,
              iv_remediationParameters :=
                (if ir_remediationModel rep \<noteq> [] \<or> estimateOf rep \<noteq> None
                 then Some (empty_params\<lparr>model := ir_remediationModel rep, estimate := estimateOf rep\<rparr>)
                 else iv_remediationParameters base)\<rparr>);
          conds = setStatusCondition (ie_meta e) (iv_conditions cur) (complete_condition (ir_stage rep) (iv_generation cur));
          conds' = (if refused then setStatusCondition (ie_meta e) conds (RefusedCondition (iv_generation cur)) else conds)
      in Put (verdict\<lparr>iv_conditions := conds'\<rparr>))"

definition inv_release :: "investigate_env \<Rightarrow> phase \<Rightarrow> string \<Rightarrow> finding \<Rightarrow> finding change" where
  "inv_release e to reason cur =
     (if phase (status cur) \<noteq> PhaseInvestigating then Skip
      else phase_then cur to (ie_now e)
        (\<lambda>f. f\<lparr>status := (status f)\<lparr>activeRun := None, lastFailureReason := TruncateDetail reason\<rparr>\<rparr>))"

definition inv_summary :: "investigate_env \<Rightarrow> inv_run \<Rightarrow> inv_report \<Rightarrow> hold_reason list \<Rightarrow> investigation_summary" where
  "inv_summary e r rep holds =
     \<lparr>is_name = iv_name r, is_attempt = iv_attempt r, is_outcome = sr_outcome (ir_stage rep),
      is_recommendation = ir_recommendation rep, is_confidence = FormatConfidence (ir_confidence rep),
      is_exploitability = fst (ir_exploitability rep), is_likelihood = fst (ir_likelihood rep),
      is_impact = fst (ir_impact rep), is_awaitApproval = (holds \<noteq> []), is_holdReasons = holds,
      is_estimate = estimateOf rep, is_runnerImage = iv_runnerImage r, is_completedAt = Some (ie_now e)\<rparr>"

definition investigated_condition :: "inv_report \<Rightarrow> finding \<Rightarrow> condition" where
  "investigated_condition rep cur = \<lparr>ctype = ConditionInvestigated, cstatus = ''True'',
     creason = (if ir_recommendation rep = RecommendationUnset then ''Unknown''
                else recommendation_string (ir_recommendation rep)),
     cmessage = [], cgeneration = f_generation cur\<rparr>"

definition inv_verdict :: "investigate_env \<Rightarrow> inv_run \<Rightarrow> inv_report \<Rightarrow> phase \<times> level \<times> hold_reason list
    \<Rightarrow> finding \<Rightarrow> finding change" where
  "inv_verdict e r rep routed cur =
     (case routed of (to, prio, holds) \<Rightarrow>
       let upd = add_condition (ie_meta e) (investigated_condition rep cur)
             (cur\<lparr>status := (status cur)\<lparr>investigation := Some (inv_summary e r rep holds),
                priority := prio, activeRun := None\<rparr>\<rparr>)
       in if phase (status cur) = PhaseInvestigating then phase_then upd to (ie_now e) (\<lambda>f. f) else Put upd)"

subsection \<open>The life of a run\<close>

definition inv_consumed :: "investigate_env \<Rightarrow> inv_run list \<Rightarrow> inv_run \<Rightarrow> int" where
  "inv_consumed e siblings r =
     fold (\<lambda>s n. if iv_findingUID s = iv_findingUID r \<and> iv_attempt s < iv_attempt r \<and>
                    Refused (ie_meta e) (iv_conditions s) then i32 (n - 1) else n) siblings (iv_attempt r)"

definition inv_attempts :: "investigate_env \<Rightarrow> int" where
  "inv_attempts e = (if ie_maxAttempts e \<le> 0 then 2 else ie_maxAttempts e)"

definition inv_fail :: "investigate_env \<Rightarrow> inv_run list \<Rightarrow> inv_run \<Rightarrow> string \<Rightarrow> string \<Rightarrow> stage_result option
    \<Rightarrow> string option \<Rightarrow> effect list" where
  "inv_fail e siblings r outcome detail reported transcript =
     [UpdateInvestigation (iv_name r)
        (inv_stamp e (failed_report (FailedStage reported outcome detail)) RunFailed transcript False),
      UpdateFinding (inv_release e
        (if inv_attempts e \<le> inv_consumed e siblings r then PhaseFailed else PhaseEnhanced)
        (outcome @ '': '' @ detail))]"

definition inv_apply :: "investigate_env \<Rightarrow> inv_run list \<Rightarrow> finding \<Rightarrow> inv_run \<Rightarrow> inv_report event list
    \<Rightarrow> string option \<Rightarrow> effect list" where
  "inv_apply e siblings f r events transcript =
     (case scan_events None events of
        (result, Some msg) \<Rightarrow> inv_fail e siblings r ''aborted'' msg (map_option ir_stage result) transcript
      | (None, None) \<Rightarrow>
          inv_fail e siblings r ''aborted'' ''agent job produced no investigation event'' None transcript
      | (Some rep, None) \<Rightarrow>
          if sr_outcome (ir_stage rep) \<noteq> ''ok'' then
            inv_fail e siblings r (sr_outcome (ir_stage rep)) (sr_detail (ir_stage rep)) (Some (ir_stage rep)) transcript
          else [UpdateInvestigation (iv_name r) (inv_stamp e rep RunComplete transcript False),
                UpdateFinding (inv_verdict e r rep (inv_route e f r rep))])"

definition inv_collect :: "investigate_env \<Rightarrow> inv_report job_answer \<Rightarrow> inv_run list \<Rightarrow> finding \<Rightarrow> inv_run
    \<Rightarrow> effect list \<times> reconcile" where
  "inv_collect e ans siblings f r =
     (case ans of
        JobGone \<Rightarrow> (inv_fail e siblings r ''aborted'' ''agent job vanished before reporting'' None None, Settled)
      | JobReadError msg \<Rightarrow> ([], Errored msg)
      | JobSeen st res \<Rightarrow>
          if SandboxRefused st then
            ([UpdateInvestigation (iv_name r)
                (inv_stamp e (failed_report (FailedStage None ''aborted'' SandboxReason)) RunFailed None True),
              UpdateFinding (inv_release e PhaseEnhanced SandboxReason)], Settled)
          else if \<not> j_done st then
            (case Pending (ie_lower e) st (ie_now e) of
               (wait, failure) \<Rightarrow>
                 if failure \<noteq> [] then (inv_fail e siblings r ''aborted'' failure None None, Settled)
                 else ([], if 0 < wait then LookAgain wait else Settled))
          else (case res of
                  LogsGone detail \<Rightarrow> (inv_fail e siblings r ''aborted'' detail None None, Settled)
                | ResultError msg \<Rightarrow> ([], Errored msg)
                | ResultOK events transcript \<Rightarrow> (inv_apply e siblings f r events transcript, Settled)))"

definition no_job_image :: job_image where
  "no_job_image = \<lparr>js_runnerImage = [], js_runnerSearchPath = [], js_runnerImageManifest = []\<rparr>"

definition inv_launched :: "string \<Rightarrow> runner_image_ref \<Rightarrow> inv_run \<Rightarrow> inv_run change" where
  "inv_launched job img cur = Put (cur\<lparr>iv_jobRef := Some job, iv_runnerImage := Some img\<rparr>)"

definition inv_launch :: "investigate_env \<Rightarrow> (job_image \<Rightarrow> string + string \<times> runner_image_ref) \<Rightarrow> inv_run list
    \<Rightarrow> repo_object option \<Rightarrow> finding \<Rightarrow> inv_run \<Rightarrow> effect list \<times> reconcile" where
  "inv_launch e create siblings repo f r =
     (case iv_repositoryRef r of
        None \<Rightarrow> (inv_fail e siblings r ''aborted'' ''investigation has no repository artifact'' None None, Settled)
      | Some _ \<Rightarrow>
          (case repo of
             None \<Rightarrow> ([], Errored ''repository not found'')
           | Some rp \<Rightarrow>
               if \<not> rp_artifact rp then ([], Errored ''repository has no artifact yet'')
               else (case create (fst (Pin (ie_guard e) no_job_image (rp_runnerImage rp) f)) of
                       Inl msg \<Rightarrow> ([], Errored msg)
                     | Inr (job, img) \<Rightarrow> ([UpdateInvestigation (iv_name r) (inv_launched job img)], Settled))))"

definition inv_finalize :: "inv_run \<Rightarrow> inv_run change" where
  "inv_finalize cur =
     (if FinalizerJobs \<in> set (iv_finalizers cur)
      then Put (cur\<lparr>iv_finalizers := filter (\<lambda>x. x \<noteq> FinalizerJobs) (iv_finalizers cur)\<rparr>) else Skip)"

definition inv_run_reconcile :: "investigate_env \<Rightarrow> inv_report job_answer
    \<Rightarrow> (job_image \<Rightarrow> string + string \<times> runner_image_ref) \<Rightarrow> inv_run list \<Rightarrow> cluster \<Rightarrow> inv_run
    \<Rightarrow> effect list \<times> reconcile" where
  "inv_run_reconcile e ans create siblings seen r =
     (if iv_deleting r then ([UpdateInvestigation (iv_name r) inv_finalize], Settled)
      else if iv_phase r = RunRunning then
        (case iv_jobRef r of
           None \<Rightarrow> if ie_paused e then ([], Settled)
                   else inv_launch e create siblings (c_repo seen) (c_fnd seen) r
         | Some _ \<Rightarrow> inv_collect e ans siblings (c_fnd seen) r)
      else ([], Settled))"

end
