(* ===== verification/Changeset.thy ===== *)
theory Changeset
  imports Runs
begin

text \<open>
  Changeset validation (\<open>internal/changeset/changeset.go\<close>): what a controller accepts of an agent's change
  before it makes any forge call. Paths and contents are byte strings; \<open>strings.ToLower\<close> on text that is
  not ASCII is the argument \<open>ul\<close>, with \<open>lower_law\<close> what the rules rely on of it: it maps rune by rune, so
  an ASCII beginning comes out in lower case at the beginning. Base64 is Go's standard encoding with its
  tolerance of line breaks. Errors are values, one constructor per message.
\<close>

record file_change =
  fc_path :: string
  fc_mode :: string
  fc_content :: string

record changeset =
  cs_base :: string
  cs_message :: string
  cs_upserts :: "file_change list"
  cs_deletes :: "string list"

record change_rules =
  r_base :: string
  r_maxEntries :: int
  r_repositoryImage :: bool
  r_deny :: "string list"
  r_forbidden :: "string list"

definition DefaultMaxEntries :: int where "DefaultMaxEntries = 500"

definition intentDeny :: "string list" where "intentDeny = [''.github'', ''.maul'', ''.devcontainer'']"

definition IntentRules :: "string \<Rightarrow> int \<Rightarrow> change_rules" where
  "IntentRules base n = \<lparr>r_base = base, r_maxEntries = (if n \<le> 0 then DefaultMaxEntries else n),
     r_repositoryImage = True, r_deny = intentDeny, r_forbidden = []\<rparr>"

datatype change_error =
    UnknownBase | WrongBase string | TooManyEntries int | EmptyPath | PathTooLong | NotUTF8 | HasNUL
  | AbsolutePath | EmptyComponent | DotComponent string | InsideGit | DeniedDirectory string
  | ControlCharacter | CIDefinition | BadMode string | BadContent | NamesProxy string

subsection \<open>Base64\<close>

definition b64_value :: "char \<Rightarrow> nat option" where
  "b64_value c =
     (if is_upper c then Some (byte c - 65)
      else if is_lower c then Some (byte c - 71)
      else if is_digit c then Some (byte c + 4)
      else if c = CHR ''+'' then Some 62
      else if c = CHR ''/'' then Some 63
      else None)"

fun b64_quads :: "string \<Rightarrow> string option" where
  "b64_quads [] = Some []"
| "b64_quads (a # b # c # d # s) =
     (case (b64_value a, b64_value b) of
        (Some x, Some y) \<Rightarrow>
          (if c = CHR ''='' then
             (if d = CHR ''='' \<and> s = [] then Some [char_of (x * 4 + y div 16)] else None)
           else (case b64_value c of
                   None \<Rightarrow> None
                 | Some z \<Rightarrow>
                     if d = CHR ''='' then
                       (if s = [] then Some [char_of (x * 4 + y div 16), char_of (y mod 16 * 16 + z div 4)] else None)
                     else (case (b64_value d, b64_quads s) of
                             (Some w, Some rest) \<Rightarrow>
                               Some (char_of (x * 4 + y div 16) # char_of (y mod 16 * 16 + z div 4) #
                                     char_of (z mod 4 * 64 + w) # rest)
                           | _ \<Rightarrow> None)))
      | _ \<Rightarrow> None)"
| "b64_quads _ = None"

definition b64_decode :: "string \<Rightarrow> string option" where
  "b64_decode s = b64_quads (filter (\<lambda>c. byte c \<noteq> 10 \<and> byte c \<noteq> 13) s)"

subsection \<open>Paths\<close>

abbreviation slash :: char where "slash \<equiv> CHR ''/''"

text \<open>
  \<open>strings.EqualFold(seg, ".git")\<close>: no rune outside ASCII folds to one of \<open>g\<close>, \<open>i\<close>, \<open>t\<close> or the dot.
\<close>

definition is_git :: "string \<Rightarrow> bool" where "is_git seg \<longleftrightarrow> map ascii_lower seg = ''.git''"

fun check_segments :: "string list \<Rightarrow> change_error option" where
  "check_segments [] = None"
| "check_segments (seg # segs) =
     (if seg = [] then Some EmptyComponent
      else if seg = ''.'' \<or> seg = ''..'' then Some (DotComponent seg)
      else if is_git seg then Some InsideGit
      else check_segments segs)"

definition checkPath :: "string \<Rightarrow> change_error option" where
  "checkPath p =
     (if p = [] then Some EmptyPath
      else if 4096 < length p then Some PathTooLong
      else if \<not> valid_utf8 p then Some NotUTF8
      else if char_of (0 :: nat) \<in> set p then Some HasNUL
      else if hd p = slash then Some AbsolutePath
      else check_segments (split_on slash p))"

text \<open>\<open>unicode.IsControl\<close> over valid UTF-8: C0, DEL and the two-byte C1 characters.\<close>

fun has_control :: "string \<Rightarrow> bool" where
  "has_control [] = False"
| "has_control (c # s) =
     (byte c < 32 \<or> byte c = 127 \<or>
      (byte c = 194 \<and> (case s of d # _ \<Rightarrow> 128 \<le> byte d \<and> byte d \<le> 159 | [] \<Rightarrow> False)) \<or> has_control s)"

definition in_dir :: "string \<Rightarrow> string \<Rightarrow> bool" where
  "in_dir p d \<longleftrightarrow> p = d \<or> prefix (d @ ''/'') p"

definition deniedDir :: "(string \<Rightarrow> string) \<Rightarrow> string \<Rightarrow> string list \<Rightarrow> string option" where
  "deniedDir ul p deny = find (\<lambda>d. in_dir (to_lower ul p) (to_lower ul d)) deny"

definition ciDirs :: "string list" where "ciDirs = [''.github/workflows'', ''.github/actions'']"

definition ciPath :: "(string \<Rightarrow> string) \<Rightarrow> string \<Rightarrow> bool" where
  "ciPath ul p \<longleftrightarrow> to_lower ul p = ''.github'' \<or> list_ex (in_dir (to_lower ul p)) ciDirs"

definition check_rules :: "(string \<Rightarrow> string) \<Rightarrow> change_rules \<Rightarrow> string \<Rightarrow> change_error option" where
  "check_rules ul rules p =
     (case checkPath p of
        Some err \<Rightarrow> Some err
      | None \<Rightarrow>
          (case deniedDir ul p (r_deny rules) of
             Some d \<Rightarrow> Some (DeniedDirectory d)
           | None \<Rightarrow>
               if \<not> r_repositoryImage rules then None
               else if has_control p then Some ControlCharacter
               else if ciPath ul p then Some CIDefinition
               else None))"

subsection \<open>Contents\<close>

definition fileModes :: "string list" where "fileModes = [''100644'', ''100755'', ''120000'']"

definition checkUpsert :: "file_change \<Rightarrow> change_error option" where
  "checkUpsert up =
     (if fc_mode up \<notin> set fileModes then Some (BadMode (fc_mode up))
      else if b64_decode (fc_content up) = None then Some BadContent
      else None)"

definition names_proxy :: "(string \<Rightarrow> string) \<Rightarrow> file_change \<Rightarrow> string \<Rightarrow> string \<Rightarrow> bool" where
  "names_proxy ul up body fb \<longleftrightarrow>
     to_lower ul fb \<noteq> [] \<and>
     (contains_str (to_lower ul fb) (to_lower ul (fc_path up)) \<or> contains_str (to_lower ul fb) (to_lower ul body))"

definition checkForbidden :: "(string \<Rightarrow> string) \<Rightarrow> file_change \<Rightarrow> string list \<Rightarrow> change_error option" where
  "checkForbidden ul up forbidden =
     (if forbidden = [] then None
      else (case b64_decode (fc_content up) of
              None \<Rightarrow> Some BadContent
            | Some body \<Rightarrow> map_option (\<lambda>fb. NamesProxy (to_lower ul fb)) (find (names_proxy ul up body) forbidden)))"

subsection \<open>Validation\<close>

fun first_error :: "('a \<Rightarrow> 'b option) \<Rightarrow> 'a list \<Rightarrow> 'b option" where
  "first_error chk [] = None"
| "first_error chk (x # xs) = (case chk x of Some err \<Rightarrow> Some err | None \<Rightarrow> first_error chk xs)"

lemma first_error_None: "first_error chk xs = None \<longleftrightarrow> (\<forall>x\<in>set xs. chk x = None)"
  by (induction xs) (auto split: option.splits)

definition check_upsert :: "(string \<Rightarrow> string) \<Rightarrow> change_rules \<Rightarrow> file_change \<Rightarrow> change_error option" where
  "check_upsert ul rules up =
     (case check_rules ul rules (fc_path up) of
        Some err \<Rightarrow> Some err
      | None \<Rightarrow> (case checkUpsert up of
          Some err \<Rightarrow> Some err | None \<Rightarrow> checkForbidden ul up (r_forbidden rules)))"

definition Validate :: "(string \<Rightarrow> string) \<Rightarrow> changeset \<Rightarrow> change_rules \<Rightarrow> change_error option" where
  "Validate ul cs rules =
     (let n = int (length (cs_upserts cs) + length (cs_deletes cs)) in
      if r_base rules = [] then Some UnknownBase
      else if cs_base cs \<noteq> r_base rules then Some (WrongBase (cs_base cs))
      else if r_repositoryImage rules \<and> r_maxEntries rules < n then Some (TooManyEntries n)
      else (case first_error (check_upsert ul rules) (cs_upserts cs) of
              Some err \<Rightarrow> Some err
            | None \<Rightarrow> first_error (check_rules ul rules) (cs_deletes cs)))"

subsection \<open>What is accepted\<close>

definition component_ok :: "string \<Rightarrow> bool" where
  "component_ok seg \<longleftrightarrow> seg \<noteq> [] \<and> seg \<noteq> ''.'' \<and> seg \<noteq> ''..'' \<and> map ascii_lower seg \<noteq> ''.git''"

text \<open>A path below the root of the work tree, as git itself writes one.\<close>

definition tree_path :: "string \<Rightarrow> bool" where
  "tree_path p \<longleftrightarrow> length p \<le> 4096 \<and> valid_utf8 p \<and> char_of (0 :: nat) \<notin> set p \<and>
     (\<exists>segs. segs \<noteq> [] \<and> p = join_with slash segs \<and> (\<forall>s\<in>set segs. component_ok s \<and> slash \<notin> set s))"

definition change_paths :: "changeset \<Rightarrow> string list" where
  "change_paths cs = map fc_path (cs_upserts cs) @ cs_deletes cs"

lemma check_segments_None: "check_segments segs = None \<longleftrightarrow> (\<forall>s\<in>set segs. component_ok s)"
  by (induction segs) (auto simp: component_ok_def is_git_def)

lemma split_head: "p \<noteq> [] \<Longrightarrow> hd p = slash \<Longrightarrow> hd (split_on slash p) = []"
  by (cases p) auto

lemma checkPath_None: "checkPath p = None \<longleftrightarrow> tree_path p"
proof
  assume a: "checkPath p = None"
  then have "length p \<le> 4096" "valid_utf8 p" "char_of (0 :: nat) \<notin> set p"
    "\<forall>s\<in>set (split_on slash p). component_ok s"
    by (auto simp: checkPath_def check_segments_None split: if_splits)
  then show "tree_path p" unfolding tree_path_def
    by (intro conjI exI [of _ "split_on slash p"]) (auto simp: join_split_on dest: split_on_parts)
next
  assume "tree_path p"
  then obtain segs where t: "length p \<le> 4096" "valid_utf8 p" "char_of (0 :: nat) \<notin> set p" "segs \<noteq> []"
    "p = join_with slash segs" "\<forall>s\<in>set segs. component_ok s \<and> slash \<notin> set s" by (auto simp: tree_path_def)
  have sp: "split_on slash p = segs" using split_join [of segs slash] t by simp
  have first: "hd segs \<noteq> []" using t(6) hd_in_set [OF t(4)] by (auto simp: component_ok_def)
  have p: "p \<noteq> []"
  proof
    assume "p = []"
    then have "segs = [[]]" using sp by simp
    then show False using first by simp
  qed
  have h: "hd p \<noteq> slash" using split_head [OF p] first sp by blast
  have "check_segments segs = None" using t(6) by (simp add: check_segments_None)
  then show "checkPath p = None" using t(1-3) sp p h by (simp add: checkPath_def del: check_segments.simps)
qed

definition path_allowed :: "(string \<Rightarrow> string) \<Rightarrow> change_rules \<Rightarrow> string \<Rightarrow> bool" where
  "path_allowed ul rules p \<longleftrightarrow> tree_path p \<and> (\<forall>d\<in>set (r_deny rules). \<not> in_dir (to_lower ul p) (to_lower ul d)) \<and>
     (r_repositoryImage rules \<longrightarrow> \<not> has_control p \<and> \<not> ciPath ul p)"

definition content_allowed :: "(string \<Rightarrow> string) \<Rightarrow> change_rules \<Rightarrow> file_change \<Rightarrow> bool" where
  "content_allowed ul rules up \<longleftrightarrow> fc_mode up \<in> set fileModes \<and>
     (\<exists>body. b64_decode (fc_content up) = Some body \<and> (\<forall>fb\<in>set (r_forbidden rules). \<not> names_proxy ul up body fb))"

lemma deniedDir_None: "deniedDir ul p deny = None \<longleftrightarrow> (\<forall>d\<in>set deny. \<not> in_dir (to_lower ul p) (to_lower ul d))"
  unfolding deniedDir_def find_None_iff by blast

lemma check_rules_None: "check_rules ul rules p = None \<longleftrightarrow> path_allowed ul rules p"
  unfolding path_allowed_def checkPath_None [symmetric] deniedDir_None [symmetric] check_rules_def
  by (simp split: option.split)

lemma check_upsert_None:
  "check_upsert ul rules up = None \<longleftrightarrow> path_allowed ul rules (fc_path up) \<and> content_allowed ul rules up"
  by (cases "b64_decode (fc_content up)"; cases "check_rules ul rules (fc_path up)")
    (auto simp: check_upsert_def check_rules_None [symmetric] content_allowed_def checkUpsert_def checkForbidden_def
      find_None_iff split: option.splits)

lemma check_upserts_None:
  "first_error (check_upsert ul rules) us = None \<longleftrightarrow>
     list_all (path_allowed ul rules) (map fc_path us) \<and> list_all (content_allowed ul rules) us"
  by (auto simp: first_error_None check_upsert_None list_all_iff)

lemma check_deletes_None:
  "first_error (check_rules ul rules) ps = None \<longleftrightarrow> list_all (path_allowed ul rules) ps"
  by (simp add: first_error_None check_rules_None list_all_iff)

lemma Validate_paths:
  "Validate ul cs rules = None \<Longrightarrow> list_all (path_allowed ul rules) (change_paths cs)"
  by (auto simp: Validate_def Let_def change_paths_def check_upserts_None check_deletes_None
      split: option.splits if_splits)

text \<open>
  C18. Validation accepts exactly the changesets its documentation describes: based on the pinned commit;
  on a repository image with at most the allowed entries; every path a path below the root of the
  tree outside \<open>.git\<close> and the denied directories, on a repository image without control characters and
  outside the CI definitions; every written file with a mode and content the forge can take that names
  no forbidden host.
\<close>

theorem Validate_exact:
  "Validate ul cs rules = None \<longleftrightarrow>
     r_base rules \<noteq> [] \<and> cs_base cs = r_base rules \<and>
     \<not> (r_repositoryImage rules \<and> r_maxEntries rules < int (length (cs_upserts cs) + length (cs_deletes cs))) \<and>
     list_all (path_allowed ul rules) (change_paths cs) \<and> list_all (content_allowed ul rules) (cs_upserts cs)"
  using check_upserts_None [of ul rules "cs_upserts cs"]
  by (cases "first_error (check_upsert ul rules) (cs_upserts cs)")
    (auto simp: Validate_def Let_def change_paths_def check_deletes_None)

subsection \<open>Intents\<close>

definition lower_law :: "(string \<Rightarrow> string) \<Rightarrow> bool" where
  "lower_law ul \<longleftrightarrow> (\<forall>a b. list_all is_ascii a \<longrightarrow> prefix (map ascii_lower a) (ul (a @ b)))"

lemma to_lower_prefix:
  assumes "lower_law ul" "list_all is_ascii a"
  shows "prefix (map ascii_lower a) (to_lower ul (a @ b))"
  using assms by (auto simp: to_lower_def lower_law_def)

lemma in_dir_lower:
  assumes "lower_law ul" "list_all is_ascii a" "p = a \<or> p = a @ slash # b" "map ascii_lower a = d"
  shows "in_dir (to_lower ul p) d"
proof (cases "p = a")
  case True
  then show ?thesis using assms(2,4) by (simp add: in_dir_def to_lower_def)
next
  case False
  then have "p = (a @ ''/'') @ b" using assms(3) by simp
  moreover have "ascii_lower slash = slash" by code_simp
  ultimately show ?thesis using to_lower_prefix [OF assms(1), of "a @ ''/''" b] assms(2,4)
    by (simp add: in_dir_def is_ascii_def)
qed

lemma first_component:
  assumes "split_on slash p = seg # segs"
  shows "p = seg \<or> p = seg @ slash # join_with slash segs"
  using join_split_on [of slash p] assms by (cases segs) auto

lemma ascii_of_lower: "list_all is_ascii (map ascii_lower s) \<Longrightarrow> list_all is_ascii s"
  by (induction s) (auto simp: ascii_lower_def is_ascii_def is_upper_def split: if_splits)

text \<open>
  C12. Nothing an intent's agent writes can change what runs next: an accepted intent changeset has no
  path whose first component is \<open>.github\<close>, \<open>.maul\<close> or \<open>.devcontainer\<close> in any mix of cases, none inside
  \<open>.git\<close>, and none that leaves the work tree.
\<close>

theorem intent_changeset_safe:
  assumes "lower_law ul" "Validate ul cs (IntentRules base n) = None" "p \<in> set (change_paths cs)"
  shows "tree_path p \<and> map ascii_lower (hd (split_on slash p)) \<notin> set intentDeny"
proof -
  have ok: "path_allowed ul (IntentRules base n) p"
    using Validate_paths [OF assms(2)] assms(3) by (simp add: list_all_iff)
  obtain seg segs where s: "split_on slash p = seg # segs" by (cases "split_on slash p") auto
  have "map ascii_lower seg \<notin> set intentDeny"
  proof
    assume d: "map ascii_lower seg \<in> set intentDeny"
    have "list_all is_ascii (map ascii_lower seg)"
      using d by (auto simp: intentDeny_def is_ascii_def)
    then have "in_dir (to_lower ul p) (map ascii_lower seg)"
      using in_dir_lower [OF assms(1) ascii_of_lower first_component [OF s] refl] by simp
    moreover have "to_lower ul (map ascii_lower seg) = map ascii_lower seg"
      using d by (auto simp: intentDeny_def to_lower_def is_ascii_def ascii_lower_def is_upper_def)
    ultimately show False using ok d by (auto simp: path_allowed_def IntentRules_def)
  qed
  then show ?thesis using ok s by (simp add: path_allowed_def)
qed

definition demo_change :: changeset where
  "demo_change = \<lparr>cs_base = ''c0ffee'', cs_message = ''fix'',
     cs_upserts = [\<lparr>fc_path = ''src/a.go'', fc_mode = ''100644'', fc_content = ''aGk=''\<rparr>], cs_deletes = [''old'']\<rparr>"

lemma intent_changeset_safe_witness:
  "tree_path ''src/a.go'' \<and> map ascii_lower (hd (split_on slash ''src/a.go'')) \<notin> set intentDeny"
proof (rule intent_changeset_safe)
  show "lower_law (map ascii_lower)" by (auto simp: lower_law_def)
  show "Validate (map ascii_lower) demo_change (IntentRules ''c0ffee'' 0) = None" by code_simp
  show "''src/a.go'' \<in> set (change_paths demo_change)" by (simp add: change_paths_def demo_change_def)
qed

end
