(* ===== verification/Remediate.thy ===== *)
theory Remediate
  imports Spawner Investigate Changeset
begin

text \<open>
  The remediation controller (\<open>internal/controller/remediation/remediation_controller.go\<close>): the slot
  scheduler with the pause, and the life of one run: launch with the hold for an image that cannot run,
  collect, the push and the pull request of a validated changeset, hand-off, failure and retry,
  finalization. What the Job client and the forge answer is an argument of the handlers, as are the
  finding's other runs and the texts the templates render (the issue the agent reads, the commit
  message, the message of a validation error). Usage measurement and the usage rollup after the run
  settled are not part of this model.
\<close>

record remediate_env =
  re_meta :: meta_ops
  re_now :: time
  re_maxConcurrent :: int
  re_paused :: bool
  re_maxAttempts :: int
  re_aging :: aging_policy
  re_enabled :: "string list"
  re_guard :: guard
  re_maxChangesetEntries :: int
  re_expedited :: "string \<Rightarrow> bool"
  re_lower :: "string \<Rightarrow> string"
  re_proxyForms :: "string list"
  re_render :: "finding \<Rightarrow> string option"
  re_commitMessage :: "string \<Rightarrow> string"
  re_errorText :: "change_error \<Rightarrow> string"

subsection \<open>The scheduler\<close>

definition rem_waiting :: "rem_run \<Rightarrow> bool" where
  "rem_waiting r \<longleftrightarrow> rm_phase r = RunPending \<or> rm_phase r = RunUnset"

definition rem_candidates :: "remediate_env \<Rightarrow> rem_run list \<Rightarrow> candidate list" where
  "rem_candidates e rs =
     map (\<lambda>r. \<lparr>c_name = rm_name r, c_priority = rm_priority r, queuedAt = rm_created r,
            expedited = (if rm_findingName r = [] then False else re_expedited e (rm_findingName r))\<rparr>)
       (filter (\<lambda>r. rem_waiting r \<and> \<not> rm_deleting r) rs)"

definition rem_mark_paused :: "remediate_env \<Rightarrow> rem_run \<Rightarrow> rem_run \<times> bool" where
  "rem_mark_paused e r =
     (if rm_deleting r then (r, False)
      else case SyncAgentsPaused (re_meta e) (rm_conditions r)
                  (HeldByPause (re_paused e) (rm_phase r) (rm_jobRef r)) of
             (conds, changed) \<Rightarrow> if changed then (r\<lparr>rm_conditions := conds\<rparr>, True) else (r, False))"

definition rem_grant :: "remediate_env \<Rightarrow> rem_run \<Rightarrow> rem_run change" where
  "rem_grant e r = (if rem_waiting r then Put (r\<lparr>rm_phase := RunRunning, rm_grantedAt := Some (re_now e)\<rparr>) else Skip)"

definition rem_started :: "remediate_env \<Rightarrow> string \<Rightarrow> finding \<Rightarrow> finding change" where
  "rem_started e name cur =
     (if phase (status cur) \<noteq> PhaseQueued then Skip
      else phase_then cur PhaseRemediating (re_now e)
        (\<lambda>f. f\<lparr>status := (status f)\<lparr>activeRun := Some \<lparr>run_kind = RunKindRemediation, run_name = name\<rparr>\<rparr>\<rparr>))"

text \<open>\<open>grant\<close>: the calls it makes on the run's finding.\<close>

definition grant_effects :: "remediate_env \<Rightarrow> string \<Rightarrow> effect list" where
  "grant_effects e name = [UpdateRemediation True name (rem_grant e), UpdateFinding (rem_started e name)]"

text \<open>\<open>schedule\<close>: the runs with the pause's mark brought up to date, the runs granted, the requeue.\<close>

definition rem_schedule :: "remediate_env \<Rightarrow> rem_run list \<Rightarrow> rem_run list \<times> string list \<times> reconcile" where
  "rem_schedule e rs =
     (let running = int (length (filter (\<lambda>r. rm_phase r = RunRunning) rs));
          marked = map (rem_mark_paused e) rs;
          rs' = map fst marked
      in if re_paused e then (rs', [], LookAgain (5 * nano_minute))
         else if list_ex snd marked then (rs', [], LookAgain nano_second)
         else
           let maxC = (if re_maxConcurrent e \<le> 0 then 1 else re_maxConcurrent e);
               names = Pick (rem_candidates e rs) (maxC - running) (re_now e) (re_aging e)
           in (map (\<lambda>r. if rm_name r \<in> set names then stored (rem_grant e) r else r) rs', names,
               LookAgain (5 * nano_minute)))"

subsection \<open>What the agent reports\<close>

record rem_report =
  rr_stage :: stage_result
  rr_report :: string
  rr_success :: bool
  rr_confidence :: rat
  rr_changeset :: "changeset option"

definition failed_remediation :: "stage_result \<Rightarrow> rem_report" where
  "failed_remediation st = \<lparr>rr_stage = st, rr_report = [], rr_success = False, rr_confidence = 0, rr_changeset = None\<rparr>"

subsection \<open>Writes\<close>

text \<open>\<open>stampChild\<close>, with the caller's \<open>extra\<close>.\<close>

definition rem_stamp :: "remediate_env \<Rightarrow> rem_report \<Rightarrow> run_phase \<Rightarrow> string option \<Rightarrow> (rem_run \<Rightarrow> rem_run)
    \<Rightarrow> rem_run \<Rightarrow> rem_run change" where
  "rem_stamp e rep p transcript extra cur =
     (let r = extra (cur\<lparr>rm_phase := p,
            rm_stage := Some (stamped_stage (rr_stage rep) (rm_stage cur) (re_now e) transcript),
            rm_report := TruncateReport (rr_report rep)\<rparr>)
      in Put (r\<lparr>rm_conditions := setStatusCondition (re_meta e) (rm_conditions r)
                  (complete_condition (rr_stage rep) (rm_generation cur))\<rparr>))"

definition mark_refused :: "remediate_env \<Rightarrow> rem_run \<Rightarrow> rem_run" where
  "mark_refused e r = r\<lparr>rm_conditions := setStatusCondition (re_meta e) (rm_conditions r) (RefusedCondition (rm_generation r))\<rparr>"

definition mark_held :: "remediate_env \<Rightarrow> string \<Rightarrow> rem_run \<Rightarrow> rem_run" where
  "mark_held e skipped r =
     r\<lparr>rm_conditions := setStatusCondition (re_meta e) (rm_conditions r) (HeldCondition (rm_generation r) skipped)\<rparr>"

definition finishFinding :: "remediate_env \<Rightarrow> rem_run \<Rightarrow> rem_report \<Rightarrow> phase \<Rightarrow> string \<Rightarrow> finding \<Rightarrow> finding change" where
  "finishFinding e r rep to reason cur =
     (if phase (status cur) \<noteq> PhaseRemediating then Skip
      else phase_then (cur\<lparr>status := (status cur)
             \<lparr>remediation := Some \<lparr>rs_name = rm_name r, rs_attempt = rm_attempt r, rs_outcome = sr_outcome (rr_stage rep),
                rs_success = False, rs_branch = [], rs_completedAt = Some (re_now e)\<rparr>,
              activeRun := None, lastFailureReason := TruncateDetail reason\<rparr>\<rparr>) to (re_now e) (\<lambda>f. f))"

definition rem_succeeded :: "remediate_env \<Rightarrow> rem_run \<Rightarrow> rem_report \<Rightarrow> string \<Rightarrow> int \<Rightarrow> string \<Rightarrow> finding
    \<Rightarrow> finding change" where
  "rem_succeeded e r rep branch number url cur =
     (let upd = cur\<lparr>status := (status cur)
            \<lparr>remediation := Some \<lparr>rs_name = rm_name r, rs_attempt = rm_attempt r, rs_outcome = sr_outcome (rr_stage rep),
               rs_success = True, rs_branch = branch, rs_completedAt = Some (re_now e)\<rparr>,
             pullRequest := Some \<lparr>pr_number = number, pr_url = url, pr_state = ''open'', mergedAt = None,
               mergeCommitSHA = []\<rparr>,
             activeRun := None\<rparr>\<rparr>
      in if phase (status cur) = PhaseRemediating then phase_then upd PhaseInReview (re_now e) (\<lambda>f. f) else Put upd)"

subsection \<open>The life of a run\<close>

definition rem_consumed :: "remediate_env \<Rightarrow> rem_run list \<Rightarrow> rem_run \<Rightarrow> int" where
  "rem_consumed e siblings r =
     fold (\<lambda>s n. if rm_findingUID s = rm_findingUID r \<and> rm_attempt s < rm_attempt r \<and>
                    (Refused (re_meta e) (rm_conditions s) \<or> Held (re_meta e) (rm_conditions s))
                 then i32 (n - 1) else n) siblings (rm_attempt r)"

definition rem_attempts :: "remediate_env \<Rightarrow> int" where
  "rem_attempts e = (if re_maxAttempts e \<le> 0 then 2 else re_maxAttempts e)"

definition rem_fail :: "remediate_env \<Rightarrow> rem_run list \<Rightarrow> rem_run \<Rightarrow> string \<Rightarrow> string \<Rightarrow> stage_result option
    \<Rightarrow> string option \<Rightarrow> effect list" where
  "rem_fail e siblings r outcome detail reported transcript =
     (let rep = failed_remediation (FailedStage reported outcome detail) in
      [UpdateRemediation False (rm_name r) (rem_stamp e rep RunFailed transcript (\<lambda>x. x)),
       UpdateFinding (finishFinding e r rep
         (if rem_attempts e \<le> rem_consumed e siblings r then PhaseFailed else PhaseQueued)
         (outcome @ '': '' @ detail))])"

definition untestedAccepted :: "remediate_env \<Rightarrow> rem_run list \<Rightarrow> rem_run \<Rightarrow> bool" where
  "untestedAccepted e siblings r \<longleftrightarrow>
     list_ex (\<lambda>s. rm_findingUID s = rm_findingUID r \<and> rm_attempt s < rm_attempt r \<and>
                  Held (re_meta e) (rm_conditions s)) siblings"

definition OutcomeDefaultImageHeld :: string where "OutcomeDefaultImageHeld = ''default_image_held''"

definition holdForImage :: "remediate_env \<Rightarrow> rem_run \<Rightarrow> string \<Rightarrow> effect list" where
  "holdForImage e r skipped =
     (let rep = failed_remediation (FailedStage None OutcomeDefaultImageHeld (HeldDetail skipped)) in
      [UpdateRemediation False (rm_name r) (rem_stamp e rep RunFailed None (mark_held e skipped)),
       UpdateFinding (finishFinding e r rep PhaseHandedOff (HeldDetail skipped))])"

definition sandboxRefused :: "remediate_env \<Rightarrow> rem_run \<Rightarrow> effect list" where
  "sandboxRefused e r =
     (let rep = failed_remediation (FailedStage None ''aborted'' SandboxReason) in
      [UpdateRemediation False (rm_name r) (rem_stamp e rep RunFailed None (mark_refused e)),
       UpdateFinding (finishFinding e r rep PhaseQueued SandboxReason)])"

definition handOff :: "remediate_env \<Rightarrow> rem_run \<Rightarrow> rem_report \<Rightarrow> string option \<Rightarrow> effect list" where
  "handOff e r rep transcript =
     [UpdateRemediation False (rm_name r) (rem_stamp e rep RunComplete transcript
        (\<lambda>x. x\<lparr>rm_success := False, rm_confidence := FormatConfidence (rr_confidence rep)\<rparr>)),
      UpdateFinding (finishFinding e r rep PhaseHandedOff ''agent reported the finding is not safely fixable'')]"

definition networkProfileOf :: "runner_image_ref option \<Rightarrow> string" where
  "networkProfileOf ri = (case ri of None \<Rightarrow> [] | Some i \<Rightarrow> networkProfile i)"

definition maxChangesetEntries :: "remediate_env \<Rightarrow> int" where
  "maxChangesetEntries e = (if re_maxChangesetEntries e \<le> 0 then DefaultMaxEntries else re_maxChangesetEntries e)"

definition changesetRules :: "remediate_env \<Rightarrow> cluster \<Rightarrow> rem_run \<Rightarrow> change_rules" where
  "changesetRules e seen r =
     \<lparr>r_base = (case c_repo seen of None \<Rightarrow> [] | Some rp \<Rightarrow> rp_resolvedSHA rp),
      r_maxEntries = maxChangesetEntries e,
      r_repositoryImage = (if ranRepositoryImage (rm_runnerImage r) then True
        else (case c_invs seen (rm_investigationRef r) of
                None \<Rightarrow> True | Some iv \<Rightarrow> ranRepositoryImage (iv_runnerImage iv))),
      r_deny = [], r_forbidden = (if networkProfileOf (rm_runnerImage r) \<noteq> [] then re_proxyForms e else [])\<rparr>"

record forge_writer =
  fw_push :: "string \<Rightarrow> string \<Rightarrow> changeset \<Rightarrow> string + string"
  fw_ensurePR :: "string \<Rightarrow> string \<Rightarrow> string + int \<times> string"

definition branch_of :: "finding \<Rightarrow> string" where "branch_of f = ''maul/'' @ f_name f"

definition rem_pushed :: "rem_report \<Rightarrow> string \<Rightarrow> string \<Rightarrow> int \<Rightarrow> string \<Rightarrow> rem_run \<Rightarrow> rem_run" where
  "rem_pushed rep branch commit number url x =
     x\<lparr>rm_success := True, rm_branch := branch, rm_pushedCommit := commit,
       rm_confidence := FormatConfidence (rr_confidence rep), rm_pullRequest := Some (number, url)\<rparr>"

definition rem_succeed :: "remediate_env \<Rightarrow> forge_writer \<Rightarrow> rem_run list \<Rightarrow> cluster \<Rightarrow> rem_run \<Rightarrow> rem_report
    \<Rightarrow> string option \<Rightarrow> effect list \<times> reconcile" where
  "rem_succeed e w siblings seen r rep transcript =
     (let f = c_fnd seen in
      case (repository (spec f), rr_changeset rep) of
        (Some rp, Some cs) \<Rightarrow>
          (case Validate (re_lower e) cs (changesetRules e seen r) of
             Some err \<Rightarrow> (rem_fail e siblings r ''changeset_rejected'' (re_errorText e err) (Some (rr_stage rep)) transcript,
                          Settled)
           | None \<Rightarrow>
               (case fw_push w (repo_url rp) (branch_of f) (cs\<lparr>cs_message := re_commitMessage e (cs_message cs)\<rparr>) of
                  Inl msg \<Rightarrow> ([], Errored (''push remediation branch: '' @ msg))
                | Inr commit \<Rightarrow>
                    (case fw_ensurePR w (repo_url rp) (branch_of f) of
                       Inl msg \<Rightarrow> ([], Errored (''open remediation PR: '' @ msg))
                     | Inr (number, url) \<Rightarrow>
                         ([UpdateRemediation False (rm_name r) (rem_stamp e rep RunComplete transcript
                             (rem_pushed rep (branch_of f) commit number url)),
                           UpdateFinding (rem_succeeded e r rep (branch_of f) number url)], Settled))))
      | _ \<Rightarrow> (rem_fail e siblings r ''aborted'' ''success without changeset or repository'' (Some (rr_stage rep)) transcript,
              Settled))"

definition rem_apply :: "remediate_env \<Rightarrow> forge_writer \<Rightarrow> rem_run list \<Rightarrow> cluster \<Rightarrow> rem_run \<Rightarrow> rem_report event list
    \<Rightarrow> string option \<Rightarrow> effect list \<times> reconcile" where
  "rem_apply e w siblings seen r events transcript =
     (case scan_events None events of
        (result, Some msg) \<Rightarrow> (rem_fail e siblings r ''aborted'' msg (map_option rr_stage result) transcript, Settled)
      | (None, None) \<Rightarrow>
          (rem_fail e siblings r ''aborted'' ''agent job produced no remediation event'' None transcript, Settled)
      | (Some rep, None) \<Rightarrow>
          if sr_outcome (rr_stage rep) \<noteq> ''ok'' then
            (rem_fail e siblings r (sr_outcome (rr_stage rep)) (sr_detail (rr_stage rep)) (Some (rr_stage rep)) transcript,
             Settled)
          else if \<not> rr_success rep then (handOff e r rep transcript, Settled)
          else rem_succeed e w siblings seen r rep transcript)"

definition rem_collect :: "remediate_env \<Rightarrow> forge_writer \<Rightarrow> rem_report job_answer \<Rightarrow> rem_run list \<Rightarrow> cluster
    \<Rightarrow> rem_run \<Rightarrow> effect list \<times> reconcile" where
  "rem_collect e w ans siblings seen r =
     (case ans of
        JobGone \<Rightarrow> (rem_fail e siblings r ''aborted'' ''agent job vanished before reporting'' None None, Settled)
      | JobReadError msg \<Rightarrow> ([], Errored msg)
      | JobSeen st res \<Rightarrow>
          if SandboxRefused st then (sandboxRefused e r, Settled)
          else if \<not> j_done st then
            (case Pending (re_lower e) st (re_now e) of
               (wait, failure) \<Rightarrow>
                 if failure \<noteq> [] then (rem_fail e siblings r ''aborted'' failure None None, Settled)
                 else ([], if 0 < wait then LookAgain wait else Settled))
          else (case res of
                  LogsGone detail \<Rightarrow> (rem_fail e siblings r ''aborted'' detail None None, Settled)
                | ResultError msg \<Rightarrow> ([], Errored msg)
                | ResultOK events transcript \<Rightarrow> rem_apply e w siblings seen r events transcript))"

datatype launch_answer = LaunchRefused string | LaunchError string | Launched string runner_image_ref

definition rem_launched :: "string \<Rightarrow> runner_image_ref \<Rightarrow> rem_run \<Rightarrow> rem_run change" where
  "rem_launched job img cur = Put (cur\<lparr>rm_jobRef := Some job, rm_runnerImage := Some img\<rparr>)"

definition rem_create :: "remediate_env \<Rightarrow> (job_image \<Rightarrow> launch_answer) \<Rightarrow> rem_run list \<Rightarrow> rem_run \<Rightarrow> job_image
    \<Rightarrow> effect list \<times> reconcile" where
  "rem_create e create siblings r sp =
     (case create sp of
        LaunchRefused msg \<Rightarrow>
          (rem_fail e siblings r ''launch_refused'' (''the agent Job's network profile was refused: '' @ msg) None None, Settled)
      | LaunchError msg \<Rightarrow> ([], Errored (''launch remediation job: '' @ msg))
      | Launched job img \<Rightarrow> ([UpdateRemediation False (rm_name r) (rem_launched job img)], Settled))"

definition rem_launch :: "remediate_env \<Rightarrow> (job_image \<Rightarrow> launch_answer) \<Rightarrow> rem_run list \<Rightarrow> cluster \<Rightarrow> rem_run
    \<Rightarrow> effect list \<times> reconcile" where
  "rem_launch e create siblings seen r =
     (case c_repo seen of
        None \<Rightarrow> ([], Errored ''repository not found'')
      | Some rp \<Rightarrow>
          if \<not> rp_artifact rp then ([], Errored ''repository has no artifact'')
          else if c_invs seen (rm_investigationRef r) = None then ([], Errored ''investigation not found'')
          else (case re_render e (c_fnd seen) of
            Some msg \<Rightarrow> ([], Errored msg)
          | None \<Rightarrow>
              let h = harness (rm_parameters r) in
              if h = [] \<or> h \<notin> set (re_enabled e) then
                (rem_fail e siblings r ''aborted''
                   (''harness '' @ h @ '' for model '' @ model (rm_parameters r) @ '' is not enabled'') None None, Settled)
              else (case Pin (re_guard e) no_job_image (rp_runnerImage rp) (c_fnd seen) of
                (sp, skipped) \<Rightarrow>
                  if skipped \<noteq> [] \<and> \<not> untestedAccepted e siblings r then (holdForImage e r skipped, Settled)
                  else rem_create e create siblings r sp)))"

definition rem_finalize :: "rem_run \<Rightarrow> rem_run change" where
  "rem_finalize cur =
     (if FinalizerJobs \<in> set (rm_finalizers cur)
      then Put (cur\<lparr>rm_finalizers := filter (\<lambda>x. x \<noteq> FinalizerJobs) (rm_finalizers cur)\<rparr>) else Skip)"

definition rem_run_reconcile :: "remediate_env \<Rightarrow> forge_writer \<Rightarrow> rem_report job_answer
    \<Rightarrow> (job_image \<Rightarrow> launch_answer) \<Rightarrow> rem_run list \<Rightarrow> cluster \<Rightarrow> rem_run \<Rightarrow> effect list \<times> reconcile" where
  "rem_run_reconcile e w ans create siblings seen r =
     (if rm_deleting r then ([UpdateRemediation False (rm_name r) rem_finalize], Settled)
      else if rm_phase r = RunRunning then
        (case rm_jobRef r of
           None \<Rightarrow> if re_paused e then ([], Settled) else rem_launch e create siblings seen r
         | Some _ \<Rightarrow> rem_collect e w ans siblings seen r)
      else ([], Settled))"

end
