(* ===== verification/Signals.thy ===== *)
theory Signals
  imports Cluster
begin

text \<open>
  The human signals of the tracking system (\<open>internal/controller/integration/webhooks.go\<close>,
  \<open>internal/controller/integration/review.go\<close>): the tracking issue closed or reopened, the remediation's
  pull request closed or merged, and the review close that waits for GitHub's answer. Each is a write on
  the stored finding. Parsing a repository out of a recorded URL goes through \<open>net/url\<close> and is an
  argument, as is \<open>strings.EqualFold\<close> on text that is not ASCII.
\<close>

record repo_text =
  rt_parseURL :: "string \<Rightarrow> (string \<times> string) option"
  rt_foldEq :: "string \<Rightarrow> string \<Rightarrow> bool"

definition EqualFold :: "repo_text \<Rightarrow> string \<Rightarrow> string \<Rightarrow> bool" where
  "EqualFold t a b =
     (if list_all is_ascii a \<and> list_all is_ascii b then map ascii_lower a = map ascii_lower b else rt_foldEq t a b)"

definition parseOwnerRepo :: "string \<Rightarrow> (string \<times> string) option" where
  "parseOwnerRepo full =
     (case cut_at (CHR ''/'') full of (owner, name, ok) \<Rightarrow>
        if \<not> ok \<or> owner = [] \<or> name = [] then None else Some (owner, name))"

definition repo_string :: "string \<times> string \<Rightarrow> string" where
  "repo_string r = fst r @ ''/'' @ snd r"

definition recordedPRRepo :: "repo_text \<Rightarrow> finding \<Rightarrow> (string \<times> string) option" where
  "recordedPRRepo t f =
     (let own = (case repository (spec f) of None \<Rightarrow> None | Some rp \<Rightarrow> parseOwnerRepo (repo_name rp)) in
      case pullRequest (status f) of
        None \<Rightarrow> own
      | Some pr \<Rightarrow> if pr_url pr = [] then own
          else (case rt_parseURL t (pr_url pr) of None \<Rightarrow> own | Some r \<Rightarrow> Some r))"

definition isRecordedPR :: "repo_text \<Rightarrow> finding \<Rightarrow> string \<Rightarrow> string \<Rightarrow> int \<Rightarrow> bool" where
  "isRecordedPR t f repo headRepo number =
     (case pullRequest (status f) of
        None \<Rightarrow> False
      | Some pr \<Rightarrow> pr_number pr = number \<and>
          (case recordedPRRepo t f of
             None \<Rightarrow> False
           | Some r \<Rightarrow> EqualFold t repo (repo_string r) \<and> EqualFold t headRepo repo))"

definition unrecordedRepoPR :: "repo_text \<Rightarrow> finding \<Rightarrow> string \<Rightarrow> string \<Rightarrow> int \<Rightarrow> bool" where
  "unrecordedRepoPR t f repo headRepo number =
     (case pullRequest (status f) of
        None \<Rightarrow> False | Some pr \<Rightarrow> pr_number pr = number \<and> repo \<noteq> [] \<and> EqualFold t headRepo repo)"

subsection \<open>The close of a pull request\<close>

record pr_close =
  pc_merged :: bool
  pc_mergedAt :: "time option"
  pc_mergeCommitSHA :: string

definition settled_pr :: "pr_close \<Rightarrow> pull_request_status \<Rightarrow> pull_request_status" where
  "settled_pr c pr =
     (if \<not> pc_merged c then pr\<lparr>pr_state := ''closed''\<rparr>
      else pr\<lparr>pr_state := ''merged'',
        mergedAt := (case pc_mergedAt c of None \<Rightarrow> mergedAt pr | Some t \<Rightarrow> Some t),
        mergeCommitSHA := (if length (pc_mergeCommitSHA c) \<le> 64 then pc_mergeCommitSHA c else mergeCommitSHA pr)\<rparr>)"

definition drop_pending :: "meta_ops \<Rightarrow> finding \<Rightarrow> finding" where
  "drop_pending m cur = cur\<lparr>status := (status cur)
     \<lparr>conditions := removeStatusCondition m (conditions (status cur)) ConditionReviewClosePending\<rparr>\<rparr>"

definition settle :: "meta_ops \<Rightarrow> time \<Rightarrow> pr_close \<Rightarrow> finding \<Rightarrow> finding change" where
  "settle m now c cur =
     (let cur1 = drop_pending m cur;
          cur2 = cur1\<lparr>status := (status cur1)\<lparr>pullRequest := map_option (settled_pr c) (pullRequest (status cur1))\<rparr>\<rparr>
      in phase_then cur2 (if pc_merged c then PhaseRemediated else PhaseFailed) now (\<lambda>f. f))"

abbreviation ReasonTrackingIssueClosed :: string where "ReasonTrackingIssueClosed \<equiv> ''TrackingIssueClosed''"
abbreviation ReasonUnrecordedRepository :: string where "ReasonUnrecordedRepository \<equiv> ''UnrecordedRepository''"

definition pendClose :: "meta_ops \<Rightarrow> string \<Rightarrow> string \<Rightarrow> finding \<Rightarrow> finding" where
  "pendClose m reason message cur = cur\<lparr>status := (status cur)
     \<lparr>conditions := setStatusCondition m (conditions (status cur))
        \<lparr>ctype = ConditionReviewClosePending, cstatus = ''True'', creason = reason, cmessage = message,
         cgeneration = f_generation cur\<rparr>\<rparr>\<rparr>"

definition pending_message :: "int \<Rightarrow> string \<Rightarrow> string" where
  "pending_message number repo = ''pull request #'' @ show_int number @ '' closed in '' @ repo @
     '', not the recorded repository; reading the recorded pull request to tell a rename or transfer from another repository's pull request''"

definition pull_request_change :: "meta_ops \<Rightarrow> repo_text \<Rightarrow> time \<Rightarrow> pr_close \<Rightarrow> string \<Rightarrow> string \<Rightarrow> int
    \<Rightarrow> finding \<Rightarrow> finding change" where
  "pull_request_change m t now c repo headRepo number cur =
     (if phase (status cur) \<noteq> PhaseInReview then Skip
      else if isRecordedPR t cur repo headRepo number then settle m now c cur
      else if unrecordedRepoPR t cur repo headRepo number then
        (if isStatusConditionTrue m (conditions (status cur)) ConditionReviewClosePending then Skip
         else Put (pendClose m ReasonUnrecordedRepository (pending_message number repo) cur))
      else Skip)"

text \<open>Which finding a delivery of a pull request is for, when it is one: the head branch's name.\<close>

definition pull_request_finding :: "string \<Rightarrow> string \<Rightarrow> string option" where
  "pull_request_finding action headRef = (if action \<noteq> ''closed'' then None else cut_prefix headRef ''maul/'')"

subsection \<open>The tracking issue\<close>

definition set_tracking :: "string \<Rightarrow> finding \<Rightarrow> finding" where
  "set_tracking st cur = cur\<lparr>status := (status cur)
     \<lparr>tracking := map_option (\<lambda>tr. tr\<lparr>tr_state := st\<rparr>) (tracking (status cur))\<rparr>\<rparr>"

definition issue_change :: "meta_ops \<Rightarrow> time \<Rightarrow> string \<Rightarrow> finding \<Rightarrow> finding change" where
  "issue_change m now action cur =
     (if action \<noteq> ''closed'' \<and> action \<noteq> ''reopened'' then Skip
      else let upd = set_tracking (if action = ''closed'' then ''closed'' else ''open'') cur in
        if action = ''closed'' \<and> phase (status upd) = PhaseInReview then
          Put (pendClose m ReasonTrackingIssueClosed
            ''the tracking issue closed during review; reading the remediation pull request to tell its merge from a hand-off'' upd)
        else if action = ''closed'' \<and> \<not> Terminal (phase (status upd)) then
          phase_then upd PhaseHandedOff now (\<lambda>f. f)
        else if action = ''reopened'' \<and> phase (status upd) = PhaseDismissed then
          phase_then upd PhaseHandedOff now (\<lambda>f. f)
        else Put upd)"

subsection \<open>The pending close\<close>

text \<open>
  \<open>settlePendingClose\<close>, on the answers read from GitHub: the recorded pull request (\<open>None\<close> when there is
  none to read, else whether it is closed and its close), and the issue's state, empty when not read.
\<close>

definition settlePendingClose :: "meta_ops \<Rightarrow> time \<Rightarrow> (bool \<times> pr_close) option \<Rightarrow> string \<Rightarrow> finding \<Rightarrow> finding change" where
  "settlePendingClose m now pr issueState cur =
     (case findStatusCondition m (conditions (status cur)) ConditionReviewClosePending of
        None \<Rightarrow> Skip
      | Some p \<Rightarrow>
          if phase (status cur) \<noteq> PhaseInReview \<or> cstatus p \<noteq> ''True'' then Skip
          else (case pr of
                  Some (True, c) \<Rightarrow> settle m now c cur
                | _ \<Rightarrow>
                    let cur1 = (if issueState \<noteq> [] then set_tracking issueState cur else cur);
                        handOff = (creason p = ReasonTrackingIssueClosed \<and>
                          (case tracking (status cur1) of None \<Rightarrow> False | Some tr \<Rightarrow> tr_state tr = ''closed''))
                    in if handOff then phase_then (drop_pending m cur1) PhaseHandedOff now (\<lambda>f. f)
                       else Put (drop_pending m cur1)))"

subsection \<open>Who can end a review\<close>

lemma signal_fields [simp]:
  "phase (status (drop_pending m f)) = phase (status f)" "phaseTimes (status (drop_pending m f)) = phaseTimes (status f)"
  "completedAt (status (drop_pending m f)) = completedAt (status f)" "spec (drop_pending m f) = spec f"
  "phase (status (set_tracking s f)) = phase (status f)" "phaseTimes (status (set_tracking s f)) = phaseTimes (status f)"
  "completedAt (status (set_tracking s f)) = completedAt (status f)" "spec (set_tracking s f) = spec f"
  "phase (status (pendClose m r g f)) = phase (status f)" "phaseTimes (status (pendClose m r g f)) = phaseTimes (status f)"
  "completedAt (status (pendClose m r g f)) = completedAt (status f)" "spec (pendClose m r g f) = spec f"
  by (simp_all add: drop_pending_def set_tracking_def pendClose_def)

lemma settle_review:
  "phase (status cur) = PhaseInReview \<Longrightarrow> \<exists>g. settle m now c cur = Put g \<and> spec g = spec cur \<and>
     phase (status g) = (if pc_merged c then PhaseRemediated else PhaseFailed) \<and>
     conditions (status g) = removeStatusCondition m (conditions (status cur)) ConditionReviewClosePending \<and>
     pullRequest (status g) = map_option (settled_pr c) (pullRequest (status cur))"
  by (simp add: settle_def Let_def phase_then_def SetPhase_def CanTransition_def drop_pending_def)

text \<open>
  C16. A pull request anyone may open ends nothing. A delivery moves a finding only when it is in review,
  and then only for the pull request on record: its number, closed in the recorded repository (the one its
  recorded URL names, else the finding's own) and from a branch of that same repository. For that one the
  finding becomes Remediated exactly when it was merged and Failed otherwise; a delivery that differs in
  its repository alone is at most kept pending, and every other changes nothing.
\<close>

theorem pull_request_only_recorded:
  assumes "change = pull_request_change m t now c repo headRepo number cur"
  shows "((\<exists>g. change = Put g \<and> phase (status g) \<noteq> phase (status cur)) \<longleftrightarrow>
      phase (status cur) = PhaseInReview \<and>
      (\<exists>pr r. pullRequest (status cur) = Some pr \<and> pr_number pr = number \<and> recordedPRRepo t cur = Some r \<and>
         EqualFold t repo (repo_string r) \<and> EqualFold t headRepo repo)) \<and>
    (\<forall>g. change = Put g \<longrightarrow>
      (if phase (status g) \<noteq> phase (status cur)
       then phase (status g) = (if pc_merged c then PhaseRemediated else PhaseFailed)
       else unrecordedRepoPR t cur repo headRepo number \<and> pullRequest (status g) = pullRequest (status cur) \<and>
            phaseTimes (status g) = phaseTimes (status cur)))"
proof -
  have r: "(\<exists>pr r. pullRequest (status cur) = Some pr \<and> pr_number pr = number \<and> recordedPRRepo t cur = Some r \<and>
         EqualFold t repo (repo_string r) \<and> EqualFold t headRepo repo) \<longleftrightarrow> isRecordedPR t cur repo headRepo number"
    by (auto simp: isRecordedPR_def split: option.splits)
  show ?thesis
  proof (cases "phase (status cur) = PhaseInReview \<and> isRecordedPR t cur repo headRepo number")
    case True
    obtain g where "settle m now c cur = Put g" "phase (status g) = (if pc_merged c then PhaseRemediated else PhaseFailed)"
      using settle_review [of cur m now c] True by blast
    then show ?thesis unfolding r using True by (auto simp: assms pull_request_change_def)
  next
    case False
    then show ?thesis unfolding r assms pull_request_change_def by (auto simp: pendClose_def)
  qed
qed

lemma settlePendingClose_cases:
  assumes "phase (status cur) = PhaseInReview"
    "findStatusCondition m (conditions (status cur)) ConditionReviewClosePending = Some p" "cstatus p = ''True''"
  obtains (closed) c where "pr = Some (True, c)" "settlePendingClose m now pr issueState cur = settle m now c cur"
  | (still_open) cur1 where "\<nexists>c. pr = Some (True, c)" "cur1 = (if issueState \<noteq> [] then set_tracking issueState cur else cur)"
      "settlePendingClose m now pr issueState cur =
        (if creason p = ReasonTrackingIssueClosed \<and>
            (case tracking (status cur1) of None \<Rightarrow> False | Some tr \<Rightarrow> tr_state tr = ''closed'')
         then phase_then (drop_pending m cur1) PhaseHandedOff now (\<lambda>f. f) else Put (drop_pending m cur1))"
proof (cases "\<exists>c. pr = Some (True, c)")
  case True
  then obtain c where "pr = Some (True, c)" by blast
  then show ?thesis using closed assms by (simp add: settlePendingClose_def)
next
  case False
  then have "settlePendingClose m now pr issueState cur =
     (let cur1 = (if issueState \<noteq> [] then set_tracking issueState cur else cur) in
      if creason p = ReasonTrackingIssueClosed \<and>
            (case tracking (status cur1) of None \<Rightarrow> False | Some tr \<Rightarrow> tr_state tr = ''closed'')
         then phase_then (drop_pending m cur1) PhaseHandedOff now (\<lambda>f. f) else Put (drop_pending m cur1))"
    using assms by (cases pr) (auto simp: settlePendingClose_def Let_def split: bool.splits)
  then show ?thesis using still_open [OF False refl] by (simp add: Let_def)
qed


definition demo_review :: finding where
  "demo_review = \<lparr>f_name = ''finding-ab-1'', f_namespace = ''maul'', f_uid = ''u'', f_generation = 1, f_deleting = False,
     spec = \<lparr>integrationRef = ''gh'', trackingRef = None, source = ''codeql'', repository = None, cloudResource = None,
       alerts = [''7''], overflowAlerts = 0, advisories = [], ruleID = [], title = ''t'', description = [],
       spec_severity = LevelHigh, suspend = False, spec_approval = None, spec_retry = None, expedite = None\<rparr>,
     status = fresh_status\<lparr>phase := PhaseInReview,
       tracking := Some \<lparr>tr_integration = ''gh'', issueNumber = 3, tr_url = ''u'', tr_state = ''closed''\<rparr>,
       conditions := [\<lparr>ctype = ConditionReviewClosePending, cstatus = ''True'', creason = ReasonTrackingIssueClosed,
         cmessage = [], cgeneration = 1\<rparr>]\<rparr>\<rparr>"


definition demo_text :: repo_text where
  "demo_text = \<lparr>rt_parseURL = (\<lambda>_. None), rt_foldEq = (\<lambda>a b. a = b)\<rparr>"

text \<open>A pull request of another repository with the recorded number moves nothing.\<close>

lemma pull_request_only_recorded_witness:
  "\<nexists>g. pull_request_change demo_meta demo_text 5 \<lparr>pc_merged = True, pc_mergedAt = None, pc_mergeCommitSHA = []\<rparr>
     ''evil/fork'' ''evil/fork'' 3
     (demo_review\<lparr>status := (status demo_review)
        \<lparr>pullRequest := Some \<lparr>pr_number = 3, pr_url = [], pr_state = ''open'', mergedAt = None, mergeCommitSHA = []\<rparr>\<rparr>\<rparr>) =
     Put g \<and> phase (status g) \<noteq> PhaseInReview"
  using pull_request_only_recorded [OF refl, of demo_meta demo_text 5
      "\<lparr>pc_merged = True, pc_mergedAt = None, pc_mergeCommitSHA = []\<rparr>" "''evil/fork''" "''evil/fork''" 3
      "demo_review\<lparr>status := (status demo_review)
        \<lparr>pullRequest := Some \<lparr>pr_number = 3, pr_url = [], pr_state = ''open'', mergedAt = None, mergeCommitSHA = []\<rparr>\<rparr>\<rparr>"]
  by (simp add: demo_review_def fresh_status_def recordedPRRepo_def)

end
