(* ===== verification/Enhance.thy ===== *)
theory Enhance
  imports Gate
begin

text \<open>
  Enhancement (\<open>internal/controller/context/finding_controller.go\<close>): one pass of the enhancer chain over an
  opened finding, the repository it may resolve for a cloud finding, the hold while a lookup fails, and
  the move to Enhanced. What the enhancers answer is an argument. The writes are plain updates of the
  object that was read, so they take effect only when it is still the stored one: \<open>unchanged\<close>.
\<close>

record repository_ref =
  rr_provider :: string
  rr_url :: string
  rr_owner :: string
  rr_name :: string

record enricher_result =
  er_owners :: "string list"
  er_markdown :: string
  er_repository :: "repository_ref option"

datatype enhancer_answer =
    Answered string "enricher_result option"
  | EnhancerFailed string
  | AnsweredMany "(string \<times> enricher_result) list" bool

record chain_result =
  cr_enrichments :: "enrichment list"
  cr_owners :: "string list"
  cr_repository :: "repository_ref option"
  cr_failed :: bool

abbreviation maxEnrichmentMarkdown :: nat where "maxEnrichmentMarkdown \<equiv> 16384"

definition add_owner :: "string \<Rightarrow> string list \<Rightarrow> string list" where
  "add_owner w ws = (if w \<in> set ws then ws else ws @ [w])"

definition collect :: "time \<Rightarrow> string \<Rightarrow> enricher_result option \<Rightarrow> chain_result \<Rightarrow> chain_result" where
  "collect now i enr out =
     (case enr of
        None \<Rightarrow> out
      | Some r \<Rightarrow>
          out\<lparr>cr_repository := (case cr_repository out of None \<Rightarrow> er_repository r | Some x \<Rightarrow> Some x),
              cr_enrichments :=
                (if length (cr_enrichments out) < 8
                 then cr_enrichments out @ [\<lparr>en_enhancer = i, en_owners = er_owners r,
                        en_markdown = truncate_utf8 (er_markdown r) maxEnrichmentMarkdown, en_appliedAt = now\<rparr>]
                 else cr_enrichments out),
              cr_owners := fold add_owner (er_owners r) (cr_owners out)\<rparr>)"

definition chain_step :: "time \<Rightarrow> enhancer_answer \<Rightarrow> chain_result \<Rightarrow> chain_result" where
  "chain_step now a out =
     (case a of
        Answered i enr \<Rightarrow> collect now i enr out
      | EnhancerFailed i \<Rightarrow> out\<lparr>cr_failed := True\<rparr>
      | AnsweredMany rs failed \<Rightarrow>
          fold (\<lambda>(i, r). collect now i (Some r)) rs (if failed then out\<lparr>cr_failed := True\<rparr> else out))"

definition runChain :: "time \<Rightarrow> enhancer_answer list \<Rightarrow> chain_result" where
  "runChain now as = fold (chain_step now) as
     \<lparr>cr_enrichments = [], cr_owners = [], cr_repository = None, cr_failed = False\<rparr>"

definition holdForRepository :: "meta_ops \<Rightarrow> finding \<Rightarrow> chain_result \<Rightarrow> bool" where
  "holdForRepository m f out =
     (if \<not> cr_failed out \<or> cr_repository out \<noteq> None \<or> cloudResource (spec f) = None \<or> repository (spec f) \<noteq> None
      then False
      else if expedite (spec f) \<noteq> None then False
      else \<not> isStatusConditionTrue m (conditions (status f)) ConditionAccumulationComplete)"

text \<open>\<open>repoNameFromURL\<close> goes through \<open>net/url\<close> and is the argument \<open>nm\<close>.\<close>

definition toFindingRepository :: "(string \<Rightarrow> string) \<Rightarrow> repository_ref option \<Rightarrow> finding_repository option" where
  "toFindingRepository nm ref =
     (case ref of
        None \<Rightarrow> None
      | Some r \<Rightarrow>
          if map ascii_lower (rr_provider r) \<noteq> ''github'' then None
          else let name = (if rr_owner r \<noteq> [] \<and> rr_name r \<noteq> [] then rr_owner r @ ''/'' @ rr_name r else []);
                   repoURL = (if rr_url r = [] \<and> name \<noteq> [] then ''https://github.com/'' @ name else rr_url r)
            in if repoURL = [] then None
               else Some \<lparr>repo_type = ''github'', repo_url = repoURL, repo_name = (if name = [] then nm repoURL else name),
                      defaultBranch = []\<rparr>)"

definition ReasonRepositoryUnresolved :: string where "ReasonRepositoryUnresolved = ''RepositoryUnresolved''"

definition contextCondition :: "finding \<Rightarrow> condition" where
  "contextCondition f =
     (case (cloudResource (spec f), repository (spec f)) of
        (Some cr, None) \<Rightarrow> \<lparr>ctype = ConditionContextEnhanced, cstatus = ''False'', creason = ReasonRepositoryUnresolved,
          cmessage = ''no enhancer resolved a repository for '' @ cr, cgeneration = f_generation f\<rparr>
      | _ \<Rightarrow> \<lparr>ctype = ConditionContextEnhanced, cstatus = ''True'', creason = ''EnhancerChainComplete'',
          cmessage = [], cgeneration = f_generation f\<rparr>)"

definition held_condition :: "finding \<Rightarrow> condition" where
  "held_condition f = \<lparr>ctype = ConditionContextEnhanced, cstatus = ''False'', creason = ReasonRepositoryUnresolved,
     cmessage = ''repository lookup failed; retrying until the accumulation window closes'', cgeneration = f_generation f\<rparr>"

definition unchanged :: "finding \<Rightarrow> finding change \<Rightarrow> finding \<Rightarrow> finding change" where
  "unchanged f w cur = (if cur = f then w else Fail (OtherError ''conflict''))"

definition with_repository :: "finding_repository option \<Rightarrow> finding \<Rightarrow> finding" where
  "with_repository rp f =
     (if rp \<noteq> None \<and> repository (spec f) = None
      then f\<lparr>f_generation := f_generation f + 1, spec := (spec f)\<lparr>repository := rp\<rparr>\<rparr> else f)"

definition enhanced_change :: "meta_ops \<Rightarrow> time \<Rightarrow> chain_result \<Rightarrow> finding \<Rightarrow> finding change" where
  "enhanced_change m now out f =
     phase_then (add_condition m (contextCondition f)
        (f\<lparr>status := (status f)\<lparr>enrichments := cr_enrichments out, owners := cr_owners out\<rparr>\<rparr>)) PhaseEnhanced now (\<lambda>f. f)"

record enhance_env =
  ee_meta :: meta_ops
  ee_now :: time
  ee_retryAfter :: duration
  ee_repoName :: "string \<Rightarrow> string"

definition enhance_reconcile :: "enhance_env \<Rightarrow> enhancer_answer list \<Rightarrow> cluster \<Rightarrow> effect list \<times> reconcile" where
  "enhance_reconcile e as seen =
     (let f = c_fnd seen in
      if f_deleting f \<or> suspend (spec f) \<or> phase (status f) \<noteq> PhaseOpened then ([], Settled)
      else
        let out = runChain (ee_now e) as; rp = toFindingRepository (ee_repoName e) (cr_repository out) in
        if holdForRepository (ee_meta e) f out then
          ([UpdateFinding (unchanged f (Put (add_condition (ee_meta e) (held_condition f) f)))],
           LookAgain (if ee_retryAfter e \<le> 0 then nano_minute else ee_retryAfter e))
        else
          let f' = with_repository rp f;
              set_repo = (if f' = f then [] else [UpdateFinding (unchanged f (Put f'))])
          in (set_repo @ [UpdateFinding (unchanged f' (enhanced_change (ee_meta e) (ee_now e) out f'))], Settled))"

subsection \<open>The chain\<close>

lemma collect_bounds:
  "length (cr_enrichments out) \<le> 8 \<Longrightarrow> length (cr_enrichments (collect now i enr out)) \<le> 8"
  by (auto simp: collect_def split: option.splits)

lemma distinct_add_owner: "distinct ws \<Longrightarrow> distinct (fold add_owner xs ws)"
  by (induction xs arbitrary: ws) (auto simp: add_owner_def)

lemma set_add_owner: "set (fold add_owner xs ws) = set ws \<union> set xs"
  by (induction xs arbitrary: ws) (auto simp: add_owner_def)

lemma collect_owners:
  "distinct (cr_owners out) \<Longrightarrow> distinct (cr_owners (collect now i enr out))"
  by (auto simp: collect_def distinct_add_owner split: option.splits)

lemma collect_failed [simp]: "cr_failed (collect now i enr out) = cr_failed out"
  by (auto simp: collect_def split: option.splits)

lemma fold_collect_invariant:
  "length (cr_enrichments out) \<le> 8 \<and> distinct (cr_owners out) \<Longrightarrow>
   (let r = fold (\<lambda>(i, r). collect now i (Some r)) rs out in
    length (cr_enrichments r) \<le> 8 \<and> distinct (cr_owners r))"
  by (induction rs arbitrary: out) (auto simp: Let_def collect_bounds collect_owners)

lemma runChain_bounds: "length (cr_enrichments (runChain now as)) \<le> 8 \<and> distinct (cr_owners (runChain now as))"
proof -
  have "length (cr_enrichments (fold (chain_step now) as out)) \<le> 8 \<and> distinct (cr_owners (fold (chain_step now) as out))"
    if "length (cr_enrichments out) \<le> 8 \<and> distinct (cr_owners out)" for out
    using that
  proof (induction as arbitrary: out)
    case (Cons a as)
    have "length (cr_enrichments (chain_step now a out)) \<le> 8 \<and> distinct (cr_owners (chain_step now a out))"
    proof (cases a)
      case (AnsweredMany rs b)
      then show ?thesis using fold_collect_invariant [of "if b then out\<lparr>cr_failed := True\<rparr> else out" now rs] Cons.prems
        by (auto simp: chain_step_def Let_def)
    qed (use Cons.prems in \<open>auto simp: chain_step_def collect_bounds collect_owners\<close>)
    then show ?case using Cons.IH by simp
  qed simp
  then show ?thesis by (simp add: runChain_def)
qed

end
