(* ===== verification/Ingest.thy ===== *)
theory Ingest
  imports Enhance
begin

text \<open>
  Ingest (\<open>internal/controller/integration/ingest.go\<close>) and the accumulation window
  (\<open>closeAccumulation\<close> of \<open>project.go\<close>): which generation of a finding's family takes a new alert, the fold
  into it, the successor when it stopped accepting, and the observation a merged fix supersedes. A family
  is the list of its stored findings in any order; the key hash and GitHub's answers about commits are
  arguments. Generation numbers are unbounded integers here.
\<close>

record observation =
  ob_source :: string
  ob_alertID :: string
  ob_alertNumber :: int
  ob_advisories :: "string list"
  ob_ruleID :: string
  ob_title :: string
  ob_description :: string
  ob_severity :: string
  ob_commit :: string
  ob_ref :: string
  ob_owner :: string
  ob_repo :: string
  ob_cloudResource :: "string option"

definition alertID :: "observation \<Rightarrow> string" where
  "alertID ob = (if ob_alertID ob \<noteq> [] then ob_alertID ob else show_int (ob_alertNumber ob))"

definition repositoryURL :: "string \<Rightarrow> observation \<Rightarrow> string" where
  "repositoryURL host ob = (if ob_owner ob = [] \<or> ob_repo ob = [] then []
     else ''https://'' @ host @ ''/'' @ ob_owner ob @ ''/'' @ ob_repo ob)"

definition accumulationScope :: "string \<Rightarrow> observation \<Rightarrow> string" where
  "accumulationScope url ob = (if url \<noteq> [] then url else case ob_cloudResource ob of Some n \<Rightarrow> n | None \<Rightarrow> [])"

definition levelOf :: "string \<Rightarrow> level" where
  "levelOf s = (if s = ''low'' then LevelLow else if s = ''medium'' then LevelMedium
     else if s = ''high'' then LevelHigh else if s = ''critical'' then LevelCritical else LevelNone)"

definition branchOf :: "string \<Rightarrow> string option" where
  "branchOf ref =
     (case cut_prefix ref ''refs/heads/'' of
        Some b \<Rightarrow> (if b = [] then None else Some b)
      | None \<Rightarrow> if ref = [] \<or> prefix ''refs/'' ref then None else Some ref)"

subsection \<open>Generations\<close>

text \<open>\<open>strconv.Atoi\<close> is the decimal parse of an \<open>int64\<close>.\<close>

definition generationOf :: "string \<Rightarrow> int" where
  "generationOf name =
     (if CHR ''-'' \<notin> set name then 0
      else case ParseInt10 (rev (takeWhile (\<lambda>c. c \<noteq> CHR ''-'') (rev name))) of None \<Rightarrow> 0 | Some n \<Rightarrow> n)"

definition gen_name :: "string \<Rightarrow> int \<Rightarrow> string" where
  "gen_name hash gen = ''finding-'' @ hash @ ''-'' @ show_int gen"

fun foldable :: "phase \<Rightarrow> bool" where
  "foldable PhaseNone = True"
| "foldable PhaseOpened = True"
| "foldable PhaseEnhanced = True"
| "foldable _ = False"

definition accepting :: "finding \<Rightarrow> bool" where
  "accepting f \<longleftrightarrow> \<not> suspend (spec f) \<and> foldable (phase (status f))"

definition holdsAlert :: "finding \<Rightarrow> string \<Rightarrow> bool" where
  "holdsAlert f i \<longleftrightarrow> i \<in> set (alerts (spec f))"

definition heldByLive :: "finding list \<Rightarrow> string \<Rightarrow> bool" where
  "heldByLive items i = list_ex (\<lambda>f. \<not> f_deleting f \<and> foldable (phase (status f)) \<and> holdsAlert f i) items"

definition newest_step :: "finding \<Rightarrow> finding option \<times> int \<Rightarrow> finding option \<times> int" where
  "newest_step cur acc =
     (case acc of (target, maxGen) \<Rightarrow>
       (if \<not> f_deleting cur \<and> accepting cur \<and>
           (case target of None \<Rightarrow> True | Some t \<Rightarrow> generationOf (f_name t) < generationOf (f_name cur))
        then Some cur else target, max maxGen (generationOf (f_name cur))))"

definition newestAccepting :: "finding list \<Rightarrow> finding option \<times> int" where
  "newestAccepting items = fold newest_step items (None, 0)"

definition latest_step :: "string \<Rightarrow> finding \<Rightarrow> finding option \<Rightarrow> finding option" where
  "latest_step i cur latest =
     (if \<not> holdsAlert cur i then latest
      else case latest of
        None \<Rightarrow> Some cur
      | Some l \<Rightarrow> if generationOf (f_name l) < generationOf (f_name cur) then Some cur else latest)"

definition latestWithAlert :: "finding list \<Rightarrow> string \<Rightarrow> finding option" where
  "latestWithAlert family i = fold (latest_step i) family None"

subsection \<open>The superseding fix\<close>

record commit_graph =
  cg_precedes :: "string \<Rightarrow> string \<Rightarrow> string + bool"
  cg_contains :: "string \<Rightarrow> string \<Rightarrow> string + bool"

definition supersedingFix :: "commit_graph option \<Rightarrow> observation \<Rightarrow> finding list \<Rightarrow> string + finding option" where
  "supersedingFix commits ob family =
     (case (commits, branchOf (ob_ref ob), latestWithAlert family (alertID ob)) of
        (Some cg, Some branch, Some latest) \<Rightarrow>
          if ob_commit ob = [] \<or> phase (status latest) \<noteq> PhaseRemediated then Inr None
          else (case pullRequest (status latest) of
            None \<Rightarrow> Inr None
          | Some pr \<Rightarrow>
              if pr_state pr \<noteq> ''merged'' \<or> mergeCommitSHA pr = [] \<or> mergeCommitSHA pr = ob_commit ob then Inr None
              else (case cg_precedes cg (ob_commit ob) (mergeCommitSHA pr) of
                Inl err \<Rightarrow> Inl err
              | Inr False \<Rightarrow> Inr None
              | Inr True \<Rightarrow>
                  (case cg_contains cg branch (mergeCommitSHA pr) of
                     Inl err \<Rightarrow> Inl err
                   | Inr fixed \<Rightarrow> Inr (if fixed then Some latest else None))))
      | _ \<Rightarrow> Inr None)"

subsection \<open>Folding an alert\<close>

abbreviation maxAlerts :: nat where "maxAlerts \<equiv> 64"

datatype fold_result = Raced | Folded finding

definition add_new :: "string \<Rightarrow> string list \<Rightarrow> string list" where
  "add_new x xs = (if x \<in> set xs then xs else xs @ [x])"

definition fold_alert :: "observation \<Rightarrow> finding \<Rightarrow> fold_result" where
  "fold_alert ob cur =
     (if \<not> foldable (phase (status cur)) then Raced
      else if holdsAlert cur (alertID ob) then Folded cur
      else if suspend (spec cur) then Raced
      else let sp = (if maxAlerts \<le> length (alerts (spec cur))
                     then (spec cur)\<lparr>overflowAlerts := i32 (overflowAlerts (spec cur) + 1)\<rparr>
                     else (spec cur)\<lparr>alerts := alerts (spec cur) @ [alertID ob]\<rparr>)
        in Folded (cur\<lparr>spec := sp\<lparr>advisories := fold add_new (ob_advisories ob) (advisories sp)\<rparr>\<rparr>))"

record ingest_env =
  ng_ns :: string
  ng_integration :: string
  ng_tracking :: "string option"
  ng_now :: time
  ng_window :: duration
  ng_uid :: "string \<Rightarrow> string"

definition new_finding :: "ingest_env \<Rightarrow> observation \<Rightarrow> string \<Rightarrow> string \<Rightarrow> finding" where
  "new_finding e ob url name =
     \<lparr>f_name = name, f_namespace = ng_ns e, f_uid = ng_uid e name, f_generation = 1, f_deleting = False,
      spec = \<lparr>integrationRef = ng_integration e, trackingRef = ng_tracking e, source = ob_source ob,
        repository = (if url = [] then None
          else Some \<lparr>repo_type = ''github'', repo_url = url, repo_name = ob_owner ob @ ''/'' @ ob_repo ob, defaultBranch = []\<rparr>),
        cloudResource = ob_cloudResource ob, alerts = [alertID ob], overflowAlerts = 0, advisories = ob_advisories ob,
        ruleID = ob_ruleID ob, title = ob_title ob, description = truncate_utf8 (ob_description ob) 65536,
        spec_severity = levelOf (ob_severity ob), suspend = False, spec_approval = None, spec_retry = None,
        expedite = None\<rparr>,
      status = fresh_status\<rparr>"

definition DefaultWindow :: duration where "DefaultWindow = nano_hour"

text \<open>The status write that follows the create, a plain update that can be refused.\<close>

definition init_status :: "ingest_env \<Rightarrow> finding \<Rightarrow> finding change" where
  "init_status e f = phase_then f PhaseOpened (ng_now e)
     (\<lambda>f. f\<lparr>status := (status f)\<lparr>firstObservedAt := Some (ng_now e),
        accumulateUntil := Some (ng_now e + (if ng_window e \<le> 0 then DefaultWindow else ng_window e))\<rparr>\<rparr>)"

definition created :: "ingest_env \<Rightarrow> observation \<Rightarrow> string \<Rightarrow> string \<Rightarrow> bool \<Rightarrow> finding" where
  "created e ob url name stamped =
     (let f = new_finding e ob url name in if stamped then stored (init_status e) f else f)"

text \<open>
  The family in the API server, by name. \<open>create\<close> walks up the generations until it makes one or folds
  into one; \<open>stamped\<close> says whether the status write after the create is accepted.
\<close>

definition lookup_name :: "finding list \<Rightarrow> string \<Rightarrow> finding option" where
  "lookup_name st name = find (\<lambda>f. f_name f = name) st"

definition replace :: "finding \<Rightarrow> finding list \<Rightarrow> finding list" where
  "replace g st = map (\<lambda>f. if f_name f = f_name g then g else f) st"

text \<open>Lemmas on names, for the end of the walk.\<close>

lemma show_nat_inj: "show_nat a = show_nat b \<Longrightarrow> a = b"
  using show_nat_digits [of a] show_nat_digits [of b] by (metis of_nat_eq_iff)

lemma show_int_inj: "show_int a = show_int b \<Longrightarrow> a = b"
proof -
  assume h: "show_int a = show_int b"
  have m: "show_nat n \<noteq> CHR ''-'' # s" for n s
    using show_nat_digits [of n] by (auto simp: is_digit_def)
  show "a = b"
    using h m [of "nat a"] m [of "nat b"] by (auto simp: show_int_def dest!: show_nat_inj split: if_splits)
      (metis m)+
qed

lemma gen_name_inj: "gen_name hash a = gen_name hash b \<longleftrightarrow> a = b"
  by (auto simp: gen_name_def dest: show_int_inj)

definition above :: "finding list \<Rightarrow> string \<Rightarrow> int \<Rightarrow> int set" where
  "above st hash gen = {g. gen \<le> g \<and> lookup_name st (gen_name hash g) \<noteq> None}"

lemma finite_above: "finite (above st hash gen)"
proof -
  have "gen_name hash ` above st hash gen \<subseteq> f_name ` set st"
    by (auto simp: above_def lookup_name_def find_Some_iff in_set_conv_nth image_iff)
      (metis (mono_tags) find_Some_iff nth_mem)
  then have "finite (gen_name hash ` above st hash gen)" using finite_surj by blast
  then show ?thesis by (rule finite_imageD) (auto simp: inj_on_def gen_name_inj)
qed

lemma above_Suc:
  "lookup_name st (gen_name hash gen) = Some f \<Longrightarrow> above st hash gen = insert gen (above st hash (gen + 1))"
  by (auto simp: above_def)

function ingest_create :: "ingest_env \<Rightarrow> observation \<Rightarrow> string \<Rightarrow> string \<Rightarrow> bool \<Rightarrow> finding list \<Rightarrow> int
    \<Rightarrow> finding list \<times> string" where
  "ingest_create e ob url hash stamped st gen =
     (case lookup_name st (gen_name hash gen) of
        None \<Rightarrow> (st @ [created e ob url (gen_name hash gen) stamped], gen_name hash gen)
      | Some cur \<Rightarrow> (case fold_alert ob cur of
          Folded g \<Rightarrow> (replace g st, gen_name hash gen)
        | Raced \<Rightarrow> ingest_create e ob url hash stamped st (gen + 1)))"
  by pat_completeness auto

termination ingest_create
proof (relation "measure (\<lambda>(e, ob, url, hash, stamped, st, gen). card (above st hash gen))", goal_cases)
  case (2 e ob url hash stamped st gen cur)
  have "gen \<notin> above st hash (gen + 1)" by (simp add: above_def)
  then show ?case using above_Suc [OF 2(1)] finite_above [of st hash "gen + 1"] by simp
qed simp

declare ingest_create.simps [simp del]

subsection \<open>Ingest\<close>

datatype ingest_outcome = StaleSkipped string | AlreadyHeld | Took string | IngestError string

text \<open>
  The placing of an alert that is not stale: the family as the cache lists it, the family as stored.
\<close>

definition place :: "ingest_env \<Rightarrow> bool \<Rightarrow> observation \<Rightarrow> string \<Rightarrow> string \<Rightarrow> finding list \<Rightarrow> finding list
    \<Rightarrow> finding list \<times> ingest_outcome" where
  "place e stamped ob url hash seen st =
     (if heldByLive seen (alertID ob) then (st, AlreadyHeld)
      else case newestAccepting seen of
        (None, maxGen) \<Rightarrow> (case ingest_create e ob url hash stamped st (maxGen + 1) of (st', n) \<Rightarrow> (st', Took n))
      | (Some t, _) \<Rightarrow>
          (case lookup_name st (f_name t) of
             None \<Rightarrow> (st, IngestError ''not found'')
           | Some cur \<Rightarrow> (case fold_alert ob cur of
               Folded g \<Rightarrow> (replace g st, Took (f_name t))
             | Raced \<Rightarrow> (case ingest_create e ob url hash stamped st (generationOf (f_name t) + 1) of
                 (st', n) \<Rightarrow> (st', Took n)))))"

text \<open>
  \<open>ingest\<close> for a delivery: a failed ancestry lookup, or a stale observation that could not be recorded
  (\<open>recorded\<close>), ingests.
\<close>

definition ingest :: "ingest_env \<Rightarrow> commit_graph option \<Rightarrow> bool \<Rightarrow> bool \<Rightarrow> string \<Rightarrow> (string \<Rightarrow> string) \<Rightarrow> observation
    \<Rightarrow> finding list \<Rightarrow> finding list \<Rightarrow> finding list \<times> ingest_outcome" where
  "ingest e commits recorded stamped host keyHash ob seen st =
     (let url = repositoryURL host ob; scope = accumulationScope url ob in
      if scope = [] then (st, IngestError ''names neither a repository nor a cloud resource'')
      else
        let primary = (case ob_advisories ob of a # _ \<Rightarrow> a | [] \<Rightarrow> []);
            hash = keyHash (ng_integration e @ ''|'' @ ob_source ob @ ''|'' @ scope @ ''|'' @ primary)
        in case supersedingFix commits ob seen of
             Inr (Some fix) \<Rightarrow> if recorded then (st, StaleSkipped (f_name fix)) else place e stamped ob url hash seen st
           | _ \<Rightarrow> place e stamped ob url hash seen st)"

subsection \<open>The accumulation window\<close>

definition closeAccumulation :: "meta_ops \<Rightarrow> time \<Rightarrow> finding \<Rightarrow> effect list \<times> reconcile" where
  "closeAccumulation m now f =
     (if isStatusConditionTrue m (conditions (status f)) ConditionAccumulationComplete then ([], Settled)
      else case accumulateUntil (status f) of
        None \<Rightarrow> ([], Settled)
      | Some til \<Rightarrow>
          if 0 < time_sub til now then ([], LookAgain (time_sub til now))
          else ([UpdateFinding (unchanged f (Put (add_condition m
                   \<lparr>ctype = ConditionAccumulationComplete, cstatus = ''True'', creason = ''WindowElapsed'',
                    cmessage = [], cgeneration = f_generation f\<rparr> f)))], Settled))"

subsection \<open>Which generation\<close>

lemma latest_fold:
  assumes "fold (latest_step i) xs acc = Some l"
  shows "(l \<in> set xs \<and> holdsAlert l i \<or> acc = Some l) \<and>
    (\<forall>f\<in>set xs. holdsAlert f i \<longrightarrow> generationOf (f_name f) \<le> generationOf (f_name l)) \<and>
    (\<forall>a. acc = Some a \<longrightarrow> generationOf (f_name a) \<le> generationOf (f_name l))"
  using assms
proof (induction xs arbitrary: acc)
  case (Cons x xs)
  have f: "fold (latest_step i) xs (latest_step i x acc) = Some l" using Cons.prems by simp
  from Cons.IH [OF f] show ?case
    by (auto simp: latest_step_def split: if_splits option.splits)
qed simp

lemma latestWithAlert_newest:
  "latestWithAlert family i = Some l \<Longrightarrow> l \<in> set family \<and> holdsAlert l i \<and>
     (\<forall>f\<in>set family. holdsAlert f i \<longrightarrow> generationOf (f_name f) \<le> generationOf (f_name l))"
  using latest_fold [of i family None l] by (simp add: latestWithAlert_def)

definition takes :: "finding \<Rightarrow> bool" where
  "takes f \<longleftrightarrow> \<not> f_deleting f \<and> accepting f"

lemma newest_fold:
  assumes "fold newest_step xs (a, m) = (t, n)"
  shows "(\<forall>x. t = Some x \<longrightarrow> a = Some x \<or> x \<in> set xs \<and> takes x) \<and>
    (t = None \<longrightarrow> a = None \<and> (\<forall>x\<in>set xs. \<not> takes x)) \<and>
    (\<forall>x y. t = Some x \<longrightarrow> y \<in> set xs \<and> takes y \<or> a = Some y \<longrightarrow> generationOf (f_name y) \<le> generationOf (f_name x)) \<and>
    m \<le> n \<and> (\<forall>y\<in>set xs. generationOf (f_name y) \<le> n)"
  using assms
proof (induction xs arbitrary: a m)
  case (Cons x xs)
  obtain a' m' where s: "newest_step x (a, m) = (a', m')" by fastforce
  then have m': "m' = max m (generationOf (f_name x))" by (simp add: newest_step_def)
  have a': "a' = (if takes x \<and> (case a of None \<Rightarrow> True | Some u \<Rightarrow> generationOf (f_name u) < generationOf (f_name x))
      then Some x else a)" using s by (simp add: newest_step_def takes_def)
  have "fold newest_step xs (a', m') = (t, n)" using Cons.prems s by simp
  note IH = Cons.IH [OF this]
  show ?case
  proof (intro conjI)
    show "\<forall>z. t = Some z \<longrightarrow> a = Some z \<or> z \<in> set (x # xs) \<and> takes z"
      using IH a' by (auto split: if_splits)
    show "t = None \<longrightarrow> a = None \<and> (\<forall>z\<in>set (x # xs). \<not> takes z)"
      using IH a' by (auto split: if_splits option.splits)
    show "m \<le> n" "\<forall>y\<in>set (x # xs). generationOf (f_name y) \<le> n" using IH m' by auto
    show "\<forall>z y. t = Some z \<longrightarrow> y \<in> set (x # xs) \<and> takes y \<or> a = Some y \<longrightarrow>
        generationOf (f_name y) \<le> generationOf (f_name z)"
    proof (intro allI impI)
      fix z y assume z: "t = Some z" and y: "y \<in> set (x # xs) \<and> takes y \<or> a = Some y"
      have old: "y' \<in> set xs \<and> takes y' \<or> a' = Some y' \<Longrightarrow> generationOf (f_name y') \<le> generationOf (f_name z)" for y'
        using IH z by blast
      show "generationOf (f_name y) \<le> generationOf (f_name z)"
      proof (cases "y \<in> set xs \<and> takes y")
        case False
        then have "a' = Some y \<or> (\<exists>u. a' = Some u \<and> generationOf (f_name y) \<le> generationOf (f_name u))"
          using y a' by (auto split: option.splits if_splits)
        then show ?thesis using old [of y] by (auto dest: old [OF disjI2] intro: order_trans)
      qed (use old in blast)
    qed
  qed
qed simp

lemma newestAccepting_newest:
  assumes "newestAccepting items = (t, n)"
  shows "(t = None \<longleftrightarrow> (\<forall>f\<in>set items. \<not> takes f)) \<and>
    (\<forall>x. t = Some x \<longrightarrow> x \<in> set items \<and> takes x \<and>
       (\<forall>y\<in>set items. takes y \<longrightarrow> generationOf (f_name y) \<le> generationOf (f_name x))) \<and>
    (\<forall>y\<in>set items. generationOf (f_name y) \<le> n)"
  using newest_fold [of items None 0 t n] assms by (cases t) (auto simp: newestAccepting_def)

text \<open>
  An observation is set aside only when a merged fix provably supersedes it: the newest generation that
  carries its alert was remediated by a merged pull request with a recorded merge commit, the observation's
  commit is a strict ancestor of that commit, and the branch it was observed on still contains it. A
  failed lookup never sets anything aside.
\<close>

theorem stale_only_when_proven:
  assumes "supersedingFix commits ob family = Inr (Some fix)"
  shows "fix \<in> set family \<and> holdsAlert fix (alertID ob) \<and>
    (\<forall>f\<in>set family. holdsAlert f (alertID ob) \<longrightarrow> generationOf (f_name f) \<le> generationOf (f_name fix)) \<and>
    phase (status fix) = PhaseRemediated \<and>
    (\<exists>pr cg branch. pullRequest (status fix) = Some pr \<and> pr_state pr = ''merged'' \<and> mergeCommitSHA pr \<noteq> [] \<and>
       commits = Some cg \<and> branchOf (ob_ref ob) = Some branch \<and> mergeCommitSHA pr \<noteq> ob_commit ob \<and>
       cg_precedes cg (ob_commit ob) (mergeCommitSHA pr) = Inr True \<and>
       cg_contains cg branch (mergeCommitSHA pr) = Inr True)"
proof -
  obtain cg branch latest where h: "commits = Some cg" "branchOf (ob_ref ob) = Some branch"
    "latestWithAlert family (alertID ob) = Some latest"
    using assms by (auto simp: supersedingFix_def split: option.splits)
  have p: "phase (status latest) = PhaseRemediated"
    using assms h by (auto simp: supersedingFix_def split: if_splits)
  obtain pr where pr: "pullRequest (status latest) = Some pr"
    using assms h p by (auto simp: supersedingFix_def split: if_splits option.splits)
  then have "pr_state pr = ''merged'' \<and> mergeCommitSHA pr \<noteq> [] \<and> mergeCommitSHA pr \<noteq> ob_commit ob \<and>
      cg_precedes cg (ob_commit ob) (mergeCommitSHA pr) = Inr True \<and> cg_contains cg branch (mergeCommitSHA pr) = Inr True \<and>
      fix = latest"
    using assms h p by (simp add: supersedingFix_def split: if_splits sum.splits bool.splits)
  then show ?thesis using latestWithAlert_newest [OF h(3)] h p pr by auto
qed

subsection \<open>Nothing is lost\<close>

lemma lookup_name_Some: "lookup_name st n = Some f \<Longrightarrow> f \<in> set st \<and> f_name f = n"
  by (auto simp: lookup_name_def find_Some_iff)

lemma lookup_name_None: "lookup_name st n = None \<longleftrightarrow> n \<notin> f_name ` set st"
  by (auto simp: lookup_name_def find_None_iff)

lemma lookup_name_eq: "distinct (map f_name st) \<Longrightarrow> f \<in> set st \<Longrightarrow> lookup_name st (f_name f) = Some f"
  by (induction st) (auto simp: lookup_name_def image_iff)

lemma fold_alert_frame: "fold_alert ob cur = Folded g \<Longrightarrow> f_name g = f_name cur \<and> status g = status cur \<and>
    foldable (phase (status cur)) \<and> (suspend (spec cur) \<longrightarrow> g = cur)"
  by (auto simp: fold_alert_def Let_def split: if_splits)

definition recorded_in :: "observation \<Rightarrow> finding list \<Rightarrow> finding \<Rightarrow> bool" where
  "recorded_in ob st g \<longleftrightarrow> foldable (phase (status g)) \<and>
     (holdsAlert g (alertID ob) \<or>
      (\<exists>f\<in>set st. f_name f = f_name g \<and> maxAlerts \<le> length (alerts (spec f)) \<and>
         overflowAlerts (spec g) = i32 (overflowAlerts (spec f) + 1)))"

lemma fold_alert_records: "cur \<in> set st \<Longrightarrow> fold_alert ob cur = Folded g \<Longrightarrow> recorded_in ob st g"
  by (cases "maxAlerts \<le> length (alerts (spec cur))")
    (auto simp: fold_alert_def Let_def recorded_in_def holdsAlert_def split: if_splits)

definition placed :: "observation \<Rightarrow> finding list \<Rightarrow> finding list \<Rightarrow> string \<Rightarrow> bool" where
  "placed ob st st' n \<longleftrightarrow> distinct (map f_name st') \<and> (\<exists>g\<in>set st'. f_name g = n \<and> recorded_in ob st g) \<and>
     {f \<in> set st'. f_name f \<noteq> n} = {f \<in> set st. f_name f \<noteq> n} \<and>
     (\<forall>f\<in>set st. \<not> foldable (phase (status f)) \<or> suspend (spec f) \<longrightarrow> f \<in> set st')"

lemma replace_names: "map f_name (replace g st) = map f_name st"
  by (simp add: replace_def)

lemma placed_fold:
  assumes "distinct (map f_name st)" "lookup_name st n = Some cur" "fold_alert ob cur = Folded g"
  shows "placed ob st (replace g st) n"
proof -
  note c = lookup_name_Some [OF assms(2)]
  note fr = fold_alert_frame [OF assms(3)]
  have only: "f \<in> set st \<Longrightarrow> f_name f = n \<Longrightarrow> f = cur" for f
    using lookup_name_eq [OF assms(1), of f] assms(2) by simp
  have g: "g \<in> set (replace g st)" using c fr by (force simp: replace_def)
  have "\<not> foldable (phase (status f)) \<or> suspend (spec f) \<longrightarrow> f \<in> set (replace g st)" if "f \<in> set st" for f
  proof (cases "f_name f = n")
    case True
    then show ?thesis using only [OF that] fr g by auto
  next
    case False
    then show ?thesis using that c fr by (force simp: replace_def)
  qed
  moreover have "{f \<in> set (replace g st). f_name f \<noteq> n} = {f \<in> set st. f_name f \<noteq> n}"
    using c fr by (auto simp: replace_def split: if_splits)
  moreover have "recorded_in ob st g" using fold_alert_records c assms(3) by blast
  ultimately show ?thesis using g assms(1) c fr unfolding placed_def by (auto simp: replace_names)
qed

lemma created_fields:
  "f_name (created e ob url n stamped) = n \<and> foldable (phase (status (created e ob url n stamped))) \<and>
   holdsAlert (created e ob url n stamped) (alertID ob)"
  by (simp add: created_def Let_def new_finding_def init_status_def phase_then_def SetPhase_def CanTransition_def
      fresh_status_def holdsAlert_def)

lemma ingest_create_placed:
  "distinct (map f_name st) \<Longrightarrow> ingest_create e ob url hash stamped st gen = (st', n) \<Longrightarrow> placed ob st st' n"
proof (induction e ob url hash stamped st gen rule: ingest_create.induct)
  case (1 e ob url hash stamped st gen)
  show ?case
  proof (cases "lookup_name st (gen_name hash gen)")
    case None
    then have s: "st' = st @ [created e ob url n stamped]" "n = gen_name hash gen"
      using 1(3) by (auto simp: ingest_create.simps)
    then have "n \<notin> f_name ` set st" using None by (simp add: lookup_name_None)
    then show ?thesis using 1(2) s(1) created_fields [of e ob url n stamped]
      by (auto simp: placed_def recorded_in_def)
  next
    case (Some cur)
    show ?thesis
    proof (cases "fold_alert ob cur")
      case Raced
      have "ingest_create e ob url hash stamped st (gen + 1) = (st', n)"
        using 1(3) Some Raced by (subst (asm) ingest_create.simps) simp
      then show ?thesis using 1(1) [OF Some Raced 1(2)] by simp
    next
      case (Folded g)
      have "st' = replace g st" "n = gen_name hash gen"
        using 1(3) Some Folded by (subst (asm) ingest_create.simps; simp)+
      then show ?thesis using placed_fold [OF 1(2) Some Folded] by simp
    qed
  qed
qed


definition demo_ingest :: ingest_env where
  "demo_ingest = \<lparr>ng_ns = ''maul'', ng_integration = ''gh'', ng_tracking = None, ng_now = 0, ng_window = 0,
     ng_uid = (\<lambda>n. n)\<rparr>"

definition demo_observation :: observation where
  "demo_observation = \<lparr>ob_source = ''codeql'', ob_alertID = ''9'', ob_alertNumber = 0, ob_advisories = [''CVE-1''],
     ob_ruleID = [], ob_title = ''t'', ob_description = [], ob_severity = ''high'', ob_commit = ''a'', ob_ref = ''main'',
     ob_owner = ''o'', ob_repo = ''r'', ob_cloudResource = None\<rparr>"

definition demo_elder :: finding where
  "demo_elder = (let f = new_finding demo_ingest (demo_observation\<lparr>ob_alertID := ''7''\<rparr>) ''u'' ''finding-ab-1''
     in f\<lparr>spec := (spec f)\<lparr>suspend := True\<rparr>,
          status := (status f)\<lparr>phase := PhaseRemediated, pullRequest := Some \<lparr>pr_number = 1, pr_url = [], pr_state = ''merged'',
            mergedAt = None, mergeCommitSHA = ''b''\<rparr>\<rparr>\<rparr>)"


definition demo_graph :: commit_graph where
  "demo_graph = \<lparr>cg_precedes = (\<lambda>a b. Inr (a = ''a'' \<and> b = ''b'')), cg_contains = (\<lambda>_ _. Inr True)\<rparr>"

lemma stale_only_when_proven_witness:
  "holdsAlert demo_elder ''7'' \<and> phase (status demo_elder) = PhaseRemediated"
proof -
  have "supersedingFix (Some demo_graph) (demo_observation\<lparr>ob_alertID := ''7''\<rparr>) [demo_elder] = Inr (Some demo_elder)"
    by (simp add: supersedingFix_def latestWithAlert_def latest_step_def holdsAlert_def demo_elder_def demo_graph_def
        new_finding_def alertID_def demo_observation_def Let_def branchOf_def cut_prefix_def)
  from stale_only_when_proven [OF this] show ?thesis by (simp add: alertID_def demo_observation_def)
qed

end
