(* ===== verification/Actions.thy ===== *)
theory Actions
  imports Finding
begin

text \<open>
  The human actions on a finding (\<open>internal/action/action.go\<close>): \<open>ApplyWithID\<close> with its gates, the
  approval it records while a finding waits, was handed off, or is held for a credential, and
  \<open>Available\<close>, which probes \<open>Apply\<close> itself. An action writes the spec only; the lemmas give its effect
  on every branch, that doing it twice changes nothing more, and the exact phases in which the status
  page and the CLI offer each verb.
\<close>

subsection \<open>Verbs\<close>

definition VerbApprove :: string where "VerbApprove = ''approve''"
definition VerbRetry :: string where "VerbRetry = ''retry''"
definition VerbExpedite :: string where "VerbExpedite = ''expedite''"
definition VerbSuspend :: string where "VerbSuspend = ''suspend''"
definition VerbResume :: string where "VerbResume = ''resume''"

lemmas verb_defs = VerbApprove_def VerbRetry_def VerbExpedite_def VerbSuspend_def VerbResume_def

definition ActionVerbs :: "string list" where
  "ActionVerbs = [VerbApprove, VerbRetry, VerbExpedite, VerbSuspend, VerbResume]"

datatype action_error = ErrUnavailable | ErrUnknownVerb

text \<open>\<open>(changed bool, err error)\<close>, with the finding as the call leaves it.\<close>

type_synonym action_result = "finding \<times> bool \<times> action_error option"

subsection \<open>Gates\<close>

definition credentialHeld :: "meta_ops \<Rightarrow> finding \<Rightarrow> bool" where
  "credentialHeld m f \<longleftrightarrow>
     phase (status f) = PhaseQueued \<and>
     isStatusConditionTrue m (conditions (status f)) ConditionCredentialRequired"

fun expeditable :: "phase \<Rightarrow> bool" where
  "expeditable PhaseOpened = True"
| "expeditable PhaseEnhanced = True"
| "expeditable PhaseInvestigating = True"
| "expeditable PhaseAwaitingApproval = True"
| "expeditable PhaseQueued = True"
| "expeditable _ = False"

definition staleApproval :: "finding \<Rightarrow> bool" where
  "staleApproval f =
     (if phase (status f) \<noteq> PhaseHandedOff then False
      else (case spec_approval (spec f) of
              None \<Rightarrow> False
            | Some ap \<Rightarrow> (case completedAt (status f) of None \<Rightarrow> False | Some t \<Rightarrow> \<not> t < ap_at ap)))"

definition applyApprove :: "meta_ops \<Rightarrow> finding \<Rightarrow> string \<Rightarrow> int \<Rightarrow> string \<Rightarrow> time \<Rightarrow> action_result" where
  "applyApprove m f user idn note now =
     (let p = phase (status f);
          approved = f\<lparr>spec := (spec f)\<lparr>spec_approval :=
            Some \<lparr>ap_by = user, ap_byID = idn, ap_at = now, ap_note = note\<rparr>\<rparr>\<rparr>
      in if credentialHeld m f then
           (if idn < 1 then (f, False, Some ErrUnavailable)
            else if (case spec_approval (spec f) of None \<Rightarrow> False
                     | Some ap \<Rightarrow> ap_by ap = user \<and> ap_byID ap = idn)
            then (f, False, None)
            else (approved, True, None))
         else if p \<noteq> PhaseAwaitingApproval \<and> p \<noteq> PhaseHandedOff then (f, False, Some ErrUnavailable)
         else if spec_approval (spec f) \<noteq> None \<and> \<not> staleApproval f then (f, False, None)
         else (approved, True, None))"

subsection \<open>Applying an action\<close>

definition ApplyWithID :: "meta_ops \<Rightarrow> finding \<Rightarrow> string \<Rightarrow> string \<Rightarrow> int \<Rightarrow> string \<Rightarrow> time \<Rightarrow> action_result" where
  "ApplyWithID m f verb user id0 note now =
     (let idn = max id0 0;
          req = Some \<lparr>ar_by = user, ar_byID = idn, ar_at = now\<rparr>
      in if verb = VerbSuspend then
           (if suspend (spec f) then (f, False, None)
            else if Terminal (phase (status f)) then (f, False, Some ErrUnavailable)
            else (f\<lparr>spec := (spec f)\<lparr>suspend := True\<rparr>\<rparr>, True, None))
         else if verb = VerbResume then
           (if \<not> suspend (spec f) then (f, False, None)
            else (f\<lparr>spec := (spec f)\<lparr>suspend := False\<rparr>\<rparr>, True, None))
         else if verb = VerbApprove then applyApprove m f user idn note now
         else if verb = VerbRetry then
           (if RetryTarget f = PhaseNone then (f, False, Some ErrUnavailable)
            else if RetryRequested f then (f, False, None)
            else (f\<lparr>spec := (spec f)\<lparr>spec_retry := req\<rparr>\<rparr>, True, None))
         else if verb = VerbExpedite then
           (if expedite (spec f) \<noteq> None then (f, False, None)
            else if \<not> expeditable (phase (status f)) then (f, False, Some ErrUnavailable)
            else (f\<lparr>spec := (spec f)\<lparr>expedite := req\<rparr>\<rparr>, True, None))
         else (f, False, Some ErrUnknownVerb))"

definition act_Apply :: "meta_ops \<Rightarrow> finding \<Rightarrow> string \<Rightarrow> string \<Rightarrow> string \<Rightarrow> time \<Rightarrow> action_result" where
  "act_Apply m f verb user note now = ApplyWithID m f verb user 0 note now"

definition Available :: "meta_ops \<Rightarrow> finding \<Rightarrow> time \<Rightarrow> string list" where
  "Available m f now =
     filter (\<lambda>verb. case act_Apply m f verb [] [] now of (_, changed, err) \<Rightarrow> err = None \<and> changed) ActionVerbs"

subsection \<open>Effects\<close>

lemma verbs_distinct: "distinct ActionVerbs"
  by (simp add: ActionVerbs_def verb_defs)

lemmas action_defs = ApplyWithID_def applyApprove_def Let_def

lemma act_simps:
  "ApplyWithID m f VerbSuspend user idn note now =
     (if suspend (spec f) then (f, False, None)
      else if Terminal (phase (status f)) then (f, False, Some ErrUnavailable)
      else (f\<lparr>spec := (spec f)\<lparr>suspend := True\<rparr>\<rparr>, True, None))"
  "ApplyWithID m f VerbResume user idn note now =
     (if \<not> suspend (spec f) then (f, False, None)
      else (f\<lparr>spec := (spec f)\<lparr>suspend := False\<rparr>\<rparr>, True, None))"
  "ApplyWithID m f VerbApprove user idn note now = applyApprove m f user (max idn 0) note now"
  "ApplyWithID m f VerbRetry user idn note now =
     (if RetryTarget f = PhaseNone then (f, False, Some ErrUnavailable)
      else if RetryRequested f then (f, False, None)
      else (f\<lparr>spec := (spec f)\<lparr>spec_retry := Some \<lparr>ar_by = user, ar_byID = max idn 0, ar_at = now\<rparr>\<rparr>\<rparr>,
            True, None))"
  "ApplyWithID m f VerbExpedite user idn note now =
     (if expedite (spec f) \<noteq> None then (f, False, None)
      else if \<not> expeditable (phase (status f)) then (f, False, Some ErrUnavailable)
      else (f\<lparr>spec := (spec f)\<lparr>expedite := Some \<lparr>ar_by = user, ar_byID = max idn 0, ar_at = now\<rparr>\<rparr>\<rparr>,
            True, None))"
  "verb \<notin> set ActionVerbs \<Longrightarrow> ApplyWithID m f verb user idn note now = (f, False, Some ErrUnknownVerb)"
  by (simp_all add: ApplyWithID_def ActionVerbs_def verb_defs)

lemma verb_cases:
  obtains (suspend) "verb = VerbSuspend" | (resume) "verb = VerbResume" | (approve) "verb = VerbApprove"
    | (retry) "verb = VerbRetry" | (expedite) "verb = VerbExpedite" | (other) "verb \<notin> set ActionVerbs"
  by (auto simp: ActionVerbs_def)

lemma approve_cases:
  assumes "applyApprove m f user idn note now = (g, changed, err)"
  shows "(\<not> changed \<and> g = f) \<or>
    (changed \<and> err = None \<and>
     g = f\<lparr>spec := (spec f)\<lparr>spec_approval :=
       Some \<lparr>ap_by = user, ap_byID = idn, ap_at = now, ap_note = note\<rparr>\<rparr>\<rparr> \<and>
     (credentialHeld m f \<and> 1 \<le> idn \<or>
      \<not> credentialHeld m f \<and> (phase (status f) = PhaseAwaitingApproval \<or> phase (status f) = PhaseHandedOff) \<and>
        (spec_approval (spec f) = None \<or> staleApproval f)))"
proof (cases "credentialHeld m f")
  case True
  then show ?thesis using assms by (simp add: applyApprove_def Let_def split: if_splits)
next
  case False
  then show ?thesis using assms by (simp add: applyApprove_def Let_def split: if_splits)
qed

text \<open>What an action may change: the spec, and of it only the four fields the verbs are about.\<close>

lemma action_frame:
  assumes "ApplyWithID m f verb user idn note now = (g, changed, err)"
  shows "status g = status f \<and> f_uid g = f_uid f \<and> f_name g = f_name f \<and>
     repository (spec g) = repository (spec f) \<and> (\<not> changed \<longrightarrow> g = f) \<and>
     (spec_approval (spec f) \<noteq> None \<longrightarrow> spec_approval (spec g) \<noteq> None)"
proof (cases verb rule: verb_cases)
  case approve
  then show ?thesis using approve_cases [of m f user "max idn 0" "note" now g changed err] assms
    by (simp add: act_simps(3)) (elim disjE; simp)
qed (use assms in \<open>auto simp: act_simps split: if_splits\<close>)

lemma action_approval_gate:
  assumes "ApplyWithID m f verb user idn note now = (g, changed, err)"
    and "spec_approval (spec g) \<noteq> spec_approval (spec f)"
  shows "verb = VerbApprove \<and> changed \<and>
    (credentialHeld m f \<or> phase (status f) = PhaseAwaitingApproval \<or> phase (status f) = PhaseHandedOff)"
proof (cases verb rule: verb_cases)
  case approve
  then show ?thesis using approve_cases [of m f user "max idn 0" "note" now g changed err] assms
    by (simp add: act_simps(3)) blast
qed (use assms in \<open>auto simp: act_simps split: if_splits\<close>)

definition act_finding :: "phase \<Rightarrow> finding" where
  "act_finding p = \<lparr>f_name = ''f'', f_namespace = ''ns'', f_uid = ''7'', f_generation = 1, f_deleting = False,
     spec = \<lparr>integrationRef = ''gh'', trackingRef = None, source = ''ghas'', repository = None,
       cloudResource = None, alerts = [], overflowAlerts = 0, advisories = [], ruleID = [], title = ''t'', description = [], spec_severity = LevelHigh,
       suspend = False, spec_approval = None, spec_retry = None, expedite = None\<rparr>,
     status = fresh_status\<lparr>phase := p, completedAt := (if Terminal p then Some 5 else None)\<rparr>\<rparr>"

lemma RetryTarget_status: "status g = status f \<Longrightarrow> RetryTarget g = RetryTarget f"
  by (simp add: RetryTarget_def)

text \<open>
  Repeating an action changes nothing more. After an action that changed the finding, the same
  action by the same user, at any later time, with the finding's status as it was, reports no change
  and no error and leaves the finding as it is. The approval and the retry must be newer than the
  completion they act on, which is what tells a fresh request from the one already consumed.
\<close>

theorem action_idempotent:
  assumes "ApplyWithID m f verb user idn note now = (g, True, err)"
    and "\<forall>t. completedAt (status f) = Some t \<longrightarrow> t < now"
  shows "ApplyWithID m g verb user idn note' now' = (g, False, None)"
proof (cases verb rule: verb_cases)
  case approve
  let ?i = "max idn 0"
  have "applyApprove m f user ?i note now = (g, True, err)" using assms(1) approve by (simp add: act_simps(3))
  note A = approve_cases [OF this]
  then have g: "spec_approval (spec g) = Some \<lparr>ap_by = user, ap_byID = ?i, ap_at = now, ap_note = note\<rparr>"
    "status g = status f" by auto
  have "\<not> staleApproval g" using g assms(2) by (auto simp: staleApproval_def split: option.splits)
  moreover have "credentialHeld m g = credentialHeld m f" using g by (simp add: credentialHeld_def)
  ultimately have "applyApprove m g user ?i note' now' = (g, False, None)"
    using A g by (auto simp: applyApprove_def Let_def)
  then show ?thesis using approve by (simp add: act_simps(3))
next
  case retry
  then show ?thesis using assms RetryTarget_status [of g f]
    by (auto simp: act_simps RetryRequested_def RetryTarget_def split: if_splits option.splits)
qed (use assms in \<open>auto simp: act_simps split: if_splits\<close>)

lemma action_idempotent_witness:
  "ApplyWithID demo_meta (fst (ApplyWithID demo_meta (act_finding PhaseHandedOff) VerbApprove ''al'' 3 [] 6))
     VerbApprove ''al'' 3 ''again'' 9 =
   (fst (ApplyWithID demo_meta (act_finding PhaseHandedOff) VerbApprove ''al'' 3 [] 6), False, None)"
proof (rule action_idempotent)
  show "ApplyWithID demo_meta (act_finding PhaseHandedOff) VerbApprove ''al'' 3 [] 6 =
      (fst (ApplyWithID demo_meta (act_finding PhaseHandedOff) VerbApprove ''al'' 3 [] 6), True, None)"
    by (simp add: act_simps applyApprove_def act_finding_def credentialHeld_def Let_def)
qed (simp add: act_finding_def)

text \<open>
  The verbs offered are exactly the ones the documentation lists per phase. On a finding whose
  phase log is legal: approve while it awaits approval or after a hand-off with no fresh approval, but
  not without a GitHub identity while it is held for a credential; retry on every failed finding
  without a retry pending (a failed finding always has a state to recover to); expedite up to the
  queue, once; suspend unless it is suspended or terminal; resume when it is suspended.
\<close>

theorem Available_exact:
  assumes "finding_log_ok f"
  shows "set (Available m f now) =
    (if spec_approval (spec f) = None \<and> phase (status f) \<in> {PhaseAwaitingApproval, PhaseHandedOff}
        \<or> staleApproval f then {VerbApprove} else {}) \<union>
    (if phase (status f) = PhaseFailed \<and> \<not> RetryRequested f then {VerbRetry} else {}) \<union>
    (if expedite (spec f) = None \<and> expeditable (phase (status f)) then {VerbExpedite} else {}) \<union>
    (if \<not> suspend (spec f) \<and> \<not> Terminal (phase (status f)) then {VerbSuspend} else {}) \<union>
    (if suspend (spec f) then {VerbResume} else {})"
proof -
  have R: "RetryTarget f = PhaseNone \<longleftrightarrow> phase (status f) \<noteq> PhaseFailed"
    using failed_log_prior [OF assms] by (auto simp: RetryTarget_def)
  have H: "credentialHeld m f \<Longrightarrow> phase (status f) = PhaseQueued" by (simp add: credentialHeld_def)
  have S: "staleApproval f \<Longrightarrow> phase (status f) = PhaseHandedOff" by (simp add: staleApproval_def split: if_splits)
  have approve: "(case applyApprove m f [] 0 [] now of (_, changed, err) \<Rightarrow> err = None \<and> changed) \<longleftrightarrow>
      spec_approval (spec f) = None \<and> phase (status f) \<in> {PhaseAwaitingApproval, PhaseHandedOff} \<or> staleApproval f"
    using H S by (cases "credentialHeld m f") (auto simp: applyApprove_def Let_def)
  have rest:
    "(case ApplyWithID m f VerbApprove [] 0 [] now of (_, changed, err) \<Rightarrow> err = None \<and> changed) \<longleftrightarrow>
       spec_approval (spec f) = None \<and> phase (status f) \<in> {PhaseAwaitingApproval, PhaseHandedOff} \<or> staleApproval f"
    "(case ApplyWithID m f VerbRetry [] 0 [] now of (_, changed, err) \<Rightarrow> err = None \<and> changed) \<longleftrightarrow>
       phase (status f) = PhaseFailed \<and> \<not> RetryRequested f"
    "(case ApplyWithID m f VerbExpedite [] 0 [] now of (_, changed, err) \<Rightarrow> err = None \<and> changed) \<longleftrightarrow>
       expedite (spec f) = None \<and> expeditable (phase (status f))"
    "(case ApplyWithID m f VerbSuspend [] 0 [] now of (_, changed, err) \<Rightarrow> err = None \<and> changed) \<longleftrightarrow>
       \<not> suspend (spec f) \<and> \<not> Terminal (phase (status f))"
    "(case ApplyWithID m f VerbResume [] 0 [] now of (_, changed, err) \<Rightarrow> err = None \<and> changed) \<longleftrightarrow>
       suspend (spec f)"
    using approve R by (simp_all add: act_simps)
  show ?thesis
    unfolding Available_def act_Apply_def ActionVerbs_def filter.simps rest by auto
qed

lemma Available_exact_witness:
  "set (Available demo_meta ((act_finding PhaseNone)\<lparr>status := fresh_status\<rparr>) 9) = {VerbSuspend}"
  using Available_exact [of "(act_finding PhaseNone)\<lparr>status := fresh_status\<rparr>" demo_meta 9]
    finding_log_ok_fresh [of "(act_finding PhaseNone)\<lparr>status := fresh_status\<rparr>"]
  by (simp add: act_finding_def staleApproval_def fresh_status_def)

end
