(* ===== verification/Moves.thy ===== *)
theory Moves
  imports Remediate Signals Ingest Actions
begin

text \<open>
  Which edges of the phase table each handler can take a finding over. \<open>moves E f g\<close>: \<open>g\<close> is \<open>f\<close> with any
  other field of its status changed and its phase either kept or moved by \<open>SetPhase\<close> over an edge of
  \<open>E\<close>. \<open>writes E w\<close> says it of a call, whatever finding is stored when the call runs, and \<open>calls_in E\<close> of all
  calls of a reconcile. The history theorems of \<open>Lifecycle\<close> rest on these sets alone.
\<close>

definition same_log :: "finding \<Rightarrow> finding \<Rightarrow> bool" where
  "same_log f g \<longleftrightarrow> phase (status g) = phase (status f) \<and> phaseTimes (status g) = phaseTimes (status f) \<and>
     completedAt (status g) = completedAt (status f)"

definition same_object :: "finding \<Rightarrow> finding \<Rightarrow> bool" where
  "same_object f g \<longleftrightarrow> f_uid g = f_uid f \<and> f_name g = f_name f \<and>
     (spec_approval (spec f) \<noteq> None \<longrightarrow> spec_approval (spec g) \<noteq> None)"

definition moves :: "(phase \<times> phase) set \<Rightarrow> finding \<Rightarrow> finding \<Rightarrow> bool" where
  "moves E f g \<longleftrightarrow> same_object f g \<and>
     (same_log f g \<or>
      (\<exists>h now. SetPhase f (phase (status g)) now = Inr h \<and> same_log h g \<and> (phase (status f), phase (status g)) \<in> E))"

definition quiet :: "(finding \<Rightarrow> finding) \<Rightarrow> bool" where
  "quiet u \<longleftrightarrow> (\<forall>f. same_log f (u f) \<and> same_object f (u f))"

definition lands :: "(phase \<times> phase) set \<Rightarrow> finding \<Rightarrow> finding change \<Rightarrow> bool" where
  "lands E f c \<longleftrightarrow> moves E f (case c of Put g \<Rightarrow> g | _ \<Rightarrow> f)"

definition writes :: "(phase \<times> phase) set \<Rightarrow> (finding \<Rightarrow> finding change) \<Rightarrow> bool" where
  "writes E w \<longleftrightarrow> (\<forall>f. lands E f (w f))"

definition calls_in :: "(phase \<times> phase) set \<Rightarrow> effect list \<Rightarrow> bool" where
  "calls_in E es \<longleftrightarrow> (\<forall>w. UpdateFinding w \<in> set es \<longrightarrow> writes E w)"

lemma moves_refl [simp]: "moves E f f"
  by (simp add: moves_def same_log_def same_object_def)

lemma moves_mono: "moves E f g \<Longrightarrow> E \<subseteq> E' \<Longrightarrow> moves E' f g"
  by (auto simp: moves_def)

lemma writes_mono: "writes E w \<Longrightarrow> E \<subseteq> E' \<Longrightarrow> writes E' w"
  by (auto simp: writes_def lands_def intro: moves_mono split: change.splits)

lemma calls_in_mono: "calls_in E es \<Longrightarrow> E \<subseteq> E' \<Longrightarrow> calls_in E' es"
  by (auto simp: calls_in_def intro: writes_mono)

lemma calls_in_simps [simp]:
  "calls_in E []" "calls_in E (UpdateFinding w # es) \<longleftrightarrow> writes E w \<and> calls_in E es"
  "calls_in E (CreateRepository # es) \<longleftrightarrow> calls_in E es"
  "calls_in E (CreateInvestigation r # es) \<longleftrightarrow> calls_in E es"
  "calls_in E (UpdateInvestigation n v # es) \<longleftrightarrow> calls_in E es"
  "calls_in E (CreateRemediation r' # es) \<longleftrightarrow> calls_in E es"
  "calls_in E (UpdateRemediation b n v' # es) \<longleftrightarrow> calls_in E es"
  "calls_in E (es @ es') \<longleftrightarrow> calls_in E es \<and> calls_in E es'"
  by (auto simp: calls_in_def)

lemma SetPhase_object: "SetPhase f to now = Inr g \<Longrightarrow> f_uid g = f_uid f \<and> f_name g = f_name f \<and> spec g = spec f"
  by (auto simp: SetPhase_Inr)

lemma SetPhase_same_log:
  "same_log f g \<Longrightarrow> SetPhase g to now = Inr h \<Longrightarrow> \<exists>k. SetPhase f to now = Inr k \<and> same_log k h"
  by (auto simp: SetPhase_Inr same_log_def)

lemma writes_moves: "writes E w \<Longrightarrow> moves E f (stored w f)"
  by (simp add: writes_def lands_def)

lemma lands_simps [simp]:
  "lands E f Skip" "lands E f (Fail e)"
  "lands E f (if b then x else y) \<longleftrightarrow> (if b then lands E f x else lands E f y)"
  by (simp_all add: lands_def)

lemma lands_Put: "same_log f g \<Longrightarrow> same_object f g \<Longrightarrow> lands E f (Put g)"
  by (simp add: lands_def moves_def)

lemma lands_phase_then:
  assumes "quiet upd" "same_log f g" "same_object f g" "(phase (status f), to) \<in> E"
  shows "lands E f (phase_then g to now upd)"
proof (cases "SetPhase g to now")
  case (Inr h)
  obtain k where k: "SetPhase f to now = Inr k" "same_log k h" using SetPhase_same_log [OF assms(2) Inr] by blast
  have u: "same_log h (upd h)" "same_object h (upd h)" using assms(1) by (simp_all add: quiet_def)
  have p: "phase (status (upd h)) = to" using u SetPhase_phase [OF Inr] by (simp add: same_log_def)
  have "same_object f (upd h)" using u(2) assms(3) SetPhase_object [OF Inr] by (simp add: same_object_def)
  moreover have "same_log k (upd h)" using k(2) u(1) by (simp add: same_log_def)
  ultimately have "moves E f (upd h)" using k(1) p assms(4) unfolding moves_def by auto
  then show ?thesis using Inr by (simp add: phase_then_def lands_def)
qed (simp add: phase_then_def)

lemma same_log_trans: "same_log f g \<Longrightarrow> same_log g h \<Longrightarrow> same_log f h"
  by (simp add: same_log_def)

lemma same_object_trans: "same_object f g \<Longrightarrow> same_object g h \<Longrightarrow> same_object f h"
  by (simp add: same_object_def)

lemmas same_defs = same_log_def same_object_def quiet_def

lemma quiet_updates [simp]:
  "quiet (\<lambda>f. f)" "quiet (add_condition m c)"
  "quiet (\<lambda>f. f\<lparr>status := (status f)\<lparr>lastFailureReason := s\<rparr>\<rparr>)"
  "quiet (\<lambda>f. f\<lparr>status := (status f)\<lparr>activeRun := a\<rparr>\<rparr>)"
  "quiet (\<lambda>f. f\<lparr>status := (status f)\<lparr>activeRun := a, lastFailureReason := s\<rparr>\<rparr>)"
  by (simp_all add: same_defs add_condition_def)

lemmas lands_rules = lands_Put lands_phase_then

subsection \<open>The calls\<close>

lemma writes_park: "writes {(PhaseEnhanced, PhaseHandedOff)} (park_change e r m h)"
  by (auto simp: writes_def park_change_def Let_def intro!: lands_rules) (simp_all add: same_defs add_condition_def)

lemma writes_retry: "writes {(PhaseFailed, to)} (retry_change m now to)"
  by (auto simp: writes_def retry_change_def intro!: lands_rules) (simp_all add: same_defs)

lemma writes_opened: "writes {(PhaseEnhanced, PhaseInvestigating)} (opened_change e a n frg)"
  by (auto simp: writes_def opened_change_def intro!: lands_rules) (simp_all add: same_defs add_condition_def)

lemma writes_inv_release: "writes {(PhaseInvestigating, to)} (inv_release e to r)"
  by (auto simp: writes_def inv_release_def intro!: lands_rules) (simp_all add: same_defs)

lemma writes_inv_verdict: "writes ({PhaseInvestigating} \<times> UNIV) (inv_verdict e r rep routed)"
proof -
  obtain to prio holds where routed: "routed = (to, prio, holds)" by (cases routed)
  have "lands ({PhaseInvestigating} \<times> UNIV) f (inv_verdict e r rep (to, prio, holds) f)" for f
    unfolding inv_verdict_def Let_def split_conv
    by (simp only: lands_simps split: if_split)
      (auto intro!: lands_rules simp: same_defs add_condition_def)
  then show ?thesis by (simp add: writes_def routed)
qed

lemma writes_admit: "writes {(p, PhaseQueued)} (admit_change e p)"
  by (auto simp: writes_def admit_change_def intro!: lands_rules) (simp_all add: same_defs)

lemma writes_hold: "writes {} (hold_change e v)"
  by (auto simp: writes_def hold_change_def Let_def intro!: lands_rules) (simp_all add: same_defs add_condition_def)

lemma writes_count: "writes {} (count_change a)"
  by (auto simp: writes_def count_change_def intro!: lands_rules) (simp_all add: same_defs)

lemma writes_started: "writes {(PhaseQueued, PhaseRemediating)} (rem_started e n)"
  by (auto simp: writes_def rem_started_def intro!: lands_rules) (simp_all add: same_defs)

lemma writes_finish: "writes {(PhaseRemediating, to)} (finishFinding e r rep to reason)"
  by (auto simp: writes_def finishFinding_def intro!: lands_rules) (simp_all add: same_defs)

lemma writes_succeeded: "writes {(PhaseRemediating, PhaseInReview)} (rem_succeeded e r rep b n url)"
  by (auto simp: writes_def rem_succeeded_def Let_def intro!: lands_rules) (simp_all add: same_defs)

abbreviation review_edges :: "(phase \<times> phase) set" where
  "review_edges \<equiv> {(PhaseInReview, PhaseRemediated), (PhaseInReview, PhaseFailed)}"

lemma lands_settle: "phase (status f) = PhaseInReview \<Longrightarrow> lands review_edges f (settle m now c f)"
  by (auto simp: settle_def Let_def intro!: lands_phase_then) (simp_all add: same_defs drop_pending_def)

lemma writes_pull_request: "writes review_edges (pull_request_change m t now c repo headRepo number)"
  by (auto simp: writes_def pull_request_change_def intro!: lands_settle lands_Put)
    (simp_all add: same_defs pendClose_def)

lemma writes_issue: "writes (UNIV \<times> {PhaseHandedOff}) (issue_change m now action)"
proof -
  have t: "same_log f (set_tracking st f)" "same_object f (set_tracking st f)" for st f
    by (simp_all add: same_defs set_tracking_def)
  have p: "same_log f (pendClose m r g (set_tracking st f))" "same_object f (pendClose m r g (set_tracking st f))" for r g st f
    by (simp_all add: same_defs set_tracking_def pendClose_def)
  have "lands (UNIV \<times> {PhaseHandedOff}) f (issue_change m now action f)" for f
    unfolding issue_change_def Let_def
    by (simp only: lands_simps lands_Put [OF t] lands_Put [OF p] lands_phase_then [OF quiet_updates(1) t] UNIV_I
        mem_Sigma_iff singletonI) simp
  then show ?thesis by (simp add: writes_def)
qed

lemma writes_pending: "writes (insert (PhaseInReview, PhaseHandedOff) review_edges) (settlePendingClose m now pr st)"
proof -
  have "lands (insert (PhaseInReview, PhaseHandedOff) review_edges) f (settlePendingClose m now pr st f)" for f
  proof (cases "\<exists>p. findStatusCondition m (conditions (status f)) ConditionReviewClosePending = Some p \<and>
      phase (status f) = PhaseInReview \<and> cstatus p = ''True''")
    case True
    then obtain p where p: "phase (status f) = PhaseInReview"
      "findStatusCondition m (conditions (status f)) ConditionReviewClosePending = Some p" "cstatus p = ''True''" by blast
    show ?thesis
    proof (rule settlePendingClose_cases [OF p, of pr now st])
      fix c assume "settlePendingClose m now pr st f = settle m now c f"
      then show ?thesis using lands_settle [OF p(1), of m now c] by (auto simp: lands_def intro: moves_mono)
    next
      fix cur1 assume "cur1 = (if st \<noteq> [] then set_tracking st f else f)"
        and eq: "settlePendingClose m now pr st f =
          (if creason p = ReasonTrackingIssueClosed \<and>
            (case tracking (status cur1) of None \<Rightarrow> False | Some tr \<Rightarrow> tr_state tr = ''closed'')
           then phase_then (drop_pending m cur1) PhaseHandedOff now (\<lambda>f. f) else Put (drop_pending m cur1))"
      then have q: "same_log f (drop_pending m cur1)" "same_object f (drop_pending m cur1)"
        by (simp_all add: same_defs set_tracking_def drop_pending_def)
      show ?thesis unfolding eq lands_simps
        using q p(1) by (auto intro!: lands_rules)
    qed
  next
    case False
    then have "settlePendingClose m now pr st f = Skip" by (auto simp: settlePendingClose_def split: option.splits)
    then show ?thesis by simp
  qed
  then show ?thesis by (simp add: writes_def)
qed

lemma writes_unchanged: "lands E f c \<Longrightarrow> writes E (unchanged f c)"
  by (simp add: writes_def unchanged_def)

lemma lands_moves: "moves E f g \<Longrightarrow> lands E f (Put g)"
  by (simp add: lands_def)

lemmas writes_calls = writes_park writes_retry writes_opened writes_inv_release writes_inv_verdict writes_admit
  writes_hold writes_count writes_started writes_finish writes_succeeded writes_pull_request writes_issue writes_pending

subsection \<open>The reconciles\<close>

abbreviation gate_edges :: "(phase \<times> phase) set" where
  "gate_edges \<equiv> {(PhaseFailed, PhaseEnhanced), (PhaseEnhanced, PhaseHandedOff), (PhaseEnhanced, PhaseInvestigating)}"

abbreviation spawn_edges :: "bool \<Rightarrow> (phase \<times> phase) set" where
  "spawn_edges approved \<equiv> insert (PhaseFailed, PhaseQueued)
     (if approved then {(PhaseAwaitingApproval, PhaseQueued), (PhaseHandedOff, PhaseQueued)} else {})"

abbreviation investigate_edges :: "(phase \<times> phase) set" where
  "investigate_edges \<equiv> {PhaseInvestigating} \<times> UNIV"

abbreviation remediate_edges :: "(phase \<times> phase) set" where
  "remediate_edges \<equiv> {PhaseRemediating} \<times> UNIV"

lemma gate_calls: "calls_in gate_edges (fst (gate_reconcile e seen))"
proof -
  have w: "writes gate_edges (park_change e r m h)" "writes gate_edges (retry_change (ge_meta e) (ge_now e) PhaseEnhanced)"
    "writes gate_edges (opened_change e a n frg)" for r m h a n frg
    by (rule writes_mono [OF writes_park] writes_mono [OF writes_retry] writes_mono [OF writes_opened]; simp)+
  have "calls_in gate_edges (snd (ensureRepository e seen))"
    by (simp add: ensureRepository_def w split: option.split)
  then show ?thesis
    by (auto simp: gate_reconcile_def Let_def openInvestigation_def w split: option.split forge_answer.split prod.split bool.split)
qed

lemma hold_calls: "holdForCredential e f att h = Inl (a, b, es) \<Longrightarrow> calls_in {} es"
  by (auto simp: holdForCredential_def Let_def writes_hold split: sum.splits if_splits option.splits prod.splits)

lemma spawner_calls:
  "calls_in (spawn_edges (spec_approval (spec (c_fnd seen)) \<noteq> None)) (fst (spawner_reconcile e seen))"
proof -
  let ?E = "spawn_edges (spec_approval (spec (c_fnd seen)) \<noteq> None)"
  have spawn: "calls_in ?E (fst (spawn e seen))"
    by (auto simp: spawn_def Let_def split: option.split prod.split sum.split bool.split
        intro: writes_mono [OF writes_count] calls_in_mono [OF hold_calls])
  show ?thesis
  proof (cases "phase (status (c_fnd seen))")
    case PhaseFailed
    have "writes ?E (retry_change (se_meta e) (se_now e) PhaseQueued)" by (rule writes_mono [OF writes_retry]) simp
    then show ?thesis using PhaseFailed by (simp add: spawner_reconcile_def Let_def)
  next
    case PhaseAwaitingApproval
    have "spec_approval (spec (c_fnd seen)) \<noteq> None \<Longrightarrow> writes ?E (admit_change e PhaseAwaitingApproval)"
      by (rule writes_mono [OF writes_admit]) simp
    then show ?thesis using PhaseAwaitingApproval by (simp add: spawner_reconcile_def Let_def)
  next
    case PhaseHandedOff
    have "revivable (c_fnd seen) \<Longrightarrow> spec_approval (spec (c_fnd seen)) \<noteq> None"
      by (auto simp: revivable_def split: option.splits)
    moreover have "spec_approval (spec (c_fnd seen)) \<noteq> None \<Longrightarrow> writes ?E (admit_change e PhaseHandedOff)"
      by (rule writes_mono [OF writes_admit]) simp
    ultimately show ?thesis using PhaseHandedOff by (simp add: spawner_reconcile_def Let_def)
  qed (use spawn in \<open>simp_all add: spawner_reconcile_def Let_def\<close>)
qed

lemma inv_calls: "calls_in investigate_edges (fst (inv_run_reconcile e ans create siblings seen r))"
proof -
  have w: "writes investigate_edges (inv_release e to reason)" for to reason by (rule writes_mono [OF writes_inv_release]) auto
  have fail: "calls_in investigate_edges (inv_fail e siblings r outcome detail reported t)" for outcome detail reported t
    by (simp add: inv_fail_def w)
  have app: "calls_in investigate_edges (inv_apply e siblings f r events t)" for f events t
    by (auto simp: inv_apply_def fail writes_inv_verdict split: prod.split option.split)
  have "calls_in investigate_edges (fst (inv_collect e ans siblings f r))" for f
    by (auto simp: inv_collect_def fail app w split: job_answer.split job_result.split prod.split)
  moreover have "calls_in investigate_edges (fst (inv_launch e create siblings rp f r))" for rp f
    by (auto simp: inv_launch_def fail split: option.split sum.split)
  ultimately show ?thesis by (auto simp: inv_run_reconcile_def split: option.split)
qed

lemma rem_calls: "calls_in remediate_edges (fst (rem_run_reconcile e w ans create siblings seen r))"
proof -
  have f: "writes remediate_edges (finishFinding e r rep to reason)" for rep to reason
    by (rule writes_mono [OF writes_finish]) auto
  have s: "writes remediate_edges (rem_succeeded e r rep b n url)" for rep b n url
    by (rule writes_mono [OF writes_succeeded]) auto
  have fail: "calls_in remediate_edges (rem_fail e siblings r outcome detail reported t)" for outcome detail reported t
    by (simp add: rem_fail_def Let_def f)
  have succeed: "calls_in remediate_edges (fst (rem_succeed e w siblings seen r rep t))" for rep t
    by (auto simp: rem_succeed_def Let_def fail s split: option.split sum.split prod.split)
  have app: "calls_in remediate_edges (fst (rem_apply e w siblings seen r events t))" for events t
    by (auto simp: rem_apply_def fail succeed handOff_def f split: prod.split option.split)
  have "calls_in remediate_edges (fst (rem_collect e w ans siblings seen r))"
    by (auto simp: rem_collect_def fail app sandboxRefused_def Let_def f split: job_answer.split job_result.split prod.split)
  moreover have "calls_in remediate_edges (fst (rem_create e create siblings r sp))" for sp
    by (auto simp: rem_create_def fail split: launch_answer.split)
  then have "calls_in remediate_edges (fst (rem_launch e create siblings seen r))"
    by (auto simp: rem_launch_def Let_def fail holdForImage_def f split: option.split prod.split)
  ultimately show ?thesis by (auto simp: rem_run_reconcile_def split: option.split)
qed

lemma grant_calls: "calls_in {(PhaseQueued, PhaseRemediating)} (grant_effects e n)"
  by (simp add: grant_effects_def writes_started)

lemma enhance_calls: "calls_in {(PhaseOpened, PhaseEnhanced)} (fst (enhance_reconcile e as seen))"
proof -
  let ?f = "c_fnd seen"
  have same: "same_log ?f (with_repository rp ?f)" "same_object ?f (with_repository rp ?f)" for rp
    by (simp_all add: with_repository_def same_defs)
  have en: "phase (status f') = PhaseOpened \<Longrightarrow> lands {(PhaseOpened, PhaseEnhanced)} f' (enhanced_change m now out f')" for f' m now out
    unfolding enhanced_change_def by (rule lands_phase_then) (simp_all add: same_defs add_condition_def)
  have ph: "phase (status (with_repository rp ?f)) = phase (status ?f)" for rp by (simp add: with_repository_def)
  have cond: "lands {(PhaseOpened, PhaseEnhanced)} ?f (Put (add_condition m c ?f))" for m c
    by (rule lands_Put) (simp_all add: same_defs add_condition_def)
  show ?thesis
  proof (cases "f_deleting ?f \<or> suspend (spec ?f) \<or> phase (status ?f) \<noteq> PhaseOpened")
    case False
    then show ?thesis using ph
      by (auto simp: enhance_reconcile_def Let_def intro!: writes_unchanged en cond lands_Put same)
  qed (auto simp: enhance_reconcile_def Let_def)
qed

lemma window_calls: "calls_in {} (fst (closeAccumulation m now f))"
proof -
  have "lands {} f (Put (add_condition m c f))" for c
    by (rule lands_Put) (simp_all add: same_defs add_condition_def)
  then show ?thesis by (auto simp: closeAccumulation_def intro!: writes_unchanged split: option.split)
qed

lemma action_moves: "ApplyWithID m f verb user idn note now = (g, changed, err) \<Longrightarrow> moves {} f g"
  using action_frame [of m f verb user idn "note" now g changed err] by (auto simp: moves_def same_defs)

lemma fold_moves: "fold_alert ob f = Folded g \<Longrightarrow> moves {} f g"
  by (auto simp: fold_alert_def Let_def moves_def same_defs split: if_splits)

end
