(* ===== verification/Lifecycle.thy ===== *)
theory Lifecycle
  imports Moves
begin

text \<open>
  All handlers together: the histories of one finding's objects. A history is the list of cluster states,
  newest first. Every step lets one handler run: it reads each object as it was at some earlier point of the
  history (an informer cache may lag, and each kind lags on its own), and its calls act on the stored
  objects, any number of them before a crash or a refused call. The environments of the handlers (clock,
  configuration, answers of GitHub and of the Job client) may change from step to step. With \<open>closes\<close> the
  tracking issue may be closed or reopened; with \<open>fresh\<close> the caches of the runs do not lag.
\<close>

definition sees :: "bool \<Rightarrow> cluster list \<Rightarrow> cluster \<Rightarrow> bool" where
  "sees fresh h seen \<longleftrightarrow> c_fnd seen \<in> c_fnd ` set h \<and> c_repo seen \<in> c_repo ` set h \<and>
     (\<forall>n. c_invs seen n \<in> (\<lambda>c. c_invs c n) ` set h) \<and> (\<forall>n. c_rems seen n \<in> (\<lambda>c. c_rems c n) ` set h) \<and>
     (fresh \<longrightarrow> c_invs seen = c_invs (hd h) \<and> c_rems seen = c_rems (hd h))"

inductive step :: "bool \<Rightarrow> bool \<Rightarrow> cluster list \<Rightarrow> cluster \<Rightarrow> bool" for closes fresh where
  enhance: "sees fresh h seen \<Longrightarrow> step closes fresh h (run_effects n (fst (enhance_reconcile ee as seen)) (hd h))"
| window: "sees fresh h seen \<Longrightarrow> step closes fresh h (run_effects n (fst (closeAccumulation m now (c_fnd seen))) (hd h))"
| gate: "sees fresh h seen \<Longrightarrow> step closes fresh h (run_effects n (fst (gate_reconcile ge seen)) (hd h))"
| spawner: "sees fresh h seen \<Longrightarrow> step closes fresh h (run_effects n (fst (spawner_reconcile se seen)) (hd h))"
| investigate: "sees fresh h seen \<Longrightarrow> c_invs seen (iv_name r) = Some r \<Longrightarrow>
    step closes fresh h (run_effects n (fst (inv_run_reconcile ie ans create siblings seen r)) (hd h))"
| remediate: "sees fresh h seen \<Longrightarrow> c_rems seen (rm_name r') = Some r' \<Longrightarrow>
    step closes fresh h (run_effects n (fst (rem_run_reconcile re w ans' create' siblings' seen r')) (hd h))"
| grant_investigation: "step closes fresh h (run_effects n [UpdateInvestigation name inv_grant] (hd h))"
| grant_remediation: "step closes fresh h (run_effects n (grant_effects re name) (hd h))"
| mark_investigation:
    "step closes fresh h (run_effects n [UpdateInvestigation name (\<lambda>r. Put (fst (inv_mark_paused ie r)))] (hd h))"
| mark_remediation:
    "step closes fresh h (run_effects n [UpdateRemediation False name (\<lambda>r. Put (fst (rem_mark_paused re r)))] (hd h))"
| issue: "closes \<Longrightarrow> step closes fresh h (run_effects n [UpdateFinding (issue_change m now action)] (hd h))"
| pull_request: "step closes fresh h (run_effects n [UpdateFinding (pull_request_change m t now c repo headRepo number)] (hd h))"
| review: "step closes fresh h (run_effects n [UpdateFinding (settlePendingClose m now pr st)] (hd h))"
| act: "ApplyWithID m (c_fnd (hd h)) verb user idn msg now = (g, changed, err) \<Longrightarrow>
    step closes fresh h ((hd h)\<lparr>c_fnd := g\<rparr>)"
| fold: "fold_alert ob (c_fnd (hd h)) = Folded g \<Longrightarrow> step closes fresh h ((hd h)\<lparr>c_fnd := g\<rparr>)"
| repository: "step closes fresh h ((hd h)\<lparr>c_repo := rp\<rparr>)"

inductive life :: "(cluster \<Rightarrow> bool) \<Rightarrow> bool \<Rightarrow> bool \<Rightarrow> cluster list \<Rightarrow> bool" for I closes fresh where
  start: "I c \<Longrightarrow> life I closes fresh [c]"
| advance: "life I closes fresh h \<Longrightarrow> step closes fresh h c \<Longrightarrow> life I closes fresh (c # h)"

definition new_cluster :: "bool \<Rightarrow> cluster \<Rightarrow> bool" where
  "new_cluster stamped c \<longleftrightarrow> (\<exists>e ob url name.
     c = \<lparr>c_fnd = created e ob url name stamped, c_invs = (\<lambda>_. None), c_rems = (\<lambda>_. None), c_repo = None\<rparr>)"

subsection \<open>What a step does to the finding\<close>

definition approved_in :: "cluster list \<Rightarrow> bool" where
  "approved_in h \<longleftrightarrow> (\<exists>c\<in>set h. spec_approval (spec (c_fnd c)) \<noteq> None)"

definition edges :: "bool \<Rightarrow> bool \<Rightarrow> (phase \<times> phase) set" where
  "edges closes approved = {(PhaseOpened, PhaseEnhanced)} \<union> gate_edges \<union> spawn_edges approved \<union> investigate_edges \<union>
     remediate_edges \<union> {(PhaseQueued, PhaseRemediating)} \<union> insert (PhaseInReview, PhaseHandedOff) review_edges \<union>
     (if closes then UNIV \<times> {PhaseHandedOff} else {})"

lemma calls_finding:
  assumes "calls_in E es" "P (c_fnd c)" "\<And>f g. moves E f g \<Longrightarrow> P f \<Longrightarrow> P g"
  shows "P (c_fnd (run_effects n es c))"
proof (rule run_effects_finding [where P = P, OF _ assms(2)])
  fix w f assume "w \<in> finding_calls es" and f: "P f"
  then have "writes E w" using assms(1) by (simp add: finding_calls_def calls_in_def)
  then show "P (stored w f)" using assms(3) [OF writes_moves f] by blast
qed

lemma step_finding:
  assumes "step closes fresh h c" "h \<noteq> []" "P (c_fnd (hd h))"
    and P: "\<And>f g. moves (edges closes (approved_in h)) f g \<Longrightarrow> P f \<Longrightarrow> P g"
  shows "P (c_fnd c)"
proof -
  have sub: "P (c_fnd (run_effects n es (hd h)))" if "calls_in E es" "E \<subseteq> edges closes (approved_in h)" for n es E
    using calls_in_mono [OF that] assms(3) P by (rule calls_finding)
  have one: "P g" if "moves {} (c_fnd (hd h)) g" for g
    using P [OF moves_mono [OF that]] assms(3) by simp
  have ap: "spec_approval (spec (c_fnd seen)) \<noteq> None \<longrightarrow> approved_in h" if "sees fresh h seen" for seen
  proof -
    have "c_fnd seen \<in> c_fnd ` set h" using that by (simp add: sees_def)
    then show ?thesis unfolding approved_in_def by (metis imageE)
  qed
  from assms(1) show ?thesis
  proof cases
    case (spawner seen n se)
    show ?thesis unfolding spawner by (rule sub [OF spawner_calls]) (use ap [OF spawner(2)] in \<open>auto simp: edges_def\<close>)
  next
    case (issue n m now action)
    have "calls_in (UNIV \<times> {PhaseHandedOff}) [UpdateFinding (issue_change m now action)]" by (simp add: writes_issue)
    then show ?thesis unfolding issue(1) by (rule sub) (use issue in \<open>auto simp: edges_def\<close>)
  next
    case (act m verb user idn msg now g changed err)
    then show ?thesis using one [OF action_moves] by simp
  next
    case (fold ob g)
    then show ?thesis using one [OF fold_moves] by simp
  next
    case (repository rp)
    then show ?thesis using assms(3) by simp
  next
    case (pull_request n m t now c repo headRepo number)
    have "calls_in review_edges [UpdateFinding (pull_request_change m t now c repo headRepo number)]"
      by (simp add: writes_pull_request)
    then show ?thesis unfolding pull_request by (rule sub) (auto simp: edges_def)
  next
    case (review n m now pr st)
    have "calls_in (insert (PhaseInReview, PhaseHandedOff) review_edges) [UpdateFinding (settlePendingClose m now pr st)]"
      by (simp add: writes_pending)
    then show ?thesis unfolding review by (rule sub) (auto simp: edges_def)
  next
    case enhance
    show ?thesis unfolding enhance by (rule sub [OF enhance_calls]) (auto simp: edges_def)
  next
    case window
    show ?thesis unfolding window by (rule sub [OF window_calls]) simp
  next
    case gate
    show ?thesis unfolding gate by (rule sub [OF gate_calls]) (auto simp: edges_def)
  next
    case investigate
    show ?thesis unfolding investigate by (rule sub [OF inv_calls]) (auto simp: edges_def)
  next
    case remediate
    show ?thesis unfolding remediate by (rule sub [OF rem_calls]) (auto simp: edges_def)
  next
    case grant_remediation
    show ?thesis unfolding grant_remediation by (rule sub [OF grant_calls]) (auto simp: edges_def)
  next
    case grant_investigation
    show ?thesis unfolding grant_investigation by (rule sub [of "{}"]) auto
  next
    case mark_investigation
    show ?thesis unfolding mark_investigation by (rule sub [of "{}"]) auto
  next
    case mark_remediation
    show ?thesis unfolding mark_remediation by (rule sub [of "{}"]) auto
  qed
qed

lemma life_nonempty: "life I closes fresh h \<Longrightarrow> h \<noteq> []"
  by (induction rule: life.induct) simp_all

lemma life_finding:
  assumes "life I closes fresh h" "\<And>c. I c \<Longrightarrow> P (c_fnd c)"
    and "\<And>f g b. moves (edges closes b) f g \<Longrightarrow> P f \<Longrightarrow> P g"
  shows "P (c_fnd (hd h))"
  using assms(1)
proof (induction rule: life.induct)
  case (advance h c)
  have "h \<noteq> []" using advance(1) by (rule life_nonempty)
  then show ?case using step_finding [where P = P, OF advance(2) _ advance(3)] assms(3) by simp
qed (simp add: assms(2))

subsection \<open>The phase log\<close>

lemma moves_log_ok: "moves E f g \<Longrightarrow> finding_log_ok f \<Longrightarrow> finding_log_ok g"
  unfolding moves_def same_log_def using SetPhase_log_ok finding_log_ok_cong by metis

lemma moves_phase: "moves E f g \<Longrightarrow> phase (status g) \<noteq> phase (status f) \<Longrightarrow>
    (phase (status f), phase (status g)) \<in> E \<and> phase (status g) \<in> set (transitions (phase (status f))) \<and>
    (\<exists>t. phaseTimes (status g) = phaseTimes (status f) @ [\<lparr>pt_phase = phase (status g), pt_at = t\<rparr>])"
  by (auto simp: moves_def same_log_def SetPhase_Inr)

lemma moves_still: "moves E f g \<Longrightarrow> phase (status g) = phase (status f) \<Longrightarrow>
    phaseTimes (status g) = phaseTimes (status f) \<and> completedAt (status g) = completedAt (status f)"
  by (auto simp: moves_def same_log_def SetPhase_Inr)

lemma new_cluster_finding: "new_cluster stamped c \<Longrightarrow> finding_log_ok (c_fnd c) \<and> spec_approval (spec (c_fnd c)) = None \<and>
    (\<forall>pt\<in>set (phaseTimes (status (c_fnd c))). stamped \<and> pt_phase pt = PhaseOpened)"
  by (auto simp: new_cluster_def created_def Let_def init_status_def phase_then_def SetPhase_def CanTransition_def
      new_finding_def fresh_status_def finding_log_ok_def split: if_splits)

text \<open>
  C1. However the handlers interleave, however far their caches lag and wherever they crash, a finding's
  phase log stays one legal path through the table of edges that ends in its phase, its completion time is
  set exactly in a terminal phase, and a failed finding always has a state to be retried from.
\<close>

theorem life_log_legal:
  assumes "life (new_cluster stamped) closes fresh h"
  shows "finding_log_ok (c_fnd (hd h)) \<and>
    (phase (status (c_fnd (hd h))) = PhaseFailed \<longrightarrow> RetryTarget (c_fnd (hd h)) \<in> {PhaseEnhanced, PhaseQueued})"
proof -
  have ok: "finding_log_ok (c_fnd (hd h))"
    using assms by (rule life_finding) (auto simp: new_cluster_finding moves_log_ok)
  then show ?thesis using failed_log_prior [OF ok] by (auto simp: RetryTarget_def)
qed

subsection \<open>The human gate\<close>

abbreviation gated :: "phase \<Rightarrow> bool" where
  "gated p \<equiv> p = PhaseAwaitingApproval \<or> p = PhaseHandedOff"

definition gate_ok :: "finding \<Rightarrow> bool" where
  "gate_ok f \<longleftrightarrow> finding_log_ok f \<and>
     ((\<exists>pt\<in>set (phaseTimes (status f)). gated (pt_phase pt)) \<and> \<not> gated (phase (status f)) \<longrightarrow>
      spec_approval (spec f) \<noteq> None)"

lemma edges_out_of_gate:
  "(p, q) \<in> edges closes approved \<Longrightarrow> q \<in> set (transitions p) \<Longrightarrow> gated p \<Longrightarrow> gated q \<or> approved"
  by (cases p) (auto simp: edges_def split: if_splits)

lemma moves_gate_ok:
  assumes "moves (edges closes approved) f g" "gate_ok f" "approved \<longrightarrow> spec_approval (spec f) \<noteq> None"
  shows "gate_ok g"
proof -
  have keep: "spec_approval (spec f) \<noteq> None \<Longrightarrow> spec_approval (spec g) \<noteq> None"
    using assms(1) by (simp add: moves_def same_object_def)
  have ok: "finding_log_ok g" using moves_log_ok [OF assms(1)] assms(2) by (simp add: gate_ok_def)
  show ?thesis
  proof (cases "phase (status g) = phase (status f)")
    case True
    then show ?thesis using moves_still [OF assms(1) True] assms(2) keep ok by (auto simp: gate_ok_def)
  next
    case False
    obtain t where m: "(phase (status f), phase (status g)) \<in> edges closes approved"
      "phase (status g) \<in> set (transitions (phase (status f)))"
      "phaseTimes (status g) = phaseTimes (status f) @ [\<lparr>pt_phase = phase (status g), pt_at = t\<rparr>]"
      using moves_phase [OF assms(1) False] by blast
    have "spec_approval (spec g) \<noteq> None"
      if h: "\<exists>pt\<in>set (phaseTimes (status g)). gated (pt_phase pt)" "\<not> gated (phase (status g))"
    proof (cases "gated (phase (status f))")
      case True
      then have "approved" using edges_out_of_gate [OF m(1,2)] h(2) by blast
      then show ?thesis using assms(3) keep by blast
    next
      case False
      then show ?thesis using h m(3) assms(2) keep by (auto simp: gate_ok_def)
    qed
    then show ?thesis using ok by (simp add: gate_ok_def)
  qed
qed

text \<open>A finding that waits for a human, or never has.\<close>

definition at_the_gate :: "cluster \<Rightarrow> bool" where
  "at_the_gate c \<longleftrightarrow> finding_log_ok (c_fnd c) \<and>
     (gated (phase (status (c_fnd c))) \<or> (\<forall>pt\<in>set (phaseTimes (status (c_fnd c))). \<not> gated (pt_phase pt)))"

lemma new_cluster_gate: "new_cluster stamped c \<Longrightarrow> at_the_gate c"
  using new_cluster_finding [of stamped c] by (auto simp: at_the_gate_def)

lemma life_gate:
  assumes "life at_the_gate closes fresh h"
  shows "gate_ok (c_fnd (hd h)) \<and> (approved_in h \<longrightarrow> spec_approval (spec (c_fnd (hd h))) \<noteq> None)"
  using assms
proof (induction rule: life.induct)
  case (start c)
  then show ?case by (auto simp: gate_ok_def approved_in_def at_the_gate_def)
next
  case (advance h c)
  have ne: "h \<noteq> []" using advance(1) by (rule life_nonempty)
  let ?P = "\<lambda>f. gate_ok f \<and> (approved_in h \<longrightarrow> spec_approval (spec f) \<noteq> None)"
  have "?P (c_fnd c)"
  proof (rule step_finding [where P = ?P, OF advance(2) ne advance(3)])
    fix f g assume m: "moves (edges closes (approved_in h)) f g" and f: "?P f"
    then show "?P g" using moves_gate_ok [OF m] by (auto simp: moves_def same_object_def)
  qed
  then show ?case by (auto simp: approved_in_def)
qed

text \<open>
  C2. The human gate holds. Once a finding awaited approval or was handed to a human, no interleaving of
  the handlers, lag of their caches or crash takes it on into any other phase unless a human's approval is
  on its spec.
\<close>

theorem human_gate:
  assumes "life at_the_gate closes fresh h"
    and "pt \<in> set (phaseTimes (status (c_fnd (hd h))))" "pt_phase pt \<in> {PhaseAwaitingApproval, PhaseHandedOff}"
    and "phase (status (c_fnd (hd h))) \<notin> {PhaseAwaitingApproval, PhaseHandedOff}"
  shows "spec_approval (spec (c_fnd (hd h))) \<noteq> None"
  using life_gate [OF assms(1)] assms(2-4) by (auto simp: gate_ok_def)

subsection \<open>A lost status write\<close>

lemma edges_from_none: "(PhaseNone, q) \<in> edges closes approved \<Longrightarrow> q \<in> set (transitions PhaseNone) \<Longrightarrow> False"
  by (auto simp: edges_def split: if_splits)

text \<open>
  C34. A finding whose first status write is lost is stranded. \<open>create\<close> makes the object and then writes the
  Opened phase in a second call; when that call is refused (a conflict, a crash) it logs that the
  projection fills the window in. Nothing does: from that state no handler, signal or action ever moves the
  finding.
\<close>

theorem lost_status_strands:
  assumes "life (new_cluster False) closes fresh h"
  shows "phase (status (c_fnd (hd h))) = PhaseNone \<and> phaseTimes (status (c_fnd (hd h))) = []"
  using assms
proof (rule life_finding)
  fix c assume c: "new_cluster False c"
  then show "phase (status (c_fnd c)) = PhaseNone \<and> phaseTimes (status (c_fnd c)) = []"
    using new_cluster_finding [OF c] by (cases "phaseTimes (status (c_fnd c))") (auto simp: finding_log_ok_def)
next
  fix f g b assume m: "moves (edges closes b) f g" and f: "phase (status f) = PhaseNone \<and> phaseTimes (status f) = []"
  show "phase (status g) = PhaseNone \<and> phaseTimes (status g) = []"
  proof (cases "phase (status g) = phase (status f)")
    case True
    then show ?thesis using moves_still [OF m True] f by simp
  next
    case False
    then show ?thesis using moves_phase [OF m False] f edges_from_none by metis
  qed
qed

subsection \<open>Runs of the model\<close>

definition demo_waiting :: cluster where
  "demo_waiting = \<lparr>c_fnd = demo_review\<lparr>status := fresh_status
      \<lparr>phase := PhaseAwaitingApproval, phaseTimes := map (\<lambda>p. \<lparr>pt_phase = p, pt_at = 0\<rparr>)
         [PhaseOpened, PhaseEnhanced, PhaseInvestigating, PhaseAwaitingApproval]\<rparr>\<rparr>,
     c_invs = (\<lambda>_. None), c_rems = (\<lambda>_. None), c_repo = None\<rparr>"

definition demo_approved :: cluster where
  "demo_approved = demo_waiting\<lparr>c_fnd := fst (ApplyWithID demo_meta (c_fnd demo_waiting) VerbApprove ''al'' 3 [] 6)\<rparr>"

definition demo_queued :: cluster where
  "demo_queued = run_effects 9 (fst (spawner_reconcile demo_spawner demo_approved)) demo_approved"

lemma sees_head: "h \<noteq> [] \<Longrightarrow> sees fresh h (hd h)"
  by (auto simp: sees_def)

lemma demo_life: "life at_the_gate False True [demo_queued, demo_approved, demo_waiting]"
proof -
  have w: "at_the_gate demo_waiting"
    by (simp add: at_the_gate_def demo_waiting_def finding_log_ok_def fresh_status_def)
  obtain g changed err where a: "ApplyWithID demo_meta (c_fnd demo_waiting) VerbApprove ''al'' 3 [] 6 = (g, changed, err)"
    by (metis prod_cases3)
  then have "step False True [demo_waiting] demo_approved"
    using step.act [of demo_meta "[demo_waiting]"] by (simp add: demo_approved_def)
  moreover have "step False True [demo_approved, demo_waiting] demo_queued"
    using step.spawner [where closes = False and fresh = True and h = "[demo_approved, demo_waiting]" and
        seen = demo_approved and n = 9 and se = demo_spawner] sees_head [of "[demo_approved, demo_waiting]" True]
    by (simp add: demo_queued_def)
  ultimately show ?thesis using w by (intro life.intros)
qed

lemma demo_queued_phase: "phase (status (c_fnd demo_queued)) = PhaseQueued \<and>
    \<lparr>pt_phase = PhaseAwaitingApproval, pt_at = 0\<rparr> \<in> set (phaseTimes (status (c_fnd demo_queued)))"
  by (simp add: demo_queued_def spawner_reconcile_def demo_approved_def demo_waiting_def demo_review_def fresh_status_def
      act_simps applyApprove_def credentialHeld_def Let_def run_effects.simps admit_change_def phase_then_def SetPhase_def
      CanTransition_def eval_nat_numeral add_condition_def)

lemma human_gate_witness: "spec_approval (spec (c_fnd demo_queued)) \<noteq> None"
  using human_gate [OF demo_life, of "\<lparr>pt_phase = PhaseAwaitingApproval, pt_at = 0\<rparr>"] demo_queued_phase by simp

definition demo_created :: "bool \<Rightarrow> cluster" where
  "demo_created stamped = \<lparr>c_fnd = created demo_ingest demo_observation ''u'' ''finding-ab-1'' stamped,
     c_invs = (\<lambda>_. None), c_rems = (\<lambda>_. None), c_repo = None\<rparr>"

definition demo_closed :: "bool \<Rightarrow> cluster" where
  "demo_closed stamped = run_effects 1 [UpdateFinding (issue_change demo_meta 4 ''closed'')] (demo_created stamped)"

lemma demo_closed_life: "life (new_cluster stamped) True True [demo_closed stamped, demo_created stamped]"
proof -
  have "new_cluster stamped (demo_created stamped)" by (auto simp: new_cluster_def demo_created_def)
  moreover have "step True True [demo_created stamped] (demo_closed stamped)"
    using step.issue [of True True "[demo_created stamped]" 1 demo_meta 4 "''closed''"] by (simp add: demo_closed_def)
  ultimately show ?thesis by (intro life.intros)
qed

lemma life_log_legal_witness: "finding_log_ok (c_fnd (demo_closed True))"
  using life_log_legal [OF demo_closed_life [of True]] by simp

lemma lost_status_strands_witness: "phase (status (c_fnd (demo_closed False))) = PhaseNone"
  using lost_status_strands [OF demo_closed_life [of False]] by simp

end
