(* ===== verification/Flight.thy ===== *)
theory Flight
  imports Lifecycle
begin

text \<open>
  What the histories of \<open>Lifecycle\<close> do to the runs. A finding whose release is lost after its run settled
  is never moved again; with caches that show every run, at most one remediation of a finding is in flight;
  and a cache that does not show the latest one yet breeds a sibling.
\<close>

subsection \<open>A lost release\<close>

definition stuck :: "cluster \<Rightarrow> bool" where
  "stuck c \<longleftrightarrow> phase (status (c_fnd c)) = PhaseInvestigating \<and>
     (\<forall>n r. c_invs c n = Some r \<longrightarrow> settled_phase (iv_phase r))"

text \<open>Calls that leave a stuck finding stuck.\<close>

definition harmless :: "effect \<Rightarrow> bool" where
  "harmless e = (case e of
     UpdateFinding w \<Rightarrow> (\<exists>E. writes E w \<and> E \<inter> {PhaseInvestigating} \<times> UNIV = {})
   | CreateInvestigation r \<Rightarrow> False
   | UpdateInvestigation n w \<Rightarrow> (\<forall>r. settled_phase (iv_phase r) \<longrightarrow> settled_phase (iv_phase (stored w r)))
   | _ \<Rightarrow> True)"

lemma harmless_simps [simp]:
  "harmless CreateRepository" "harmless (CreateRemediation r)" "harmless (UpdateRemediation b n v)"
  "harmless (CreateInvestigation s) \<longleftrightarrow> False"
  "harmless (UpdateInvestigation n u) \<longleftrightarrow> (\<forall>r. settled_phase (iv_phase r) \<longrightarrow> settled_phase (iv_phase (stored u r)))"
  by (simp_all add: harmless_def)

lemma harmless_finding: "writes E w \<Longrightarrow> E \<inter> {PhaseInvestigating} \<times> UNIV = {} \<Longrightarrow> harmless (UpdateFinding w)"
  by (auto simp: harmless_def)

lemma harmless_effect: "harmless e \<Longrightarrow> stuck c \<Longrightarrow> stuck (fst (apply_effect e c))"
proof (cases e)
  case (UpdateFinding w)
  assume h: "harmless e" "stuck c"
  then obtain E where E: "writes E w" "E \<inter> {PhaseInvestigating} \<times> UNIV = {}" by (auto simp: harmless_def UpdateFinding)
  have m: "moves E (c_fnd c) (stored w (c_fnd c))" using E(1) by (rule writes_moves)
  have "phase (status (stored w (c_fnd c))) = phase (status (c_fnd c))"
  proof (rule ccontr)
    assume "phase (status (stored w (c_fnd c))) \<noteq> phase (status (c_fnd c))"
    then show False using moves_phase [OF m] E(2) h(2) by (auto simp: stuck_def)
  qed
  then show ?thesis using h(2) by (simp add: UpdateFinding stuck_def)
next
  case (UpdateInvestigation n u)
  assume h: "harmless e" "stuck c"
  then show ?thesis by (auto simp: UpdateInvestigation stuck_def split: option.splits)
qed (auto simp: stuck_def split: option.splits)

lemma harmless_run: "list_all harmless es \<Longrightarrow> stuck c \<Longrightarrow> stuck (run_effects n es c)"
  by (rule run_effects_invariant) (auto simp: list_all_iff intro: harmless_effect)

lemma calls_harmless:
  assumes "calls_in E es" "E \<inter> {PhaseInvestigating} \<times> UNIV = {}"
    and "\<And>e. e \<in> set es \<Longrightarrow> case e of UpdateFinding w \<Rightarrow> True | _ \<Rightarrow> harmless e"
  shows "list_all harmless es"
proof -
  have "harmless e" if "e \<in> set es" for e
    using assms(1,2) assms(3) [OF that] that by (cases e) (auto simp: calls_in_def intro: harmless_finding)
  then show ?thesis by (simp add: list_all_iff)
qed

text \<open>The kinds of calls the remediation controller makes.\<close>

definition rem_call :: "effect \<Rightarrow> bool" where
  "rem_call e = (case e of UpdateFinding w \<Rightarrow> True | UpdateRemediation b n v \<Rightarrow> True | _ \<Rightarrow> False)"

lemma rem_call_simps [simp]: "rem_call (UpdateFinding w)" "rem_call (UpdateRemediation b n v)"
  by (simp_all add: rem_call_def)

lemma rem_run_calls: "list_all rem_call (fst (rem_run_reconcile e w ans create siblings seen r))"
proof -
  have fail: "list_all rem_call (rem_fail e siblings r outcome detail reported t)" for outcome detail reported t
    by (simp add: rem_fail_def Let_def)
  have succeed: "list_all rem_call (fst (rem_succeed e w siblings seen r rep t))" for rep t
    by (simp add: rem_succeed_def Let_def fail split: option.split sum.split prod.split)
  have app: "list_all rem_call (fst (rem_apply e w siblings seen r events t))" for events t
    by (simp add: rem_apply_def fail succeed handOff_def split: prod.split option.split)
  have "list_all rem_call (fst (rem_collect e w ans siblings seen r))"
    by (simp add: rem_collect_def fail app sandboxRefused_def Let_def split: job_answer.split job_result.split prod.split)
  moreover have "list_all rem_call (fst (rem_create e create siblings r sp))" for sp
    by (simp add: rem_create_def fail split: launch_answer.split)
  then have "list_all rem_call (fst (rem_launch e create siblings seen r))"
    by (simp add: rem_launch_def Let_def fail holdForImage_def split: option.split prod.split)
  ultimately show ?thesis by (simp add: rem_run_reconcile_def split: option.split)
qed

lemma stuck_step:
  assumes "step False fresh h c" "h \<noteq> []" "\<forall>c\<in>set h. stuck c"
  shows "stuck c"
proof -
  have hd: "stuck (hd h)" using assms(2,3) by simp
  have seen: "phase (status (c_fnd s)) = PhaseInvestigating \<and> (\<forall>n r. c_invs s n = Some r \<longrightarrow> settled_phase (iv_phase r))"
    if "sees fresh h s" for s
  proof -
    have "c_fnd s \<in> c_fnd ` set h" "\<And>n. c_invs s n \<in> (\<lambda>c. c_invs c n) ` set h" using that by (simp_all add: sees_def)
    then show ?thesis using assms(3) unfolding stuck_def by (metis (no_types, lifting) imageE)
  qed
  have one: "stuck ((hd h)\<lparr>c_fnd := g\<rparr>)" if "moves {} (c_fnd (hd h)) g" for g
    using moves_phase [OF that] hd by (auto simp: stuck_def)
  from assms(1) show ?thesis
  proof cases
    case (enhance s)
    then show ?thesis using seen hd by (simp add: enhance_reconcile_def Let_def run_effects.simps)
  next
    case (window s n m now)
    show ?thesis unfolding window
      by (intro harmless_run hd calls_harmless [OF window_calls])
        (auto simp: closeAccumulation_def split: option.splits if_splits)
  next
    case (gate s)
    then show ?thesis using seen hd by (simp add: gate_reconcile_def Let_def)
  next
    case (spawner s)
    then show ?thesis using seen hd by (simp add: spawner_reconcile_def Let_def)
  next
    case (investigate s r n ie ans create siblings)
    have "settled_phase (iv_phase r)" using seen [OF investigate(2)] investigate(3) by blast
    then have "fst (inv_run_reconcile ie ans create siblings s r) \<in> {[], [UpdateInvestigation (iv_name r) inv_finalize]}"
      by (auto simp: inv_run_reconcile_def settled_phase_def)
    moreover have "harmless (UpdateInvestigation (iv_name r) inv_finalize)" by (simp add: inv_finalize_def)
    ultimately show ?thesis unfolding investigate using hd by (intro harmless_run) auto
  next
    case (remediate s r' n re w ans' create' siblings')
    have "rem_call e \<Longrightarrow> case e of UpdateFinding w \<Rightarrow> True | _ \<Rightarrow> harmless e" for e
      by (cases e) (simp_all add: rem_call_def)
    then show ?thesis unfolding remediate using rem_run_calls
      by (intro harmless_run hd calls_harmless [OF rem_calls]) (auto simp: list_all_iff)
  next
    case (grant_investigation n name)
    show ?thesis unfolding grant_investigation
      by (intro harmless_run hd) (auto simp: inv_grant_def inv_waiting_def settled_phase_def)
  next
    case (grant_remediation n re name)
    show ?thesis unfolding grant_remediation
      by (intro harmless_run hd) (auto simp: grant_effects_def intro: harmless_finding [OF writes_started])
  next
    case (mark_investigation n name ie)
    show ?thesis unfolding mark_investigation
      by (intro harmless_run hd) (auto simp: inv_mark_paused_def split: prod.splits)
  next
    case (mark_remediation n name re)
    show ?thesis unfolding mark_remediation by (intro harmless_run hd) simp
  next
    case (pull_request n m t now c repo headRepo number)
    show ?thesis unfolding pull_request
      by (intro harmless_run hd) (auto intro!: harmless_finding [OF writes_pull_request])
  next
    case (review n m now pr st)
    show ?thesis unfolding review by (intro harmless_run hd) (auto intro!: harmless_finding [OF writes_pending])
  next
    case (act m verb user idn msg now g changed err)
    then show ?thesis using one [OF action_moves] by simp
  next
    case (fold ob g)
    then show ?thesis using one [OF fold_moves] by simp
  next
    case (repository rp)
    then show ?thesis using hd by (simp add: stuck_def)
  qed simp
qed

lemma stuck_life: "life I False fresh h \<Longrightarrow> (\<And>c. I c \<Longrightarrow> stuck c) \<Longrightarrow> \<forall>c\<in>set h. stuck c"
proof (induction rule: life.induct)
  case (advance h c)
  then show ?case using stuck_step [OF advance(2) life_nonempty [OF advance(1)]] by simp
qed simp

lemma inv_apply_stamps:
  "\<exists>rep p t b w. p \<in> {RunComplete, RunFailed} \<and>
     inv_apply e siblings f r events transcript = [UpdateInvestigation (iv_name r) (inv_stamp e rep p t b), UpdateFinding w]"
  unfolding inv_apply_def inv_fail_def by (simp split: prod.split option.split) blast

lemma inv_stamp_phase: "iv_phase (stored (inv_stamp e rep p t b) r) = p"
  by (simp add: inv_stamp_def Let_def)

text \<open>
  C15. A lost release wedges the finding. The verdict of an investigation is applied in two writes: the run is
  stamped as settled, then the finding is released from Investigating. When the second one never lands (the
  controller stops between them, or the API server refuses it), the settled run is not looked at again, and
  with the caches up to date no later run of any handler, no approval, retry, pull request or alert ever
  takes the finding out of Investigating; only a human closing its tracking issue does.
\<close>

theorem lost_release_wedges:
  assumes "phase (status (c_fnd c)) = PhaseInvestigating" "c_invs c (iv_name r) = Some r"
    and "\<forall>n s. c_invs c n = Some s \<and> n \<noteq> iv_name r \<longrightarrow> settled_phase (iv_phase s)"
    and "life (\<lambda>d. d = run_effects 1 (inv_apply e siblings f r events transcript) c) False fresh h"
  shows "phase (status (c_fnd (hd h))) = PhaseInvestigating"
proof -
  obtain rep p t b w where s: "p \<in> {RunComplete, RunFailed}"
    "inv_apply e siblings f r events transcript = [UpdateInvestigation (iv_name r) (inv_stamp e rep p t b), UpdateFinding w]"
    using inv_apply_stamps [of e siblings f r events transcript] by (elim exE conjE) (rule that)
  have st: "settled_phase p" using s(1) by (auto simp: settled_phase_def)
  have one: "run_effects 1 (x # xs) c = fst (apply_effect x c)" for x xs
    by (cases xs) (simp_all add: One_nat_def split_beta del: apply_effect.simps)
  have "c_fnd (run_effects 1 (inv_apply e siblings f r events transcript) c) = c_fnd c"
    "c_invs (run_effects 1 (inv_apply e siblings f r events transcript) c) =
       (c_invs c)(iv_name r \<mapsto> stored (inv_stamp e rep p t b) r)"
    unfolding s(2) one by (simp_all add: assms(2))
  then have "stuck (run_effects 1 (inv_apply e siblings f r events transcript) c)"
    using assms(1,3) st inv_stamp_phase [of e rep p t b r] by (auto simp: stuck_def split: if_splits)
  then have "\<forall>c\<in>set h. stuck c" using stuck_life [OF assms(4)] by blast
  then show ?thesis using life_nonempty [OF assms(4)] by (simp add: stuck_def)
qed

definition demo_gate :: gate_env where
  "demo_gate = \<lparr>ge_meta = demo_meta, ge_now = 3, ge_minAge = 0, ge_params = empty_params, ge_attribution = ModeOff,
     ge_resolve = (\<lambda>_. ForgeFound ''gh'')\<rparr>"

definition demo_inv :: inv_run where
  "demo_inv = (new_investigation demo_gate demo_review 1 None)\<lparr>iv_phase := RunRunning\<rparr>"

definition demo_investigating :: cluster where
  "demo_investigating = \<lparr>c_fnd = demo_review\<lparr>status := fresh_status\<lparr>phase := PhaseInvestigating\<rparr>\<rparr>,
     c_invs = [iv_name demo_inv \<mapsto> demo_inv], c_rems = (\<lambda>_. None), c_repo = None\<rparr>"

definition demo_investigator :: investigate_env where
  "demo_investigator = \<lparr>ie_meta = demo_meta, ie_now = 9, ie_maxConcurrent = 1, ie_paused = False, ie_maxAttempts = 2,
     ie_aging = demo_aging, ie_threshold = 0, ie_guard = \<lparr>g_enabled = False, g_tripped = False\<rparr>, ie_score = (\<lambda>_. 0),
     ie_expedited = (\<lambda>_. False), ie_lower = (\<lambda>s. s)\<rparr>"

text \<open>The agent produced no event, the failed run is stamped, and the release is lost.\<close>

lemma lost_release_wedges_witness:
  "phase (status (c_fnd (run_effects 1 (inv_apply demo_investigator [] demo_review demo_inv [] None) demo_investigating))) =
   PhaseInvestigating"
proof -
  let ?d = "run_effects 1 (inv_apply demo_investigator [] demo_review demo_inv [] None) demo_investigating"
  have "life (\<lambda>d. d = ?d) False True [?d]" by (rule life.start) simp
  from lost_release_wedges [OF _ _ _ this] show ?thesis by (simp add: demo_investigating_def)
qed

subsection \<open>One remediation in flight\<close>

abbreviation attempt_count :: "cluster \<Rightarrow> int" where
  "attempt_count c \<equiv> att_remediation (attempts (status (c_fnd c)))"

abbreviation child :: "cluster \<Rightarrow> int \<Rightarrow> rem_run option" where
  "child c k \<equiv> c_rems c (rem_name (c_fnd c) k)"

definition in_flight :: "rem_run option \<Rightarrow> bool" where
  "in_flight x \<longleftrightarrow> (\<exists>r. x = Some r \<and> \<not> settled_phase (rm_phase r))"

text \<open>
  The children are numbered from 1 without a gap, up to the count on the finding or one past it (the create
  landed, the count has not); and all but the last one are settled.
\<close>

definition numbered :: "cluster \<Rightarrow> bool" where
  "numbered c \<longleftrightarrow> 0 \<le> attempt_count c \<and>
     (\<forall>n r. c_rems c n = Some r \<longrightarrow> rm_name r = n \<and> (\<exists>k. 1 \<le> k \<and> k \<le> attempt_count c + 1 \<and> n = rem_name (c_fnd c) k)) \<and>
     (\<forall>k. 1 \<le> k \<and> k \<le> attempt_count c \<longrightarrow> child c k \<noteq> None) \<and>
     (\<forall>k. k \<le> attempt_count c \<and> in_flight (child c k) \<longrightarrow>
        k = attempt_count c \<and> child c (attempt_count c + 1) = None)"

lemma rem_name_inj: "rem_name f a = rem_name f b \<longleftrightarrow> a = b"
  by (auto simp: rem_name_def dest: show_int_inj)

lemma numbered_name: "numbered c \<Longrightarrow> c_rems c n = Some r \<Longrightarrow>
    rm_name r = n \<and> (\<exists>k. 1 \<le> k \<and> k \<le> attempt_count c + 1 \<and> n = rem_name (c_fnd c) k)"
  by (simp add: numbered_def)

lemma numberedI:
  assumes "attempt_count c = a" "0 \<le> a"
    and "\<And>n r. c_rems c n = Some r \<Longrightarrow> rm_name r = n \<and> (\<exists>k. 1 \<le> k \<and> k \<le> a + 1 \<and> n = rem_name (c_fnd c) k)"
    and "\<And>k. 1 \<le> k \<Longrightarrow> k \<le> a \<Longrightarrow> child c k \<noteq> None"
    and "\<And>k. k \<le> a \<Longrightarrow> in_flight (child c k) \<Longrightarrow> k = a \<and> child c (a + 1) = None"
  shows "numbered c"
  unfolding numbered_def assms(1) using assms(2-5) by blast

lemma numbered_last: "numbered c \<Longrightarrow> k \<le> attempt_count c \<Longrightarrow> in_flight (child c k) \<Longrightarrow>
    k = attempt_count c \<and> child c (attempt_count c + 1) = None"
  by (simp add: numbered_def)

lemma numbered_one:
  assumes "numbered c" "in_flight (c_rems c n)" "in_flight (c_rems c m)"
  shows "n = m"
proof -
  obtain r s where "c_rems c n = Some r" "c_rems c m = Some s" using assms(2,3) by (auto simp: in_flight_def)
  then obtain k l where k: "n = rem_name (c_fnd c) k" "k \<le> attempt_count c + 1"
    and l: "m = rem_name (c_fnd c) l" "l \<le> attempt_count c + 1"
    using numbered_name [OF assms(1)] by metis
  have "k = l"
  proof (cases "k \<le> attempt_count c \<or> l \<le> attempt_count c")
    case True
    have one: "i = attempt_count c \<and> child c (attempt_count c + 1) = None"
      if "i \<le> attempt_count c" "in_flight (child c i)" for i
      using numbered_last [OF assms(1) that] .
    have none: "\<not> in_flight (child c (attempt_count c + 1))" if "child c (attempt_count c + 1) = None"
      using that by (simp add: in_flight_def)
    show ?thesis
    proof (cases "k \<le> attempt_count c")
      case True
      then have "k = attempt_count c" "\<not> in_flight (child c (attempt_count c + 1))"
        using one [of k] none assms(2) k(1) by auto
      then show ?thesis using one [of l] assms(3) l by (cases "l = attempt_count c + 1") auto
    next
      case False
      then have "k = attempt_count c + 1" "l \<le> attempt_count c" using k(2) True by auto
      then show ?thesis using one [of l] none assms(2,3) k(1) l(1) by auto
    qed
  qed (use k(2) l(2) in linarith)
  then show ?thesis using k l by simp
qed

text \<open>Calls that keep the count and the settled runs, and create no child.\<close>

definition keeps :: "finding \<Rightarrow> finding \<Rightarrow> bool" where
  "keeps f g \<longleftrightarrow> f_name g = f_name f \<and> att_remediation (attempts (status g)) = att_remediation (attempts (status f))"

definition gentle :: "effect \<Rightarrow> bool" where
  "gentle e = (case e of
     UpdateFinding w \<Rightarrow> (\<forall>f. keeps f (stored w f))
   | CreateRemediation r \<Rightarrow> False
   | UpdateRemediation b n w \<Rightarrow>
       (\<forall>r. rm_name (stored w r) = rm_name r \<and> (settled_phase (rm_phase r) \<longrightarrow> settled_phase (rm_phase (stored w r))))
   | _ \<Rightarrow> True)"

lemma gentle_simps [simp]:
  "gentle CreateRepository" "gentle (CreateInvestigation s)" "gentle (UpdateInvestigation n u)"
  "gentle (CreateRemediation r) \<longleftrightarrow> False" "gentle (UpdateFinding w) \<longleftrightarrow> (\<forall>f. keeps f (stored w f))"
  "gentle (UpdateRemediation b n v) \<longleftrightarrow> (\<forall>r. rm_name (stored v r) = rm_name r \<and>
      (settled_phase (rm_phase r) \<longrightarrow> settled_phase (rm_phase (stored v r))))"
  by (simp_all add: gentle_def)

lemma numbered_finding: "keeps (c_fnd c) g \<Longrightarrow> numbered (c\<lparr>c_fnd := g\<rparr>) = numbered c"
  by (simp add: numbered_def keeps_def rem_name_def)

lemma numbered_rems:
  assumes "numbered c" "c_fnd d = c_fnd c" "\<And>n. (c_rems d n = None) = (c_rems c n = None)"
    and "\<And>n r. c_rems d n = Some r \<Longrightarrow> rm_name r = n" "\<And>n. in_flight (c_rems d n) \<Longrightarrow> in_flight (c_rems c n)"
  shows "numbered d"
proof -
  have nm: "rm_name r = n \<and> (\<exists>k. 1 \<le> k \<and> k \<le> attempt_count c + 1 \<and> n = rem_name (c_fnd c) k)"
    if h: "c_rems d n = Some r" for n r
  proof -
    obtain r' where "c_rems c n = Some r'" using h assms(3) [of n] by auto
    then show ?thesis using numbered_name [OF assms(1), of n r'] assms(4) [OF h] by simp
  qed
  have last: "k = attempt_count c \<and> c_rems d (rem_name (c_fnd c) (attempt_count c + 1)) = None"
    if "k \<le> attempt_count c" "in_flight (c_rems d (rem_name (c_fnd c) k))" for k
    using numbered_last [OF assms(1) that(1)] assms(5) [OF that(2)] assms(3) by simp
  have all: "0 \<le> attempt_count c" "\<And>k. 1 \<le> k \<Longrightarrow> k \<le> attempt_count c \<Longrightarrow> c_rems d (rem_name (c_fnd c) k) \<noteq> None"
    using assms(1,3) by (simp_all add: numbered_def)
  show ?thesis unfolding numbered_def assms(2) using nm last all by blast
qed

lemma gentle_effect: "gentle e \<Longrightarrow> numbered c \<Longrightarrow> numbered (fst (apply_effect e c))"
proof (cases e)
  case (UpdateFinding w)
  assume "gentle e" "numbered c"
  then show ?thesis using numbered_finding [of c "stored w (c_fnd c)"] by (simp add: UpdateFinding del: stored.simps)
next
  case (UpdateRemediation b n v)
  assume h: "gentle e" "numbered c"
  show ?thesis
  proof (cases "c_rems c n")
    case (Some r)
    have r: "rm_name (stored v r) = rm_name r" "settled_phase (rm_phase r) \<longrightarrow> settled_phase (rm_phase (stored v r))"
      using h(1) by (simp_all add: UpdateRemediation del: stored.simps)
    have nm: "\<And>n r. c_rems c n = Some r \<Longrightarrow> rm_name r = n" using h(2) by (simp add: numbered_def)
    have "numbered (c\<lparr>c_rems := (c_rems c)(n \<mapsto> stored v r)\<rparr>)"
      by (rule numbered_rems [OF h(2)]) (use r nm Some in \<open>auto simp: in_flight_def simp del: stored.simps split: if_splits\<close>)
    then show ?thesis by (simp add: UpdateRemediation Some del: stored.simps)
  qed (use h in \<open>simp add: UpdateRemediation\<close>)
qed (auto simp: numbered_def split: option.splits)

lemma gentle_run: "list_all gentle es \<Longrightarrow> numbered c \<Longrightarrow> numbered (run_effects n es c)"
  by (rule run_effects_invariant) (auto simp: list_all_iff intro: gentle_effect)


lemma SetPhase_keeps: "SetPhase f to now = Inr g \<Longrightarrow> keeps f g"
  by (auto simp: SetPhase_Inr keeps_def)

lemma keeps_trans: "keeps f g \<Longrightarrow> keeps g h \<Longrightarrow> keeps f h"
  by (simp add: keeps_def)

lemma keeps_refl [simp]: "keeps f f"
  by (simp add: keeps_def)

definition keeps_change :: "finding \<Rightarrow> finding change \<Rightarrow> bool" where
  "keeps_change f c \<longleftrightarrow> keeps f (case c of Put g \<Rightarrow> g | _ \<Rightarrow> f)"

lemma keeps_change_simps [simp]:
  "keeps_change f Skip" "keeps_change f (Fail e)" "keeps_change f (Put g) \<longleftrightarrow> keeps f g"
  "keeps_change f (if b then x else y) \<longleftrightarrow> (if b then keeps_change f x else keeps_change f y)"
  by (simp_all add: keeps_change_def)

lemma keeps_stored: "keeps f (stored w f) \<longleftrightarrow> keeps_change f (w f)"
  by (simp add: keeps_change_def)

lemma keeps_phase_then:
  assumes "keeps f g" "\<And>h. keeps h (upd h)"
  shows "keeps_change f (phase_then g to now upd)"
proof (cases "SetPhase g to now")
  case (Inr h)
  then show ?thesis using keeps_trans [OF assms(1) keeps_trans [OF SetPhase_keeps [OF Inr] assms(2)]]
    by (simp add: phase_then_def)
qed (simp add: phase_then_def)

lemma keeps_updates [simp]:
  "keeps f (add_condition m c g) \<longleftrightarrow> keeps f g"
  "keeps f (g\<lparr>status := (status g)\<lparr>lastFailureReason := s\<rparr>\<rparr>) \<longleftrightarrow> keeps f g"
  by (simp_all add: keeps_def)

lemmas keeps_rules = keeps_phase_then

lemma keeps_calls:
  "keeps f (stored (park_change ge r m h) f)" "keeps f (stored (retry_change m' now to) f)"
  "keeps f (stored (opened_change ge a n frg) f)" "keeps f (stored (inv_release ie to r) f)"
  "keeps f (stored (inv_verdict ie ir rep routed) f)" "keeps f (stored (admit_change se p) f)"
  "keeps f (stored (hold_change se v) f)" "keeps f (stored (rem_started re n) f)"
  "keeps f (stored (finishFinding re rr rrep to reason) f)" "keeps f (stored (rem_succeeded re rr rrep b k url) f)"
  unfolding keeps_stored
  by (auto simp: park_change_def retry_change_def opened_change_def inv_release_def inv_verdict_def admit_change_def
      hold_change_def rem_started_def finishFinding_def rem_succeeded_def Let_def keeps_def add_condition_def
      split: prod.split intro!: keeps_phase_then)

lemma keeps_settle: "keeps_change f (settle m now c f)"
  by (auto simp: settle_def Let_def keeps_def drop_pending_def intro!: keeps_phase_then)

lemma keeps_signals:
  "keeps f (stored (pull_request_change m t now c repo headRepo number) f)"
  "keeps f (stored (issue_change m now action) f)" "keeps f (stored (settlePendingClose m now pr st) f)"
  unfolding keeps_stored
  by (auto simp: pull_request_change_def keeps_settle issue_change_def Let_def settlePendingClose_def keeps_def
      pendClose_def set_tracking_def drop_pending_def split: option.split prod.split bool.split intro!: keeps_phase_then)

definition leads :: "cluster \<Rightarrow> cluster \<Rightarrow> bool" where
  "leads c d \<longleftrightarrow> numbered d \<and> f_name (c_fnd d) = f_name (c_fnd c) \<and> attempt_count c \<le> attempt_count d"

lemma gentle_keeps: "gentle e \<Longrightarrow> keeps (c_fnd c) (c_fnd (fst (apply_effect e c)))"
  by (cases e) (simp_all add: apply_effect_fnd del: apply_effect.simps)

lemma gentle_leads:
  assumes "list_all gentle es" "numbered c"
  shows "leads c (run_effects n es c)"
proof -
  have "numbered (run_effects n es c) \<and> keeps (c_fnd c) (c_fnd (run_effects n es c))"
  proof (rule run_effects_invariant [where I = "\<lambda>d. numbered d \<and> keeps (c_fnd c) (c_fnd d)"])
    fix e d assume "e \<in> set es" "numbered d \<and> keeps (c_fnd c) (c_fnd d)"
    then show "numbered (fst (apply_effect e d)) \<and> keeps (c_fnd c) (c_fnd (fst (apply_effect e d)))"
      using assms(1) gentle_effect [of e d] gentle_keeps [of e d] keeps_trans by (auto simp: list_all_iff)
  qed (simp add: assms(2))
  then show ?thesis by (simp add: leads_def keeps_def)
qed

lemma rem_name_cong: "f_name g = f_name f \<Longrightarrow> rem_name g k = rem_name f k"
  by (simp add: rem_name_def)

lemma child_zero: "numbered c \<Longrightarrow> k < 1 \<or> attempt_count c + 1 < k \<Longrightarrow> child c k = None"
proof (rule ccontr)
  assume h: "numbered c" "k < 1 \<or> attempt_count c + 1 < k" "child c k \<noteq> None"
  then obtain r where r: "child c k = Some r" by auto
  obtain i where "1 \<le> i" "i \<le> attempt_count c + 1" "rem_name (c_fnd c) k = rem_name (c_fnd c) i"
    using numbered_name [OF h(1) r] by blast
  then show False using h(2) by (simp add: rem_name_inj)
qed

lemma created_numbered:
  assumes "numbered c" "rm_name r = rem_name (c_fnd c) (k + 1)" "0 \<le> k" "k \<le> attempt_count c" "\<not> in_flight (child c k)"
    and "child c (k + 1) = None"
  shows "k = attempt_count c \<and> numbered (c\<lparr>c_rems := (c_rems c)(rm_name r \<mapsto> r)\<rparr>)"
proof -
  let ?d = "c\<lparr>c_rems := (c_rems c)(rm_name r \<mapsto> r)\<rparr>"
  have all: "0 \<le> attempt_count c" "\<And>i. 1 \<le> i \<Longrightarrow> i \<le> attempt_count c \<Longrightarrow> child c i \<noteq> None"
    using assms(1) by (simp_all add: numbered_def)
  have k: "k = attempt_count c" using all(2) [of "k + 1"] assms(3,4,6) by force
  have nm: "rm_name s = n \<and> (\<exists>i. 1 \<le> i \<and> i \<le> attempt_count c + 1 \<and> n = rem_name (c_fnd c) i)"
    if "c_rems ?d n = Some s" for n s
  proof (cases "n = rm_name r")
    case True
    then have "s = r" "n = rem_name (c_fnd c) (attempt_count c + 1)" using that assms(2) k by simp_all
    then show ?thesis using assms(2) k all(1) by (intro conjI exI [of _ "attempt_count c + 1"]) simp_all
  next
    case False
    then show ?thesis using numbered_name [OF assms(1), of n s] that by simp
  qed
  have last: "\<not> in_flight (child ?d i)" if "i \<le> attempt_count c" for i
  proof -
    have "i \<noteq> k + 1" using that k by simp
    then have e: "child ?d i = child c i" by (simp add: assms(2) rem_name_inj)
    show ?thesis unfolding e using numbered_last [OF assms(1) that] assms(5) k by auto
  qed
  have ex: "child ?d i \<noteq> None" if "1 \<le> i" "i \<le> attempt_count c" for i using all(2) [OF that] by auto
  have "numbered ?d"
  proof (rule numberedI [where a = "attempt_count c"])
    show "rm_name s = n \<and> (\<exists>i. 1 \<le> i \<and> i \<le> attempt_count c + 1 \<and> n = rem_name (c_fnd ?d) i)"
      if "c_rems ?d n = Some s" for n s using nm [OF that] by simp
    show "child ?d i \<noteq> None" if "1 \<le> i" "i \<le> attempt_count c" for i using ex [OF that] by simp
    show "i = attempt_count c \<and> child ?d (attempt_count c + 1) = None"
      if "i \<le> attempt_count c" "in_flight (child ?d i)" for i using last [OF that(1)] that(2) by blast
  qed (simp_all add: all(1))
  then show ?thesis using k by simp
qed

lemma counted_numbered:
  assumes "numbered c" "child c (k + 1) \<noteq> None" "k \<le> attempt_count c" "0 \<le> k"
  shows "leads c (c\<lparr>c_fnd := stored (count_change (k + 1)) (c_fnd c)\<rparr>)"
proof (cases "k + 1 \<le> attempt_count c")
  case True
  then show ?thesis using assms(1) by (simp add: leads_def count_change_def)
next
  case False
  then have k: "k = attempt_count c" using assms(3) by simp
  let ?f = "(c_fnd c)\<lparr>status := (status (c_fnd c))
      \<lparr>attempts := (attempts (status (c_fnd c)))\<lparr>att_remediation := k + 1\<rparr>\<rparr>\<rparr>"
  let ?d = "c\<lparr>c_fnd := ?f\<rparr>"
  have nm: "rem_name (c_fnd ?d) i = rem_name (c_fnd c) i" for i by (simp add: rem_name_def)
  have one: "rm_name s = n \<and> (\<exists>i. 1 \<le> i \<and> i \<le> attempt_count c + 2 \<and> n = rem_name (c_fnd c) i)" if "c_rems c n = Some s" for n s
    using numbered_name [OF assms(1) that] by (meson add_left_mono order_trans one_le_numeral)
  have ex: "child c i \<noteq> None" if "1 \<le> i" "i \<le> attempt_count c + 1" for i
    using that assms(1,2) k by (cases "i = attempt_count c + 1") (simp_all add: numbered_def)
  have last: "i = attempt_count c + 1 \<and> child c (attempt_count c + 2) = None"
    if "i \<le> attempt_count c + 1" "in_flight (child c i)" for i
  proof -
    have "i = attempt_count c + 1"
    proof (rule ccontr)
      assume "i \<noteq> attempt_count c + 1"
      then show False using numbered_last [OF assms(1), of i] that assms(2) k by simp
    qed
    moreover have "child c (attempt_count c + 2) = None" by (rule child_zero [OF assms(1)]) simp
    ultimately show ?thesis by simp
  qed
  have "numbered ?d"
  proof (rule numberedI [where a = "attempt_count c + 1"])
    show "attempt_count ?d = attempt_count c + 1" by (simp add: k)
    show "0 \<le> attempt_count c + 1" using assms(1) by (simp add: numbered_def)
    show "rm_name s = n \<and> (\<exists>i. 1 \<le> i \<and> i \<le> attempt_count c + 1 + 1 \<and> n = rem_name (c_fnd ?d) i)"
      if "c_rems ?d n = Some s" for n s
    proof -
      have "c_rems c n = Some s" using that by simp
      then show ?thesis using one unfolding nm by (simp add: add.assoc)
    qed
    show "child ?d i \<noteq> None" if "1 \<le> i" "i \<le> attempt_count c + 1" for i
      unfolding nm using ex [OF that] by simp
    show "i = attempt_count c + 1 \<and> child ?d (attempt_count c + 1 + 1) = None"
      if h: "i \<le> attempt_count c + 1" "in_flight (child ?d i)" for i
    proof -
      have "in_flight (child c i)" using h(2) unfolding nm by simp
      then show ?thesis unfolding nm using last [OF h(1)] by (simp add: add.assoc)
    qed
  qed
  then show ?thesis using False k by (simp add: leads_def count_change_def)
qed

lemma spawn_tail:
  assumes "numbered c" "rm_name r = rem_name (c_fnd c) (k + 1)" "0 \<le> k" "k \<le> attempt_count c" "\<not> in_flight (child c k)"
  shows "leads c (run_effects n [CreateRemediation r, UpdateFinding (count_change (k + 1))] c)"
proof -
  define d where "d = (if c_rems c (rm_name r) = None then c\<lparr>c_rems := (c_rems c)(rm_name r \<mapsto> r)\<rparr> else c)"
  have d: "numbered d" "c_fnd d = c_fnd c" "child d (k + 1) \<noteq> None"
    using created_numbered [OF assms] assms(1,2) by (auto simp: d_def)
  have count: "leads d (d\<lparr>c_fnd := stored (count_change (k + 1)) (c_fnd d)\<rparr>)"
    using counted_numbered [OF d(1,3)] assms(3,4) d(2) by simp
  have "run_effects n [CreateRemediation r, UpdateFinding (count_change (k + 1))] c \<in>
      {c, d, d\<lparr>c_fnd := stored (count_change (k + 1)) (c_fnd d)\<rparr>}"
  proof (cases n)
    case (Suc m)
    then show ?thesis by (cases m) (simp_all add: d_def split_beta)
  qed simp
  moreover have "leads c c" "leads c d" using assms(1) d by (simp_all add: leads_def)
  moreover have "leads c (d\<lparr>c_fnd := stored (count_change (k + 1)) (c_fnd d)\<rparr>)" using count d(2) by (simp add: leads_def)
  ultimately show ?thesis by auto
qed

text \<open>What each handler's calls are.\<close>

lemma gentle_gate: "list_all gentle (fst (gate_reconcile e seen))"
proof -
  have "list_all gentle (snd (ensureRepository e seen))"
    by (simp add: ensureRepository_def keeps_calls del: stored.simps split: option.split)
  then show ?thesis
    by (auto simp: gate_reconcile_def Let_def openInvestigation_def keeps_calls simp del: stored.simps
        split: option.split forge_answer.split prod.split bool.split)
qed

lemma gentle_hold: "holdForCredential e f att h = Inl (a, b, es) \<Longrightarrow> list_all gentle es"
  by (auto simp: holdForCredential_def Let_def keeps_calls simp del: stored.simps
      split: sum.splits if_splits option.splits prod.splits)

lemma gentle_inv: "list_all gentle (fst (inv_run_reconcile e ans create siblings seen r))"
proof -
  have fail: "list_all gentle (inv_fail e siblings r outcome detail reported t)" for outcome detail reported t
    by (simp add: inv_fail_def keeps_calls del: stored.simps)
  have app: "list_all gentle (inv_apply e siblings f r events t)" for f events t
    by (simp add: inv_apply_def fail keeps_calls del: stored.simps split: prod.split option.split)
  have "list_all gentle (fst (inv_collect e ans siblings f r))" for f
    by (simp add: inv_collect_def fail app keeps_calls del: stored.simps split: job_answer.split job_result.split prod.split)
  moreover have "list_all gentle (fst (inv_launch e create siblings rp f r))" for rp f
    by (simp add: inv_launch_def fail split: option.split sum.split prod.split)
  ultimately show ?thesis by (simp add: inv_run_reconcile_def split: option.split)
qed

lemma stamp_gentle:
  "settled_phase p \<Longrightarrow> (\<And>x. rm_name (extra x) = rm_name x \<and> rm_phase (extra x) = rm_phase x) \<Longrightarrow>
   gentle (UpdateRemediation b n (rem_stamp e rep p t extra))"
  by (simp add: rem_stamp_def Let_def)

lemma gentle_rem: "list_all gentle (fst (rem_run_reconcile e w ans create siblings seen r))"
proof -
  have st: "gentle (UpdateRemediation False n (rem_stamp e rep RunFailed t (\<lambda>x. x)))"
    "gentle (UpdateRemediation False n (rem_stamp e rep RunFailed t (mark_refused e)))"
    "gentle (UpdateRemediation False n (rem_stamp e rep RunFailed t (mark_held e s)))"
    "gentle (UpdateRemediation False n (rem_stamp e rep RunComplete t
        (\<lambda>x. x\<lparr>rm_success := False, rm_confidence := c\<rparr>)))"
    "gentle (UpdateRemediation False n (rem_stamp e rep RunComplete t (rem_pushed rep' br cm k url)))"
    for n rep t s c rep' br cm k url
    by (rule stamp_gentle; simp add: settled_phase_def mark_refused_def mark_held_def rem_pushed_def)+
  have up: "gentle (UpdateRemediation False n (rem_launched job img))" "gentle (UpdateRemediation False n rem_finalize)" for n job img
    by (simp_all add: rem_launched_def rem_finalize_def)
  have fn: "gentle (UpdateFinding (finishFinding e r rep to reason))" "gentle (UpdateFinding (rem_succeeded e r rep br k url))"
    for rep to reason br k url by (simp_all add: keeps_calls del: stored.simps)
  have fail: "list_all gentle (rem_fail e siblings r outcome detail reported t)" for outcome detail reported t
    by (simp add: rem_fail_def Let_def st fn del: gentle_simps)
  have succeed: "list_all gentle (fst (rem_succeed e w siblings seen r rep t))" for rep t
    by (simp add: rem_succeed_def Let_def fail st fn del: gentle_simps split: option.split sum.split prod.split)
  have app: "list_all gentle (fst (rem_apply e w siblings seen r events t))" for events t
    by (simp add: rem_apply_def fail succeed handOff_def st fn del: gentle_simps split: prod.split option.split)
  have "list_all gentle (fst (rem_collect e w ans siblings seen r))"
    by (simp add: rem_collect_def fail app sandboxRefused_def Let_def st fn del: gentle_simps
        split: job_answer.split job_result.split prod.split)
  moreover have "list_all gentle (fst (rem_create e create siblings r sp))" for sp
    by (simp add: rem_create_def fail up del: gentle_simps split: launch_answer.split)
  then have "list_all gentle (fst (rem_launch e create siblings seen r))"
    by (simp add: rem_launch_def Let_def fail holdForImage_def st fn del: gentle_simps split: option.split prod.split)
  ultimately show ?thesis by (simp add: rem_run_reconcile_def up del: gentle_simps split: option.split)
qed

lemma keeps_unchanged: "keeps_change f c \<Longrightarrow> keeps g (stored (unchanged f c) g)"
  by (cases c) (auto simp: unchanged_def keeps_change_def)

lemma gentle_enhance: "list_all gentle (fst (enhance_reconcile e as seen))"
proof -
  have w: "keeps f (with_repository rp f)" for rp f by (simp add: with_repository_def keeps_def)
  have en: "keeps_change f (enhanced_change m now out f)" for m now out f
    unfolding enhanced_change_def by (rule keeps_phase_then) (simp_all add: keeps_def add_condition_def)
  show ?thesis
    by (auto simp: enhance_reconcile_def Let_def w en intro!: keeps_unchanged simp del: stored.simps)
qed

lemma gentle_window: "list_all gentle (fst (closeAccumulation m now f))"
  by (auto simp: closeAccumulation_def intro!: keeps_unchanged simp del: stored.simps split: option.split)

lemma hold_shape:
  "holdForCredential e f att h = Inl (a, b, es) \<Longrightarrow> es = [] \<or> (\<exists>v. es = [UpdateFinding (hold_change e v)])"
  by (auto simp: holdForCredential_def Let_def split: sum.splits if_splits option.splits prod.splits)

abbreviation spawn_calls :: "rem_run \<Rightarrow> int \<Rightarrow> effect list" where
  "spawn_calls r k \<equiv> [CreateRemediation r, UpdateFinding (count_change k)]"

lemma spawn_shape:
  obtains (held) es where "fst (spawn e seen) = es" "es = [] \<or> (\<exists>v. es = [UpdateFinding (hold_change e v)])"
  | (bred) es r where "fst (spawn e seen) = es @ spawn_calls r (i32 (attempt_count seen + 1))"
      "es = [] \<or> (\<exists>v. es = [UpdateFinding (hold_change e v)])"
      "rm_name r = rem_name (c_fnd seen) (i32 (attempt_count seen + 1))"
      "0 < attempt_count seen \<longrightarrow> \<not> in_flight (child seen (attempt_count seen))"
proof (cases "investigation (status (c_fnd seen)) \<noteq> None \<and> repository (spec (c_fnd seen)) \<noteq> None")
  case False
  then have "fst (spawn e seen) = []" by (auto simp: spawn_def Let_def split: option.split)
  then show ?thesis by (rule held) simp
next
  case True
  then obtain s rp where s: "investigation (status (c_fnd seen)) = Some s" "repository (spec (c_fnd seen)) = Some rp" by auto
  let ?busy = "0 < attempt_count seen \<and> (case child seen (attempt_count seen) of
      None \<Rightarrow> False | Some cur \<Rightarrow> rm_phase cur \<noteq> RunFailed \<and> rm_phase cur \<noteq> RunComplete)"
  have busy: "?busy \<longleftrightarrow> 0 < attempt_count seen \<and> in_flight (child seen (attempt_count seen))"
    by (auto simp: in_flight_def settled_phase_def split: option.split)
  show ?thesis
  proof (cases ?busy)
    case True
    then have "fst (spawn e seen) = []" by (simp add: spawn_def Let_def s)
    then show ?thesis by (rule held) simp
  next
    case nb: False
    let ?attempt = "i32 (attempt_count seen + 1)"
    let ?suggested = "case c_invs seen (is_name s) of
                   None \<Rightarrow> empty_params
                 | Some iv \<Rightarrow> (case iv_remediationParameters iv of None \<Rightarrow> empty_params | Some p \<Rightarrow> p)"
    let ?p1 = "resolveParams e ?suggested"
    let ?params = "case resolveGrant e (estimate ?p1) (spec_approval (spec (c_fnd seen)) \<noteq> None) of
                   (t, b) \<Rightarrow> ?p1\<lparr>maxTurns := t, tokenBudget := b\<rparr>"
    let ?hold = "holdForCredential e (c_fnd seen) (Stamp (se_attribution e) (Some (Attribute (c_fnd seen)))) (harness ?params)"
    have sp: "spawn e seen = (case ?hold of
                  Inr err \<Rightarrow> ([], Errored err)
                | Inl (att, True, es) \<Rightarrow> (es, LookAgain CredentialRecheck)
                | Inl (att, False, es) \<Rightarrow>
                    (es @ spawn_calls (new_remediation e (c_fnd seen) s ?attempt ?params att
                        (spawn_previous (se_meta e) seen (c_fnd seen) (nat (attempt_count seen)))) ?attempt, Settled))"
      unfolding spawn_def Let_def s prod.case option.case if_not_P [OF nb] by (rule refl)
    show ?thesis
    proof (cases ?hold)
      case (Inr err)
      then show ?thesis using sp held [of "[]"] by simp
    next
      case (Inl x)
      obtain att b es where x: "x = (att, b, es)" by (cases x)
      note hs = hold_shape [OF Inl [unfolded x]]
      show ?thesis
      proof (cases b)
        case True
        then have "fst (spawn e seen) = es" unfolding sp Inl x by simp
        then show ?thesis using hs by (rule held)
      next
        case False
        then have "fst (spawn e seen) = es @ spawn_calls (new_remediation e (c_fnd seen) s ?attempt ?params att
                        (spawn_previous (se_meta e) seen (c_fnd seen) (nat (attempt_count seen)))) ?attempt"
          unfolding sp Inl x by simp
        then show ?thesis by (rule bred) (use hs nb busy in \<open>auto simp: new_remediation_def\<close>)
      qed
    qed
  qed
qed

lemma leads_trans: "leads c d \<Longrightarrow> leads d e \<Longrightarrow> leads c e"
  by (simp add: leads_def)

lemma run_one_more:
  "run_effects (Suc m) (UpdateFinding w # ts) c \<in>
     {c\<lparr>c_fnd := stored w (c_fnd c)\<rparr>, run_effects m ts (c\<lparr>c_fnd := stored w (c_fnd c)\<rparr>)}"
  by (cases "w (c_fnd c)") simp_all

lemma spawn_leads:
  assumes "numbered c" "f_name (c_fnd seen) = f_name (c_fnd c)" "0 \<le> attempt_count seen"
    "attempt_count seen \<le> attempt_count c" "attempt_count c < 2147483647" "c_rems seen = c_rems c"
  shows "leads c (run_effects n (fst (spawn e seen)) c)"
proof (cases rule: spawn_shape [of e seen])
  case (held es)
  then show ?thesis using gentle_leads [OF _ assms(1), of es n] by (auto simp: keeps_calls simp del: stored.simps)
next
  case (bred es r)
  let ?k = "attempt_count seen"
  have k: "i32 (?k + 1) = ?k + 1" using assms(3-5) by (intro i32_id) auto
  have nm: "rem_name (c_fnd seen) i = rem_name (c_fnd c) i" for i by (rule rem_name_cong [OF assms(2)])
  have nf: "\<not> in_flight (child c ?k)"
  proof (cases "0 < ?k")
    case True
    then show ?thesis using bred(4) assms(6) by (simp add: nm)
  next
    case False
    then show ?thesis using child_zero [OF assms(1), of ?k] by (simp add: in_flight_def)
  qed
  have tail: "leads d (run_effects m (spawn_calls r (?k + 1)) d)"
    if "numbered d" "f_name (c_fnd d) = f_name (c_fnd c)" "attempt_count d = attempt_count c" "c_rems d = c_rems c" for d m
  proof (rule spawn_tail [OF that(1)])
    have nd: "rem_name (c_fnd d) i = rem_name (c_fnd c) i" for i by (rule rem_name_cong [OF that(2)])
    show "rm_name r = rem_name (c_fnd d) (?k + 1)" using bred(3) unfolding k nm nd .
    show "\<not> in_flight (child d ?k)" unfolding nd that(4) by (rule nf)
  qed (use assms that in simp_all)
  have eq: "fst (spawn e seen) = es @ spawn_calls r (?k + 1)" using bred(1) k by simp
  show ?thesis
  proof (cases "es = []")
    case True
    then show ?thesis unfolding eq using tail [OF assms(1)] by simp
  next
    case False
    then obtain v where es: "es = [UpdateFinding (hold_change e v)]" using bred(2) by blast
    let ?d = "c\<lparr>c_fnd := stored (hold_change e v) (c_fnd c)\<rparr>"
    have kp: "keeps (c_fnd c) (stored (hold_change e v) (c_fnd c))" by (rule keeps_calls)
    have d: "numbered ?d" "leads c ?d"
      using numbered_finding [OF kp] assms(1) kp by (simp_all add: leads_def keeps_def del: stored.simps)
    show ?thesis
    proof (cases n)
      case 0
      then show ?thesis using assms(1) by (simp add: eq es leads_def)
    next
      case (Suc m)
      have "run_effects n (fst (spawn e seen)) c \<in> {?d, run_effects m (spawn_calls r (?k + 1)) ?d}"
        unfolding eq es Suc append_Cons append_Nil by (rule run_one_more)
      moreover have "leads ?d (run_effects m (spawn_calls r (?k + 1)) ?d)"
      proof (rule tail [OF d(1)])
        show "f_name (c_fnd ?d) = f_name (c_fnd c)" "attempt_count ?d = attempt_count c"
          using kp unfolding keeps_def by simp_all
      qed simp
      ultimately show ?thesis using d(2) leads_trans by (elim insertE emptyE) simp_all
    qed
  qed
qed

lemma spawner_leads:
  assumes "numbered c" "f_name (c_fnd seen) = f_name (c_fnd c)" "0 \<le> attempt_count seen"
    "attempt_count seen \<le> attempt_count c" "attempt_count c < 2147483647" "c_rems seen = c_rems c"
  shows "leads c (run_effects n (fst (spawner_reconcile e seen)) c)"
proof -
  have one: "leads c (run_effects n es c)" if "list_all gentle es" for es by (rule gentle_leads [OF that assms(1)])
  have g: "list_all gentle [UpdateFinding (admit_change e p)]"
    "list_all gentle [UpdateFinding (retry_change (se_meta e) (se_now e) to)]" "list_all gentle []" for p to
    by (simp_all add: keeps_calls del: stored.simps)
  have "spawner_reconcile e seen = spawn e seen \<or> list_all gentle (fst (spawner_reconcile e seen))"
    using g unfolding spawner_reconcile_def Let_def by (simp only: if_split fst_conv split: phase.split) simp
  then show ?thesis
  proof
    assume "spawner_reconcile e seen = spawn e seen"
    then show ?thesis using spawn_leads [OF assms] by simp
  qed (rule one)
qed

lemma moves_leads:
  assumes "numbered c" "keeps (c_fnd c) g"
  shows "leads c (c\<lparr>c_fnd := g\<rparr>)"
  using numbered_finding [OF assms(2)] assms by (simp add: leads_def keeps_def)

lemma action_keeps: "ApplyWithID m f verb user idn msg now = (g, changed, err) \<Longrightarrow> keeps f g"
  using action_frame [of m f verb user idn msg now g changed err] by (simp add: keeps_def)

lemma fold_keeps: "fold_alert ob f = Folded g \<Longrightarrow> keeps f g"
  using fold_alert_frame [of ob f g] by (simp add: keeps_def)

lemma step_leads:
  assumes "step closes True h c" "h \<noteq> []" "numbered (hd h)" "attempt_count (hd h) < 2147483647"
    and "\<forall>d\<in>set h. f_name (c_fnd d) = f_name (c_fnd (hd h)) \<and> 0 \<le> attempt_count d \<and> attempt_count d \<le> attempt_count (hd h)"
  shows "leads (hd h) c"
proof -
  have one: "leads (hd h) (run_effects n es (hd h))" if "list_all gentle es" for n es
    by (rule gentle_leads [OF that assms(3)])
  have kp: "leads (hd h) (run_effects n [UpdateFinding w] (hd h))" if "\<And>f. keeps f (stored w f)" for n w
    by (rule one) (simp add: that del: stored.simps)
  from assms(1) show ?thesis
  proof cases
    case (spawner s n se)
    have s: "c_fnd s \<in> c_fnd ` set h" "c_rems s = c_rems (hd h)" using spawner(2) by (simp_all add: sees_def)
    then obtain d where d: "d \<in> set h" "c_fnd s = c_fnd d" by auto
    show ?thesis unfolding spawner(1)
      by (rule spawner_leads [OF assms(3)]) (use assms(4,5) d s(2) in auto)
  next
    case (grant_remediation n re name)
    show ?thesis unfolding grant_remediation
      by (rule one) (simp add: grant_effects_def keeps_calls rem_grant_def rem_waiting_def settled_phase_def del: stored.simps(1),
        auto simp: rem_grant_def rem_waiting_def settled_phase_def)
  next
    case (mark_remediation n name re)
    show ?thesis unfolding mark_remediation by (rule one) (auto simp: rem_mark_paused_def split: prod.splits)
  next
    case (act m verb user idn msg now g changed err)
    then show ?thesis using moves_leads [OF assms(3) action_keeps] by simp
  next
    case (fold ob g)
    then show ?thesis using moves_leads [OF assms(3) fold_keeps] by simp
  next
    case (repository rp)
    have "numbered ((hd h)\<lparr>c_repo := rp\<rparr>) = numbered (hd h)" by (simp add: numbered_def)
    then show ?thesis using repository assms(3) by (simp add: leads_def)
  qed (auto intro!: one kp gentle_enhance gentle_window gentle_gate gentle_inv gentle_rem simp: keeps_signals simp del: stored.simps)
qed

text \<open>
  C3. At most one remediation of a finding is in flight, and no attempt is skipped or doubled: with caches
  of the runs that show every run (the cache of findings may lag), the children of a finding are numbered
  from 1 without a gap up to its attempt count, or one past it between the create and the count, and two
  that are both unsettled are the same one, whatever crashes.
\<close>

theorem single_flight:
  assumes "life (new_cluster stamped) closes True h" "\<forall>c\<in>set h. attempt_count c < 2147483647"
  shows "(\<forall>n m. in_flight (c_rems (hd h) n) \<longrightarrow> in_flight (c_rems (hd h) m) \<longrightarrow> n = m) \<and>
    (\<forall>k. 1 \<le> k \<and> k \<le> attempt_count (hd h) \<longrightarrow> child (hd h) k \<noteq> None) \<and>
    (\<forall>n r. c_rems (hd h) n = Some r \<longrightarrow>
       (\<exists>k. 1 \<le> k \<and> k \<le> attempt_count (hd h) + 1 \<and> n = rem_name (c_fnd (hd h)) k))"
proof -
  have "numbered (hd h) \<and> (\<forall>d\<in>set h. f_name (c_fnd d) = f_name (c_fnd (hd h)) \<and> 0 \<le> attempt_count d \<and>
      attempt_count d \<le> attempt_count (hd h))"
    using assms
  proof (induction rule: life.induct)
    case (start c)
    have "attempt_count c = 0 \<and> c_rems c = (\<lambda>_. None)"
      using start(1) by (auto simp: new_cluster_def created_def Let_def new_finding_def init_status_def phase_then_def
          SetPhase_def CanTransition_def fresh_status_def)
    then show ?case by (simp add: numbered_def in_flight_def)
  next
    case (advance h c)
    have ne: "h \<noteq> []" by (rule life_nonempty [OF advance(1)])
    have IH: "numbered (hd h)" "\<forall>d\<in>set h. f_name (c_fnd d) = f_name (c_fnd (hd h)) \<and> 0 \<le> attempt_count d \<and>
        attempt_count d \<le> attempt_count (hd h)" using advance(3,4) by simp_all
    have "leads (hd h) c" using step_leads [OF advance(2) ne IH(1) _ IH(2)] advance(4) ne by simp
    then have l: "numbered c" "f_name (c_fnd c) = f_name (c_fnd (hd h))" "attempt_count (hd h) \<le> attempt_count c"
      by (simp_all add: leads_def)
    then have "0 \<le> attempt_count c" by (simp add: numbered_def)
    then show ?case using IH(2) l by force
  qed
  then have n: "numbered (hd h)" by simp
  show ?thesis using numbered_one [OF n] numbered_name [OF n] n by (auto simp: numbered_def)
qed

lemma single_flight_witness: "c_rems (demo_closed True) [] = None"
proof -
  have f: "keeps (c_fnd (demo_created True)) (c_fnd (demo_closed True))"
    by (simp add: demo_closed_def run_effects.simps keeps_signals apply_effect_fnd One_nat_def split_beta
        del: stored.simps apply_effect.simps)
  have z: "attempt_count (demo_created True) = 0"
    by (simp add: demo_created_def created_def Let_def new_finding_def init_status_def phase_then_def SetPhase_def
        CanTransition_def fresh_status_def)
  have "\<forall>c\<in>set [demo_closed True, demo_created True]. attempt_count c < 2147483647"
    using f z by (simp add: keeps_def)
  from single_flight [OF demo_closed_life this] show ?thesis
    by (cases "c_rems (demo_closed True) []") (auto simp: rem_name_def)
qed

subsection \<open>A cache that lags\<close>

lemma unenforced_hold:
  "\<not> Enforced (se_credentials e) \<Longrightarrow> \<exists>att es. holdForCredential e f a h = Inl (att, False, es)"
  by (simp add: holdForCredential_def no_verdict_def Let_def split: option.split)

text \<open>
  C33. A lagging cache breeds a sibling. The spawner takes an attempt its cache does not show for a settled
  one: while the latest remediation of a queued finding is in flight but not yet in the cache, the reconcile
  creates the next attempt beside it, and both are in flight, although its comment says that a pending or
  running child must not breed a sibling.
\<close>

theorem lagging_cache_breeds_sibling:
  assumes "phase (status (c_fnd c)) = PhaseQueued" "\<not> f_deleting (c_fnd c)" "\<not> suspend (spec (c_fnd c))"
    and "investigation (status (c_fnd c)) \<noteq> None" "repository (spec (c_fnd c)) \<noteq> None"
    and "\<not> Enforced (se_credentials e)" "attempt_count c = k" "0 < k" "k < 2147483647"
    and "in_flight (child c k)" "child c (k + 1) = None"
    and "seen = c\<lparr>c_rems := (c_rems c)(rem_name (c_fnd c) k := None)\<rparr>"
  shows "let d = run_effects 3 (fst (spawner_reconcile e seen)) c in in_flight (child d k) \<and> in_flight (child d (k + 1))"
proof -
  obtain s rp where s: "investigation (status (c_fnd c)) = Some s" "repository (spec (c_fnd c)) = Some rp" using assms(4,5) by auto
  have seen: "c_fnd seen = c_fnd c" "child seen k = None" using assms(12) by simp_all
  have k1: "i32 (k + 1) = k + 1" using assms(8,9) by (intro i32_id) auto
  obtain r es where sp: "fst (spawner_reconcile e seen) = es @ spawn_calls r (k + 1)" "rm_phase r = RunUnset"
    "rm_name r = rem_name (c_fnd c) (k + 1)" "es = [] \<or> (\<exists>v. es = [UpdateFinding (hold_change e v)])"
  proof -
    let ?suggested = "case c_invs seen (is_name s) of
                   None \<Rightarrow> empty_params
                 | Some iv \<Rightarrow> (case iv_remediationParameters iv of None \<Rightarrow> empty_params | Some p \<Rightarrow> p)"
    let ?p1 = "resolveParams e ?suggested"
    let ?params = "case resolveGrant e (estimate ?p1) (spec_approval (spec (c_fnd c)) \<noteq> None) of
                   (t, b) \<Rightarrow> ?p1\<lparr>maxTurns := t, tokenBudget := b\<rparr>"
    obtain att es where h: "holdForCredential e (c_fnd c) (Stamp (se_attribution e) (Some (Attribute (c_fnd c)))) (harness ?params) =
        Inl (att, False, es)" using unenforced_hold [OF assms(6)] by blast
    let ?r = "new_remediation e (c_fnd c) s (k + 1) ?params att (spawn_previous (se_meta e) seen (c_fnd c) (nat k))"
    have nb: "\<not> (0 < k \<and> (case child seen k of None \<Rightarrow> False | Some cur \<Rightarrow> rm_phase cur \<noteq> RunFailed \<and> rm_phase cur \<noteq> RunComplete))"
      using seen(2) by simp
    have "spawn e seen = (es @ spawn_calls ?r (k + 1), Settled)"
      using nb h unfolding spawn_def Let_def seen(1) assms(7) s prod.case option.case k1 by simp
    then have "fst (spawner_reconcile e seen) = es @ spawn_calls ?r (k + 1)"
      using assms(1-3) by (simp add: spawner_reconcile_def Let_def seen(1))
    then show ?thesis by (rule that) (use hold_shape [OF h] in \<open>simp_all add: new_remediation_def\<close>)
  qed
  have tail: "c_rems (run_effects (Suc (Suc m)) (spawn_calls r (k + 1)) d) = (c_rems d)(rm_name r \<mapsto> r) \<and>
      f_name (c_fnd (run_effects (Suc (Suc m)) (spawn_calls r (k + 1)) d)) = f_name (c_fnd d)"
    if "c_rems d (rm_name r) = None" for m d
    using that by (simp add: count_change_def split_beta)
  have both: "in_flight (child d k) \<and> in_flight (child d (k + 1))"
    if "c_rems d = (c_rems c)(rm_name r \<mapsto> r)" "f_name (c_fnd d) = f_name (c_fnd c)" for d
  proof -
    have nd: "rem_name (c_fnd d) i = rem_name (c_fnd c) i" for i by (rule rem_name_cong [OF that(2)])
    have ri: "in_flight (Some r)" by (simp add: in_flight_def settled_phase_def sp(2))
    have ne: "rem_name (c_fnd c) k \<noteq> rem_name (c_fnd c) (k + 1)" by (simp add: rem_name_inj)
    show ?thesis unfolding nd that(1) sp(3) using ne ri assms(10) by simp
  qed
  have "in_flight (child (run_effects 3 (fst (spawner_reconcile e seen)) c) k) \<and>
      in_flight (child (run_effects 3 (fst (spawner_reconcile e seen)) c) (k + 1))"
  proof (rule both)
    have three: "3 = Suc (Suc (Suc 0))" by simp
    have free: "c_rems c (rm_name r) = None" using assms(11) sp(3) by simp
    have "c_rems (run_effects 3 (fst (spawner_reconcile e seen)) c) = (c_rems c)(rm_name r \<mapsto> r) \<and>
      f_name (c_fnd (run_effects 3 (fst (spawner_reconcile e seen)) c)) = f_name (c_fnd c)"
    proof (cases "es = []")
      case True
      then show ?thesis unfolding sp(1) three append_Nil using tail [OF free, of "Suc 0"] by simp
    next
      case False
      then obtain v where es: "es = [UpdateFinding (hold_change e v)]" using sp(4) by blast
      let ?d = "c\<lparr>c_fnd := stored (hold_change e v) (c_fnd c)\<rparr>"
      have "hold_change e v (c_fnd c) \<noteq> Fail x" for x by (simp add: hold_change_def Let_def)
      then have "run_effects 3 (fst (spawner_reconcile e seen)) c = run_effects (Suc (Suc 0)) (spawn_calls r (k + 1)) ?d"
        unfolding sp(1) es three append_Cons append_Nil run_effects.simps(3) [of "Suc (Suc 0)" "UpdateFinding w" for w] apply_effect.simps
        by (simp split: change.split del: run_effects.simps stored.simps)
      moreover have "keeps (c_fnd c) (stored (hold_change e v) (c_fnd c))" by (rule keeps_calls)
      then have "f_name (c_fnd ?d) = f_name (c_fnd c)" unfolding keeps_def by simp
      ultimately show ?thesis using tail [of ?d 0] free by (simp del: run_effects.simps stored.simps)
    qed
    then show "c_rems (run_effects 3 (fst (spawner_reconcile e seen)) c) = (c_rems c)(rm_name r \<mapsto> r)"
      "f_name (c_fnd (run_effects 3 (fst (spawner_reconcile e seen)) c)) = f_name (c_fnd c)" by blast+
  qed
  then show ?thesis by (simp add: Let_def)
qed

definition demo_summary :: investigation_summary where
  "demo_summary = \<lparr>is_name = ''finding-ab-1-inv-1'', is_attempt = 1, is_outcome = ''ok'',
     is_recommendation = RecommendationRemediate, is_confidence = ''0.9000'', is_exploitability = RatingHigh,
     is_likelihood = RatingHigh, is_impact = RatingHigh, is_awaitApproval = False, is_holdReasons = [],
     is_estimate = None, is_runnerImage = None, is_completedAt = None\<rparr>"

definition demo_bred :: finding where
  "demo_bred = demo_review\<lparr>spec := (spec demo_review)\<lparr>repository := Some \<lparr>repo_type = ''github'', repo_url = ''u'',
       repo_name = ''o/r'', defaultBranch = []\<rparr>\<rparr>,
     status := fresh_status\<lparr>phase := PhaseQueued, investigation := Some demo_summary,
       attempts := \<lparr>att_investigation = 1, att_remediation = 1\<rparr>\<rparr>\<rparr>"

definition demo_child :: rem_run where
  "demo_child = new_remediation demo_spawner demo_bred demo_summary 1 empty_params None None"

definition demo_bred_cluster :: cluster where
  "demo_bred_cluster = \<lparr>c_fnd = demo_bred, c_invs = (\<lambda>_. None), c_rems = [rem_name demo_bred 1 \<mapsto> demo_child], c_repo = None\<rparr>"

lemma lagging_cache_breeds_sibling_witness:
  "in_flight (child (run_effects 3 (fst (spawner_reconcile demo_spawner
     (demo_bred_cluster\<lparr>c_rems := (c_rems demo_bred_cluster)(rem_name (c_fnd demo_bred_cluster) 1 := None)\<rparr>)))
     demo_bred_cluster) 2)"
  using lagging_cache_breeds_sibling [OF _ _ _ _ _ _ _ _ _ _ _ refl, of demo_bred_cluster demo_spawner 1]
  by (simp add: demo_bred_cluster_def demo_bred_def demo_review_def demo_spawner_def fresh_status_def Enforced_def
      in_flight_def settled_phase_def demo_child_def new_remediation_def rem_name_inj Let_def)

end
