(* ===== verification/Slots.thy ===== *)
theory Slots
  imports Flight
begin

text \<open>
  Both run schedulers (\<open>inv_schedule\<close>, \<open>rem_schedule\<close>) bound the runs that hold a slot. What they share is
  the locale \<open>slots\<close>: a grant starts only a run that waits and keeps its name; the bound follows from the
  number of names \<open>Pick\<close> returns, whatever the kind of run.
\<close>

locale slots =
  fixes rname :: "'r \<Rightarrow> string" and rphase :: "'r \<Rightarrow> run_phase" and grant :: "'r \<Rightarrow> 'r" and mark :: "'r \<Rightarrow> 'r"
  assumes grant_name: "rname (grant r) = rname r"
    and grant_phase: "rphase (grant r) = (if rphase r = RunPending \<or> rphase r = RunUnset then RunRunning else rphase r)"
    and mark_name: "rname (mark r) = rname r" and mark_phase: "rphase (mark r) = rphase r"
begin

definition held :: "'r list \<Rightarrow> nat" where
  "held rs = length (filter (\<lambda>r. rphase r = RunRunning) rs)"

definition granted :: "string list \<Rightarrow> 'r list \<Rightarrow> 'r list" where
  "granted names rs = map (\<lambda>r. if rname r \<in> set names then grant r else r) rs"

lemma held_mark: "held (map mark rs) = held rs"
  by (induction rs) (simp_all add: held_def mark_phase)

lemma names_mark: "map rname (map mark rs) = map rname rs"
  by (simp add: mark_name)

lemma held_granted_count:
  "held (granted names rs) \<le> held rs + length (filter (\<lambda>n. n \<in> set names) (map rname rs))"
  by (induction rs) (auto simp: held_def granted_def grant_phase split: if_splits)

lemma held_granted:
  assumes "distinct (map rname rs)"
  shows "held (granted names rs) \<le> held rs + length names"
proof -
  let ?f = "filter (\<lambda>n. n \<in> set names) (map rname rs)"
  have "length ?f = card (set ?f)" by (rule distinct_card [symmetric]) (use assms in simp)
  also have "\<dots> \<le> card (set names)" by (intro card_mono) auto
  also have "\<dots> \<le> length names" by (rule card_length)
  finally show ?thesis using held_granted_count [of names rs] by linarith
qed

lemma granted_frame:
  "map rname (granted names rs) = map rname rs \<and>
   (\<forall>i<length rs. rphase (granted names rs ! i) = rphase (rs ! i) \<or>
      rphase (granted names rs ! i) = RunRunning \<and> rname (rs ! i) \<in> set names \<and>
      (rphase (rs ! i) = RunPending \<or> rphase (rs ! i) = RunUnset))"
  by (auto simp: granted_def grant_name grant_phase)

lemma slot_bound:
  assumes "distinct (map rname rs)" "int (length names) \<le> max 0 (limit - int (held rs))"
  shows "int (held (granted names (map mark rs))) \<le> max (int (held rs)) limit"
proof -
  have "distinct (map rname (map mark rs))" using assms(1) by (simp only: names_mark)
  then have "held (granted names (map mark rs)) \<le> held rs + length names"
    using held_granted [of "map mark rs" names] by (simp only: held_mark)
  then show ?thesis using assms(2) by linarith
qed

end

lemma Pick_length: "int (length (Pick pending n now p)) \<le> max 0 n"
  by (auto simp: Pick_def Let_def)

interpretation inv_slots: slots iv_name iv_phase "stored inv_grant" "\<lambda>r. fst (inv_mark_paused e r)" for e
  by unfold_locales (auto simp: inv_grant_def inv_waiting_def inv_mark_paused_def split: prod.split)

interpretation rem_slots: slots rm_name rm_phase "stored (rem_grant e)" "\<lambda>r. fst (rem_mark_paused e r)" for e
  by unfold_locales (auto simp: rem_grant_def rem_waiting_def rem_mark_paused_def split: prod.split)

definition running_invs :: "inv_run list \<Rightarrow> int" where
  "running_invs rs = int (length (filter (\<lambda>r. iv_phase r = RunRunning) rs))"

definition running_rems :: "rem_run list \<Rightarrow> int" where
  "running_rems rs = int (length (filter (\<lambda>r. rm_phase r = RunRunning) rs))"

text \<open>
  No more investigations run at once than the operator allows. A pass of the scheduler over runs with
  distinct names leaves at most the configured number running (3 when unset), or as many as ran before
  when the limit was lowered; it starts none while agents are paused or while it lifts a pause's marks; and
  it changes the phase of no run but a waiting one, which it sets running.
\<close>

theorem investigation_slots:
  assumes "inv_schedule e rs = (rs', next_look)" "distinct (map iv_name rs)"
  shows "running_invs rs' \<le> max (running_invs rs) (if ie_maxConcurrent e \<le> 0 then 3 else ie_maxConcurrent e) \<and>
    map iv_name rs' = map iv_name rs \<and> (ie_paused e \<longrightarrow> running_invs rs' = running_invs rs) \<and>
    (\<forall>i<length rs. iv_phase (rs' ! i) = iv_phase (rs ! i) \<or> iv_phase (rs' ! i) = RunRunning \<and> inv_waiting (rs ! i))"
proof -
  let ?limit = "if ie_maxConcurrent e \<le> 0 then 3 else ie_maxConcurrent e"
  let ?marked = "map (\<lambda>r. fst (inv_mark_paused e r)) rs"
  have h: "running_invs xs = int (inv_slots.held xs)" for xs
    unfolding inv_slots.held_def running_invs_def by (rule refl)
  have m: "map iv_name ?marked = map iv_name rs" "running_invs ?marked = running_invs rs"
    using inv_slots.names_mark [where e = e] inv_slots.held_mark [where e = e] h by simp_all
  have ph: "\<forall>i<length rs. iv_phase (?marked ! i) = iv_phase (rs ! i)"
    using inv_slots.mark_phase [where e = e] by simp
  have fm: "map fst (map (inv_mark_paused e) rs) = ?marked" by simp
  consider "rs' = ?marked" | names where "\<not> ie_paused e"
    "names = Pick (inv_candidates e rs) (?limit - running_invs rs) (ie_now e) (ie_aging e)"
    "rs' = inv_slots.granted names ?marked"
  proof (cases "ie_paused e \<or> list_ex snd (map (inv_mark_paused e) rs)")
    case True
    then have "rs' = ?marked" using assms(1) unfolding inv_schedule_def Let_def fm by (auto split: if_splits)
    then show ?thesis by (rule that(1))
  next
    case False
    then have "inv_schedule e rs = (inv_slots.granted (Pick (inv_candidates e rs) (?limit - running_invs rs) (ie_now e) (ie_aging e)) ?marked,
        LookAgain (5 * nano_minute))"
      unfolding inv_schedule_def Let_def fm inv_slots.granted_def running_invs_def by simp
    then show ?thesis using that(2) [OF _ refl] assms(1) False by simp
  qed
  then show ?thesis
  proof cases
    case 1
    then show ?thesis using m ph by simp
  next
    case 2
    have "int (length names) \<le> max 0 (?limit - int (inv_slots.held rs))"
      unfolding 2(2) h [symmetric] by (rule Pick_length)
    then have "running_invs rs' \<le> max (running_invs rs) ?limit"
      using inv_slots.slot_bound [OF assms(2), of names ?limit e] by (simp only: h 2(3))
    moreover have "map iv_name rs' = map iv_name rs" using inv_slots.granted_frame [of names ?marked] m(1) 2(3) by simp
    moreover have "iv_phase (rs' ! i) = iv_phase (rs ! i) \<or> iv_phase (rs' ! i) = RunRunning \<and> inv_waiting (rs ! i)"
      if "i < length rs" for i
    proof -
      have "i < length ?marked" using that by simp
      from inv_slots.granted_frame [of names ?marked, THEN conjunct2, rule_format, OF this] ph [rule_format, OF that]
      show ?thesis unfolding 2(3) inv_waiting_def by metis
    qed
    ultimately show ?thesis using 2(1) by simp
  qed
qed

definition demo_run :: "string \<Rightarrow> inv_run" where
  "demo_run n = demo_inv\<lparr>iv_name := n, iv_phase := RunUnset\<rparr>"

lemma investigation_slots_witness:
  "running_invs (fst (inv_schedule demo_investigator [demo_run ''a'', demo_run ''b''])) \<le> 1"
  using investigation_slots [of demo_investigator "[demo_run ''a'', demo_run ''b'']" _
      "snd (inv_schedule demo_investigator [demo_run ''a'', demo_run ''b''])", OF prod.collapse [symmetric]]
  by (simp add: demo_run_def demo_investigator_def running_invs_def)


definition demo_remediator :: remediate_env where
  "demo_remediator = \<lparr>re_meta = demo_meta, re_now = 9, re_maxConcurrent = 0, re_paused = False, re_maxAttempts = 2,
     re_aging = demo_aging, re_enabled = [], re_guard = \<lparr>g_enabled = False, g_tripped = False\<rparr>,
     re_maxChangesetEntries = 0, re_expedited = (\<lambda>_. False), re_lower = (\<lambda>s. s), re_proxyForms = [],
     re_render = (\<lambda>_. None), re_commitMessage = (\<lambda>s. s), re_errorText = (\<lambda>_. [])\<rparr>"


end
