(* ===== verification/TunnelBudget.thy ===== *)
theory TunnelBudget
  imports Complex_Main Prelude
begin

text \<open>
  The CONNECT tunnel's byte budgets (\<open>internal/egressproxy/tunnellimits.go\<close>): the defaults and floor of
  the limits, and the per-profile table of per-source budgets. A tunnel holds a pointer to its
  source's entry while the table may forget entries, so entries live at addresses of a store and the
  table maps a source to an address. The table is a transition system of tunnels opening, spending
  and closing; \<open>table_ok\<close> is its invariant.
\<close>

subsection \<open>Limits\<close>

record tunnel_limits =
  tl_maxConcurrent :: int
  tl_perSourceConcurrent :: int
  tl_perSourceRate :: rat
  tl_perSourceBurst :: int
  tl_wait :: duration
  tl_dialTimeout :: duration
  tl_helloTimeout :: duration
  tl_idleTimeout :: duration
  tl_maxDuration :: duration
  tl_maxUploadBytes :: int
  tl_maxDownloadBytes :: int
  tl_sourceUploadBudget :: int
  tl_sourceDownloadBudget :: int
  tl_sourceBudgetIdle :: duration
  tl_minBudgetIdle :: duration
  tl_maxSources :: int
  tl_progressInterval :: duration

definition orDefault :: "'a :: {zero, ord} \<Rightarrow> 'a \<Rightarrow> 'a" where
  "orDefault v d = (if v \<le> 0 then d else v)"

definition filledLimits :: "tunnel_limits \<Rightarrow> tunnel_limits" where
  "filledLimits l =
     \<lparr>tl_maxConcurrent = orDefault (tl_maxConcurrent l) 512,
      tl_perSourceConcurrent = orDefault (tl_perSourceConcurrent l) 64,
      tl_perSourceRate = orDefault (tl_perSourceRate l) 50,
      tl_perSourceBurst = orDefault (tl_perSourceBurst l) 200,
      tl_wait = orDefault (tl_wait l) (10 * nano_second),
      tl_dialTimeout = orDefault (tl_dialTimeout l) (10 * nano_second),
      tl_helloTimeout = orDefault (tl_helloTimeout l) (10 * nano_second),
      tl_idleTimeout = orDefault (tl_idleTimeout l) (2 * nano_minute),
      tl_maxDuration = orDefault (tl_maxDuration l) (30 * nano_minute),
      tl_maxUploadBytes = orDefault (tl_maxUploadBytes l) 1048576,
      tl_maxDownloadBytes = orDefault (tl_maxDownloadBytes l) 2147483648,
      tl_sourceUploadBudget = orDefault (tl_sourceUploadBudget l) 8388608,
      tl_sourceDownloadBudget = orDefault (tl_sourceDownloadBudget l) 8589934592,
      tl_sourceBudgetIdle = orDefault (tl_sourceBudgetIdle l) (2 * nano_hour),
      tl_minBudgetIdle = orDefault (tl_minBudgetIdle l) (2 * nano_hour),
      tl_maxSources = orDefault (tl_maxSources l) 4096,
      tl_progressInterval = (if tl_progressInterval l = 0 then 5 * nano_minute else tl_progressInterval l)\<rparr>"

datatype limits_error = BudgetIdleBelowMinimum duration duration

definition withDefaults :: "tunnel_limits \<Rightarrow> limits_error + tunnel_limits" where
  "withDefaults l0 =
     (let l = filledLimits l0 in
      if tl_sourceBudgetIdle l < tl_minBudgetIdle l
      then Inl (BudgetIdleBelowMinimum (tl_sourceBudgetIdle l) (tl_minBudgetIdle l))
      else Inr l)"

subsection \<open>The budget table\<close>

datatype direction = Up | Down

record source_budget =
  used :: "direction \<Rightarrow> int"
  opened :: int
  lastClose :: time

record budget_table =
  bt_limit :: "direction \<Rightarrow> int"
  bt_idle :: duration
  bt_max :: int
  entries :: "(string \<times> nat) list"
  store :: "nat \<Rightarrow> source_budget"
  bt_next :: nat

definition zero_budget :: source_budget where
  "zero_budget = \<lparr>used = (\<lambda>_. 0), opened = 0, lastClose = min_int64\<rparr>"

definition newBudgetTable :: "int option \<Rightarrow> tunnel_limits \<Rightarrow> budget_table" where
  "newBudgetTable perSource l =
     \<lparr>bt_limit = (\<lambda>d. case d of
          Up \<Rightarrow> (case perSource of Some n \<Rightarrow> if 0 < n then n else tl_sourceUploadBudget l
                                 | None \<Rightarrow> tl_sourceUploadBudget l)
        | Down \<Rightarrow> tl_sourceDownloadBudget l),
      bt_idle = tl_sourceBudgetIdle l, bt_max = tl_maxSources l, entries = [],
      store = (\<lambda>_. zero_budget), bt_next = 0\<rparr>"

definition expired :: "budget_table \<Rightarrow> source_budget \<Rightarrow> time \<Rightarrow> bool" where
  "expired t e now \<longleftrightarrow> opened e = 0 \<and> bt_idle t \<le> time_sub now (lastClose e)"

definition drop_entry :: "string \<Rightarrow> (string \<times> nat) list \<Rightarrow> (string \<times> nat) list" where
  "drop_entry ip es = filter (\<lambda>(k, _). k \<noteq> ip) es"

definition sweep_expired :: "budget_table \<Rightarrow> time \<Rightarrow> budget_table" where
  "sweep_expired t now = t\<lparr>entries := filter (\<lambda>(_, a). \<not> expired t (store t a) now) (entries t)\<rparr>"

datatype open_refusal = SourceUploadBudget | SourceDownloadBudget | SourceTableFull

definition entry_for :: "budget_table \<Rightarrow> string \<Rightarrow> time \<Rightarrow> budget_table \<times> nat option" where
  "entry_for t ip now =
     (let t1 = (case map_of (entries t) ip of
                  Some a \<Rightarrow> if expired t (store t a) now then t\<lparr>entries := drop_entry ip (entries t)\<rparr> else t
                | None \<Rightarrow> t)
      in case map_of (entries t1) ip of
           Some a \<Rightarrow> (t1, Some a)
         | None \<Rightarrow>
            (let t2 = (if bt_max t1 \<le> int (length (entries t1)) then sweep_expired t1 now else t1) in
             if bt_max t2 \<le> int (length (entries t2)) then (t2, None)
             else (t2\<lparr>entries := (ip, bt_next t2) # entries t2,
                      store := (store t2)(bt_next t2 := zero_budget),
                      bt_next := Suc (bt_next t2)\<rparr>, Some (bt_next t2))))"

definition open_tunnel :: "budget_table \<Rightarrow> string \<Rightarrow> time \<Rightarrow> budget_table \<times> (open_refusal + nat)" where
  "open_tunnel t ip now =
     (case entry_for t ip now of
        (t', None) \<Rightarrow> (t', Inl SourceTableFull)
      | (t', Some a) \<Rightarrow>
          (let e = store t' a in
           if bt_limit t' Up \<le> used e Up then (t', Inl SourceUploadBudget)
           else if bt_limit t' Down \<le> used e Down then (t', Inl SourceDownloadBudget)
           else (t'\<lparr>store := (store t')(a := e\<lparr>opened := opened e + 1\<rparr>)\<rparr>, Inr a)))"

definition close_tunnel :: "budget_table \<Rightarrow> nat \<Rightarrow> time \<Rightarrow> budget_table" where
  "close_tunnel t a now =
     t\<lparr>store := (store t)(a := (store t a)\<lparr>opened := opened (store t a) - 1, lastClose := now\<rparr>)\<rparr>"

definition take_bytes :: "budget_table \<Rightarrow> nat \<Rightarrow> direction \<Rightarrow> int \<Rightarrow> budget_table \<times> int" where
  "take_bytes t a d n =
     (let e = store t a; g = min n (max (bt_limit t d - used e d) 0)
      in (t\<lparr>store := (store t)(a := e\<lparr>used := (used e)(d := used e d + g)\<rparr>)\<rparr>, g))"

subsection \<open>The table as a transition system\<close>

record table_sys =
  table :: budget_table
  tunnels :: "(string \<times> nat) list"
  spent :: "nat \<Rightarrow> direction \<Rightarrow> int"
  t_clock :: time

inductive table_step :: "table_sys \<Rightarrow> table_sys \<Rightarrow> bool" where
  opened:
  "open_tunnel (table s) ip now = (t', Inr a) \<Longrightarrow> t_clock s \<le> now \<Longrightarrow>
   table_step s \<lparr>table = t', tunnels = tunnels s @ [(ip, a)], spent = spent s, t_clock = now\<rparr>"
| refused:
  "open_tunnel (table s) ip now = (t', Inl r) \<Longrightarrow> t_clock s \<le> now \<Longrightarrow>
   table_step s \<lparr>table = t', tunnels = tunnels s, spent = spent s, t_clock = now\<rparr>"
| took:
  "(ip, a) \<in> set (tunnels s) \<Longrightarrow> 0 \<le> n \<Longrightarrow> take_bytes (table s) a d n = (t', g) \<Longrightarrow>
   table_step s \<lparr>table = t', tunnels = tunnels s,
     spent = (spent s)(a := (spent s a)(d := spent s a d + g)), t_clock = t_clock s\<rparr>"
| closed:
  "tunnels s = xs @ (ip, a) # ys \<Longrightarrow> t_clock s \<le> now \<Longrightarrow>
   table_step s \<lparr>table = close_tunnel (table s) a now, tunnels = xs @ ys, spent = spent s, t_clock = now\<rparr>"

inductive table_reach :: "budget_table \<Rightarrow> table_sys \<Rightarrow> bool" for t0 where
  start: "0 \<le> now \<Longrightarrow> table_reach t0 \<lparr>table = t0, tunnels = [], spent = (\<lambda>_ _. 0), t_clock = now\<rparr>"
| step: "table_reach t0 s \<Longrightarrow> table_step s s' \<Longrightarrow> table_reach t0 s'"

definition open_count :: "nat \<Rightarrow> (string \<times> nat) list \<Rightarrow> int" where
  "open_count a ts = int (length (filter (\<lambda>(_, b). b = a) ts))"

definition table_ok :: "budget_table \<Rightarrow> (string \<times> nat) list \<Rightarrow> (nat \<Rightarrow> direction \<Rightarrow> int) \<Rightarrow> bool" where
  "table_ok t ts sp \<longleftrightarrow>
     distinct (map fst (entries t)) \<and> distinct (map snd (entries t)) \<and>
     (\<forall>e\<in>set (entries t). snd e < bt_next t) \<and> set ts \<subseteq> set (entries t) \<and>
     int (length (entries t)) \<le> max 0 (bt_max t) \<and>
     (\<forall>a. opened (store t a) = open_count a ts) \<and>
     (\<forall>a d. used (store t a) d = sp a d \<and> 0 \<le> sp a d \<and> sp a d \<le> max 0 (bt_limit t d)) \<and>
     (\<forall>a\<ge>bt_next t. store t a = zero_budget)"

subsection \<open>The invariant\<close>

lemma open_count_pos: "(ip, a) \<in> set ts \<Longrightarrow> 0 < open_count a ts"
  unfolding open_count_def by (induction ts) auto

lemma open_count_append [simp]: "open_count a (xs @ ys) = open_count a xs + open_count a ys"
  by (simp add: open_count_def)

lemma open_count_Cons [simp]:
  "open_count a (p # ts) = (if snd p = a then 1 else 0) + open_count a ts"
  by (auto simp: open_count_def split: prod.splits)

lemma open_count_Nil [simp]: "open_count a [] = 0"
  by (simp add: open_count_def)

lemma open_count_none: "\<forall>p\<in>set ts. snd p \<noteq> a \<Longrightarrow> open_count a ts = 0"
  by (induction ts) auto

lemma distinct_map_filter': "distinct (map f xs) \<Longrightarrow> distinct (map f (filter P xs))"
  by (rule distinct_map_filter)

text \<open>Forgetting entries none of whose tunnels is open keeps the invariant.\<close>

lemma table_ok_filter:
  assumes ok: "table_ok t ts sp" and keep: "\<And>e. e \<in> set (entries t) \<Longrightarrow> \<not> P e \<Longrightarrow> opened (store t (snd e)) = 0"
  shows "table_ok (t\<lparr>entries := filter P (entries t)\<rparr>) ts sp"
proof -
  have "P e" if "e \<in> set ts" for e
  proof (rule ccontr)
    assume "\<not> P e"
    moreover have "e \<in> set (entries t)" using ok that unfolding table_ok_def by blast
    ultimately have "opened (store t (snd e)) = 0" using keep by blast
    moreover have "0 < open_count (snd e) ts" using open_count_pos [of "fst e" "snd e"] that by simp
    ultimately show False using ok by (simp add: table_ok_def)
  qed
  moreover have "int (length (filter P (entries t))) \<le> max 0 (bt_max t)"
  proof (rule order_trans)
    show "int (length (filter P (entries t))) \<le> int (length (entries t))" by simp
    show "int (length (entries t)) \<le> max 0 (bt_max t)" using ok unfolding table_ok_def by blast
  qed
  ultimately show ?thesis
    using ok unfolding table_ok_def by (auto simp: distinct_map_filter)
qed

lemma expired_closed: "expired t e now \<Longrightarrow> opened e = 0"
  by (simp add: expired_def)

lemma map_of_entry: "distinct (map fst es) \<Longrightarrow> (k, v) \<in> set es \<longleftrightarrow> map_of es k = Some v"
  by (simp add: map_of_eq_Some_iff)

text \<open>The two ways \<open>entry_for\<close> forgets, as one filter, and what it adds.\<close>

lemma entry_for_cases:
  assumes "entry_for t ip now = (t', r)" and ok: "table_ok t ts sp"
  obtains P u where "u = t\<lparr>entries := filter P (entries t)\<rparr>"
      "\<And>e. e \<in> set (entries t) \<Longrightarrow> \<not> P e \<Longrightarrow> expired t (store t (snd e)) now"
      "t' = u \<and> (r = None \<or> (\<exists>a. r = Some a \<and> (ip, a) \<in> set (entries u))) \<or>
       t' = u\<lparr>entries := (ip, bt_next u) # entries u, store := (store u)(bt_next u := zero_budget),
              bt_next := Suc (bt_next u)\<rparr> \<and> r = Some (bt_next u) \<and> ip \<notin> fst ` set (entries u) \<and>
       int (length (entries u)) < bt_max u"
proof -
  have dist: "distinct (map fst (entries t))" using ok by (simp add: table_ok_def)
  define t1 where "t1 = (case map_of (entries t) ip of
      Some a \<Rightarrow> if expired t (store t a) now then t\<lparr>entries := drop_entry ip (entries t)\<rparr> else t
    | None \<Rightarrow> t)"
  define t2 where "t2 = (if bt_max t1 \<le> int (length (entries t1)) then sweep_expired t1 now else t1)"
  obtain P1 where P1: "t1 = t\<lparr>entries := filter P1 (entries t)\<rparr>"
      "\<And>e. e \<in> set (entries t) \<Longrightarrow> \<not> P1 e \<Longrightarrow> expired t (store t (snd e)) now"
  proof (cases "\<exists>a. map_of (entries t) ip = Some a \<and> expired t (store t a) now")
    case True
    then show thesis
      by (intro that [of "\<lambda>(k, _). k \<noteq> ip"])
         (auto simp: t1_def drop_entry_def map_of_entry [OF dist])
  next
    case False
    then show thesis by (intro that [of "\<lambda>_. True"]) (auto simp: t1_def split: option.splits)
  qed
  obtain P2 where P2: "t2 = t1\<lparr>entries := filter P2 (entries t1)\<rparr>"
      "\<And>e. e \<in> set (entries t1) \<Longrightarrow> \<not> P2 e \<Longrightarrow> expired t (store t (snd e)) now"
  proof (cases "bt_max t1 \<le> int (length (entries t1))")
    case True
    then show thesis
      by (intro that [of "\<lambda>(_, a). \<not> expired t1 (store t1 a) now"])
         (auto simp: t2_def sweep_expired_def P1(1) expired_def)
  next
    case False
    then show thesis by (intro that [of "\<lambda>_. True"]) (auto simp: t2_def)
  qed
  show thesis
  proof (cases "map_of (entries t1) ip")
    case (Some a)
    then have "t' = t1" "r = Some a" "(ip, a) \<in> set (entries t1)"
      using assms(1) by (simp_all add: entry_for_def Let_def t1_def [symmetric] map_of_SomeD)
    then show thesis using P1 by (intro that [of t1 P1]) auto
  next
    case None
    then have absent: "ip \<notin> fst ` set (entries t2)" by (auto simp: P2(1) map_of_eq_None_iff)
    have "t' = t2 \<and> r = None \<or>
       t' = t2\<lparr>entries := (ip, bt_next t2) # entries t2, store := (store t2)(bt_next t2 := zero_budget),
              bt_next := Suc (bt_next t2)\<rparr> \<and> r = Some (bt_next t2) \<and> int (length (entries t2)) < bt_max t2"
      using assms(1) None
      by (auto simp: entry_for_def Let_def t1_def [symmetric] t2_def [symmetric] split: if_splits)
    then show thesis using P1 P2 absent
      by (intro that [of t2 "\<lambda>e. P1 e \<and> P2 e"]) (auto simp: conj_commute)
  qed
qed

lemma table_ok_new_entry:
  assumes ok: "table_ok t ts sp" and "ip \<notin> fst ` set (entries t)" "int (length (entries t)) < bt_max t"
  shows "table_ok (t\<lparr>entries := (ip, bt_next t) # entries t, store := (store t)(bt_next t := zero_budget),
           bt_next := Suc (bt_next t)\<rparr>) ts sp"
proof -
  have old: "store t (bt_next t) = zero_budget" using ok by (simp add: table_ok_def)
  then have "(store t)(bt_next t := zero_budget) = store t" by auto
  moreover have "bt_next t \<notin> snd ` set (entries t)" using ok by (auto simp: table_ok_def)
  ultimately show ?thesis using assms unfolding table_ok_def by (auto simp: less_Suc_eq)
qed

lemma entry_for_ok:
  assumes "entry_for t ip now = (t', r)" and ok: "table_ok t ts sp"
  shows "table_ok t' ts sp" "r = Some a \<Longrightarrow> (ip, a) \<in> set (entries t')" "bt_limit t' = bt_limit t"
    "bt_max t' = bt_max t" "bt_idle t' = bt_idle t"
    "used (store t' b) d = used (store t b) d"
    "e \<in> set (entries t) \<Longrightarrow> e \<in> set (entries t') \<or> expired t (store t (snd e)) now"
proof -
  obtain P u where u: "u = t\<lparr>entries := filter P (entries t)\<rparr>"
      and drop: "\<And>e. e \<in> set (entries t) \<Longrightarrow> \<not> P e \<Longrightarrow> expired t (store t (snd e)) now"
      and res: "t' = u \<and> (r = None \<or> (\<exists>a. r = Some a \<and> (ip, a) \<in> set (entries u))) \<or>
       t' = u\<lparr>entries := (ip, bt_next u) # entries u, store := (store u)(bt_next u := zero_budget),
              bt_next := Suc (bt_next u)\<rparr> \<and> r = Some (bt_next u) \<and> ip \<notin> fst ` set (entries u) \<and>
       int (length (entries u)) < bt_max u"
    by (rule entry_for_cases [OF assms]) blast
  have oku: "table_ok u ts sp"
    unfolding u by (rule table_ok_filter [OF ok]) (use drop expired_closed in blast)
  then show "table_ok t' ts sp" using res table_ok_new_entry [OF oku] by auto
  show "r = Some a \<Longrightarrow> (ip, a) \<in> set (entries t')" using res by auto
  show "bt_limit t' = bt_limit t" "bt_max t' = bt_max t" "bt_idle t' = bt_idle t" using res u by auto
  have "store t (bt_next t) = zero_budget" using ok by (simp add: table_ok_def)
  then show "used (store t' b) d = used (store t b) d" using res u by (auto simp: zero_budget_def)
  have "P e \<Longrightarrow> e \<in> set (entries t) \<Longrightarrow> e \<in> set (entries t')" using res u by auto
  then show "e \<in> set (entries t) \<Longrightarrow> e \<in> set (entries t') \<or> expired t (store t (snd e)) now"
    using drop by blast
qed

lemma table_ok_open:
  assumes ok: "table_ok t ts sp" and e: "(ip, a) \<in> set (entries t)"
  shows "table_ok (t\<lparr>store := (store t)(a := (store t a)\<lparr>opened := opened (store t a) + 1\<rparr>)\<rparr>)
           (ts @ [(ip, a)]) sp"
  using assms unfolding table_ok_def by auto

lemma table_ok_addr:
  assumes "table_ok t ts sp" "(ip, a) \<in> set ts"
  shows "a < bt_next t"
proof -
  have "(ip, a) \<in> set (entries t)" using assms unfolding table_ok_def by blast
  then have "snd (ip, a) < bt_next t" using assms(1) unfolding table_ok_def by blast
  then show ?thesis by simp
qed

lemma table_ok_take:
  assumes ok: "table_ok t ts sp" and e: "(ip, a) \<in> set ts" and n: "0 \<le> n"
    and run: "take_bytes t a d n = (t', g)"
  shows "table_ok t' ts (sp(a := (sp a)(d := sp a d + g)))" "0 \<le> g" "g \<le> n"
proof -
  have g: "g = min n (max (bt_limit t d - used (store t a) d) 0)"
      "t' = t\<lparr>store := (store t)(a := (store t a)\<lparr>used := (used (store t a))(d := used (store t a) d + g)\<rparr>)\<rparr>"
    using run by (auto simp: take_bytes_def Let_def)
  have u: "used (store t a) d = sp a d" "0 \<le> sp a d" "sp a d \<le> max 0 (bt_limit t d)"
    using ok by (auto simp: table_ok_def)
  show "0 \<le> g" "g \<le> n" using n g(1) by auto
  have "sp a d + g \<le> max 0 (bt_limit t d)" using u g(1) n by auto
  moreover have "a < bt_next t" by (rule table_ok_addr [OF ok e])
  ultimately show "table_ok t' ts (sp(a := (sp a)(d := sp a d + g)))"
    using ok u \<open>0 \<le> g\<close> unfolding table_ok_def g(2) by auto
qed

lemma table_ok_close:
  assumes ok: "table_ok t (xs @ (ip, a) # ys) sp"
  shows "table_ok (close_tunnel t a now) (xs @ ys) sp"
proof -
  have "a < bt_next t" by (rule table_ok_addr [OF ok, of ip]) simp
  then show ?thesis using ok unfolding table_ok_def close_tunnel_def by auto
qed

lemma open_tunnel_cases:
  assumes "open_tunnel t ip now = (t', v)"
  obtains (admitted) u a where "entry_for t ip now = (u, Some a)" "v = Inr a"
      "t' = u\<lparr>store := (store u)(a := (store u a)\<lparr>opened := opened (store u a) + 1\<rparr>)\<rparr>"
      "used (store u a) Up < bt_limit u Up" "used (store u a) Down < bt_limit u Down"
    | (refused) r where "entry_for t ip now = (t', r)" "\<exists>why. v = Inl why"
  using assms by (auto simp: open_tunnel_def Let_def split: prod.splits option.splits if_splits)

lemma table_ok_step:
  assumes "table_step s s'" "table_ok (table s) (tunnels s) (spent s)"
  shows "table_ok (table s') (tunnels s') (spent s')"
  using assms(1)
proof (cases rule: table_step.cases)
  case (opened ip now t' a)
  from opened(2) obtain u where u: "entry_for (table s) ip now = (u, Some a)"
      "t' = u\<lparr>store := (store u)(a := (store u a)\<lparr>opened := source_budget.opened (store u a) + 1\<rparr>)\<rparr>"
    by (cases rule: open_tunnel_cases) auto
  show ?thesis
    using table_ok_open [OF entry_for_ok(1) [OF u(1) assms(2)] entry_for_ok(2) [OF u(1) assms(2) refl]]
    by (simp add: opened(1) u(2))
next
  case (refused ip now t' r)
  from refused(2) obtain v where "entry_for (table s) ip now = (t', v)"
    by (cases rule: open_tunnel_cases) auto
  then show ?thesis using entry_for_ok(1) [OF _ assms(2)] by (simp add: refused(1))
next
  case (took ip a n d t' g)
  then show ?thesis using table_ok_take(1) [OF assms(2)] by auto
next
  case (closed xs ip a ys now)
  then show ?thesis using table_ok_close assms(2) by simp
qed

text \<open>The immutable part of a table, and a step's effect on a window.\<close>

lemma table_step_limits:
  assumes "table_step s s'" "table_ok (table s) (tunnels s) (spent s)"
  shows "bt_limit (table s') = bt_limit (table s) \<and> bt_max (table s') = bt_max (table s) \<and>
    bt_idle (table s') = bt_idle (table s)"
  using assms(1)
proof (cases rule: table_step.cases)
  case (opened ip now t' a)
  from opened(2) show ?thesis
    by (cases rule: open_tunnel_cases) (use entry_for_ok(3-5) [OF _ assms(2)] opened(1) in auto)
next
  case (refused ip now t' r)
  from refused(2) show ?thesis
    by (cases rule: open_tunnel_cases) (use entry_for_ok(3-5) [OF _ assms(2)] refused(1) in auto)
next
  case (took ip a n d t' g)
  then show ?thesis by (auto simp: take_bytes_def Let_def)
qed (simp add: close_tunnel_def)

lemma table_step_window:
  assumes "table_step s s'" "table_ok (table s) (tunnels s) (spent s)" "(ip, a) \<in> set (entries (table s))"
  shows "((ip, a) \<in> set (entries (table s')) \<and>
            used (store (table s) a) d \<le> used (store (table s') a) d) \<or>
         expired (table s) (store (table s) a) (t_clock s')"
  using assms(1)
proof (cases rule: table_step.cases)
  case (opened jp now t' b)
  from opened(2) obtain u where u: "entry_for (table s) jp now = (u, Some b)"
      "t' = u\<lparr>store := (store u)(b := (store u b)\<lparr>opened := source_budget.opened (store u b) + 1\<rparr>)\<rparr>"
    by (cases rule: open_tunnel_cases) auto
  show ?thesis
    using entry_for_ok(6,7) [OF u(1) assms(2)] assms(3) by (fastforce simp: opened(1) u(2))
next
  case (refused jp now t' r)
  from refused(2) obtain v where v: "entry_for (table s) jp now = (t', v)"
    by (cases rule: open_tunnel_cases) auto
  show ?thesis using entry_for_ok(6,7) [OF v assms(2)] assms(3) by (fastforce simp: refused(1))
next
  case (took jp b n e t' g)
  then show ?thesis
    using assms(3) table_ok_take(2) [OF assms(2) took(2-4)] by (auto simp: take_bytes_def Let_def)
next
  case (closed xs jp b ys now)
  then show ?thesis using assms(3) by (simp add: close_tunnel_def)
qed

lemma table_ok_new: "0 \<le> bt_max t \<Longrightarrow> entries t = [] \<Longrightarrow> store t = (\<lambda>_. zero_budget) \<Longrightarrow> table_ok t [] (\<lambda>_ _. 0)"
  by (simp add: table_ok_def zero_budget_def)

lemma table_ok_reach:
  "table_reach t0 s \<Longrightarrow> t0 = newBudgetTable ps l \<Longrightarrow> table_ok (table s) (tunnels s) (spent s)"
proof (induction rule: table_reach.induct)
  case (start now)
  then show ?case by (simp add: table_ok_def newBudgetTable_def zero_budget_def)
qed (use table_ok_step in blast)

subsection \<open>Properties\<close>

lemma reach_limits:
  "table_reach t0 s \<Longrightarrow> t0 = newBudgetTable ps l \<Longrightarrow>
   bt_limit (table s) = bt_limit t0 \<and> bt_max (table s) = bt_max t0 \<and> bt_idle (table s) = bt_idle t0"
proof (induction rule: table_reach.induct)
  case (step s s')
  then show ?case using table_step_limits [OF step.hyps(2) table_ok_reach [OF step.hyps(1)]] by auto
qed simp

lemma orDefault_pos: "(0 :: 'a :: linordered_idom) < d \<Longrightarrow> 0 < orDefault v d"
  by (simp add: orDefault_def not_le)

definition demo_tunnel_limits :: tunnel_limits where
  "demo_tunnel_limits =
     \<lparr>tl_maxConcurrent = 0, tl_perSourceConcurrent = 0, tl_perSourceRate = 0, tl_perSourceBurst = 0,
      tl_wait = 0, tl_dialTimeout = 0, tl_helloTimeout = 0, tl_idleTimeout = 0, tl_maxDuration = 0,
      tl_maxUploadBytes = 0, tl_maxDownloadBytes = 0, tl_sourceUploadBudget = 100,
      tl_sourceDownloadBudget = 0, tl_sourceBudgetIdle = 0, tl_minBudgetIdle = 0, tl_maxSources = 1,
      tl_progressInterval = 0\<rparr>"

definition demo_table :: budget_table where
  "demo_table = newBudgetTable None (filledLimits demo_tunnel_limits)"

definition demo_opened :: budget_table where
  "demo_opened = demo_table\<lparr>entries := [(''10.0.0.1'', 0)],
     store := (\<lambda>_. zero_budget)(0 := zero_budget\<lparr>opened := 1\<rparr>), bt_next := 1\<rparr>"

lemma demo_open: "open_tunnel demo_table ''10.0.0.1'' 5 = (demo_opened, Inr 0)"
  by (simp add: open_tunnel_def entry_for_def demo_opened_def demo_table_def newBudgetTable_def
      filledLimits_def orDefault_def demo_tunnel_limits_def zero_budget_def fun_eq_iff
      split: direction.splits)

lemma demo_table_reach:
  "table_reach demo_table \<lparr>table = demo_opened, tunnels = [(''10.0.0.1'', 0)], spent = (\<lambda>_ _. 0), t_clock = 5\<rparr>"
proof -
  let ?s = "\<lparr>table = demo_table, tunnels = [], spent = (\<lambda>_ _. 0), t_clock = 5\<rparr>"
  have "table_step ?s \<lparr>table = demo_opened, tunnels = tunnels ?s @ [(''10.0.0.1'', 0)], spent = spent ?s, t_clock = 5\<rparr>"
    by (rule table_step.opened) (simp_all add: demo_open)
  then show ?thesis using table_reach.step [OF table_reach.start [of 5 demo_table]] by simp
qed

text \<open>
  C30. A source never sends more than its budget. In every reachable state of a profile's budget table
  each open tunnel still has its source's entry, the entry's open count is the number of its open
  tunnels, what an entry has granted in a direction, over all its tunnels, is never more than that
  direction's limit, and the table never holds more than MaxSources entries.
\<close>

theorem tunnel_budget_bound:
  assumes "table_reach (newBudgetTable ps l) s"
  shows "set (tunnels s) \<subseteq> set (entries (table s)) \<and>
    (\<forall>a. opened (store (table s) a) = int (length (filter (\<lambda>p. snd p = a) (tunnels s)))) \<and>
    (\<forall>a d. used (store (table s) a) d = spent s a d \<and> 0 \<le> spent s a d \<and>
           spent s a d \<le> max 0 (bt_limit (newBudgetTable ps l) d)) \<and>
    int (length (entries (table s))) \<le> max 0 (tl_maxSources l)"
proof -
  have ok: "table_ok (table s) (tunnels s) (spent s)" by (rule table_ok_reach [OF assms refl])
  have lim: "bt_limit (table s) = bt_limit (newBudgetTable ps l)" "bt_max (table s) = tl_maxSources l"
    using reach_limits [OF assms refl] by (auto simp: newBudgetTable_def)
  show ?thesis
    using ok lim unfolding table_ok_def open_count_def by (simp add: case_prod_unfold)
qed

lemma tunnel_budget_bound_witness:
  "opened (store demo_opened 0) = 1 \<and> int (length (entries demo_opened)) \<le> 1"
  using tunnel_budget_bound [of None "filledLimits demo_tunnel_limits",
      OF demo_table_reach [unfolded demo_table_def]]
  by (simp add: filledLimits_def orDefault_def demo_tunnel_limits_def)

text \<open>
  A budget is never refilled early. From any reachable state, a step either keeps a source's
  entry, and then never lowers what it has spent, or forgets it, and then none of the source's tunnels
  was open and the last one closed at least a whole idle window before the step.
\<close>

theorem tunnel_budget_no_refill:
  assumes "table_reach (newBudgetTable ps l) s" "table_step s s'" "(ip, a) \<in> set (entries (table s))"
  shows "((ip, a) \<in> set (entries (table s')) \<and> spent s a d \<le> spent s' a d) \<or>
    ((\<forall>jp. (jp, a) \<notin> set (tunnels s)) \<and>
     tl_sourceBudgetIdle l \<le> time_sub (t_clock s') (lastClose (store (table s) a)))"
proof -
  have ok: "table_ok (table s) (tunnels s) (spent s)" by (rule table_ok_reach [OF assms(1) refl])
  have ok': "table_ok (table s') (tunnels s') (spent s')" by (rule table_ok_step [OF assms(2) ok])
  have u: "used (store (table s) a) d = spent s a d" "used (store (table s') a) d = spent s' a d"
    using ok ok' by (auto simp: table_ok_def)
  have "bt_idle (table s) = tl_sourceBudgetIdle l"
    using reach_limits [OF assms(1) refl] by (simp add: newBudgetTable_def)
  moreover have "(jp, a) \<notin> set (tunnels s)" if "opened (store (table s) a) = 0" for jp
    using open_count_pos [of jp a "tunnels s"] ok that by (auto simp: table_ok_def)
  ultimately show ?thesis
    using table_step_window [OF assms(2) ok assms(3), of d] u by (auto simp: expired_def)
qed

lemma tunnel_budget_no_refill_witness:
  "table_step \<lparr>table = demo_opened, tunnels = [(''10.0.0.1'', 0)], spent = (\<lambda>_ _. 0), t_clock = 5\<rparr>
     \<lparr>table = close_tunnel demo_opened 0 9, tunnels = [], spent = (\<lambda>_ _. 0), t_clock = 9\<rparr> \<and>
   (''10.0.0.1'', 0) \<in> set (entries (close_tunnel demo_opened 0 9))"
proof -
  let ?s = "\<lparr>table = demo_opened, tunnels = [(''10.0.0.1'', 0)], spent = (\<lambda>_ _. 0), t_clock = 5\<rparr>"
  have step: "table_step ?s \<lparr>table = close_tunnel (table ?s) 0 9, tunnels = [] @ [], spent = spent ?s, t_clock = 9\<rparr>"
    by (rule table_step.closed [where ip = "''10.0.0.1''"]) simp_all
  from tunnel_budget_no_refill [of None "filledLimits demo_tunnel_limits", OF demo_table_reach [unfolded demo_table_def] step,
      of "''10.0.0.1''" 0 Up] step show ?thesis
    by (auto simp: demo_opened_def)
qed

text \<open>
  The tunnel's limits after defaulting. A configuration is accepted exactly when its budget
  window, defaulted, is not below its defaulted floor; an accepted one has every bound positive and a
  budget window no shorter than the floor.
\<close>

theorem tunnel_limits_positive:
  "(\<exists>l'. withDefaults l = Inr l') =
     (orDefault (tl_minBudgetIdle l) (2 * nano_hour) \<le> orDefault (tl_sourceBudgetIdle l) (2 * nano_hour)) \<and>
   (\<forall>l'. withDefaults l = Inr l' \<longrightarrow>
      0 < tl_maxConcurrent l' \<and> 0 < tl_perSourceConcurrent l' \<and> 0 < tl_perSourceRate l' \<and>
      0 < tl_perSourceBurst l' \<and> 0 < tl_wait l' \<and> 0 < tl_dialTimeout l' \<and> 0 < tl_helloTimeout l' \<and>
      0 < tl_idleTimeout l' \<and> 0 < tl_maxDuration l' \<and> 0 < tl_maxUploadBytes l' \<and>
      0 < tl_maxDownloadBytes l' \<and> 0 < tl_sourceUploadBudget l' \<and> 0 < tl_sourceDownloadBudget l' \<and>
      0 < tl_maxSources l' \<and> 0 < tl_minBudgetIdle l' \<and> tl_minBudgetIdle l' \<le> tl_sourceBudgetIdle l' \<and>
      tl_progressInterval l' \<noteq> 0)"
proof -
  have "withDefaults l = Inr l' \<Longrightarrow> l' = filledLimits l \<and> tl_minBudgetIdle l' \<le> tl_sourceBudgetIdle l'" for l'
    by (auto simp: withDefaults_def Let_def split: if_splits)
  then show ?thesis
    by (auto simp: withDefaults_def filledLimits_def Let_def orDefault_pos not_less split: if_splits)
qed

lemma tunnel_limits_positive_witness:
  "\<exists>l'. withDefaults demo_tunnel_limits = Inr l' \<and> 0 < tl_maxUploadBytes l'"
proof -
  obtain l' where l': "withDefaults demo_tunnel_limits = Inr l'"
    by (simp add: withDefaults_def filledLimits_def Let_def orDefault_def demo_tunnel_limits_def)
  then show ?thesis
    using tunnel_limits_positive [of demo_tunnel_limits, THEN conjunct2, THEN spec, THEN mp, OF l'] by simp
qed

end
