(* ===== verification/ClientHello.thy ===== *)
theory ClientHello
  imports Prelude
begin

text \<open>
  The TLS ClientHello the tunnel judges before it forwards a byte
  (\<open>internal/egressproxy/clienthello.go\<close>): the assembly of the handshake message from its records, the
  parse of its extensions, and the two ways it is fed, a buffer and a stream. Bytes are characters. The
  cursor of \<open>golang.org/x/crypto/cryptobyte\<close> is an argument \<open>cb\<close>; \<open>cryptobyte_laws\<close> is what its
  documentation says of the four reads the parser uses.
\<close>

subsection \<open>The cursor\<close>

record cryptobyte =
  cb_u8 :: "string \<Rightarrow> (nat \<times> string) option"
  cb_u16 :: "string \<Rightarrow> (nat \<times> string) option"
  cb_bytes :: "nat \<Rightarrow> string \<Rightarrow> (string \<times> string) option"
  cb_p8 :: "string \<Rightarrow> (string \<times> string) option"
  cb_p16 :: "string \<Rightarrow> (string \<times> string) option"

definition be16 :: "char \<Rightarrow> char \<Rightarrow> nat" where "be16 a b = byte a * 256 + byte b"

definition read_u8 :: "string \<Rightarrow> (nat \<times> string) option" where
  "read_u8 s = (case s of a # r \<Rightarrow> Some (byte a, r) | [] \<Rightarrow> None)"

definition read_u16 :: "string \<Rightarrow> (nat \<times> string) option" where
  "read_u16 s = (case s of a # b # r \<Rightarrow> Some (be16 a b, r) | _ \<Rightarrow> None)"

definition read_bytes :: "nat \<Rightarrow> string \<Rightarrow> (string \<times> string) option" where
  "read_bytes n s = (if n \<le> length s then Some (take n s, drop n s) else None)"

definition read_p8 :: "string \<Rightarrow> (string \<times> string) option" where
  "read_p8 s = (case read_u8 s of None \<Rightarrow> None | Some (n, r) \<Rightarrow> read_bytes n r)"

definition read_p16 :: "string \<Rightarrow> (string \<times> string) option" where
  "read_p16 s = (case read_u16 s of None \<Rightarrow> None | Some (n, r) \<Rightarrow> read_bytes n r)"

definition cryptobyte_laws :: "cryptobyte \<Rightarrow> bool" where
  "cryptobyte_laws cb \<longleftrightarrow>
     cb_u8 cb = read_u8 \<and> cb_u16 cb = read_u16 \<and> cb_bytes cb = read_bytes \<and> cb_p8 cb = read_p8 \<and> cb_p16 cb = read_p16"

definition demo_cursor :: cryptobyte where
  "demo_cursor = \<lparr>cb_u8 = read_u8, cb_u16 = read_u16, cb_bytes = read_bytes, cb_p8 = read_p8, cb_p16 = read_p16\<rparr>"

subsection \<open>Records\<close>

definition MaxHelloBytes :: nat where "MaxHelloBytes = 65536"

abbreviation recordHeaderLen :: nat where "recordHeaderLen \<equiv> 5"
abbreviation maxRecordLen :: nat where "maxRecordLen \<equiv> 16384"
abbreviation handshakeHeaderLen :: nat where "handshakeHeaderLen \<equiv> 4"

datatype hello_error = BadHello string | HelloTooLarge | SNIList | HelloIncomplete | UnexpectedEOF

record hello =
  h_SNI :: string
  h_ALPN :: "string list"
  h_HasECH :: bool
  h_Legacy :: bool

definition no_hello :: hello where
  "no_hello = \<lparr>h_SNI = [], h_ALPN = [], h_HasECH = False, h_Legacy = False\<rparr>"

record assembler =
  as_records :: nat
  as_hs :: string

definition new_assembler :: assembler where "new_assembler = \<lparr>as_records = 0, as_hs = []\<rparr>"

definition header :: "assembler \<Rightarrow> string \<Rightarrow> hello_error + nat" where
  "header a h =
     (let v = be16 (h ! 1) (h ! 2); n = be16 (h ! 3) (h ! 4) in
      if byte (h ! 0) \<noteq> 22 then Inl (BadHello ''not a handshake record'')
      else if v < 0x0301 \<or> 0x0304 < v then Inl (BadHello ''record version out of range'')
      else if n = 0 \<or> maxRecordLen < n then Inl (BadHello ''record length out of range'')
      else if MaxHelloBytes < as_records a + recordHeaderLen + n then Inl HelloTooLarge
      else Inr n)"

definition need :: "string \<Rightarrow> nat" where
  "need hs = handshakeHeaderLen + (byte (hs ! 1) * 65536 + byte (hs ! 2) * 256 + byte (hs ! 3))"

definition payload :: "assembler \<Rightarrow> string \<Rightarrow> hello_error + assembler \<times> bool" where
  "payload a p =
     (let hs = as_hs a @ p; a' = \<lparr>as_records = as_records a + recordHeaderLen + length p, as_hs = hs\<rparr> in
      if length hs < handshakeHeaderLen then Inr (a', False)
      else if byte (hs ! 0) \<noteq> 1 then Inl (BadHello ''first handshake message is not a ClientHello'')
      else if MaxHelloBytes < need hs then Inl HelloTooLarge
      else if length hs < need hs then Inr (a', False)
      else if need hs < length hs then Inl (BadHello ''bytes after the ClientHello in its record'')
      else Inr (a', True))"

subsection \<open>The message\<close>

definition printable_name :: "string \<Rightarrow> bool" where
  "printable_name s \<longleftrightarrow> list_all (\<lambda>c. 0x21 \<le> byte c \<and> byte c \<le> 0x7e) s"

definition skipFixedFields :: "cryptobyte \<Rightarrow> string \<Rightarrow> string option" where
  "skipFixedFields cb s =
     (case cb_u16 cb s of None \<Rightarrow> None | Some (_, s1) \<Rightarrow>
      case cb_bytes cb 32 s1 of None \<Rightarrow> None | Some (_, s2) \<Rightarrow>
      case cb_p8 cb s2 of None \<Rightarrow> None | Some (sessionID, s3) \<Rightarrow>
      if 32 < length sessionID then None else
      case cb_p16 cb s3 of None \<Rightarrow> None | Some (suites, s4) \<Rightarrow>
      if suites = [] \<or> odd (length suites) then None else
      case cb_p8 cb s4 of None \<Rightarrow> None | Some (compress, s5) \<Rightarrow>
      if compress = [] then None else Some s5)"

text \<open>
  The loops run while input is left. The number bounds the turns; it starts at the length of the input,
  and every turn of a cursor that obeys its laws consumes some.
\<close>

fun server_names :: "cryptobyte \<Rightarrow> nat \<Rightarrow> string \<Rightarrow> nat \<times> string \<times> bool \<Rightarrow> hello_error + nat \<times> string \<times> bool" where
  "server_names cb 0 l acc = (if l = [] then Inr acc else Inl (BadHello ''bad server_name entry''))"
| "server_names cb (Suc k) l (entries, name, usable) =
     (if l = [] then Inr (entries, name, usable)
      else case cb_u8 cb l of None \<Rightarrow> Inl (BadHello ''bad server_name entry'') | Some (ty, l1) \<Rightarrow>
      case cb_p16 cb l1 of None \<Rightarrow> Inl (BadHello ''bad server_name entry'') | Some (n, l2) \<Rightarrow>
      server_names cb k l2 (entries + 1, n, usable \<and> \<not> (ty \<noteq> 0 \<or> n = [] \<or> \<not> printable_name n)))"

definition parseServerName :: "cryptobyte \<Rightarrow> string \<Rightarrow> hello_error + string" where
  "parseServerName cb d =
     (case cb_p16 cb d of
        Some (l, []) \<Rightarrow>
          (case server_names cb (length l) l (0, [], True) of
             Inl e \<Rightarrow> Inl e
           | Inr (entries, name, usable) \<Rightarrow> if entries \<noteq> 1 \<or> \<not> usable then Inl SNIList else Inr name)
      | _ \<Rightarrow> Inl (BadHello ''bad server_name extension''))"

fun protocols :: "cryptobyte \<Rightarrow> nat \<Rightarrow> string \<Rightarrow> hello_error + string list" where
  "protocols cb 0 l = (if l = [] then Inr [] else Inl (BadHello ''bad ALPN protocol''))"
| "protocols cb (Suc k) l =
     (if l = [] then Inr []
      else case cb_p8 cb l of None \<Rightarrow> Inl (BadHello ''bad ALPN protocol'') | Some (p, l1) \<Rightarrow>
      if p = [] then Inl (BadHello ''bad ALPN protocol'')
      else map_sum id ((#) p) (protocols cb k l1))"

definition parseALPN :: "cryptobyte \<Rightarrow> string \<Rightarrow> hello_error + string list" where
  "parseALPN cb d =
     (case cb_p16 cb d of
        Some (l, []) \<Rightarrow> if l = [] then Inl (BadHello ''bad ALPN extension'') else protocols cb (length l) l
      | _ \<Rightarrow> Inl (BadHello ''bad ALPN extension''))"

abbreviation extServerName :: nat where "extServerName \<equiv> 0x0000"
abbreviation extALPN :: nat where "extALPN \<equiv> 0x0010"
abbreviation extECH :: nat where "extECH \<equiv> 0xfe0d"
abbreviation extESNI :: nat where "extESNI \<equiv> 0xffce"

text \<open>One extension: the hello so far and whether its server name was unusable.\<close>

definition extension :: "cryptobyte \<Rightarrow> nat \<Rightarrow> string \<Rightarrow> hello \<times> bool \<Rightarrow> hello_error + hello \<times> bool" where
  "extension cb ty d st =
     (case st of (h, sniErr) \<Rightarrow>
       if ty = extServerName then
         (case parseServerName cb d of
            Inl SNIList \<Rightarrow> Inr (h\<lparr>h_SNI := []\<rparr>, True)
          | Inl e \<Rightarrow> Inl e
          | Inr name \<Rightarrow> Inr (h\<lparr>h_SNI := name\<rparr>, sniErr))
       else if ty = extALPN then
         (case parseALPN cb d of Inl e \<Rightarrow> Inl e | Inr ps \<Rightarrow> Inr (h\<lparr>h_ALPN := ps\<rparr>, sniErr))
       else if ty = extECH then Inr (h\<lparr>h_HasECH := True\<rparr>, sniErr)
       else if ty = extESNI then Inr (h\<lparr>h_HasECH := True, h_Legacy := True\<rparr>, sniErr)
       else Inr (h, sniErr))"

fun extensions :: "cryptobyte \<Rightarrow> nat \<Rightarrow> nat list \<Rightarrow> string \<Rightarrow> hello \<times> bool \<Rightarrow> hello_error + hello \<times> bool" where
  "extensions cb 0 seen s st = (if s = [] then Inr st else Inl (BadHello ''truncated extension''))"
| "extensions cb (Suc k) seen s st =
     (if s = [] then Inr st
      else case cb_u16 cb s of None \<Rightarrow> Inl (BadHello ''truncated extension'') | Some (ty, s1) \<Rightarrow>
      case cb_p16 cb s1 of None \<Rightarrow> Inl (BadHello ''truncated extension'') | Some (d, s2) \<Rightarrow>
      if ty \<in> set seen then Inl (BadHello ''duplicate extension'')
      else case extension cb ty d st of Inl e \<Rightarrow> Inl e | Inr st' \<Rightarrow> extensions cb k (ty # seen) s2 st')"

definition parseExtensions :: "cryptobyte \<Rightarrow> string \<Rightarrow> hello_error + hello" where
  "parseExtensions cb s =
     (case extensions cb (length s) [] s (no_hello, False) of
        Inl e \<Rightarrow> Inl e | Inr (h, sniErr) \<Rightarrow> if sniErr then Inl SNIList else Inr h)"

definition parseHelloMessage :: "cryptobyte \<Rightarrow> string \<Rightarrow> hello_error + hello" where
  "parseHelloMessage cb msg =
     (case skipFixedFields cb (drop handshakeHeaderLen msg) of
        None \<Rightarrow> Inl (BadHello ''bad fixed fields'')
      | Some s \<Rightarrow>
          if s = [] then Inr no_hello
          else (case cb_p16 cb s of
                  Some (exts, []) \<Rightarrow> parseExtensions cb exts
                | _ \<Rightarrow> Inl (BadHello ''bad extensions block'')))"

subsection \<open>Feeding it\<close>

function parse_records :: "cryptobyte \<Rightarrow> assembler \<Rightarrow> string \<Rightarrow> hello_error + hello" where
  "parse_records cb a b =
     (if length b < recordHeaderLen then
        (if MaxHelloBytes < as_records a + recordHeaderLen + 1 then Inl HelloTooLarge else Inl HelloIncomplete)
      else case header a (take recordHeaderLen b) of Inl e \<Rightarrow> Inl e | Inr n \<Rightarrow>
        if length b < recordHeaderLen + n then Inl HelloIncomplete
        else case payload a (take n (drop recordHeaderLen b)) of Inl e \<Rightarrow> Inl e | Inr (a', complete) \<Rightarrow>
          if complete then parseHelloMessage cb (as_hs a')
          else parse_records cb a' (drop (recordHeaderLen + n) b))"
  by pat_completeness auto

termination by (relation "measure (\<lambda>(cb, a, b). length b)") auto

declare parse_records.simps [simp del]

definition ParseClientHello :: "cryptobyte \<Rightarrow> string \<Rightarrow> hello_error + hello" where
  "ParseClientHello cb b = parse_records cb new_assembler b"

text \<open>
  The reader: \<open>s\<close> is everything the client will ever send, \<open>raw\<close> what was read. The result is the
  verdict and the bytes the caller may forward; what is left of \<open>s\<close> is unread. A stream that ends inside
  the hello, or fails, is \<open>UnexpectedEOF\<close>.
\<close>

function read_records :: "cryptobyte \<Rightarrow> assembler \<Rightarrow> string \<Rightarrow> string \<Rightarrow> (hello_error + hello) \<times> string" where
  "read_records cb a raw s =
     (if MaxHelloBytes < as_records a + recordHeaderLen + 1 then (Inl HelloTooLarge, raw)
      else if length s < recordHeaderLen then (Inl UnexpectedEOF, raw)
      else case header a (take recordHeaderLen s) of
        Inl e \<Rightarrow> (Inl e, raw @ take recordHeaderLen s)
      | Inr n \<Rightarrow>
        if length s < recordHeaderLen + n then (Inl UnexpectedEOF, raw @ take recordHeaderLen s)
        else let raw' = raw @ take (recordHeaderLen + n) s in
          case payload a (take n (drop recordHeaderLen s)) of
            Inl e \<Rightarrow> (Inl e, raw')
          | Inr (a', complete) \<Rightarrow>
              if complete then (parseHelloMessage cb (as_hs a'), raw')
              else read_records cb a' raw' (drop (recordHeaderLen + n) s))"
  by pat_completeness auto

termination by (relation "measure (\<lambda>(cb, a, raw, s). length s)") auto

declare read_records.simps [simp del]

definition ReadClientHello :: "cryptobyte \<Rightarrow> string \<Rightarrow> (hello_error + hello) \<times> string" where
  "ReadClientHello cb s = read_records cb new_assembler [] s"

subsection \<open>What is accepted\<close>

text \<open>A record as it is on the wire: the two version bytes and the payload.\<close>

type_synonym tls_record = "char \<times> char \<times> string"

definition byte_of :: "nat \<Rightarrow> char" where "byte_of n = char_of (n mod 256)"

definition put16 :: "nat \<Rightarrow> string" where "put16 n = [byte_of (n div 256), byte_of n]"

definition record_head :: "char \<Rightarrow> char \<Rightarrow> nat \<Rightarrow> string" where
  "record_head a b n = byte_of 22 # a # b # put16 n"

definition record_bytes :: "tls_record \<Rightarrow> string" where
  "record_bytes r = (case r of (a, b, p) \<Rightarrow> record_head a b (length p) @ p)"

definition record_ok :: "tls_record \<Rightarrow> bool" where
  "record_ok r = (case r of (a, b, p) \<Rightarrow> 0x0301 \<le> be16 a b \<and> be16 a b \<le> 0x0304 \<and> p \<noteq> [] \<and> length p \<le> maxRecordLen)"

abbreviation wire :: "tls_record list \<Rightarrow> string" where "wire rs \<equiv> concat (map record_bytes rs)"
abbreviation message :: "tls_record list \<Rightarrow> string" where "message rs \<equiv> concat (map (\<lambda>(a, b, p). p) rs)"

definition whole :: "string \<Rightarrow> bool" where
  "whole hs \<longleftrightarrow> handshakeHeaderLen \<le> length hs \<and> byte (hs ! 0) = 1 \<and> need hs = length hs"

lemma byte_bound: "byte c < 256"
  by (rule nat_of_char_less_256)

lemma byte_of [simp]: "byte (byte_of n) = n mod 256"
  by (simp add: byte_of_def)

lemma byte_of_byte [simp]: "byte_of (byte c) = c"
  by (simp add: byte_of_def mod_less [OF byte_bound])

lemma be16_put16: "n < 65536 \<Longrightarrow> be16 (byte_of (n div 256)) (byte_of n) = n"
  by (simp add: be16_def)

lemma be16_bound: "be16 a b < 65536"
  unfolding be16_def using byte_bound [of a] byte_bound [of b] by linarith

lemma put16_be16: "put16 (be16 a b) = [a, b]"
proof -
  have "be16 a b div 256 = byte a" "be16 a b mod 256 = byte b"
    using byte_bound [of b] by (simp_all add: be16_def)
  then have "byte_of (be16 a b div 256) = a" "byte_of (be16 a b) = byte_of (byte b)"
    by (simp_all add: byte_of_def)
  then show ?thesis by (simp add: put16_def)
qed

lemma need_append: "handshakeHeaderLen \<le> length hs \<Longrightarrow> need (hs @ t) = need hs"
  by (simp add: need_def nth_append)

lemma header_Inr:
  assumes "recordHeaderLen \<le> length b"
  shows "header a (take recordHeaderLen b) = Inr n \<longleftrightarrow>
    as_records a + recordHeaderLen + n \<le> MaxHelloBytes \<and> 1 \<le> n \<and> n \<le> maxRecordLen \<and>
    (\<exists>x y t. b = record_head x y n @ t \<and> 0x0301 \<le> be16 x y \<and> be16 x y \<le> 0x0304)"
proof -
  obtain c x y u v t where b: "b = c # x # y # u # v # t"
    using assms by (auto simp: numeral_eq_Suc Suc_le_length_iff)
  have c: "byte c = 22 \<longleftrightarrow> c = byte_of 22"
    using byte_of [of 22] byte_of_byte [of c] by (auto simp del: byte_of byte_of_byte)
  have uv: "n = be16 u v \<longleftrightarrow> put16 n @ t' = u # v # t" if "n \<le> maxRecordLen" "t' = t" for t'
  proof
    assume "put16 n @ t' = u # v # t"
    then have "u = byte_of (n div 256)" "v = byte_of n" by (simp_all add: put16_def)
    then show "n = be16 u v" using be16_put16 [of n] that by simp
  qed (simp add: put16_be16 that)
  show ?thesis
    unfolding b header_def Let_def using c uv [OF _ refl]
    by (auto simp: put16_def record_head_def)
qed

lemma record_head_length [simp]: "length (record_head x y n) = recordHeaderLen"
  by (simp add: record_head_def put16_def)

lemma record_length: "length (record_bytes (x, y, p)) = recordHeaderLen + length p"
  by (simp add: record_bytes_def)

lemma whole_record:
  assumes "recordHeaderLen \<le> length b" "header a (take recordHeaderLen b) = Inr n" "recordHeaderLen + n \<le> length b"
  obtains x y p where "record_ok (x, y, p)" "length p = n" "p = take n (drop recordHeaderLen b)"
    "b = record_bytes (x, y, p) @ drop (recordHeaderLen + n) b"
    "as_records a + recordHeaderLen + n \<le> MaxHelloBytes"
proof -
  obtain x y t where b: "b = record_head x y n @ t" "0x0301 \<le> be16 x y" "be16 x y \<le> 0x0304"
    "as_records a + recordHeaderLen + n \<le> MaxHelloBytes" "1 \<le> n" "n \<le> maxRecordLen"
    using header_Inr [OF assms(1), of a n] assms(2) by auto
  have t: "n \<le> length t" using assms(3) b(1) by simp
  show ?thesis
  proof (rule that [of x y "take n t"])
    show "record_ok (x, y, take n t)" using b t by (auto simp: record_ok_def)
    show "b = record_bytes (x, y, take n t) @ drop (recordHeaderLen + n) b"
      using b(1) t by (simp add: record_bytes_def)
  qed (use b t in simp_all)
qed

lemma parse_record:
  assumes "record_ok (x, y, p)" "as_records a + recordHeaderLen + length p \<le> MaxHelloBytes"
  shows "parse_records cb a (record_bytes (x, y, p) @ t) =
    (case payload a p of Inl e \<Rightarrow> Inl e
     | Inr (a', complete) \<Rightarrow> if complete then parseHelloMessage cb (as_hs a') else parse_records cb a' t)"
proof -
  let ?b = "record_bytes (x, y, p) @ t"
  have len: "recordHeaderLen + length p \<le> length ?b" by (simp add: record_length)
  have pos: "1 \<le> length p" using assms(1) by (cases p) (auto simp: record_ok_def)
  have hd: "header a (take recordHeaderLen ?b) = Inr (length p)"
    using assms pos len header_Inr [of ?b a "length p"] by (simp add: record_ok_def record_bytes_def) blast
  have tk: "take (length p) (drop recordHeaderLen ?b) = p" and dr: "drop (recordHeaderLen + length p) ?b = t"
    by (simp_all add: record_bytes_def)
  have nl: "\<not> length ?b < recordHeaderLen + length p" "\<not> length ?b < recordHeaderLen" using len by linarith+
  show ?thesis unfolding parse_records.simps [of cb a ?b] by (simp only: hd tk dr nl if_False sum.case)
qed

lemma payload_Inr:
  "payload a p = Inr (a', complete) \<longleftrightarrow>
     a' = \<lparr>as_records = as_records a + recordHeaderLen + length p, as_hs = as_hs a @ p\<rparr> \<and>
     (if length (as_hs a @ p) < handshakeHeaderLen then \<not> complete
      else byte ((as_hs a @ p) ! 0) = 1 \<and> need (as_hs a @ p) \<le> MaxHelloBytes \<and>
        length (as_hs a @ p) \<le> need (as_hs a @ p) \<and> (complete \<longleftrightarrow> length (as_hs a @ p) = need (as_hs a @ p)))"
  by (auto simp: payload_def Let_def)

lemma whole_prefix:
  assumes "whole (hs @ t)" "t \<noteq> []" "handshakeHeaderLen \<le> length hs"
  shows "byte (hs ! 0) = 1 \<and> need hs = length (hs @ t)"
  using assms need_append [of hs t] by (auto simp: whole_def nth_append split: if_splits)

text \<open>A parse that succeeds, from any state of the assembler: exactly the records of one whole message.\<close>

lemma parse_records_Inr:
  "parse_records cb a b = Inr h \<Longrightarrow>
   \<exists>rs t. rs \<noteq> [] \<and> b = wire rs @ t \<and> list_all record_ok rs \<and> as_records a + length (wire rs) \<le> MaxHelloBytes \<and>
     whole (as_hs a @ message rs) \<and> parseHelloMessage cb (as_hs a @ message rs) = Inr h"
proof (induction cb a b rule: parse_records.induct)
  case (1 cb a b)
  have long: "recordHeaderLen \<le> length b"
    using "1.prems" by (subst (asm) parse_records.simps) (simp split: if_splits)
  obtain n where n: "header a (take recordHeaderLen b) = Inr n"
    using "1.prems" long by (subst (asm) parse_records.simps) (auto split: sum.splits)
  have fits: "recordHeaderLen + n \<le> length b"
    using "1.prems" long n by (subst (asm) parse_records.simps) (auto split: if_splits)
  obtain x y p where r: "record_ok (x, y, p)" "length p = n" "p = take n (drop recordHeaderLen b)"
    "b = record_bytes (x, y, p) @ drop (recordHeaderLen + n) b" "as_records a + recordHeaderLen + n \<le> MaxHelloBytes"
    using whole_record [OF long n fits] by blast
  let ?t = "drop (recordHeaderLen + n) b"
  have step: "parse_records cb a b = (case payload a p of Inl e \<Rightarrow> Inl e
     | Inr (a', complete) \<Rightarrow> if complete then parseHelloMessage cb (as_hs a') else parse_records cb a' ?t)"
    using parse_record [OF r(1), of a cb ?t] r(2,5) by (simp add: r(4) [symmetric])
  then obtain a' complete where a': "payload a p = Inr (a', complete)"
    using "1.prems" by (auto split: sum.splits)
  have hs: "as_hs a' = as_hs a @ p" "as_records a' = as_records a + recordHeaderLen + length p"
    using a' by (simp_all add: payload_Inr)
  show ?case
  proof (cases complete)
    case True
    then have "whole (as_hs a @ p)" using a' by (auto simp: payload_Inr whole_def split: if_splits)
    moreover have "parseHelloMessage cb (as_hs a @ p) = Inr h" using step "1.prems" a' True hs by simp
    ultimately show ?thesis using r
      by (intro exI [of _ "[(x, y, p)]"] exI [of _ ?t]) (simp add: record_length)
  next
    case False
    then have rest: "parse_records cb a' ?t = Inr h" using step "1.prems" a' by simp
    have "\<exists>rs t. rs \<noteq> [] \<and> ?t = wire rs @ t \<and> list_all record_ok rs \<and> as_records a' + length (wire rs) \<le> MaxHelloBytes \<and>
     whole (as_hs a' @ message rs) \<and> parseHelloMessage cb (as_hs a' @ message rs) = Inr h"
      using "1.IH" [OF _ n _ _ _ _ rest, of "(a', complete)" complete] long fits a' False r(3) by auto
    then obtain rs t where rs: "rs \<noteq> []" "?t = wire rs @ t" "list_all record_ok rs"
      "as_records a' + length (wire rs) \<le> MaxHelloBytes" "whole (as_hs a' @ message rs)"
      "parseHelloMessage cb (as_hs a' @ message rs) = Inr h" by blast
    have "b = wire ((x, y, p) # rs) @ t" using r(4) rs(2) by simp
    then show ?thesis using rs r hs
      by (intro exI [of _ "(x, y, p) # rs"] exI [of _ t]) (simp add: record_length)
  qed
qed

lemma message_le_wire: "length (message rs) \<le> length (wire rs)"
  by (induction rs) (auto simp: record_length split: prod.split)

text \<open>The payload of a record of a whole message: it is complete with the last record and only with it.\<close>

lemma payload_wire:
  assumes "list_all record_ok ((x, y, p) # rs)" "as_records a + length (wire ((x, y, p) # rs)) \<le> MaxHelloBytes"
    and "length (as_hs a) \<le> as_records a" "whole (as_hs a @ message ((x, y, p) # rs))"
  shows "payload a p = Inr (\<lparr>as_records = as_records a + recordHeaderLen + length p, as_hs = as_hs a @ p\<rparr>, rs = [])"
proof (cases "rs = []")
  case True
  then show ?thesis using assms by (auto simp: payload_Inr whole_def record_length)
next
  case False
  let ?hs = "as_hs a @ p"
  have ne: "message rs \<noteq> []"
    using False assms(1) by (cases rs) (auto simp: record_ok_def split: prod.splits)
  have w: "whole (?hs @ message rs)" using assms(4) by simp
  have bound: "length (?hs @ message rs) \<le> MaxHelloBytes"
    using message_le_wire [of rs] assms(2,3) by (simp add: record_length)
  show ?thesis
  proof (cases "length ?hs < handshakeHeaderLen")
    case long: False
    then have "byte (?hs ! 0) = 1 \<and> need ?hs = length (?hs @ message rs)"
      using whole_prefix [OF w ne] by (simp only: not_less)
    then show ?thesis using bound ne long False by (auto simp: payload_Inr)
  qed (simp add: payload_Inr False)
qed

lemma parse_wire:
  assumes "rs \<noteq> []" "list_all record_ok rs" "as_records a + length (wire rs) \<le> MaxHelloBytes"
    and "length (as_hs a) \<le> as_records a" "whole (as_hs a @ message rs)"
  shows "parse_records cb a (wire rs @ t) = parseHelloMessage cb (as_hs a @ message rs)"
  using assms
proof (induction rs arbitrary: a)
  case (Cons r rs)
  obtain x y p where r: "r = (x, y, p)" by (cases r)
  let ?a = "\<lparr>as_records = as_records a + recordHeaderLen + length p, as_hs = as_hs a @ p\<rparr>"
  have ok: "record_ok (x, y, p)" and fits: "as_records a + recordHeaderLen + length p \<le> MaxHelloBytes"
    using Cons.prems r by (simp_all add: record_length)
  have pay: "payload a p = Inr (?a, rs = [])" by (rule payload_wire) (use Cons.prems r in simp_all)
  have "parse_records cb ?a (wire rs @ t) = parseHelloMessage cb (as_hs ?a @ message rs)" if "rs \<noteq> []"
    by (rule Cons.IH) (use that Cons.prems r in \<open>simp_all add: record_length\<close>)
  then show ?case using parse_record [OF ok fits, of cb "wire rs @ t"] r pay by (cases "rs = []") simp_all
qed simp

lemma parse_records_iff:
  assumes "length (as_hs a) \<le> as_records a"
  shows "parse_records cb a b = Inr h \<longleftrightarrow>
    (\<exists>rs t. rs \<noteq> [] \<and> b = wire rs @ t \<and> list_all record_ok rs \<and> as_records a + length (wire rs) \<le> MaxHelloBytes \<and>
       whole (as_hs a @ message rs) \<and> parseHelloMessage cb (as_hs a @ message rs) = Inr h)"
  using parse_records_Inr [of cb a b h] parse_wire [OF _ _ _ assms] by metis

text \<open>
  C23. A hello is accepted whatever way it is cut into records, and nothing else is: the buffer starts with
  handshake records of the allowed versions, none empty or longer than 2^14, together at most 64 KiB,
  whose payloads are one whole ClientHello and not a byte more, and the verdict is that of the message alone.
\<close>

theorem ClientHello_exact:
  "ParseClientHello cb b = Inr h \<longleftrightarrow>
    (\<exists>rs t. rs \<noteq> [] \<and> b = wire rs @ t \<and> list_all record_ok rs \<and> length (wire rs) \<le> MaxHelloBytes \<and>
       whole (message rs) \<and> parseHelloMessage cb (message rs) = Inr h)"
  unfolding ParseClientHello_def by (subst parse_records_iff) (simp_all add: new_assembler_def)

subsection \<open>The reader\<close>

text \<open>From any state the reader accepts what the parser accepts, with the same verdict.\<close>

lemma header_room: "header a h = Inr n \<Longrightarrow> \<not> MaxHelloBytes < as_records a + recordHeaderLen + 1"
  by (auto simp: header_def Let_def split: if_splits)

lemma read_parse: "fst (read_records cb a raw s) = Inr h \<longleftrightarrow> parse_records cb a s = Inr h"
proof (induction cb a raw s rule: read_records.induct)
  case (1 cb a raw s)
  consider (short) "length s < recordHeaderLen" | (bad) e where "recordHeaderLen \<le> length s" "header a (take recordHeaderLen s) = Inl e"
    | (good) n where "recordHeaderLen \<le> length s" "header a (take recordHeaderLen s) = Inr n"
    by (metis leI sum.exhaust)
  then show ?case
  proof cases
    case good
    then show ?thesis using "1.IH" header_room [OF good(2)]
      by (subst read_records.simps, subst parse_records.simps) (auto split: sum.split)
  qed (auto simp: read_records.simps [of cb a raw s] parse_records.simps [of cb a s])
qed

lemma read_record:
  assumes "record_ok (x, y, p)" "as_records a + recordHeaderLen + length p \<le> MaxHelloBytes"
  shows "read_records cb a raw (record_bytes (x, y, p) @ t) =
    (case payload a p of Inl e \<Rightarrow> (Inl e, raw @ record_bytes (x, y, p))
     | Inr (a', complete) \<Rightarrow> if complete then (parseHelloMessage cb (as_hs a'), raw @ record_bytes (x, y, p))
        else read_records cb a' (raw @ record_bytes (x, y, p)) t)"
proof -
  let ?b = "record_bytes (x, y, p) @ t"
  have len: "recordHeaderLen + length p \<le> length ?b" by (simp add: record_length)
  have pos: "1 \<le> length p" using assms(1) by (cases p) (auto simp: record_ok_def)
  have hd: "header a (take recordHeaderLen ?b) = Inr (length p)"
    using assms pos len header_Inr [of ?b a "length p"] by (simp add: record_ok_def record_bytes_def) blast
  have tk: "take (length p) (drop recordHeaderLen ?b) = p" "take (recordHeaderLen + length p) ?b = record_bytes (x, y, p)"
    "drop (recordHeaderLen + length p) ?b = t"
    by (simp_all add: record_bytes_def)
  have nl: "\<not> length ?b < recordHeaderLen + length p" "\<not> length ?b < recordHeaderLen" using len by linarith+
  show ?thesis unfolding read_records.simps [of cb a raw ?b] Let_def
    by (simp only: hd tk nl header_room [OF hd] if_False sum.case)
qed

lemma read_wire:
  assumes "rs \<noteq> []" "list_all record_ok rs" "as_records a + length (wire rs) \<le> MaxHelloBytes"
    and "length (as_hs a) \<le> as_records a" "whole (as_hs a @ message rs)"
  shows "read_records cb a raw (wire rs @ t) = (parseHelloMessage cb (as_hs a @ message rs), raw @ wire rs)"
  using assms
proof (induction rs arbitrary: a raw)
  case (Cons r rs)
  obtain x y p where r: "r = (x, y, p)" by (cases r)
  let ?a = "\<lparr>as_records = as_records a + recordHeaderLen + length p, as_hs = as_hs a @ p\<rparr>"
  have ok: "record_ok (x, y, p)" and fits: "as_records a + recordHeaderLen + length p \<le> MaxHelloBytes"
    using Cons.prems r by (simp_all add: record_length)
  have pay: "payload a p = Inr (?a, rs = [])" by (rule payload_wire) (use Cons.prems r in simp_all)
  have "read_records cb ?a raw' (wire rs @ t) = (parseHelloMessage cb (as_hs ?a @ message rs), raw' @ wire rs)"
    if "rs \<noteq> []" for raw'
    by (rule Cons.IH) (use that Cons.prems r in \<open>simp_all add: record_length\<close>)
  then show ?case using read_record [OF ok fits, of cb raw "wire rs @ t"] r pay by (cases "rs = []") simp_all
qed simp

text \<open>Whatever the verdict, what was read is a prefix of the stream and stays under the cap.\<close>

lemma read_bounded:
  "as_records a \<le> MaxHelloBytes \<Longrightarrow> \<exists>got t. s = got @ t \<and> snd (read_records cb a raw s) = raw @ got \<and> as_records a + length got \<le> MaxHelloBytes"
proof (induction cb a raw s rule: read_records.induct)
  case (1 cb a raw s)
  let ?goal = "\<lambda>r. \<exists>got t. s = got @ t \<and> snd r = raw @ got \<and> as_records a + length got \<le> MaxHelloBytes"
  have upto: "?goal (v, raw @ take k s)" if "as_records a + k \<le> MaxHelloBytes" for v k
    using that by (intro exI [of _ "take k s"] exI [of _ "drop k s"]) simp
  consider (full) "MaxHelloBytes < as_records a + recordHeaderLen + 1" | (short) "\<not> MaxHelloBytes < as_records a + recordHeaderLen + 1" "length s < recordHeaderLen"
    | (bad) e where "\<not> MaxHelloBytes < as_records a + recordHeaderLen + 1" "recordHeaderLen \<le> length s" "header a (take recordHeaderLen s) = Inl e"
    | (cut) n where "\<not> MaxHelloBytes < as_records a + recordHeaderLen + 1" "recordHeaderLen \<le> length s" "header a (take recordHeaderLen s) = Inr n" "length s < recordHeaderLen + n"
    | (good) n where "recordHeaderLen \<le> length s" "header a (take recordHeaderLen s) = Inr n" "recordHeaderLen + n \<le> length s"
    by (metis leI sum.exhaust)
  then show ?case
  proof cases
    case good
    obtain x y p where r: "record_ok (x, y, p)" "length p = n" 
      "s = record_bytes (x, y, p) @ drop (recordHeaderLen + n) s" "as_records a + recordHeaderLen + n \<le> MaxHelloBytes"
      using whole_record [OF good] by blast
    let ?r = "record_bytes (x, y, p)" and ?t = "drop (recordHeaderLen + n) s"
    have tk: "take (recordHeaderLen + n) s = ?r" "take n (drop recordHeaderLen s) = p"
      by (subst r(3), simp add: record_bytes_def r(2))+
    have step: "read_records cb a raw s = (case payload a p of Inl e \<Rightarrow> (Inl e, raw @ ?r)
     | Inr (a', complete) \<Rightarrow> if complete then (parseHelloMessage cb (as_hs a'), raw @ ?r) else read_records cb a' (raw @ ?r) ?t)"
      by (subst r(3), rule read_record [OF r(1)]) (use r in simp)
    have one: "?goal (v, raw @ ?r)" for v using upto [of "recordHeaderLen + n" v] r(4) tk by simp
    have more: "?goal (read_records cb a' (raw @ ?r) ?t)" if a': "payload a p = Inr (a', False)" for a'
    proof -
      have n: "as_records a' = as_records a + recordHeaderLen + n" using a' r(2) by (simp add: payload_Inr)
      have "\<exists>got t. ?t = got @ t \<and> snd (read_records cb a' (raw @ ?r) ?t) = (raw @ ?r) @ got \<and> as_records a' + length got \<le> MaxHelloBytes"
        using "1.IH" [of n "raw @ ?r" "(a', False)" a' False] good header_room [OF good(2)] a' r(4) n tk by simp
      then obtain got t where "?t = got @ t" "snd (read_records cb a' (raw @ ?r) ?t) = (raw @ ?r) @ got"
        "as_records a' + length got \<le> MaxHelloBytes" by blast
      then show ?thesis using r(2,3) n by (intro exI [of _ "?r @ got"] exI [of _ t]) (simp add: record_length)
    qed
    show ?thesis
    proof (cases "payload a p")
      case (Inr res)
      obtain a' complete where "res = (a', complete)" by (cases res)
      then show ?thesis using Inr one [of "parseHelloMessage cb (as_hs a')"] more [of a'] unfolding step by (cases complete) simp_all
    qed (use one in \<open>simp add: step\<close>)
  qed (use upto [of 0] upto [of recordHeaderLen] "1.prems" in \<open>subst read_records.simps, simp\<close>)+
qed

text \<open>
  C24. The tunnel reads the hello as its parser judges it: the stream is accepted exactly when the parser
  accepts it, the bytes kept for forwarding are a prefix of the stream and at most 64 KiB, and on success they are
  the whole hello, accepted again with the same verdict, and no byte more, for no shorter prefix is accepted.
\<close>

theorem reader_refines_parser:
  assumes "ReadClientHello cb s = (v, raw)"
  shows "(\<exists>t. s = raw @ t) \<and> length raw \<le> MaxHelloBytes \<and> (v = Inr h \<longleftrightarrow> ParseClientHello cb s = Inr h) \<and>
    (v = Inr h \<longrightarrow> ParseClientHello cb raw = Inr h \<and> (\<forall>m h'. m < length raw \<longrightarrow> ParseClientHello cb (take m raw) \<noteq> Inr h'))"
proof (intro conjI impI allI)
  have rd: "read_records cb new_assembler [] s = (v, raw)" using assms by (simp add: ReadClientHello_def)
  have na: "length (as_hs new_assembler) \<le> as_records new_assembler" "as_records new_assembler = 0" "as_hs new_assembler = []"
    by (simp_all add: new_assembler_def)
  show pre: "\<exists>t. s = raw @ t" and "length raw \<le> MaxHelloBytes"
    using read_bounded [of new_assembler s cb "[]"] by (auto simp: rd na)
  show same: "v = Inr h \<longleftrightarrow> ParseClientHello cb s = Inr h"
    using read_parse [of cb new_assembler "[]" s h] by (simp add: rd ParseClientHello_def)
  have cut: "raw = wire rs" if "rs \<noteq> []" "list_all record_ok rs" "length (wire rs) \<le> MaxHelloBytes" "whole (message rs)" "s = wire rs @ t" for rs t
    using read_wire [of rs new_assembler cb "[]" t] that na rd by simp
  assume "v = Inr h"
  then obtain rs t where rs: "rs \<noteq> []" "s = wire rs @ t" "list_all record_ok rs" "length (wire rs) \<le> MaxHelloBytes"
    "whole (message rs)" "parseHelloMessage cb (message rs) = Inr h"
    using same parse_records_iff [OF na(1), of cb s h] na by (auto simp: ParseClientHello_def)
  then show "ParseClientHello cb raw = Inr h"
    using parse_wire [of rs new_assembler cb "[]"] cut [of rs t] na by (simp add: ParseClientHello_def)
  fix m h' assume m: "m < length raw"
  show "ParseClientHello cb (take m raw) \<noteq> Inr h'"
  proof
    assume "ParseClientHello cb (take m raw) = Inr h'"
    then obtain rs t where rs: "rs \<noteq> []" "take m raw = wire rs @ t" "list_all record_ok rs" "length (wire rs) \<le> MaxHelloBytes" "whole (message rs)"
      using parse_records_iff [OF na(1), of cb "take m raw" h'] na by (auto simp: ParseClientHello_def)
    obtain u where "raw = wire rs @ u" using rs(2) by (metis append_assoc append_take_drop_id)
    then obtain u' where "s = wire rs @ u'" using pre by (metis append_assoc)
    then have "raw = wire rs" using cut rs by blast
    moreover have "length (take m raw) = length (wire rs) + length t" using rs(2) by (metis length_append)
    ultimately show False using m by simp
  qed
qed

subsection \<open>Building a hello\<close>

text \<open>What a client sends: an extension by its kind, and the message made of the fixed fields and the extensions.\<close>

datatype ext = ServerName string | ALPN "string list" | Other nat string

definition p8 :: "string \<Rightarrow> string" where "p8 d = byte_of (length d) # d"
definition p16 :: "string \<Rightarrow> string" where "p16 d = put16 (length d) @ d"

fun ext_type :: "ext \<Rightarrow> nat" where
  "ext_type (ServerName _) = extServerName"
| "ext_type (ALPN _) = extALPN"
| "ext_type (Other ty _) = ty"

fun ext_data :: "ext \<Rightarrow> string" where
  "ext_data (ServerName n) = p16 (byte_of 0 # p16 n)"
| "ext_data (ALPN ps) = p16 (concat (map p8 ps))"
| "ext_data (Other _ d) = d"

fun ext_ok :: "ext \<Rightarrow> bool" where
  "ext_ok (ServerName n) \<longleftrightarrow> n \<noteq> [] \<and> printable_name n \<and> length n < 60000"
| "ext_ok (ALPN ps) \<longleftrightarrow> ps \<noteq> [] \<and> list_all (\<lambda>p. p \<noteq> [] \<and> length p < 256) ps \<and> length (concat (map p8 ps)) < 60000"
| "ext_ok (Other ty d) \<longleftrightarrow> ty < 65536 \<and> ty \<noteq> extServerName \<and> ty \<noteq> extALPN \<and> length d < 65536"

definition ext_bytes :: "ext \<Rightarrow> string" where "ext_bytes e = put16 (ext_type e) @ p16 (ext_data e)"

fun see :: "ext \<Rightarrow> hello \<Rightarrow> hello" where
  "see (ServerName n) h = h\<lparr>h_SNI := n\<rparr>"
| "see (ALPN ps) h = h\<lparr>h_ALPN := ps\<rparr>"
| "see (Other ty _) h = h\<lparr>h_HasECH := h_HasECH h \<or> ty \<in> {extECH, extESNI}, h_Legacy := h_Legacy h \<or> ty = extESNI\<rparr>"

record fixed_fields =
  f_version :: nat
  f_random :: string
  f_session :: string
  f_suites :: string
  f_compress :: string

definition fixed_ok :: "fixed_fields \<Rightarrow> bool" where
  "fixed_ok f \<longleftrightarrow> f_version f < 65536 \<and> length (f_random f) = 32 \<and> length (f_session f) \<le> 32 \<and>
     f_suites f \<noteq> [] \<and> even (length (f_suites f)) \<and> length (f_suites f) < 65536 \<and> f_compress f \<noteq> [] \<and> length (f_compress f) < 256"

definition fixed_bytes :: "fixed_fields \<Rightarrow> string" where
  "fixed_bytes f = put16 (f_version f) @ f_random f @ p8 (f_session f) @ p16 (f_suites f) @ p8 (f_compress f)"

definition client_hello :: "fixed_fields \<Rightarrow> ext list \<Rightarrow> string" where
  "client_hello f es =
     (let body = fixed_bytes f @ p16 (concat (map ext_bytes es)); n = length body in
      byte_of 1 # byte_of (n div 65536) # put16 n @ body)"

lemma read_put16: "n < 65536 \<Longrightarrow> read_u16 (put16 n @ s) = Some (n, s)"
  by (simp add: read_u16_def put16_def be16_put16)

lemma read_p16_p16: "length d < 65536 \<Longrightarrow> read_p16 (p16 d @ s) = Some (d, s)"
  by (simp add: read_p16_def p16_def read_put16 read_bytes_def)

lemma read_p8_p8: "length d < 256 \<Longrightarrow> read_p8 (p8 d @ s) = Some (d, s)"
  by (simp add: read_p8_def p8_def read_u8_def read_bytes_def)

lemmas read_back = read_put16 read_p16_p16 read_p8_p8 read_p16_p16 [of _ "[]", simplified] read_p8_p8 [of _ "[]", simplified]

lemma p8_ne [simp]: "p8 d \<noteq> []" by (simp add: p8_def)
lemma p16_ne [simp]: "p16 d \<noteq> []" by (simp add: p16_def put16_def)
lemma length_p8 [simp]: "length (p8 d) = Suc (length d)" by (simp add: p8_def)
lemma length_p16 [simp]: "length (p16 d) = length d + 2" by (simp add: p16_def put16_def)
lemma length_put16 [simp]: "length (put16 n) = 2" by (simp add: put16_def)
lemma ext_bytes_length: "length (ext_bytes e) = length (ext_data e) + 4" by (simp add: ext_bytes_def)

lemma protocols_back:
  assumes "cryptobyte_laws cb"
  shows "list_all (\<lambda>p. p \<noteq> [] \<and> length p < 256) ps \<Longrightarrow> length (concat (map p8 ps)) \<le> k \<Longrightarrow>
    protocols cb k (concat (map p8 ps)) = Inr ps"
proof (induction ps arbitrary: k)
  case Nil
  then show ?case by (cases k) simp_all
next
  case (Cons p ps)
  then obtain j where "k = Suc j" by (cases k) auto
  then show ?case using Cons assms by (simp add: cryptobyte_laws_def read_back)
qed

lemma extension_back:
  assumes "cryptobyte_laws cb" "ext_ok e"
  shows "extension cb (ext_type e) (ext_data e) (h, err) = Inr (see e h, err)"
proof (cases e)
  case (ServerName n)
  let ?l = "byte_of 0 # p16 n"
  have "server_names cb (length ?l) ?l (0, [], True) = Inr (1, n, True)"
    using assms ServerName by (simp add: cryptobyte_laws_def read_u8_def read_back)
  then show ?thesis using assms ServerName
    by (simp add: extension_def parseServerName_def cryptobyte_laws_def read_back)
next
  case (ALPN ps)
  then show ?thesis using assms protocols_back [OF assms(1), of ps "length (concat (map p8 ps))"]
    by (cases ps) (auto simp: extension_def parseALPN_def cryptobyte_laws_def read_back)
next
  case (Other ty d)
  then show ?thesis using assms by (auto simp: extension_def)
qed

lemma extensions_back:
  assumes "cryptobyte_laws cb"
  shows "list_all ext_ok es \<Longrightarrow> list_all (\<lambda>e. length (ext_data e) < 65536) es \<Longrightarrow> distinct (map ext_type es) \<Longrightarrow>
    set (map ext_type es) \<inter> set seen = {} \<Longrightarrow> length (concat (map ext_bytes es)) \<le> k \<Longrightarrow>
    extensions cb k seen (concat (map ext_bytes es)) (h, err) = Inr (fold see es h, err)"
proof (induction es arbitrary: k seen h)
  case Nil
  then show ?case by (cases k) simp_all
next
  case (Cons e es)
  then obtain j where j: "k = Suc j" by (cases k) (auto simp: ext_bytes_def)
  have ty: "ext_type e < 65536" using Cons.prems(1) by (cases e) auto
  have ne: "ext_bytes e \<noteq> []" by (simp add: ext_bytes_def)
  have "cb_u16 cb (ext_bytes e @ r) = Some (ext_type e, p16 (ext_data e) @ r)" "cb_p16 cb (p16 (ext_data e) @ r) = Some (ext_data e, r)" for r
    using assms Cons.prems(2) ty by (simp_all add: cryptobyte_laws_def ext_bytes_def read_back)
  moreover have "extension cb (ext_type e) (ext_data e) (h, err) = Inr (see e h, err)"
    using extension_back [OF assms] Cons.prems(1) by simp
  moreover have "extensions cb j (ext_type e # seen) (concat (map ext_bytes es)) (see e h, err) = Inr (fold see es (see e h), err)"
    by (rule Cons.IH) (use Cons.prems j in \<open>auto simp: ext_bytes_length\<close>)
  ultimately show ?case using ne Cons.prems(3,4) j by (simp add: disjoint_iff)
qed

lemma fixed_back:
  "cryptobyte_laws cb \<Longrightarrow> fixed_ok f \<Longrightarrow> skipFixedFields cb (fixed_bytes f @ s) = Some s"
  by (simp add: fixed_ok_def fixed_bytes_def skipFixedFields_def cryptobyte_laws_def read_back read_bytes_def)

lemma ext_data_bound: "ext_ok e \<Longrightarrow> length (ext_data e) < 65536"
  by (cases e) simp_all

lemma hello_back:
  assumes "cryptobyte_laws cb" "fixed_ok f" "list_all ext_ok es" "distinct (map ext_type es)"
    and "length (concat (map ext_bytes es)) < 65536"
  shows "parseHelloMessage cb (client_hello f es) = Inr (fold see es no_hello)"
proof -
  let ?l = "concat (map ext_bytes es)"
  have "drop handshakeHeaderLen (client_hello f es) = fixed_bytes f @ p16 ?l"
    by (simp add: client_hello_def Let_def put16_def)
  moreover have "list_all (\<lambda>e. length (ext_data e) < 65536) es"
    using assms(3) ext_data_bound by (auto simp: list_all_iff)
  then have "extensions cb (length ?l) [] ?l (no_hello, False) = Inr (fold see es no_hello, False)"
    using extensions_back [OF assms(1,3)] assms(4) by simp
  moreover have "cb_p16 cb (p16 ?l) = Some (?l, [])" using assms(1,5) by (simp add: cryptobyte_laws_def read_back)
  ultimately show ?thesis
    using fixed_back [OF assms(1,2), of "p16 ?l"] by (simp add: parseHelloMessage_def parseExtensions_def)
qed

lemma client_hello_whole:
  assumes "length (client_hello f es) \<le> MaxHelloBytes"
  shows "whole (client_hello f es)"
proof -
  define n where "n = length (fixed_bytes f @ p16 (concat (map ext_bytes es)))"
  have len: "length (client_hello f es) = handshakeHeaderLen + n" unfolding client_hello_def Let_def n_def by (simp add: put16_def)
  have n: "n < 65536" using assms len by (simp add: MaxHelloBytes_def)
  have "need (client_hello f es) = handshakeHeaderLen + (n div 65536 mod 256 * 65536 + n div 256 mod 256 * 256 + n mod 256)"
    unfolding client_hello_def Let_def n_def [symmetric] by (simp add: need_def put16_def)
  then have "need (client_hello f es) = handshakeHeaderLen + n" using n by simp
  then show ?thesis using len by (simp add: whole_def client_hello_def Let_def put16_def)
qed

lemma fold_see_ech: "h_HasECH (fold see es h) \<longleftrightarrow> h_HasECH h \<or> (\<exists>ty d. Other ty d \<in> set es \<and> ty \<in> {extECH, extESNI})"
proof (induction es arbitrary: h)
  case (Cons e es)
  then show ?case by (cases e) auto
qed simp

lemma fold_see_sni_other: "extServerName \<notin> set (map ext_type es) \<Longrightarrow> h_SNI (fold see es h) = h_SNI h"
proof (induction es arbitrary: h)
  case (Cons e es)
  then show ?case by (cases e) auto
qed simp

lemma fold_see_sni:
  assumes "ServerName n \<in> set es" "distinct (map ext_type es)"
  shows "h_SNI (fold see es h) = n"
  using assms
proof (induction es arbitrary: h)
  case (Cons e es)
  then show ?case by (cases "e = ServerName n") (auto simp: fold_see_sni_other)
qed simp

lemma hello_accepted:
  assumes "cryptobyte_laws cb" "fixed_ok f" "list_all ext_ok es" "distinct (map ext_type es)"
    and "length (concat (map ext_bytes es)) < 65536"
    and "rs \<noteq> []" "list_all record_ok rs" "message rs = client_hello f es" "length (wire rs) \<le> MaxHelloBytes"
  shows "ParseClientHello cb (wire rs @ t) = Inr (fold see es no_hello) \<and>
    ReadClientHello cb (wire rs @ t) = (Inr (fold see es no_hello), wire rs)"
proof -
  have "length (client_hello f es) \<le> MaxHelloBytes" using message_le_wire [of rs] assms(8,9) by simp
  then have w: "whole (message rs)" using client_hello_whole assms(8) by simp
  have "parseHelloMessage cb (message rs) = Inr (fold see es no_hello)" using hello_back [OF assms(1-5)] assms(8) by simp
  then show ?thesis
    using parse_wire [of rs new_assembler cb t] read_wire [of rs new_assembler cb "[]" t] assms(6,7,9) w
    by (simp add: ParseClientHello_def ReadClientHello_def new_assembler_def)
qed

text \<open>
  C26. A hello that a client builds by the rules is read back, however it is cut into records and whatever
  follows it: the server name is the one it carries and encrypted client hello is reported exactly when one
  of its two extensions is there.
\<close>

theorem hello_roundtrip:
  assumes "cryptobyte_laws cb" "fixed_ok f" "list_all ext_ok es" "distinct (map ext_type es)"
    and "length (concat (map ext_bytes es)) < 65536" "ServerName n \<in> set es"
    and "rs \<noteq> []" "list_all record_ok rs" "message rs = client_hello f es" "length (wire rs) \<le> MaxHelloBytes"
  shows "\<exists>h. ParseClientHello cb (wire rs @ t) = Inr h \<and> ReadClientHello cb (wire rs @ t) = (Inr h, wire rs) \<and> h_SNI h = n \<and>
    (h_HasECH h \<longleftrightarrow> (\<exists>d. Other extECH d \<in> set es \<or> Other extESNI d \<in> set es))"
proof -
  have "h_SNI (fold see es no_hello) = n" by (rule fold_see_sni [OF assms(6,4)])
  moreover have "h_HasECH (fold see es no_hello) \<longleftrightarrow> (\<exists>d. Other extECH d \<in> set es \<or> Other extESNI d \<in> set es)"
    unfolding fold_see_ech by (auto simp: no_hello_def)
  ultimately show ?thesis using hello_accepted [OF assms(1-5) assms(7-10), of t] by blast
qed

text \<open>The demo hello: two records, the second holding the end of the message.\<close>

definition demo_fixed :: fixed_fields where
  "demo_fixed = \<lparr>f_version = 0x0303, f_random = replicate 32 (CHR ''r''), f_session = [], f_suites = ''sh'', f_compress = ''c''\<rparr>"

definition demo_exts :: "ext list" where "demo_exts = [Other 43 ''tls'', ServerName ''go.dev'']"

definition demo_records :: "tls_record list" where
  "demo_records = (let m = client_hello demo_fixed demo_exts in
     [(byte_of 3, byte_of 1, take 60 m), (byte_of 3, byte_of 1, drop 60 m)])"

lemma demo_laws: "cryptobyte_laws demo_cursor"
  by (simp add: cryptobyte_laws_def demo_cursor_def)

lemma demo_message: "message demo_records = client_hello demo_fixed demo_exts"
  by (simp add: demo_records_def Let_def)

lemma demo_length: "length (client_hello demo_fixed demo_exts) = 69"
  by (simp add: client_hello_def Let_def fixed_bytes_def demo_fixed_def demo_exts_def ext_bytes_def)

lemma demo_records_ok: "list_all record_ok demo_records" "length (wire demo_records) \<le> MaxHelloBytes" "demo_records \<noteq> []"
  using demo_length by (auto simp: demo_records_def Let_def record_ok_def record_length be16_def MaxHelloBytes_def)

lemma demo_hello_ok: "fixed_ok demo_fixed" "list_all ext_ok demo_exts" "distinct (map ext_type demo_exts)"
  "length (concat (map ext_bytes demo_exts)) < 65536"
  by (simp_all add: demo_fixed_def fixed_ok_def demo_exts_def printable_name_def ext_bytes_def)

lemma hello_roundtrip_witness:
  "\<exists>h. ReadClientHello demo_cursor (wire demo_records @ ''more'') = (Inr h, wire demo_records) \<and> h_SNI h = ''go.dev''"
proof -
  have "ServerName ''go.dev'' \<in> set demo_exts" by (simp add: demo_exts_def)
  then show ?thesis
    using hello_roundtrip [OF demo_laws demo_hello_ok _ demo_records_ok(3,1) demo_message demo_records_ok(2), of "''go.dev''" "''more''"]
    by blast
qed

lemma reader_refines_parser_witness:
  "ParseClientHello demo_cursor (wire demo_records) = Inr (fold see demo_exts no_hello) \<and>
   (\<forall>h'. ParseClientHello demo_cursor (take 20 (wire demo_records)) \<noteq> Inr h')"
proof -
  have read: "ReadClientHello demo_cursor (wire demo_records @ ''more'') = (Inr (fold see demo_exts no_hello), wire demo_records)"
    using hello_accepted [OF demo_laws demo_hello_ok demo_records_ok(3,1) demo_message demo_records_ok(2)] by blast
  have "20 < length (wire demo_records)"
    using demo_length by (simp add: demo_records_def Let_def record_length)
  then show ?thesis using reader_refines_parser [OF read, of "fold see demo_exts no_hello"] by blast
qed

end
