(* ===== verification/Host.thy ===== *)
theory Host
  imports Regex
begin

text \<open>
  Tunnel host names (\<open>internal/netprofile/host.go\<close>): the grammar written out (\<open>ValidHost\<close>) and as
  the pattern the chart carries, the normalization, and the test for an IP literal in any form. Of
  \<open>net/netip.ParseAddr\<close> the IPv4 form is modelled; the parse of a string with a colon, an IPv6
  address, is the argument \<open>v6\<close>.
\<close>

definition maxHostLen :: nat where "maxHostLen = 253"

definition ldh_char :: "char \<Rightarrow> bool" where
  "ldh_char c \<longleftrightarrow> is_lower c \<or> is_digit c \<or> c = CHR ''-''"

definition ldhLabel :: "string \<Rightarrow> bool" where
  "ldhLabel l \<longleftrightarrow>
     \<not> (l = [] \<or> 63 < length l \<or> hd l = CHR ''-'' \<or> last l = CHR ''-'') \<and> list_all ldh_char l"

definition ValidHost :: "string \<Rightarrow> bool" where
  "ValidHost h \<longleftrightarrow>
     (if length h = 0 \<or> maxHostLen < length h then False
      else let labels = split_on (CHR ''.'') h in
        if length labels < 2 then False
        else if \<not> list_all ldhLabel labels then False
        else is_lower (hd (last labels)))"

definition alnum :: "char \<Rightarrow> bool" where
  "alnum c \<longleftrightarrow> is_lower c \<or> is_digit c"

definition labelRE :: "(char \<Rightarrow> bool) \<Rightarrow> rx" where
  "labelRE p = Seq (Cls p) (Opt (Seq (Rep 0 61 (Cls ldh_char)) (Cls alnum)))"

definition TunnelHostPattern :: rx where
  "TunnelHostPattern =
     Seq (Plus (Seq (labelRE alnum) (Ch (CHR ''.'')))) (labelRE is_lower)"

datatype host_error = EmptyHost | LongHost | BadByte char | TrailingDot | EmptyLabel

definition host_byte :: "char \<Rightarrow> bool" where
  "host_byte c \<longleftrightarrow> is_upper c \<or> is_lower c \<or> is_digit c \<or> c = CHR ''-'' \<or> c = CHR ''.''"

definition NormalizeHost :: "string \<Rightarrow> host_error + string" where
  "NormalizeHost raw =
     (if raw = [] then Inl EmptyHost
      else if maxHostLen < length raw then Inl LongHost
      else case find (\<lambda>c. \<not> host_byte c) raw of
          Some c \<Rightarrow> Inl (BadByte c)
        | None \<Rightarrow>
           (let h = map ascii_lower raw in
            if suffix ''.'' h then Inl TrailingDot
            else if [] \<in> set (split_on (CHR ''.'') h) then Inl EmptyLabel
            else Inr h))"

subsection \<open>IP literals\<close>

fun dec_value :: "nat \<Rightarrow> string \<Rightarrow> nat" where
  "dec_value acc [] = acc"
| "dec_value acc (c # cs) = dec_value (acc * 10 + (byte c - 48)) cs"

definition ip_octet :: "string \<Rightarrow> nat option" where
  "ip_octet s =
     (if s = [] \<or> \<not> list_all is_digit s \<or> (hd s = CHR ''0'' \<and> 1 < length s) \<or> 255 < dec_value 0 s
      then None else Some (dec_value 0 s))"

definition parse_ipv4 :: "string \<Rightarrow> nat option" where
  "parse_ipv4 s =
     (case map ip_octet (split_on (CHR ''.'') s) of
        [Some a, Some b, Some c, Some d] \<Rightarrow> Some (((a * 256 + b) * 256 + c) * 256 + d)
      | _ \<Rightarrow> None)"

definition is_addr :: "(string \<Rightarrow> bool) \<Rightarrow> string \<Rightarrow> bool" where
  "is_addr v6 h \<longleftrightarrow> (if CHR '':'' \<in> set h then v6 h else parse_ipv4 h \<noteq> None)"

definition hex_digit :: "char \<Rightarrow> bool" where
  "hex_digit c \<longleftrightarrow> is_digit c \<or> (97 \<le> byte c \<and> byte c \<le> 102) \<or> (65 \<le> byte c \<and> byte c \<le> 70)"

definition numericPart :: "(string \<Rightarrow> string) \<Rightarrow> string \<Rightarrow> bool" where
  "numericPart ul p \<longleftrightarrow>
     (if p = [] then False
      else case cut_prefix (to_lower ul p) ''0x'' of
          Some rest \<Rightarrow> list_all hex_digit rest
        | None \<Rightarrow> list_all is_digit p)"

definition IPLiteral :: "(string \<Rightarrow> string) \<Rightarrow> (string \<Rightarrow> bool) \<Rightarrow> string \<Rightarrow> bool" where
  "IPLiteral ul v6 h \<longleftrightarrow>
     (if prefix ''['' h then True
      else if is_addr v6 h then True
      else let parts = split_on (CHR ''.'') (trim_suffix h ''.'') in
        length parts \<le> 4 \<and> list_all (numericPart ul) parts)"

definition Hosts_Allows :: "string list \<Rightarrow> string \<Rightarrow> bool" where
  "Hosts_Allows hs h \<longleftrightarrow> h \<in> set hs"

subsection \<open>The label grammar\<close>

lemma ldh_alnum: "ldh_char c \<and> c \<noteq> CHR ''-'' \<longleftrightarrow> alnum c"
  by (auto simp: ldh_char_def alnum_def is_lower_def is_digit_def)

lemma alnum_ldh: "alnum c \<Longrightarrow> ldh_char c"
  by (auto simp: ldh_char_def alnum_def)

lemma dot_not_ldh: "\<not> ldh_char (CHR ''.'')"
  by (simp add: ldh_char_def is_lower_def is_digit_def)

lemma labelRE_match:
  assumes "\<And>c. p c \<Longrightarrow> alnum c"
  shows "rx_match (labelRE p) l \<longleftrightarrow> ldhLabel l \<and> p (hd l)"
proof
  assume "rx_match (labelRE p) l"
  then obtain c v where l: "l = c # v" "p c"
      "v = [] \<or> (\<exists>u d. v = u @ [d] \<and> list_all ldh_char u \<and> length u \<le> 61 \<and> alnum d)"
    by (auto simp: labelRE_def rx_cases)
  show "ldhLabel l \<and> p (hd l)"
  proof (cases "v = []")
    case True
    then show ?thesis using l assms ldh_alnum by (auto simp: ldhLabel_def)
  next
    case False
    then obtain u d where v: "v = u @ [d]" "list_all ldh_char u" "length u \<le> 61" "alnum d" using l by auto
    have "ldh_char c" "c \<noteq> CHR ''-''" "ldh_char d" "d \<noteq> CHR ''-''"
      using assms l(2) v(4) ldh_alnum by blast+
    then show ?thesis using l v by (simp add: ldhLabel_def)
  qed
next
  assume r: "ldhLabel l \<and> p (hd l)"
  then obtain c v where l: "l = c # v" by (cases l) (auto simp: ldhLabel_def)
  show "rx_match (labelRE p) l"
  proof (cases v rule: rev_cases)
    case Nil
    then show ?thesis using r l by (simp add: labelRE_def rx_cases)
  next
    case (snoc u d)
    then have "alnum d" "list_all ldh_char u" "length u \<le> 61"
      using r l ldh_alnum by (auto simp: ldhLabel_def)
    then have "rx_match (Seq (Rep 0 61 (Cls ldh_char)) (Cls alnum)) v"
      unfolding match_Seq snoc by (intro exI [of _ u] exI [of _ "[d]"]) (simp add: match_Rep_Cls match_Cls)
    then have "rx_match (Opt (Seq (Rep 0 61 (Cls ldh_char)) (Cls alnum))) v" unfolding match_Alt ..
    moreover have "rx_match (Cls p) [c]" using r l by (simp add: match_Cls)
    ultimately show ?thesis unfolding labelRE_def match_Seq [of "Cls p"] l
      by (intro exI [of _ "[c]"] exI [of _ v]) simp
  qed
qed

lemma ldhLabel_no_dot: "ldhLabel l \<Longrightarrow> CHR ''.'' \<notin> set l"
  using dot_not_ldh by (auto simp: ldhLabel_def list_all_iff)

lemma ldhLabel_alnum_hd: "ldhLabel l \<Longrightarrow> alnum (hd l)"
  using ldh_alnum [of "hd l"] by (cases l) (auto simp: ldhLabel_def)

lemma dotted_match:
  "rx_match (Plus (Seq (labelRE alnum) (Ch (CHR ''.'')))) w \<longleftrightarrow>
     (\<exists>ls. ls \<noteq> [] \<and> w = concat (map (\<lambda>l. l @ ''.'') ls) \<and> (\<forall>l\<in>set ls. ldhLabel l))"
proof -
  have one: "rx_match (Seq (labelRE alnum) (Ch (CHR ''.''))) u \<longleftrightarrow> (\<exists>l. u = l @ ''.'' \<and> ldhLabel l)" for u
    by (auto simp: match_Seq match_Cls labelRE_match ldhLabel_alnum_hd)
  have many: "(\<forall>u\<in>set us. \<exists>l. u = l @ ''.'' \<and> ldhLabel l) \<longleftrightarrow>
      (\<exists>ls. us = map (\<lambda>l. l @ ''.'') ls \<and> (\<forall>l\<in>set ls. ldhLabel l))" for us
  proof
    assume "\<forall>u\<in>set us. \<exists>l. u = l @ ''.'' \<and> ldhLabel l"
    then show "\<exists>ls. us = map (\<lambda>l. l @ ''.'') ls \<and> (\<forall>l\<in>set ls. ldhLabel l)"
    proof (induction us)
      case (Cons u us)
      then obtain l ls where "u = l @ ''.''" "ldhLabel l" "us = map (\<lambda>l. l @ ''.'') ls" "\<forall>l\<in>set ls. ldhLabel l"
        by auto
      then show ?case by (intro exI [of _ "l # ls"]) auto
    qed simp
  qed auto
  show ?thesis
  proof
    assume "rx_match (Plus (Seq (labelRE alnum) (Ch (CHR ''.'')))) w"
    then obtain u us where "w = u @ concat us" "\<exists>l. u = l @ ''.'' \<and> ldhLabel l"
        "\<forall>u\<in>set us. \<exists>l. u = l @ ''.'' \<and> ldhLabel l"
      unfolding match_Seq [of _ "Star _"] match_Star one by blast
    then obtain l ls where "w = concat (map (\<lambda>l. l @ ''.'') (l # ls))" "\<forall>l\<in>set (l # ls). ldhLabel l"
      unfolding many by auto
    then show "\<exists>ls. ls \<noteq> [] \<and> w = concat (map (\<lambda>l. l @ ''.'') ls) \<and> (\<forall>l\<in>set ls. ldhLabel l)" by blast
  next
    assume "\<exists>ls. ls \<noteq> [] \<and> w = concat (map (\<lambda>l. l @ ''.'') ls) \<and> (\<forall>l\<in>set ls. ldhLabel l)"
    then obtain l ls where ls: "w = (l @ ''.'') @ concat (map (\<lambda>l. l @ ''.'') ls)" "ldhLabel l"
        "\<forall>l\<in>set ls. ldhLabel l"
      by (auto simp: neq_Nil_conv)
    have "\<forall>u\<in>set (map (\<lambda>l. l @ ''.'') ls). \<exists>l. u = l @ ''.'' \<and> ldhLabel l" using ls(3) by auto
    then show "rx_match (Plus (Seq (labelRE alnum) (Ch (CHR ''.'')))) w"
      unfolding match_Seq [of _ "Star _"] match_Star one using ls by blast
  qed
qed

lemma concat_dots: "concat (map (\<lambda>l. l @ [c]) ls) @ x = join_with c (ls @ [x])"
  by (induction ls rule: induct_list012) auto

lemma split_dotted:
  assumes "ls \<noteq> []" "\<forall>l\<in>set ls. ldhLabel l" "ldhLabel l"
  shows "split_on (CHR ''.'') (concat (map (\<lambda>l. l @ ''.'') ls) @ l) = ls @ [l]"
  using assms ldhLabel_no_dot by (simp add: concat_dots split_join)

subsection \<open>Properties\<close>

text \<open>
  The two statements of the tunnel host grammar agree: a string is a valid host, as the code
  checks it label by label, exactly when it matches the pattern the chart's schema carries and is at
  most 253 bytes long.
\<close>

theorem ValidHost_pattern:
  "ValidHost h \<longleftrightarrow> rx_match TunnelHostPattern h \<and> length h \<le> 253"
proof
  assume v: "ValidHost h"
  then have h: "0 < length h" "length h \<le> 253" "2 \<le> length (split_on (CHR ''.'') h)"
      "list_all ldhLabel (split_on (CHR ''.'') h)" "is_lower (hd (last (split_on (CHR ''.'') h)))"
    by (auto simp: ValidHost_def maxHostLen_def Let_def split: if_splits)
  obtain ls l where s: "split_on (CHR ''.'') h = ls @ [l]"
    by (metis rev_exhaust split_on_nonempty)
  have ls: "ls \<noteq> []" using h(3) s by auto
  have "h = concat (map (\<lambda>l. l @ ''.'') ls) @ l"
    using join_split_on [of "CHR ''.''" h] s by (simp add: concat_dots)
  moreover have "rx_match (labelRE is_lower) l"
    using h(4,5) s by (simp add: labelRE_match alnum_def)
  moreover have "rx_match (Plus (Seq (labelRE alnum) (Ch (CHR ''.'')))) (concat (map (\<lambda>l. l @ ''.'') ls))"
    unfolding dotted_match using ls h(4) s by (auto simp: list_all_iff)
  ultimately show "rx_match TunnelHostPattern h \<and> length h \<le> 253"
    unfolding TunnelHostPattern_def match_Seq [of "Plus _"] using h(2) by blast
next
  assume r: "rx_match TunnelHostPattern h \<and> length h \<le> 253"
  then obtain u l where "h = u @ l" "rx_match (Plus (Seq (labelRE alnum) (Ch (CHR ''.'')))) u"
      "rx_match (labelRE is_lower) l"
    unfolding TunnelHostPattern_def match_Seq [of "Plus _"] by blast
  then obtain ls where ls: "h = concat (map (\<lambda>l. l @ ''.'') ls) @ l" "ls \<noteq> []" "\<forall>l\<in>set ls. ldhLabel l"
      "ldhLabel l" "is_lower (hd l)"
    unfolding dotted_match by (auto simp: labelRE_match alnum_def)
  have "split_on (CHR ''.'') h = ls @ [l]" using split_dotted [OF ls(2-4)] ls(1) by simp
  moreover have "0 < length h" using ls(1,4) by (auto simp: ldhLabel_def)
  ultimately show "ValidHost h"
    using ls r by (cases ls) (auto simp: ValidHost_def maxHostLen_def list_all_iff Let_def)
qed

lemma ValidHost_labels:
  "ValidHost h \<Longrightarrow> list_all ldhLabel (split_on (CHR ''.'') h) \<and> is_lower (hd (last (split_on (CHR ''.'') h)))
     \<and> 2 \<le> length (split_on (CHR ''.'') h) \<and> h \<noteq> [] \<and> length h \<le> 253"
  by (auto simp: ValidHost_def maxHostLen_def Let_def split: if_splits)

lemma ValidHost_bytes:
  assumes "ValidHost h"
  shows "list_all (\<lambda>c. ldh_char c \<or> c = CHR ''.'') h"
proof -
  have "ldh_char c" if cx: "c \<in> set h" "c \<noteq> CHR ''.''" for c
  proof -
    obtain l where "l \<in> set (split_on (CHR ''.'') h)" "c \<in> set l"
      using set_split_on [of c "CHR ''.''" h] cx by auto
    then show ?thesis using ValidHost_labels [OF assms] by (auto simp: list_all_iff ldhLabel_def)
  qed
  then show ?thesis by (auto simp: list_all_iff)
qed

lemma NormalizeHost_Inr:
  "NormalizeHost raw = Inr h \<Longrightarrow>
     h = map ascii_lower raw \<and> raw \<noteq> [] \<and> length raw \<le> 253 \<and> list_all host_byte raw \<and>
     [] \<notin> set (split_on (CHR ''.'') h)"
  by (auto simp: NormalizeHost_def maxHostLen_def Let_def find_None_iff list_all_iff
      split: if_splits option.splits)

lemma host_byte_lower: "host_byte c \<Longrightarrow> host_byte (ascii_lower c) \<and> \<not> is_upper (ascii_lower c)"
  using is_lower_ascii_lower [of c] not_upper_ascii_lower [of c]
  by (cases "is_upper c") (auto simp: host_byte_def ascii_lower_id)

lemma NormalizeHost_ok:
  assumes "h \<noteq> []" "length h \<le> 253" "list_all host_byte h" "[] \<notin> set (split_on (CHR ''.'') (map ascii_lower h))"
  shows "NormalizeHost h = Inr (map ascii_lower h)"
proof -
  have "\<not> suffix ''.'' (map ascii_lower h)"
  proof
    assume "suffix ''.'' (map ascii_lower h)"
    then obtain u where "map ascii_lower h = u @ CHR ''.'' # []" by (auto simp: suffix_def)
    then show False using assms(4) split_on_append [of "CHR ''.''" u "[]"] by simp
  qed
  moreover have "find (\<lambda>c. \<not> host_byte c) h = None"
    using assms(3) by (auto simp: find_None_iff list_all_iff)
  ultimately show ?thesis using assms by (simp add: NormalizeHost_def maxHostLen_def Let_def)
qed

lemma ValidHost_normal:
  assumes v: "ValidHost v"
  shows "NormalizeHost v = Inr v"
proof -
  have ldh: "list_all (\<lambda>c. ldh_char c \<or> c = CHR ''.'') v" by (rule ValidHost_bytes [OF v])
  then have same: "map ascii_lower v = v"
    by (auto simp: list_all_iff ldh_char_def is_lower_def is_digit_def is_upper_def
        intro!: map_idI ascii_lower_id)
  moreover have "list_all host_byte v"
    using ldh by (auto simp: list_all_iff host_byte_def ldh_char_def)
  moreover have "[] \<notin> set (split_on (CHR ''.'') v)"
    using ValidHost_labels [OF v] by (auto simp: list_all_iff ldhLabel_def)
  ultimately show ?thesis using NormalizeHost_ok [of v] ValidHost_labels [OF v] by simp
qed

text \<open>
  Host normalization. Whatever it accepts it maps to the same name with the ASCII letters
  lower-cased; normalizing that again changes nothing; it has no empty label and no byte but
  lower-case letters, digits, hyphens and dots; and every valid host is its own normal form.
\<close>

theorem NormalizeHost_normal_form:
  "(NormalizeHost raw = Inr h \<longrightarrow>
      h = map ascii_lower raw \<and> NormalizeHost h = Inr h \<and> [] \<notin> set (split_on (CHR ''.'') h) \<and>
      list_all (\<lambda>c. is_lower c \<or> is_digit c \<or> c = CHR ''-'' \<or> c = CHR ''.'') h) \<and>
   (ValidHost v \<longrightarrow> NormalizeHost v = Inr v)"
proof (intro conjI impI)
  assume n: "NormalizeHost raw = Inr h"
  note parts = NormalizeHost_Inr [OF n]
  have low: "list_all (\<lambda>c. host_byte c \<and> \<not> is_upper c) h"
    using parts host_byte_lower by (auto simp: list_all_iff)
  then have same: "map ascii_lower h = h" by (auto simp: list_all_iff ascii_lower_id intro!: map_idI)
  show "h = map ascii_lower raw" "[] \<notin> set (split_on (CHR ''.'') h)" using parts by auto
  have "h \<noteq> []" "length h \<le> 253" "list_all host_byte h" using parts low by (auto simp: list_all_iff)
  moreover have "[] \<notin> set (split_on (CHR ''.'') (map ascii_lower h))" unfolding same using parts by blast
  ultimately show "NormalizeHost h = Inr h" using NormalizeHost_ok [of h] same by simp
  show "list_all (\<lambda>c. is_lower c \<or> is_digit c \<or> c = CHR ''-'' \<or> c = CHR ''.'') h"
    using low by (auto simp: list_all_iff host_byte_def)
next
  show "ValidHost v \<Longrightarrow> NormalizeHost v = Inr v" by (rule ValidHost_normal)
qed

lemma NormalizeHost_normal_form_witness:
  "NormalizeHost ''PyPI.org'' = Inr ''pypi.org'' \<and> NormalizeHost ''pypi.org'' = Inr ''pypi.org''"
proof -
  have "NormalizeHost ''PyPI.org'' = Inr ''pypi.org''"
    by (simp add: NormalizeHost_def maxHostLen_def host_byte_def is_upper_def is_lower_def is_digit_def
        ascii_lower_def char_of_is suffix_def Let_def)
  then show ?thesis using NormalizeHost_normal_form [of "''PyPI.org''" "''pypi.org''"] by blast
qed

lemma parse_ipv4_digits: "parse_ipv4 s \<noteq> None \<Longrightarrow> l \<in> set (split_on (CHR ''.'') s) \<Longrightarrow> list_all is_digit l \<and> l \<noteq> []"
proof -
  assume p: "parse_ipv4 s \<noteq> None" and l: "l \<in> set (split_on (CHR ''.'') s)"
  then have "ip_octet l \<noteq> None"
    by (auto simp: parse_ipv4_def split: list.splits option.splits)
  then show ?thesis by (auto simp: ip_octet_def split: if_splits)
qed

lemma no_trailing_dot: "[] \<notin> set (split_on (CHR ''.'') h) \<Longrightarrow> trim_suffix h ''.'' = h"
proof -
  assume ne: "[] \<notin> set (split_on (CHR ''.'') h)"
  have "\<not> suffix ''.'' h"
  proof
    assume "suffix ''.'' h"
    then obtain u where "h = u @ CHR ''.'' # []" by (auto simp: suffix_def)
    then show False using ne split_on_append [of "CHR ''.''" u "[]"] by simp
  qed
  then show ?thesis by (simp add: trim_suffix_def cut_suffix_def)
qed

text \<open>What a valid host is not: upper case, dotted at its end, bracketed, or an address.\<close>

lemma ValidHost_plain:
  assumes "ValidHost h"
  shows "to_lower ul h = h" "trim_suffix h ''.'' = h" "parse_ipv4 h = None" "CHR '':'' \<notin> set h"
    "\<not> prefix ''['' h" "CHR ''.'' \<in> set h" "\<not> numericPart ul (last (split_on (CHR ''.'') h))"
proof -
  note v = ValidHost_labels [OF assms] and b = ValidHost_bytes [OF assms]
  have low: "list_all (\<lambda>c. is_lower c \<or> is_digit c \<or> c = CHR ''-'' \<or> c = CHR ''.'') h"
    using b by (auto simp: list_all_iff ldh_char_def)
  show "to_lower ul h = h"
    by (rule to_lower_id) (use low in \<open>auto simp: list_all_iff is_ascii_def is_lower_def is_digit_def is_upper_def\<close>)
  show "trim_suffix h ''.'' = h"
    by (rule no_trailing_dot) (use v in \<open>auto simp: list_all_iff ldhLabel_def\<close>)
  show "CHR '':'' \<notin> set h" using low by (auto simp: list_all_iff is_lower_def is_digit_def)
  show "\<not> prefix ''['' h"
    using low v by (cases h) (auto simp: is_lower_def is_digit_def prefix_def)
  show "CHR ''.'' \<in> set h" using v split_on_no_sep [of "CHR ''.''" h] by force
  let ?l = "last (split_on (CHR ''.'') h)"
  have in_l: "?l \<in> set (split_on (CHR ''.'') h)" by simp
  then have l: "?l \<noteq> []" "is_lower (hd ?l)" "ldhLabel ?l" using v by (auto simp: list_all_iff ldhLabel_def)
  then have "hd ?l \<in> set ?l" by simp
  moreover have "\<not> is_digit (hd ?l)" using l(2) by (simp add: is_lower_def is_digit_def)
  ultimately have not_digits: "\<not> list_all is_digit ?l" by (meson list_all_iff)
  then show "parse_ipv4 h = None" using parse_ipv4_digits [OF _ in_l] by blast
  have ascii: "list_all is_ascii ?l" "list_all (\<lambda>c. \<not> is_upper c) ?l"
    using l(3) by (auto simp: ldhLabel_def list_all_iff ldh_char_def is_ascii_def is_lower_def
        is_digit_def is_upper_def)
  have "cut_prefix ?l ''0x'' = None"
    using l(1,2) by (cases ?l) (auto simp: cut_prefix_def is_lower_def prefix_def)
  then show "\<not> numericPart ul ?l"
    using not_digits to_lower_id [OF ascii] by (auto simp: numericPart_def)
qed

lemma ValidHost_not_IPLiteral_lemma:
  assumes "ValidHost h"
  shows "\<not> IPLiteral ul v6 h"
proof -
  note plain = ValidHost_plain [OF assms]
  have "last (split_on (CHR ''.'') h) \<in> set (split_on (CHR ''.'') h)" by simp
  then have "\<not> list_all (numericPart ul) (split_on (CHR ''.'') h)"
    using plain(7) unfolding list_all_iff by blast
  then show ?thesis by (simp add: IPLiteral_def is_addr_def plain Let_def)
qed

text \<open>
  No valid tunnel host is an IP literal in any form: not dotted, short, decimal, octal or hex,
  not bracketed, not IPv6.
\<close>

theorem ValidHost_not_IPLiteral:
  assumes "ValidHost h"
  shows "\<not> IPLiteral ul v6 h \<and> parse_ipv4 h = None \<and> NormalizeHost h = Inr h"
  using ValidHost_not_IPLiteral_lemma [OF assms] ValidHost_plain(3) [OF assms] ValidHost_normal [OF assms]
  by blast

lemma ValidHost_not_IPLiteral_witness:
  "\<not> IPLiteral (\<lambda>s. s) (\<lambda>_. False) ''a.b''"
proof -
  have "ValidHost ''a.b''"
    by (simp add: ValidHost_def maxHostLen_def ldhLabel_def ldh_char_def is_lower_def is_digit_def Let_def)
  then show ?thesis using ValidHost_not_IPLiteral [of "''a.b''"] by blast
qed

end
