(* ===== verification/DeniedHosts.thy ===== *)
theory DeniedHosts
  imports Host
begin

text \<open>
  The egress proxy's deny list (\<open>internal/netprofile/denied.go\<close>): which hosts no registry, file host,
  redirect target or tunnel may be, and which \<open>*.suffix\<close> patterns may be used. A refusal is the
  reason it names; the texts of the messages are not modelled. Of an IPv4 prefix the address and its
  length are kept.
\<close>

record deny_context =
  dc_hosts :: "string list"
  dc_internal :: bool
  dc_internalCIDRs :: "(nat \<times> nat) list"

datatype deny_reason =
    DenyEmpty | DenyIPv6 | DenyAlwaysRange nat nat | DenyOutsideCIDRs | DenyHost string | DenyKubernetes
  | DenyLabel string | DenyInCluster string
  | DenyNotPattern | DenyNotHostName | DenyFewLabels | DenyPatternAddress | DenyTooWide string
  | DenyOverlap string | DenyIPLiteral | DenySingleLabel | DenyBelow string deny_reason

definition ForgeHosts :: "string list" where
  "ForgeHosts = [''github.com'', ''githubusercontent.com'']"

definition ModelAPIHosts :: "string list" where
  "ModelAPIHosts = [''anthropic.com'', ''openai.com'', ''openai.azure.com'', ''services.ai.azure.com'',
     ''cognitiveservices.azure.com'', ''aiplatform.googleapis.com'', ''generativelanguage.googleapis.com'']"

definition clusterHosts :: "string list" where
  "clusterHosts = [''kubernetes'', ''kubernetes.default'', ''kubernetes.default.svc'',
     ''kubernetes.default.svc.cluster.local'']"

definition clusterSuffixes :: "string list" where
  "clusterSuffixes = [''svc'', ''cluster.local'']"

definition TooWideSuffixes :: "string list" where
  "TooWideSuffixes = [''amazonaws.com'', ''s3.amazonaws.com'', ''cloudfront.net'', ''googleapis.com'',
     ''storage.googleapis.com'', ''appspot.com'', ''azure.com'', ''windows.net'',
     ''blob.core.windows.net'', ''azureedge.net'', ''githubusercontent.com'', ''github.io'',
     ''fastly.net'', ''akamaized.net'', ''r2.cloudflarestorage.com'']"

definition MinPatternLabels :: nat where "MinPatternLabels = 3"

definition AlwaysDeniedCIDRs :: "(nat \<times> nat) list" where
  "AlwaysDeniedCIDRs = [(0, 8), (127 * 2 ^ 24, 8), (169 * 2 ^ 24 + 254 * 2 ^ 16, 16), (224 * 2 ^ 24, 4),
     (240 * 2 ^ 24, 4)]"

definition cidr_contains :: "nat \<times> nat \<Rightarrow> nat \<Rightarrow> bool" where
  "cidr_contains p a \<longleftrightarrow> a div 2 ^ (32 - snd p) = fst p div 2 ^ (32 - snd p)"

definition canonicalHost :: "(string \<Rightarrow> string) \<Rightarrow> string \<Rightarrow> string" where
  "canonicalHost ul h = trim_suffix (to_lower ul h) ''.''"

definition under :: "string \<Rightarrow> string \<Rightarrow> bool" where
  "under host sfx \<longleftrightarrow> host = sfx \<or> suffix (CHR ''.'' # sfx) host"

definition deniedAddr :: "deny_context \<Rightarrow> nat \<Rightarrow> deny_reason option" where
  "deniedAddr ctx a =
     (case find (\<lambda>p. cidr_contains p a) AlwaysDeniedCIDRs of
        Some p \<Rightarrow> Some (DenyAlwaysRange (fst p) (snd p))
      | None \<Rightarrow> if list_ex (\<lambda>p. cidr_contains p a) (dc_internalCIDRs ctx) then None
                else Some DenyOutsideCIDRs)"

definition from_end :: "'a list \<Rightarrow> nat \<Rightarrow> 'a" where
  "from_end xs k = xs ! (length xs - k)"

definition deniedLabel :: "string \<Rightarrow> string" where
  "deniedLabel h =
     (let labels = split_on (CHR ''.'') h; n = length labels in
      if suffix ''.amazonaws.com'' h \<and> 4 \<le> n \<and> prefix ''bedrock'' (from_end labels 4)
        then ''a Bedrock endpoint (bedrock*.<region>.amazonaws.com)''
      else if suffix ''.amazonaws.com'' h \<and> 5 \<le> n \<and> from_end labels 3 = ''vpce'' \<and>
              prefix ''bedrock'' (from_end labels 5)
        then ''a Bedrock VPC endpoint''
      else if n = 3 \<and> labels ! 1 = ''googleapis'' \<and> labels ! 2 = ''com'' \<and> suffix ''-aiplatform'' (labels ! 0)
        then ''a regional Vertex AI endpoint (*-aiplatform.googleapis.com)''
      else [])"

definition denied_in :: "(string \<Rightarrow> string) \<Rightarrow> (string \<Rightarrow> bool) \<Rightarrow> string list \<Rightarrow> string option" where
  "denied_in ul hit ds = find (\<lambda>d. d \<noteq> [] \<and> hit d) (map (canonicalHost ul) ds)"

definition fixed_and_context :: "deny_context \<Rightarrow> string list" where
  "fixed_and_context ctx = ForgeHosts @ ModelAPIHosts @ dc_hosts ctx"

definition DeniedHost :: "(string \<Rightarrow> string) \<Rightarrow> string \<Rightarrow> deny_context \<Rightarrow> deny_reason option" where
  "DeniedHost ul host ctx =
     (let h = canonicalHost ul host in
      if h = [] then Some DenyEmpty
      else if prefix ''['' h \<or> CHR '':'' \<in> set h then Some DenyIPv6
      else case parse_ipv4 h of
          Some a \<Rightarrow> deniedAddr ctx a
        | None \<Rightarrow>
      (case denied_in ul (under h) (fixed_and_context ctx) of
          Some d \<Rightarrow> Some (DenyHost d)
        | None \<Rightarrow>
           if h \<in> set clusterHosts then Some DenyKubernetes
           else if deniedLabel h \<noteq> [] then Some (DenyLabel (deniedLabel h))
           else if \<not> dc_internal ctx then map_option DenyInCluster (find (under h) clusterSuffixes)
           else None))"

definition hostPattern :: rx where
  "hostPattern =
     Seq (Cls alnum) (Opt (Seq (Rep 0 251 (Cls (\<lambda>c. ldh_char c \<or> c = CHR ''.''))) (Cls alnum)))"

definition validLabels :: "string \<Rightarrow> bool" where
  "validLabels h \<longleftrightarrow>
     list_all (\<lambda>l. \<not> (l = [] \<or> 63 < length l \<or> prefix ''-'' l \<or> suffix ''-'' l)) (split_on (CHR ''.'') h)"

definition patternMeetsLabelRule :: "string \<Rightarrow> string" where
  "patternMeetsLabelRule sfx =
     (let labels = split_on (CHR ''.'') sfx; n = length labels in
      if suffix ''.amazonaws.com'' (CHR ''.'' # sfx) then
        (if n \<le> 3 \<or> prefix ''bedrock'' (from_end labels 4) then ''a Bedrock endpoint''
         else if from_end labels 3 = ''vpce'' \<and> (n \<le> 4 \<or> prefix ''bedrock'' (from_end labels 5))
           then ''a Bedrock VPC endpoint''
         else [])
      else [])"

definition DeniedPattern :: "(string \<Rightarrow> string) \<Rightarrow> string \<Rightarrow> deny_context \<Rightarrow> deny_reason option" where
  "DeniedPattern ul pattern ctx =
     (case cut_prefix pattern ''*.'' of
        None \<Rightarrow> Some DenyNotPattern
      | Some sfx \<Rightarrow>
          if \<not> rx_match hostPattern sfx \<or> \<not> validLabels sfx then Some DenyNotHostName
          else if count_list sfx (CHR ''.'') + 1 < MinPatternLabels then Some DenyFewLabels
          else if parse_ipv4 sfx \<noteq> None then Some DenyPatternAddress
          else case find (\<lambda>w. under w sfx) TooWideSuffixes of Some w \<Rightarrow> Some (DenyTooWide w) | None \<Rightarrow>
          (case denied_in ul (\<lambda>d. under sfx d \<or> under d sfx) (fixed_and_context ctx) of
             Some d \<Rightarrow> Some (DenyOverlap d)
           | None \<Rightarrow>
             if list_ex (\<lambda>d. under d sfx) clusterHosts then Some DenyKubernetes
             else if \<not> dc_internal ctx \<and> list_ex (under sfx) clusterSuffixes
               then map_option DenyInCluster (find (under sfx) clusterSuffixes)
             else if patternMeetsLabelRule sfx \<noteq> [] then Some (DenyLabel (patternMeetsLabelRule sfx))
             else None))"

definition TunnelForgeHosts :: "string list" where
  "TunnelForgeHosts = [''ghcr.io'', ''githubcopilot.com'', ''gitlab.com'', ''bitbucket.org'',
     ''codeberg.org'', ''dev.azure.com'', ''visualstudio.com'', ''sr.ht'']"

definition TunnelModelAPIHosts :: "string list" where
  "TunnelModelAPIHosts = [''claude.ai'', ''claude.com'', ''chatgpt.com'']"

definition ControlPlaneHosts :: "string list" where
  "ControlPlaneHosts = [''eks.amazonaws.com'', ''azmk8s.io'', ''container.googleapis.com'',
     ''k8s.ondigitalocean.com'', ''linodelke.net'']"

definition SpecialUseSuffixes :: "string list" where
  "SpecialUseSuffixes = [''localhost'', ''local'', ''internal'', ''svc'', ''cluster.local'', ''home.arpa'',
     ''in-addr.arpa'', ''ip6.arpa'', ''invalid'', ''test'', ''example'']"

definition PublishHosts :: "string list" where
  "PublishHosts = [''upload.pypi.org'', ''www.nuget.org'']"

definition tunnel_tables :: "string list" where
  "tunnel_tables = TunnelForgeHosts @ TunnelModelAPIHosts @ ControlPlaneHosts @ SpecialUseSuffixes @ PublishHosts"

fun denied_suffix :: "(string \<Rightarrow> deny_reason option) \<Rightarrow> string list \<Rightarrow> (string \<times> deny_reason) option" where
  "denied_suffix judge (a # b # ls) =
     (case judge (join_with (CHR ''.'') (a # b # ls)) of
        Some r \<Rightarrow> Some (join_with (CHR ''.'') (a # b # ls), r)
      | None \<Rightarrow> denied_suffix judge (b # ls))"
| "denied_suffix judge _ = None"

definition DeniedTunnelHost ::
    "(string \<Rightarrow> string) \<Rightarrow> (string \<Rightarrow> bool) \<Rightarrow> string \<Rightarrow> deny_context \<Rightarrow> deny_reason option" where
  "DeniedTunnelHost ul v6 host ctx =
     (let h = canonicalHost ul host in
      if h = [] then Some DenyEmpty
      else if IPLiteral ul v6 h \<or> CHR '':'' \<in> set h then Some DenyIPLiteral
      else if CHR ''.'' \<notin> set h then Some DenySingleLabel
      else case find (under h) tunnel_tables of Some d \<Rightarrow> Some (DenyHost d) | None \<Rightarrow>
        (let base = \<lparr>dc_hosts = dc_hosts ctx, dc_internal = False, dc_internalCIDRs = []\<rparr> in
         case denied_suffix (\<lambda>s. DeniedHost ul s base) (split_on (CHR ''.'') h) of
           None \<Rightarrow> None
         | Some (s, r) \<Rightarrow> if s = h then Some r else Some (DenyBelow s r)))"

subsection \<open>Names below one another\<close>

lemma under_refl [simp]: "under h h"
  by (simp add: under_def)

lemma under_dotted: "under h d \<longleftrightarrow> suffix (CHR ''.'' # d) (CHR ''.'' # h)"
  by (auto simp: under_def suffix_Cons)

lemma under_trans: "under a b \<Longrightarrow> under b c \<Longrightarrow> under a c"
  unfolding under_dotted by (rule suffix_order.trans)

lemma under_comparable: "under h a \<Longrightarrow> under h b \<Longrightarrow> under a b \<or> under b a"
  unfolding under_dotted by (meson suffix_same_cases)

lemma find_iff: "find P xs = None \<longleftrightarrow> (\<forall>x\<in>set xs. \<not> P x)"
  by (auto simp: find_None_iff)

lemma denied_in_None:
  "denied_in ul hit ds = None \<longleftrightarrow> (\<forall>d\<in>set ds. canonicalHost ul d \<noteq> [] \<longrightarrow> \<not> hit (canonicalHost ul d))"
  by (auto simp: denied_in_def find_iff)

lemma canonical_valid: "ValidHost h \<Longrightarrow> canonicalHost ul h = h"
  by (simp add: canonicalHost_def ValidHost_plain)

lemma DeniedHost_valid:
  assumes "ValidHost h"
  shows "DeniedHost ul h ctx = None \<longleftrightarrow>
    (\<forall>d\<in>set (fixed_and_context ctx). canonicalHost ul d \<noteq> [] \<longrightarrow> \<not> under h (canonicalHost ul d)) \<and>
    h \<notin> set clusterHosts \<and> deniedLabel h = [] \<and>
    (dc_internal ctx \<or> (\<forall>s\<in>set clusterSuffixes. \<not> under h s))"
proof -
  have "h \<noteq> []" using ValidHost_labels [OF assms] by blast
  then show ?thesis
    using ValidHost_plain [OF assms] denied_in_None [of ul "under h" "fixed_and_context ctx"]
    by (auto simp: DeniedHost_def canonical_valid [OF assms] Let_def find_iff split: option.splits)
qed

subsection \<open>Patterns\<close>

lemma from_end_append: "k \<le> length ys \<Longrightarrow> 0 < k \<Longrightarrow> from_end (xs @ ys) k = from_end ys k"
proof -
  assume "k \<le> length ys" "0 < k"
  then have "length (xs @ ys) - k = length xs + (length ys - k)" by simp
  then show ?thesis by (simp only: from_end_def nth_append_length_plus)
qed

lemma dots_labels: "count_list s c + 1 = length (split_on c s)"
  by (simp add: length_split_on)

text \<open>
  The label rules look at fixed positions from the end, so a longer name under a suffix that fixes
  them meets a rule only when the suffix does.
\<close>

lemma amazon_suffix:
  assumes n: "3 \<le> length (split_on (CHR ''.'') sfx)" and s: "suffix ''.amazonaws.com'' (x @ CHR ''.'' # sfx)"
  shows "suffix ''.amazonaws.com'' (CHR ''.'' # sfx)"
proof (rule ccontr)
  assume no: "\<not> ?thesis"
  have "suffix (CHR ''.'' # sfx) (x @ CHR ''.'' # sfx)" by (simp add: suffix_def)
  then have "suffix (CHR ''.'' # sfx) ''.amazonaws.com''" using suffix_same_cases [OF s] no by blast
  then obtain u where u: "''.amazonaws.com'' = u @ CHR ''.'' # sfx" by (auto simp: suffix_def)
  have "length (split_on (CHR ''.'') ''.amazonaws.com'') = 3" by simp
  then have "length (split_on (CHR ''.'') u) + length (split_on (CHR ''.'') sfx) = 3"
    unfolding u split_on_append by simp
  moreover have "0 < length (split_on (CHR ''.'') u)" by simp
  ultimately show False using n by linarith
qed

lemma deniedLabel_under:
  assumes n: "3 \<le> length (split_on (CHR ''.'') sfx)" and rule: "patternMeetsLabelRule sfx = []"
  shows "deniedLabel (x @ CHR ''.'' # sfx) = []"
proof -
  let ?n = "length (split_on (CHR ''.'') sfx)"
  let ?ls = "split_on (CHR ''.'') sfx"
  let ?name = "x @ CHR ''.'' # sfx"
  have labels: "split_on (CHR ''.'') ?name = split_on (CHR ''.'') x @ ?ls" by (rule split_on_append)
  have more: "0 < length (split_on (CHR ''.'') x)" by simp
  show ?thesis
  proof (cases "suffix ''.amazonaws.com'' ?name")
    case True
    then have "suffix ''.amazonaws.com'' (CHR ''.'' # sfx)" by (rule amazon_suffix [OF n])
    then have "4 \<le> ?n" "\<not> prefix ''bedrock'' (from_end ?ls 4)"
        "from_end ?ls 3 = ''vpce'' \<longrightarrow> 5 \<le> ?n \<and> \<not> prefix ''bedrock'' (from_end ?ls 5)"
      using rule by (auto simp: patternMeetsLabelRule_def Let_def split: if_splits)
    then show ?thesis using more by (auto simp: deniedLabel_def labels from_end_append Let_def)
  next
    case False
    have "length (split_on (CHR ''.'') x) + ?n \<noteq> 3" using more n by linarith
    then show ?thesis using False by (simp add: deniedLabel_def labels Let_def)
  qed
qed

text \<open>
  C36. An accepted pattern admits only admitted names. When a redirect pattern \<open>*.suffix\<close> is accepted,
  every valid host name below the suffix is one DeniedHost accepts: no forge, model API, Kubernetes or
  in-cluster name, no name of the context's deny list and no regional Bedrock or Vertex endpoint can be
  reached through it.
\<close>

theorem DeniedPattern_sound:
  assumes "DeniedPattern ul (''*.'' @ sfx) ctx = None" "ValidHost name" "suffix (CHR ''.'' # sfx) name"
  shows "DeniedHost ul name ctx = None"
proof -
  have cut: "cut_prefix (''*.'' @ sfx) ''*.'' = Some sfx" by (rule cut_prefix_append)
  have pat: "3 \<le> length (split_on (CHR ''.'') sfx)"
      "\<forall>d\<in>set (fixed_and_context ctx). canonicalHost ul d \<noteq> [] \<longrightarrow>
         \<not> under sfx (canonicalHost ul d) \<and> \<not> under (canonicalHost ul d) sfx"
      "\<forall>d\<in>set clusterHosts. \<not> under d sfx" "dc_internal ctx \<or> (\<forall>s\<in>set clusterSuffixes. \<not> under sfx s)"
      "patternMeetsLabelRule sfx = []"
    using assms(1) denied_in_None [of ul "\<lambda>d. under sfx d \<or> under d sfx" "fixed_and_context ctx"]
    by (auto simp: DeniedPattern_def cut MinPatternLabels_def length_split_on list_ex_iff find_iff
        simp del: append.simps split: if_splits option.splits)
  obtain x where x: "name = x @ CHR ''.'' # sfx" using assms(3) by (auto simp: suffix_def)
  have below: "under name sfx" using assms(3) by (simp add: under_def)
  have "under name d \<Longrightarrow> under sfx d \<or> under d sfx" for d using below under_comparable by blast
  then have "\<forall>d\<in>set (fixed_and_context ctx). canonicalHost ul d \<noteq> [] \<longrightarrow> \<not> under name (canonicalHost ul d)"
    using pat(2) by blast
  moreover have "name \<notin> set clusterHosts" using pat(3) below by blast
  moreover have "deniedLabel name = []" unfolding x by (rule deniedLabel_under [OF pat(1,5)])
  moreover have "\<not> under name s" if s: "s \<in> set clusterSuffixes" "\<not> dc_internal ctx" for s
  proof
    assume "under name s"
    then have "under s sfx" using under_comparable [OF below] pat(4) s by blast
    then have "suffix (CHR ''.'' # sfx) (CHR ''.'' # s)" by (simp add: under_dotted)
    then obtain u where u: "CHR ''.'' # s = u @ CHR ''.'' # sfx" by (auto simp: suffix_def)
    have "length (split_on (CHR ''.'') (CHR ''.'' # s)) \<le> 3" using s(1) by (auto simp: clusterSuffixes_def)
    moreover have "0 < length (split_on (CHR ''.'') u)" by simp
    ultimately show False using pat(1) unfolding u split_on_append by simp
  qed
  ultimately show ?thesis unfolding DeniedHost_valid [OF assms(2)] by blast
qed

definition demo_deny :: deny_context where
  "demo_deny = \<lparr>dc_hosts = [''git.corp.example''], dc_internal = False, dc_internalCIDRs = []\<rparr>"

lemmas deny_tables =
  fixed_and_context_def ForgeHosts_def ModelAPIHosts_def clusterHosts_def clusterSuffixes_def
  TooWideSuffixes_def demo_deny_def

lemma pattern_labels:
  assumes "validLabels sfx" "list_all (\<lambda>c. ldh_char c \<or> c = CHR ''.'') sfx" "sfx \<noteq> []" "length sfx \<le> 253"
    and "alnum (hd sfx)" "alnum (last sfx)"
  shows "rx_match hostPattern sfx"
proof (cases sfx)
  case (Cons c v)
  show ?thesis
  proof (cases v rule: rev_cases)
    case Nil
    then show ?thesis using assms Cons by (simp add: hostPattern_def rx_cases)
  next
    case (snoc u d)
    have "rx_match (Seq (Rep 0 251 (Cls (\<lambda>c. ldh_char c \<or> c = CHR ''.''))) (Cls alnum)) v"
      unfolding match_Seq snoc using assms Cons snoc
      by (intro exI [of _ u] exI [of _ "[d]"]) (simp add: match_Rep_Cls match_Cls)
    then show ?thesis using assms Cons
      unfolding hostPattern_def match_Seq [of "Cls alnum"] match_Alt
      by (intro exI [of _ "[c]"] exI [of _ v]) (simp add: match_Cls)
  qed
qed (use assms in simp)

lemma DeniedPattern_sound_witness:
  "DeniedHost (\<lambda>s. s) ''dl.cdn.vendor.io'' demo_deny = None"
proof -
  let ?s = "''cdn.vendor.io''"
  have "rx_match hostPattern ?s"
    by (rule pattern_labels)
       (simp_all add: validLabels_def prefix_def suffix_def ldh_char_def alnum_def is_lower_def is_digit_def)
  moreover have "validLabels ?s" by (simp add: validLabels_def prefix_def suffix_def)
  moreover have "parse_ipv4 ?s = None" by (simp add: parse_ipv4_def ip_octet_def is_digit_def)
  ultimately have "DeniedPattern (\<lambda>s. s) (''*.'' @ ?s) demo_deny = None"
    by (simp add: DeniedPattern_def cut_prefix_def prefix_def MinPatternLabels_def deny_tables under_def
        denied_in_def canonicalHost_def to_lower_def is_ascii_def ascii_lower_def is_upper_def
        trim_suffix_def cut_suffix_def suffix_def patternMeetsLabelRule_def Let_def)
  moreover have "ValidHost ''dl.cdn.vendor.io''"
    by (simp add: ValidHost_def maxHostLen_def ldhLabel_def ldh_char_def is_lower_def is_digit_def Let_def)
  moreover have "suffix (CHR ''.'' # ?s) ''dl.cdn.vendor.io''" by (simp add: suffix_def)
  ultimately show ?thesis by (rule DeniedPattern_sound)
qed

text \<open>
  The hole in the pattern rule. The pattern \<open>*.1.2.3\<close> is accepted, since its suffix is not itself
  an address, although the names below it that are not host names are IPv4 addresses: \<open>10.1.2.3\<close> lies
  below the suffix and DeniedHost refuses it.
\<close>

theorem DeniedPattern_admits_address:
  "DeniedPattern ul ''*.1.2.3'' demo_deny = None \<and> under ''10.1.2.3'' ''1.2.3'' \<and>
   DeniedHost ul ''10.1.2.3'' demo_deny = Some DenyOutsideCIDRs"
proof -
  let ?s = "''1.2.3''"
  have "rx_match hostPattern ?s"
    by (rule pattern_labels)
       (simp_all add: validLabels_def prefix_def suffix_def ldh_char_def alnum_def is_lower_def is_digit_def)
  moreover have "validLabels ?s" by (simp add: validLabels_def prefix_def suffix_def)
  moreover have "parse_ipv4 ?s = None" by (simp add: parse_ipv4_def ip_octet_def is_digit_def)
  moreover have "cut_prefix ''*.1.2.3'' ''*.'' = Some ?s" by (simp add: cut_prefix_def prefix_def)
  ultimately have "DeniedPattern ul ''*.1.2.3'' demo_deny = None"
    by (simp add: DeniedPattern_def MinPatternLabels_def deny_tables under_def
        denied_in_def canonicalHost_def to_lower_def is_ascii_def ascii_lower_def is_upper_def
        trim_suffix_def cut_suffix_def suffix_def patternMeetsLabelRule_def Let_def)
  moreover have "under ''10.1.2.3'' ''1.2.3''" by (simp add: under_def suffix_def)
  moreover have "parse_ipv4 ''10.1.2.3'' = Some 167838211"
    by (simp add: parse_ipv4_def ip_octet_def is_digit_def)
  then have "DeniedHost ul ''10.1.2.3'' demo_deny = Some DenyOutsideCIDRs"
    by (simp add: DeniedHost_def canonicalHost_def to_lower_def is_ascii_def ascii_lower_def is_upper_def
        trim_suffix_def cut_suffix_def suffix_def prefix_def deniedAddr_def AlwaysDeniedCIDRs_def
        cidr_contains_def demo_deny_def Let_def)
  ultimately show ?thesis by blast
qed

subsection \<open>Tunnel hosts\<close>

lemma denied_suffix_None:
  "denied_suffix judge ls = None \<longleftrightarrow>
     (\<forall>ts. suffix ts ls \<longrightarrow> 2 \<le> length ts \<longrightarrow> judge (join_with (CHR ''.'') ts) = None)"
proof (induction judge ls rule: denied_suffix.induct)
  case (1 judge a b ls)
  have "suffix ts (a # b # ls) \<longleftrightarrow> ts = a # b # ls \<or> suffix ts (b # ls)" for ts by (rule suffix_Cons)
  then show ?case using 1 by (auto split: option.splits)
qed (auto simp: suffix_Cons)

lemma DeniedTunnelHost_valid:
  assumes "ValidHost h"
  shows "DeniedTunnelHost ul v6 h ctx = None \<longleftrightarrow>
    (\<forall>d\<in>set tunnel_tables. \<not> under h d) \<and>
    (\<forall>ts. suffix ts (split_on (CHR ''.'') h) \<longrightarrow> 2 \<le> length ts \<longrightarrow>
       DeniedHost ul (join_with (CHR ''.'') ts)
         \<lparr>dc_hosts = dc_hosts ctx, dc_internal = False, dc_internalCIDRs = []\<rparr> = None)"
proof -
  have "h \<noteq> []" using ValidHost_labels [OF assms] by blast
  moreover note ValidHost_not_IPLiteral_lemma [OF assms, of ul v6]
  ultimately have "DeniedTunnelHost ul v6 h ctx = None \<longleftrightarrow> find (under h) tunnel_tables = None \<and>
      denied_suffix (\<lambda>s. DeniedHost ul s \<lparr>dc_hosts = dc_hosts ctx, dc_internal = False, dc_internalCIDRs = []\<rparr>)
        (split_on (CHR ''.'') h) = None"
    using ValidHost_plain(4,6) [OF assms]
    by (auto simp: DeniedTunnelHost_def canonical_valid [OF assms] Let_def split: option.splits if_splits)
  then show ?thesis unfolding find_iff denied_suffix_None .
qed

text \<open>
  The tunnel deny list is closed downwards: a valid name below a name that may not be a tunnel
  host may not be one either. And it is at least the registries' list: a valid name it accepts is
  accepted by DeniedHost, as is every name of two labels or more above it, with no internal admission.
\<close>

theorem DeniedTunnelHost_closed:
  assumes "ValidHost name" "ValidHost h" "under name h"
  shows "(DeniedTunnelHost ul v6 h ctx \<noteq> None \<longrightarrow> DeniedTunnelHost ul v6 name ctx \<noteq> None) \<and>
    (DeniedTunnelHost ul v6 name ctx = None \<longrightarrow>
       DeniedHost ul h \<lparr>dc_hosts = dc_hosts ctx, dc_internal = False, dc_internalCIDRs = []\<rparr> = None)"
proof -
  have sfx: "suffix (split_on (CHR ''.'') h) (split_on (CHR ''.'') name)"
    using assms(3) by (auto simp: under_def suffix_def split_on_append)
  have "DeniedTunnelHost ul v6 name ctx = None \<Longrightarrow> DeniedTunnelHost ul v6 h ctx = None"
    unfolding DeniedTunnelHost_valid [OF assms(1)] DeniedTunnelHost_valid [OF assms(2)]
    using assms(3) under_trans sfx suffix_order.trans by blast
  moreover have "2 \<le> length (split_on (CHR ''.'') h)" using ValidHost_labels [OF assms(2)] by blast
  then have "DeniedTunnelHost ul v6 name ctx = None \<Longrightarrow>
      DeniedHost ul (join_with (CHR ''.'') (split_on (CHR ''.'') h))
        \<lparr>dc_hosts = dc_hosts ctx, dc_internal = False, dc_internalCIDRs = []\<rparr> = None"
    unfolding DeniedTunnelHost_valid [OF assms(1)] using sfx by blast
  ultimately show ?thesis unfolding join_split_on by (intro conjI impI) auto
qed

lemma DeniedTunnelHost_closed_witness:
  "DeniedTunnelHost (\<lambda>s. s) (\<lambda>_. False) ''a.gitlab.com'' demo_deny \<noteq> None"
proof -
  have v: "ValidHost ''a.gitlab.com''" "ValidHost ''gitlab.com''"
    by (simp_all add: ValidHost_def maxHostLen_def ldhLabel_def ldh_char_def is_lower_def is_digit_def Let_def)
  have "under ''gitlab.com'' ''gitlab.com''" by simp
  then have "DeniedTunnelHost (\<lambda>s. s) (\<lambda>_. False) ''gitlab.com'' demo_deny \<noteq> None"
    unfolding DeniedTunnelHost_valid [OF v(2)] by (auto simp: tunnel_tables_def TunnelForgeHosts_def)
  then show ?thesis
    using DeniedTunnelHost_closed [OF v, of "\<lambda>s. s" "\<lambda>_. False" demo_deny] by (simp add: under_def suffix_def)
qed

end
