(* ===== verification/Dial.thy ===== *)
theory Dial
  imports DeniedHosts
begin

text \<open>
  The guarded dialer of the egress proxy (\<open>internal/egressproxy/dial.go\<close>): which address may be dialled
  (\<open>AddrPolicy\<close>, and \<open>registryPolicy\<close> for an internal registry), and the dialer that judges every address
  before the dial and again on connect. Addresses are those of \<open>net/netip\<close>, an IPv4 or an IPv6 value. The
  resolver, the parse of an address with a colon and the network are arguments.
\<close>

subsection \<open>Addresses\<close>

datatype addr = V4 nat | V6 nat

type_synonym addr_port = "addr \<times> nat"
type_synonym addr_prefix = "addr \<times> nat"

fun Is4 :: "addr \<Rightarrow> bool" where
  "Is4 (V4 _) = True"
| "Is4 (V6 _) = False"

fun Unmap :: "addr \<Rightarrow> addr" where
  "Unmap (V6 a) = (if a div 2 ^ 32 = 0xffff then V4 (a mod 2 ^ 32) else V6 a)"
| "Unmap (V4 a) = V4 a"

fun pfx_contains :: "addr_prefix \<Rightarrow> addr \<Rightarrow> bool" where
  "pfx_contains (V4 p, n) (V4 a) = cidr_contains (p, n) a"
| "pfx_contains (V6 p, n) (V6 a) = (a div 2 ^ (128 - n) = p div 2 ^ (128 - n))"
| "pfx_contains _ _ = False"

fun Masked :: "addr_prefix \<Rightarrow> addr_prefix" where
  "Masked (V4 p, n) = (V4 (p div 2 ^ (32 - n) * 2 ^ (32 - n)), n)"
| "Masked (V6 p, n) = (V6 (p div 2 ^ (128 - n) * 2 ^ (128 - n)), n)"

definition octets :: "nat \<Rightarrow> nat \<Rightarrow> nat \<Rightarrow> nat \<Rightarrow> nat" where
  "octets a b c d = ((a * 256 + b) * 256 + c) * 256 + d"

fun IsLoopback :: "addr \<Rightarrow> bool" where
  "IsLoopback (V4 a) = (a div 2 ^ 24 = 127)"
| "IsLoopback (V6 a) = (a = 1)"

fun IsMulticast :: "addr \<Rightarrow> bool" where
  "IsMulticast (V4 a) = (a div 2 ^ 28 = 14)"
| "IsMulticast (V6 a) = (a div 2 ^ 120 = 0xff)"

fun IsLinkLocalUnicast :: "addr \<Rightarrow> bool" where
  "IsLinkLocalUnicast (V4 a) = (a div 2 ^ 16 = 169 * 256 + 254)"
| "IsLinkLocalUnicast (V6 a) = (a div 2 ^ 118 = 0x3fa)"

definition IsGlobalUnicast :: "addr \<Rightarrow> bool" where
  "IsGlobalUnicast a \<longleftrightarrow> a \<noteq> V4 0 \<and> a \<noteq> V4 (octets 255 255 255 255) \<and> a \<noteq> V6 0 \<and>
     \<not> IsLoopback a \<and> \<not> IsMulticast a \<and> \<not> IsLinkLocalUnicast a"

subsection \<open>The policies\<close>

datatype addr_denial = NotIPv4 | PortDenied nat | NotGlobalUnicast | InDenied addr_prefix | AlwaysDenied addr_prefix | BadAddress

definition upstreamPort :: nat where "upstreamPort = 443"

definition builtinDeny :: "addr_prefix list" where
  "builtinDeny = [(V4 (octets 0 0 0 0), 8), (V4 (octets 10 0 0 0), 8), (V4 (octets 100 64 0 0), 10), (V4 (octets 127 0 0 0), 8),
     (V4 (octets 169 254 0 0), 16), (V4 (octets 172 16 0 0), 12), (V4 (octets 192 0 0 0), 24), (V4 (octets 192 0 2 0), 24),
     (V4 (octets 192 168 0 0), 16), (V4 (octets 198 18 0 0), 15), (V4 (octets 198 51 100 0), 24), (V4 (octets 203 0 113 0), 24),
     (V4 (octets 224 0 0 0), 4), (V4 (octets 240 0 0 0), 4)]"

record addr_policy =
  ap_deny :: "addr_prefix list"
  ap_testLoopback :: bool

definition ParseDenyCIDRs :: "(string \<Rightarrow> addr_prefix option) \<Rightarrow> string list \<Rightarrow> string + addr_prefix list" where
  "ParseDenyCIDRs parse es = foldr (\<lambda>e out. case parse e of None \<Rightarrow> Inl e | Some p \<Rightarrow> map_sum id ((#) (Masked p)) out) es (Inr [])"

definition AddrPolicy_Check :: "addr_policy \<Rightarrow> addr_port \<Rightarrow> addr_denial option" where
  "AddrPolicy_Check p ap =
     (case ap of (a, port) \<Rightarrow>
       if \<not> Is4 a then Some NotIPv4
       else if ap_testLoopback p \<and> IsLoopback a then None
       else if port \<noteq> upstreamPort then Some (PortDenied port)
       else if \<not> IsGlobalUnicast a then Some NotGlobalUnicast
       else map_option InDenied (find (\<lambda>pfx. pfx_contains pfx a) (builtinDeny @ ap_deny p)))"

record registry_policy =
  rp_public :: addr_policy
  rp_internal :: "addr_prefix list"
  rp_port :: nat
  rp_always :: "addr_prefix list"

text \<open>Of the registry, its parsed internal ranges and the port of its URL.\<close>

definition ForRegistry :: "addr_policy \<Rightarrow> addr_prefix list \<Rightarrow> int \<Rightarrow> addr_prefix list \<Rightarrow> registry_policy" where
  "ForRegistry p internal n always =
     (let ok = 1 \<le> n \<and> n \<le> 65535 in
      \<lparr>rp_public = p, rp_internal = (if ok then internal else []), rp_port = (if ok then nat n else 0),
       rp_always = map (\<lambda>(a, k). (V4 a, k)) AlwaysDeniedCIDRs @ always\<rparr>)"

definition registryPolicy_Check :: "registry_policy \<Rightarrow> addr_port \<Rightarrow> addr_denial option" where
  "registryPolicy_Check p ap =
     (case ap of (a0, port) \<Rightarrow> let a = Unmap a0 in
       if \<not> Is4 a then Some NotIPv4
       else if rp_internal p = [] \<and> ap_testLoopback (rp_public p) \<and> IsLoopback a then None
       else case find (\<lambda>d. pfx_contains d a) (rp_always p) of Some d \<Rightarrow> Some (AlwaysDenied d) | None \<Rightarrow>
         if list_ex (\<lambda>i. pfx_contains i a) (rp_internal p)
         then (if port \<noteq> rp_port p then Some (PortDenied port) else None)
         else AddrPolicy_Check (rp_public p) ap)"

subsection \<open>The dialer\<close>

text \<open>\<open>net.SplitHostPort\<close> and \<open>strconv.ParseUint\<close> at 16 bits.\<close>

definition last_colon :: "string \<Rightarrow> (string \<times> string) option" where
  "last_colon s =
     (if CHR '':'' \<in> set s
      then Some (rev (tl (dropWhile (\<lambda>c. c \<noteq> CHR '':'') (rev s))), rev (takeWhile (\<lambda>c. c \<noteq> CHR '':'') (rev s)))
      else None)"

definition SplitHostPort :: "string \<Rightarrow> (string \<times> string) option" where
  "SplitHostPort s =
     (case last_colon s of None \<Rightarrow> None | Some (h, port) \<Rightarrow>
       if prefix ''['' s
       then (case cut_at (CHR '']'') (tl s) of
               (host, rest, True) \<Rightarrow>
                 if h = ''['' @ host @ '']'' \<and> CHR ''['' \<notin> set (tl s) \<and> CHR '']'' \<notin> set rest then Some (host, port) else None
             | _ \<Rightarrow> None)
       else if CHR '':'' \<in> set h \<or> CHR ''['' \<in> set s \<or> CHR '']'' \<in> set s then None
       else Some (h, port))"

definition parse_port :: "string \<Rightarrow> nat option" where
  "parse_port s = (if s \<noteq> [] \<and> list_all is_digit s \<and> dec_value 0 s < 65536 then Some (dec_value 0 s) else None)"

definition parse_addr :: "(string \<Rightarrow> addr option) \<Rightarrow> string \<Rightarrow> addr option" where
  "parse_addr v6 h = (if CHR '':'' \<in> set h then v6 h else map_option V4 (parse_ipv4 h))"

text \<open>
  One dial of the network's dialer: it fails by itself, or it is about to connect to an address, which the
  connect-time check sees first (as text that may not parse), and then the connection stands or fails.
\<close>

datatype net_dial = NetFails | NetConnects "addr_port option" bool

datatype dial_error = DialSplit | DialPort string | DialLookup | DialNoAddress string | DialDenied addr_denial | DialFailed

record dial_world =
  dw_v6 :: "string \<Rightarrow> addr option"
  dw_lookup :: "string \<Rightarrow> addr list option"
  dw_net :: "addr_port \<Rightarrow> net_dial"

definition control :: "(addr_port \<Rightarrow> addr_denial option) \<Rightarrow> addr_port option \<Rightarrow> addr_denial option" where
  "control check q = (case q of None \<Rightarrow> Some BadAddress | Some (a, port) \<Rightarrow> check (Unmap a, port))"

text \<open>The result and the addresses connected to, in order.\<close>

fun dial_each :: "(addr_port \<Rightarrow> addr_denial option) \<Rightarrow> (addr_port \<Rightarrow> net_dial) \<Rightarrow> nat \<Rightarrow> addr list \<Rightarrow> (dial_error + addr_port) \<times> addr_port list" where
  "dial_each check net port [] = (Inl DialFailed, [])"
| "dial_each check net port (a # as) =
     (let ap = (Unmap a, port) in
      case check ap of Some d \<Rightarrow> (Inl (DialDenied d), [])
      | None \<Rightarrow>
         (case net ap of
            NetFails \<Rightarrow> dial_each check net port as
          | NetConnects q ok \<Rightarrow>
             (case control check q of
                Some d \<Rightarrow> (Inl (DialDenied d), [])
              | None \<Rightarrow> if ok then (Inr (the q), [the q])
                        else map_prod id ((#) (the q)) (dial_each check net port as))))"

definition DialContext :: "dial_world \<Rightarrow> (addr_port \<Rightarrow> addr_denial option) \<Rightarrow> string \<Rightarrow> (dial_error + addr_port) \<times> addr_port list" where
  "DialContext w check address =
     (case SplitHostPort address of None \<Rightarrow> (Inl DialSplit, []) | Some (host, portStr) \<Rightarrow>
      case parse_port portStr of None \<Rightarrow> (Inl (DialPort portStr), []) | Some port \<Rightarrow>
      case (case parse_addr (dw_v6 w) host of Some ip \<Rightarrow> Some [ip] | None \<Rightarrow> dw_lookup w host) of
        None \<Rightarrow> (Inl DialLookup, [])
      | Some addrs \<Rightarrow> if addrs = [] then (Inl (DialNoAddress host), []) else dial_each check (dw_net w) port addrs)"

subsection \<open>A dialer under a policy\<close>

text \<open>
  \<open>DialPolicy\<close> is an interface of the code: all that the dialer relies on is that an address the policy admits is
  one that may be dialled.
\<close>

locale dial_policy =
  fixes check :: "addr_port \<Rightarrow> addr_denial option"
    and may_dial :: "addr_port \<Rightarrow> bool"
  assumes admits: "check ap = None \<Longrightarrow> may_dial ap"
begin

lemma control_safe: "control check (Some q) = None \<Longrightarrow> may_dial (Unmap (fst q), snd q)"
  unfolding control_def by (cases q) (simp add: admits)

lemma dial_each_safe:
  "q \<in> set (snd (dial_each check net port as)) \<Longrightarrow> may_dial (Unmap (fst q), snd q)"
proof (induction as)
  case (Cons a as)
  then show ?case
    by (auto simp: Let_def control_def admits split: option.splits net_dial.splits if_splits prod.splits)
qed simp

lemma dial_each_result: "fst (dial_each check net port as) = Inr q \<Longrightarrow> q \<in> set (snd (dial_each check net port as))"
proof (induction as)
  case (Cons a as)
  then show ?case
    by (auto simp: Let_def split: option.splits net_dial.splits if_splits)
qed simp

lemma DialContext_result: "fst (DialContext w check address) = Inr q \<Longrightarrow> q \<in> set (snd (DialContext w check address))"
  by (auto simp: DialContext_def dial_each_result simp del: dial_each.simps(2) split: option.splits if_splits prod.splits)

lemma connects_safe:
  assumes "q \<in> set (snd (DialContext w check address)) \<or> fst (DialContext w check address) = Inr q"
  shows "may_dial (Unmap (fst q), snd q)"
proof -
  have "q \<in> set (snd (DialContext w check address)) \<Longrightarrow> may_dial (Unmap (fst q), snd q)" for q
    by (auto simp: DialContext_def dial_each_safe simp del: dial_each.simps(2) split: option.splits if_splits prod.splits)
  then show ?thesis using assms DialContext_result by blast
qed

lemma stops_at_denied:
  assumes "check (Unmap a, port) = Some d"
  shows "dial_each check net port (as @ a # bs) = dial_each check net port (as @ [a])"
  using assms by (induction as) (auto simp: Let_def split: option.splits net_dial.splits)

end

subsection \<open>What may be dialled\<close>

definition in_ranges :: "addr_prefix list \<Rightarrow> addr \<Rightarrow> bool" where
  "in_ranges ps a \<longleftrightarrow> list_ex (\<lambda>pfx. pfx_contains pfx a) ps"

definition public_addr :: "addr_policy \<Rightarrow> addr_port \<Rightarrow> bool" where
  "public_addr p ap \<longleftrightarrow> Is4 (fst ap) \<and> snd ap = upstreamPort \<and> \<not> in_ranges (builtinDeny @ ap_deny p) (fst ap)"

definition registry_addr :: "registry_policy \<Rightarrow> addr_port \<Rightarrow> bool" where
  "registry_addr p ap \<longleftrightarrow> Is4 (fst ap) \<and> \<not> in_ranges (rp_always p) (fst ap) \<and>
     (if in_ranges (rp_internal p) (fst ap) then snd ap = rp_port p else public_addr (rp_public p) ap)"

lemma find_in_ranges: "find (\<lambda>pfx. pfx_contains pfx a) ps = None \<longleftrightarrow> \<not> in_ranges ps a"
  by (auto simp: in_ranges_def find_None_iff list_ex_iff)

lemma not_global_denied: "\<not> IsGlobalUnicast (V4 v) \<Longrightarrow> in_ranges builtinDeny (V4 v)"
  by (auto simp: IsGlobalUnicast_def in_ranges_def builtinDeny_def octets_def cidr_contains_def)

lemma AddrPolicy_Check_exact:
  assumes "\<not> ap_testLoopback p"
  shows "AddrPolicy_Check p ap = None \<longleftrightarrow> public_addr p ap"
proof -
  obtain a port where ap: "ap = (a, port)" by (cases ap)
  have "AddrPolicy_Check p ap = None \<longleftrightarrow> Is4 a \<and> port = upstreamPort \<and> IsGlobalUnicast a \<and> \<not> in_ranges (builtinDeny @ ap_deny p) a"
    using assms by (simp add: AddrPolicy_Check_def ap find_in_ranges)
  moreover have "Is4 a \<Longrightarrow> \<not> in_ranges (builtinDeny @ ap_deny p) a \<Longrightarrow> IsGlobalUnicast a"
    using not_global_denied by (cases a) (auto simp: in_ranges_def)
  ultimately show ?thesis by (auto simp: public_addr_def ap)
qed

lemma Unmap_idem [simp]: "Unmap (Unmap a) = Unmap a"
  by (cases a) simp_all

lemma registryPolicy_Check_exact:
  assumes "\<not> ap_testLoopback (rp_public p)"
  shows "registryPolicy_Check p (Unmap a, port) = None \<longleftrightarrow> registry_addr p (Unmap a, port)"
  using assms AddrPolicy_Check_exact [of "rp_public p" "(Unmap a, port)"] find_in_ranges [of "Unmap a" "rp_always p"]
  by (auto simp: registryPolicy_Check_def registry_addr_def in_ranges_def Let_def split: option.splits)

interpretation public_dial: dial_policy "AddrPolicy_Check p" "\<lambda>ap. ap_testLoopback p \<or> public_addr p ap" for p
  by unfold_locales (use AddrPolicy_Check_exact in blast)

interpretation registry_dial: dial_policy "\<lambda>ap. registryPolicy_Check p (Unmap (fst ap), snd ap)"
    "\<lambda>ap. ap_testLoopback (rp_public p) \<or> registry_addr p (Unmap (fst ap), snd ap)" for p
  by unfold_locales (use registryPolicy_Check_exact in blast)

text \<open>The registry's check sees a mapped address as the IPv4 one, so the dialer's own unmapping changes nothing.\<close>

lemma dial_each_unmapped:
  "dial_each (\<lambda>ap. check (Unmap (fst ap), snd ap)) net port as = dial_each check net port as"
  by (induction as) (simp_all add: Let_def control_def split: option.splits net_dial.splits)

lemma DialContext_unmapped:
  "DialContext w (\<lambda>ap. check (Unmap (fst ap), snd ap)) address = DialContext w check address"
  by (simp only: DialContext_def dial_each_unmapped)

text \<open>
  C35. Every address the proxy connects to on a public route, whatever the resolver answers and whatever
  the dialer then connects to, is an IPv4 address on port 443 in none of the built-in and the configured
  ranges; and no address listed after a denied one is tried.
\<close>

theorem public_dial_guarded:
  assumes "\<not> ap_testLoopback p" "q \<in> set (snd (DialContext w (AddrPolicy_Check p) address))"
  shows "(\<exists>v. Unmap (fst q) = V4 v) \<and> snd q = 443 \<and> \<not> in_ranges builtinDeny (Unmap (fst q)) \<and>
    \<not> in_ranges (ap_deny p) (Unmap (fst q)) \<and>
    (\<forall>as a bs port. \<not> public_addr p (Unmap a, port) \<longrightarrow>
       dial_each (AddrPolicy_Check p) (dw_net w) port (as @ a # bs) = dial_each (AddrPolicy_Check p) (dw_net w) port (as @ [a]))"
proof -
  have "public_addr p (Unmap (fst q), snd q)"
    using public_dial.connects_safe [of q w p address] assms by blast
  then have "(\<exists>v. Unmap (fst q) = V4 v) \<and> snd q = 443 \<and> \<not> in_ranges builtinDeny (Unmap (fst q)) \<and> \<not> in_ranges (ap_deny p) (Unmap (fst q))"
    by (cases "Unmap (fst q)") (auto simp: public_addr_def upstreamPort_def in_ranges_def)
  moreover have "dial_each (AddrPolicy_Check p) (dw_net w) port (as @ a # bs) = dial_each (AddrPolicy_Check p) (dw_net w) port (as @ [a])"
    if "\<not> public_addr p (Unmap a, port)" for as a bs port
    using public_dial.stops_at_denied AddrPolicy_Check_exact [OF assms(1), of "(Unmap a, port)"] that by blast
  ultimately show ?thesis by blast
qed

text \<open>
  An internal registry's dial never reaches an address in the always-denied ranges (loopback, link-local
  metadata, multicast, the operator's own); an address it connects to is either inside the registry's
  own ranges, on the port of its URL, or public by the rule of every other route.
\<close>

theorem registry_dial_guarded:
  assumes "\<not> ap_testLoopback pol" "p = ForRegistry pol internal n always"
    and "q \<in> set (snd (DialContext w (registryPolicy_Check p) address))"
  shows "(\<exists>v. Unmap (fst q) = V4 v) \<and>
    \<not> in_ranges (map (\<lambda>(a, k). (V4 a, k)) AlwaysDeniedCIDRs @ always) (Unmap (fst q)) \<and>
    (if in_ranges internal (Unmap (fst q)) \<and> 1 \<le> n \<and> n \<le> 65535 then int (snd q) = n
     else public_addr pol (Unmap (fst q), snd q))"
proof -
  have "registry_addr p (Unmap (fst q), snd q)"
    using registry_dial.connects_safe [of q w p address] assms
    by (auto simp: DialContext_unmapped ForRegistry_def Let_def)
  then show ?thesis using assms(2)
    by (cases "Unmap (fst q)") (auto simp: registry_addr_def ForRegistry_def Let_def in_ranges_def split: if_splits)
qed

text \<open>The demo: the resolver answers a public address that the network connects to.\<close>

definition demo_world :: dial_world where
  "demo_world = \<lparr>dw_v6 = (\<lambda>_. None), dw_lookup = (\<lambda>_. Some [V4 (octets 93 184 216 34), V4 (octets 10 0 0 1)]),
     dw_net = (\<lambda>ap. NetConnects (Some ap) True)\<rparr>"

definition demo_policy :: addr_policy where "demo_policy = \<lparr>ap_deny = [], ap_testLoopback = False\<rparr>"

lemma SplitHostPort_join:
  assumes "CHR '':'' \<notin> set h" "CHR ''['' \<notin> set h" "CHR '']'' \<notin> set h"
  shows "SplitHostPort (h @ '':443'') = Some (h, ''443'')"
proof -
  have "last_colon (h @ '':443'') = Some (h, ''443'')" by (simp add: last_colon_def)
  moreover have "\<not> prefix ''['' (h @ '':443'')" using assms(2) by (cases h) auto
  ultimately show ?thesis using assms by (simp add: SplitHostPort_def)
qed

lemma demo_dial:
  assumes "check (V4 (octets 93 184 216 34), 443) = None"
  shows "DialContext demo_world check ''go.dev.:443'' = (Inr (V4 (octets 93 184 216 34), 443), [(V4 (octets 93 184 216 34), 443)])"
proof -
  have "SplitHostPort ''go.dev.:443'' = Some (''go.dev.'', ''443'')" using SplitHostPort_join [of "''go.dev.''"] by simp
  moreover have "parse_port ''443'' = Some 443" by (simp add: parse_port_def is_digit_def)
  moreover have "parse_ipv4 ''go.dev.'' = None" by (simp add: parse_ipv4_def ip_octet_def is_digit_def)
  ultimately show ?thesis
    by (simp add: DialContext_def parse_addr_def demo_world_def control_def Let_def assms)
qed

lemma demo_public: "AddrPolicy_Check demo_policy (V4 (octets 93 184 216 34), 443) = None"
  by (simp add: AddrPolicy_Check_def demo_policy_def upstreamPort_def IsGlobalUnicast_def octets_def builtinDeny_def cidr_contains_def)

lemma public_dial_guarded_witness:
  "\<not> in_ranges builtinDeny (V4 (octets 93 184 216 34)) \<and>
   dial_each (AddrPolicy_Check demo_policy) (dw_net demo_world) 443 ([] @ V4 (octets 10 0 0 1) # [V4 (octets 93 184 216 34)]) =
     dial_each (AddrPolicy_Check demo_policy) (dw_net demo_world) 443 ([] @ [V4 (octets 10 0 0 1)])"
proof -
  have "(V4 (octets 93 184 216 34), 443) \<in> set (snd (DialContext demo_world (AddrPolicy_Check demo_policy) ''go.dev.:443''))"
    using demo_dial [of "AddrPolicy_Check demo_policy", OF demo_public] by simp
  note g = public_dial_guarded [OF _ this]
  have "\<not> public_addr demo_policy (Unmap (V4 (octets 10 0 0 1)), 443)"
    by (simp add: public_addr_def in_ranges_def builtinDeny_def octets_def cidr_contains_def)
  then have "dial_each (AddrPolicy_Check demo_policy) (dw_net demo_world) 443 ([] @ V4 (octets 10 0 0 1) # [V4 (octets 93 184 216 34)]) =
     dial_each (AddrPolicy_Check demo_policy) (dw_net demo_world) 443 ([] @ [V4 (octets 10 0 0 1)])"
    using g unfolding demo_policy_def addr_policy.simps by blast
  moreover have "\<not> in_ranges builtinDeny (Unmap (fst (V4 (octets 93 184 216 34), 443 :: nat)))"
    using g by (simp add: demo_policy_def)
  ultimately show ?thesis by simp
qed

lemma registry_dial_guarded_witness:
  "\<not> in_ranges (map (\<lambda>(a, k). (V4 a, k)) AlwaysDeniedCIDRs @ []) (V4 (octets 10 1 2 3)) \<and> int 8443 = 8443"
proof -
  let ?p = "ForRegistry demo_policy [(V4 (octets 10 1 0 0), 16)] 8443 []"
  let ?w = "\<lparr>dw_v6 = (\<lambda>_. None), dw_lookup = (\<lambda>_. Some [V4 (octets 10 1 2 3)]), dw_net = (\<lambda>ap. NetConnects (Some ap) True)\<rparr>"
  have "registryPolicy_Check ?p (V4 (octets 10 1 2 3), 8443) = None"
    by (simp add: registryPolicy_Check_def ForRegistry_def Let_def AlwaysDeniedCIDRs_def octets_def cidr_contains_def)
  then have "(V4 (octets 10 1 2 3), 8443) \<in> set (snd (DialContext ?w (registryPolicy_Check ?p) ''r:8443''))"
    by (simp add: DialContext_def SplitHostPort_def last_colon_def parse_port_def is_digit_def parse_addr_def
        parse_ipv4_def ip_octet_def control_def Let_def)
  from registry_dial_guarded [OF _ refl this] show ?thesis
    by (simp add: demo_policy_def)
qed

end
