(* ===== verification/Tunnel.thy ===== *)
theory Tunnel
  imports TunnelBudget ClientHello Dial
begin

text \<open>
  One CONNECT through the egress proxy, from the request to the last byte (\<open>internal/egressproxy/tunnel.go\<close>,
  \<open>connect.go\<close>, \<open>splice.go\<close>): the target's judgement, the admission, the limits, the dial, the hello and the
  splice. The stages are functions in the order \<open>serveConnect\<close> runs them; the two copies and the watch of a
  running tunnel are a step relation, so that they interleave. The refusals' words and the audit lines' timing
  are not modelled, and the request limiter's answer is an argument.
\<close>

subsection \<open>The target\<close>

datatype connect_error = ConnectTarget | ConnectPort

definition MaxConnectTargetLen :: nat where "MaxConnectTargetLen = 260"
definition TunnelPort :: string where "TunnelPort = ''443''"

definition target_byte :: "char \<Rightarrow> bool" where
  "target_byte c \<longleftrightarrow> \<not> (byte c \<le> 32 \<or> 0x7f \<le> byte c \<or> c \<in> {CHR ''/'', CHR ''@'', CHR ''['', CHR '']''})"

definition ParseConnectTarget :: "string \<Rightarrow> connect_error + string" where
  "ParseConnectTarget uri =
     (if uri = [] \<or> MaxConnectTargetLen < length uri then Inl ConnectTarget
      else if \<not> list_all target_byte uri then Inl ConnectTarget
      else case cut_at (CHR '':'') uri of (host, port, ok) \<Rightarrow>
        if \<not> ok \<or> host = [] \<or> CHR '':'' \<in> set port then Inl ConnectTarget
        else if port \<noteq> TunnelPort then Inl ConnectPort
        else Inr host)"

datatype outcome =
    OutcomePort | OutcomeBadRequest | OutcomeIPLiteral | OutcomeBadHost | OutcomeHardDenied | OutcomeNotAllowed
  | OutcomeSuspended | OutcomeShutdown | OutcomeLimited | OutcomeDeniedAddress | OutcomeDialError | OutcomeTunnelled
  | OutcomeBadHello | OutcomeSNIMissing | OutcomeSNIMismatch | OutcomeECH | OutcomeUploadCap | OutcomeDownloadCap
  | OutcomeIdleTimeout | OutcomeMaxDuration

record refusal =
  rf_status :: nat
  rf_outcome :: outcome
  rf_reason :: string

record audit_target =
  at_host :: string
  at_target :: string

definition clip :: "string \<Rightarrow> string" where
  "clip s = (if length s \<le> 256 then s else take 256 s @ ''...(truncated)'')"

definition rawTarget :: "string \<Rightarrow> audit_target" where
  "rawTarget target =
     \<lparr>at_host = (case ParseConnectTarget target of
          Inr host \<Rightarrow> clip host
        | Inl ConnectPort \<Rightarrow> clip (fst (cut_at (CHR '':'') target))
        | Inl ConnectTarget \<Rightarrow> []),
      at_target = clip target\<rparr>"

record tunnel_profile =
  tp_Name :: string
  tp_Host :: string
  tp_Hosts :: "string list"
  tp_perTunnel :: "int option"

text \<open>The tables of Unicode and of IPv6 the netprofile package uses, as in \<open>Host\<close>.\<close>

definition judgeTarget ::
    "(string \<Rightarrow> string) \<Rightarrow> (string \<Rightarrow> bool) \<Rightarrow> tunnel_profile \<Rightarrow> deny_context \<Rightarrow> string \<Rightarrow> audit_target \<times> (refusal + string)" where
  "judgeTarget ul v6 p deny target =
     (let view = rawTarget target in
      case ParseConnectTarget target of
        Inl ConnectPort \<Rightarrow> (view, Inl \<lparr>rf_status = 403, rf_outcome = OutcomePort, rf_reason = ''''\<rparr>)
      | Inl ConnectTarget \<Rightarrow> (view, Inl \<lparr>rf_status = 400, rf_outcome = OutcomeBadRequest, rf_reason = ''target''\<rparr>)
      | Inr raw \<Rightarrow>
          if IPLiteral ul v6 raw then (view, Inl \<lparr>rf_status = 403, rf_outcome = OutcomeIPLiteral, rf_reason = ''''\<rparr>)
          else case NormalizeHost raw of
              Inl _ \<Rightarrow> (view, Inl \<lparr>rf_status = 403, rf_outcome = OutcomeBadHost, rf_reason = ''''\<rparr>)
            | Inr h \<Rightarrow>
                if \<not> ValidHost h then (view, Inl \<lparr>rf_status = 403, rf_outcome = OutcomeBadHost, rf_reason = ''''\<rparr>)
                else let view = \<lparr>at_host = h, at_target = ''''\<rparr> in
                  if DeniedTunnelHost ul v6 h deny \<noteq> None
                  then (view, Inl \<lparr>rf_status = 403, rf_outcome = OutcomeHardDenied, rf_reason = ''''\<rparr>)
                  else if \<not> Hosts_Allows (tp_Hosts p) h
                  then (view, Inl \<lparr>rf_status = 403, rf_outcome = OutcomeNotAllowed, rf_reason = ''''\<rparr>)
                  else (view, Inr h))"

subsection \<open>The tunnel\<close>

text \<open>
  What the client is answered before the splice, and the tunnel: its caps, counters and budget, the dialled
  upstream, how it ended (the first \<open>finish\<close> wins) and the bytes written so far to the upstream (\<open>Up\<close>) and to
  the client (\<open>Down\<close>).
\<close>

datatype answer = Status nat | Established | Alert nat

record tunnel =
  tn_caps :: "direction \<Rightarrow> int"
  tn_bytes :: "direction \<Rightarrow> int"
  tn_table :: budget_table
  tn_budget :: nat
  tn_upstream :: "addr_port option"
  tn_result :: "(outcome \<times> string) option"
  tn_answers :: "answer list"
  tn_out :: "direction \<Rightarrow> string"

definition new_tunnel :: "budget_table \<Rightarrow> tunnel" where
  "new_tunnel tb = \<lparr>tn_caps = (\<lambda>_. 0), tn_bytes = (\<lambda>_. 0), tn_table = tb, tn_budget = 0, tn_upstream = None,
     tn_result = None, tn_answers = [], tn_out = (\<lambda>_. [])\<rparr>"

definition finish :: "outcome \<Rightarrow> string \<Rightarrow> tunnel \<Rightarrow> tunnel \<times> bool" where
  "finish oc reason t = (if tn_result t \<noteq> None then (t, False) else (t\<lparr>tn_result := Some (oc, reason)\<rparr>, True))"

definition end_tunnel :: "outcome \<Rightarrow> string \<Rightarrow> tunnel \<Rightarrow> tunnel" where
  "end_tunnel oc reason t = fst (finish oc reason t)"

definition setUpstream :: "addr_port \<Rightarrow> tunnel \<Rightarrow> tunnel \<times> bool" where
  "setUpstream c t = (if tn_result t \<noteq> None then (t, False) else (t\<lparr>tn_upstream := Some c\<rparr>, True))"

definition refuse_tunnel :: "refusal \<Rightarrow> tunnel \<Rightarrow> tunnel" where
  "refuse_tunnel rf t =
     (case finish (rf_outcome rf) (rf_reason rf) t of
        (t, False) \<Rightarrow> t
      | (t, True) \<Rightarrow> end_tunnel (rf_outcome rf) (rf_reason rf) (t\<lparr>tn_answers := tn_answers t @ [Status (rf_status rf)]\<rparr>))"

definition alert :: "outcome \<Rightarrow> string \<Rightarrow> nat \<Rightarrow> tunnel \<Rightarrow> tunnel" where
  "alert oc reason desc t =
     (case finish oc reason t of
        (t, False) \<Rightarrow> t
      | (t, True) \<Rightarrow> end_tunnel oc reason (t\<lparr>tn_answers := tn_answers t @ [Alert desc]\<rparr>))"

text \<open>
  A write takes the whole buffer, or fails after some bytes of it. \<open>pass\<close> returns the tunnel and whether the
  copy ends.
\<close>

type_synonym conn_write = "nat option"

definition written :: "conn_write \<Rightarrow> string \<Rightarrow> string" where
  "written w p = (case w of None \<Rightarrow> p | Some k \<Rightarrow> take k p)"

definition pass :: "direction \<Rightarrow> string \<Rightarrow> conn_write \<Rightarrow> tunnel \<Rightarrow> tunnel \<times> bool" where
  "pass d p w t =
     (let n = int (length p);
          fits = min n (max (tn_caps t d - tn_bytes t d) 0);
          (tb, g) = take_bytes (tn_table t) (tn_budget t) d fits;
          t1 = t\<lparr>tn_table := tb\<rparr>;
          allow = (if g < fits then g else fits);
          reason = (if g < fits then (if d = Down then ''source_download_budget'' else ''source_upload_budget'') else ''tunnel'');
          sent = (if 0 < allow then written w (take (nat allow) p) else []);
          t2 = t1\<lparr>tn_bytes := (tn_bytes t1)(d := tn_bytes t1 d + int (length sent)), tn_out := (tn_out t1)(d := tn_out t1 d @ sent)\<rparr>
      in if 0 < allow \<and> w \<noteq> None then (end_tunnel OutcomeTunnelled '''' t2, True)
         else if allow < n then (end_tunnel (if d = Down then OutcomeDownloadCap else OutcomeUploadCap) reason t2, True)
         else (t2, False))"

subsection \<open>The stages\<close>

record connect_request =
  rq_target :: string
  rq_major :: int
  rq_minor :: int
  rq_length :: int
  rq_encodings :: "string list"

record tunnel_config =
  tc_suspended :: bool
  tc_denyHosts :: "string list"
  tc_policy :: addr_policy
  tc_always :: "addr_prefix list"
  tc_deny :: "addr_prefix list"
  tc_limits :: tunnel_limits

definition tunnel_policy :: "tunnel_config \<Rightarrow> addr_policy" where
  "tunnel_policy cfg =
     \<lparr>ap_deny = ap_deny (tc_policy cfg) @ map (\<lambda>(a, k). (V4 a, k)) AlwaysDeniedCIDRs @ tc_always cfg @ tc_deny cfg,
      ap_testLoopback = ap_testLoopback (tc_policy cfg)\<rparr>"

definition bad_request :: "string \<Rightarrow> refusal" where
  "bad_request reason = \<lparr>rf_status = 400, rf_outcome = OutcomeBadRequest, rf_reason = reason\<rparr>"

definition limitRefusal :: "string \<Rightarrow> refusal" where
  "limitRefusal reason = \<lparr>rf_status = 503, rf_outcome = OutcomeLimited, rf_reason = reason\<rparr>"

definition admitConnect ::
    "(string \<Rightarrow> string) \<Rightarrow> (string \<Rightarrow> bool) \<Rightarrow> tunnel_config \<Rightarrow> tunnel_profile \<Rightarrow> connect_request \<Rightarrow> refusal + string" where
  "admitConnect ul v6 cfg p r =
     (if tc_suspended cfg then Inl \<lparr>rf_status = 410, rf_outcome = OutcomeSuspended, rf_reason = ''''\<rparr>
      else if rq_major r \<noteq> 1 \<or> rq_minor r \<noteq> 1 then Inl (bad_request ''proto'')
      else if rq_length r \<noteq> 0 \<or> 0 < length (rq_encodings r) then Inl (bad_request ''body'')
      else snd (judgeTarget ul v6 p \<lparr>dc_hosts = tp_Host p # tc_denyHosts cfg, dc_internal = False, dc_internalCIDRs = []\<rparr> (rq_target r)))"

fun budget_reason :: "open_refusal \<Rightarrow> string" where
  "budget_reason SourceUploadBudget = ''source_upload_budget''"
| "budget_reason SourceDownloadBudget = ''source_download_budget''"
| "budget_reason SourceTableFull = ''source_table_full''"

definition tunnel_caps :: "tunnel_config \<Rightarrow> tunnel_profile \<Rightarrow> direction \<Rightarrow> int" where
  "tunnel_caps cfg p d =
     (case d of Down \<Rightarrow> tl_maxDownloadBytes (tc_limits cfg)
      | Up \<Rightarrow> (case tp_perTunnel p of
                 Some n \<Rightarrow> if 0 < n then n else tl_maxUploadBytes (tc_limits cfg)
               | None \<Rightarrow> tl_maxUploadBytes (tc_limits cfg)))"

definition dialTunnel :: "tunnel_config \<Rightarrow> dial_world \<Rightarrow> string \<Rightarrow> bool \<Rightarrow> tunnel \<Rightarrow> tunnel \<times> bool" where
  "dialTunnel cfg w host shut t =
     (case fst (DialContext w (AddrPolicy_Check (tunnel_policy cfg)) (host @ ''.:'' @ TunnelPort)) of
        Inl e \<Rightarrow>
          (refuse_tunnel \<lparr>rf_status = 502,
             rf_outcome = (case e of DialDenied _ \<Rightarrow> OutcomeDeniedAddress | DialPort _ \<Rightarrow> OutcomeDeniedAddress | _ \<Rightarrow> OutcomeDialError),
             rf_reason = ''''\<rparr> t, False)
      | Inr c \<Rightarrow> setUpstream c (if shut then end_tunnel OutcomeShutdown '''' t else t))"

abbreviation alertUnrecognizedName :: nat where "alertUnrecognizedName \<equiv> 112"
abbreviation alertHandshakeFailure :: nat where "alertHandshakeFailure \<equiv> 40"

text \<open>
  The hello: \<open>stalls\<close> says that a stream that runs out before the hello is whole ran into the read deadline,
  not its end. The result is the tunnel and whether the splice starts.
\<close>

definition judgeHello :: "string \<Rightarrow> bool \<Rightarrow> hello_error + hello \<Rightarrow> (outcome \<times> string \<times> nat) option" where
  "judgeHello host stalls v =
     (case v of
        Inl e \<Rightarrow>
          if e = UnexpectedEOF \<and> stalls then Some (OutcomeBadHello, ''timeout'', alertHandshakeFailure)
          else if e = SNIList then Some (OutcomeSNIMissing, '''', alertUnrecognizedName)
          else Some (OutcomeBadHello, '''', alertHandshakeFailure)
      | Inr h \<Rightarrow>
          if h_SNI h = [] then Some (OutcomeSNIMissing, '''', alertUnrecognizedName)
          else if NormalizeHost (h_SNI h) \<noteq> Inr host then Some (OutcomeSNIMismatch, '''', alertUnrecognizedName)
          else if h_HasECH h then Some (OutcomeECH, '''', alertHandshakeFailure)
          else None)"

definition runTunnel :: "cryptobyte \<Rightarrow> string \<Rightarrow> bool \<Rightarrow> bool \<Rightarrow> conn_write \<Rightarrow> string \<Rightarrow> tunnel \<Rightarrow> tunnel \<times> bool" where
  "runTunnel cb host answered stalls w client t =
     (if \<not> answered then (end_tunnel OutcomeTunnelled '''' t, False)
      else let t = t\<lparr>tn_answers := tn_answers t @ [Established]\<rparr>; (v, raw) = ReadClientHello cb client in
        case judgeHello host stalls v of
          Some (oc, reason, desc) \<Rightarrow> (alert oc reason desc t, False)
        | None \<Rightarrow> (case pass Up raw w t of (t, err) \<Rightarrow> (t, \<not> err)))"

text \<open>What the world does to one CONNECT, and the whole handler up to the splice.\<close>

record connect_world =
  cw_live :: bool
  cw_limited :: string
  cw_source :: string
  cw_now :: time
  cw_closed :: time
  cw_dial :: dial_world
  cw_shut :: bool
  cw_answered :: bool
  cw_stalls :: bool
  cw_write :: conn_write
  cw_client :: string

definition closed_budget :: "time \<Rightarrow> tunnel \<Rightarrow> tunnel" where
  "closed_budget now t = t\<lparr>tn_table := close_tunnel (tn_table t) (tn_budget t) now\<rparr>"

definition serveConnect ::
    "(string \<Rightarrow> string) \<Rightarrow> (string \<Rightarrow> bool) \<Rightarrow> cryptobyte \<Rightarrow> tunnel_config \<Rightarrow> tunnel_profile \<Rightarrow> connect_request \<Rightarrow> connect_world \<Rightarrow>
     budget_table \<Rightarrow> tunnel \<times> bool" where
  "serveConnect ul v6 cb cfg p r w tb =
     (let t = new_tunnel tb in
      if \<not> cw_live w then (refuse_tunnel \<lparr>rf_status = 503, rf_outcome = OutcomeShutdown, rf_reason = ''''\<rparr> t, False)
      else case admitConnect ul v6 cfg p r of Inl rf \<Rightarrow> (refuse_tunnel rf t, False) | Inr host \<Rightarrow>
      if cw_limited w \<noteq> [] then (refuse_tunnel (limitRefusal (cw_limited w)) t, False)
      else case open_tunnel tb (cw_source w) (cw_now w) of
          (tb', Inl reason) \<Rightarrow> (refuse_tunnel (limitRefusal (budget_reason reason)) (t\<lparr>tn_table := tb'\<rparr>), False)
        | (tb', Inr budget) \<Rightarrow>
            (case dialTunnel cfg (cw_dial w) host (cw_shut w) (t\<lparr>tn_table := tb', tn_budget := budget, tn_caps := tunnel_caps cfg p\<rparr>) of
               (t, False) \<Rightarrow> (closed_budget (cw_closed w) t, False)
             | (t, True) \<Rightarrow>
                 (case runTunnel cb host (cw_answered w) (cw_stalls w) (cw_write w) (cw_client w) t of
                    (t, False) \<Rightarrow> (closed_budget (cw_closed w) t, False)
                  | (t, True) \<Rightarrow> (t, True))))"

subsection \<open>The splice\<close>

text \<open>
  A running tunnel: what each side has still to send and whether the copy of that direction goes on. A copy
  reads at most its buffer and passes it; the end of its source half-closes or ends the tunnel; the watch
  and \<open>CloseTunnels\<close> end it at any time; other tunnels of the source draw on the same budget; the handler leaves
  when both copies have.
\<close>

definition tunnelCopyBuffer :: nat where "tunnelCopyBuffer = 32768"

record splice =
  sp_tunnel :: tunnel
  sp_left :: "direction \<Rightarrow> string"
  sp_going :: "direction \<Rightarrow> bool"

inductive splice_step :: "splice \<Rightarrow> splice \<Rightarrow> bool" where
  copied:
  "sp_going s d \<Longrightarrow> sp_left s d = p @ rest \<Longrightarrow> p \<noteq> [] \<Longrightarrow> length p \<le> tunnelCopyBuffer \<Longrightarrow>
   pass d p w (sp_tunnel s) = (t', err) \<Longrightarrow>
   splice_step s \<lparr>sp_tunnel = t', sp_left = (sp_left s)(d := rest), sp_going = (sp_going s)(d := \<not> err)\<rparr>"
| half_closed:
  "sp_going s d \<Longrightarrow> sp_left s d = [] \<Longrightarrow> splice_step s (s\<lparr>sp_going := (sp_going s)(d := False)\<rparr>)"
| ended:
  "sp_going s d \<Longrightarrow>
   splice_step s (s\<lparr>sp_tunnel := end_tunnel OutcomeTunnelled '''' (sp_tunnel s), sp_going := (sp_going s)(d := False)\<rparr>)"
| watched:
  "oc \<in> {OutcomeMaxDuration, OutcomeIdleTimeout, OutcomeShutdown} \<Longrightarrow>
   splice_step s (s\<lparr>sp_tunnel := end_tunnel oc '''' (sp_tunnel s)\<rparr>)"
| other:
  "0 \<le> n \<Longrightarrow> take_bytes (tn_table (sp_tunnel s)) a d n = (tb, g) \<Longrightarrow>
   splice_step s (s\<lparr>sp_tunnel := (sp_tunnel s)\<lparr>tn_table := tb\<rparr>\<rparr>)"
| left:
  "\<not> sp_going s Up \<Longrightarrow> \<not> sp_going s Down \<Longrightarrow>
   splice_step s (s\<lparr>sp_tunnel := closed_budget now (end_tunnel OutcomeTunnelled '''' (sp_tunnel s))\<rparr>)"

definition start_splice :: "string \<Rightarrow> string \<Rightarrow> tunnel \<times> bool \<Rightarrow> splice" where
  "start_splice client upstream st =
     \<lparr>sp_tunnel = fst st, sp_left = (\<lambda>d. case d of Up \<Rightarrow> drop (length (tn_out (fst st) Up)) client | Down \<Rightarrow> upstream),
      sp_going = (\<lambda>_. snd st)\<rparr>"

inductive tunnel_reach ::
    "(string \<Rightarrow> string) \<Rightarrow> (string \<Rightarrow> bool) \<Rightarrow> cryptobyte \<Rightarrow> tunnel_config \<Rightarrow> tunnel_profile \<Rightarrow> connect_request \<Rightarrow> connect_world \<Rightarrow>
     budget_table \<Rightarrow> string \<Rightarrow> splice \<Rightarrow> bool" for ul v6 cb cfg p r w tb upstream where
  start: "tunnel_reach ul v6 cb cfg p r w tb upstream (start_splice (cw_client w) upstream (serveConnect ul v6 cb cfg p r w tb))"
| step: "tunnel_reach ul v6 cb cfg p r w tb upstream s \<Longrightarrow> splice_step s s' \<Longrightarrow> tunnel_reach ul v6 cb cfg p r w tb upstream s'"

subsection \<open>What a stage writes\<close>

named_theorems tunnel_frame

lemma end_tunnel_frame [tunnel_frame]:
  "tn_caps (end_tunnel oc reason t) = tn_caps t" "tn_bytes (end_tunnel oc reason t) = tn_bytes t"
  "tn_out (end_tunnel oc reason t) = tn_out t" "tn_upstream (end_tunnel oc reason t) = tn_upstream t"
  "tn_table (end_tunnel oc reason t) = tn_table t" "tn_budget (end_tunnel oc reason t) = tn_budget t"
  by (simp_all add: end_tunnel_def finish_def)

lemma refuse_tunnel_frame [tunnel_frame]:
  "tn_bytes (refuse_tunnel rf t) = tn_bytes t" "tn_out (refuse_tunnel rf t) = tn_out t" "tn_upstream (refuse_tunnel rf t) = tn_upstream t"
  "tn_caps (refuse_tunnel rf t) = tn_caps t"
  by (simp_all add: refuse_tunnel_def finish_def end_tunnel_def)

lemma alert_frame [tunnel_frame]:
  "tn_bytes (alert oc reason desc t) = tn_bytes t" "tn_out (alert oc reason desc t) = tn_out t"
  "tn_upstream (alert oc reason desc t) = tn_upstream t" "tn_caps (alert oc reason desc t) = tn_caps t"
  by (simp_all add: alert_def finish_def end_tunnel_def)

lemma closed_budget_frame [tunnel_frame]:
  "tn_bytes (closed_budget now t) = tn_bytes t" "tn_out (closed_budget now t) = tn_out t"
  "tn_upstream (closed_budget now t) = tn_upstream t" "tn_caps (closed_budget now t) = tn_caps t"
  by (simp_all add: closed_budget_def)

lemma written_prefix: "\<exists>r. p = written w p @ r"
  by (cases w) (simp_all add: written_def, metis append_take_drop_id)

lemma length_written: "length (written w p) \<le> length p"
  by (cases w) (simp_all add: written_def)

text \<open>
  What \<open>pass\<close> writes: a prefix of what it was given, within the cap and within what the source's budget still
  grants, and all of it if the copy goes on.
\<close>

lemma pass_cases:
  assumes "pass d p w t = (t', err)"
  obtains sent r where "p = sent @ r" "tn_out t' = (tn_out t)(d := tn_out t d @ sent)"
    "tn_bytes t' = (tn_bytes t)(d := tn_bytes t d + int (length sent))" "tn_caps t' = tn_caps t" "tn_upstream t' = tn_upstream t"
    "int (length sent) \<le> max (tn_caps t d - tn_bytes t d) 0"
    "int (length sent) \<le> max (bt_limit (tn_table t) d - used (store (tn_table t) (tn_budget t)) d) 0"
    "\<not> err \<Longrightarrow> sent = p \<and> tn_result t' = tn_result t" "err \<Longrightarrow> tn_result t' \<noteq> None"
proof -
  let ?fits = "min (int (length p)) (max (tn_caps t d - tn_bytes t d) 0)"
  define g where "g = min ?fits (max (bt_limit (tn_table t) d - used (store (tn_table t) (tn_budget t)) d) 0)"
  define sent where "sent = (if 0 < g then written w (take (nat g) p) else [])"
  define tb where "tb = fst (take_bytes (tn_table t) (tn_budget t) d ?fits)"
  have tk: "take_bytes (tn_table t) (tn_budget t) d ?fits = (tb, g)"
    by (simp add: tb_def g_def take_bytes_def Let_def)
  have g: "(if g < ?fits then g else ?fits) = g" by (auto simp: g_def)
  define t1 where "t1 = t\<lparr>tn_table := tb\<rparr>"
  define t2 where "t2 = t1\<lparr>tn_bytes := (tn_bytes t1)(d := tn_bytes t1 d + int (length sent)),
    tn_out := (tn_out t1)(d := tn_out t1 d @ sent)\<rparr>"
  have eq: "(t', err) = (if 0 < g \<and> w \<noteq> None then (end_tunnel OutcomeTunnelled '''' t2, True)
      else if g < int (length p) then
        (end_tunnel (if d = Down then OutcomeDownloadCap else OutcomeUploadCap)
           (if g < ?fits then (if d = Down then ''source_download_budget'' else ''source_upload_budget'') else ''tunnel'') t2, True)
      else (t2, False))"
    using assms [symmetric] unfolding pass_def Let_def tk prod.case g sent_def [symmetric] t1_def [symmetric] t2_def [symmetric] .
  have ended: "tn_result (end_tunnel oc reason t2) \<noteq> None" for oc reason by (simp add: end_tunnel_def finish_def)
  have t2: "tn_out t2 = (tn_out t)(d := tn_out t d @ sent)" "tn_bytes t2 = (tn_bytes t)(d := tn_bytes t d + int (length sent))"
    "tn_caps t2 = tn_caps t" "tn_upstream t2 = tn_upstream t" "tn_result t2 = tn_result t" by (simp_all add: t2_def t1_def)
  have res: "tn_out t' = tn_out t2" "tn_bytes t' = tn_bytes t2" "tn_caps t' = tn_caps t2" "tn_upstream t' = tn_upstream t2"
    "err \<longleftrightarrow> (0 < g \<and> w \<noteq> None) \<or> g < int (length p)" "\<not> err \<Longrightarrow> tn_result t' = tn_result t2" "err \<Longrightarrow> tn_result t' \<noteq> None"
    using eq ended by (simp_all add: tunnel_frame split: if_splits)
  have len: "int (length sent) \<le> max g 0" using length_written [of w "take (nat g) p"] by (auto simp: sent_def)
  have "\<exists>r. p = sent @ r"
    using written_prefix [of "take (nat g) p" w] append_take_drop_id [of "nat g" p] append_assoc
    unfolding sent_def by (metis append_Nil)
  then obtain r where pre: "p = sent @ r" by blast
  have all: "sent = p" if "\<not> err"
  proof -
    have g: "int (length p) \<le> g" "w = None \<or> g \<le> 0" using that res(5) by auto
    show ?thesis
    proof (cases p)
      case (Cons c cs)
      then have "0 < g" using g(1) by simp
      then show ?thesis using g by (auto simp: sent_def written_def)
    qed (simp add: sent_def written_def split: option.split)
  qed
  have "g \<le> max (tn_caps t d - tn_bytes t d) 0" "g \<le> max (bt_limit (tn_table t) d - used (store (tn_table t) (tn_budget t)) d) 0"
    by (auto simp: g_def)
  then show ?thesis
    by (intro that [OF pre]) (use len all res t2 in auto)
qed

lemma pass_frame: "pass d p w t = (t', err) \<Longrightarrow> tn_caps t' = tn_caps t \<and> tn_upstream t' = tn_upstream t"
  by (erule pass_cases) blast

subsection \<open>What a tunnel carries\<close>

text \<open>
  The accounts of a tunnel: each direction's counter is the length of what it wrote and never above the cap, what
  it wrote is a prefix of what its source sends, and a copy that goes on has written all it read.
\<close>

definition carried_way :: "(direction \<Rightarrow> string) \<Rightarrow> splice \<Rightarrow> direction \<Rightarrow> bool" where
  "carried_way src s d \<longleftrightarrow>
     tn_bytes (sp_tunnel s) d = int (length (tn_out (sp_tunnel s) d)) \<and>
     int (length (tn_out (sp_tunnel s) d)) \<le> max (tn_caps (sp_tunnel s) d) 0 \<and>
     (\<exists>r. src d = tn_out (sp_tunnel s) d @ r) \<and>
     (sp_going s d \<longrightarrow> src d = tn_out (sp_tunnel s) d @ sp_left s d)"

definition carried :: "(direction \<Rightarrow> string) \<Rightarrow> splice \<Rightarrow> bool" where
  "carried src s \<longleftrightarrow> (\<forall>d. carried_way src s d)"

lemma carried_copy:
  assumes "carried src s" "sp_going s d" "sp_left s d = p @ rest" "pass d p w (sp_tunnel s) = (t', err)"
  shows "carried src \<lparr>sp_tunnel = t', sp_left = (sp_left s)(d := rest), sp_going = (sp_going s)(d := \<not> err)\<rparr>"
proof -
  obtain sent r where pc: "p = sent @ r" "tn_out t' = (tn_out (sp_tunnel s))(d := tn_out (sp_tunnel s) d @ sent)"
    "tn_bytes t' = (tn_bytes (sp_tunnel s))(d := tn_bytes (sp_tunnel s) d + int (length sent))" "tn_caps t' = tn_caps (sp_tunnel s)"
    "int (length sent) \<le> max (tn_caps (sp_tunnel s) d - tn_bytes (sp_tunnel s) d) 0" "\<not> err \<Longrightarrow> sent = p"
    using pass_cases [OF assms(4)] by metis
  let ?s = "\<lparr>sp_tunnel = t', sp_left = (sp_left s)(d := rest), sp_going = (sp_going s)(d := \<not> err)\<rparr>"
  have d: "carried_way src s d" using assms(1) by (simp add: carried_def)
  then have "int (length (tn_out (sp_tunnel s) d)) + int (length sent) \<le> max (tn_caps (sp_tunnel s) d) 0"
    using pc(5) by (auto simp: carried_way_def)
  then have "carried_way src ?s d" using d assms(2,3) pc by (auto simp: carried_way_def)
  moreover have "carried_way src ?s d'" if "d' \<noteq> d" for d'
    using assms(1) that pc by (simp add: carried_def carried_way_def)
  ultimately show ?thesis unfolding carried_def by metis
qed

lemma carried_step: "splice_step s s' \<Longrightarrow> carried src s \<Longrightarrow> carried src s'"
proof (induction rule: splice_step.induct)
  case (copied s d p rest w t' err)
  then show ?case using carried_copy by blast
qed (simp_all add: carried_def carried_way_def tunnel_frame)

lemma step_frame:
  "splice_step s s' \<Longrightarrow> tn_caps (sp_tunnel s') = tn_caps (sp_tunnel s) \<and> tn_upstream (sp_tunnel s') = tn_upstream (sp_tunnel s)"
proof (induction rule: splice_step.induct)
  case (copied s d p rest w t' err)
  then show ?case using pass_frame by fastforce
qed (auto simp: tunnel_frame)

lemma still_step:
  "splice_step s s' \<Longrightarrow> \<forall>d. \<not> sp_going s d \<Longrightarrow> (\<forall>d. \<not> sp_going s' d) \<and> tn_out (sp_tunnel s') = tn_out (sp_tunnel s)"
  by (induction rule: splice_step.induct) (auto simp: tunnel_frame)

text \<open>The state in which a handler leaves the stages: nothing written, or the hello passed after every judgement.\<close>

definition judged ::
    "(string \<Rightarrow> string) \<Rightarrow> (string \<Rightarrow> bool) \<Rightarrow> cryptobyte \<Rightarrow> tunnel_config \<Rightarrow> tunnel_profile \<Rightarrow> connect_request \<Rightarrow> connect_world \<Rightarrow> addr_port option \<Rightarrow> bool" where
  "judged ul v6 cb cfg p r w up \<longleftrightarrow>
     (\<exists>host h raw q.
        admitConnect ul v6 cfg p r = Inr host \<and>
        up = Some q \<and> q \<in> set (snd (DialContext (cw_dial w) (AddrPolicy_Check (tunnel_policy cfg)) (host @ ''.:'' @ TunnelPort))) \<and>
        ReadClientHello cb (cw_client w) = (Inr h, raw) \<and> NormalizeHost (h_SNI h) = Inr host \<and> \<not> h_HasECH h)"

lemma judgeHello_None:
  "judgeHello host stalls v = None \<longleftrightarrow> (\<exists>h. v = Inr h \<and> h_SNI h \<noteq> [] \<and> NormalizeHost (h_SNI h) = Inr host \<and> \<not> h_HasECH h)"
  by (cases v) (auto simp: judgeHello_def)

definition fresh :: "tunnel \<Rightarrow> bool" where
  "fresh t \<longleftrightarrow> tn_out t = (\<lambda>_. []) \<and> tn_bytes t = (\<lambda>_. 0)"

lemma raw_prefix: "ReadClientHello cb s = (v, raw) \<Longrightarrow> \<exists>t. s = raw @ t"
  using read_bounded [of new_assembler s cb "[]"] by (auto simp: ReadClientHello_def new_assembler_def)

lemma runTunnel_cases:
  assumes "fresh t" "runTunnel cb host answered stalls w client t = (t', going)"
  shows "tn_upstream t' = tn_upstream t \<and> tn_caps t' = tn_caps t \<and>
    (fresh t' \<and> \<not> going \<or>
     (\<exists>h raw. ReadClientHello cb client = (Inr h, raw) \<and> NormalizeHost (h_SNI h) = Inr host \<and> \<not> h_HasECH h \<and>
        (\<forall>upstream. carried (\<lambda>d. case d of Up \<Rightarrow> client | Down \<Rightarrow> upstream) (start_splice client upstream (t', going)))))"
proof -
  obtain v raw where rd: "ReadClientHello cb client = (v, raw)" by (cases "ReadClientHello cb client")
  let ?t = "t\<lparr>tn_answers := tn_answers t @ [Established]\<rparr>"
  show ?thesis
  proof (cases "answered \<and> judgeHello host stalls v = None")
    case False
    then show ?thesis using assms rd
      by (auto simp: runTunnel_def Let_def fresh_def tunnel_frame split: option.splits if_splits)
  next
    case True
    then obtain h where h: "v = Inr h" "NormalizeHost (h_SNI h) = Inr host" "\<not> h_HasECH h" by (auto simp: judgeHello_None)
    obtain err where ps: "pass Up raw w ?t = (t', err)" "going = (\<not> err)"
      using assms(2) True rd by (auto simp: runTunnel_def Let_def split: prod.splits)
    obtain rest where rest: "client = raw @ rest" using raw_prefix [OF rd] by blast
    have "carried (\<lambda>d. case d of Up \<Rightarrow> client | Down \<Rightarrow> upstream) (start_splice client upstream (t', going))" for upstream
    proof -
      let ?src = "case_direction client upstream"
      let ?s = "\<lparr>sp_tunnel = ?t, sp_left = ?src, sp_going = (\<lambda>_. True)\<rparr>"
      have "carried ?src ?s" using assms(1) by (simp add: carried_def carried_way_def fresh_def)
      from carried_copy [OF this, of Up raw rest w t' err]
      have c: "carried ?src \<lparr>sp_tunnel = t', sp_left = ?src(Up := rest), sp_going = (\<lambda>_. True)(Up := \<not> err)\<rparr>"
        using rest ps(1) by (simp del: append_eq_append_conv)
      obtain sent r where "raw = sent @ r" "tn_out t' = (tn_out ?t)(Up := tn_out ?t Up @ sent)" "\<not> err \<Longrightarrow> sent = raw"
        using pass_cases [OF ps(1)] by metis
      then have "tn_out t' Down = []" "going \<Longrightarrow> tn_out t' Up = raw" using ps(2) assms(1) by (simp_all add: fresh_def)
      moreover have "carried_way ?src \<lparr>sp_tunnel = t', sp_left = ?src(Up := rest), sp_going = (\<lambda>_. True)(Up := \<not> err)\<rparr> d" for d
        using c by (simp add: carried_def)
      ultimately have "carried_way ?src (start_splice client upstream (t', going)) d" for d
        using rest ps(2) by (cases d) (fastforce simp: carried_way_def start_splice_def)+
      then show ?thesis by (simp add: carried_def)
    qed
    moreover have "tn_upstream t' = tn_upstream t" "tn_caps t' = tn_caps t"
      using pass_frame [OF ps(1)] by simp_all
    ultimately show ?thesis using rd h by blast
  qed
qed

lemma serveConnect_cases:
  assumes "serveConnect ul v6 cb cfg p r w tb = (t', going)"
  shows "fresh t' \<and> \<not> going \<or>
    tn_caps t' = tunnel_caps cfg p \<and> judged ul v6 cb cfg p r w (tn_upstream t') \<and>
    (\<forall>upstream. carried (case_direction (cw_client w) upstream) (start_splice (cw_client w) upstream (t', going)))"
proof (cases "cw_live w \<and> cw_limited w = [] \<and> (\<exists>host. admitConnect ul v6 cfg p r = Inr host) \<and> (\<exists>tb' b. open_tunnel tb (cw_source w) (cw_now w) = (tb', Inr b))")
  case False
  then show ?thesis using assms
    by (auto simp: serveConnect_def Let_def fresh_def new_tunnel_def tunnel_frame split: sum.splits if_splits prod.splits)
next
  case True
  then obtain host tb' b where adm: "cw_live w" "cw_limited w = []" "admitConnect ul v6 cfg p r = Inr host"
    "open_tunnel tb (cw_source w) (cw_now w) = (tb', Inr b)" by blast
  define t0 where "t0 = (new_tunnel tb)\<lparr>tn_table := tb', tn_budget := b, tn_caps := tunnel_caps cfg p\<rparr>"
  have t0: "fresh t0" "tn_caps t0 = tunnel_caps cfg p" by (simp_all add: t0_def new_tunnel_def fresh_def)
  obtain t1 ok where d: "dialTunnel cfg (cw_dial w) host (cw_shut w) t0 = (t1, ok)"
    by (cases "dialTunnel cfg (cw_dial w) host (cw_shut w) t0")
  have serve: "serveConnect ul v6 cb cfg p r w tb =
      (if ok then (case runTunnel cb host (cw_answered w) (cw_stalls w) (cw_write w) (cw_client w) t1 of
                    (t, False) \<Rightarrow> (closed_budget (cw_closed w) t, False) | (t, True) \<Rightarrow> (t, True))
       else (closed_budget (cw_closed w) t1, False))"
    using adm d by (simp add: serveConnect_def Let_def t0_def)
  have t1: "fresh t1" "tn_caps t1 = tunnel_caps cfg p"
    "ok \<Longrightarrow> \<exists>q. tn_upstream t1 = Some q \<and> fst (DialContext (cw_dial w) (AddrPolicy_Check (tunnel_policy cfg)) (host @ ''.:'' @ TunnelPort)) = Inr q"
    using d t0 by (auto simp: dialTunnel_def setUpstream_def fresh_def tunnel_frame split: sum.splits if_splits)
  show ?thesis
  proof (cases ok)
    case False
    then show ?thesis using assms serve t1(1) by (auto simp: fresh_def tunnel_frame)
  next
    case True
    obtain t2 g where rt: "runTunnel cb host (cw_answered w) (cw_stalls w) (cw_write w) (cw_client w) t1 = (t2, g)"
      by (cases "runTunnel cb host (cw_answered w) (cw_stalls w) (cw_write w) (cw_client w) t1")
    have t': "t' = (if g then t2 else closed_budget (cw_closed w) t2)" "going = g"
      using assms serve True rt by (cases g; simp)+
    obtain q where q: "tn_upstream t1 = Some q" "fst (DialContext (cw_dial w) (AddrPolicy_Check (tunnel_policy cfg)) (host @ ''.:'' @ TunnelPort)) = Inr q"
      using t1(3) True by blast
    have same: "tn_upstream t2 = tn_upstream t1" "tn_caps t2 = tn_caps t1" "tn_upstream t' = tn_upstream t2" "tn_caps t' = tn_caps t2"
      "tn_out t' = tn_out t2" "tn_bytes t' = tn_bytes t2"
      using runTunnel_cases [OF t1(1) rt] t' by (simp_all add: tunnel_frame)
    have "carried src (start_splice c u (t', going)) = carried src (start_splice c u (t2, g))" for src c u
      by (cases g) (simp_all add: carried_def carried_way_def start_splice_def t' tunnel_frame)
    then show ?thesis
      using runTunnel_cases [OF t1(1) rt] adm(3) q same t1(2) t'(2)
      by (auto simp: judged_def fresh_def intro: public_dial.DialContext_result)
  qed
qed

lemma tunnel_reach_inv:
  assumes "tunnel_reach ul v6 cb cfg p r w tb upstream s"
  shows "(\<forall>d. \<not> sp_going s d) \<and> tn_out (sp_tunnel s) = (\<lambda>_. []) \<or>
    tn_caps (sp_tunnel s) = tunnel_caps cfg p \<and> judged ul v6 cb cfg p r w (tn_upstream (sp_tunnel s)) \<and>
    carried (case_direction (cw_client w) upstream) s"
  using assms
proof (induction rule: tunnel_reach.induct)
  case start
  obtain t going where "serveConnect ul v6 cb cfg p r w tb = (t, going)"
    by (cases "serveConnect ul v6 cb cfg p r w tb")
  then show ?case using serveConnect_cases by (fastforce simp: start_splice_def fresh_def)
next
  case (step s s')
  then show ?case using still_step [OF step.hyps(2)] step_frame [OF step.hyps(2)] carried_step [OF step.hyps(2)]
    by metis
qed

lemma admitConnect_Inr:
  assumes "admitConnect ul v6 cfg p r = Inr host"
  shows "\<not> tc_suspended cfg \<and> (\<exists>raw. ParseConnectTarget (rq_target r) = Inr raw \<and> NormalizeHost raw = Inr host) \<and>
    ValidHost host \<and> host \<in> set (tp_Hosts p) \<and>
    DeniedTunnelHost ul v6 host \<lparr>dc_hosts = tp_Host p # tc_denyHosts cfg, dc_internal = False, dc_internalCIDRs = []\<rparr> = None"
  using assms
  by (auto simp: admitConnect_def judgeTarget_def Let_def Hosts_Allows_def split: if_splits sum.splits connect_error.splits)

lemma target_shape:
  "ParseConnectTarget t = Inr host \<Longrightarrow> t = host @ '':443'' \<and> host \<noteq> [] \<and> list_all target_byte host \<and> CHR '':'' \<notin> set host"
  by (auto simp: ParseConnectTarget_def TunnelPort_def split: if_splits prod.splits dest: cut_at_found)

text \<open>
  C11. No byte crosses a tunnel, in either direction and at any moment of its life, unless everything was judged
  first: the routes are not suspended, the CONNECT named a host of the profile's list on port 443, a valid
  name that no deny table covers, the upstream is a public IPv4 address on port 443 outside every built-in,
  always-denied and configured range, and the client's hello is a whole one whose server name is that host and
  which does not encrypt another.
\<close>

theorem tunnel_guarded:
  assumes "tunnel_reach ul v6 cb cfg p r w tb upstream s" "\<not> ap_testLoopback (tc_policy cfg)"
    and "tn_out (sp_tunnel s) d \<noteq> []"
  shows "\<exists>host named q v h raw.
    \<not> tc_suspended cfg \<and> rq_target r = named @ '':443'' \<and> NormalizeHost named = Inr host \<and> ValidHost host \<and> host \<in> set (tp_Hosts p) \<and>
    DeniedTunnelHost ul v6 host \<lparr>dc_hosts = tp_Host p # tc_denyHosts cfg, dc_internal = False, dc_internalCIDRs = []\<rparr> = None \<and>
    tn_upstream (sp_tunnel s) = Some q \<and> Unmap (fst q) = V4 v \<and> snd q = 443 \<and>
    \<not> in_ranges (builtinDeny @ ap_deny (tc_policy cfg) @ map (\<lambda>(a, k). (V4 a, k)) AlwaysDeniedCIDRs @ tc_always cfg @ tc_deny cfg) (V4 v) \<and>
    ReadClientHello cb (cw_client w) = (Inr h, raw) \<and> NormalizeHost (h_SNI h) = Inr host \<and> \<not> h_HasECH h"
proof -
  have "judged ul v6 cb cfg p r w (tn_upstream (sp_tunnel s))"
    using tunnel_reach_inv [OF assms(1)] assms(3) by auto
  then obtain host h raw q where j: "admitConnect ul v6 cfg p r = Inr host" "tn_upstream (sp_tunnel s) = Some q"
    "q \<in> set (snd (DialContext (cw_dial w) (AddrPolicy_Check (tunnel_policy cfg)) (host @ ''.:'' @ TunnelPort)))"
    "ReadClientHello cb (cw_client w) = (Inr h, raw)" "NormalizeHost (h_SNI h) = Inr host" "\<not> h_HasECH h"
    unfolding judged_def by blast
  have "public_addr (tunnel_policy cfg) (Unmap (fst q), snd q)"
    using public_dial.connects_safe [of q "cw_dial w" "tunnel_policy cfg"] j(3) assms(2) by (auto simp: tunnel_policy_def)
  then obtain v where "Unmap (fst q) = V4 v" "snd q = 443"
    "\<not> in_ranges (builtinDeny @ ap_deny (tc_policy cfg) @ map (\<lambda>(a, k). (V4 a, k)) AlwaysDeniedCIDRs @ tc_always cfg @ tc_deny cfg) (V4 v)"
    by (cases "Unmap (fst q)") (auto simp: public_addr_def upstreamPort_def tunnel_policy_def)
  then show ?thesis using j admitConnect_Inr [OF j(1)] target_shape by blast
qed

text \<open>
  C25. What a tunnel carries is what was sent and within its caps: at every moment of its life the bytes written in a
  direction are a prefix of what that direction's source sends, counted exactly, and never more than
  the direction's cap (the profile's upload cap where it sets one).
\<close>

theorem tunnel_carries:
  assumes "tunnel_reach ul v6 cb cfg p r w tb upstream s"
  shows "(\<exists>rest. cw_client w = tn_out (sp_tunnel s) Up @ rest) \<and> (\<exists>rest. upstream = tn_out (sp_tunnel s) Down @ rest) \<and>
    int (length (tn_out (sp_tunnel s) d)) \<le> max (tunnel_caps cfg p d) 0 \<and>
    (tn_out (sp_tunnel s) d \<noteq> [] \<longrightarrow> tn_bytes (sp_tunnel s) d = int (length (tn_out (sp_tunnel s) d)))"
proof (cases "carried (case_direction (cw_client w) upstream) s \<and> tn_caps (sp_tunnel s) = tunnel_caps cfg p")
  case True
  then have "carried_way (case_direction (cw_client w) upstream) s d'" for d' by (simp add: carried_def)
  from this [of Up] this [of Down] this [of d] show ?thesis using True by (auto simp: carried_way_def)
next
  case False
  then have "tn_out (sp_tunnel s) = (\<lambda>_. [])" using tunnel_reach_inv [OF assms] by blast
  then show ?thesis by simp
qed

subsection \<open>A tunnel that runs\<close>

definition demo_profile :: tunnel_profile where
  "demo_profile = \<lparr>tp_Name = ''build'', tp_Host = ''github.com'', tp_Hosts = [''go.dev''], tp_perTunnel = Some 1000\<rparr>"

definition demo_request :: connect_request where
  "demo_request = \<lparr>rq_target = ''Go.dev:443'', rq_major = 1, rq_minor = 1, rq_length = 0, rq_encodings = []\<rparr>"

definition demo_config :: tunnel_config where
  "demo_config = \<lparr>tc_suspended = False, tc_denyHosts = [], tc_policy = demo_policy, tc_always = [], tc_deny = [],
     tc_limits = demo_tunnel_limits\<rparr>"

definition demo_connect :: connect_world where
  "demo_connect = \<lparr>cw_live = True, cw_limited = [], cw_source = ''10.0.0.1'', cw_now = 5, cw_closed = 9, cw_dial = demo_world,
     cw_shut = False, cw_answered = True, cw_stalls = False, cw_write = None, cw_client = wire demo_records @ ''more''\<rparr>"

lemma demo_tunnel_admitted: "admitConnect (\<lambda>s. s) (\<lambda>_. False) demo_config demo_profile demo_request = Inr ''go.dev''"
proof -
  let ?d = "\<lparr>dc_hosts = [''github.com''], dc_internal = False, dc_internalCIDRs = []\<rparr>"
  have v: "ValidHost ''go.dev''" by code_simp
  have "DeniedTunnelHost (\<lambda>s. s) (\<lambda>_. False) ''go.dev'' ?d = None" by code_simp
  moreover have "NormalizeHost ''Go.dev'' = Inr ''go.dev''" by code_simp
  moreover have "ParseConnectTarget ''Go.dev:443'' = Inr ''Go.dev''"
    by (simp add: ParseConnectTarget_def MaxConnectTargetLen_def target_byte_def TunnelPort_def)
  moreover have "\<not> IPLiteral (\<lambda>s. s) (\<lambda>_. False) ''Go.dev''" by code_simp
  ultimately show ?thesis using v
    by (simp add: admitConnect_def judgeTarget_def Let_def demo_config_def demo_profile_def demo_request_def Hosts_Allows_def)
qed

lemma demo_dialled:
  "DialContext demo_world (AddrPolicy_Check (tunnel_policy demo_config)) ''go.dev.:443'' =
    (Inr (V4 (octets 93 184 216 34), 443), [(V4 (octets 93 184 216 34), 443)])"
  by (rule demo_dial) (simp add: AddrPolicy_Check_def tunnel_policy_def demo_config_def demo_policy_def upstreamPort_def IsGlobalUnicast_def
      octets_def builtinDeny_def AlwaysDeniedCIDRs_def cidr_contains_def)

lemma demo_read: "ReadClientHello demo_cursor (wire demo_records @ ''more'') = (Inr (fold see demo_exts no_hello), wire demo_records)"
  using hello_accepted [OF demo_laws demo_hello_ok demo_records_ok(3,1) demo_message demo_records_ok(2)] by blast

lemma demo_judged: "judgeHello ''go.dev'' False (Inr (fold see demo_exts no_hello)) = None"
proof -
  have "NormalizeHost ''go.dev'' = Inr ''go.dev''" by code_simp
  then show ?thesis by (simp add: judgeHello_def demo_exts_def no_hello_def)
qed

lemma demo_wire_length: "length (wire demo_records) = 79"
  using demo_length by (simp add: demo_records_def Let_def record_length)

lemma demo_served:
  "tn_out (fst (serveConnect (\<lambda>s. s) (\<lambda>_. False) demo_cursor demo_config demo_profile demo_request demo_connect demo_table)) Up = wire demo_records"
proof -
  define t where "t = (new_tunnel demo_table)\<lparr>tn_table := demo_opened, tn_budget := 0, tn_caps := tunnel_caps demo_config demo_profile,
    tn_upstream := Some (V4 (octets 93 184 216 34), 443)\<rparr>"
  have dialled: "dialTunnel demo_config demo_world ''go.dev'' False
      ((new_tunnel demo_table)\<lparr>tn_table := demo_opened, tn_budget := 0, tn_caps := tunnel_caps demo_config demo_profile\<rparr>) = (t, True)"
    using demo_dialled by (simp add: dialTunnel_def TunnelPort_def setUpstream_def t_def new_tunnel_def)
  have passed: "\<exists>t'. pass Up (wire demo_records) None (t\<lparr>tn_answers := tn_answers t @ [Established]\<rparr>) = (t', False) \<and> tn_out t' Up = wire demo_records"
    using demo_wire_length by (simp add: pass_def take_bytes_def Let_def t_def new_tunnel_def tunnel_caps_def demo_profile_def demo_opened_def
        demo_table_def newBudgetTable_def filledLimits_def orDefault_def demo_tunnel_limits_def zero_budget_def written_def)
  then obtain t' where "pass Up (wire demo_records) None (t\<lparr>tn_answers := tn_answers t @ [Established]\<rparr>) = (t', False)" "tn_out t' Up = wire demo_records"
    by blast
  then have "runTunnel demo_cursor ''go.dev'' True False None (wire demo_records @ ''more'') t = (t', True)"
    by (simp add: runTunnel_def Let_def demo_read demo_judged)
  then show ?thesis using \<open>tn_out t' Up = _\<close> dialled
    by (simp add: serveConnect_def Let_def demo_connect_def demo_tunnel_admitted demo_open)
qed

lemma tunnel_guarded_witness:
  "ValidHost ''go.dev'' \<and> (\<exists>q v. tn_upstream (fst (serveConnect (\<lambda>s. s) (\<lambda>_. False) demo_cursor demo_config demo_profile demo_request demo_connect demo_table)) = Some q \<and>
     Unmap (fst q) = V4 v \<and> \<not> in_ranges builtinDeny (V4 v))"
proof -
  let ?s = "start_splice (cw_client demo_connect) ''reply'' (serveConnect (\<lambda>s. s) (\<lambda>_. False) demo_cursor demo_config demo_profile demo_request demo_connect demo_table)"
  have "wire demo_records \<noteq> []" using demo_wire_length by (metis list.size(3) zero_neq_numeral)
  then have "tn_out (sp_tunnel ?s) Up \<noteq> []" using demo_served by (simp add: start_splice_def)
  from tunnel_guarded [OF tunnel_reach.start _ this]
  obtain q v where "tn_upstream (sp_tunnel ?s) = Some q" "Unmap (fst q) = V4 v" "\<not> in_ranges builtinDeny (V4 v)"
    by (auto simp: demo_config_def demo_policy_def in_ranges_def)
  moreover have "ValidHost ''go.dev''" by code_simp
  ultimately show ?thesis by (auto simp: start_splice_def)
qed

lemma tunnel_carries_witness: "length (wire demo_records) \<le> 1000"
proof -
  let ?st = "serveConnect (\<lambda>s. s) (\<lambda>_. False) demo_cursor demo_config demo_profile demo_request demo_connect demo_table"
  have "int (length (tn_out (sp_tunnel (start_splice (cw_client demo_connect) ''reply'' ?st)) Up)) \<le> max (tunnel_caps demo_config demo_profile Up) 0"
    using tunnel_carries [OF tunnel_reach.start, where d = Up] by blast
  then show ?thesis using demo_served by (simp add: start_splice_def tunnel_caps_def demo_profile_def)
qed

end
