(* ===== verification/CommandText.thy ===== *)
theory CommandText
  imports Actions
begin

text \<open>
  The comments that are commands (\<open>internal/command/command.go\<close>): the grammar \<open>/maul <verb> [note]\<close>, the
  legacy approve comment, and the one rule every note follows. Text is the list of its code points: a
  comment arrives decoded from JSON and is valid UTF-8. Unicode's white space, controls and variation
  selectors are written out; its graphic characters are the argument \<open>graphic\<close>.
\<close>

type_synonym rune = nat
type_synonym ustring = "rune list"

definition runes :: "string \<Rightarrow> ustring" where "runes s = map byte s"

definition IsSpace :: "rune \<Rightarrow> bool" where
  "IsSpace r \<longleftrightarrow> (9 \<le> r \<and> r \<le> 13) \<or> r = 32 \<or> r = 0x85 \<or> r = 0xa0 \<or> r = 0x1680 \<or> (0x2000 \<le> r \<and> r \<le> 0x200a) \<or>
     r = 0x2028 \<or> r = 0x2029 \<or> r = 0x202f \<or> r = 0x205f \<or> r = 0x3000"

definition IsControl :: "rune \<Rightarrow> bool" where
  "IsControl r \<longleftrightarrow> r < 32 \<or> (0x7f \<le> r \<and> r < 0xa0)"

definition Variation_Selector :: "rune \<Rightarrow> bool" where
  "Variation_Selector r \<longleftrightarrow> (0x180b \<le> r \<and> r \<le> 0x180d) \<or> r = 0x180f \<or> (0xfe00 \<le> r \<and> r \<le> 0xfe0f) \<or> (0xe0100 \<le> r \<and> r \<le> 0xe01ef)"

definition rune_bytes :: "rune \<Rightarrow> nat" where
  "rune_bytes r = (if r < 0x80 then 1 else if r < 0x800 then 2 else if r < 0x10000 then 3 else 4)"

definition text_bytes :: "ustring \<Rightarrow> nat" where "text_bytes s = sum_list (map rune_bytes s)"

definition trim_left :: "ustring \<Rightarrow> ustring" where "trim_left s = dropWhile IsSpace s"
definition trim_right :: "ustring \<Rightarrow> ustring" where "trim_right s = rev (dropWhile IsSpace (rev s))"
definition trim_text :: "ustring \<Rightarrow> ustring" where "trim_text s = trim_right (trim_left s)"

subsection \<open>Notes\<close>

definition MaxNoteBytes :: nat where "MaxNoteBytes = 1024"
definition maxVerbBytes :: nat where "maxVerbBytes = 32"
definition Prefix :: ustring where "Prefix = runes ''/maul''"
definition LegacyApprove :: ustring where "LegacyApprove = runes ''/approve''"

fun lineBreaks :: "ustring \<Rightarrow> ustring" where
  "lineBreaks [] = []"
| "lineBreaks (c # s) =
     (if c = 13 then (case s of [] \<Rightarrow> [10] | d # s' \<Rightarrow> if d = 10 then 10 # lineBreaks s' else 10 # lineBreaks s)
      else (if c \<in> {11, 12, 0x85, 0x2028, 0x2029} then 10 else c) # lineBreaks s)"

definition hides :: "rune \<Rightarrow> bool" where
  "hides r \<longleftrightarrow> (0x202a \<le> r \<and> r \<le> 0x202e) \<or> (0x2066 \<le> r \<and> r \<le> 0x2069) \<or> (0xe0000 \<le> r \<and> r \<le> 0xe007f) \<or> r = 0xfeff"

definition selectable :: "(rune \<Rightarrow> bool) \<Rightarrow> rune \<Rightarrow> bool" where
  "selectable graphic r \<longleftrightarrow> graphic r \<and> \<not> IsSpace r \<and> \<not> Variation_Selector r"

fun visible :: "(rune \<Rightarrow> bool) \<Rightarrow> rune \<Rightarrow> ustring \<Rightarrow> ustring" where
  "visible graphic prev [] = []"
| "visible graphic prev (r # s) =
     (if r = 10 \<or> r = 9 then r # visible graphic r s
      else if IsControl r \<or> hides r then visible graphic prev s
      else if Variation_Selector r \<and> \<not> selectable graphic prev then visible graphic prev s
      else r # visible graphic r s)"

fun fit :: "nat \<Rightarrow> ustring \<Rightarrow> ustring" where
  "fit n [] = []"
| "fit n (r # s) = (if rune_bytes r \<le> n then r # fit (n - rune_bytes r) s else [])"

definition Note :: "(rune \<Rightarrow> bool) \<Rightarrow> ustring \<Rightarrow> ustring" where
  "Note graphic s =
     (let t = trim_text (visible graphic 10 (lineBreaks s)) in
      if text_bytes t \<le> MaxNoteBytes then t else trim_right (fit MaxNoteBytes t))"

subsection \<open>The grammar\<close>

fun cut_text :: "(rune \<Rightarrow> bool) \<Rightarrow> ustring \<Rightarrow> ustring \<times> ustring" where
  "cut_text stop [] = ([], [])"
| "cut_text stop (c # s) = (if stop c then ([], s) else map_prod ((#) c) id (cut_text stop s))"

lemma cut_text_shrinks: "s \<noteq> [] \<Longrightarrow> length (snd (cut_text stop s)) < length s"
proof (induction s)
  case (Cons c s)
  then show ?case by (cases s) auto
qed simp

text \<open>The first line, by the given line ends, that is not blank, and what is below it.\<close>

function first_line :: "(rune \<Rightarrow> bool) \<Rightarrow> ustring \<Rightarrow> ustring \<times> ustring" where
  "first_line stop s =
     (if s = [] then ([], [])
      else case cut_text stop s of (l, below) \<Rightarrow> if trim_text l \<noteq> [] then (l, below) else first_line stop below)"
  by pat_completeness auto

termination
  by (relation "measure (\<lambda>(stop, s). length s)") (use cut_text_shrinks in \<open>auto, metis snd_conv\<close>)

declare first_line.simps [simp del]

definition firstLine :: "ustring \<Rightarrow> ustring \<times> ustring" where "firstLine = first_line (\<lambda>c. c = 10)"
definition markdownLine :: "ustring \<Rightarrow> ustring" where "markdownLine s = fst (first_line (\<lambda>c. c = 13 \<or> c = 10) s)"

fun indent_from :: "nat \<Rightarrow> ustring \<Rightarrow> bool" where
  "indent_from col s =
     (if 4 \<le> col then True
      else case s of [] \<Rightarrow> False
        | c # r \<Rightarrow> if c = 32 then indent_from (col + 1) r else if c = 9 then indent_from (col + (4 - col mod 4)) r else False)"

declare indent_from.simps [simp del]

definition indentedCode :: "ustring \<Rightarrow> bool" where "indentedCode line = indent_from 0 line"

definition cutWord :: "ustring \<Rightarrow> ustring \<times> ustring" where
  "cutWord s = (takeWhile (\<lambda>r. \<not> IsSpace r) s, dropWhile (\<lambda>r. \<not> IsSpace r) s)"

definition ascii_letter :: "rune \<Rightarrow> bool" where
  "ascii_letter r \<longleftrightarrow> (97 \<le> r \<and> r \<le> 122) \<or> (65 \<le> r \<and> r \<le> 90)"

definition lower_rune :: "rune \<Rightarrow> rune" where "lower_rune r = (if 65 \<le> r \<and> r \<le> 90 then r + 32 else r)"

definition verb :: "ustring \<Rightarrow> ustring" where
  "verb word = (if word = [] \<or> maxVerbBytes < text_bytes word \<or> \<not> list_all ascii_letter word then [] else map lower_rune word)"

record human_command =
  hc_Verb :: ustring
  hc_Note :: ustring
  hc_Alias :: ustring

datatype surface = FindingIssue | IntentIssue | IntentPR

record parser =
  ps_Surface :: surface
  ps_ApproveAlias :: ustring

definition fold_prefix :: "ustring \<Rightarrow> bool" where
  "fold_prefix line \<longleftrightarrow> map lower_rune (take (length Prefix) line) = Prefix"

definition parseGrammar :: "(rune \<Rightarrow> bool) \<Rightarrow> ustring \<Rightarrow> human_command option" where
  "parseGrammar graphic body =
     (if indentedCode (markdownLine body) then None
      else case firstLine (lineBreaks body) of (line0, below) \<Rightarrow>
        if indentedCode line0 then None
        else let line = trim_left line0 in
          if \<not> fold_prefix line then None
          else let rest = drop (length Prefix) line in
            if rest \<noteq> [] \<and> \<not> IsSpace (hd rest) then None
            else case cutWord (trim_left rest) of (word, after) \<Rightarrow>
              Some \<lparr>hc_Verb = verb word, hc_Note = Note graphic (after @ [10] @ below), hc_Alias = []\<rparr>)"

definition parseAlias :: "(rune \<Rightarrow> bool) \<Rightarrow> parser \<Rightarrow> ustring \<Rightarrow> human_command option" where
  "parseAlias graphic p body =
     (let al = (if ps_ApproveAlias p = [] then LegacyApprove else ps_ApproveAlias p); trimmed = trim_text body in
      if trimmed \<noteq> al \<and> take (length al + 1) trimmed \<noteq> al @ [32] then None
      else Some \<lparr>hc_Verb = runes VerbApprove, hc_Note = Note graphic (drop (length al) trimmed), hc_Alias = al\<rparr>)"

definition Parser_Parse :: "(rune \<Rightarrow> bool) \<Rightarrow> parser \<Rightarrow> ustring \<Rightarrow> human_command option" where
  "Parser_Parse graphic p body =
     (case parseGrammar graphic body of
        Some c \<Rightarrow> Some c
      | None \<Rightarrow> if ps_Surface p \<noteq> FindingIssue then None else parseAlias graphic p body)"

subsection \<open>What a note holds\<close>

fun clean :: "(rune \<Rightarrow> bool) \<Rightarrow> rune \<Rightarrow> ustring \<Rightarrow> bool" where
  "clean graphic prev [] = True"
| "clean graphic prev (r # s) \<longleftrightarrow>
     (r = 10 \<or> r = 9 \<or> \<not> IsControl r \<and> \<not> hides r \<and> (Variation_Selector r \<longrightarrow> selectable graphic prev)) \<and> clean graphic r s"

definition no_breaks :: "ustring \<Rightarrow> bool" where
  "no_breaks s \<longleftrightarrow> list_all (\<lambda>c. c \<notin> {11, 12, 13, 0x85, 0x2028, 0x2029}) s"

lemma visible_clean: "clean graphic prev (visible graphic prev s)"
  by (induction graphic prev s rule: visible.induct) auto

lemma clean_visible: "clean graphic prev s \<Longrightarrow> visible graphic prev s = s"
proof (induction graphic prev s rule: clean.induct)
  case (2 graphic prev r s)
  have "\<not> IsControl r \<and> \<not> hides r \<longrightarrow> r \<noteq> 10 \<and> r \<noteq> 9" by (auto simp: IsControl_def)
  then show ?case using 2 by auto
qed simp

lemma clean_append: "clean graphic prev (s @ t) \<Longrightarrow> clean graphic prev s"
  by (induction graphic prev s rule: clean.induct) auto

lemma space_not_selectable: "IsSpace r \<Longrightarrow> \<not> selectable graphic r"
  by (simp add: selectable_def)

lemma clean_trim_left: "clean graphic p s \<Longrightarrow> \<not> selectable graphic p \<Longrightarrow> clean graphic 10 (trim_left s)"
proof (induction s arbitrary: p)
  case (Cons r s)
  then show ?case using space_not_selectable by (auto simp: trim_left_def)
qed (simp add: trim_left_def)

lemma trim_right_prefix: "\<exists>t. s = trim_right s @ t"
proof -
  have "rev s = takeWhile IsSpace (rev s) @ dropWhile IsSpace (rev s)" by simp
  then have "s = trim_right s @ rev (takeWhile IsSpace (rev s))"
    unfolding trim_right_def by (metis rev_append rev_rev_ident)
  then show ?thesis by blast
qed

lemma fit_prefix: "\<exists>t. s = fit n s @ t"
  by (induction n s rule: fit.induct) auto

lemma fit_bytes: "text_bytes (fit n s) \<le> n"
  by (induction n s rule: fit.induct) (auto simp: text_bytes_def)

lemma text_bytes_append: "text_bytes (s @ t) = text_bytes s + text_bytes t"
  by (simp add: text_bytes_def)

lemma trim_right_bytes: "text_bytes (trim_right s) \<le> text_bytes s"
  using trim_right_prefix [of s] text_bytes_append by (metis le_add1)

lemma trim_right_idem: "trim_right (trim_right s) = trim_right s"
  by (simp add: trim_right_def)

lemma trim_left_prefix:
  assumes "trim_left (s @ t) = s @ t"
  shows "trim_left s = s"
  using assms unfolding trim_left_def dropWhile_eq_self_iff by (cases s) simp_all

lemma trim_left_idem: "trim_left (trim_left s) = trim_left s"
  by (simp add: trim_left_def)

lemma trim_left_right: "trim_left s = s \<Longrightarrow> trim_left (trim_right s) = trim_right s"
  using trim_right_prefix [of s] trim_left_prefix by metis

lemma no_breaks_lineBreaks: "no_breaks s \<Longrightarrow> lineBreaks s = s"
  by (induction s) (auto simp: no_breaks_def)

lemma lineBreaks_no_breaks: "no_breaks (lineBreaks s)"
  by (induction s rule: lineBreaks.induct) (auto simp: no_breaks_def split: list.splits)

lemma no_breaks_visible: "no_breaks s \<Longrightarrow> no_breaks (visible graphic prev s)"
  by (induction graphic prev s rule: visible.induct) (auto simp: no_breaks_def)

lemma no_breaks_append: "no_breaks (s @ t) \<longleftrightarrow> no_breaks s \<and> no_breaks t"
  by (simp add: no_breaks_def)

lemma no_breaks_trim_left: "no_breaks s \<Longrightarrow> no_breaks (trim_left s)"
  unfolding trim_left_def no_breaks_def using set_dropWhileD by (fastforce simp: list_all_iff)

text \<open>Everything a note is: clean, without other line breaks than the newline, trimmed, and short.\<close>

definition note_form :: "(rune \<Rightarrow> bool) \<Rightarrow> ustring \<Rightarrow> bool" where
  "note_form graphic s \<longleftrightarrow> clean graphic 10 s \<and> no_breaks s \<and> trim_left s = s \<and> trim_right s = s \<and> text_bytes s \<le> MaxNoteBytes"

lemma note_prefix:
  assumes "clean graphic 10 (s @ t)" "no_breaks (s @ t)" "trim_left (s @ t) = s @ t" "text_bytes s \<le> MaxNoteBytes"
  shows "note_form graphic (trim_right s)"
proof -
  obtain u where "s = trim_right s @ u" using trim_right_prefix by blast
  then have "clean graphic 10 (trim_right s)" "no_breaks (trim_right s)"
    using assms(1,2) clean_append no_breaks_append by metis+
  then show ?thesis
    using trim_left_right [OF trim_left_prefix [OF assms(3)]] trim_right_bytes [of s] assms(4)
    by (simp add: note_form_def trim_right_idem)
qed

lemma Note_form: "note_form graphic (Note graphic s)"
proof -
  let ?v = "trim_left (visible graphic 10 (lineBreaks s))"
  let ?t = "trim_right ?v"
  have "\<not> selectable graphic 10" by (simp add: selectable_def IsSpace_def)
  then have v: "clean graphic 10 ?v" "no_breaks ?v" "trim_left ?v = ?v"
    using clean_trim_left [OF visible_clean] no_breaks_trim_left no_breaks_visible lineBreaks_no_breaks trim_left_idem by blast+
  obtain u where u: "?v = ?t @ u" using trim_right_prefix by blast
  obtain w where w: "?t = fit MaxNoteBytes ?t @ w" using fit_prefix by blast
  have "note_form graphic ?t" if "text_bytes ?t \<le> MaxNoteBytes"
    using note_prefix [of graphic ?t u] v u that by (simp add: trim_right_idem)
  moreover have "note_form graphic (trim_right (fit MaxNoteBytes ?t))"
    using note_prefix [of graphic "fit MaxNoteBytes ?t" "w @ u"] v u w fit_bytes by (metis append_assoc)
  ultimately show ?thesis by (simp add: Note_def Let_def trim_text_def)
qed

lemma note_form_Note: "note_form graphic s \<Longrightarrow> Note graphic s = s"
  by (simp add: note_form_def Note_def Let_def no_breaks_lineBreaks clean_visible trim_text_def)

lemma clean_nth:
  "clean graphic prev s \<Longrightarrow> i < length s \<Longrightarrow>
   (s ! i = 10 \<or> s ! i = 9 \<or> \<not> IsControl (s ! i) \<and> \<not> hides (s ! i)) \<and>
   (Variation_Selector (s ! i) \<longrightarrow> selectable graphic (if i = 0 then prev else s ! (i - 1)))"
proof (induction graphic prev s arbitrary: i rule: clean.induct)
  case (2 graphic prev r s)
  have "\<not> Variation_Selector 10" "\<not> Variation_Selector 9" by (simp_all add: Variation_Selector_def)
  then show ?case using 2 by (cases i) (auto simp: nth_Cons')
qed simp

text \<open>
  C27. A note says what it shows. Whatever the comment held, the note made of it is at most 1024 bytes, is its
  own note (the rule is idempotent), holds no control but the newline and the tab, no line break but the newline
  and none of the characters that reorder or hide text, and has a variation selector only right after a
  visible character that is not one.
\<close>

theorem Note_safe:
  "Note graphic (Note graphic s) = Note graphic s \<and> text_bytes (Note graphic s) \<le> 1024 \<and>
   (\<forall>i < length (Note graphic s). let r = Note graphic s ! i in
      (IsControl r \<longrightarrow> r = 10 \<or> r = 9) \<and> r \<noteq> 0x2028 \<and> r \<noteq> 0x2029 \<and> \<not> hides r \<and>
      (Variation_Selector r \<longrightarrow> 0 < i \<and> selectable graphic (Note graphic s ! (i - 1))))"
proof -
  let ?n = "Note graphic s"
  have f: "note_form graphic ?n" by (rule Note_form)
  have sel: "\<not> selectable graphic 10" by (simp add: selectable_def IsSpace_def)
  have hid: "\<not> hides 10" "\<not> hides 9" by (simp_all add: hides_def)
  have "(IsControl r \<longrightarrow> r = 10 \<or> r = 9) \<and> r \<noteq> 0x2028 \<and> r \<noteq> 0x2029 \<and> \<not> hides r \<and>
      (Variation_Selector r \<longrightarrow> 0 < i \<and> selectable graphic (?n ! (i - 1)))" if i: "i < length ?n" "r = ?n ! i" for i r
  proof -
    have "r \<notin> {11, 12, 13, 0x85, 0x2028, 0x2029}"
      using f i by (auto simp: note_form_def no_breaks_def list_all_length)
    then show ?thesis using clean_nth [of graphic 10 ?n i] f i sel hid by (auto simp: note_form_def split: if_splits)
  qed
  then show ?thesis using note_form_Note [OF f] f by (simp add: note_form_def MaxNoteBytes_def Let_def)
qed

lemma Note_safe_witness:
  "Note (\<lambda>r. 32 < r) [32, 0x202e, 104, 0xfe0f, 0xfe0f, 105, 13] = [104, 0xfe0f, 105] \<and>
   selectable (\<lambda>r. 32 < r) (Note (\<lambda>r. 32 < r) [32, 0x202e, 104, 0xfe0f, 0xfe0f, 105, 13] ! (1 - 1))"
proof -
  have n: "Note (\<lambda>r. 32 < r) [32, 0x202e, 104, 0xfe0f, 0xfe0f, 105, 13] = [104, 0xfe0f, 105]"
    by (simp add: Note_def IsSpace_def IsControl_def hides_def Variation_Selector_def selectable_def trim_text_def trim_left_def
        trim_right_def text_bytes_def rune_bytes_def MaxNoteBytes_def Let_def)
  show ?thesis
    using n Note_safe [of "\<lambda>r. 32 < r" "[32, 0x202e, 104, 0xfe0f, 0xfe0f, 105, 13]"]
    unfolding n Let_def by (auto simp: Variation_Selector_def)
qed

subsection \<open>What a comment commands\<close>

lemma verb_form: "verb w = [] \<or> list_all (\<lambda>r. 97 \<le> r \<and> r \<le> 122) (verb w) \<and> text_bytes (verb w) \<le> maxVerbBytes"
proof (cases "verb w = []")
  case False
  then have w: "verb w = map lower_rune w" "list_all ascii_letter w" "text_bytes w \<le> maxVerbBytes"
    by (auto simp: verb_def split: if_splits)
  have "list_all ascii_letter w \<Longrightarrow> text_bytes (map lower_rune w) = text_bytes w"
    by (induction w) (auto simp: text_bytes_def rune_bytes_def ascii_letter_def lower_rune_def)
  moreover have "list_all (\<lambda>r. 97 \<le> r \<and> r \<le> 122) (map lower_rune w)"
    using w(2) by (induction w) (auto simp: ascii_letter_def lower_rune_def)
  ultimately show ?thesis using w by simp
qed simp

lemma verb_approve: "verb (runes VerbApprove) = runes VerbApprove"
  by (simp add: verb_def runes_def VerbApprove_def maxVerbBytes_def text_bytes_def rune_bytes_def ascii_letter_def lower_rune_def)

lemma cut_text_found: "list_all (\<lambda>c. \<not> stop c) l \<Longrightarrow> stop c \<Longrightarrow> cut_text stop (l @ c # s) = (l, s)"
  by (induction l) auto

lemma cut_text_absent: "list_all (\<lambda>c. \<not> stop c) l \<Longrightarrow> cut_text stop l = (l, [])"
  by (induction l) auto

lemma trim_text_empty: "trim_text l = [] \<longleftrightarrow> list_all IsSpace l"
proof -
  have "trim_right l = [] \<longleftrightarrow> list_all IsSpace l" for l by (auto simp: trim_right_def list_all_iff)
  moreover have "list_all IsSpace (trim_left l) \<longleftrightarrow> list_all IsSpace l"
    unfolding trim_left_def by (induction l) auto
  ultimately show ?thesis by (simp add: trim_text_def)
qed

lemma first_line_head:
  assumes "\<not> IsSpace c" "\<not> stop c"
  shows "first_line stop (c # s) = map_prod ((#) c) id (cut_text stop s)"
proof -
  obtain a b where "cut_text stop s = (a, b)" by (cases "cut_text stop s")
  then show ?thesis using assms by (subst first_line.simps) (simp add: trim_text_empty)
qed

lemma lineBreaks_word: "no_breaks w \<Longrightarrow> lineBreaks (w @ s) = w @ lineBreaks s"
  by (induction w) (auto simp: no_breaks_def)

lemma cut_text_word: "list_all (\<lambda>c. \<not> stop c) w \<Longrightarrow> cut_text stop (w @ s) = map_prod ((@) w) id (cut_text stop s)"
proof (induction w)
  case Nil
  then show ?case by (cases "cut_text stop s") simp
next
  case (Cons c w)
  then show ?case by (cases "cut_text stop s") simp
qed

lemma cut_text_join: "cut_text (\<lambda>c. c = 10) s = (a, b) \<Longrightarrow> s = a @ 10 # b \<or> s = a \<and> b = []"
proof (induction s arbitrary: a)
  case (Cons c s)
  then show ?case by (cases "cut_text (\<lambda>c. c = 10) s") (auto split: if_splits)
qed simp

lemma visible_prev:
  "\<not> selectable graphic p \<Longrightarrow> \<not> selectable graphic q \<Longrightarrow> visible graphic p s = visible graphic q s"
proof (induction s)
  case (Cons r s)
  then have "visible graphic p s = visible graphic q s" by blast
  then show ?case using Cons.prems by simp
qed simp

lemma visible_newline: "visible graphic p (s @ [10]) = visible graphic p s @ [10]"
  by (induction graphic p s rule: visible.induct) auto

lemma newline_space: "IsSpace 10"
  by (simp add: IsSpace_def)

lemma trim_text_newline: "trim_text (s @ [10]) = trim_text s"
proof -
  have "trim_left (s @ [10]) = (if list_all IsSpace s then [] else trim_left s @ [10])"
    unfolding trim_left_def by (induction s) (auto simp: newline_space)
  moreover have "list_all IsSpace s \<Longrightarrow> trim_text s = []" by (simp add: trim_text_empty)
  moreover have "trim_right (t @ [10]) = trim_right t" for t by (simp add: trim_right_def IsSpace_def)
  ultimately show ?thesis by (cases "list_all IsSpace s") (simp_all add: trim_text_def, simp add: trim_right_def)
qed

lemma Note_line:
  assumes "cut_text (\<lambda>c. c = 10) (lineBreaks n) = (a, b)"
  shows "Note graphic (32 # a @ [10] @ b) = Note graphic n"
proof -
  have sp: "\<not> selectable graphic 32" "\<not> selectable graphic 10" by (simp_all add: selectable_def IsSpace_def)
  have v: "visible graphic 10 (32 # y) = 32 # visible graphic 10 y" for y
    using visible_prev [OF sp] by (simp add: IsControl_def hides_def Variation_Selector_def)
  have t: "trim_text (32 # y) = trim_text y" for y by (simp add: trim_text_def trim_left_def IsSpace_def)
  have j: "lineBreaks n = a @ 10 # b \<or> lineBreaks n = a \<and> b = []" using cut_text_join [OF assms] .
  have "no_breaks (32 # a @ 10 # b)"
    using j lineBreaks_no_breaks [of n] by (auto simp: no_breaks_def)
  then have "trim_text (visible graphic 10 (lineBreaks (32 # a @ [10] @ b))) = trim_text (visible graphic 10 (a @ 10 # b))"
    by (simp add: no_breaks_lineBreaks v t del: lineBreaks.simps visible.simps)
  also have "\<dots> = trim_text (visible graphic 10 (lineBreaks n))"
    using j by (auto simp: visible_newline trim_text_newline)
  finally show ?thesis by (simp only: Note_def Let_def)
qed

text \<open>
  C28. A command is read as it was written: the prefix in any case, a space, a word of at most 32
  letters and a note give the word in lower case and the note by the one rule, whatever the note holds and
  over however many lines, on every surface.
\<close>

theorem command_roundtrip:
  assumes "map lower_rune p = Prefix" "v \<noteq> []" "list_all ascii_letter v" "length v \<le> 32"
  shows "Parser_Parse graphic ps (p @ 32 # v @ 32 # n) = Some \<lparr>hc_Verb = map lower_rune v, hc_Note = Note graphic n, hc_Alias = []\<rparr>"
proof -
  obtain a b where ab: "cut_text (\<lambda>c. c = 10) (lineBreaks n) = (a, b)" by (cases "cut_text (\<lambda>c. c = 10) (lineBreaks n)")
  have lr: "lower_rune c = d \<Longrightarrow> 97 \<le> d \<and> d \<le> 122 \<or> d = 47 \<Longrightarrow> ascii_letter c \<or> c = 47" for c d
    by (auto simp: lower_rune_def ascii_letter_def split: if_splits)
  have pl: "length p = length Prefix" using assms(1) by (metis length_map)
  have pfx: "Prefix = [47, 109, 97, 117, 108]" by (simp add: Prefix_def runes_def)
  have "97 \<le> lower_rune c \<and> lower_rune c \<le> 122 \<or> lower_rune c = 47" if "c \<in> set p" for c
  proof -
    have "lower_rune c \<in> set Prefix" using that assms(1) by (metis image_eqI list.set_map)
    then show ?thesis by (auto simp: pfx)
  qed
  then have pc: "list_all (\<lambda>c. ascii_letter c \<or> c = 47) p" using lr by (auto simp: list_all_iff)
  have p47: "p \<noteq> []" "hd p = 47"
  proof -
    show "p \<noteq> []" using assms(1) by (auto simp: pfx)
    then have "lower_rune (hd p) = 47" using assms(1) by (metis list.map_sel(1) list.sel(1) pfx)
    then show "hd p = 47" by (simp add: lower_rune_def split: if_splits)
  qed
  have plain: "ascii_letter c \<or> c = 47 \<Longrightarrow> \<not> IsSpace c \<and> c \<notin> {10, 11, 12, 13, 0x85, 0x2028, 0x2029}" for c
    by (auto simp: ascii_letter_def IsSpace_def)
  obtain p' where p: "p = 47 # p'" using p47 by (cases p) auto
  have word: "no_breaks (p @ 32 # v @ [32])" "list_all (\<lambda>c. c \<noteq> 10) (p @ 32 # v @ [32])"
    using pc assms(3) plain by (fastforce simp: no_breaks_def list_all_iff)+
  have "fst (first_line stop (p @ 32 # v @ 32 # n)) = 47 # fst (cut_text stop (p' @ 32 # v @ 32 # n))" if "\<not> stop 47" for stop
    using that by (simp add: p first_line_head IsSpace_def)
  then have md: "\<not> indentedCode (markdownLine (p @ 32 # v @ 32 # n))"
    by (simp add: markdownLine_def indentedCode_def indent_from.simps)
  have fl: "firstLine (lineBreaks (p @ 32 # v @ 32 # n)) = (p @ 32 # v @ 32 # a, b)"
  proof -
    have "lineBreaks (p @ 32 # v @ 32 # n) = p @ 32 # v @ 32 # lineBreaks n"
      using lineBreaks_word [OF word(1), of n] by simp
    moreover have "cut_text (\<lambda>c. c = 10) (p @ 32 # v @ 32 # lineBreaks n) = (p @ 32 # v @ 32 # a, b)"
      using cut_text_word [OF word(2), of "lineBreaks n"] ab by simp
    ultimately show ?thesis
      using first_line_head [of 47 "\<lambda>c. c = 10" "p' @ 32 # v @ 32 # lineBreaks n"]
      by (cases "cut_text (\<lambda>c. c = 10) (p' @ 32 # v @ 32 # lineBreaks n)") (simp add: firstLine_def p IsSpace_def)
  qed
  have w: "cutWord (trim_left (32 # v @ 32 # a)) = (v, 32 # a)"
  proof -
    have ns: "list_all (\<lambda>r. \<not> IsSpace r) v" using assms(3) plain by (auto simp: list_all_iff)
    then have "trim_left (32 # v @ 32 # a) = v @ 32 # a"
      using assms(2) by (cases v) (auto simp: trim_left_def IsSpace_def)
    moreover have "takeWhile (\<lambda>r. \<not> IsSpace r) (v @ 32 # a) = v" "dropWhile (\<lambda>r. \<not> IsSpace r) (v @ 32 # a) = 32 # a"
      using ns by (auto simp: list_all_iff takeWhile_append2 dropWhile_append2 IsSpace_def)
    ultimately show ?thesis by (simp add: cutWord_def)
  qed
  have "text_bytes v = length v"
    using assms(3) by (induction v) (auto simp: text_bytes_def rune_bytes_def ascii_letter_def)
  then have vb: "verb v = map lower_rune v" using assms(2-4) by (simp add: verb_def maxVerbBytes_def)
  have "\<not> indentedCode (p @ 32 # v @ 32 # a)" "trim_left (p @ 32 # v @ 32 # a) = p @ 32 # v @ 32 # a"
    by (simp_all add: p indentedCode_def indent_from.simps trim_left_def IsSpace_def)
  moreover have "fold_prefix (p @ 32 # v @ 32 # a)" "drop (length Prefix) (p @ 32 # v @ 32 # a) = 32 # v @ 32 # a"
    using assms(1) pl by (simp_all add: fold_prefix_def)
  moreover have "IsSpace 32" by (simp add: IsSpace_def)
  ultimately have "parseGrammar graphic (p @ 32 # v @ 32 # n) = Some \<lparr>hc_Verb = map lower_rune v, hc_Note = Note graphic n, hc_Alias = []\<rparr>"
    using md Note_line [OF ab, of graphic] by (simp add: parseGrammar_def fl Let_def w vb)
  then show ?thesis by (simp add: Parser_Parse_def)
qed

lemma command_roundtrip_witness:
  "Parser_Parse (\<lambda>r. 32 < r) \<lparr>ps_Surface = FindingIssue, ps_ApproveAlias = []\<rparr> (runes ''/Maul Approve looks'' @ [13, 10] @ runes ''good'') =
   Some \<lparr>hc_Verb = runes ''approve'', hc_Note = runes ''looks'' @ [10] @ runes ''good'', hc_Alias = []\<rparr>"
proof -
  have "Note (\<lambda>r. 32 < r) (runes ''looks'' @ [13, 10] @ runes ''good'') = runes ''looks'' @ [10] @ runes ''good''"
    by (simp add: runes_def Note_def IsSpace_def IsControl_def hides_def Variation_Selector_def trim_text_def trim_left_def
        trim_right_def text_bytes_def rune_bytes_def MaxNoteBytes_def Let_def)
  moreover have "map lower_rune (runes ''/Maul'') = Prefix" by (simp add: runes_def Prefix_def lower_rune_def)
  moreover have "list_all ascii_letter (runes ''Approve'')" "map lower_rune (runes ''Approve'') = runes ''approve''"
    "length (runes ''Approve'') \<le> 32" "runes ''Approve'' \<noteq> []"
    by (simp_all add: runes_def ascii_letter_def lower_rune_def)
  ultimately show ?thesis
    using command_roundtrip [of "runes ''/Maul''" "runes ''Approve''" "\<lambda>r. 32 < r" "\<lparr>ps_Surface = FindingIssue, ps_ApproveAlias = []\<rparr>"
        "runes ''looks'' @ [13, 10] @ runes ''good''"]
    by (simp add: runes_def)
qed

end
