(* ===== verification/Commands.thy ===== *)
theory Commands
  imports CommandText Signals
begin

text \<open>
  The commands people comment on a tracking issue, from the delivery to the answer
  (\<open>internal/controller/integration/webhooks.go\<close>, \<open>commands.go\<close>): the pending slots shared out by account, the
  order in which decisions and effects are taken, the decision, the effect, and what is remembered. The
  webhook and the reconciler write the same list under the API server's conflict check, so each write is a
  step, and the reconciler's own steps work on the copy it read. A finding without commands is one with
  an empty list. The replies' delivery to GitHub is not modelled.
\<close>

subsection \<open>State\<close>

definition MaxPendingCommands :: nat where "MaxPendingCommands = 8"
definition MaxConsumedCommands :: nat where "MaxConsumedCommands = 32"
definition MaxRefusedActors :: nat where "MaxRefusedActors = 32"
definition MaxPendingCommandsPerActor :: nat where "MaxPendingCommandsPerActor = 2"

datatype command_outcome = NoOutcome | CommandDone | CommandUnavailable | CommandNotAllowed | CommandUnknownVerb | CommandSuperseded

record command_actor =
  ca_Login :: string
  ca_ID :: int
  ca_Type :: string

record finding_command =
  CommentID :: int
  Actor :: command_actor
  Verb :: string
  CNote :: string
  Legacy :: bool
  ReceivedAt :: time
  Outcome :: command_outcome
  DecidedAt :: "time option"
  AvailableVerbs :: "string list"
  Applied :: bool
  Quiet :: bool
  AnsweringSince :: "time option"

record finding_commands =
  Pending :: "finding_command list"
  Consumed :: "int list"
  LastToggle :: int
  RefusedActors :: "int list"

definition no_commands :: finding_commands where
  "no_commands = \<lparr>Pending = [], Consumed = [], LastToggle = 0, RefusedActors = []\<rparr>"

subsection \<open>Recording\<close>

definition sameActor :: "repo_text \<Rightarrow> command_actor \<Rightarrow> command_actor \<Rightarrow> bool" where
  "sameActor t a b = (if 0 < ca_ID a \<and> 0 < ca_ID b then ca_ID a = ca_ID b else EqualFold t (ca_Login a) (ca_Login b))"

definition isBot :: "command_actor \<Rightarrow> bool" where
  "isBot a \<longleftrightarrow> ca_Type a = ''Bot'' \<or> suffix ''[bot]'' (ca_Login a)"

definition refusal :: "command_outcome \<Rightarrow> bool" where "refusal oc \<longleftrightarrow> oc = CommandNotAllowed"

definition undecidedBy :: "repo_text \<Rightarrow> finding_command list \<Rightarrow> command_actor \<Rightarrow> nat" where
  "undecidedBy t pending a = length (filter (\<lambda>p. Outcome p = NoOutcome \<and> sameActor t (Actor p) a) pending)"

definition dropCost :: "repo_text \<Rightarrow> finding_command list \<Rightarrow> finding_command \<Rightarrow> nat" where
  "dropCost t pending p =
     (if refusal (Outcome p) \<and> Quiet p then 1
      else if refusal (Outcome p) then 2
      else if Outcome p = NoOutcome \<and> 1 < undecidedBy t pending (Actor p) then 3
      else 0)"

text \<open>The loop of \<open>slotVictim\<close>: the best index so far and its cost.\<close>

definition victim_step :: "repo_text \<Rightarrow> finding_command list \<Rightarrow> nat \<Rightarrow> (nat \<times> nat) option \<Rightarrow> (nat \<times> nat) option" where
  "victim_step t pending i best =
     (let cost = dropCost t pending (pending ! i) in
      if cost = 0 then best
      else case best of None \<Rightarrow> Some (i, cost)
        | Some (v, least) \<Rightarrow>
            if cost < least \<or> (cost = least \<and> CommentID (pending ! v) < CommentID (pending ! i)) then Some (i, cost) else best)"

definition slotVictim :: "repo_text \<Rightarrow> finding_command list \<Rightarrow> nat option" where
  "slotVictim t pending = map_option fst (fold (victim_step t pending) [0..<length pending] None)"

definition drop_at :: "nat \<Rightarrow> 'a list \<Rightarrow> 'a list" where "drop_at i xs = take i xs @ drop (Suc i) xs"

definition recordCommand ::
    "repo_text \<Rightarrow> finding_commands \<Rightarrow> finding_command \<Rightarrow> finding_commands \<times> bool \<times> finding_command option" where
  "recordCommand t cmds c =
     (if MaxPendingCommandsPerActor \<le> undecidedBy t (Pending cmds) (Actor c) then (cmds, False, None)
      else if MaxPendingCommands \<le> length (Pending cmds) then
        (case slotVictim t (Pending cmds) of
           None \<Rightarrow> (cmds, False, None)
         | Some v \<Rightarrow> (cmds\<lparr>Pending := drop_at v (Pending cmds) @ [c]\<rparr>, True, Some (Pending cmds ! v)))
      else (cmds\<lparr>Pending := Pending cmds @ [c]\<rparr>, True, None))"

definition commandSeen :: "finding_commands \<Rightarrow> int \<Rightarrow> bool" where
  "commandSeen cmds i \<longleftrightarrow>
     list_ex (\<lambda>c. CommentID c = i) (Pending cmds) \<or> i \<in> set (Consumed cmds) \<or> (0 < LastToggle cmds \<and> i = LastToggle cmds)"

text \<open>The delivery of a new comment, once its body is read as a command.\<close>

definition new_command :: "int \<Rightarrow> command_actor \<Rightarrow> string \<Rightarrow> string \<Rightarrow> bool \<Rightarrow> time \<Rightarrow> finding_command" where
  "new_command i a v n legacy now =
     \<lparr>CommentID = i, Actor = a, Verb = v, CNote = n, Legacy = legacy, ReceivedAt = now, Outcome = NoOutcome, DecidedAt = None,
      AvailableVerbs = [], Applied = False, Quiet = False, AnsweringSince = None\<rparr>"

definition comment :: "repo_text \<Rightarrow> finding_command \<Rightarrow> finding_commands \<Rightarrow> finding_commands" where
  "comment t c cmds =
     (if isBot (Actor c) then cmds
      else if CommentID c \<le> 0 \<or> ca_Login (Actor c) = [] then cmds
      else if commandSeen cmds (CommentID c) then cmds
      else fst (recordCommand t cmds c))"

subsection \<open>Which command is next\<close>

definition toTakeEffect :: "finding_command \<Rightarrow> bool" where
  "toTakeEffect c \<longleftrightarrow> Outcome c = NoOutcome \<or> (Outcome c = CommandDone \<and> \<not> Applied c)"

definition stepBefore :: "finding_command \<Rightarrow> finding_command \<Rightarrow> bool" where
  "stepBefore a b = (if toTakeEffect a \<noteq> toTakeEffect b then toTakeEffect a else CommentID a < CommentID b)"

definition nextCommand :: "finding_commands \<Rightarrow> finding_command option" where
  "nextCommand cmds =
     fold (\<lambda>c nxt. case nxt of None \<Rightarrow> Some c | Some n \<Rightarrow> if stepBefore c n then Some c else nxt) (Pending cmds) None"

definition pendingCommand :: "finding_commands \<Rightarrow> int \<Rightarrow> finding_command option" where
  "pendingCommand cmds i = find (\<lambda>c. CommentID c = i) (Pending cmds)"

definition isToggle :: "string \<Rightarrow> bool" where "isToggle v \<longleftrightarrow> v = VerbSuspend \<or> v = VerbResume"

subsection \<open>Deciding\<close>

datatype permission_answer = NoSuchUser | PermissionForbidden | PermissionError | Permission string

definition CanWrite :: "string \<Rightarrow> bool" where
  "CanWrite p \<longleftrightarrow> p = ''admin'' \<or> p = ''maintain'' \<or> p = ''write''"

definition mayCommand :: "permission_answer \<Rightarrow> command_actor \<Rightarrow> bool option" where
  "mayCommand perm a =
     (if isBot a then Some False
      else case perm of NoSuchUser \<Rightarrow> Some False | PermissionForbidden \<Rightarrow> Some False | PermissionError \<Rightarrow> None
        | Permission p \<Rightarrow> Some (CanWrite p))"

definition issue_verbs :: "string list" where
  "issue_verbs = [VerbApprove, VerbRetry, VerbExpedite, VerbSuspend, VerbResume]"

definition decide ::
    "meta_ops \<Rightarrow> permission_answer \<Rightarrow> finding \<Rightarrow> finding_commands \<Rightarrow> finding_command \<Rightarrow> time \<Rightarrow> (command_outcome \<times> string list) option" where
  "decide m perm f cmds c now =
     (case mayCommand perm (Actor c) of
        None \<Rightarrow> None
      | Some False \<Rightarrow> Some (CommandNotAllowed, [])
      | Some True \<Rightarrow>
          if Verb c \<notin> set issue_verbs then Some (CommandUnknownVerb, [])
          else if isToggle (Verb c) \<and> CommentID c < LastToggle cmds then Some (CommandSuperseded, [])
          else (case ApplyWithID m f (Verb c) (ca_Login (Actor c)) (ca_ID (Actor c)) (CNote c) now of
                  (_, _, Some ErrUnavailable) \<Rightarrow> Some (CommandUnavailable, Available m f now)
                | (_, _, Some ErrUnknownVerb) \<Rightarrow> Some (CommandUnknownVerb, [])
                | (_, _, None) \<Rightarrow> Some (CommandDone, [])))"

definition keep_latest :: "nat \<Rightarrow> 'a list \<Rightarrow> 'a list" where
  "keep_latest n xs = drop (length xs - n) xs"

definition rememberActor :: "int list \<Rightarrow> int \<Rightarrow> int list" where
  "rememberActor ids i = (if i \<in> set ids then ids else keep_latest MaxRefusedActors (ids @ [i]))"

definition consumeID :: "int list \<Rightarrow> int \<Rightarrow> int list" where
  "consumeID ids i = keep_latest MaxConsumedCommands (sort (if i \<in> set ids then ids else ids @ [i]))"

text \<open>A write of the pending command of a comment, and of the commands around it.\<close>

definition update_command ::
    "int \<Rightarrow> (finding_commands \<Rightarrow> finding_command \<Rightarrow> finding_commands \<times> finding_command) \<Rightarrow> finding_commands \<Rightarrow> finding_commands option" where
  "update_command i change cmds =
     (case pendingCommand cmds i of
        None \<Rightarrow> None
      | Some c \<Rightarrow> (case change cmds c of (cmds', c') \<Rightarrow>
          Some (cmds'\<lparr>Pending := map (\<lambda>p. if CommentID p = i then c' else p) (Pending cmds)\<rparr>)))"

definition record_decision ::
    "command_outcome \<Rightarrow> string list \<Rightarrow> time \<Rightarrow> finding_commands \<Rightarrow> finding_command \<Rightarrow> finding_commands \<times> finding_command" where
  "record_decision oc available tm cmds c =
     (let c' = c\<lparr>Outcome := oc, DecidedAt := Some tm, AvailableVerbs := available\<rparr> in
      if oc = CommandDone \<and> isToggle (Verb c) then (cmds\<lparr>LastToggle := max (LastToggle cmds) (CommentID c)\<rparr>, c')
      else if refusal oc \<and> 0 < ca_ID (Actor c) then
        (cmds\<lparr>RefusedActors := rememberActor (RefusedActors cmds) (ca_ID (Actor c))\<rparr>,
         c'\<lparr>Quiet := ca_ID (Actor c) \<in> set (RefusedActors cmds)\<rparr>)
      else (cmds, c'))"

subsection \<open>Taking effect\<close>

definition effect_time :: "finding_command \<Rightarrow> time" where
  "effect_time c = (case DecidedAt c of Some tm \<Rightarrow> tm | None \<Rightarrow> ReceivedAt c)"

definition mine :: "finding_command \<Rightarrow> time \<Rightarrow> string \<Rightarrow> time \<Rightarrow> bool" where
  "mine c tm writer when \<longleftrightarrow> writer = ca_Login (Actor c) \<and> when div nano_second = tm div nano_second"

definition appliedBy :: "finding \<Rightarrow> finding_command \<Rightarrow> time \<Rightarrow> bool" where
  "appliedBy f c tm =
     (if Verb c = VerbApprove then (case spec_approval (spec f) of None \<Rightarrow> False | Some a \<Rightarrow> mine c tm (ap_by a) (ap_at a))
      else if Verb c = VerbRetry then (case spec_retry (spec f) of None \<Rightarrow> False | Some r \<Rightarrow> mine c tm (ar_by r) (ar_at r))
      else if Verb c = VerbExpedite then (case expedite (spec f) of None \<Rightarrow> False | Some r \<Rightarrow> mine c tm (ar_by r) (ar_at r))
      else False)"

text \<open>
  The spec write of \<open>apply\<close> on the stored finding: the finding, whether it was written, and the decision
  revised. The mark that follows is a write of its own.
\<close>

definition apply_spec :: "meta_ops \<Rightarrow> time \<Rightarrow> finding_command \<Rightarrow> finding \<Rightarrow> finding \<times> bool \<times> (command_outcome \<times> string list) option" where
  "apply_spec m now c f =
     (if Outcome c \<noteq> CommandDone \<or> Applied c then (f, False, None)
      else case ApplyWithID m f (Verb c) (ca_Login (Actor c)) (ca_ID (Actor c)) (CNote c) (effect_time c) of
          (_, _, Some ErrUnavailable) \<Rightarrow>
            (f, False, if appliedBy f c (effect_time c) then None else Some (CommandUnavailable, Available m f now))
        | (_, _, Some ErrUnknownVerb) \<Rightarrow> (f, False, Some (CommandUnknownVerb, []))
        | (g, changed, None) \<Rightarrow> (if changed then g else f, changed, None))"

definition mark_applied ::
    "(command_outcome \<times> string list) option \<Rightarrow> finding_commands \<Rightarrow> finding_command \<Rightarrow> finding_commands \<times> finding_command" where
  "mark_applied revised cmds c =
     (case revised of
        Some (oc, available) \<Rightarrow> (cmds, c\<lparr>Outcome := oc, AvailableVerbs := available\<rparr>)
      | None \<Rightarrow> (cmds, c\<lparr>Applied := True\<rparr>))"

subsection \<open>Answering\<close>

definition commandAnswerTimeout :: duration where "commandAnswerTimeout = nano_hour"

definition begin_answer :: "time \<Rightarrow> finding_commands \<Rightarrow> finding_command \<Rightarrow> finding_commands \<times> finding_command" where
  "begin_answer now cmds c = (cmds, if AnsweringSince c = None then c\<lparr>AnsweringSince := Some now\<rparr> else c)"

text \<open>Whether a pass over an answered or failing answer goes on to consume the command.\<close>

definition answer_over :: "bool \<Rightarrow> time \<Rightarrow> finding_command \<Rightarrow> bool" where
  "answer_over ok now c \<longleftrightarrow>
     ok \<or> (case AnsweringSince c of None \<Rightarrow> False | Some since \<Rightarrow> commandAnswerTimeout \<le> time_sub now since)"

definition consume :: "int \<Rightarrow> finding_commands \<Rightarrow> finding_commands" where
  "consume i cmds =
     (case pendingCommand cmds i of
        None \<Rightarrow> cmds
      | Some c \<Rightarrow> cmds\<lparr>Consumed := (if refusal (Outcome c) then Consumed cmds else consumeID (Consumed cmds) i),
                    Pending := filter (\<lambda>p. CommentID p \<noteq> i) (Pending cmds)\<rparr>)"

subsection \<open>The commands as a transition system\<close>

text \<open>
  A GitHub comment has one author and says one thing: \<open>who\<close> and \<open>says\<close>. The reconciler settles one command
  at a time from the copy it read (\<open>Picked\<close>), or stands between the spec write and its mark (\<open>Marking\<close>) or
  between the first answer and the consumption (\<open>Answering\<close>); a restart forgets where it was. Deliveries and every other writer of the finding come in between. \<open>cy_effects\<close> lists the
  spec writes and \<open>cy_decided\<close> the decisions, with what GitHub said of the author.
\<close>

datatype settle_local =
    Idle | Picked finding finding_commands int | Marking int "(command_outcome \<times> string list) option" | Answering int

record command_sys =
  cy_finding :: finding
  cy_cmds :: finding_commands
  cy_local :: settle_local
  cy_effects :: "(int \<times> string) list"
  cy_decided :: "(int \<times> permission_answer \<times> command_outcome) list"

inductive command_step ::
    "meta_ops \<Rightarrow> repo_text \<Rightarrow> (int \<Rightarrow> command_actor) \<Rightarrow> (int \<Rightarrow> string) \<Rightarrow> command_sys \<Rightarrow> command_sys \<Rightarrow> bool" for m t who says where
  received:
  "command_step m t who says s (s\<lparr>cy_cmds := comment t (new_command i (who i) (says i) n legacy now) (cy_cmds s)\<rparr>)"
| moved: "command_step m t who says s (s\<lparr>cy_finding := f\<rparr>)"
| restarted: "command_step m t who says s (s\<lparr>cy_local := Idle\<rparr>)"
| picked:
  "nextCommand (cy_cmds s) = Some c \<Longrightarrow>
   command_step m t who says s (s\<lparr>cy_local := Picked (cy_finding s) (cy_cmds s) (CommentID c)\<rparr>)"
| decided:
  "cy_local s = Picked f0 cmds0 i \<Longrightarrow> pendingCommand cmds0 i = Some c \<Longrightarrow> Outcome c = NoOutcome \<Longrightarrow>
   decide m perm f0 cmds0 c now = Some (oc, available) \<Longrightarrow> update_command i (record_decision oc available now) (cy_cmds s) = Some cmds' \<Longrightarrow>
   command_step m t who says s (s\<lparr>cy_cmds := cmds', cy_local := Picked (cy_finding s) cmds' i,
     cy_decided := cy_decided s @ [(i, perm, oc)]\<rparr>)"
| effect:
  "cy_local s = Picked f0 cmds0 i \<Longrightarrow> pendingCommand cmds0 i = Some c0 \<Longrightarrow> Outcome c0 = CommandDone \<Longrightarrow> \<not> Applied c0 \<Longrightarrow>
   pendingCommand (cy_cmds s) i = Some c \<Longrightarrow> apply_spec m now c (cy_finding s) = (f, changed, revised) \<Longrightarrow>
   command_step m t who says s (s\<lparr>cy_finding := f, cy_local := Marking i revised,
     cy_effects := cy_effects s @ (if changed then [(i, Verb c)] else [])\<rparr>)"
| marked:
  "cy_local s = Marking i revised \<Longrightarrow> update_command i (mark_applied revised) (cy_cmds s) = Some cmds' \<Longrightarrow>
   command_step m t who says s (s\<lparr>cy_cmds := cmds', cy_local := Picked (cy_finding s) cmds' i\<rparr>)"
| answering:
  "cy_local s = Picked f0 cmds0 i \<Longrightarrow> pendingCommand cmds0 i = Some c0 \<Longrightarrow> \<not> toTakeEffect c0 \<Longrightarrow>
   update_command i (begin_answer now) (cy_cmds s) = Some cmds' \<Longrightarrow>
   command_step m t who says s (s\<lparr>cy_cmds := cmds', cy_local := Answering i\<rparr>)"
| consumed:
  "cy_local s = Answering i \<Longrightarrow> pendingCommand (cy_cmds s) i = Some c \<Longrightarrow> answer_over ok now c \<Longrightarrow>
   command_step m t who says s (s\<lparr>cy_cmds := consume i (cy_cmds s), cy_local := Idle\<rparr>)"

inductive command_reach ::
    "meta_ops \<Rightarrow> repo_text \<Rightarrow> (int \<Rightarrow> command_actor) \<Rightarrow> (int \<Rightarrow> string) \<Rightarrow> command_sys \<Rightarrow> bool" for m t who says where
  start: "command_reach m t who says \<lparr>cy_finding = f, cy_cmds = no_commands, cy_local = Idle, cy_effects = [], cy_decided = []\<rparr>"
| step: "command_reach m t who says s \<Longrightarrow> command_step m t who says s s' \<Longrightarrow> command_reach m t who says s'"

subsection \<open>Slots\<close>

lemma victim_scan:
  "case fold (victim_step t pending) [0..<k] None of
     None \<Rightarrow> \<forall>i<k. dropCost t pending (pending ! i) = 0
   | Some (v, least) \<Rightarrow> v < k \<and> dropCost t pending (pending ! v) = least \<and> least \<noteq> 0"
proof (induction k)
  case (Suc k)
  then show ?case
    by (auto simp: victim_step_def Let_def less_Suc_eq split: option.splits prod.splits if_splits)
qed simp

lemma slotVictim_None: "slotVictim t pending = None \<longleftrightarrow> (\<forall>p\<in>set pending. dropCost t pending p = 0)"
proof -
  have "\<forall>i<length pending. dropCost t pending (pending ! i) = 0" if "fold (victim_step t pending) [0..<length pending] None = None"
    using victim_scan [where t = t and pending = pending and k = "length pending"] that by simp
  moreover have "\<exists>i<length pending. dropCost t pending (pending ! i) \<noteq> 0" if "fold (victim_step t pending) [0..<length pending] None = Some x" for x
    using victim_scan [where t = t and pending = pending and k = "length pending"] that by (auto split: prod.splits)
  ultimately show ?thesis
    unfolding slotVictim_def all_set_conv_all_nth by (cases "fold (victim_step t pending) [0..<length pending] None") auto
qed

lemma slotVictim_Some:
  "slotVictim t pending = Some v \<Longrightarrow> v < length pending \<and> dropCost t pending (pending ! v) \<noteq> 0"
  using victim_scan [where t = t and pending = pending and k = "length pending"] by (auto simp: slotVictim_def split: option.splits prod.splits)

lemma drop_at_split:
  assumes "v < length xs"
  obtains a b where "xs = a @ xs ! v # b" "drop_at v xs = a @ b"
  using id_take_nth_drop [OF assms] by (auto simp: drop_at_def)

lemma drop_at_filter:
  assumes "v < length xs"
  shows "length (filter P xs) = length (filter P (drop_at v xs)) + (if P (xs ! v) then 1 else 0)"
proof -
  obtain a b where ab: "xs = a @ xs ! v # b" "drop_at v xs = a @ b" using drop_at_split [OF assms] .
  have "filter P xs = filter P (a @ xs ! v # b)" using ab(1) by (rule arg_cong)
  then show ?thesis using ab(2) by simp
qed

lemma drop_at_set:
  assumes "v < length xs"
  shows "set xs = insert (xs ! v) (set (drop_at v xs))"
proof -
  obtain a b where ab: "xs = a @ xs ! v # b" "drop_at v xs = a @ b" using drop_at_split [OF assms] .
  have "set xs = set (a @ xs ! v # b)" using ab(1) by (rule arg_cong)
  then show ?thesis using ab(2) by auto
qed

lemma drop_at_length: "v < length xs \<Longrightarrow> length (drop_at v xs) = length xs - 1"
  by (simp add: drop_at_def)

lemma EqualFold_refl: "rt_foldEq t a a \<Longrightarrow> EqualFold t a a"
  by (simp add: EqualFold_def)

text \<open>
  C22. No account crowds another out. A new command is recorded exactly when its author has fewer than two
  undecided ones pending and there is a slot free or one to give up, and then it is pending; a
  command that loses its slot is a refusal already decided, or undecided while its author keeps another
  undecided one; a decided command that may have an effect never does.
\<close>

theorem command_slots_fair:
  assumes "recordCommand t cmds c = (cmds', recorded, evicted)"
  shows "(recorded \<longleftrightarrow> undecidedBy t (Pending cmds) (Actor c) < 2 \<and>
      (length (Pending cmds) < 8 \<or> (\<exists>p\<in>set (Pending cmds). Outcome p = CommandNotAllowed \<or>
         Outcome p = NoOutcome \<and> 1 < undecidedBy t (Pending cmds) (Actor p)))) \<and>
    (recorded \<longrightarrow> c \<in> set (Pending cmds')) \<and>
    (\<forall>p\<in>set (Pending cmds). p \<notin> set (Pending cmds') \<longrightarrow> recorded \<and> evicted = Some p \<and>
       (Outcome p = CommandNotAllowed \<or> Outcome p = NoOutcome \<and> 0 < undecidedBy t (Pending cmds') (Actor p)))"
proof -
  let ?gives = "\<lambda>ps p. Outcome p = CommandNotAllowed \<or> Outcome p = NoOutcome \<and> 1 < undecidedBy t ps (Actor p)"
  have cost: "dropCost t ps p = 0 \<longleftrightarrow> \<not> ?gives ps p" for ps p
    by (auto simp: dropCost_def refusal_def)
  show ?thesis
  proof (cases "undecidedBy t (Pending cmds) (Actor c) < 2 \<and> 8 \<le> length (Pending cmds)")
    case False
    then show ?thesis using assms
      by (auto simp: recordCommand_def MaxPendingCommandsPerActor_def MaxPendingCommands_def split: if_splits)
  next
    case True
    show ?thesis
    proof (cases "slotVictim t (Pending cmds)")
      case None
      then have "\<forall>p\<in>set (Pending cmds). \<not> ?gives (Pending cmds) p" by (simp only: slotVictim_None cost)
      moreover have "cmds' = cmds" "\<not> recorded" using assms True None
        by (auto simp: recordCommand_def MaxPendingCommandsPerActor_def MaxPendingCommands_def)
      ultimately show ?thesis using True by auto
    next
      case (Some v)
      have v: "v < length (Pending cmds)" "dropCost t (Pending cmds) (Pending cmds ! v) \<noteq> 0"
        using slotVictim_Some [OF Some] by simp_all
      have out: "cmds' = cmds\<lparr>Pending := drop_at v (Pending cmds) @ [c]\<rparr>" "recorded" "evicted = Some (Pending cmds ! v)"
        using assms True Some by (auto simp: recordCommand_def MaxPendingCommandsPerActor_def MaxPendingCommands_def)
      have "0 < undecidedBy t (Pending cmds') (Actor (Pending cmds ! v))" if "1 < undecidedBy t (Pending cmds) (Actor (Pending cmds ! v))"
        using drop_at_filter [OF v(1), of "\<lambda>p. Outcome p = NoOutcome \<and> sameActor t (Actor p) (Actor (Pending cmds ! v))"] that out(1)
        by (auto simp: undecidedBy_def split: if_splits)
      moreover have "?gives (Pending cmds) (Pending cmds ! v)" using v(2) cost [of "Pending cmds" "Pending cmds ! v"] by simp
      moreover have "Pending cmds ! v \<in> set (Pending cmds)" using v(1) by simp
      ultimately show ?thesis using True out drop_at_set [OF v(1)] by auto
    qed
  qed
qed

lemma command_slots_fair_witness:
  "\<exists>cmds' evicted. recordCommand \<lparr>rt_parseURL = (\<lambda>_. None), rt_foldEq = (=)\<rparr> no_commands
     (new_command 7 \<lparr>ca_Login = ''amy'', ca_ID = 3, ca_Type = ''User''\<rparr> ''resume'' [] False 0) = (cmds', True, evicted)"
proof -
  let ?t = "\<lparr>rt_parseURL = (\<lambda>_. None), rt_foldEq = (=)\<rparr>"
  let ?c = "new_command 7 \<lparr>ca_Login = ''amy'', ca_ID = 3, ca_Type = ''User''\<rparr> ''resume'' [] False 0"
  obtain cmds' ok ev where r: "recordCommand ?t no_commands ?c = (cmds', ok, ev)" by (cases "recordCommand ?t no_commands ?c") auto
  have "ok" using command_slots_fair [OF r] by (simp add: no_commands_def undecidedBy_def)
  then show ?thesis using r by auto
qed

subsection \<open>What stays true of a finding's commands\<close>

lemma pendingCommand_Some: "pendingCommand cmds i = Some c \<Longrightarrow> c \<in> set (Pending cmds) \<and> CommentID c = i"
  unfolding pendingCommand_def by (auto simp: find_Some_iff)

lemma update_command_Some:
  assumes "update_command i change cmds = Some cmds'"
  obtains c where "c \<in> set (Pending cmds)" "CommentID c = i"
    "cmds' = (fst (change cmds c))\<lparr>Pending := map (\<lambda>p. if CommentID p = i then snd (change cmds c) else p) (Pending cmds)\<rparr>"
  using assms pendingCommand_Some [of cmds i] by (auto simp: update_command_def split: option.splits prod.splits)

lemma record_cases:
  obtains (same) "comment t c cmds = cmds"
  | (added) "comment t c cmds = cmds\<lparr>Pending := Pending cmds @ [c]\<rparr>" "\<not> commandSeen cmds (CommentID c)"
      "undecidedBy t (Pending cmds) (Actor c) < MaxPendingCommandsPerActor" "length (Pending cmds) < MaxPendingCommands"
  | (swapped) v where "comment t c cmds = cmds\<lparr>Pending := drop_at v (Pending cmds) @ [c]\<rparr>" "\<not> commandSeen cmds (CommentID c)"
      "undecidedBy t (Pending cmds) (Actor c) < MaxPendingCommandsPerActor" "v < length (Pending cmds)"
      "dropCost t (Pending cmds) (Pending cmds ! v) \<noteq> 0"
proof -
  have "comment t c cmds = cmds \<or>
    comment t c cmds = cmds\<lparr>Pending := Pending cmds @ [c]\<rparr> \<and> \<not> commandSeen cmds (CommentID c) \<and>
      undecidedBy t (Pending cmds) (Actor c) < MaxPendingCommandsPerActor \<and> length (Pending cmds) < MaxPendingCommands \<or>
    (\<exists>v. comment t c cmds = cmds\<lparr>Pending := drop_at v (Pending cmds) @ [c]\<rparr> \<and> \<not> commandSeen cmds (CommentID c) \<and>
      undecidedBy t (Pending cmds) (Actor c) < MaxPendingCommandsPerActor \<and> slotVictim t (Pending cmds) = Some v)"
    by (auto simp: comment_def recordCommand_def split: option.splits)
  then show thesis using that slotVictim_Some by blast
qed

text \<open>The list's own bounds.\<close>

definition undecided_id :: "int \<Rightarrow> finding_command list \<Rightarrow> nat" where
  "undecided_id a ps = length (filter (\<lambda>p. Outcome p = NoOutcome \<and> ca_ID (Actor p) = a) ps)"

definition slots_ok :: "finding_commands \<Rightarrow> bool" where
  "slots_ok cmds \<longleftrightarrow> length (Pending cmds) \<le> MaxPendingCommands \<and> distinct (map CommentID (Pending cmds)) \<and>
     (\<forall>a. 0 < a \<longrightarrow> undecided_id a (Pending cmds) \<le> MaxPendingCommandsPerActor) \<and>
     sorted (Consumed cmds) \<and> distinct (Consumed cmds) \<and> length (Consumed cmds) \<le> MaxConsumedCommands \<and>
     distinct (RefusedActors cmds) \<and> length (RefusedActors cmds) \<le> MaxRefusedActors"

lemma filter_le_mono: "\<forall>x\<in>set xs. P x \<longrightarrow> Q x \<Longrightarrow> length (filter P xs) \<le> length (filter Q xs)"
  by (induction xs) auto

lemma undecided_by_id: "0 < ca_ID a \<Longrightarrow> undecided_id (ca_ID a) ps \<le> undecidedBy t ps a"
  unfolding undecided_id_def undecidedBy_def by (rule filter_le_mono) (auto simp: sameActor_def)

lemma keep_latest_ok: "length (keep_latest n xs) \<le> n" "distinct xs \<Longrightarrow> distinct (keep_latest n xs)" "sorted xs \<Longrightarrow> sorted (keep_latest n xs)"
  by (simp_all add: keep_latest_def distinct_drop sorted_wrt_drop)

lemma slots_comment:
  assumes "slots_ok cmds" "Outcome c = NoOutcome"
  shows "slots_ok (comment t c cmds)"
proof -
  have new: "undecided_id a (ps @ [c]) \<le> MaxPendingCommandsPerActor"
    if "0 < a" "undecidedBy t (Pending cmds) (Actor c) < MaxPendingCommandsPerActor" "undecided_id a ps \<le> undecided_id a (Pending cmds)" for a ps
  proof (cases "ca_ID (Actor c) = a")
    case True
    then have "undecided_id a ps < MaxPendingCommandsPerActor" using undecided_by_id [of "Actor c" "Pending cmds" t] that by auto
    then show ?thesis by (simp add: undecided_id_def)
  next
    case False
    then show ?thesis using that assms(1) by (fastforce simp: undecided_id_def slots_ok_def)
  qed
  have fresh: "CommentID c \<notin> CommentID ` set (Pending cmds)" if "\<not> commandSeen cmds (CommentID c)"
    using that by (auto simp: commandSeen_def list_ex_iff)
  show ?thesis
  proof (cases rule: record_cases [where t = t and c = c and cmds = cmds])
    case same
    then show ?thesis using assms(1) by simp
  next
    case added
    then show ?thesis using assms(1) new [of _ "Pending cmds"] fresh by (auto simp: slots_ok_def)
  next
    case (swapped v)
    obtain a b where ab: "Pending cmds = a @ Pending cmds ! v # b" "drop_at v (Pending cmds) = a @ b" using drop_at_split [OF swapped(4)] .
    have "distinct (map CommentID (a @ Pending cmds ! v # b))" using assms(1) ab(1) by (simp only: slots_ok_def)
    then have "distinct (map CommentID (drop_at v (Pending cmds)))" using ab(2) by auto
    moreover have "set (drop_at v (Pending cmds)) \<subseteq> set (Pending cmds)" using drop_at_set [OF swapped(4)] by blast
    moreover have "undecided_id a' (drop_at v (Pending cmds)) \<le> undecided_id a' (Pending cmds)" for a'
      using drop_at_filter [OF swapped(4)] by (simp add: undecided_id_def)
    ultimately show ?thesis using swapped assms(1) new fresh drop_at_length [OF swapped(4)] by (auto simp: slots_ok_def)
  qed
qed

text \<open>A write of one command that leaves its comment, author and verb alone and does not undecide it.\<close>

definition mild :: "(finding_commands \<Rightarrow> finding_command \<Rightarrow> finding_commands \<times> finding_command) \<Rightarrow> bool" where
  "mild change \<longleftrightarrow> (\<forall>cmds c. let (cmds', c') = change cmds c in
     CommentID c' = CommentID c \<and> Actor c' = Actor c \<and> Verb c' = Verb c \<and> (Outcome c' = NoOutcome \<longrightarrow> Outcome c = NoOutcome) \<and>
     Consumed cmds' = Consumed cmds \<and>
     (distinct (RefusedActors cmds) \<and> length (RefusedActors cmds) \<le> MaxRefusedActors \<longrightarrow>
        distinct (RefusedActors cmds') \<and> length (RefusedActors cmds') \<le> MaxRefusedActors))"

lemma rememberActor_ok:
  assumes "distinct ids" "length ids \<le> MaxRefusedActors"
  shows "distinct (rememberActor ids i)" "length (rememberActor ids i) \<le> MaxRefusedActors"
proof -
  have "distinct (keep_latest MaxRefusedActors (ids @ [i]))" if "i \<notin> set ids"
    using keep_latest_ok(2) [of "ids @ [i]"] assms(1) that by simp
  then show "distinct (rememberActor ids i)" "length (rememberActor ids i) \<le> MaxRefusedActors"
    using assms keep_latest_ok(1) by (auto simp: rememberActor_def)
qed

lemma mild_changes:
  "oc \<noteq> NoOutcome \<Longrightarrow> mild (record_decision oc available now)" "mild (begin_answer now)"
  "(\<And>oc av. revised = Some (oc, av) \<Longrightarrow> oc \<noteq> NoOutcome) \<Longrightarrow> mild (mark_applied revised)"
  by (auto simp: mild_def record_decision_def begin_answer_def mark_applied_def rememberActor_ok Let_def split: option.split)

lemma slots_update:
  assumes "slots_ok cmds" "update_command i change cmds = Some cmds'" "mild change"
  shows "slots_ok cmds'"
proof -
  obtain c where c: "c \<in> set (Pending cmds)" "CommentID c = i"
    "cmds' = (fst (change cmds c))\<lparr>Pending := map (\<lambda>p. if CommentID p = i then snd (change cmds c) else p) (Pending cmds)\<rparr>"
    using update_command_Some [OF assms(2)] by blast
  let ?c = "snd (change cmds c)" and ?f = "\<lambda>p. if CommentID p = i then snd (change cmds c) else p"
  have m: "CommentID ?c = i" "Actor ?c = Actor c" "Outcome ?c = NoOutcome \<Longrightarrow> Outcome c = NoOutcome"
    "Consumed (fst (change cmds c)) = Consumed cmds"
    "distinct (RefusedActors cmds) \<and> length (RefusedActors cmds) \<le> MaxRefusedActors \<Longrightarrow>
      distinct (RefusedActors (fst (change cmds c))) \<and> length (RefusedActors (fst (change cmds c))) \<le> MaxRefusedActors"
    using assms(3) c(2) unfolding mild_def by (auto simp: Let_def case_prod_beta)
  have one: "p = c" if "p \<in> set (Pending cmds)" "CommentID p = i" for p
    using assms(1) c that by (auto simp: slots_ok_def distinct_map inj_on_def)
  have ids: "map CommentID (map ?f (Pending cmds)) = map CommentID (Pending cmds)" using m(1) by simp
  have cnt: "undecided_id a (map ?f (Pending cmds)) \<le> undecided_id a (Pending cmds)" for a
  proof -
    have "undecided_id a (map ?f (Pending cmds)) = length (filter (\<lambda>p. Outcome (?f p) = NoOutcome \<and> ca_ID (Actor (?f p)) = a) (Pending cmds))"
      by (simp add: undecided_id_def filter_map comp_def)
    also have "\<dots> \<le> undecided_id a (Pending cmds)"
      unfolding undecided_id_def by (rule filter_le_mono) (use one m(2,3) in auto)
    finally show ?thesis .
  qed
  have "\<forall>a. 0 < a \<longrightarrow> undecided_id a (map ?f (Pending cmds)) \<le> MaxPendingCommandsPerActor"
    using assms(1) cnt unfolding slots_ok_def by (meson le_trans)
  moreover have "distinct (map CommentID (map ?f (Pending cmds)))"
    unfolding ids using assms(1) by (simp add: slots_ok_def)
  ultimately show ?thesis using assms(1) m(4,5) unfolding slots_ok_def c(3) by simp
qed

subsection \<open>Who commands, and in what order\<close>

definition granted :: "(int \<Rightarrow> command_actor) \<Rightarrow> command_sys \<Rightarrow> int \<Rightarrow> bool" where
  "granted who s i \<longleftrightarrow> \<not> isBot (who i) \<and> (\<exists>p. (i, Permission p, CommandDone) \<in> set (cy_decided s) \<and> CanWrite p)"

definition due :: "finding_command \<Rightarrow> bool" where "due c \<longleftrightarrow> Outcome c = CommandDone \<and> \<not> Applied c"

definition entry_ok :: "(int \<Rightarrow> command_actor) \<Rightarrow> (int \<Rightarrow> string) \<Rightarrow> command_sys \<Rightarrow> finding_command \<Rightarrow> bool" where
  "entry_ok who says s c \<longleftrightarrow> Actor c = who (CommentID c) \<and> Verb c = says (CommentID c) \<and>
     (Outcome c = CommandDone \<longrightarrow> granted who s (CommentID c)) \<and>
     (isToggle (Verb c) \<and> due c \<longrightarrow> CommentID c = LastToggle (cy_cmds s))"

definition toggles_of :: "(int \<times> string) list \<Rightarrow> int list" where
  "toggles_of es = map fst (filter (\<lambda>e. isToggle (snd e)) es)"

definition effects_ok :: "(int \<Rightarrow> command_actor) \<Rightarrow> (int \<Rightarrow> string) \<Rightarrow> command_sys \<Rightarrow> bool" where
  "effects_ok who says s \<longleftrightarrow>
     (\<forall>e\<in>set (cy_effects s). snd e = says (fst e) \<and> granted who s (fst e)) \<and>
     sorted (toggles_of (cy_effects s)) \<and> (\<forall>i\<in>set (toggles_of (cy_effects s)). i \<le> LastToggle (cy_cmds s))"

definition local_ok :: "(int \<Rightarrow> command_actor) \<Rightarrow> (int \<Rightarrow> string) \<Rightarrow> command_sys \<Rightarrow> bool" where
  "local_ok who says s \<longleftrightarrow>
     (case cy_local s of
        Picked f0 cmds0 i \<Rightarrow> LastToggle cmds0 = LastToggle (cy_cmds s) \<and>
          (\<forall>c. pendingCommand cmds0 i = Some c \<longrightarrow> Actor c = who i \<and> Verb c = says i \<and>
             (Outcome c = NoOutcome \<longrightarrow> (\<forall>d\<in>set (Pending (cy_cmds s)). due d \<longrightarrow> i \<le> CommentID d)) \<and>
             (due c \<longrightarrow> (\<exists>d\<in>set (Pending (cy_cmds s)). CommentID d = i \<and> due d)))
      | Marking i revised \<Rightarrow> (\<exists>d\<in>set (Pending (cy_cmds s)). CommentID d = i \<and> due d) \<and>
          (\<forall>oc av. revised = Some (oc, av) \<longrightarrow> oc \<noteq> NoOutcome \<and> oc \<noteq> CommandDone)
      | _ \<Rightarrow> True)"

definition commands_ok :: "(int \<Rightarrow> command_actor) \<Rightarrow> (int \<Rightarrow> string) \<Rightarrow> command_sys \<Rightarrow> bool" where
  "commands_ok who says s \<longleftrightarrow> slots_ok (cy_cmds s) \<and> (\<forall>c\<in>set (Pending (cy_cmds s)). entry_ok who says s c) \<and>
     effects_ok who says s \<and> local_ok who says s"

lemma pendingCommand_is:
  assumes "slots_ok cmds"
  shows "pendingCommand cmds i = Some c \<longleftrightarrow> c \<in> set (Pending cmds) \<and> CommentID c = i"
proof
  assume c: "c \<in> set (Pending cmds) \<and> CommentID c = i"
  then obtain d where d: "pendingCommand cmds i = Some d"
    by (cases "pendingCommand cmds i") (auto simp: pendingCommand_def find_None_iff)
  then have "d = c" using pendingCommand_Some [OF d] c assms by (auto simp: slots_ok_def distinct_map inj_on_def)
  then show "pendingCommand cmds i = Some c" using d by simp
qed (use pendingCommand_Some in blast)

lemma nextCommand_least:
  assumes "nextCommand cmds = Some n"
  shows "n \<in> set (Pending cmds) \<and> (\<forall>c\<in>set (Pending cmds). \<not> stepBefore c n)"
proof -
  let ?step = "\<lambda>c nxt. case nxt of None \<Rightarrow> Some c | Some n \<Rightarrow> if stepBefore c n then Some c else nxt"
  have total: "\<not> stepBefore c b \<Longrightarrow> stepBefore a b \<Longrightarrow> \<not> stepBefore c a" for a b c
    by (auto simp: stepBefore_def split: if_splits)
  have irr: "\<not> stepBefore a a" for a by (simp add: stepBefore_def)
  have "case fold ?step cs None of None \<Rightarrow> cs = [] | Some n \<Rightarrow> n \<in> set cs \<and> (\<forall>c\<in>set cs. \<not> stepBefore c n)" for cs
  proof (induction cs rule: rev_induct)
    case (snoc c cs)
    show ?case
    proof (cases "fold ?step cs None")
      case None
      then show ?thesis using snoc irr by simp
    next
      case (Some n)
      then have n: "n \<in> set cs" "\<And>x. x \<in> set cs \<Longrightarrow> \<not> stepBefore x n" using snoc by simp_all
      have fold: "fold ?step (cs @ [c]) None = (if stepBefore c n then Some c else Some n)" using Some by simp
      show ?thesis
      proof (cases "stepBefore c n")
        case True
        have "\<not> stepBefore x c" if "x \<in> set cs" for x using total [OF n(2) [OF that] True] .
        then show ?thesis using fold True irr by simp
      qed (use fold n in simp)
    qed
  qed simp
  from this [of "Pending cmds"] assms show ?thesis by (simp add: nextCommand_def)
qed

lemma decide_cases:
  assumes "decide m perm f cmds c now = Some (oc, available)"
  shows "oc \<noteq> NoOutcome \<and> (oc = CommandDone \<longrightarrow> \<not> isBot (Actor c) \<and> (\<exists>p. perm = Permission p \<and> CanWrite p) \<and>
    (isToggle (Verb c) \<longrightarrow> LastToggle cmds \<le> CommentID c))"
  using assms
  by (auto simp: decide_def mayCommand_def split: option.splits bool.splits if_splits permission_answer.splits prod.splits action_error.splits)

lemma apply_spec_cases:
  assumes "apply_spec m now c f = (g, changed, revised)"
  shows "(changed \<longrightarrow> due c) \<and> (\<forall>oc av. revised = Some (oc, av) \<longrightarrow> oc \<noteq> NoOutcome \<and> oc \<noteq> CommandDone)"
  using assms by (auto simp: apply_spec_def due_def split: option.splits if_splits prod.splits action_error.splits)

lemma comment_keeps_due:
  assumes "due d" "d \<in> set (Pending cmds)"
  shows "d \<in> set (Pending (comment t c cmds))"
proof (cases rule: record_cases [where t = t and c = c and cmds = cmds])
  case (swapped v)
  have "dropCost t (Pending cmds) d = 0" using assms(1) by (simp add: dropCost_def due_def refusal_def)
  then have "d \<noteq> Pending cmds ! v" using swapped by auto
  then show ?thesis using assms(2) swapped drop_at_set [OF swapped(4)] by auto
qed (use assms(2) in auto)

lemma comment_new: "p \<in> set (Pending (comment t c cmds)) \<Longrightarrow> p = c \<or> p \<in> set (Pending cmds)"
  by (cases rule: record_cases [where t = t and c = c and cmds = cmds]) (auto dest: drop_at_set)

lemma comment_frame: "LastToggle (comment t c cmds) = LastToggle cmds" "Consumed (comment t c cmds) = Consumed cmds"
  by (cases rule: record_cases [where t = t and c = c and cmds = cmds]; simp)+

lemma slots_consume: "slots_ok cmds \<Longrightarrow> slots_ok (consume i cmds)"
proof -
  assume ok: "slots_ok cmds"
  let ?ps = "filter (\<lambda>p. CommentID p \<noteq> i) (Pending cmds)"
  have len: "length ?ps \<le> MaxPendingCommands" 
  proof -
    have "length (Pending cmds) \<le> MaxPendingCommands" using ok by (simp add: slots_ok_def)
    then show ?thesis using length_filter_le le_trans by blast
  qed
  have und: "undecided_id a ?ps \<le> undecided_id a (Pending cmds)" for a
    unfolding undecided_id_def filter_filter by (rule filter_le_mono) simp
  have und': "\<forall>a. 0 < a \<longrightarrow> undecided_id a ?ps \<le> MaxPendingCommandsPerActor"
    using ok und unfolding slots_ok_def by (meson le_trans)
  have dist: "distinct (map CommentID ?ps)" using ok by (simp add: slots_ok_def distinct_map inj_on_def)
  have "distinct (sort (if i \<in> set (Consumed cmds) then Consumed cmds else Consumed cmds @ [i]))" using ok by (simp add: slots_ok_def)
  then have cons: "sorted (consumeID (Consumed cmds) i)" "distinct (consumeID (Consumed cmds) i)"
    "length (consumeID (Consumed cmds) i) \<le> MaxConsumedCommands"
    unfolding consumeID_def using keep_latest_ok sorted_sort by blast+
  show ?thesis
    using ok len und' dist cons by (cases "pendingCommand cmds i") (simp_all add: consume_def slots_ok_def)
qed

lemma granted_more: "granted who s i \<Longrightarrow> set (cy_decided s) \<subseteq> set (cy_decided s') \<Longrightarrow> granted who s' i"
  by (auto simp: granted_def)

lemma updated_entries:
  assumes "slots_ok cmds" "update_command i change cmds = Some cmds'" "mild change"
  obtains c where "c \<in> set (Pending cmds)" "CommentID c = i" "pendingCommand cmds' i = Some (snd (change cmds c))"
    "CommentID (snd (change cmds c)) = i" "Actor (snd (change cmds c)) = Actor c" "Verb (snd (change cmds c)) = Verb c"
    "\<And>p. p \<in> set (Pending cmds') \<Longrightarrow> p = snd (change cmds c) \<or> p \<in> set (Pending cmds) \<and> CommentID p \<noteq> i"
    "LastToggle cmds' = LastToggle (fst (change cmds c))"
proof -
  obtain c where c: "c \<in> set (Pending cmds)" "CommentID c = i"
    "cmds' = (fst (change cmds c))\<lparr>Pending := map (\<lambda>p. if CommentID p = i then snd (change cmds c) else p) (Pending cmds)\<rparr>"
    using update_command_Some [OF assms(2)] by blast
  have m: "CommentID (snd (change cmds c)) = i" "Actor (snd (change cmds c)) = Actor c" "Verb (snd (change cmds c)) = Verb c"
    using assms(3) c(2) unfolding mild_def by (auto simp: Let_def case_prod_beta)
  have "snd (change cmds c) \<in> set (Pending cmds')" using c by (auto simp: image_iff)
  then have "pendingCommand cmds' i = Some (snd (change cmds c))"
    using pendingCommand_is [OF slots_update [OF assms]] m(1) by blast
  then show thesis using that [OF c(1,2) _ m] c(3) by auto
qed

lemma ok_received:
  assumes "commands_ok who says s" "Actor c = who (CommentID c)" "Verb c = says (CommentID c)" "Outcome c = NoOutcome"
  shows "commands_ok who says (s\<lparr>cy_cmds := comment t c (cy_cmds s)\<rparr>)"
proof -
  let ?s = "s\<lparr>cy_cmds := comment t c (cy_cmds s)\<rparr>"
  have new: "\<not> due c" using assms(4) by (simp add: due_def)
  have entry: "entry_ok who says ?s p" if "p = c \<or> p \<in> set (Pending (cy_cmds s)) \<and> entry_ok who says s p" for p
    using that assms(2-4) new by (auto simp: entry_ok_def granted_def comment_frame)
  have old: "d \<in> set (Pending (cy_cmds s))" if "d \<in> set (Pending (comment t c (cy_cmds s)))" "due d" for d
    using comment_new [OF that(1)] that(2) new by blast
  have "local_ok who says ?s"
    using assms(1) old comment_keeps_due unfolding commands_ok_def local_ok_def
    by (auto simp: comment_frame split: settle_local.splits) blast+
  moreover have "\<forall>p\<in>set (Pending (comment t c (cy_cmds s))). entry_ok who says ?s p"
    using entry comment_new assms(1) unfolding commands_ok_def by blast
  moreover have "effects_ok who says ?s"
    using assms(1) by (simp add: commands_ok_def effects_ok_def comment_frame granted_def)
  ultimately show ?thesis using assms(1,4) slots_comment by (simp add: commands_ok_def)
qed

lemma ok_picked:
  assumes "commands_ok who says s" "nextCommand (cy_cmds s) = Some c"
  shows "commands_ok who says (s\<lparr>cy_local := Picked (cy_finding s) (cy_cmds s) (CommentID c)\<rparr>)"
proof -
  have c: "c \<in> set (Pending (cy_cmds s))" "\<And>d. d \<in> set (Pending (cy_cmds s)) \<Longrightarrow> \<not> stepBefore d c"
    using nextCommand_least [OF assms(2)] by blast+
  have slots: "slots_ok (cy_cmds s)" using assms(1) by (simp add: commands_ok_def)
  have only: "x = c" if "pendingCommand (cy_cmds s) (CommentID c) = Some x" for x
    using that c(1) pendingCommand_is [OF slots, of "CommentID c" c] by simp
  have "CommentID c \<le> CommentID d" if "Outcome c = NoOutcome" "d \<in> set (Pending (cy_cmds s))" "due d" for d
    using c(2) [OF that(2)] that by (auto simp: stepBefore_def toTakeEffect_def due_def split: if_splits)
  then have "local_ok who says (s\<lparr>cy_local := Picked (cy_finding s) (cy_cmds s) (CommentID c)\<rparr>)"
    using only c(1) assms(1) by (auto simp: local_ok_def commands_ok_def entry_ok_def)
  then show ?thesis using assms(1) by (auto simp: commands_ok_def entry_ok_def granted_def effects_ok_def)
qed

lemma ok_decided:
  assumes "commands_ok who says s" "cy_local s = Picked f0 cmds0 i" "pendingCommand cmds0 i = Some c" "Outcome c = NoOutcome"
    and "decide m perm f0 cmds0 c now = Some (oc, available)"
    and "update_command i (record_decision oc available now) (cy_cmds s) = Some cmds'"
  shows "commands_ok who says (s\<lparr>cy_cmds := cmds', cy_local := Picked (cy_finding s) cmds' i, cy_decided := cy_decided s @ [(i, perm, oc)]\<rparr>)"
    (is "commands_ok who says ?s")
proof -
  have slots: "slots_ok (cy_cmds s)" using assms(1) by (simp add: commands_ok_def)
  have snap: "LastToggle cmds0 = LastToggle (cy_cmds s)" "Actor c = who i" "Verb c = says i"
    "\<And>d. d \<in> set (Pending (cy_cmds s)) \<Longrightarrow> due d \<Longrightarrow> i \<le> CommentID d"
    using assms(1-4) by (auto simp: commands_ok_def local_ok_def)
  have oc: "oc \<noteq> NoOutcome" "oc = CommandDone \<Longrightarrow> \<not> isBot (who i) \<and> (\<exists>p. perm = Permission p \<and> CanWrite p)"
    "oc = CommandDone \<Longrightarrow> isToggle (says i) \<Longrightarrow> LastToggle (cy_cmds s) \<le> i"
    using decide_cases [OF assms(5)] snap(1-3) pendingCommand_Some [OF assms(3)] by auto
  obtain e where e: "e \<in> set (Pending (cy_cmds s))" "CommentID e = i"
    "pendingCommand cmds' i = Some (snd (record_decision oc available now (cy_cmds s) e))"
    "CommentID (snd (record_decision oc available now (cy_cmds s) e)) = i" "Actor (snd (record_decision oc available now (cy_cmds s) e)) = Actor e"
    "Verb (snd (record_decision oc available now (cy_cmds s) e)) = Verb e"
    "\<And>p. p \<in> set (Pending cmds') \<Longrightarrow> p = snd (record_decision oc available now (cy_cmds s) e) \<or> p \<in> set (Pending (cy_cmds s)) \<and> CommentID p \<noteq> i"
    "LastToggle cmds' = LastToggle (fst (record_decision oc available now (cy_cmds s) e))"
    by (rule updated_entries [OF slots assms(6) mild_changes(1) [OF oc(1)]]) blast
  let ?e = "snd (record_decision oc available now (cy_cmds s) e)"
  have who: "Actor e = who i" "Verb e = says i" using assms(1) e(1,2) by (auto simp: commands_ok_def entry_ok_def)
  have out: "Outcome ?e = oc" by (simp add: record_decision_def Let_def)
  have lt: "LastToggle cmds' = (if oc = CommandDone \<and> isToggle (says i) then max (LastToggle (cy_cmds s)) i else LastToggle (cy_cmds s))"
    using e(2,8) who by (simp add: record_decision_def Let_def)
  have gr: "granted who s j \<Longrightarrow> granted who ?s j" for j by (rule granted_more) auto
  have "oc = CommandDone \<Longrightarrow> granted who ?s i" using oc(2) by (auto simp: granted_def)
  moreover have "isToggle (says i) \<Longrightarrow> due ?e \<Longrightarrow> i = LastToggle cmds'" using out lt oc(3) by (simp add: due_def)
  ultimately have mine: "entry_ok who says ?s ?e" unfolding entry_ok_def e(4-6) who out by simp
  have others: "entry_ok who says ?s p" if p: "p \<in> set (Pending (cy_cmds s))" "CommentID p \<noteq> i" for p
  proof -
    have ok: "entry_ok who says s p" using assms(1) p by (auto simp: commands_ok_def)
    have "LastToggle cmds' = LastToggle (cy_cmds s)" if "isToggle (Verb p) \<and> due p"
      using that ok snap(4) [OF p(1)] p(2) lt oc(3) by (auto simp: entry_ok_def split: if_splits)
    then show ?thesis using ok gr by (auto simp: entry_ok_def)
  qed
  have "local_ok who says ?s" using e(3-6) who out oc(1) pendingCommand_Some [OF e(3)] by (auto simp: local_ok_def)
  moreover have "effects_ok who says ?s" using assms(1) gr lt by (fastforce simp: commands_ok_def effects_ok_def)
  ultimately show ?thesis using slots_update [OF slots assms(6) mild_changes(1) [OF oc(1)]] mine others e(7)
    by (auto simp: commands_ok_def)
qed

lemma ok_effect:
  assumes "commands_ok who says s" "cy_local s = Picked f0 cmds0 i" "pendingCommand cmds0 i = Some c0" "due c0"
    and "pendingCommand (cy_cmds s) i = Some c" "apply_spec m now c (cy_finding s) = (f, changed, revised)"
  shows "commands_ok who says (s\<lparr>cy_finding := f, cy_local := Marking i revised,
    cy_effects := cy_effects s @ (if changed then [(i, Verb c)] else [])\<rparr>)" (is "commands_ok who says ?s")
proof -
  have c: "entry_ok who says s c" "CommentID c = i" using assms(1) pendingCommand_Some [OF assms(5)] by (auto simp: commands_ok_def)
  have ch: "changed \<Longrightarrow> due c" "\<forall>oc av. revised = Some (oc, av) \<longrightarrow> oc \<noteq> NoOutcome \<and> oc \<noteq> CommandDone"
    using apply_spec_cases [OF assms(6)] by auto
  have gr: "granted who ?s j = granted who s j" for j by (simp add: granted_def)
  have eff: "effects_ok who says s" using assms(1) by (simp add: commands_ok_def)
  have "effects_ok who says ?s"
  proof (cases changed)
    case True
    then have "Verb c = says i" "granted who s i" "isToggle (says i) \<Longrightarrow> i = LastToggle (cy_cmds s)"
      using c ch(1) by (auto simp: entry_ok_def due_def)
    then show ?thesis using eff True by (auto simp: effects_ok_def granted_def toggles_of_def sorted_append)
  qed (use eff in \<open>simp add: effects_ok_def granted_def\<close>)
  moreover have "local_ok who says ?s" using assms(1-4) ch(2) by (auto simp: commands_ok_def local_ok_def)
  ultimately show ?thesis using assms(1) by (auto simp: commands_ok_def entry_ok_def gr)
qed

text \<open>A write that decides nothing and leaves the last toggle: the mark and the start of an answer.\<close>

lemma ok_rewritten:
  assumes "commands_ok who says s" "update_command i change (cy_cmds s) = Some cmds'" "mild change"
    and "\<And>cmds c. LastToggle (fst (change cmds c)) = LastToggle cmds"
    and "\<And>cmds c. Outcome (snd (change cmds c)) = CommandDone \<Longrightarrow> Outcome c = CommandDone"
    and "\<And>cmds c. due (snd (change cmds c)) \<Longrightarrow> due c"
    and "\<And>e. e \<in> set (Pending (cy_cmds s)) \<Longrightarrow> CommentID e = i \<Longrightarrow>
      local_ok who says (s\<lparr>cy_cmds := cmds', cy_local := l\<rparr>)"
  shows "commands_ok who says (s\<lparr>cy_cmds := cmds', cy_local := l\<rparr>)"
proof -
  have slots: "slots_ok (cy_cmds s)" using assms(1) by (simp add: commands_ok_def)
  obtain e where e: "e \<in> set (Pending (cy_cmds s))" "CommentID e = i"
    "CommentID (snd (change (cy_cmds s) e)) = i" "Actor (snd (change (cy_cmds s) e)) = Actor e" "Verb (snd (change (cy_cmds s) e)) = Verb e"
    "\<And>p. p \<in> set (Pending cmds') \<Longrightarrow> p = snd (change (cy_cmds s) e) \<or> p \<in> set (Pending (cy_cmds s)) \<and> CommentID p \<noteq> i"
    "LastToggle cmds' = LastToggle (cy_cmds s)"
    by (rule updated_entries [OF slots assms(2,3)]) (use assms(4) in metis)
  have ok: "entry_ok who says s p" if "p \<in> set (Pending (cy_cmds s))" for p using assms(1) that by (simp add: commands_ok_def)
  have "entry_ok who says (s\<lparr>cy_cmds := cmds', cy_local := l\<rparr>) (snd (change (cy_cmds s) e))"
    using ok [OF e(1)] assms(5,6) unfolding entry_ok_def e(3-5) by (auto simp: e(2,7) granted_def)
  moreover have "entry_ok who says (s\<lparr>cy_cmds := cmds', cy_local := l\<rparr>) p" if "p \<in> set (Pending (cy_cmds s))" for p
    using ok [OF that] by (auto simp: entry_ok_def e(7) granted_def)
  ultimately show ?thesis
    using slots_update [OF slots assms(2,3)] e(1,2,6,7) assms(1,7) by (auto simp: commands_ok_def effects_ok_def granted_def)
qed

lemma ok_marked:
  assumes "commands_ok who says s" "cy_local s = Marking i revised" "update_command i (mark_applied revised) (cy_cmds s) = Some cmds'"
  shows "commands_ok who says (s\<lparr>cy_cmds := cmds', cy_local := Picked (cy_finding s) cmds' i\<rparr>)"
proof -
  have slots: "slots_ok (cy_cmds s)" using assms(1) by (simp add: commands_ok_def)
  have rev: "\<And>oc av. revised = Some (oc, av) \<Longrightarrow> oc \<noteq> NoOutcome \<and> oc \<noteq> CommandDone"
    and "\<exists>d\<in>set (Pending (cy_cmds s)). CommentID d = i \<and> due d"
    using assms(1,2) by (auto simp: commands_ok_def local_ok_def)
  then obtain d where d: "d \<in> set (Pending (cy_cmds s))" "CommentID d = i" "due d" by blast
  have mild: "mild (mark_applied revised)" using rev by (auto intro: mild_changes)
  have mk: "LastToggle (fst (mark_applied revised cmds c)) = LastToggle cmds"
    "Outcome (snd (mark_applied revised cmds c)) = CommandDone \<Longrightarrow> Outcome c = CommandDone"
    "\<not> due (snd (mark_applied revised cmds c))" for cmds c
    using rev by (auto simp: mark_applied_def due_def split: option.splits)
  show ?thesis
  proof (rule ok_rewritten [OF assms(1,3) mild mk(1,2)])
    show "due c" if "due (snd (mark_applied revised cmds c))" for cmds c using mk(3) that by blast
    fix e assume e: "e \<in> set (Pending (cy_cmds s))" "CommentID e = i"
    obtain e' where e': "e' \<in> set (Pending (cy_cmds s))" "CommentID e' = i" "pendingCommand cmds' i = Some (snd (mark_applied revised (cy_cmds s) e'))"
      "Actor (snd (mark_applied revised (cy_cmds s) e')) = Actor e'" "Verb (snd (mark_applied revised (cy_cmds s) e')) = Verb e'"
      by (rule updated_entries [OF slots assms(3) mild]) blast
    have "e' = d" using e' d slots by (auto simp: slots_ok_def distinct_map inj_on_def)
    then have "Outcome (snd (mark_applied revised (cy_cmds s) e')) \<noteq> NoOutcome"
      using d(3) rev by (auto simp: mark_applied_def due_def split: option.splits)
    moreover have "Actor e' = who i" "Verb e' = says i" using assms(1) e'(1,2) by (auto simp: commands_ok_def entry_ok_def)
    ultimately show "local_ok who says (s\<lparr>cy_cmds := cmds', cy_local := Picked (cy_finding s) cmds' i\<rparr>)"
      using e'(3-5) mk(3) by (auto simp: local_ok_def)
  qed
qed

lemma commands_ok_step: "command_step m t who says s s' \<Longrightarrow> commands_ok who says s \<Longrightarrow> commands_ok who says s'"
proof (induction rule: command_step.induct)
  case (received s i n legacy now)
  then show ?case by (intro ok_received) (simp_all add: new_command_def)
next
  case (picked s c)
  then show ?case by (intro ok_picked)
next
  case (decided s f0 cmds0 i c perm now oc available cmds')
  then show ?case using ok_decided by blast
next
  case (effect s f0 cmds0 i c0 c now f changed revised)
  then show ?case using ok_effect [of who says s f0 cmds0 i c0] by (simp add: due_def)
next
  case (marked s i revised cmds')
  then show ?case using ok_marked by blast
next
  case (answering s f0 cmds0 i c0 now cmds')
  show ?case
    by (rule ok_rewritten [OF answering(5,4) mild_changes(2)]) (auto simp: begin_answer_def due_def local_ok_def split: if_splits)
next
  case (consumed s i c ok now)
  have "set (Pending (consume i (cy_cmds s))) \<subseteq> set (Pending (cy_cmds s))" "LastToggle (consume i (cy_cmds s)) = LastToggle (cy_cmds s)"
    by (auto simp: consume_def split: option.splits)
  then show ?case using consumed(4) slots_consume
    by (auto simp: commands_ok_def local_ok_def entry_ok_def effects_ok_def granted_def)
qed (auto simp: commands_ok_def local_ok_def entry_ok_def effects_ok_def granted_def split: settle_local.splits)

lemma commands_ok_reach: "command_reach m t who says s \<Longrightarrow> commands_ok who says s"
proof (induction rule: command_reach.induct)
  case (start f)
  show ?case by (simp add: commands_ok_def slots_ok_def no_commands_def undecided_id_def effects_ok_def toggles_of_def local_ok_def)
next
  case (step s s')
  then show ?case using commands_ok_step by blast
qed

subsection \<open>Results\<close>

text \<open>
  The list of commands stays within its bounds: at any moment at most 8 are pending, no comment twice, no account
  has more than two undecided ones, and what is remembered of the consumed and the refused is sorted or
  without repetition and at most 32 long.
\<close>

theorem command_bounds:
  assumes "command_reach m t who says s"
  shows "length (Pending (cy_cmds s)) \<le> 8 \<and> distinct (map CommentID (Pending (cy_cmds s))) \<and>
    (0 < a \<longrightarrow> length (filter (\<lambda>p. Outcome p = NoOutcome \<and> ca_ID (Actor p) = a) (Pending (cy_cmds s))) \<le> 2) \<and>
    sorted (Consumed (cy_cmds s)) \<and> distinct (Consumed (cy_cmds s)) \<and> length (Consumed (cy_cmds s)) \<le> 32 \<and>
    distinct (RefusedActors (cy_cmds s)) \<and> length (RefusedActors (cy_cmds s)) \<le> 32"
  using commands_ok_reach [OF assms]
  by (simp add: commands_ok_def slots_ok_def MaxPendingCommands_def MaxPendingCommandsPerActor_def MaxConsumedCommands_def
      MaxRefusedActors_def undecided_id_def)

text \<open>
  C20. Only a writer commands a finding. Whatever is delivered, evicted, delivered again, or lost in a restart, an
  effect a comment has on the spec is the one the comment says, and its author is no bot and was found to have write
  access to the repository when the command was decided.
\<close>

theorem only_writers_command:
  assumes "command_reach m t who says s" "(i, v) \<in> set (cy_effects s)"
  shows "v = says i \<and> \<not> isBot (who i) \<and>
    (\<exists>p. (i, Permission p, CommandDone) \<in> set (cy_decided s) \<and> p \<in> {''admin'', ''maintain'', ''write''})"
  using commands_ok_reach [OF assms(1)] assms(2)
  by (fastforce simp: commands_ok_def effects_ok_def granted_def CanWrite_def)

text \<open>
  C21. Suspends and resumes take effect in the order they were written, however they are delivered and however often
  the reconciler restarts: in the order of the effects their comment ids never fall, and none is above the
  last toggle remembered.
\<close>

theorem toggles_in_order:
  assumes "command_reach m t who says s"
  shows "sorted (map fst (filter (\<lambda>e. snd e = VerbSuspend \<or> snd e = VerbResume) (cy_effects s))) \<and>
    (\<forall>e\<in>set (cy_effects s). snd e = VerbSuspend \<or> snd e = VerbResume \<longrightarrow> fst e \<le> LastToggle (cy_cmds s))"
proof -
  have ok: "sorted (toggles_of (cy_effects s))" "\<And>i. i \<in> set (toggles_of (cy_effects s)) \<Longrightarrow> i \<le> LastToggle (cy_cmds s)"
    using commands_ok_reach [OF assms] by (simp_all add: commands_ok_def effects_ok_def)
  have "fst e \<in> set (toggles_of (cy_effects s))" if "e \<in> set (cy_effects s)" "snd e = VerbSuspend \<or> snd e = VerbResume" for e
    using that by (auto simp: toggles_of_def isToggle_def intro!: rev_image_eqI)
  then show ?thesis using ok by (auto simp: toggles_of_def isToggle_def)
qed


subsection \<open>A run\<close>

definition demo_who :: "int \<Rightarrow> command_actor" where "demo_who i = \<lparr>ca_Login = ''amy'', ca_ID = 3, ca_Type = ''User''\<rparr>"
definition demo_says :: "int \<Rightarrow> string" where "demo_says i = VerbSuspend"

definition demo_command :: finding_command where "demo_command = new_command 7 (demo_who 7) (demo_says 7) [] False 0"

definition demo_ops :: repo_text where "demo_ops = \<lparr>rt_parseURL = (\<lambda>_. None), rt_foldEq = (=)\<rparr>"

lemma demo_received: "comment demo_ops demo_command no_commands = no_commands\<lparr>Pending := [demo_command]\<rparr>"
  by (simp add: comment_def demo_command_def new_command_def isBot_def demo_who_def commandSeen_def no_commands_def recordCommand_def
      undecidedBy_def MaxPendingCommandsPerActor_def MaxPendingCommands_def suffix_def)

definition demo_decided_command :: finding_command where
  "demo_decided_command = demo_command\<lparr>Outcome := CommandDone, DecidedAt := Some 5, AvailableVerbs := []\<rparr>"

lemma demo_run:
  fixes m :: meta_ops and f :: finding
  assumes "\<not> suspend (spec f)" "\<not> Terminal (phase (status f))"
  shows "\<exists>s. command_reach m demo_ops demo_who demo_says s \<and> cy_effects s = [(7, VerbSuspend)] \<and> LastToggle (cy_cmds s) = 7"
proof -
  let ?s0 = "\<lparr>cy_finding = f, cy_cmds = no_commands, cy_local = Idle, cy_effects = [], cy_decided = []\<rparr>"
  let ?c1 = "no_commands\<lparr>Pending := [demo_command]\<rparr>"
  let ?s1 = "?s0\<lparr>cy_cmds := ?c1\<rparr>"
  let ?s2 = "?s1\<lparr>cy_local := Picked f ?c1 7\<rparr>"
  let ?c3 = "?c1\<lparr>LastToggle := 7, Pending := [demo_decided_command]\<rparr>"
  let ?s3 = "?s2\<lparr>cy_cmds := ?c3, cy_local := Picked f ?c3 7, cy_decided := [(7, Permission ''write'', CommandDone)]\<rparr>"
  note d = demo_command_def new_command_def no_commands_def pendingCommand_def demo_says_def
  have "command_step m demo_ops demo_who demo_says ?s0 ?s1"
    using command_step.received [of m demo_ops demo_who demo_says ?s0 7 "[]" False 0] demo_received by (simp add: demo_command_def)
  moreover have "nextCommand ?c1 = Some demo_command" by (simp add: nextCommand_def)
  then have "command_step m demo_ops demo_who demo_says ?s1 ?s2"
    using command_step.picked [where s = ?s1 and c = demo_command] by (simp add: d)
  moreover have "command_step m demo_ops demo_who demo_says ?s2 ?s3"
  proof -
    have "decide m (Permission ''write'') f ?c1 demo_command 5 = Some (CommandDone, [])"
      using assms by (simp add: decide_def mayCommand_def CanWrite_def isBot_def demo_who_def d issue_verbs_def isToggle_def act_simps suffix_def)
    moreover have "update_command 7 (record_decision CommandDone [] 5) ?c1 = Some ?c3"
      by (simp add: update_command_def record_decision_def d isToggle_def demo_decided_command_def Let_def)
    ultimately show ?thesis
      using command_step.decided [of ?s2 f ?c1 7 demo_command m "Permission ''write''" 5 CommandDone "[]" ?c3 demo_ops demo_who demo_says]
      by (simp add: d)
  qed
  moreover obtain g rev where g: "apply_spec m 6 demo_decided_command f = (g, True, rev)"
    using assms by (simp add: apply_spec_def demo_decided_command_def d act_simps effect_time_def)
  have "command_step m demo_ops demo_who demo_says ?s3
      (?s3\<lparr>cy_finding := g, cy_local := Marking 7 rev, cy_effects := [(7, VerbSuspend)]\<rparr>)"
    using command_step.effect [of ?s3 f ?c3 7 demo_decided_command demo_decided_command m 6 g True rev demo_ops demo_who demo_says] g
    by (simp add: d demo_decided_command_def)
  ultimately have "command_reach m demo_ops demo_who demo_says (?s3\<lparr>cy_finding := g, cy_local := Marking 7 rev, cy_effects := [(7, VerbSuspend)]\<rparr>)"
    using command_reach.start [of m demo_ops demo_who demo_says f] command_reach.step by metis
  then show ?thesis by (intro exI conjI) (assumption, simp_all)
qed

lemma demo_act_finding: "\<not> suspend (spec (act_finding PhaseQueued))" "\<not> Terminal (phase (status (act_finding PhaseQueued)))"
  by (simp_all add: act_finding_def)

lemma command_bounds_witness: "\<exists>cmds :: finding_commands. LastToggle cmds = 7 \<and> length (Pending cmds) \<le> 8"
proof -
  obtain s where "command_reach demo_meta demo_ops demo_who demo_says s" "LastToggle (cy_cmds s) = 7"
    using demo_run [OF demo_act_finding, of demo_meta] by blast
  then show ?thesis using command_bounds [of demo_meta demo_ops demo_who demo_says s 3] by (intro exI [of _ "cy_cmds s"]) simp
qed

lemma only_writers_command_witness: "\<not> isBot (demo_who 7)"
proof -
  obtain s where "command_reach demo_meta demo_ops demo_who demo_says s" "(7, VerbSuspend) \<in> set (cy_effects s)"
    using demo_run [OF demo_act_finding, of demo_meta] by auto
  then show ?thesis using only_writers_command by blast
qed

lemma toggles_in_order_witness: "\<exists>es. es = [(7 :: int, VerbSuspend)] \<and> sorted (map fst (filter (\<lambda>e. snd e = VerbSuspend \<or> snd e = VerbResume) es))"
  using demo_run [OF demo_act_finding, of demo_meta] toggles_in_order [of demo_meta demo_ops demo_who demo_says] by metis


end
