(* ===== verification/IntentTypes.thy ===== *)
theory IntentTypes
  imports Commands CredGate CostDate
begin

text \<open>
  The Intent and its runs (\<open>api/v1alpha1/intent_types.go\<close>, \<open>intentrun_types.go\<close>, \<open>project_types.go\<close>) and
  the small functions on them (\<open>internal/controller/intent/names.go\<close>): the phases with their edge table,
  the phase log kept at 64 entries, the records an approval is bound to, the names, the settings a run is
  granted from, and the usage tally. Every field the modelled handlers read or write is here; the
  fields of check polling and of previews are not.
\<close>

subsection \<open>Phases\<close>

datatype intent_phase =
    IntentNone | IntentPending | IntentPlanning | IntentAwaitingApproval | IntentBuilding | IntentInReview
  | IntentRevising | IntentBlocked | IntentMerged | IntentClosed | IntentFailed

fun intentTransitions :: "intent_phase \<Rightarrow> intent_phase list" where
  "intentTransitions IntentNone = [IntentPending]"
| "intentTransitions IntentPending = [IntentPlanning, IntentBlocked, IntentClosed]"
| "intentTransitions IntentPlanning = [IntentAwaitingApproval, IntentBlocked, IntentClosed, IntentFailed]"
| "intentTransitions IntentAwaitingApproval = [IntentBuilding, IntentPlanning, IntentBlocked, IntentClosed]"
| "intentTransitions IntentBuilding = [IntentInReview, IntentBlocked, IntentClosed, IntentFailed]"
| "intentTransitions IntentInReview = [IntentRevising, IntentMerged, IntentBlocked, IntentClosed]"
| "intentTransitions IntentRevising = [IntentInReview, IntentMerged, IntentBlocked, IntentClosed]"
| "intentTransitions IntentBlocked =
     [IntentPending, IntentPlanning, IntentAwaitingApproval, IntentBuilding, IntentInReview, IntentRevising,
      IntentMerged, IntentClosed]"
| "intentTransitions IntentMerged = []"
| "intentTransitions IntentClosed = []"
| "intentTransitions IntentFailed = [IntentPlanning]"

definition intentTerminal :: "intent_phase list" where
  "intentTerminal = [IntentMerged, IntentClosed, IntentFailed]"

definition CanTransitionIntent :: "intent_phase \<Rightarrow> intent_phase \<Rightarrow> bool" where
  "CanTransitionIntent f g \<longleftrightarrow> f = g \<or> g \<in> set (intentTransitions f)"

definition IntentTerminal :: "intent_phase \<Rightarrow> bool" where
  "IntentTerminal p \<longleftrightarrow> p \<in> set intentTerminal"

subsection \<open>Human actions, input, plan, approval\<close>

datatype action_source = IntentActionLabel | IntentActionCommand

record intent_action =
  ia_Source :: action_source
  ia_EventID :: int
  ia_Login :: string
  ia_UserID :: int
  ia_At :: time

record intent_input =
  ii_Revision :: int
  ii_Digest :: string
  ii_ConfigMap :: string
  ii_ContextDigest :: string
  ii_Trigger :: "intent_action option"

record intent_plan =
  pl_Revision :: int
  pl_Digest :: string
  pl_ConfigMap :: string
  pl_CommentID :: int
  pl_CommentDigest :: string
  pl_PostedAt :: "time option"
  pl_Summary :: string
  pl_Repositories :: "string list"

record intent_approval =
  iap_By :: string
  iap_ByID :: int
  iap_Source :: action_source
  iap_EventID :: int
  iap_At :: time
  iap_PlanRevision :: int
  iap_PlanDigest :: string
  iap_InputDigest :: string

datatype pr_state = PROpen | PRMerged | PRClosed

record intent_pull_request =
  ipr_Repository :: string
  ipr_Number :: int
  ipr_URL :: string
  ipr_NodeID :: string
  ipr_HeadSHA :: string
  ipr_State :: pr_state
  ipr_MergedAt :: "time option"
  ipr_MergeCommitSHA :: string

record intent_usage =
  iu_Cost :: int
  iu_Input :: int
  iu_Output :: int
  iu_CacheRead :: int
  iu_CacheCreation :: int

record comment_ref =
  cr_ID :: int
  cr_At :: time

record intent_commands =
  ic_Seen :: "comment_ref option"
  ic_RefusedActors :: "int list"

subsection \<open>The Intent\<close>

record phase_time =
  pt_Phase :: intent_phase
  pt_At :: time

record intent =
  in_Name :: string
  in_UID :: string
  in_Generation :: int
  in_Created :: time
  in_Deleting :: bool
  in_Project :: string
  in_Repository :: string
  in_Number :: int
  in_RequestedLogin :: string
  in_RequestedUserID :: int
  in_RequestedAt :: time
  in_RequestedEventID :: int
  in_Suspend :: bool
  is_Phase :: intent_phase
  is_PhaseTimes :: "phase_time list"
  is_Conditions :: "condition list"
  is_ObservedGeneration :: int
  is_Input :: "intent_input option"
  is_Plan :: "intent_plan option"
  is_Approval :: "intent_approval option"
  is_CredentialHold :: "user_ref option"
  is_LastTrigger :: "intent_action option"
  is_Commands :: "intent_commands option"
  is_Branch :: string
  is_PullRequests :: "intent_pull_request list"
  is_Rounds :: int
  is_RoundNoticesThrough :: int
  is_Usage :: intent_usage
  is_ActiveRun :: "(string \<times> string) option"
  is_CompletedAt :: "time option"

definition MaxIntentPhaseTimes :: nat where "MaxIntentPhaseTimes = 64"
definition MaxIntentRefusedActors :: nat where "MaxIntentRefusedActors = 32"
definition MaxIntentRound :: int where "MaxIntentRound = 999"
definition MaxIntentRunAttempt :: int where "MaxIntentRunAttempt = 16"
definition IntentBranchPrefix :: string where "IntentBranchPrefix = ''maul-intent/''"

definition IntentName :: "string \<Rightarrow> int \<Rightarrow> string" where
  "IntentName project issue = project @ ''-'' @ show_int issue"

text \<open>The latest entry that is not \<open>Blocked\<close>; \<open>IntentNone\<close> stands for the empty phase.\<close>

definition IntentBlockedFrom :: "intent \<Rightarrow> intent_phase" where
  "IntentBlockedFrom i =
     (if is_Phase i \<noteq> IntentBlocked then IntentNone
      else fold (\<lambda>pt prior. if pt_Phase pt \<noteq> IntentBlocked then pt_Phase pt else prior) (is_PhaseTimes i) IntentNone)"

definition SetIntentPhase :: "intent \<Rightarrow> intent_phase \<Rightarrow> time \<Rightarrow> intent option" where
  "SetIntentPhase i to now =
     (if \<not> CanTransitionIntent (is_Phase i) to then None
      else if is_Phase i = to then Some i
      else Some (i\<lparr>is_Phase := to,
                   is_PhaseTimes := keep_latest MaxIntentPhaseTimes (is_PhaseTimes i @ [\<lparr>pt_Phase = to, pt_At = now\<rparr>]),
                   is_CompletedAt := (if IntentTerminal to then Some now else None)\<rparr>))"

definition enteredAt :: "intent \<Rightarrow> time" where
  "enteredAt i =
     (case find (\<lambda>pt. pt_Phase pt = is_Phase i) (rev (is_PhaseTimes i)) of Some pt \<Rightarrow> pt_At pt | None \<Rightarrow> in_Created i)"

subsection \<open>Runs\<close>

datatype intent_stage = StagePlan | StageBuild | StageRevise

datatype round_trigger = NoRoundTrigger | TriggerReview | TriggerCommand | TriggerChecks

record run_grant =
  rg_MaxTurns :: int
  rg_TokenBudget :: int
  rg_TimeoutMilliseconds :: int
  rg_BudgetMicroUSD :: int

record run_usage =
  ru_CostUSD :: string
  ru_Input :: int
  ru_Output :: int
  ru_CacheRead :: int
  ru_CacheCreation :: int

record intent_run =
  ir_Name :: string
  ir_UID :: string
  ir_Created :: time
  ir_Deleting :: bool
  ir_IntentUID :: string
  ir_Stage :: intent_stage
  ir_URL :: string
  ir_RepositoryRef :: string
  ir_Trees :: "(string \<times> string \<times> string) list"
  ir_Round :: int
  ir_Attempt :: int
  ir_Trigger :: round_trigger
  ir_InputConfigMap :: string
  ir_InputDigest :: string
  ir_ContextDigest :: string
  ir_PlanRevision :: int
  ir_PlanDigest :: string
  ir_Grant :: run_grant
  ir_PreviousAttempt :: "previous_attempt option"
  ir_AttributedTo :: "attribution option"
  ir_Finalizers :: "string list"
  ir_Codex :: bool
  ir_Phase :: run_phase
  ir_Outcome :: string
  ir_Detail :: string
  ir_Report :: string
  ir_Conditions :: "condition list"
  ir_PushedCommit :: string
  ir_Usage :: run_usage
  ir_JobRef :: bool
  ir_FinishedAt :: "time option"

definition IntentRunName :: "string \<Rightarrow> intent_stage \<Rightarrow> int \<Rightarrow> string \<Rightarrow> int \<Rightarrow> string" where
  "IntentRunName intent stage rnd repoKey attempt =
     (case stage of
        StagePlan \<Rightarrow> intent @ ''-plan-r'' @ show_int rnd @ ''-a'' @ show_int attempt
      | StageBuild \<Rightarrow> intent @ ''-bld-r'' @ show_int rnd @ ''-'' @ repoKey @ ''-a'' @ show_int attempt
      | StageRevise \<Rightarrow> intent @ ''-rev'' @ show_int rnd @ ''-'' @ repoKey @ ''-a'' @ show_int attempt)"

definition IntentRunTreeRepositoryName :: "string \<Rightarrow> string \<Rightarrow> string" where
  "IntentRunTreeRepositoryName run key = run @ ''-src-'' @ key"

subsection \<open>The Project and the controller's settings\<close>

record project_repository =
  pjr_Name :: string
  pjr_URL :: string
  pjr_Class :: string

record stage_limits =
  sl_MaxTurns :: int
  sl_TokenBudget :: int
  sl_Timeout :: "duration option"
  sl_MaxCostMicroUSD :: int

record project =
  pj_Name :: string
  pj_Generation :: int
  pj_Suspend :: bool
  pj_Repositories :: "project_repository list"
  pj_Approvers :: "string list"
  pj_ApproveLabel :: string
  pj_TriggerLabel :: string
  pj_Codex :: bool
  pj_Plan :: stage_limits
  pj_Build :: stage_limits
  pj_Revise :: stage_limits
  pj_MaxActiveIntents :: int
  pj_MaxCostMicroUSD :: int
  pj_MaxRevisions :: "int option"
  pj_MaxCheckFixes :: "int option"
  pj_RequireRepositoryImage :: "bool option"

record stage_ceiling =
  sc_MaxTurns :: int
  sc_TokenBudget :: int
  sc_Timeout :: duration

record intent_settings =
  st_PollInterval :: duration
  st_ApprovalPollInterval :: duration
  st_PRPollInterval :: duration
  st_RateLimitFloor :: int
  st_MaxAttempts :: int
  st_Plan :: stage_ceiling
  st_Build :: stage_ceiling
  st_Revise :: stage_ceiling
  st_MultiRepo :: bool
  st_Attribution :: mode
  st_UserCredentials :: cred_mode
  st_AccountURL :: string
  st_CostBudgets :: bool
  st_BrokerCostPerHour :: int
  st_JobDeadline :: duration
  st_JobDeadlineMax :: duration

definition DefaultTriggerLabelPrefix :: string where "DefaultTriggerLabelPrefix = ''maul:''"
definition DefaultApproveLabel :: string where "DefaultApproveLabel = ''maul:approved''"
definition DefaultMaxActiveIntents :: int where "DefaultMaxActiveIntents = 2"
definition DefaultMaxRevisions :: int where "DefaultMaxRevisions = 3"
definition DefaultMaxCheckFixes :: int where "DefaultMaxCheckFixes = 2"
definition DefaultMaxCostMicroUSD :: int where "DefaultMaxCostMicroUSD = 10000000"

definition ProjectTriggerLabel :: "project \<Rightarrow> string" where
  "ProjectTriggerLabel p = (if pj_TriggerLabel p \<noteq> [] then pj_TriggerLabel p else DefaultTriggerLabelPrefix @ pj_Name p)"

definition withDefaults :: "intent_settings \<Rightarrow> intent_settings" where
  "withDefaults s =
     s\<lparr>st_PollInterval := (if st_PollInterval s \<le> 0 then nano_minute else st_PollInterval s),
       st_ApprovalPollInterval := (if st_ApprovalPollInterval s \<le> 0 then 30 * nano_second else st_ApprovalPollInterval s),
       st_PRPollInterval := (if st_PRPollInterval s \<le> 0 then nano_minute else st_PRPollInterval s),
       st_MaxAttempts := (if st_MaxAttempts s \<le> 0 then 2 else st_MaxAttempts s)\<rparr>"

definition ceiling_of :: "intent_settings \<Rightarrow> intent_stage \<Rightarrow> stage_ceiling" where
  "ceiling_of s stage = (case stage of StageBuild \<Rightarrow> st_Build s | StageRevise \<Rightarrow> st_Revise s | StagePlan \<Rightarrow> st_Plan s)"

definition stageLimits :: "project \<Rightarrow> intent_stage \<Rightarrow> stage_limits" where
  "stageLimits p stage = (case stage of StageBuild \<Rightarrow> pj_Build p | StageRevise \<Rightarrow> pj_Revise p | StagePlan \<Rightarrow> pj_Plan p)"

definition maxCostMicroUSD :: "project \<Rightarrow> int" where
  "maxCostMicroUSD p = (if 0 < pj_MaxCostMicroUSD p then pj_MaxCostMicroUSD p else DefaultMaxCostMicroUSD)"

definition runBudget :: "project \<Rightarrow> intent_stage \<Rightarrow> int" where
  "runBudget p stage =
     (let b = sl_MaxCostMicroUSD (stageLimits p stage) in
      if 0 < b \<and> b < maxCostMicroUSD p then b else maxCostMicroUSD p)"

definition multiRepoOff :: "intent_settings \<Rightarrow> project \<Rightarrow> bool" where
  "multiRepoOff s p \<longleftrightarrow> \<not> st_MultiRepo s \<and> 1 < length (pj_Repositories p)"

definition JobDeadlineMargin :: duration where "JobDeadlineMargin = 15 * nano_minute"

definition jobDeadline :: "intent_settings \<Rightarrow> duration \<Rightarrow> duration" where
  "jobDeadline s timeout =
     (let derived = (if 0 < timeout
          then (if 0 < st_JobDeadlineMax s \<and> st_JobDeadlineMax s < i64 (timeout + JobDeadlineMargin)
                then st_JobDeadlineMax s else i64 (timeout + JobDeadlineMargin))
          else 0)
      in max (st_JobDeadline s) derived)"

definition clamp_limit :: "int \<Rightarrow> int \<Rightarrow> int" where
  "clamp_limit c l = (if 0 < l \<and> l < c then l else c)"

text \<open>\<open>Duration.Milliseconds\<close> is the division of the nanoseconds by a million, truncated towards zero.\<close>

definition grant :: "intent_settings \<Rightarrow> project \<Rightarrow> intent_stage \<Rightarrow> run_grant" where
  "grant s p stage =
     (let c = ceiling_of s stage; l = stageLimits p stage;
          timeout = (case sl_Timeout l of None \<Rightarrow> sc_Timeout c | Some d \<Rightarrow> clamp_limit (sc_Timeout c) d)
      in \<lparr>rg_MaxTurns = clamp_limit (sc_MaxTurns c) (sl_MaxTurns l),
          rg_TokenBudget = clamp_limit (sc_TokenBudget c) (sl_TokenBudget l),
          rg_TimeoutMilliseconds = tdiv timeout 1000000,
          rg_BudgetMicroUSD = (if st_CostBudgets s then runBudget p stage else 0)\<rparr>)"

definition budgetOverHourly :: "intent_settings \<Rightarrow> project \<Rightarrow> (intent_stage \<times> int) option" where
  "budgetOverHourly s p =
     (if \<not> st_CostBudgets s \<or> st_BrokerCostPerHour s \<le> 0 then None
      else map_option (\<lambda>stage. (stage, runBudget p stage))
             (find (\<lambda>stage. st_BrokerCostPerHour s < i64 (2 * runBudget p stage)) [StagePlan, StageBuild, StageRevise]))"

definition runTimeout :: "intent_settings \<Rightarrow> intent_run \<Rightarrow> duration" where
  "runTimeout s r =
     (if 0 < rg_TimeoutMilliseconds (ir_Grant r) then i64 (rg_TimeoutMilliseconds (ir_Grant r) * 1000000)
      else sc_Timeout (ceiling_of s (ir_Stage r)))"

definition runBudgetFor :: "intent_settings \<Rightarrow> intent_run \<Rightarrow> project \<Rightarrow> int" where
  "runBudgetFor s r p =
     (if \<not> st_CostBudgets s then 0
      else if 0 < rg_BudgetMicroUSD (ir_Grant r) then rg_BudgetMicroUSD (ir_Grant r)
      else runBudget p (ir_Stage r))"

definition approveLabel :: "project \<Rightarrow> string" where
  "approveLabel p = (if pj_ApproveLabel p \<noteq> [] then pj_ApproveLabel p else DefaultApproveLabel)"

definition maxActiveIntents :: "project \<Rightarrow> int" where
  "maxActiveIntents p = (if 0 < pj_MaxActiveIntents p then pj_MaxActiveIntents p else DefaultMaxActiveIntents)"

definition requireRepositoryImage :: "project \<Rightarrow> bool" where
  "requireRepositoryImage p = (case pj_RequireRepositoryImage p of None \<Rightarrow> True | Some b \<Rightarrow> b)"

definition maxRevisions :: "project \<Rightarrow> int" where
  "maxRevisions p = (case pj_MaxRevisions p of None \<Rightarrow> DefaultMaxRevisions | Some n \<Rightarrow> n)"

definition isApprover :: "repo_text \<Rightarrow> project \<Rightarrow> string \<Rightarrow> bool" where
  "isApprover t p l \<longleftrightarrow> list_ex (\<lambda>a. EqualFold t a l) (pj_Approvers p)"

subsection \<open>Repository URLs\<close>

text \<open>\<open>ul\<close> and \<open>ut\<close> are \<open>strings.ToLower\<close> and \<open>strings.TrimSpace\<close> on text that is not ASCII.\<close>

definition normalizeRepoURL :: "(string \<Rightarrow> string) \<Rightarrow> (string \<Rightarrow> string) \<Rightarrow> string \<Rightarrow> string" where
  "normalizeRepoURL ul ut u =
     trim_suffix (to_lower ul (rev (dropWhile (\<lambda>c. c = CHR ''/'') (rev (trim_space ut u))))) ''.git''"

definition sameRepo :: "(string \<Rightarrow> string) \<Rightarrow> (string \<Rightarrow> string) \<Rightarrow> string \<Rightarrow> string \<Rightarrow> bool" where
  "sameRepo ul ut a b \<longleftrightarrow> normalizeRepoURL ul ut a = normalizeRepoURL ul ut b"

subsection \<open>Usage\<close>

definition microUSD :: "string \<Rightarrow> int" where
  "microUSD cost =
     (if cost = [] then 0
      else case cut_at (CHR ''.'') cost of (whole, fr, _) \<Rightarrow>
        (case ParseInt10 whole of
           None \<Rightarrow> 0
         | Some w \<Rightarrow> if w < 0 \<or> tdiv max_int64 1000000 < w then 0
             else (case ParseInt10 (take 6 (fr @ ''000000'')) of
                     None \<Rightarrow> 0 | Some f \<Rightarrow> i64 (i64 (w * 1000000) + f))))"

definition addUsage :: "int \<Rightarrow> int \<Rightarrow> int" where
  "addUsage tally n = (if n \<le> 0 then tally else if i64 (max_int64 - n) < tally then max_int64 else i64 (tally + n))"

definition no_usage :: intent_usage where
  "no_usage = \<lparr>iu_Cost = 0, iu_Input = 0, iu_Output = 0, iu_CacheRead = 0, iu_CacheCreation = 0\<rparr>"

definition run_tally :: "intent_run list \<Rightarrow> intent_usage" where
  "run_tally runs = fold (\<lambda>r u.
     \<lparr>iu_Cost = addUsage (iu_Cost u) (microUSD (ru_CostUSD (ir_Usage r))),
      iu_Input = addUsage (iu_Input u) (ru_Input (ir_Usage r)),
      iu_Output = addUsage (iu_Output u) (ru_Output (ir_Usage r)),
      iu_CacheRead = addUsage (iu_CacheRead u) (ru_CacheRead (ir_Usage r)),
      iu_CacheCreation = addUsage (iu_CacheCreation u) (ru_CacheCreation (ir_Usage r))\<rparr>) runs no_usage"

end
