(* ===== verification/IntentPass.thy ===== *)
theory IntentPass
  imports IntentTypes
begin

text \<open>
  What one reconcile of an Intent works with: the state of a pass, the answers it gets, and the operations
  every handler is written from (\<open>internal/controller/intent/intent_controller.go\<close>, \<open>intent_issue.go\<close>,
  \<open>snapshot.go\<close>, \<open>attribute.go\<close>). A handler is a function from the pass to an outcome and the pass after
  it: a value or a fault, the calls it attempted and the statuses it wrote, in order. GitHub, the API
  server and the clock answer through \<open>intent_env\<close>; two equal reads in one pass get the same answer,
  while calls and writes are answered by their place in the order. Comments' bodies are read, and their
  text is not modelled: a notice is known by its key.
\<close>

subsection \<open>The fixed surroundings\<close>

record intent_ops =
  io_meta :: meta_ops
  io_text :: repo_text
  io_lower :: "string \<Rightarrow> string"
  io_trim :: "string \<Rightarrow> string"
  io_fields :: "string \<Rightarrow> string list"
  io_runes :: "string \<Rightarrow> ustring"
  io_graphic :: "rune \<Rightarrow> bool"
  io_digest :: "string \<Rightarrow> string"
  io_sha :: "string \<Rightarrow> string"
  io_slug :: "string \<Rightarrow> string"
  io_marker :: "string \<Rightarrow> string \<Rightarrow> string"
  io_plan_marker :: "string \<Rightarrow> int \<Rightarrow> string \<Rightarrow> string"
  io_words :: "string \<Rightarrow> string"

subsection \<open>What GitHub and the API server answer\<close>

datatype 'a reply = Got 'a | Missing | Denied | Refusal | Unresolved | Broken

fun IsNotFound :: "'a reply \<Rightarrow> bool" where
  "IsNotFound Missing = True" | "IsNotFound _ = False"

fun IsForbidden :: "'a reply \<Rightarrow> bool" where
  "IsForbidden Denied = True" | "IsForbidden _ = False"

text \<open>\<open>Refusal\<close> is a 4xx answer that is neither 403, 404 nor one that may pass.\<close>

fun IsRefused :: "'a reply \<Rightarrow> bool" where
  "IsRefused Missing = True" | "IsRefused Denied = True" | "IsRefused Refusal = True" | "IsRefused _ = False"

fun unreachable :: "'a reply \<Rightarrow> bool" where
  "unreachable Unresolved = True" | "unreachable r = IsRefused r"

datatype edit_answer = Edited bool | NodeNotFound | EditUnknown

record gh_issue =
  gi_Title :: string
  gi_Body :: string
  gi_State :: string
  gi_Labels :: "string list"

record issue_event =
  ev_ID :: int
  ev_Event :: string
  ev_CreatedAt :: time
  ev_Actor :: command_actor
  ev_Label :: string

record issue_comment =
  cm_ID :: int
  cm_NodeID :: string
  cm_Body :: string
  cm_UserLogin :: string
  cm_UserID :: int
  cm_UserType :: string
  cm_CreatedAt :: time

record found_pr =
  fp_Number :: int
  fp_URL :: string
  fp_NodeID :: string
  fp_HeadSHA :: string
  fp_Author :: string
  fp_Base :: string
  fp_HeadRepo :: string

record pr_view =
  pv_State :: string
  pv_Merged :: bool
  pv_MergedAt :: "time option"
  pv_MergeCommitSHA :: string
  pv_NodeID :: string
  pv_HeadSHA :: string

record config_map =
  cf_Name :: string
  cf_Owner :: string
  cf_Data :: "string \<Rightarrow> string"

record parsed_plan =
  pn_Summary :: string
  pn_Repositories :: "string list"
  pn_MaxTurns :: int
  pn_TokenBudget :: int

datatype plan_render = PlanShown | PlanUnshowable string | PlanRenderError string

datatype call =
    RemoveLabel string
  | CloseIssue bool
  | React int
  | PostComment string
  | CreateConfigMap config_map
  | CreateRun intent_run
  | EnsureRepository string string string
  | CreatePullRequest string string string

datatype call_answer = Accepted | NotThere | AlreadyExists | Refuses | Fails

datatype write_answer = Written | Conflicted | WriteFailed

record pull_request_reads =
  pq_default_branch :: "string \<Rightarrow> string reply"
  pq_head :: "string \<Rightarrow> string \<Rightarrow> string reply"
  pq_find :: "string \<Rightarrow> string \<Rightarrow> found_pr option reply"
  pq_get :: "string \<Rightarrow> int \<Rightarrow> pr_view reply"
  pq_created :: "string \<Rightarrow> found_pr"
  pq_resolved :: "string \<Rightarrow> string reply"
  pq_requirements :: "string \<Rightarrow> bool"

subsection \<open>The pass\<close>

record intent_memo =
  mm_polled :: "time option"
  mm_prPolled :: "time option"
  mm_blockedAt :: "int option"
  mm_departed :: "string \<Rightarrow> time option"
  mm_nudged :: bool

record pass =
  pp_in :: intent
  pp_calls :: "call list"
  pp_writes :: "intent list"
  pp_runs :: "intent_run list"
  pp_bot :: "string option"
  pp_polled :: bool
  pp_rates :: "string \<Rightarrow> bool option"
  pp_endingWaits :: bool
  pp_comments :: "(time \<times> issue_comment list) option"
  pp_own :: "string \<Rightarrow> issue_comment option"
  pp_pollNewest :: "issue_comment option"
  pp_deferred :: int
  pp_refused :: "int list"
  pp_memo :: intent_memo

datatype fault = ErrConflict | ErrPlanChanged | ErrRunNameTaken | ErrNotOwned | ErrIllegal | ErrPanic | ErrOther

datatype 'a outcome = Ok 'a | Raised fault

type_synonym 'a act = "pass \<Rightarrow> 'a outcome \<times> pass"

text \<open>
  The last fields are the handlers of \<open>intent_revise.go\<close>, \<open>intent_checks.go\<close>, \<open>preview_comments.go\<close>,
  \<open>intent_untracked.go\<close> and \<open>intent_status.go\<close> that a pass also runs: the review rounds and the notices and
  comments kept beside them.
\<close>

record intent_env =
  ie_now :: time
  ie_set :: intent_settings
  ie_proj :: project
  ie_harness :: string
  ie_images_enabled :: bool
  ie_breaker_tripped :: bool
  ie_class_known :: "string \<Rightarrow> bool"
  ie_lookup :: "cred_lookup option"
  ie_bot :: "string \<Rightarrow> string reply"
  ie_rate :: "string \<Rightarrow> int reply"
  ie_issue :: "gh_issue reply"
  ie_events :: "issue_event list reply"
  ie_comments :: "time \<Rightarrow> issue_comment list reply"
  ie_permission :: "string \<Rightarrow> string \<Rightarrow> permission_answer"
  ie_edited :: "string \<Rightarrow> edit_answer"
  ie_comment :: "int \<Rightarrow> issue_comment reply"
  ie_posted :: "nat \<Rightarrow> issue_comment"
  ie_config :: "string \<Rightarrow> config_map reply"
  ie_cached_config :: "string \<Rightarrow> config_map reply"
  ie_siblings :: "intent list reply"
  ie_runs :: "intent_run list reply"
  ie_existing_run :: "string \<Rightarrow> intent_run reply"
  ie_created_run :: "string \<Rightarrow> string \<times> time"
  ie_repository_owner :: "string \<Rightarrow> string reply"
  ie_cached_repository :: "string \<Rightarrow> string reply"
  ie_parse_plan :: "string \<Rightarrow> parsed_plan option"
  ie_plan_render :: "int \<Rightarrow> string \<Rightarrow> plan_render"
  ie_plan_same :: "string \<Rightarrow> bool option"
  ie_plan_context :: "string reply"
  ie_open_prs :: string
  ie_feedback_text :: "issue_comment list \<Rightarrow> string"
  ie_pr :: pull_request_reads
  ie_call :: "nat \<Rightarrow> call \<Rightarrow> call_answer"
  ie_write :: "nat \<Rightarrow> write_answer"
  ie_revise_children :: "intent_run \<Rightarrow> unit act"
  ie_round_records :: "bool act"
  ie_start_round :: "intent_pull_request list \<Rightarrow> bool act"
  ie_revising :: "bool act"
  ie_revise_branch_holds :: "string \<Rightarrow> bool act"
  ie_previews :: "(bool \<times> bool) act"
  ie_ended_notices :: "(bool \<times> bool) act"
  ie_untracked :: "(bool \<times> bool) act"
  ie_status_comment :: "unit act"

definition ret :: "'a \<Rightarrow> 'a act" where "ret x p = (Ok x, p)"
definition raise :: "fault \<Rightarrow> 'a act" where "raise e p = (Raised e, p)"

definition bnd :: "'a act \<Rightarrow> ('a \<Rightarrow> 'b act) \<Rightarrow> 'b act" where
  "bnd m k p = (case m p of (Ok x, q) \<Rightarrow> k x q | (Raised e, q) \<Rightarrow> (Raised e, q))"

definition with_pass :: "(pass \<Rightarrow> 'a act) \<Rightarrow> 'a act" where "with_pass k p = k p p"
definition with_in :: "(intent \<Rightarrow> 'a act) \<Rightarrow> 'a act" where "with_in k p = k (pp_in p) p"
definition touch :: "(pass \<Rightarrow> pass) \<Rightarrow> unit act" where "touch f p = (Ok (), f p)"

definition catch :: "'a act \<Rightarrow> (fault + 'a) act" where
  "catch m p = (case m p of (Ok x, q) \<Rightarrow> (Ok (Inr x), q) | (Raised f, q) \<Rightarrow> (Ok (Inl f), q))"

fun each :: "('a \<Rightarrow> unit act) \<Rightarrow> 'a list \<Rightarrow> unit act" where
  "each f [] = ret ()"
| "each f (x # xs) = bnd (f x) (\<lambda>_. each f xs)"

definition got :: "'a reply \<Rightarrow> 'a act" where
  "got r = (case r of Got x \<Rightarrow> ret x | _ \<Rightarrow> raise ErrOther)"

subsection \<open>Writes and calls\<close>

text \<open>A nil pointer the code would follow is a fault; the error of an illegal phase too.\<close>

definition deref :: "'a option \<Rightarrow> 'a act" where
  "deref x = (case x of Some v \<Rightarrow> ret v | None \<Rightarrow> raise ErrPanic)"

definition update :: "intent_env \<Rightarrow> (intent \<Rightarrow> intent option) \<Rightarrow> unit act" where
  "update e mutate p =
     (case mutate (pp_in p) of
        None \<Rightarrow> (Raised ErrIllegal, p)
      | Some c \<Rightarrow> (let cur = c\<lparr>is_ObservedGeneration := in_Generation c\<rparr> in
          case ie_write e (length (pp_writes p)) of
            Written \<Rightarrow> (Ok (), p\<lparr>pp_in := cur, pp_writes := pp_writes p @ [cur]\<rparr>)
          | Conflicted \<Rightarrow> (Raised ErrConflict, p)
          | WriteFailed \<Rightarrow> (Raised ErrOther, p)))"

definition setPhase :: "intent_env \<Rightarrow> intent_phase \<Rightarrow> (intent \<Rightarrow> intent) \<Rightarrow> unit act" where
  "setPhase e to mutate = update e (\<lambda>cur. SetIntentPhase (mutate cur) to (ie_now e))"

definition memo :: "(intent_memo \<Rightarrow> intent_memo) \<Rightarrow> unit act" where
  "memo f = touch (\<lambda>p. p\<lparr>pp_memo := f (pp_memo p)\<rparr>)"

definition attempt :: "intent_env \<Rightarrow> call \<Rightarrow> call_answer act" where
  "attempt e c p = (Ok (ie_call e (length (pp_calls p)) c), p\<lparr>pp_calls := pp_calls p @ [c]\<rparr>)"

definition must :: "intent_env \<Rightarrow> call \<Rightarrow> unit act" where
  "must e c = bnd (attempt e c) (\<lambda>a. if a = Accepted then ret () else raise ErrOther)"

definition setCondition :: "intent_ops \<Rightarrow> string \<Rightarrow> string \<Rightarrow> string \<Rightarrow> string \<Rightarrow> intent \<Rightarrow> intent" where
  "setCondition b typ st reason msg cur =
     cur\<lparr>is_Conditions := setStatusCondition (io_meta b) (is_Conditions cur)
        \<lparr>ctype = typ, cstatus = st, creason = reason, cmessage = msg, cgeneration = in_Generation cur\<rparr>\<rparr>"

definition condition_on :: "intent_ops \<Rightarrow> intent \<Rightarrow> string \<Rightarrow> condition option" where
  "condition_on b i typ =
     (case findStatusCondition (io_meta b) (is_Conditions i) typ of
        Some c \<Rightarrow> if cstatus c = ''True'' then Some c else None | None \<Rightarrow> None)"

subsection \<open>Whose account it is\<close>

definition readBot :: "intent_env \<Rightarrow> string act" where
  "readBot e = with_pass (\<lambda>p. case pp_bot p of
       Some l \<Rightarrow> ret l
     | None \<Rightarrow> bnd (got (ie_bot e (in_Repository (pp_in p)))) (\<lambda>l.
         bnd (touch (\<lambda>p. p\<lparr>pp_bot := Some l\<rparr>)) (\<lambda>_. ret l)))"

definition bot_of :: "pass \<Rightarrow> string" where
  "bot_of p = (case pp_bot p of Some l \<Rightarrow> l | None \<Rightarrow> [])"

definition isOwnLogin :: "intent_ops \<Rightarrow> pass \<Rightarrow> string \<Rightarrow> bool" where
  "isOwnLogin b p l \<longleftrightarrow> bot_of p \<noteq> [] \<and> EqualFold (io_text b) l (bot_of p)"

definition markerPrefix :: string where "markerPrefix = ''<!-- maul:''"

definition blank :: "char \<Rightarrow> bool" where
  "blank c \<longleftrightarrow> c = CHR '' '' \<or> byte c = 9 \<or> byte c = 13 \<or> byte c = 10"

definition markerOf :: "intent_ops \<Rightarrow> string \<Rightarrow> string" where
  "markerOf b body =
     (case cut_at (char_of (10 :: nat)) (dropWhile blank body) of (raw, _, _) \<Rightarrow>
        let line = trim_space (io_trim b) raw in
        if prefix markerPrefix line \<and> suffix ''-->'' line then line else [])"

definition isOwn :: "intent_ops \<Rightarrow> pass \<Rightarrow> issue_comment \<Rightarrow> bool" where
  "isOwn b p c \<longleftrightarrow>
     (if bot_of p = [] then markerOf b (cm_Body c) \<noteq> [] else EqualFold (io_text b) (cm_UserLogin c) (bot_of p))"

definition cm_Author :: "issue_comment \<Rightarrow> command_actor" where
  "cm_Author c = \<lparr>ca_Login = cm_UserLogin c, ca_ID = cm_UserID c, ca_Type = cm_UserType c\<rparr>"

definition Actor_IsBot :: "command_actor \<Rightarrow> bool" where "Actor_IsBot a \<longleftrightarrow> ca_Type a = ''Bot''"

definition isBotActor :: "intent_ops \<Rightarrow> command_actor \<Rightarrow> bool" where
  "isBotActor b a \<longleftrightarrow> Actor_IsBot a \<or> suffix ''[bot]'' (to_lower (io_lower b) (ca_Login a))"

definition refusedLocally :: "intent_ops \<Rightarrow> project \<Rightarrow> command_actor \<Rightarrow> bool" where
  "refusedLocally b proj a \<longleftrightarrow> isBotActor b a \<or> \<not> isApprover (io_text b) proj (ca_Login a)"

definition authorizeIn :: "intent_ops \<Rightarrow> intent_env \<Rightarrow> string \<Rightarrow> command_actor \<Rightarrow> (bool \<times> bool) act" where
  "authorizeIn b e repoURL a =
     (if isBotActor b a then ret (False, True)
      else if \<not> isApprover (io_text b) (ie_proj e) (ca_Login a) then ret (False, False)
      else case ie_permission e repoURL (ca_Login a) of
        NoSuchUser \<Rightarrow> ret (False, False)
      | PermissionForbidden \<Rightarrow> ret (False, False)
      | PermissionError \<Rightarrow> raise ErrOther
      | Permission perm \<Rightarrow> ret (CanWrite perm, False))"

definition authorize :: "intent_ops \<Rightarrow> intent_env \<Rightarrow> command_actor \<Rightarrow> (bool \<times> bool) act" where
  "authorize b e a = with_in (\<lambda>i. authorizeIn b e (in_Repository i) a)"

subsection \<open>Comments and notices\<close>

definition everEdited :: "intent_env \<Rightarrow> issue_comment \<Rightarrow> bool act" where
  "everEdited e c =
     (case ie_edited e (cm_NodeID c) of NodeNotFound \<Rightarrow> ret True | EditUnknown \<Rightarrow> raise ErrOther | Edited v \<Rightarrow> ret v)"

definition own_index :: "intent_ops \<Rightarrow> pass \<Rightarrow> issue_comment list \<Rightarrow> string \<Rightarrow> issue_comment option" where
  "own_index b p cs =
     fold (\<lambda>c own. if markerOf b (cm_Body c) \<noteq> [] \<and> isOwn b p c then own(markerOf b (cm_Body c) \<mapsto> c) else own) cs (\<lambda>_. None)"

definition listComments :: "intent_ops \<Rightarrow> intent_env \<Rightarrow> time \<Rightarrow> unit act" where
  "listComments b e since = with_pass (\<lambda>p.
     if (case pp_comments p of Some (from, _) \<Rightarrow> from \<le> since | None \<Rightarrow> False) then ret ()
     else bnd (readBot e) (\<lambda>_. bnd (got (ie_comments e since)) (\<lambda>cs.
       touch (\<lambda>p. p\<lparr>pp_comments := Some (since, cs), pp_own := own_index b p cs\<rparr>))))"

definition listed :: "pass \<Rightarrow> issue_comment list" where
  "listed p = (case pp_comments p of Some (_, cs) \<Rightarrow> cs | None \<Rightarrow> [])"

definition findOwn :: "intent_ops \<Rightarrow> intent_env \<Rightarrow> string \<Rightarrow> time \<Rightarrow> issue_comment option act" where
  "findOwn b e marker since =
     bnd (listComments b e since) (\<lambda>_. with_pass (\<lambda>p. ret (case pp_own p marker of
         Some c \<Rightarrow> if since \<le> cm_CreatedAt c then Some c else None | None \<Rightarrow> None)))"

definition postComment :: "intent_env \<Rightarrow> string \<Rightarrow> issue_comment act" where
  "postComment e marker = with_pass (\<lambda>p.
     bnd (must e (PostComment marker)) (\<lambda>_. ret (ie_posted e (length (pp_calls p)))))"

definition postOnce :: "intent_ops \<Rightarrow> intent_env \<Rightarrow> string \<Rightarrow> time \<Rightarrow> issue_comment act" where
  "postOnce b e marker since =
     bnd (findOwn b e marker since) (\<lambda>found. case found of
         Some c \<Rightarrow> ret c
       | None \<Rightarrow> bnd (postComment e marker) (\<lambda>c.
           bnd (touch (\<lambda>p. p\<lparr>pp_own := (pp_own p)(marker \<mapsto> c)\<rparr>)) (\<lambda>_. ret c)))"

definition notice :: "intent_ops \<Rightarrow> intent_env \<Rightarrow> string \<Rightarrow> time \<Rightarrow> unit act" where
  "notice b e key since = with_in (\<lambda>i.
     bnd (postOnce b e (io_marker b (in_Name i) key) since) (\<lambda>_. ret ()))"

definition hasOwnNotice :: "intent_ops \<Rightarrow> pass \<Rightarrow> string \<Rightarrow> bool" where
  "hasOwnNotice b p key \<longleftrightarrow> pp_own p (io_marker b (in_Name (pp_in p)) key) \<noteq> None"

definition hasLabel :: "intent_ops \<Rightarrow> gh_issue \<Rightarrow> string \<Rightarrow> bool" where
  "hasLabel b issue name \<longleftrightarrow> list_ex (\<lambda>l. EqualFold (io_text b) l name) (gi_Labels issue)"

definition trigger :: "intent_env \<Rightarrow> string" where "trigger e = ProjectTriggerLabel (ie_proj e)"

definition repo_key :: "intent_ops \<Rightarrow> string \<Rightarrow> string" where
  "repo_key b = normalizeRepoURL (io_lower b) (io_trim b)"

definition same_repo :: "intent_ops \<Rightarrow> string \<Rightarrow> string \<Rightarrow> bool" where
  "same_repo b = sameRepo (io_lower b) (io_trim b)"

text \<open>The rate floor of a repository, read once in a pass.\<close>

definition rateOK :: "intent_ops \<Rightarrow> intent_env \<Rightarrow> string \<Rightarrow> bool act" where
  "rateOK b e repoURL = with_pass (\<lambda>p. case pp_rates p (repo_key b repoURL) of
       Some ok \<Rightarrow> ret ok
     | None \<Rightarrow>
         let remember = (\<lambda>ok. bnd (touch (\<lambda>p. p\<lparr>pp_rates := (pp_rates p)(repo_key b repoURL \<mapsto> ok)\<rparr>)) (\<lambda>_. ret ok))
         in if st_RateLimitFloor (ie_set e) \<le> 0 then remember True
            else bnd (got (ie_rate e repoURL)) (\<lambda>remaining. remember (st_RateLimitFloor (ie_set e) \<le> remaining)))"

subsection \<open>The request's snapshot\<close>

record snapshot =
  sn_Title :: string
  sn_Body :: string
  sn_Repositories :: "string list"
  sn_Comments :: string

definition nl :: char where "nl = char_of (10 :: nat)"

definition oneLine :: "intent_ops \<Rightarrow> string \<Rightarrow> string" where
  "oneLine b s = join_with (CHR '' '') (io_fields b s)"

definition trim_newlines :: "string \<Rightarrow> string" where
  "trim_newlines s = rev (dropWhile (\<lambda>c. byte c = 13 \<or> byte c = 10) (rev s))"

definition render :: "intent_ops \<Rightarrow> snapshot \<Rightarrow> string" where
  "render b s =
     ''# '' @ oneLine b (sn_Title s) @ [nl, nl] @
     (if trim_newlines (sn_Body s) \<noteq> [] then trim_newlines (sn_Body s) @ [nl, nl] else []) @
     ''## Repositories'' @ [nl, nl] @
     ''The work may change only these repositories. Name each one the plan changes exactly as it is '' @
     ''listed here:'' @ [nl, nl] @
     concat (map (\<lambda>r. ''- '' @ r @ [nl]) (sn_Repositories s)) @
     (if sn_Comments s \<noteq> [] then nl # sn_Comments s else [])"

subsection \<open>Whom a run is for\<close>

definition lastTrigger :: "intent \<Rightarrow> intent_action" where
  "lastTrigger i =
     (case is_LastTrigger i of
        Some lt \<Rightarrow> lt
      | None \<Rightarrow> \<lparr>ia_Source = IntentActionLabel, ia_EventID = in_RequestedEventID i, ia_Login = in_RequestedLogin i,
                 ia_UserID = in_RequestedUserID i, ia_At = in_RequestedAt i\<rparr>)"

definition planTrigger :: "intent \<Rightarrow> intent_action" where
  "planTrigger i =
     (case is_Input i of
        Some inp \<Rightarrow> (case ii_Trigger inp of Some tr \<Rightarrow> tr | None \<Rightarrow> lastTrigger i)
      | None \<Rightarrow> lastTrigger i)"

definition attributeRun :: "intent_ops \<Rightarrow> intent_env \<Rightarrow> intent \<Rightarrow> intent_stage \<Rightarrow> attribution" where
  "attributeRun b e i stage =
     (if stage = StagePlan
      then (let lt = planTrigger i in
            if isApprover (io_text b) (ie_proj e) (ia_Login lt) then To (ia_Login lt) (ia_UserID lt) ReasonRequester else Org)
      else case is_Approval i of None \<Rightarrow> Org | Some ap \<Rightarrow> To (iap_By ap) (iap_ByID ap) ReasonApprover)"

definition branchName :: "string \<Rightarrow> string" where "branchName intent = IntentBranchPrefix @ intent"
definition inputConfigMapName :: "string \<Rightarrow> int \<Rightarrow> string" where
  "inputConfigMapName intent revision = intent @ ''-input-r'' @ show_int revision"
definition planConfigMapName :: "string \<Rightarrow> int \<Rightarrow> string" where
  "planConfigMapName intent revision = intent @ ''-plan-r'' @ show_int revision"
definition runInputName :: "string \<Rightarrow> string" where "runInputName run = run @ ''-input''"
definition runRepositoryName :: "string \<Rightarrow> string" where "runRepositoryName run = run @ ''-src''"

end
