(* ===== verification/IntentRuns.thy ===== *)
theory IntentRuns
  imports IntentPass Runs Cluster
begin

text \<open>
  The runs of an Intent (\<open>internal/controller/intent/intent_runs.go\<close>, the run parts of
  \<open>intent_blocked.go\<close>, \<open>credential_hold.go\<close> and \<open>resources.go\<close>): the runs of a round and what they
  count for, how the Intent blocks and fails, and the lease: a run is created under a name of its stage,
  round, repository key and attempt, or the one that holds the name is adopted if it is the same run.
\<close>

subsection \<open>Outcomes\<close>

definition OutcomeImageRequired :: string where "OutcomeImageRequired = ''image_required''"
definition OutcomeDependencyRefused :: string where "OutcomeDependencyRefused = ''dependency_refused''"
definition OutcomeHoldExpired :: string where "OutcomeHoldExpired = ''hold_expired''"
definition OutcomeHeadMoved :: string where "OutcomeHeadMoved = ''head_moved''"
definition OutcomeUnschedulable :: string where "OutcomeUnschedulable = ''unschedulable''"

definition sandboxRefused :: "intent_ops \<Rightarrow> intent_run \<Rightarrow> bool" where
  "sandboxRefused b r \<longleftrightarrow> isStatusConditionTrue (io_meta b) (ir_Conditions r) ''SandboxRefused''"

definition uncounted :: "intent_ops \<Rightarrow> intent_run \<Rightarrow> bool" where
  "uncounted b r \<longleftrightarrow> ir_Outcome r = OutcomeImageRequired \<or> ir_Outcome r = OutcomeHoldExpired \<or>
     ir_Outcome r = OutcomeHeadMoved \<or> ir_Outcome r = OutcomeUnschedulable \<or> sandboxRefused b r"

definition imageBlocked :: "intent_ops \<Rightarrow> intent_run \<Rightarrow> bool" where
  "imageBlocked b r \<longleftrightarrow> ir_Phase r = RunFailed \<and> ir_Outcome r \<noteq> OutcomeHoldExpired \<and>
     ir_Outcome r \<noteq> OutcomeUnschedulable \<and> uncounted b r"

definition resourcesBlocked :: "intent_run \<Rightarrow> bool" where
  "resourcesBlocked r \<longleftrightarrow> ir_Phase r = RunFailed \<and> ir_Outcome r = OutcomeUnschedulable"

subsection \<open>The runs of a round\<close>

definition anyRepository :: string where "anyRepository = []"

definition round_runs :: "intent_ops \<Rightarrow> intent_run list \<Rightarrow> intent_stage \<Rightarrow> int \<Rightarrow> string \<Rightarrow> intent_run list" where
  "round_runs b runs stage rnd repoURL =
     sort_key ir_Attempt (filter (\<lambda>r. ir_Stage r = stage \<and> ir_Round r = rnd \<and>
       (repoURL = anyRepository \<or> same_repo b (ir_URL r) repoURL)) runs)"

definition latest :: "intent_run list \<Rightarrow> intent_run option" where
  "latest rs = (if rs = [] then None else Some (last rs))"

definition next_attempt :: "intent_run list \<Rightarrow> int" where
  "next_attempt rs = (case latest rs of Some l \<Rightarrow> i32 (ir_Attempt l + 1) | None \<Rightarrow> 1)"

definition counted :: "intent_ops \<Rightarrow> (intent_run \<Rightarrow> bool) \<Rightarrow> intent_run list \<Rightarrow> int" where
  "counted b refused rs =
     int (length (filter (\<lambda>r. ir_Phase r = RunFailed \<and> \<not> uncounted b r \<or> ir_Phase r = RunComplete \<and> refused r) rs))"

definition spent :: "intent_ops \<Rightarrow> int \<Rightarrow> intent_run list \<Rightarrow> bool" where
  "spent b maxAttempts rs \<longleftrightarrow>
     (case latest rs of Some l \<Rightarrow> ir_Phase l = RunFailed \<and> ir_Outcome l = OutcomeDependencyRefused | None \<Rightarrow> False) \<or>
     maxAttempts \<le> counted b (\<lambda>_. False) rs"

text \<open>Why a completed plan cannot be offered for approval, empty when it can, and whether a notice says so.\<close>

definition planRefusal :: "intent_env \<Rightarrow> intent_run \<Rightarrow> string \<times> bool" where
  "planRefusal e r =
     (case ie_parse_plan e (ir_Report r) of
        None \<Rightarrow> (''the plan report does not parse'', False)
      | Some _ \<Rightarrow> (case ie_plan_render e (ir_Round r) (ir_Report r) of
          PlanShown \<Rightarrow> ([], False) | PlanUnshowable why \<Rightarrow> (why, True) | PlanRenderError why \<Rightarrow> (why, False)))"

definition planRefused :: "intent_env \<Rightarrow> intent_run \<Rightarrow> bool" where
  "planRefused e r \<longleftrightarrow> ir_Stage r = StagePlan \<and> ir_Phase r = RunComplete \<and> fst (planRefusal e r) \<noteq> []"

definition previousAttempt :: "intent_ops \<Rightarrow> intent_env \<Rightarrow> intent_run option \<Rightarrow> previous_attempt option" where
  "previousAttempt b e l =
     (case l of
        None \<Rightarrow> None
      | Some r \<Rightarrow>
          if ir_Phase r = RunFailed \<and> \<not> uncounted b r
          then PreviousAttempt (ir_Name r) (ir_Attempt r)
                 (Some \<lparr>sr_outcome = ir_Outcome r, sr_harness = [], sr_model = [], sr_detail = ir_Detail r\<rparr>)
          else if planRefused e r
          then PreviousAttempt (ir_Name r) (ir_Attempt r)
                 (Some \<lparr>sr_outcome = ''report_invalid'', sr_harness = [], sr_model = [],
                        sr_detail = ''the plan could not be offered for approval: '' @ fst (planRefusal e r)\<rparr>)
          else ir_PreviousAttempt r)"

subsection \<open>The Project's repositories\<close>

definition projectRepository :: "intent_ops \<Rightarrow> project \<Rightarrow> string \<Rightarrow> project_repository option" where
  "projectRepository b proj url = find (\<lambda>r. same_repo b url (pjr_URL r)) (pj_Repositories proj)"

definition leftProject :: "intent_ops \<Rightarrow> project \<Rightarrow> string \<Rightarrow> bool" where
  "leftProject b proj url \<longleftrightarrow> projectRepository b proj url = None"

definition add_repository :: "intent_ops \<Rightarrow> project_repository list \<Rightarrow> project_repository \<Rightarrow> project_repository list" where
  "add_repository b repos r = (if list_ex (\<lambda>q. same_repo b (pjr_URL q) (pjr_URL r)) repos then repos else repos @ [r])"

fun approved_from :: "intent_ops \<Rightarrow> project \<Rightarrow> string list \<Rightarrow> project_repository list \<Rightarrow> project_repository list option" where
  "approved_from b proj [] repos = (if repos = [] then None else Some repos)"
| "approved_from b proj (named # ns) repos =
     (case projectRepository b proj named of None \<Rightarrow> None | Some r \<Rightarrow> approved_from b proj ns (add_repository b repos r))"

text \<open>\<open>None\<close> is the code's \<open>gone\<close>.\<close>

definition approvedRepositories :: "intent_ops \<Rightarrow> project \<Rightarrow> intent \<Rightarrow> project_repository list option" where
  "approvedRepositories b proj i =
     (case is_Plan i of None \<Rightarrow> None | Some pl \<Rightarrow> approved_from b proj (pl_Repositories pl) [])"

definition approvedRepository :: "intent_ops \<Rightarrow> project \<Rightarrow> intent \<Rightarrow> string \<Rightarrow> project_repository option" where
  "approvedRepository b proj i url =
     (case is_Plan i of
        None \<Rightarrow> None
      | Some pl \<Rightarrow> if list_ex (\<lambda>named. same_repo b named url) (pl_Repositories pl) then projectRepository b proj url else None)"

definition recordedPullRequest :: "intent_ops \<Rightarrow> intent \<Rightarrow> string \<Rightarrow> intent_pull_request option" where
  "recordedPullRequest b i url = find (\<lambda>pr. same_repo b (ipr_Repository pr) url) (is_PullRequests i)"

subsection \<open>Blocking and failing\<close>

definition ConditionBudgetExhausted :: string where "ConditionBudgetExhausted = ''BudgetExhausted''"
definition ConditionRevisionLimitReached :: string where "ConditionRevisionLimitReached = ''RevisionLimitReached''"
definition ConditionImageRequired :: string where "ConditionImageRequired = ''ImageRequired''"
definition ConditionApprovalRejected :: string where "ConditionApprovalRejected = ''ApprovalRejected''"
definition ConditionChecksFailing :: string where "ConditionChecksFailing = ''ChecksFailing''"
definition ConditionBranchConflict :: string where "ConditionBranchConflict = ''BranchConflict''"
definition ConditionUnsupportedRepositories :: string where "ConditionUnsupportedRepositories = ''UnsupportedRepositories''"
definition ConditionResourcesUnavailable :: string where "ConditionResourcesUnavailable = ''ResourcesUnavailable''"
definition ConditionUntrackedPullRequests :: string where "ConditionUntrackedPullRequests = ''UntrackedPullRequests''"
definition CredentialRequired :: string where "CredentialRequired = ''CredentialRequired''"

definition set_active :: "(string \<times> string) option \<Rightarrow> intent \<Rightarrow> intent" where
  "set_active a i = i\<lparr>is_ActiveRun := a\<rparr>"

definition block :: "intent_ops \<Rightarrow> intent_env \<Rightarrow> string \<Rightarrow> string \<Rightarrow> unit act" where
  "block b e typ reason =
     bnd (setPhase e IntentBlocked (\<lambda>cur. set_active None (setCondition b typ ''True'' reason (io_words b reason) cur)))
       (\<lambda>_. memo (\<lambda>m. m\<lparr>mm_blockedAt := Some (pj_Generation (ie_proj e))\<rparr>))"

definition fail :: "intent_env \<Rightarrow> unit act" where
  "fail e = bnd (must e (RemoveLabel (trigger e))) (\<lambda>_. setPhase e IntentFailed (set_active None))"

definition ReasonRepositoryKeyChanged :: string where "ReasonRepositoryKeyChanged = ''RepositoryKeyChanged''"
definition ReasonUnschedulable :: string where "ReasonUnschedulable = ''Unschedulable''"
definition ReasonUnknownResourceClass :: string where "ReasonUnknownResourceClass = ''UnknownResourceClass''"

definition blockKeyChanged :: "intent_ops \<Rightarrow> intent_env \<Rightarrow> unit act" where
  "blockKeyChanged b e = block b e ConditionUnsupportedRepositories ReasonRepositoryKeyChanged"

definition blockUnschedulable :: "intent_ops \<Rightarrow> intent_env \<Rightarrow> intent_run \<Rightarrow> unit act" where
  "blockUnschedulable b e r = block b e ConditionResourcesUnavailable ReasonUnschedulable"

definition unsupportedFor :: "intent_ops \<Rightarrow> intent \<Rightarrow> string \<Rightarrow> bool" where
  "unsupportedFor b i reason \<longleftrightarrow>
     (case condition_on b i ConditionUnsupportedRepositories of Some c \<Rightarrow> creason c = reason | None \<Rightarrow> False)"

subsection \<open>Resource classes\<close>

definition classOf :: "intent_ops \<Rightarrow> project \<Rightarrow> intent_run \<Rightarrow> string" where
  "classOf b proj r =
     (if ir_Stage r = StagePlan then []
      else case find (\<lambda>q. same_repo b (pjr_URL q) (ir_URL r)) (pj_Repositories proj) of Some q \<Rightarrow> pjr_Class q | None \<Rightarrow> [])"

definition waitsOnClass :: "intent_ops \<Rightarrow> intent_env \<Rightarrow> intent_run \<Rightarrow> bool" where
  "waitsOnClass b e r \<longleftrightarrow> \<not> ir_JobRef r \<and> ir_Phase r \<noteq> RunComplete \<and> ir_Phase r \<noteq> RunFailed \<and> \<not> ir_Deleting r \<and>
     classOf b (ie_proj e) r \<noteq> [] \<and> \<not> ie_class_known e (classOf b (ie_proj e) r)"

definition classWait :: "intent_ops \<Rightarrow> intent_env \<Rightarrow> intent_run list \<Rightarrow> intent_run option" where
  "classWait b e runs = find (waitsOnClass b e) runs"

definition blockOnClass :: "intent_ops \<Rightarrow> intent_env \<Rightarrow> intent_run list \<Rightarrow> bool act" where
  "blockOnClass b e runs =
     (case classWait b e runs of
        None \<Rightarrow> ret False
      | Some _ \<Rightarrow> bnd (block b e ConditionResourcesUnavailable ReasonUnknownResourceClass) (\<lambda>_. ret True))"

subsection \<open>Credentials\<close>

definition credentialProvider :: "intent_env \<Rightarrow> string option" where
  "credentialProvider e =
     (if pj_Codex (ie_proj e) then ProviderFor HarnessCodex
      else ProviderFor (if ie_harness e = [] then HarnessClaude else ie_harness e))"

definition checkCredential :: "intent_ops \<Rightarrow> intent_env \<Rightarrow> attribution option \<Rightarrow> verdict act" where
  "checkCredential b e a =
     (case credentialProvider e of
        None \<Rightarrow> ret no_verdict
      | Some provider \<Rightarrow> (case Check (io_sha b) (st_UserCredentials (ie_set e)) provider a (ie_lookup e) of
          Inl _ \<Rightarrow> raise ErrOther | Inr v \<Rightarrow> ret v))"

definition intentHoldForCredential :: "intent_ops \<Rightarrow> intent_env \<Rightarrow> attribution option \<Rightarrow> bool \<Rightarrow> bool act" where
  "intentHoldForCredential b e a reapprove =
     bnd (checkCredential b e a) (\<lambda>v.
       if \<not> v_hold v then ret False
       else bnd (setPhase e IntentBlocked (\<lambda>cur. set_active None
              ((setCondition b CredentialRequired ''True'' (v_reason v) (Message v (st_AccountURL (ie_set e)) reapprove) cur)
                 \<lparr>is_CredentialHold := v_user v\<rparr>))) (\<lambda>_. ret True))"

subsection \<open>May a run be created\<close>

definition mayLaunch :: "intent_ops \<Rightarrow> intent_env \<Rightarrow> (bool \<times> bool) act" where
  "mayLaunch b e =
     (if pj_Suspend (ie_proj e) then ret (False, False)
      else with_in (\<lambda>i. if maxCostMicroUSD (ie_proj e) \<le> iu_Cost (is_Usage i)
        then bnd (block b e ConditionBudgetExhausted ''CostCeilingReached'') (\<lambda>_. ret (False, True))
        else ret (True, False)))"

subsection \<open>The lease\<close>

definition new_run :: "intent_ops \<Rightarrow> intent_env \<Rightarrow> intent \<Rightarrow> intent_input \<Rightarrow> intent_approval option \<Rightarrow> intent_stage \<Rightarrow>
    project_repository \<Rightarrow> int \<Rightarrow> int \<Rightarrow> previous_attempt option \<Rightarrow> intent_run" where
  "new_run b e i inp ap stage repo rnd n prev =
     (let name = IntentRunName (in_Name i) stage rnd (pjr_Name repo) n;
          attributed = Stamp (st_Attribution (ie_set e)) (Some (attributeRun b e i stage))
      in \<lparr>ir_Name = name, ir_UID = fst (ie_created_run e name), ir_Created = snd (ie_created_run e name), ir_Deleting = False,
          ir_IntentUID = in_UID i, ir_Stage = stage, ir_URL = pjr_URL repo, ir_RepositoryRef = runRepositoryName name,
          ir_Trees = (if stage = StagePlan
            then map (\<lambda>tree. (pjr_Name tree, pjr_URL tree, IntentRunTreeRepositoryName name (pjr_Name tree))) (tl (pj_Repositories (ie_proj e)))
            else []),
          ir_Round = rnd, ir_Attempt = n, ir_Trigger = NoRoundTrigger, ir_InputConfigMap = runInputName name,
          ir_InputDigest = (case ap of Some a \<Rightarrow> iap_InputDigest a | None \<Rightarrow> ii_Digest inp),
          ir_ContextDigest = (if stage = StagePlan then ii_ContextDigest inp else []),
          ir_PlanRevision = (case ap of Some a \<Rightarrow> iap_PlanRevision a | None \<Rightarrow> 0),
          ir_PlanDigest = (case ap of Some a \<Rightarrow> iap_PlanDigest a | None \<Rightarrow> []),
          ir_Grant = grant (ie_set e) (ie_proj e) stage, ir_PreviousAttempt = prev, ir_AttributedTo = attributed,
          ir_Finalizers = Finalizers attributed [FinalizerJobs], ir_Codex = pj_Codex (ie_proj e), ir_Phase = RunUnset,
          ir_Outcome = [], ir_Detail = [], ir_Report = [], ir_Conditions = [], ir_PushedCommit = [],
          ir_Usage = \<lparr>ru_CostUSD = [], ru_Input = 0, ru_Output = 0, ru_CacheRead = 0, ru_CacheCreation = 0\<rparr>,
          ir_JobRef = False, ir_FinishedAt = None\<rparr>)"

definition same_lease :: "intent_ops \<Rightarrow> intent_run \<Rightarrow> intent_run \<Rightarrow> bool" where
  "same_lease b r old \<longleftrightarrow> ir_Stage old = ir_Stage r \<and> ir_Round old = ir_Round r \<and> ir_Attempt old = ir_Attempt r \<and>
     (ir_Stage r = StageBuild \<longrightarrow> same_repo b (ir_URL old) (ir_URL r))"

definition createRun :: "intent_ops \<Rightarrow> intent_env \<Rightarrow> intent_stage \<Rightarrow> project_repository \<Rightarrow> int \<Rightarrow> int \<Rightarrow> previous_attempt option \<Rightarrow> intent_run act" where
  "createRun b e stage repo rnd n prev = with_in (\<lambda>i.
     bnd (deref (is_Input i)) (\<lambda>inp.
     bnd (if stage = StageBuild then bnd (deref (is_Approval i)) (\<lambda>a. ret (Some a)) else ret None) (\<lambda>ap.
       let r = new_run b e i inp ap stage repo rnd n prev in
       bnd (attempt e (CreateRun r)) (\<lambda>a.
         if a = Accepted then bnd (touch (\<lambda>p. p\<lparr>pp_runs := pp_runs p @ [r]\<rparr>)) (\<lambda>_. ret r)
         else if a \<noteq> AlreadyExists then raise ErrOther
         else bnd (got (ie_existing_run e (ir_Name r))) (\<lambda>old.
           if ir_IntentUID old \<noteq> in_UID i then raise ErrNotOwned
           else if \<not> same_lease b r old then raise ErrRunNameTaken
           else ret old)))))"

subsection \<open>What a run is handed\<close>

definition ensureConfigMap :: "intent_env \<Rightarrow> config_map \<Rightarrow> string \<Rightarrow> config_map act" where
  "ensureConfigMap e cm owner =
     bnd (attempt e (CreateConfigMap cm)) (\<lambda>a.
       if a = Accepted then ret cm
       else if a \<noteq> AlreadyExists then raise ErrOther
       else bnd (got (ie_config e (cf_Name cm))) (\<lambda>old. if cf_Owner old \<noteq> owner then raise ErrNotOwned else ret old))"

definition planBytes :: "intent_ops \<Rightarrow> intent_env \<Rightarrow> intent_plan \<Rightarrow> string act" where
  "planBytes b e pl =
     bnd (got (ie_config e (pl_ConfigMap pl))) (\<lambda>cm.
       if io_digest b (cf_Data cm ''plan.md'') \<noteq> pl_Digest pl then raise ErrPlanChanged else ret (cf_Data cm ''plan.md''))"

text \<open>Only plan and build runs are handed their input here; a revise run's is the round's own.\<close>

definition runInput :: "intent_ops \<Rightarrow> intent_env \<Rightarrow> intent_run \<Rightarrow> (string \<Rightarrow> string) act" where
  "runInput b e r = with_in (\<lambda>i.
     if ir_Stage r = StagePlan
     then bnd (deref (is_Input i)) (\<lambda>inp. bnd (got (ie_config e (ii_ConfigMap inp))) (\<lambda>cm.
       if io_digest b (cf_Data cm ''issue.md'') \<noteq> ir_InputDigest r then raise ErrOther
       else if ir_ContextDigest r \<noteq> [] \<and> io_digest b (cf_Data cm ''context.md'') \<noteq> ir_ContextDigest r then raise ErrOther
       else ret ((\<lambda>_. [])(''issue.md'' := cf_Data cm ''issue.md'',
              ''investigation.md'' := (if ir_ContextDigest r \<noteq> [] then cf_Data cm ''context.md'' else []),
              ''open-pull-requests.json'' := ie_open_prs e))))
     else (case is_Plan i of
        None \<Rightarrow> raise ErrPlanChanged
      | Some pl \<Rightarrow>
          if pl_Revision pl \<noteq> ir_PlanRevision r \<or> pl_Digest pl \<noteq> ir_PlanDigest r then raise ErrPlanChanged
          else bnd (planBytes b e pl) (\<lambda>raw. ret ((\<lambda>_. [])(''issue.md'' := [], ''investigation.md'' := raw)))))"

definition ensureRunRepository :: "intent_env \<Rightarrow> intent_run \<Rightarrow> string \<Rightarrow> string \<Rightarrow> unit act" where
  "ensureRunRepository e r name url =
     (case ie_cached_repository e name of
        Got owner \<Rightarrow> if owner \<noteq> ir_UID r then raise ErrNotOwned else ret ()
      | Missing \<Rightarrow> bnd (attempt e (EnsureRepository (ir_Name r) name url)) (\<lambda>a.
          if a = Accepted then ret ()
          else if a \<noteq> AlreadyExists then raise ErrOther
          else bnd (got (ie_repository_owner e name)) (\<lambda>owner. if owner \<noteq> ir_UID r then raise ErrNotOwned else ret ()))
      | _ \<Rightarrow> raise ErrOther)"

definition ensureRunChildren :: "intent_ops \<Rightarrow> intent_env \<Rightarrow> intent_run \<Rightarrow> unit act" where
  "ensureRunChildren b e r =
     (if ir_Stage r = StageRevise then ie_revise_children e r
      else bnd (case ie_cached_config e (ir_InputConfigMap r) of
             Got cm \<Rightarrow> if cf_Owner cm \<noteq> ir_UID r then raise ErrNotOwned else ret ()
           | Missing \<Rightarrow> bnd (runInput b e r) (\<lambda>d.
               bnd (ensureConfigMap e \<lparr>cf_Name = ir_InputConfigMap r, cf_Owner = ir_UID r, cf_Data = d\<rparr> (ir_UID r)) (\<lambda>_. ret ()))
           | _ \<Rightarrow> raise ErrOther)
         (\<lambda>_. bnd (ensureRunRepository e r (ir_RepositoryRef r) (ir_URL r))
         (\<lambda>_. each (\<lambda>tree. ensureRunRepository e r (snd (snd tree)) (fst (snd tree))) (ir_Trees r))))"

definition is_active :: "intent \<Rightarrow> intent_run \<Rightarrow> bool" where
  "is_active i r \<longleftrightarrow> is_ActiveRun i = Some (ir_Name r, ir_UID r)"

definition ensureActive :: "intent_ops \<Rightarrow> intent_env \<Rightarrow> intent_run \<Rightarrow> bool act" where
  "ensureActive b e r =
     (if ir_Phase r = RunComplete \<or> ir_Phase r = RunFailed then ret False
      else bnd (catch (ensureRunChildren b e r)) (\<lambda>x. case x of
          Inl f \<Rightarrow> if f = ErrPlanChanged then bnd (fail e) (\<lambda>_. ret True) else raise f
        | Inr _ \<Rightarrow> with_in (\<lambda>i.
            if is_active i r then ret False
            else bnd (update e (\<lambda>cur. Some (set_active (Some (ir_Name r, ir_UID r)) cur))) (\<lambda>_. ret True))))"

subsection \<open>Launching\<close>

definition stamped :: "intent_ops \<Rightarrow> intent_env \<Rightarrow> intent \<Rightarrow> intent_stage \<Rightarrow> attribution option" where
  "stamped b e i stage = Stamp (st_Attribution (ie_set e)) (Some (attributeRun b e i stage))"

definition planning_repository :: "intent_env \<Rightarrow> project_repository act" where
  "planning_repository e = (case pj_Repositories (ie_proj e) of [] \<Rightarrow> raise ErrPanic | r # _ \<Rightarrow> ret r)"

definition launchPlan :: "intent_ops \<Rightarrow> intent_env \<Rightarrow> int \<Rightarrow> int \<Rightarrow> previous_attempt option \<Rightarrow> bool act" where
  "launchPlan b e rnd n prev =
     bnd (mayLaunch b e) (\<lambda>(ok, stop).
       if \<not> ok then ret stop
       else if MaxIntentRunAttempt < n then bnd (fail e) (\<lambda>_. ret True)
       else with_in (\<lambda>i. bnd (intentHoldForCredential b e (stamped b e i StagePlan) False) (\<lambda>held.
         if held then ret True
         else bnd (planning_repository e) (\<lambda>repo.
           bnd (createRun b e StagePlan repo rnd n prev) (ensureActive b e)))))"

text \<open>The branch of the Intent in a repository: absent, the round's own, an earlier round's, or anyone's.\<close>

definition branchConflict :: "intent_ops \<Rightarrow> intent_env \<Rightarrow> string \<Rightarrow> int \<Rightarrow> (string \<times> intent_run option) act" where
  "branchConflict b e repoURL rnd = with_pass (\<lambda>p.
     case pq_head (ie_pr e) repoURL (branchName (in_Name (pp_in p))) of
       Missing \<Rightarrow> ret ([], None)
     | Got head \<Rightarrow>
         let pushed = (\<lambda>r. ir_PushedCommit r \<noteq> [] \<and> ir_PushedCommit r = head) in
         if list_ex pushed (round_runs b (pp_runs p) StageBuild rnd repoURL) then ret ([], None)
         else ret (head, find pushed (pp_runs p))
     | _ \<Rightarrow> raise ErrOther)"

definition blockOnBranch :: "intent_ops \<Rightarrow> intent_env \<Rightarrow> int \<Rightarrow> project_repository \<Rightarrow> bool act" where
  "blockOnBranch b e rnd repo =
     bnd (branchConflict b e (pjr_URL repo) rnd) (\<lambda>(sha, stale).
       if sha = [] then ret False
       else bnd (block b e ConditionBranchConflict (if stale = None then ''BranchExists'' else ''StaleRoundBranch'')) (\<lambda>_. ret True))"

type_synonym build_launch = "project_repository \<times> int \<times> previous_attempt option"

fun block_on_any :: "intent_ops \<Rightarrow> intent_env \<Rightarrow> int \<Rightarrow> build_launch list \<Rightarrow> bool act" where
  "block_on_any b e rnd [] = ret False"
| "block_on_any b e rnd ((repo, _, _) # ls) =
     bnd (blockOnBranch b e rnd repo) (\<lambda>blocked. if blocked then ret True else block_on_any b e rnd ls)"

fun create_builds :: "intent_ops \<Rightarrow> intent_env \<Rightarrow> int \<Rightarrow> build_launch list \<Rightarrow> intent_run list act" where
  "create_builds b e rnd [] = ret []"
| "create_builds b e rnd ((repo, n, prev) # ls) =
     bnd (createRun b e StageBuild repo rnd n prev) (\<lambda>r. bnd (create_builds b e rnd ls) (\<lambda>rs. ret (r # rs)))"

definition launchBuilds :: "intent_ops \<Rightarrow> intent_env \<Rightarrow> int \<Rightarrow> build_launch list \<Rightarrow> (intent_run list \<times> bool) act" where
  "launchBuilds b e rnd ls =
     bnd (mayLaunch b e) (\<lambda>(ok, stop).
       if \<not> ok then ret ([], stop)
       else if list_ex (\<lambda>(_, n, _). MaxIntentRunAttempt < n) ls then bnd (fail e) (\<lambda>_. ret ([], True))
       else bnd (block_on_any b e rnd ls) (\<lambda>blocked.
         if blocked then ret ([], True)
         else with_in (\<lambda>i. bnd (intentHoldForCredential b e (stamped b e i StageBuild) True) (\<lambda>held.
           if held then ret ([], True)
           else bnd (create_builds b e rnd ls) (\<lambda>rs. ret (rs, False))))))"

end
