(* ===== verification/IntentPlan.thy ===== *)
theory IntentPlan
  imports IntentRuns
begin

text \<open>
  Planning (\<open>internal/controller/intent/intent_plan.go\<close>): the trigger that created the Intent decided, the
  request's snapshot taken at the next input revision, the plan round run until a plan can be offered, and
  the plan written back in two durable steps, its record and its posting. A plan report is parsed and
  rendered by \<open>internal/report\<close> and \<open>internal/templates\<close>, which the environment answers for.
\<close>

definition clockSkew :: duration where "clockSkew = 5 * nano_minute"
definition maxFeedbackItems :: nat where "maxFeedbackItems = 40"

subsection \<open>The snapshot\<close>

fun unedited :: "intent_env \<Rightarrow> issue_comment list \<Rightarrow> issue_comment list act" where
  "unedited e [] = ret []"
| "unedited e (c # cs) =
     bnd (everEdited e c) (\<lambda>edited. bnd (unedited e cs) (\<lambda>kept. ret (if edited then kept else c # kept)))"

definition feedbackSince :: "intent_ops \<Rightarrow> intent_env \<Rightarrow> time \<Rightarrow> issue_comment list act" where
  "feedbackSince b e since =
     bnd (listComments b e since) (\<lambda>_. with_pass (\<lambda>p.
       unedited e (keep_latest maxFeedbackItems (filter (\<lambda>c. since < cm_CreatedAt c \<and> \<not> isOwn b p c \<and>
         \<not> isOwnLogin b p (cm_UserLogin c) \<and> \<not> Actor_IsBot (cm_Author c) \<and>
         isApprover (io_text b) (ie_proj e) (cm_UserLogin c)) (listed p)))))"

definition ensureInputConfigMap :: "intent_ops \<Rightarrow> intent_env \<Rightarrow> int \<Rightarrow> snapshot \<Rightarrow> string \<Rightarrow> config_map act" where
  "ensureInputConfigMap b e revision snap planCtx = with_in (\<lambda>i.
     ensureConfigMap e
       \<lparr>cf_Name = inputConfigMapName (in_Name i) revision, cf_Owner = in_UID i,
        cf_Data = (\<lambda>_. [])(''issue.md'' := render b snap, ''title'' := sn_Title snap, ''body'' := sn_Body snap,
          ''repositories'' := join_with nl (sn_Repositories snap), ''comments'' := sn_Comments snap,
          ''context.md'' := planCtx)\<rparr> (in_UID i))"

definition inputSnapshot :: "intent_env \<Rightarrow> intent_input \<Rightarrow> snapshot option act" where
  "inputSnapshot e inp =
     (case ie_config e (ii_ConfigMap inp) of
        Missing \<Rightarrow> ret None
      | Got cm \<Rightarrow> ret (Some \<lparr>sn_Title = cf_Data cm ''title'', sn_Body = cf_Data cm ''body'',
          sn_Repositories = (if cf_Data cm ''repositories'' = [] then [] else split_on nl (cf_Data cm ''repositories'')),
          sn_Comments = cf_Data cm ''comments''\<rparr>)
      | _ \<Rightarrow> raise ErrOther)"

definition next_revision :: "intent \<Rightarrow> int" where
  "next_revision i = (case is_Input i of Some inp \<Rightarrow> i32 (ii_Revision inp + 1) | None \<Rightarrow> 1)"

text \<open>The comments a replan's snapshot carries: the approvers' since the plan it replaces was posted.\<close>

definition replan_comments :: "intent_ops \<Rightarrow> intent_env \<Rightarrow> intent \<Rightarrow> (string \<times> string) act" where
  "replan_comments b e i =
     bnd (got (ie_plan_context e)) (\<lambda>planCtx.
     bnd (feedbackSince b e (case is_Plan i of
            Some pl \<Rightarrow> (case pl_PostedAt pl of Some posted \<Rightarrow> posted | None \<Rightarrow> in_RequestedAt i) | None \<Rightarrow> in_RequestedAt i))
       (\<lambda>cs. ret (planCtx, ie_feedback_text e cs)))"

definition planning_status :: "intent_ops \<Rightarrow> intent_input \<Rightarrow> intent_action option \<Rightarrow> intent \<Rightarrow> intent" where
  "planning_status b inp trig cur =
     cur\<lparr>is_Input := Some inp, is_Plan := None, is_Approval := None, is_ActiveRun := None, is_PullRequests := [],
         is_Branch := [],
         is_Conditions := removeStatusCondition (io_meta b) (is_Conditions cur) ConditionUntrackedPullRequests,
         is_LastTrigger := (case trig of Some a \<Rightarrow> Some a | None \<Rightarrow> is_LastTrigger cur)\<rparr>"

definition startPlanning :: "intent_ops \<Rightarrow> intent_env \<Rightarrow> gh_issue option \<Rightarrow> intent_action option \<Rightarrow> unit act" where
  "startPlanning b e issue trig = with_in (\<lambda>i.
     bnd (case issue of Some x \<Rightarrow> ret x | None \<Rightarrow> got (ie_issue e)) (\<lambda>x.
     bnd (if trig = None then ret ([], []) else replan_comments b e i) (\<lambda>(planCtx, comments).
     if MaxIntentRound < next_revision i then raise ErrOther
     else bnd (ensureInputConfigMap b e (next_revision i)
                \<lparr>sn_Title = gi_Title x, sn_Body = gi_Body x, sn_Repositories = map pjr_URL (pj_Repositories (ie_proj e)),
                 sn_Comments = comments\<rparr> planCtx) (\<lambda>cm.
       setPhase e IntentPlanning (planning_status b
         \<lparr>ii_Revision = next_revision i, ii_Digest = io_digest b (cf_Data cm ''issue.md''), ii_ConfigMap = cf_Name cm,
          ii_ContextDigest = (if cf_Data cm ''context.md'' = [] then [] else io_digest b (cf_Data cm ''context.md'')),
          ii_Trigger = Some (case trig of Some a \<Rightarrow> a | None \<Rightarrow> lastTrigger i)\<rparr> trig)))))"

subsection \<open>Pending\<close>

definition event_key :: "int \<Rightarrow> string" where "event_key n = ''event-'' @ show_int n"

definition pending :: "intent_ops \<Rightarrow> intent_env \<Rightarrow> bool act" where
  "pending b e = with_in (\<lambda>i.
     bnd (readBot e) (\<lambda>_. with_pass (\<lambda>p.
       let actor = \<lparr>ca_Login = in_RequestedLogin i, ca_ID = 0,
                    ca_Type = (if isOwnLogin b p (in_RequestedLogin i) then ''Bot'' else [])\<rparr>
       in bnd (authorize b e actor) (\<lambda>(ok, _).
         if ok then bnd (startPlanning b e None None) (\<lambda>_. ret True)
         else bnd (must e (RemoveLabel (trigger e))) (\<lambda>_.
              bnd (notice b e (event_key (in_RequestedEventID i)) (in_RequestedAt i)) (\<lambda>_.
              bnd (setPhase e IntentClosed id) (\<lambda>_. ret True)))))))"

subsection \<open>The plan round\<close>

definition parsed :: "parsed_plan option \<Rightarrow> parsed_plan act" where
  "parsed r = (case r of Some pn \<Rightarrow> ret pn | None \<Rightarrow> raise ErrOther)"

text \<open>The record of the plan: its bytes are stored first, and the digest is the stored bytes'.\<close>

definition record_plan :: "intent_ops \<Rightarrow> intent_env \<Rightarrow> intent_run \<Rightarrow> unit act" where
  "record_plan b e r = with_in (\<lambda>i.
     bnd (parsed (ie_parse_plan e (ir_Report r))) (\<lambda>pn.
     bnd (ensureConfigMap e \<lparr>cf_Name = planConfigMapName (in_Name i) (ir_Round r), cf_Owner = in_UID i,
            cf_Data = (\<lambda>_. [])(''plan.md'' := ir_Report r)\<rparr> (in_UID i)) (\<lambda>cm.
       update e (\<lambda>cur. Some (cur\<lparr>is_Plan := Some
         \<lparr>pl_Revision = ir_Round r, pl_Digest = io_digest b (cf_Data cm ''plan.md''), pl_ConfigMap = cf_Name cm,
          pl_CommentID = 0, pl_CommentDigest = [], pl_PostedAt = None, pl_Summary = pn_Summary pn,
          pl_Repositories = pn_Repositories pn\<rparr>\<rparr>)))))"

definition estimateNotice :: "intent_ops \<Rightarrow> intent_env \<Rightarrow> int \<Rightarrow> string \<Rightarrow> time \<Rightarrow> unit act" where
  "estimateNotice b e rnd raw since =
     bnd (parsed (ie_parse_plan e raw)) (\<lambda>pn.
       let g = grant (ie_set e) (ie_proj e) StageBuild in
       if pn_MaxTurns pn \<le> rg_MaxTurns g \<and> pn_TokenBudget pn \<le> rg_TokenBudget g then ret ()
       else notice b e (''estimate-r'' @ show_int rnd) since)"

definition posted_status :: "intent_ops \<Rightarrow> issue_comment \<Rightarrow> intent \<Rightarrow> intent" where
  "posted_status b c cur =
     cur\<lparr>is_Plan := map_option (\<lambda>pl. pl\<lparr>pl_CommentID := cm_ID c, pl_CommentDigest := io_digest b (cm_Body c),
           pl_PostedAt := Some (cm_CreatedAt c)\<rparr>) (is_Plan cur),
         is_ActiveRun := None\<rparr>"

definition plan_changed :: "intent_env \<Rightarrow> issue_comment option \<Rightarrow> bool act" where
  "plan_changed e found =
     (case found of
        None \<Rightarrow> ret True
      | Some c \<Rightarrow> (case ie_plan_same e (cm_Body c) of
          None \<Rightarrow> raise ErrOther | Some same \<Rightarrow> if \<not> same then ret True else everEdited e c))"

definition post_plan :: "intent_ops \<Rightarrow> intent_env \<Rightarrow> string \<Rightarrow> intent_plan \<Rightarrow> int \<Rightarrow> unit act" where
  "post_plan b e marker pl rnd = with_in (\<lambda>i.
     bnd (planBytes b e pl) (\<lambda>raw.
     case (ie_parse_plan e raw, ie_plan_render e rnd raw) of
       (Some _, PlanShown) \<Rightarrow>
         (let since = enteredAt i - clockSkew in
          bnd (findOwn b e marker since) (\<lambda>found. bnd (plan_changed e found) (\<lambda>changed.
          bnd (if changed
               then bnd (must e (RemoveLabel (approveLabel (ie_proj e)))) (\<lambda>_.
                    bnd (estimateNotice b e rnd raw since) (\<lambda>_. postComment e marker))
               else deref found) (\<lambda>c. setPhase e IntentAwaitingApproval (posted_status b c)))))
     | _ \<Rightarrow> raise ErrOther))"

definition writeBack :: "intent_ops \<Rightarrow> intent_env \<Rightarrow> intent_run \<Rightarrow> bool act" where
  "writeBack b e r = with_in (\<lambda>i.
     case is_Plan i of
       None \<Rightarrow> bnd (record_plan b e r) (\<lambda>_. ret True)
     | Some pl \<Rightarrow>
         if pl_Revision pl \<noteq> ir_Round r then bnd (record_plan b e r) (\<lambda>_. ret True)
         else bnd (post_plan b e (io_plan_marker b (in_Name i) (ir_Round r) (pl_Digest pl)) pl (ir_Round r)) (\<lambda>_. ret True))"

definition retry_plan :: "intent_ops \<Rightarrow> intent_env \<Rightarrow> int \<Rightarrow> intent_run list \<Rightarrow> intent_run option \<Rightarrow> bool act" where
  "retry_plan b e rnd rs l =
     (if st_MaxAttempts (ie_set e) \<le> counted b (planRefused e) rs then bnd (fail e) (\<lambda>_. ret True)
      else launchPlan b e rnd (next_attempt rs) (previousAttempt b e l))"

definition planning :: "intent_ops \<Rightarrow> intent_env \<Rightarrow> bool act" where
  "planning b e = with_pass (\<lambda>p.
     bnd (deref (is_Input (pp_in p))) (\<lambda>inp.
     let rnd = ii_Revision inp; rs = round_runs b (pp_runs p) StagePlan rnd anyRepository in
     case latest rs of
       None \<Rightarrow> launchPlan b e rnd 1 None
     | Some l \<Rightarrow>
         if ir_Phase l = RunComplete then
           (case planRefusal e l of (why, noticed) \<Rightarrow>
              if why = [] then writeBack b e l
              else bnd (if noticed then notice b e (''plan-r'' @ show_int rnd) (ir_Created l - clockSkew) else ret ())
                     (\<lambda>_. retry_plan b e rnd rs (Some l)))
         else if ir_Phase l = RunFailed then
           (if resourcesBlocked l then
              (if MaxIntentRunAttempt < next_attempt rs then bnd (fail e) (\<lambda>_. ret True)
               else bnd (blockUnschedulable b e l) (\<lambda>_. ret True))
            else retry_plan b e rnd rs (Some l))
         else ensureActive b e l))"

end
