(* ===== verification/IntentBuild.thy ===== *)
theory IntentBuild
  imports IntentPlan
begin

text \<open>
  Building and the endings (\<open>internal/controller/intent/intent_build.go\<close>): one build per approved repository,
  the pull requests opened one in a pass once every build is complete, the recorded ones read, and the
  Intent ended when all of them have settled. Starting a review round, and the records kept beside the
  pull requests, are handlers of the environment.
\<close>

subsection \<open>The build round\<close>

definition imageReason :: "intent_ops \<Rightarrow> intent_run \<Rightarrow> string" where
  "imageReason b r =
     (if sandboxRefused b r then ''SandboxBreakerTripped''
      else if prefix ''repository images are disabled'' (ir_Detail r) then ''RepositoryImagesDisabled''
      else if prefix ''the sandbox breaker is tripped'' (ir_Detail r) then ''SandboxBreakerTripped''
      else if prefix ''the repository's runner-image declaration was rejected'' (ir_Detail r) then ''RepositoryImageRejected''
      else if prefix ''the repository declares no runner image maul can use'' (ir_Detail r) then ''NoRepositoryImage''
      else ''DefaultImageRan'')"

definition blockBuild :: "intent_ops \<Rightarrow> intent_env \<Rightarrow> intent_run \<Rightarrow> unit act" where
  "blockBuild b e r =
     (if resourcesBlocked r then blockUnschedulable b e r else block b e ConditionImageRequired (imageReason b r))"

text \<open>What the build round's repositories call for, read in the plan's order.\<close>

record build_round =
  br_launches :: "build_launch list"
  br_inFlight :: "intent_run list"
  br_blocked :: "intent_run option"
  br_complete :: nat

datatype round_verdict = RoundFails | RoundGoes build_round

definition no_builds :: build_round where
  "no_builds = \<lparr>br_launches = [], br_inFlight = [], br_blocked = None, br_complete = 0\<rparr>"

fun read_builds :: "intent_ops \<Rightarrow> intent_env \<Rightarrow> intent_run list \<Rightarrow> int \<Rightarrow> project_repository list \<Rightarrow> build_round \<Rightarrow> round_verdict" where
  "read_builds b e runs rnd [] br = RoundGoes br"
| "read_builds b e runs rnd (repo # repos) br =
     (let rs = round_runs b runs StageBuild rnd (pjr_URL repo) in
      case latest rs of
        None \<Rightarrow> read_builds b e runs rnd repos (br\<lparr>br_launches := br_launches br @ [(repo, 1, None)]\<rparr>)
      | Some l \<Rightarrow>
          if ir_Phase l = RunComplete then read_builds b e runs rnd repos (br\<lparr>br_complete := Suc (br_complete br)\<rparr>)
          else if ir_Phase l \<noteq> RunFailed then read_builds b e runs rnd repos (br\<lparr>br_inFlight := br_inFlight br @ [l]\<rparr>)
          else if imageBlocked b l \<or> resourcesBlocked l then
            (if MaxIntentRunAttempt < next_attempt rs then RoundFails
             else read_builds b e runs rnd repos
                    (br\<lparr>br_blocked := (case br_blocked br of Some r \<Rightarrow> Some r | None \<Rightarrow> Some l)\<rparr>))
          else if spent b (st_MaxAttempts (ie_set e)) rs then RoundFails
          else read_builds b e runs rnd repos
                 (br\<lparr>br_launches := br_launches br @ [(repo, next_attempt rs, previousAttempt b e (Some l))]\<rparr>))"

definition ensureBuilds :: "intent_ops \<Rightarrow> intent_env \<Rightarrow> intent_run list \<Rightarrow> bool act" where
  "ensureBuilds b e runs =
     bnd (catch (each (ensureRunChildren b e) runs)) (\<lambda>x. case x of
         Inl f \<Rightarrow> if f = ErrPlanChanged then bnd (fail e) (\<lambda>_. ret True) else raise f
       | Inr _ \<Rightarrow> with_in (\<lambda>i. case runs of
           [] \<Rightarrow> ret False
         | r # _ \<Rightarrow> if list_ex (is_active i) runs then ret False
             else bnd (update e (\<lambda>cur. Some (set_active (Some (ir_Name r, ir_UID r)) cur))) (\<lambda>_. ret True)))"

subsection \<open>Opening the pull requests\<close>

fun upsertPullRequest :: "intent_ops \<Rightarrow> intent_pull_request list \<Rightarrow> intent_pull_request \<Rightarrow> intent_pull_request list" where
  "upsertPullRequest b [] rec = [rec]"
| "upsertPullRequest b (pr # prs) rec =
     (if same_repo b (ipr_Repository pr) (ipr_Repository rec) then rec # prs else pr # upsertPullRequest b prs rec)"

definition everyRecorded :: "intent_ops \<Rightarrow> intent_pull_request list \<Rightarrow> project_repository list \<Rightarrow> bool" where
  "everyRecorded b prs repos \<longleftrightarrow>
     list_all (\<lambda>repo. list_ex (\<lambda>pr. same_repo b (ipr_Repository pr) (pjr_URL repo)) prs) repos"

definition ownPullRequest :: "intent_ops \<Rightarrow> intent_env \<Rightarrow> string \<Rightarrow> found_pr \<Rightarrow> string \<Rightarrow> bool act" where
  "ownPullRequest b e repoURL pr base =
     (if fp_Base pr \<noteq> base \<or> \<not> EqualFold (io_text b) (fp_HeadRepo pr) (io_slug b repoURL) then ret False
      else bnd (got (ie_bot e repoURL)) (\<lambda>bot. ret (bot = [] \<or> EqualFold (io_text b) (fp_Author pr) bot)))"

text \<open>A read that GitHub refuses is told from one that may pass.\<close>

datatype 'a read = Read 'a | ReadRefused | ReadFails

definition read_of :: "'a reply \<Rightarrow> 'a read" where
  "read_of r = (case r of Got x \<Rightarrow> Read x | _ \<Rightarrow> if IsRefused r then ReadRefused else ReadFails)"

definition findPullRequest :: "intent_ops \<Rightarrow> intent_env \<Rightarrow> intent \<Rightarrow> string \<Rightarrow> (found_pr option \<times> bool \<times> string) read act" where
  "findPullRequest b e i repoURL =
     (case read_of (pq_default_branch (ie_pr e) repoURL) of
        ReadRefused \<Rightarrow> ret ReadRefused | ReadFails \<Rightarrow> ret ReadFails
      | Read base \<Rightarrow> (case read_of (pq_find (ie_pr e) repoURL (branchName (in_Name i))) of
          ReadRefused \<Rightarrow> ret ReadRefused | ReadFails \<Rightarrow> ret ReadFails
        | Read None \<Rightarrow> ret (Read (None, False, base))
        | Read (Some pr) \<Rightarrow>
            if fp_Base pr = base \<and> EqualFold (io_text b) (fp_HeadRepo pr) (io_slug b repoURL) \<and> IsRefused (ie_bot e repoURL)
            then ret ReadRefused
            else bnd (ownPullRequest b e repoURL pr base) (\<lambda>own. ret (Read (Some pr, own, base)))))"

definition new_record :: "string \<Rightarrow> intent_run \<Rightarrow> found_pr \<Rightarrow> intent_pull_request" where
  "new_record repoURL r pr =
     \<lparr>ipr_Repository = repoURL, ipr_Number = fp_Number pr, ipr_URL = fp_URL pr, ipr_NodeID = fp_NodeID pr,
      ipr_HeadSHA = (if fp_HeadSHA pr = [] then ir_PushedCommit r else fp_HeadSHA pr), ipr_State = PROpen,
      ipr_MergedAt = None, ipr_MergeCommitSHA = []\<rparr>"

definition record_pr :: "intent_ops \<Rightarrow> intent_env \<Rightarrow> project_repository list \<Rightarrow> intent_pull_request \<Rightarrow> bool act" where
  "record_pr b e repos rec = with_in (\<lambda>i.
     let prs = upsertPullRequest b (is_PullRequests i) rec;
         put = (\<lambda>cur. cur\<lparr>is_Branch := branchName (in_Name i), is_PullRequests := prs\<rparr>)
     in bnd (if everyRecorded b prs repos then setPhase e IntentInReview (\<lambda>cur. set_active None (put cur))
             else update e (\<lambda>cur. Some (put cur))) (\<lambda>_. ret True))"

definition block_pr :: "intent_ops \<Rightarrow> intent_env \<Rightarrow> string \<Rightarrow> bool act" where
  "block_pr b e reason = bnd (block b e ConditionBranchConflict reason) (\<lambda>_. ret True)"

definition create_pr :: "intent_ops \<Rightarrow> intent_env \<Rightarrow> intent_run \<Rightarrow> string \<Rightarrow> project_repository list \<Rightarrow> bool act" where
  "create_pr b e r base repos = with_in (\<lambda>i.
     bnd (deref (is_Approval i)) (\<lambda>ap. bnd (deref (is_Plan i)) (\<lambda>pl.
       if \<not> pq_requirements (ie_pr e) (ir_URL r) then raise ErrOther
       else bnd (attempt e (CreatePullRequest (ir_URL r) (branchName (in_Name i)) base)) (\<lambda>a.
         if a = Accepted then record_pr b e repos (new_record (ir_URL r) r (pq_created (ie_pr e) (ir_URL r)))
         else if a = Fails then raise ErrOther
         else block_pr b e ''PullRequestRefused''))))"

definition openPullRequest :: "intent_ops \<Rightarrow> intent_env \<Rightarrow> intent_run \<Rightarrow> project_repository list \<Rightarrow> bool act" where
  "openPullRequest b e r repos = with_in (\<lambda>i.
     bnd (findPullRequest b e i (ir_URL r)) (\<lambda>found. case found of
       ReadRefused \<Rightarrow> block_pr b e ''PullRequestRefused''
     | ReadFails \<Rightarrow> raise ErrOther
     | Read (Some pr, own, base) \<Rightarrow>
         if \<not> own then block_pr b e ''ForeignPullRequest'' else record_pr b e repos (new_record (ir_URL r) r pr)
     | Read (None, _, base) \<Rightarrow> (case pq_head (ie_pr e) (ir_URL r) (branchName (in_Name i)) of
         Missing \<Rightarrow> block_pr b e ''BranchMissing''
       | Denied \<Rightarrow> block_pr b e ''PullRequestRefused''
       | Refusal \<Rightarrow> block_pr b e ''PullRequestRefused''
       | Unresolved \<Rightarrow> raise ErrOther
       | Broken \<Rightarrow> raise ErrOther
       | Got head \<Rightarrow> if head \<noteq> ir_PushedCommit r then block_pr b e ''BranchChanged'' else create_pr b e r base repos)))"

definition openPullRequests :: "intent_ops \<Rightarrow> intent_env \<Rightarrow> int \<Rightarrow> project_repository list \<Rightarrow> bool act" where
  "openPullRequests b e rnd repos = with_pass (\<lambda>p.
     case find (\<lambda>repo. recordedPullRequest b (pp_in p) (pjr_URL repo) = None) repos of
       Some repo \<Rightarrow> bnd (deref (latest (round_runs b (pp_runs p) StageBuild rnd (pjr_URL repo)))) (\<lambda>r. openPullRequest b e r repos)
     | None \<Rightarrow> bnd (setPhase e IntentInReview (set_active None)) (\<lambda>_. ret True))"

definition building :: "intent_ops \<Rightarrow> intent_env \<Rightarrow> bool act" where
  "building b e = with_pass (\<lambda>p. case is_Approval (pp_in p) of
       None \<Rightarrow> bnd (fail e) (\<lambda>_. ret True)
     | Some ap \<Rightarrow> (case approvedRepositories b (ie_proj e) (pp_in p) of
         None \<Rightarrow> bnd (fail e) (\<lambda>_. ret True)
       | Some repos \<Rightarrow> (case read_builds b e (pp_runs p) (iap_PlanRevision ap) repos no_builds of
           RoundFails \<Rightarrow> bnd (fail e) (\<lambda>_. ret True)
         | RoundGoes br \<Rightarrow> (case br_blocked br of
             Some r \<Rightarrow> bnd (blockBuild b e r) (\<lambda>_. ret True)
           | None \<Rightarrow> bnd (blockOnClass b e (br_inFlight br)) (\<lambda>held.
               if held then ret True
               else if br_complete br = length repos then openPullRequests b e (iap_PlanRevision ap) repos
               else if br_launches br = [] then ensureBuilds b e (br_inFlight br)
               else bnd (catch (launchBuilds b e (iap_PlanRevision ap) (br_launches br))) (\<lambda>x. case x of
                   Inl f \<Rightarrow> if f = ErrRunNameTaken then bnd (blockKeyChanged b e) (\<lambda>_. ret True) else raise f
                 | Inr (rs, stop) \<Rightarrow> if stop then ret True else ensureBuilds b e (br_inFlight br @ rs)))))))"

subsection \<open>Reading the pull requests\<close>

definition pullRequestsOpened :: "intent \<Rightarrow> bool" where
  "pullRequestsOpened i \<longleftrightarrow> is_Phase i \<noteq> IntentBuilding \<and>
     (is_Phase i \<noteq> IntentBlocked \<or> IntentBlockedFrom i \<noteq> IntentBuilding)"

definition seen_pr :: "pr_view \<Rightarrow> intent_pull_request \<Rightarrow> intent_pull_request" where
  "seen_pr v rec =
     (let r = (if pv_HeadSHA v \<noteq> [] then rec\<lparr>ipr_HeadSHA := pv_HeadSHA v\<rparr> else rec) in
      if pv_Merged v then r\<lparr>ipr_State := PRMerged, ipr_MergeCommitSHA := pv_MergeCommitSHA v,
          ipr_MergedAt := (case pv_MergedAt v of Some tm \<Rightarrow> Some tm | None \<Rightarrow> ipr_MergedAt r)\<rparr>
      else if pv_State v = ''closed'' then r\<lparr>ipr_State := PRClosed\<rparr>
      else r\<lparr>ipr_State := PROpen\<rparr>)"

text \<open>\<open>Got None\<close>: GitHub shows another pull request, or none; the Intent waits.\<close>

definition readPullRequest :: "intent_env \<Rightarrow> intent_pull_request \<Rightarrow> intent_pull_request option reply" where
  "readPullRequest e rec =
     (case pq_get (ie_pr e) (ipr_Repository rec) (ipr_Number rec) of
        Missing \<Rightarrow> Got None
      | Denied \<Rightarrow> Got None
      | Got v \<Rightarrow> if ipr_NodeID rec \<noteq> [] \<and> pv_NodeID v \<noteq> [] \<and> pv_NodeID v \<noteq> ipr_NodeID rec then Got None
          else Got (Some (seen_pr v rec))
      | Refusal \<Rightarrow> Refusal | Unresolved \<Rightarrow> Unresolved | Broken \<Rightarrow> Broken)"

definition departedRetry :: duration where "departedRetry = 15 * nano_minute"

definition depart :: "string \<Rightarrow> time option \<Rightarrow> unit act" where
  "depart key tm = memo (\<lambda>m. m\<lparr>mm_departed := (mm_departed m)(key := tm)\<rparr>)"

fun reply_as :: "'a reply \<Rightarrow> 'b reply" where
  "reply_as Missing = Missing" | "reply_as Denied = Denied" | "reply_as Refusal = Refusal"
| "reply_as Unresolved = Unresolved" | "reply_as _ = Broken"

definition is_got :: "'a reply \<Rightarrow> bool" where "is_got r = (case r of Got _ \<Rightarrow> True | _ \<Rightarrow> False)"

definition rate_reply :: "intent_ops \<Rightarrow> intent_env \<Rightarrow> string \<Rightarrow> bool reply act" where
  "rate_reply b e url = with_pass (\<lambda>p.
     if pp_rates p (repo_key b url) = None \<and> 0 < st_RateLimitFloor (ie_set e) \<and> \<not> is_got (ie_rate e url)
     then ret (reply_as (ie_rate e url))
     else bnd (rateOK b e url) (\<lambda>ok. ret (Got ok)))"

text \<open>The record after the read, and whether it is stale.\<close>

definition readDepartedPullRequest :: "intent_ops \<Rightarrow> intent_env \<Rightarrow> intent_pull_request \<Rightarrow> (intent_pull_request \<times> bool) act" where
  "readDepartedPullRequest b e rec =
     (let key = repo_key b (ipr_Repository rec);
          out = (\<lambda>gone. if gone then bnd (depart key (Some (ie_now e))) (\<lambda>_. ret (rec, False)) else ret (rec, True))
      in if ipr_State rec = PRMerged then ret (rec, False)
         else with_pass (\<lambda>p.
           if (case mm_departed (pp_memo p) key of Some tm \<Rightarrow> time_sub (ie_now e) tm < departedRetry | None \<Rightarrow> False)
           then ret (rec, False)
           else bnd (rate_reply b e (ipr_Repository rec)) (\<lambda>rate. case rate of
               Got False \<Rightarrow> ret (rec, True)
             | Got True \<Rightarrow> (case readPullRequest e rec of
                 Got (Some r) \<Rightarrow> bnd (depart key None) (\<lambda>_. ret (r, False))
               | Got None \<Rightarrow> out True
               | err \<Rightarrow> out (unreachable err))
             | err \<Rightarrow> out (unreachable err))))"

record pr_counts =
  pc_prs :: "intent_pull_request list"
  pc_mergedN :: nat
  pc_closedN :: nat
  pc_openN :: nat
  pc_staleN :: nat
  pc_mergedFirst :: "time option"

definition no_counts :: pr_counts where
  "no_counts = \<lparr>pc_prs = [], pc_mergedN = 0, pc_closedN = 0, pc_openN = 0, pc_staleN = 0, pc_mergedFirst = None\<rparr>"

definition earlier :: "time option \<Rightarrow> time option \<Rightarrow> time option" where
  "earlier tm first = (case tm of None \<Rightarrow> first
     | Some t \<Rightarrow> (case first of None \<Rightarrow> Some t | Some f \<Rightarrow> if t < f then Some t else Some f))"

definition count_pr :: "intent_pull_request \<Rightarrow> bool \<Rightarrow> pr_counts \<Rightarrow> pr_counts" where
  "count_pr rec stale c0 =
     (let c = c0\<lparr>pc_prs := pc_prs c0 @ [rec]\<rparr> in
      if stale then c\<lparr>pc_staleN := Suc (pc_staleN c)\<rparr>
      else case ipr_State rec of
        PRMerged \<Rightarrow> c\<lparr>pc_mergedN := Suc (pc_mergedN c), pc_mergedFirst := earlier (ipr_MergedAt rec) (pc_mergedFirst c)\<rparr>
      | PRClosed \<Rightarrow> c\<lparr>pc_closedN := Suc (pc_closedN c)\<rparr>
      | PROpen \<Rightarrow> c\<lparr>pc_openN := Suc (pc_openN c)\<rparr>)"

text \<open>\<open>None\<close>: a pull request of the Project's own could not be read, and the read stops.\<close>

fun read_prs :: "intent_ops \<Rightarrow> intent_env \<Rightarrow> intent_pull_request list \<Rightarrow> pr_counts \<Rightarrow> pr_counts option act" where
  "read_prs b e [] c = ret (Some c)"
| "read_prs b e (rec # prs) c =
     (if leftProject b (ie_proj e) (ipr_Repository rec)
      then bnd (readDepartedPullRequest b e rec) (\<lambda>(r, stale). read_prs b e prs (count_pr r stale c))
      else case readPullRequest e rec of
        Got (Some r) \<Rightarrow> read_prs b e prs (count_pr r False c)
      | Got None \<Rightarrow> ret None
      | _ \<Rightarrow> raise ErrOther)"

definition readReviewPRStates :: "intent_ops \<Rightarrow> intent_env \<Rightarrow> intent_pull_request list \<Rightarrow> pr_counts option act" where
  "readReviewPRStates b e prs =
     bnd (read_prs b e prs no_counts) (\<lambda>c. case c of
       None \<Rightarrow> ret None
     | Some c \<Rightarrow> bnd (touch (\<lambda>p. p\<lparr>pp_endingWaits := 0 < pc_staleN c \<and> pc_openN c = 0 \<and> pullRequestsOpened (pp_in p)\<rparr>))
         (\<lambda>_. ret (Some c)))"

subsection \<open>The endings\<close>

definition first_of :: "time \<Rightarrow> time option \<Rightarrow> time option" where
  "first_of t acc = (case acc of None \<Rightarrow> Some t | Some a \<Rightarrow> if t < a then Some t else acc)"

definition buildsFinished :: "pass \<Rightarrow> time" where
  "buildsFinished p =
     (case (case is_Approval (pp_in p) of None \<Rightarrow> None
            | Some ap \<Rightarrow> fold (\<lambda>r acc. if ir_Stage r = StageBuild \<and> ir_Round r = iap_PlanRevision ap
                then (case ir_FinishedAt r of Some t \<Rightarrow> first_of t acc | None \<Rightarrow> acc) else acc) (pp_runs p) None) of
        Some t \<Rightarrow> t | None \<Rightarrow> enteredAt (pp_in p))"

definition partialNotice :: "intent_ops \<Rightarrow> intent_env \<Rightarrow> time option \<Rightarrow> unit act" where
  "partialNotice b e first_merge = with_pass (\<lambda>p.
     notice b e ''partial'' (case first_merge of Some t \<Rightarrow> t | None \<Rightarrow> buildsFinished p - clockSkew))"

definition merged :: "intent_ops \<Rightarrow> intent_env \<Rightarrow> intent_pull_request list \<Rightarrow> time option \<Rightarrow> unit act" where
  "merged b e prs first_merge = with_in (\<lambda>i.
     bnd (notice b e ''summary'' (case first_merge of Some t \<Rightarrow> t | None \<Rightarrow> enteredAt i - clockSkew)) (\<lambda>_.
     bnd (must e (CloseIssue True)) (\<lambda>_.
     setPhase e IntentMerged (\<lambda>cur. cur\<lparr>is_PullRequests := prs, is_ActiveRun := None\<rparr>))))"

definition endReview :: "intent_ops \<Rightarrow> intent_env \<Rightarrow> pr_counts \<Rightarrow> bool act" where
  "endReview b e c = with_in (\<lambda>i.
     let n = length (pc_prs c) in
     if \<not> pullRequestsOpened i then ret False
     else if pc_mergedN c = n then bnd (merged b e (pc_prs c) (pc_mergedFirst c)) (\<lambda>_. ret True)
     else if pc_mergedN c + pc_closedN c = n then
       bnd (if 1 < n then partialNotice b e (pc_mergedFirst c) else ret ()) (\<lambda>_.
       bnd (must e (CloseIssue False)) (\<lambda>_.
       bnd (setPhase e IntentClosed (\<lambda>cur. cur\<lparr>is_PullRequests := pc_prs c\<rparr>)) (\<lambda>_. ret True)))
     else ret False)"

definition pr_equal :: "intent_pull_request \<Rightarrow> intent_pull_request \<Rightarrow> bool" where
  "pr_equal x y \<longleftrightarrow> ipr_State x = ipr_State y \<and> ipr_HeadSHA x = ipr_HeadSHA y \<and>
     ipr_MergeCommitSHA x = ipr_MergeCommitSHA y \<and> ipr_MergedAt x = ipr_MergedAt y"

definition prsEqual :: "intent_pull_request list \<Rightarrow> intent_pull_request list \<Rightarrow> bool" where
  "prsEqual xs ys \<longleftrightarrow> list_all2 pr_equal xs ys"

definition polled_prs :: "intent_env \<Rightarrow> unit act" where
  "polled_prs e = memo (\<lambda>m. m\<lparr>mm_prPolled := Some (ie_now e)\<rparr>)"

definition reviewNow :: "intent_ops \<Rightarrow> intent_env \<Rightarrow> bool act" where
  "reviewNow b e = bnd (polled_prs e) (\<lambda>_. with_in (\<lambda>i.
     if is_PullRequests i = [] then ret False
     else bnd (readReviewPRStates b e (is_PullRequests i)) (\<lambda>counts. case counts of
       None \<Rightarrow> ret False
     | Some c \<Rightarrow> bnd (endReview b e c) (\<lambda>ended.
         if ended then ret True
         else if \<not> prsEqual (pc_prs c) (is_PullRequests i)
         then bnd (update e (\<lambda>cur. Some (cur\<lparr>is_PullRequests := pc_prs c\<rparr>))) (\<lambda>_. ret True)
         else bnd (ie_round_records e) (\<lambda>changed.
           if changed then ret True
           else with_in (\<lambda>j. if is_Phase j \<noteq> IntentInReview then ret False else ie_start_round e (pc_prs c)))))))"

fun rate_each :: "intent_ops \<Rightarrow> intent_env \<Rightarrow> intent_pull_request list \<Rightarrow> bool act" where
  "rate_each b e [] = ret True"
| "rate_each b e (pr # prs) =
     (if leftProject b (ie_proj e) (ipr_Repository pr) then rate_each b e prs
      else bnd (rateOK b e (ipr_Repository pr)) (\<lambda>ok. if ok then rate_each b e prs else ret False))"

definition rateOKForPullRequests :: "intent_ops \<Rightarrow> intent_env \<Rightarrow> bool act" where
  "rateOKForPullRequests b e = with_in (\<lambda>i. rate_each b e (is_PullRequests i))"

definition review :: "intent_ops \<Rightarrow> intent_env \<Rightarrow> bool act" where
  "review b e = with_pass (\<lambda>p.
     if (case mm_prPolled (pp_memo p) of
           Some t0 \<Rightarrow> time_sub (ie_now e) t0 < st_PRPollInterval (ie_set e) | None \<Rightarrow> False) then ret False
     else bnd (catch (rateOKForPullRequests b e)) (\<lambda>x. case x of
         Inl f \<Rightarrow> bnd (polled_prs e) (\<lambda>_. raise f)
       | Inr ok \<Rightarrow> if ok then reviewNow b e else bnd (polled_prs e) (\<lambda>_. ret False)))"

end
