(* ===== verification/IntentActions.thy ===== *)
theory IntentActions
  imports IntentBuild
begin

text \<open>
  The human actions on the intent issue (\<open>internal/controller/intent/intent_actions.go\<close>,
  \<open>credential_hold.go\<close>): which labels and commands are still to answer, in which order, and what each one
  does: an approval, a replan, a cancel, a revival. Actions are ordered by the second GitHub dates them
  to, by their kind and by their id; the newest trigger consumed and the newest comment settled
  are recorded, so nothing answered is answered again.
\<close>

definition VerbReplan :: string where "VerbReplan = ''replan''"
definition VerbCancel :: string where "VerbCancel = ''cancel''"

definition intentParser :: parser where
  "intentParser = \<lparr>ps_Surface = IntentIssue, ps_ApproveAlias = []\<rparr>"

subsection \<open>Actions and their order\<close>

record human_action =
  ha_source :: action_source
  ha_id :: int
  ha_at :: time
  ha_actor :: command_actor
  ha_verb :: ustring
  ha_label :: string
  ha_recorded :: bool
  ha_edited :: bool
  ha_comment :: "issue_comment option"

definition ha_key :: "human_action \<Rightarrow> string" where
  "ha_key a = (if ha_source a = IntentActionLabel then ''event-'' else ''comment-'') @ show_int (ha_id a)"

definition ha_record :: "human_action \<Rightarrow> intent_action" where
  "ha_record a = \<lparr>ia_Source = ha_source a, ia_EventID = ha_id a, ia_Login = ca_Login (ha_actor a),
     ia_UserID = max (ca_ID (ha_actor a)) 0, ia_At = ha_at a\<rparr>"

definition sourceRank :: "action_source \<Rightarrow> int" where
  "sourceRank s = (if s = IntentActionLabel then 0 else 1)"

definition unix :: "time \<Rightarrow> int" where "unix t = t div nano_second"

definition after :: "time \<Rightarrow> action_source \<Rightarrow> int \<Rightarrow> intent_action \<Rightarrow> bool" where
  "after t src n r =
     (if unix t \<noteq> unix (ia_At r) then unix (ia_At r) < unix t
      else if sourceRank src \<noteq> sourceRank (ia_Source r) then sourceRank (ia_Source r) < sourceRank src
      else ia_EventID r < n)"

definition action_after :: "human_action \<Rightarrow> intent_action \<Rightarrow> bool" where
  "action_after a r = after (ha_at a) (ha_source a) (ha_id a) r"

definition event_after :: "issue_event \<Rightarrow> intent_action \<Rightarrow> bool" where
  "event_after v r = after (ev_CreatedAt v) IntentActionLabel (ev_ID v) r"

definition event_record :: "issue_event \<Rightarrow> intent_action" where
  "event_record v = \<lparr>ia_Source = IntentActionLabel, ia_EventID = ev_ID v, ia_Login = [], ia_UserID = 0, ia_At = ev_CreatedAt v\<rparr>"

definition newestLabeled :: "intent_ops \<Rightarrow> (string \<Rightarrow> bool) \<Rightarrow> string \<Rightarrow> issue_event list \<Rightarrow> issue_event option" where
  "newestLabeled b own label events =
     fold (\<lambda>v newest.
       if ev_Event v \<noteq> ''labeled'' \<or> \<not> EqualFold (io_text b) (ev_Label v) label \<or> ev_ID v < 1 \<or>
          ca_Login (ev_Actor v) = [] \<or> own (ca_Login (ev_Actor v)) then newest
       else case newest of
         None \<Rightarrow> Some v
       | Some w \<Rightarrow> if event_after v (event_record w) then Some v else newest) events None"

fun insert_action :: "human_action \<Rightarrow> human_action list \<Rightarrow> human_action list" where
  "insert_action a [] = [a]"
| "insert_action a (c # cs) = (if action_after a (ha_record c) then c # insert_action a cs else a # c # cs)"

definition sort_actions :: "human_action list \<Rightarrow> human_action list" where
  "sort_actions as = foldr insert_action as []"

definition label_action :: "issue_event \<Rightarrow> string \<Rightarrow> string \<Rightarrow> human_action" where
  "label_action v vb label =
     \<lparr>ha_source = IntentActionLabel, ha_id = ev_ID v, ha_at = ev_CreatedAt v, ha_actor = ev_Actor v, ha_verb = runes vb,
      ha_label = label, ha_recorded = False, ha_edited = False, ha_comment = None\<rparr>"

definition command_action :: "issue_comment \<Rightarrow> ustring \<Rightarrow> human_action" where
  "command_action c vb =
     \<lparr>ha_source = IntentActionCommand, ha_id = cm_ID c, ha_at = cm_CreatedAt c, ha_actor = cm_Author c, ha_verb = vb,
      ha_label = [], ha_recorded = False, ha_edited = False, ha_comment = Some c\<rparr>"

subsection \<open>Which actions are still to answer\<close>

definition seen :: "intent \<Rightarrow> comment_ref option" where
  "seen i = (case is_Commands i of Some c \<Rightarrow> ic_Seen c | None \<Rightarrow> None)"

definition listSince :: "intent \<Rightarrow> time" where
  "listSince i =
     (let t = ia_At (lastTrigger i) in
      (case seen i of Some s \<Rightarrow> if t < cr_At s then cr_At s else t | None \<Rightarrow> t) - nano_second)"

definition approvalPending :: "intent \<Rightarrow> bool" where
  "approvalPending i \<longleftrightarrow> is_Phase i = IntentPlanning \<and>
     (case is_Plan i of Some pl \<Rightarrow> pl_PostedAt pl = None | None \<Rightarrow> False)"

definition credentialReapproval :: "intent_ops \<Rightarrow> intent \<Rightarrow> bool" where
  "credentialReapproval b i \<longleftrightarrow> is_Phase i = IntentBlocked \<and> IntentBlockedFrom i = IntentBuilding \<and>
     isStatusConditionTrue (io_meta b) (is_Conditions i) CredentialRequired \<and>
     (case (is_Approval i, is_Plan i) of
        (Some ap, Some pl) \<Rightarrow> pl_PostedAt pl \<noteq> None \<and> pl_Revision pl = iap_PlanRevision ap | _ \<Rightarrow> False)"

definition wasRefused :: "pass \<Rightarrow> command_actor \<Rightarrow> bool" where
  "wasRefused p a \<longleftrightarrow> 0 < ca_ID a \<and> (ca_ID a \<in> set (pp_refused p) \<or>
     (case is_Commands (pp_in p) of Some c \<Rightarrow> ca_ID a \<in> set (ic_RefusedActors c) | None \<Rightarrow> False))"

definition noteRefused :: "command_actor \<Rightarrow> unit act" where
  "noteRefused a = touch (\<lambda>p. if ca_ID a \<le> 0 then p else p\<lparr>pp_refused := List.insert (ca_ID a) (pp_refused p)\<rparr>)"

definition approves_with :: "intent \<Rightarrow> human_action \<Rightarrow> bool" where
  "approves_with i a \<longleftrightarrow>
     (case is_Approval i of Some ap \<Rightarrow> iap_Source ap = ha_source a \<and> iap_EventID ap = ha_id a | None \<Rightarrow> False)"

definition triggered_by :: "intent \<Rightarrow> human_action \<Rightarrow> bool" where
  "triggered_by i a \<longleftrightarrow>
     (case is_LastTrigger i of Some lt \<Rightarrow> ia_Source lt = ha_source a \<and> ia_EventID lt = ha_id a | None \<Rightarrow> False)"

text \<open>The action marked when it is already applied, and whether this poll answers it.\<close>

definition stillToAnswer :: "intent_ops \<Rightarrow> intent_env \<Rightarrow> human_action \<Rightarrow> human_action option act" where
  "stillToAnswer b e a = with_in (\<lambda>i.
     if ha_verb a = runes VerbApprove then
       (if approves_with i a then ret (Some (a\<lparr>ha_recorded := True\<rparr>))
        else if approvalPending i \<and> \<not> ha_edited a \<and> \<not> refusedLocally b (ie_proj e) (ha_actor a)
        then bnd (touch (\<lambda>p. if pp_deferred p = 0 \<or> ha_id a < pp_deferred p then p\<lparr>pp_deferred := ha_id a\<rparr> else p)) (\<lambda>_. ret None)
        else ret (Some a))
     else if ha_verb a = runes VerbReplan then
       (if triggered_by i a then ret (Some (a\<lparr>ha_recorded := True\<rparr>))
        else ret (if action_after a (lastTrigger i) then Some a else None))
     else ret (Some a))"

definition a_command :: "intent_ops \<Rightarrow> pass \<Rightarrow> issue_comment \<Rightarrow> human_action option" where
  "a_command b p c =
     (if cm_ID c \<le> (case seen (pp_in p) of Some s \<Rightarrow> cr_ID s | None \<Rightarrow> 0) \<or>
         cm_CreatedAt c < ia_At (lastTrigger (pp_in p)) \<or> isOwn b p c \<or> isOwnLogin b p (cm_UserLogin c) then None
      else map_option (\<lambda>cmd. command_action c (hc_Verb cmd)) (Parser_Parse (io_graphic b) intentParser (io_runes b (cm_Body c))))"

fun commands_of :: "intent_ops \<Rightarrow> intent_env \<Rightarrow> issue_comment list \<Rightarrow> human_action list act" where
  "commands_of b e [] = ret []"
| "commands_of b e (c # cs) = with_pass (\<lambda>p.
     case a_command b p c of
       None \<Rightarrow> commands_of b e cs
     | Some a \<Rightarrow>
         if hasOwnNotice b p (ha_key a)
         then bnd (if refusedLocally b (ie_proj e) (ha_actor a) then noteRefused (ha_actor a) else ret ()) (\<lambda>_. commands_of b e cs)
         else bnd (stillToAnswer b e a) (\<lambda>x. bnd (commands_of b e cs) (\<lambda>as. ret (case x of Some y \<Rightarrow> y # as | None \<Rightarrow> as))))"

definition commands :: "intent_ops \<Rightarrow> intent_env \<Rightarrow> human_action list act" where
  "commands b e = with_pass (\<lambda>p. commands_of b e (listed p))"

definition removeApproveLabel :: "intent_env \<Rightarrow> unit act" where
  "removeApproveLabel e = must e (RemoveLabel (approveLabel (ie_proj e)))"

definition approveLabelAction :: "intent_ops \<Rightarrow> intent_env \<Rightarrow> gh_issue \<Rightarrow> issue_event list \<Rightarrow> human_action option act" where
  "approveLabelAction b e issue events = with_pass (\<lambda>p. let i = pp_in p in
     if is_Phase i \<noteq> IntentAwaitingApproval \<and> \<not> credentialReapproval b i then ret None
     else case is_Plan i of
       None \<Rightarrow> ret None
     | Some pl \<Rightarrow> (case pl_PostedAt pl of
         None \<Rightarrow> ret None
       | Some posted \<Rightarrow> (case newestLabeled b (isOwnLogin b p) (approveLabel (ie_proj e)) events of
           None \<Rightarrow> ret None
         | Some v \<Rightarrow>
             let a = label_action v VerbApprove (approveLabel (ie_proj e)) in
             if ev_CreatedAt v \<le> posted then ret None
             else if approves_with i a then ret None
             else if hasOwnNotice b p (ha_key a) then
               (if (case condition_on b i ConditionApprovalRejected of Some c \<Rightarrow> creason c = ''AmbiguousIntentIssue'' | None \<Rightarrow> False)
                then ret None
                else bnd (if hasLabel b issue (approveLabel (ie_proj e)) then removeApproveLabel e else ret ()) (\<lambda>_. ret None))
             else if \<not> hasLabel b issue (approveLabel (ie_proj e)) then ret None
             else ret (Some a))))"

definition gather :: "intent_ops \<Rightarrow> intent_env \<Rightarrow> gh_issue \<Rightarrow> issue_event list \<Rightarrow> human_action list act" where
  "gather b e issue events =
     bnd (commands b e) (\<lambda>cmds. with_pass (\<lambda>p.
       let triggers = (case newestLabeled b (isOwnLogin b p) (trigger e) events of
             Some v \<Rightarrow> if event_after v (lastTrigger (pp_in p)) then [label_action v VerbReplan (trigger e)] else []
           | None \<Rightarrow> [])
       in bnd (approveLabelAction b e issue events) (\<lambda>approve.
            ret (sort_actions (cmds @ triggers @ (case approve of Some a \<Rightarrow> [a] | None \<Rightarrow> []))))))"

definition newestSettled :: "pass \<Rightarrow> issue_comment option" where
  "newestSettled p =
     fold (\<lambda>c newest. if (pp_deferred p = 0 \<or> cm_ID c < pp_deferred p) \<and>
         (case newest of None \<Rightarrow> True | Some n \<Rightarrow> cm_ID n < cm_ID c) then Some c else newest) (listed p) None"

subsection \<open>Replies\<close>

definition rememberIntentActor :: "int list \<Rightarrow> int \<Rightarrow> int list" where
  "rememberIntentActor ids n = keep_latest MaxIntentRefusedActors (ids @ [n])"

definition next_commands :: "intent \<Rightarrow> int list \<Rightarrow> int \<Rightarrow> time \<Rightarrow> intent_commands" where
  "next_commands i refused n t =
     (let cur = (case is_Commands i of Some c \<Rightarrow> c | None \<Rightarrow> \<lparr>ic_Seen = None, ic_RefusedActors = []\<rparr>);
          settled = 0 < n \<and> (case ic_Seen cur of None \<Rightarrow> True | Some s \<Rightarrow> cr_ID s < n)
      in \<lparr>ic_Seen = (if settled then Some \<lparr>cr_ID = n, cr_At = t\<rparr> else ic_Seen cur),
          ic_RefusedActors = fold (\<lambda>a ids. if a \<in> set ids then ids else rememberIntentActor ids a) (sort refused) (ic_RefusedActors cur)\<rparr>)"

definition recordSeen :: "intent_env \<Rightarrow> int \<Rightarrow> time \<Rightarrow> unit act" where
  "recordSeen e n t = with_pass (\<lambda>p.
     let nx = next_commands (pp_in p) (pp_refused p) n t in
     if nx = (case is_Commands (pp_in p) of Some c \<Rightarrow> c | None \<Rightarrow> \<lparr>ic_Seen = None, ic_RefusedActors = []\<rparr>) then ret ()
     else update e (\<lambda>cur. Some (cur\<lparr>is_Commands := Some nx\<rparr>)))"

definition answer_notice :: "intent_ops \<Rightarrow> intent_env \<Rightarrow> human_action \<Rightarrow> unit act" where
  "answer_notice b e a = notice b e (ha_key a) (ha_at a)"

definition replyDone :: "intent_ops \<Rightarrow> intent_env \<Rightarrow> human_action \<Rightarrow> unit act" where
  "replyDone b e a = (if ha_source a \<noteq> IntentActionCommand then ret () else answer_notice b e a)"

subsection \<open>What an action does\<close>

definition settleCancel :: "intent_ops \<Rightarrow> intent_env \<Rightarrow> human_action \<Rightarrow> unit act" where
  "settleCancel b e a =
     bnd (authorize b e (ha_actor a)) (\<lambda>(ok, _).
       if \<not> ok then answer_notice b e a
       else bnd (must e (CloseIssue False)) (\<lambda>_. bnd (answer_notice b e a) (\<lambda>_. setPhase e IntentClosed (set_active None))))"

definition consume_trigger :: "intent_env \<Rightarrow> intent_action \<Rightarrow> unit act" where
  "consume_trigger e r = update e (\<lambda>cur. Some (cur\<lparr>is_LastTrigger := Some r\<rparr>))"

definition settleReplan :: "intent_ops \<Rightarrow> intent_env \<Rightarrow> human_action \<Rightarrow> gh_issue \<Rightarrow> unit act" where
  "settleReplan b e a issue =
     bnd (authorize b e (ha_actor a)) (\<lambda>(ok, _). with_in (\<lambda>i.
       if \<not> ok \<or> is_Phase i \<noteq> IntentAwaitingApproval
       then bnd (answer_notice b e a) (\<lambda>_. consume_trigger e (ha_record a))
       else bnd (startPlanning b e (Some issue) (Some (ha_record a))) (\<lambda>_. replyDone b e a)))"

definition approvalChanged :: "intent_ops \<Rightarrow> intent_env \<Rightarrow> intent_plan \<Rightarrow> intent_input \<Rightarrow> gh_issue \<Rightarrow> (bool \<times> bool) act" where
  "approvalChanged b e pl inp issue =
     bnd (case ie_comment e (pl_CommentID pl) of
            Missing \<Rightarrow> ret True
          | Got c \<Rightarrow> if io_digest b (cm_Body c) \<noteq> pl_CommentDigest pl then ret True else everEdited e c
          | _ \<Rightarrow> raise ErrOther) (\<lambda>planChanged.
     bnd (inputSnapshot e inp) (\<lambda>snap. case snap of
         None \<Rightarrow> ret (planChanged, True)
       | Some s \<Rightarrow> ret (planChanged,
           io_digest b (render b (s\<lparr>sn_Title := gi_Title issue, sn_Body := gi_Body issue\<rparr>)) \<noteq> ii_Digest inp)))"

definition refuseApproval :: "intent_ops \<Rightarrow> intent_env \<Rightarrow> human_action \<Rightarrow> gh_issue \<Rightarrow> unit act" where
  "refuseApproval b e a issue =
     bnd (update e (\<lambda>cur. Some (setCondition b ConditionApprovalRejected ''True'' ''PlanOrIssueChanged'' (io_words b ''PlanOrIssueChanged'') cur))) (\<lambda>_.
     bnd (answer_notice b e a) (\<lambda>_.
     if hasLabel b issue (approveLabel (ie_proj e)) then removeApproveLabel e else ret ()))"

definition approval_of :: "human_action \<Rightarrow> int \<Rightarrow> string \<Rightarrow> string \<Rightarrow> intent_approval" where
  "approval_of a n planDigest inputDigest =
     \<lparr>iap_By = ca_Login (ha_actor a), iap_ByID = max (ca_ID (ha_actor a)) 0, iap_Source = ha_source a, iap_EventID = ha_id a,
      iap_At = ha_at a, iap_PlanRevision = n, iap_PlanDigest = planDigest, iap_InputDigest = inputDigest\<rparr>"

definition approved_status :: "intent_ops \<Rightarrow> intent_approval \<Rightarrow> intent \<Rightarrow> intent" where
  "approved_status b ap cur =
     setCondition b ConditionApprovalRejected ''False'' ''Approved'' (io_words b ''Approved'') (cur\<lparr>is_Approval := Some ap\<rparr>)"

definition sibling_of :: "intent_ops \<Rightarrow> intent \<Rightarrow> intent list \<Rightarrow> intent option" where
  "sibling_of b i siblings =
     find (\<lambda>s. in_Name s \<noteq> in_Name i \<and> same_repo b (in_Repository s) (in_Repository i) \<and> in_Number s = in_Number i) siblings"

definition settlePlanApproval :: "intent_ops \<Rightarrow> intent_env \<Rightarrow> human_action \<Rightarrow> gh_issue \<Rightarrow> unit act" where
  "settlePlanApproval b e a issue = with_in (\<lambda>i.
     case (is_Phase i = IntentAwaitingApproval, is_Plan i) of
       (True, Some pl) \<Rightarrow> (case pl_PostedAt pl of
           None \<Rightarrow> answer_notice b e a
         | Some posted \<Rightarrow>
             if \<not> posted < ha_at a then answer_notice b e a
             else bnd (authorize b e (ha_actor a)) (\<lambda>(ok, _).
               if \<not> ok then bnd (answer_notice b e a) (\<lambda>_.
                 if ha_source a = IntentActionLabel then removeApproveLabel e else ret ())
               else bnd (got (ie_siblings e)) (\<lambda>siblings. case sibling_of b i siblings of
                 Some s \<Rightarrow>
                   bnd (update e (\<lambda>cur. Some (setCondition b ConditionApprovalRejected ''True'' ''AmbiguousIntentIssue''
                          (io_words b ''AmbiguousIntentIssue'') cur))) (\<lambda>_. answer_notice b e a)
               | None \<Rightarrow> bnd (deref (is_Input i)) (\<lambda>inp. bnd (approvalChanged b e pl inp issue) (\<lambda>(planChanged, issueChanged).
                   if planChanged \<or> issueChanged then refuseApproval b e a issue
                   else bnd (setPhase e IntentBuilding (approved_status b (approval_of a (pl_Revision pl) (pl_Digest pl) (ii_Digest inp))))
                          (\<lambda>_. replyDone b e a))))))
     | _ \<Rightarrow> answer_notice b e a)"

definition settleCredentialReapproval :: "intent_ops \<Rightarrow> intent_env \<Rightarrow> human_action \<Rightarrow> gh_issue \<Rightarrow> unit act" where
  "settleCredentialReapproval b e a issue = with_in (\<lambda>i. bnd (deref (is_Approval i)) (\<lambda>prev.
     let isLabel = ha_source a = IntentActionLabel;
         removeLabel = (if \<not> isLabel \<or> \<not> hasLabel b issue (approveLabel (ie_proj e)) then ret () else removeApproveLabel e)
     in if \<not> action_after a \<lparr>ia_Source = iap_Source prev, ia_EventID = iap_EventID prev, ia_Login = [], ia_UserID = 0, ia_At = iap_At prev\<rparr>
        then answer_notice b e a
        else bnd (authorize b e (ha_actor a)) (\<lambda>(ok, _).
          if \<not> ok then bnd (answer_notice b e a) (\<lambda>_. removeLabel)
          else bnd (deref (is_Plan i)) (\<lambda>pl. bnd (deref (is_Input i)) (\<lambda>inp. bnd (approvalChanged b e pl inp issue) (\<lambda>(planChanged, issueChanged).
            if planChanged \<or> issueChanged then refuseApproval b e a issue
            else bnd (case credentialProvider e of
                   None \<Rightarrow> ret False
                 | Some provider \<Rightarrow> (case Holds (io_sha b) (st_UserCredentials (ie_set e)) provider
                       (ca_Login (ha_actor a)) (ca_ID (ha_actor a)) (ie_lookup e) of Inl _ \<Rightarrow> raise ErrOther | Inr h \<Rightarrow> ret h)) (\<lambda>holds.
              if holds then bnd (answer_notice b e a) (\<lambda>_. removeLabel)
              else bnd (update e (\<lambda>cur. Some (approved_status b
                     (approval_of a (iap_PlanRevision prev) (iap_PlanDigest prev) (iap_InputDigest prev)) cur)))
                   (\<lambda>_. replyDone b e a))))))))"

definition settleApprove :: "intent_ops \<Rightarrow> intent_env \<Rightarrow> human_action \<Rightarrow> gh_issue \<Rightarrow> unit act" where
  "settleApprove b e a issue = with_in (\<lambda>i.
     if credentialReapproval b i then settleCredentialReapproval b e a issue else settlePlanApproval b e a issue)"

definition intent_decide :: "intent_ops \<Rightarrow> intent_env \<Rightarrow> human_action \<Rightarrow> gh_issue \<Rightarrow> unit act" where
  "intent_decide b e a issue =
     (if ha_verb a = runes VerbCancel then settleCancel b e a
      else if ha_verb a = runes VerbApprove then settleApprove b e a issue
      else if ha_verb a = runes VerbReplan then settleReplan b e a issue
      else ret ())"

definition acts :: "ustring \<Rightarrow> bool" where
  "acts v \<longleftrightarrow> v = runes VerbApprove \<or> v = runes VerbReplan \<or> v = runes VerbCancel"

definition react :: "intent_env \<Rightarrow> int \<Rightarrow> unit act" where
  "react e n = bnd (attempt e (React n)) (\<lambda>a. if a = Accepted \<or> a = NotThere then ret () else raise ErrOther)"

text \<open>Settles one action; the value is the code's \<open>answered\<close>.\<close>

definition settle_action :: "intent_ops \<Rightarrow> intent_env \<Rightarrow> human_action \<Rightarrow> gh_issue \<Rightarrow> bool act" where
  "settle_action b e a issue = with_pass (\<lambda>p.
     if ha_source a \<noteq> IntentActionCommand then bnd (intent_decide b e a issue) (\<lambda>_. ret True)
     else let local = refusedLocally b (ie_proj e) (ha_actor a) in
       if local \<and> \<not> ha_recorded a \<and> wasRefused p (ha_actor a) then ret False
       else bnd (react e (ha_id a)) (\<lambda>_.
         bnd (if \<not> local \<and> \<not> ha_recorded a \<and> acts (ha_verb a)
              then (case ha_comment a of Some c \<Rightarrow> everEdited e c | None \<Rightarrow> ret (ha_edited a)) else ret (ha_edited a)) (\<lambda>edited.
         bnd (if ha_recorded a then replyDone b e a
              else if local then bnd (answer_notice b e a) (\<lambda>_. noteRefused (ha_actor a))
              else if edited then answer_notice b e a
              else if \<not> acts (ha_verb a) then bnd (authorize b e (ha_actor a)) (\<lambda>_. answer_notice b e a)
              else intent_decide b e a issue) (\<lambda>_. ret True))))"

subsection \<open>The poll\<close>

fun answer_each :: "intent_ops \<Rightarrow> intent_env \<Rightarrow> gh_issue \<Rightarrow> human_action list \<Rightarrow> bool act" where
  "answer_each b e issue [] = with_pass (\<lambda>p.
     case pp_pollNewest p of Some c \<Rightarrow> bnd (recordSeen e (cm_ID c) (cm_CreatedAt c)) (\<lambda>_. ret False) | None \<Rightarrow> ret False)"
| "answer_each b e issue (a # as) =
     bnd (settle_action b e a issue) (\<lambda>answered. with_pass (\<lambda>p.
       if IntentTerminal (is_Phase (pp_in p)) then ret True
       else bnd (if answered \<and> ha_source a = IntentActionCommand \<and> (pp_deferred p = 0 \<or> ha_id a < pp_deferred p)
                 then recordSeen e (ha_id a) (ha_at a) else ret ()) (\<lambda>_. answer_each b e issue as)))"

definition issueClosed :: "intent_ops \<Rightarrow> intent_env \<Rightarrow> bool act" where
  "issueClosed b e = with_in (\<lambda>i.
     let close = bnd (setPhase e IntentClosed (set_active None)) (\<lambda>_. ret True) in
     if is_PullRequests i = [] then close
     else bnd (rateOKForPullRequests b e) (\<lambda>ok.
       if \<not> ok then ret True
       else bnd (reviewNow b e) (\<lambda>ended.
         if ended then ret True
         else with_pass (\<lambda>p. if pp_endingWaits p then ret False else close))))"

definition poll :: "intent_ops \<Rightarrow> intent_env \<Rightarrow> bool act" where
  "poll b e =
     bnd (memo (\<lambda>m. m\<lparr>mm_polled := Some (ie_now e)\<rparr>)) (\<lambda>_. with_in (\<lambda>i.
     bnd (rateOK b e (in_Repository i)) (\<lambda>ok.
       if \<not> ok then ret False
       else bnd (touch (\<lambda>p. p\<lparr>pp_polled := True\<rparr>)) (\<lambda>_.
         bnd (got (ie_issue e)) (\<lambda>issue. bnd (got (ie_events e)) (\<lambda>events.
         bnd (listComments b e (listSince i)) (\<lambda>_.
         bnd (gather b e issue events) (\<lambda>actions.
         bnd (touch (\<lambda>p. p\<lparr>pp_pollNewest := newestSettled p\<rparr>)) (\<lambda>_.
         bnd (answer_each b e issue actions) (\<lambda>stop.
           if stop then ret True
           else if gi_State issue = ''closed'' then issueClosed b e else ret False))))))))))"

definition handOff :: "intent_ops \<Rightarrow> intent_env \<Rightarrow> bool act" where
  "handOff b e =
     bnd (readBot e) (\<lambda>_. bnd (got (ie_events e)) (\<lambda>events. with_pass (\<lambda>p. let i = pp_in p in
       case newestLabeled b (isOwnLogin b p) (trigger e) events of
         None \<Rightarrow> ret False
       | Some v \<Rightarrow>
           if \<not> event_after v (lastTrigger i) then ret False
           else let a = label_action v VerbReplan (trigger e) in
             bnd (if is_Phase i = IntentFailed then authorize b e (ha_actor a) else ret (False, False)) (\<lambda>(ok, _).
               if ok then bnd (startPlanning b e None (Some (ha_record a))) (\<lambda>_. ret True)
               else bnd (must e (RemoveLabel (trigger e))) (\<lambda>_. bnd (answer_notice b e a) (\<lambda>_.
                 bnd (consume_trigger e (ha_record a)) (\<lambda>_. ret True)))))))"

end
