(* ===== verification/IntentBlocked.thy ===== *)
theory IntentBlocked
  imports IntentActions
begin

text \<open>
  The blocked Intent (\<open>internal/controller/intent/intent_blocked.go\<close>, \<open>credential_hold.go\<close>,
  \<open>resources.go\<close>): which blocks still hold, and the resumption to the phase it was blocked from, with the
  runs the block had stopped.
\<close>

definition blockingConditions :: "string list" where
  "blockingConditions = [ConditionBudgetExhausted, ConditionImageRequired, ConditionBranchConflict,
     ConditionRevisionLimitReached, ConditionChecksFailing, ConditionUnsupportedRepositories,
     ConditionResourcesUnavailable, CredentialRequired]"

definition ReasonMultiRepositoryOff :: string where "ReasonMultiRepositoryOff = ''MultiRepositoryOff''"

definition multiRepo_status :: "intent_ops \<Rightarrow> string \<Rightarrow> string \<Rightarrow> intent \<Rightarrow> intent" where
  "multiRepo_status b st reason cur = setCondition b ConditionUnsupportedRepositories st reason (io_words b reason) cur"

definition holdMultiRepo :: "intent_ops \<Rightarrow> intent_env \<Rightarrow> bool act" where
  "holdMultiRepo b e = with_in (\<lambda>i.
     if \<not> multiRepoOff (ie_set e) (ie_proj e) then ret False
     else if is_Phase i \<noteq> IntentBlocked
     then bnd (block b e ConditionUnsupportedRepositories ReasonMultiRepositoryOff) (\<lambda>_. ret True)
     else if unsupportedFor b i ReasonMultiRepositoryOff then ret False
     else bnd (update e (\<lambda>cur. Some (multiRepo_status b ''True'' ReasonMultiRepositoryOff cur))) (\<lambda>_. ret True))"

subsection \<open>Which blocks hold\<close>

definition blocked_here :: "intent_env \<Rightarrow> pass \<Rightarrow> bool" where
  "blocked_here e p \<longleftrightarrow> mm_blockedAt (pp_memo p) = Some (pj_Generation (ie_proj e))"

definition rounds_where :: "(intent_run \<Rightarrow> bool) \<Rightarrow> intent_run list \<Rightarrow> int" where
  "rounds_where c runs = int (length (remdups (map ir_Round (filter c runs))))"

definition revisionRounds :: "intent_ops \<Rightarrow> pass \<Rightarrow> int" where
  "revisionRounds b p = rounds_where (\<lambda>r. ir_Stage r = StageRevise \<and> ir_Trigger r \<noteq> TriggerChecks \<and>
     \<not> (case latest (round_runs b (pp_runs p) StageRevise (ir_Round r) anyRepository) of
          Some l \<Rightarrow> ir_Phase l = RunFailed \<and> ir_Outcome l = ''no_usable_feedback'' | None \<Rightarrow> False)) (pp_runs p)"

definition checkFixRounds :: "pass \<Rightarrow> int" where
  "checkFixRounds p = rounds_where (\<lambda>r. ir_Stage r = StageRevise \<and> ir_Trigger r = TriggerChecks) (pp_runs p)"

definition maxCheckFixes :: "project \<Rightarrow> int" where
  "maxCheckFixes proj = (case pj_MaxCheckFixes proj of Some n \<Rightarrow> n | None \<Rightarrow> DefaultMaxCheckFixes)"

text \<open>
  \<open>fmt.Sscanf(message, "project-generation=%d")\<close> on the messages \<open>intent_checks.go\<close> writes, whose generation
  has no sign; zero when the message does not match.
\<close>

definition scanned_generation :: "string \<Rightarrow> int" where
  "scanned_generation msg =
     (case cut_prefix msg ''project-generation='' of
        None \<Rightarrow> 0
      | Some rest \<Rightarrow> (let ds = takeWhile is_digit rest in if ds = [] then 0 else digits_value 0 ds))"

definition resourceBlockHolds :: "intent_ops \<Rightarrow> intent_env \<Rightarrow> pass \<Rightarrow> bool" where
  "resourceBlockHolds b e p \<longleftrightarrow>
     (case condition_on b (pp_in p) ConditionResourcesUnavailable of
        None \<Rightarrow> False
      | Some c \<Rightarrow> if creason c = ReasonUnknownResourceClass then classWait b e (pp_runs p) \<noteq> None
          else if creason c = ReasonUnschedulable then blocked_here e p else False)"

definition checksBlockHolds :: "intent_ops \<Rightarrow> intent_env \<Rightarrow> pass \<Rightarrow> bool" where
  "checksBlockHolds b e p \<longleftrightarrow>
     (case condition_on b (pp_in p) ConditionChecksFailing of
        None \<Rightarrow> False
      | Some c \<Rightarrow> creason c = ''MaxCheckFixes'' \<and> maxCheckFixes (ie_proj e) \<le> checkFixRounds p \<or>
          creason c = ''RepeatedFailure'' \<and> scanned_generation (cmessage c) = pj_Generation (ie_proj e))"

definition sameUser :: "user_ref option \<Rightarrow> user_ref option \<Rightarrow> bool" where "sameUser x y \<longleftrightarrow> x = y"

definition credentialBlockHolds :: "intent_ops \<Rightarrow> intent_env \<Rightarrow> bool act" where
  "credentialBlockHolds b e = with_in (\<lambda>i. case condition_on b i CredentialRequired of
       None \<Rightarrow> ret False
     | Some c \<Rightarrow>
         let from = IntentBlockedFrom i;
             a = (if from = IntentBuilding \<and> is_Approval i \<noteq> None then Some (attributeRun b e i StageBuild)
                  else case is_CredentialHold i of Some u \<Rightarrow> Some \<lparr>at_user = Some u, at_reason = ReasonApprover\<rparr> | None \<Rightarrow> None)
         in bnd (checkCredential b e (Stamp (st_Attribution (ie_set e)) a)) (\<lambda>v.
            let msg = Message v (st_AccountURL (ie_set e)) (from = IntentBuilding) in
            if \<not> v_hold v then ret False
            else if creason c = v_reason v \<and> cmessage c = msg \<and> sameUser (is_CredentialHold i) (v_user v) then ret True
            else bnd (update e (\<lambda>cur. Some ((setCondition b CredentialRequired ''True'' (v_reason v) msg cur)\<lparr>is_CredentialHold := v_user v\<rparr>)))
                   (\<lambda>_. ret True)))"

definition branchRestoreHolds :: "intent_env \<Rightarrow> intent \<Rightarrow> intent_run \<Rightarrow> bool act" where
  "branchRestoreHolds e i r =
     (if ir_PushedCommit r = [] then ret True
      else case pq_head (ie_pr e) (ir_URL r) (branchName (in_Name i)) of
        Missing \<Rightarrow> ret True | Got head \<Rightarrow> ret (head \<noteq> ir_PushedCommit r) | _ \<Rightarrow> raise ErrOther)"

definition foreign_holds :: "intent_ops \<Rightarrow> intent_env \<Rightarrow> intent \<Rightarrow> string \<Rightarrow> bool act" where
  "foreign_holds b e i url =
     bnd (findPullRequest b e i url) (\<lambda>found. case found of
       Read (Some _, own, _) \<Rightarrow> ret (\<not> own) | Read (None, _, _) \<Rightarrow> ret False | _ \<Rightarrow> raise ErrOther)"

text \<open>\<open>None\<close>: the block cannot be about this repository.\<close>

definition branchHoldCheck :: "intent_ops \<Rightarrow> intent_env \<Rightarrow> pass \<Rightarrow> string \<Rightarrow> int \<Rightarrow> project_repository \<Rightarrow> bool act option" where
  "branchHoldCheck b e p reason rnd repo =
     (let i = pp_in p; url = pjr_URL repo; l = latest (round_runs b (pp_runs p) StageBuild rnd url);
          complete = (case l of Some r \<Rightarrow> ir_Phase r = RunComplete | None \<Rightarrow> False);
          toOpen = complete \<and> recordedPullRequest b i url = None
      in if reason = ''ForeignPullRequest'' then (if toOpen then Some (foreign_holds b e i url) else None)
         else if reason = ''BranchMissing'' \<or> reason = ''BranchChanged'' then
           (case l of Some r \<Rightarrow> if toOpen then Some (branchRestoreHolds e i r) else None | None \<Rightarrow> None)
         else (case l of
             Some r \<Rightarrow> if ir_Phase r \<noteq> RunFailed then None
               else Some (bnd (branchConflict b e url rnd) (\<lambda>(sha, _). ret (sha \<noteq> [])))
           | None \<Rightarrow> Some (bnd (branchConflict b e url rnd) (\<lambda>(sha, _). ret (sha \<noteq> [])))))"

fun branches_hold :: "intent_ops \<Rightarrow> intent_env \<Rightarrow> string \<Rightarrow> int \<Rightarrow> project_repository list \<Rightarrow> bool act" where
  "branches_hold b e reason rnd [] = ret False"
| "branches_hold b e reason rnd (repo # repos) = with_pass (\<lambda>p. case branchHoldCheck b e p reason rnd repo of
       None \<Rightarrow> branches_hold b e reason rnd repos
     | Some check \<Rightarrow> bnd (rateOK b e (pjr_URL repo)) (\<lambda>ok.
         if \<not> ok then ret True
         else bnd check (\<lambda>holds. if holds then ret True else branches_hold b e reason rnd repos)))"

definition branchBlockHolds :: "intent_ops \<Rightarrow> intent_env \<Rightarrow> bool act" where
  "branchBlockHolds b e = with_pass (\<lambda>p. let i = pp_in p in case condition_on b i ConditionBranchConflict of
       None \<Rightarrow> ret False
     | Some c \<Rightarrow>
         if creason c = ''PullRequestRefused'' then ret (blocked_here e p)
         else if IntentBlockedFrom i = IntentRevising then ie_revise_branch_holds e (creason c)
         else (case (approvedRepositories b (ie_proj e) i, is_Approval i) of
             (Some repos, Some ap) \<Rightarrow>
               if \<not> pp_polled p then ret True else branches_hold b e (creason c) (iap_PlanRevision ap) repos
           | _ \<Rightarrow> ret False))"

definition pinUnmoved :: "intent_ops \<Rightarrow> intent_env \<Rightarrow> intent_run \<Rightarrow> bool act" where
  "pinUnmoved b e r =
     (case pq_resolved (ie_pr e) (ir_RepositoryRef r) of
        Broken \<Rightarrow> raise ErrOther
      | Got sha \<Rightarrow>
          if sha = [] then ret True
          else bnd (rateOK b e (ir_URL r)) (\<lambda>ok.
            if \<not> ok then ret True
            else bnd (got (pq_default_branch (ie_pr e) (ir_URL r))) (\<lambda>branch.
              bnd (got (pq_head (ie_pr e) (ir_URL r) branch)) (\<lambda>head. ret (head = sha))))
      | _ \<Rightarrow> ret True)"

fun heads_unmoved :: "intent_ops \<Rightarrow> intent_env \<Rightarrow> int \<Rightarrow> project_repository list \<Rightarrow> bool act" where
  "heads_unmoved b e rnd [] = ret False"
| "heads_unmoved b e rnd (repo # repos) = with_pass (\<lambda>p.
     case latest (round_runs b (pp_runs p) StageBuild rnd (pjr_URL repo)) of
       Some r \<Rightarrow> if \<not> imageBlocked b r then heads_unmoved b e rnd repos
         else bnd (pinUnmoved b e r) (\<lambda>un. if un then ret True else heads_unmoved b e rnd repos)
     | None \<Rightarrow> heads_unmoved b e rnd repos)"

definition headUnmoved :: "intent_ops \<Rightarrow> intent_env \<Rightarrow> bool act" where
  "headUnmoved b e = with_in (\<lambda>i. case is_Approval i of
       None \<Rightarrow> ret True
     | Some ap \<Rightarrow> (case approvedRepositories b (ie_proj e) i of
         None \<Rightarrow> ret False | Some repos \<Rightarrow> heads_unmoved b e (iap_PlanRevision ap) repos))"

definition imageBlockHolds :: "intent_ops \<Rightarrow> intent_env \<Rightarrow> bool act" where
  "imageBlockHolds b e = with_pass (\<lambda>p. case condition_on b (pp_in p) ConditionImageRequired of
       None \<Rightarrow> ret False
     | Some c \<Rightarrow>
         if \<not> requireRepositoryImage (ie_proj e) then ret False
         else if creason c = ''RepositoryImagesDisabled'' then ret (\<not> ie_images_enabled e)
         else if creason c = ''SandboxBreakerTripped'' then ret (ie_breaker_tripped e)
         else if \<not> blocked_here e p
         then bnd (memo (\<lambda>m. m\<lparr>mm_blockedAt := Some (pj_Generation (ie_proj e))\<rparr>)) (\<lambda>_. ret False)
         else if \<not> pp_polled p then ret True
         else headUnmoved b e)"

definition blockHolds :: "intent_ops \<Rightarrow> intent_env \<Rightarrow> bool act" where
  "blockHolds b e = with_pass (\<lambda>p. let i = pp_in p; proj = ie_proj e in
     if isStatusConditionTrue (io_meta b) (is_Conditions i) ConditionBudgetExhausted \<and>
        maxCostMicroUSD proj \<le> iu_Cost (is_Usage i) then ret True
     else if isStatusConditionTrue (io_meta b) (is_Conditions i) ConditionRevisionLimitReached \<and>
        maxRevisions proj \<le> revisionRounds b p then ret True
     else if unsupportedFor b i ReasonRepositoryKeyChanged \<and> blocked_here e p then ret True
     else if checksBlockHolds b e p then ret True
     else if resourceBlockHolds b e p then ret True
     else bnd (credentialBlockHolds b e) (\<lambda>held. if held then ret True
       else bnd (branchBlockHolds b e) (\<lambda>held. if held then ret True else imageBlockHolds b e)))"

subsection \<open>Resuming\<close>

definition unfinishedRound :: "intent_ops \<Rightarrow> pass \<Rightarrow> intent_run option" where
  "unfinishedRound b p =
     (case latest (round_runs b (pp_runs p) StageRevise (is_Rounds (pp_in p)) anyRepository) of
        None \<Rightarrow> None | Some r \<Rightarrow> if ir_Phase r = RunComplete \<or> ir_Phase r = RunFailed then None else Some r)"

definition roundInFlight :: "intent \<Rightarrow> bool" where
  "roundInFlight i \<longleftrightarrow> is_Phase i = IntentRevising \<or> (is_Phase i = IntentBlocked \<and> IntentBlockedFrom i = IntentRevising)"

definition resumePlan :: "intent_ops \<Rightarrow> intent_env \<Rightarrow> intent_input \<Rightarrow> intent_run option act" where
  "resumePlan b e inp = with_pass (\<lambda>p.
     let rs = round_runs b (pp_runs p) StagePlan (ii_Revision inp) anyRepository; l = latest rs in
     if (case l of Some r \<Rightarrow> ir_Phase r = RunComplete | None \<Rightarrow> False) then ret None
     else if (case l of Some r \<Rightarrow> ir_Phase r \<noteq> RunFailed | None \<Rightarrow> False) then ret l
     else if st_MaxAttempts (ie_set e) \<le> counted b (planRefused e) rs \<or> MaxIntentRunAttempt < next_attempt rs then ret None
     else bnd (planning_repository e) (\<lambda>repo.
       bnd (createRun b e StagePlan repo (ii_Revision inp) (next_attempt rs) (previousAttempt b e l)) (\<lambda>r. ret (Some r))))"

fun resume_each :: "intent_ops \<Rightarrow> intent_env \<Rightarrow> int \<Rightarrow> project_repository list \<Rightarrow> intent_run option \<Rightarrow> intent_run option \<Rightarrow>
    intent_run option act" where
  "resume_each b e rnd [] launched inFlight = ret (if launched \<noteq> None then launched else inFlight)"
| "resume_each b e rnd (repo # repos) launched inFlight = with_pass (\<lambda>p.
     let rs = round_runs b (pp_runs p) StageBuild rnd (pjr_URL repo) in
     case latest rs of
       None \<Rightarrow> resume_each b e rnd repos launched inFlight
     | Some l \<Rightarrow>
         if ir_Phase l = RunComplete then resume_each b e rnd repos launched inFlight
         else if ir_Phase l \<noteq> RunFailed
         then resume_each b e rnd repos launched (if inFlight = None then Some l else inFlight)
         else if (imageBlocked b l \<or> resourcesBlocked l) \<and> counted b (\<lambda>_. False) rs < st_MaxAttempts (ie_set e) \<and>
                 next_attempt rs \<le> MaxIntentRunAttempt
         then bnd (createRun b e StageBuild repo rnd (next_attempt rs) (previousAttempt b e (Some l))) (\<lambda>r.
                resume_each b e rnd repos (if launched = None then Some r else launched) inFlight)
         else resume_each b e rnd repos launched inFlight)"

definition resumeBuilds :: "intent_ops \<Rightarrow> intent_env \<Rightarrow> intent_approval \<Rightarrow> intent_run option act" where
  "resumeBuilds b e ap = with_in (\<lambda>i. case approvedRepositories b (ie_proj e) i of
       None \<Rightarrow> ret None | Some repos \<Rightarrow> resume_each b e (iap_PlanRevision ap) repos None None)"

definition resolve :: "intent_ops \<Rightarrow> string \<Rightarrow> intent \<Rightarrow> intent" where
  "resolve b c cur =
     (if isStatusConditionTrue (io_meta b) (is_Conditions cur) c
      then setCondition b c ''False'' ''Resolved'' (io_words b ''Resolved'') cur else cur)"

definition resumed_status :: "intent_ops \<Rightarrow> intent_run option \<Rightarrow> intent \<Rightarrow> intent" where
  "resumed_status b active cur =
     (let c = (fold (resolve b) blockingConditions cur)\<lparr>is_CredentialHold := None\<rparr> in
      case active of Some r \<Rightarrow> set_active (Some (ir_Name r, ir_UID r)) c | None \<Rightarrow> c)"

definition resume :: "intent_ops \<Rightarrow> intent_env \<Rightarrow> intent_phase \<Rightarrow> intent_run option \<Rightarrow> bool act" where
  "resume b e from active =
     bnd (setPhase e (if from = IntentNone then IntentPending else from) (resumed_status b active)) (\<lambda>_. ret True)"

definition blocked :: "intent_ops \<Rightarrow> intent_env \<Rightarrow> bool act" where
  "blocked b e =
     (if pj_Suspend (ie_proj e) then ret False
      else if multiRepoOff (ie_set e) (ie_proj e) then holdMultiRepo b e
      else bnd (blockHolds b e) (\<lambda>holds. with_pass (\<lambda>p. let i = pp_in p; from = IntentBlockedFrom i in
        if holds then
          (if \<not> unsupportedFor b i ReasonMultiRepositoryOff then ret False
           else bnd (update e (\<lambda>cur. Some (multiRepo_status b ''False'' ''Resolved'' cur))) (\<lambda>_. ret True))
        else case (from, is_Input i, is_Approval i) of
            (IntentPlanning, Some inp, _) \<Rightarrow> bnd (resumePlan b e inp) (resume b e from)
          | (IntentBuilding, _, Some ap) \<Rightarrow> bnd (catch (resumeBuilds b e ap)) (\<lambda>x. case x of
                Inl f \<Rightarrow> if f = ErrRunNameTaken then bnd (blockKeyChanged b e) (\<lambda>_. ret True) else raise f
              | Inr active \<Rightarrow> resume b e from active)
          | (IntentRevising, _, _) \<Rightarrow> resume b e from (unfinishedRound b p)
          | _ \<Rightarrow> resume b e from None)))"

end
