(* ===== verification/IntentFlow.thy ===== *)
theory IntentFlow
  imports IntentBlocked
begin

text \<open>
  A reconcile of an Intent (\<open>internal/controller/intent/intent_controller.go\<close>, \<open>nudge.go\<close>): the first
  status, the usage, an ended intent's hand-off or the active intent's poll and phase step, and the
  status comment. The reconciler's own memory of an Intent lasts as long as the process, so it is an
  argument.
\<close>

subsection \<open>The tally\<close>

definition loadRuns :: "intent_env \<Rightarrow> unit act" where
  "loadRuns e = bnd (got (ie_runs e)) (\<lambda>runs.
     touch (\<lambda>p. p\<lparr>pp_runs := sort_key ir_Created (filter (\<lambda>r. ir_IntentUID r = in_UID (pp_in p)) runs)\<rparr>))"

definition syncUsage :: "intent_env \<Rightarrow> bool act" where
  "syncUsage e = with_pass (\<lambda>p.
     if run_tally (pp_runs p) = is_Usage (pp_in p) then ret False
     else bnd (catch (update e (\<lambda>cur. Some (cur\<lparr>is_Usage := run_tally (pp_runs p)\<rparr>)))) (\<lambda>x. case x of
         Inr _ \<Rightarrow> ret True
       | Inl f \<Rightarrow> if f = ErrConflict then raise ErrConflict else ret False))"

subsection \<open>When to look again\<close>

definition pollInterval :: "intent_env \<Rightarrow> intent \<Rightarrow> duration" where
  "pollInterval e i = (if is_Phase i = IntentAwaitingApproval then st_ApprovalPollInterval (ie_set e) else st_PollInterval (ie_set e))"

definition pollWait :: "intent_env \<Rightarrow> pass \<Rightarrow> duration" where
  "pollWait e p =
     (case mm_polled (pp_memo p) of None \<Rightarrow> 0 | Some t \<Rightarrow> time_sub (t + pollInterval e (pp_in p)) (ie_now e))"

definition nextWake :: "intent_env \<Rightarrow> pass \<Rightarrow> duration" where
  "nextWake e p =
     (let w = pollWait e p; wake = (if w \<le> 0 then pollInterval e (pp_in p) else w);
          pr = (case mm_prPolled (pp_memo p) of None \<Rightarrow> 0 | Some t \<Rightarrow> time_sub (t + st_PRPollInterval (ie_set e)) (ie_now e))
      in if (is_Phase (pp_in p) = IntentInReview \<or> is_Phase (pp_in p) = IntentRevising) \<and> 0 < pr \<and> pr < wake then pr else wake)"

subsection \<open>The phase step\<close>

definition phase_step :: "intent_ops \<Rightarrow> intent_env \<Rightarrow> bool act" where
  "phase_step b e = with_in (\<lambda>i. case is_Phase i of
       IntentPending \<Rightarrow> pending b e
     | IntentPlanning \<Rightarrow> planning b e
     | IntentBuilding \<Rightarrow> building b e
     | IntentInReview \<Rightarrow> review b e
     | IntentRevising \<Rightarrow> ie_revising e
     | IntentBlocked \<Rightarrow> blocked b e
     | _ \<Rightarrow> ret False)"

definition step_pass :: "intent_ops \<Rightarrow> intent_env \<Rightarrow> bool act" where
  "step_pass b e = with_in (\<lambda>i.
     bnd (if is_Phase i \<noteq> IntentBlocked then holdMultiRepo b e else ret False) (\<lambda>stop.
       if stop then ret True else phase_step b e))"

subsection \<open>The ended Intent\<close>

definition nudgedHandOff :: "intent_ops \<Rightarrow> intent_env \<Rightarrow> bool act" where
  "nudgedHandOff b e = with_pass (\<lambda>p.
     if \<not> mm_nudged (pp_memo p) then ret False
     else bnd (memo (\<lambda>m. m\<lparr>mm_nudged := False\<rparr>)) (\<lambda>_. bnd (catch (handOff b e)) (\<lambda>x. case x of
         Inl f \<Rightarrow> bnd (memo (\<lambda>m. m\<lparr>mm_nudged := True\<rparr>)) (\<lambda>_. raise f)
       | Inr stop \<Rightarrow> ret stop)))"

definition later_look :: "intent_env \<Rightarrow> duration option" where
  "later_look e = Some (st_PRPollInterval (ie_set e))"

text \<open>A notice still owed: its write ends the pass, and while it waits or fails the status comment is still kept.\<close>

definition owed :: "intent_env \<Rightarrow> (bool \<times> bool) act \<Rightarrow> duration option act \<Rightarrow> duration option act" where
  "owed e m next = bnd (catch m) (\<lambda>x. case x of
       Inl f \<Rightarrow> if f = ErrConflict then raise f else bnd (ie_status_comment e) (\<lambda>_. raise f)
     | Inr (changed, wait) \<Rightarrow>
         if changed then ret None
         else if wait then bnd (ie_status_comment e) (\<lambda>_. ret (later_look e))
         else next)"

definition ended :: "intent_ops \<Rightarrow> intent_env \<Rightarrow> duration option act" where
  "ended b e = with_in (\<lambda>i.
     (if is_RoundNoticesThrough i < is_Rounds i then owed e (ie_ended_notices e) else id)
     (owed e (ie_untracked e)
     (bnd (ie_previews e) (\<lambda>(changed, retry).
        if changed then ret None
        else bnd (nudgedHandOff b e) (\<lambda>stop.
          if stop then ret None
          else bnd (ie_status_comment e) (\<lambda>_. ret (if retry then later_look e else None)))))))"

subsection \<open>The pass\<close>

definition run_pass :: "intent_ops \<Rightarrow> intent_env \<Rightarrow> duration option act" where
  "run_pass b e = with_in (\<lambda>i.
     if is_Phase i = IntentNone then bnd (setPhase e IntentPending id) (\<lambda>_. ret None)
     else bnd (loadRuns e) (\<lambda>_. bnd (syncUsage e) (\<lambda>changed.
       if changed then ret None
       else if IntentTerminal (is_Phase i) then ended b e
       else with_pass (\<lambda>p. bnd (if pollWait e p \<le> 0 then poll b e else ret False) (\<lambda>stop.
         if stop then ret None
         else bnd (step_pass b e) (\<lambda>stop.
           if stop then ret None
           else bnd (ie_previews e) (\<lambda>(changed, _).
             if changed then ret None
             else bnd (ie_status_comment e) (\<lambda>_. with_pass (\<lambda>p. ret (Some (max nano_second (nextWake e p))))))))))))"

definition new_pass :: "intent \<Rightarrow> intent_memo \<Rightarrow> pass" where
  "new_pass i m =
     \<lparr>pp_in = i, pp_calls = [], pp_writes = [], pp_runs = [], pp_bot = None, pp_polled = False, pp_rates = (\<lambda>_. None),
      pp_endingWaits = False, pp_comments = None, pp_own = (\<lambda>_. None), pp_pollNewest = None, pp_deferred = 0,
      pp_refused = [], pp_memo = m\<rparr>"

text \<open>\<open>has_project\<close>: the Intent's Project exists; \<open>e\<close> holds it then, with the settings' defaults filled in.\<close>

definition intent_reconcile :: "intent_ops \<Rightarrow> intent_env \<Rightarrow> bool \<Rightarrow> intent_memo \<Rightarrow> intent \<Rightarrow> duration option outcome \<times> pass" where
  "intent_reconcile b e0 has_project m i =
     (let e = e0\<lparr>ie_set := withDefaults (ie_set e0)\<rparr> in
      if in_Deleting i \<or> in_Suspend i then (Ok None, new_pass i m)
      else if \<not> has_project then (Ok (Some (st_PollInterval (ie_set e))), new_pass i m)
      else case run_pass b e (new_pass i m) of
        (Raised ErrConflict, p) \<Rightarrow> (Ok (Some nano_second), p)
      | r \<Rightarrow> r)"

end
