(* ===== verification/IntentMoves.thy ===== *)
theory IntentMoves
  imports IntentFlow
begin

text \<open>
  The Intent as an abstract machine: the moves its status may make, each with what it takes, stated
  without the handlers, their calls and their order. \<open>IntentRefine\<close> shows that every status a
  pass writes is one of these moves away from the status before it.
\<close>

subsection \<open>Authority\<close>

definition authorised :: "intent_ops \<Rightarrow> intent_env \<Rightarrow> string \<Rightarrow> command_actor \<Rightarrow> bool" where
  "authorised b e repoURL a \<longleftrightarrow> \<not> isBotActor b a \<and> isApprover (io_text b) (ie_proj e) (ca_Login a) \<and>
     (\<exists>perm. ie_permission e repoURL (ca_Login a) = Permission perm \<and> CanWrite perm)"

definition requester :: "intent \<Rightarrow> string \<Rightarrow> command_actor" where
  "requester i typ = \<lparr>ca_Login = in_RequestedLogin i, ca_ID = 0, ca_Type = typ\<rparr>"

definition newer :: "intent_action \<Rightarrow> intent_action \<Rightarrow> bool" where
  "newer x y = after (ia_At x) (ia_Source x) (ia_EventID x) y"

text \<open>The plan comment and the issue are what the plan was shown with and made from.\<close>

definition comment_as_posted :: "intent_ops \<Rightarrow> intent_env \<Rightarrow> intent_plan \<Rightarrow> bool" where
  "comment_as_posted b e pl \<longleftrightarrow> (\<exists>c. ie_comment e (pl_CommentID pl) = Got c \<and> io_digest b (cm_Body c) = pl_CommentDigest pl \<and>
     ie_edited e (cm_NodeID c) = Edited False)"

definition issue_as_planned :: "intent_ops \<Rightarrow> intent_env \<Rightarrow> intent_input \<Rightarrow> bool" where
  "issue_as_planned b e inp \<longleftrightarrow> (\<exists>issue cm. ie_issue e = Got issue \<and> ie_config e (ii_ConfigMap inp) = Got cm \<and>
     io_digest b (render b \<lparr>sn_Title = gi_Title issue, sn_Body = gi_Body issue,
       sn_Repositories = (if cf_Data cm ''repositories'' = [] then [] else split_on nl (cf_Data cm ''repositories'')),
       sn_Comments = cf_Data cm ''comments''\<rparr>) = ii_Digest inp)"

text \<open>A command is its author's own words: GitHub says its comment was never edited.\<close>

definition own_words :: "intent_env \<Rightarrow> human_action \<Rightarrow> bool" where
  "own_words e a \<longleftrightarrow> ha_source a = IntentActionLabel \<or>
     (\<exists>c. ha_comment a = Some c \<and> ie_edited e (cm_NodeID c) = Edited False)"

subsection \<open>What a move may touch\<close>

definition same_spec :: "intent \<Rightarrow> intent \<Rightarrow> bool" where
  "same_spec i j \<longleftrightarrow> in_Name j = in_Name i \<and> in_UID j = in_UID i \<and> in_Generation j = in_Generation i \<and>
     in_Created j = in_Created i \<and> in_Deleting j = in_Deleting i \<and> in_Project j = in_Project i \<and>
     in_Repository j = in_Repository i \<and> in_Number j = in_Number i \<and> in_RequestedLogin j = in_RequestedLogin i \<and>
     in_RequestedUserID j = in_RequestedUserID i \<and> in_RequestedAt j = in_RequestedAt i \<and>
     in_RequestedEventID j = in_RequestedEventID i \<and> in_Suspend j = in_Suspend i"

definition same_core :: "intent \<Rightarrow> intent \<Rightarrow> bool" where
  "same_core i j \<longleftrightarrow> same_spec i j \<and> is_Phase j = is_Phase i \<and> is_PhaseTimes j = is_PhaseTimes i \<and>
     is_CompletedAt j = is_CompletedAt i \<and> is_Input j = is_Input i \<and> is_Plan j = is_Plan i \<and>
     is_Approval j = is_Approval i \<and> is_LastTrigger j = is_LastTrigger i \<and> is_Commands j = is_Commands i"

definition observed :: "intent \<Rightarrow> intent" where
  "observed c = c\<lparr>is_ObservedGeneration := in_Generation c\<rparr>"

definition all_merged :: "intent \<Rightarrow> bool" where
  "all_merged c \<longleftrightarrow> is_PullRequests c \<noteq> [] \<and> (\<forall>pr\<in>set (is_PullRequests c). ipr_State pr = PRMerged)"

definition all_settled :: "intent \<Rightarrow> bool" where
  "all_settled c \<longleftrightarrow> (\<exists>pr\<in>set (is_PullRequests c). ipr_State pr = PRClosed) \<and>
     (\<forall>pr\<in>set (is_PullRequests c). ipr_State pr \<noteq> PROpen)"

definition may_close :: "intent_ops \<Rightarrow> intent_env \<Rightarrow> intent \<Rightarrow> intent \<Rightarrow> bool" where
  "may_close b e i c \<longleftrightarrow>
     (\<exists>a. authorised b e (in_Repository i) (ha_actor a) \<and> own_words e a \<and> ha_verb a = runes VerbCancel) \<or>
     (\<exists>issue. ie_issue e = Got issue \<and> gi_State issue = ''closed'') \<or>
     (is_Phase i = IntentPending \<and> (\<exists>typ. \<not> authorised b e (in_Repository i) (requester i typ))) \<or>
     all_settled c"

definition may_enter :: "intent_ops \<Rightarrow> intent_env \<Rightarrow> intent \<Rightarrow> intent \<Rightarrow> intent_phase \<Rightarrow> bool" where
  "may_enter b e i c to =
     (case to of
        IntentPending \<Rightarrow> is_Phase i = IntentNone
      | IntentInReview \<Rightarrow> is_Phase i = IntentBuilding \<or> is_Phase i = IntentRevising
      | IntentRevising \<Rightarrow> is_Phase i = IntentInReview
      | IntentBlocked \<Rightarrow> True
      | IntentFailed \<Rightarrow> True
      | IntentMerged \<Rightarrow> all_merged c
      | IntentClosed \<Rightarrow> may_close b e i c
      | _ \<Rightarrow> False)"

definition resume_phase :: "intent \<Rightarrow> intent_phase" where
  "resume_phase i = (if IntentBlockedFrom i = IntentNone then IntentPending else IntentBlockedFrom i)"

text \<open>Who may open a plan, and with which trigger.\<close>

definition may_plan :: "intent_ops \<Rightarrow> intent_env \<Rightarrow> intent \<Rightarrow> intent_action option \<Rightarrow> bool" where
  "may_plan b e i trig =
     (case trig of
        None \<Rightarrow> is_Phase i = IntentPending \<and> (\<exists>typ. authorised b e (in_Repository i) (requester i typ))
      | Some r \<Rightarrow> (is_Phase i = IntentAwaitingApproval \<or> is_Phase i = IntentFailed) \<and> \<not> newer (lastTrigger i) r \<and>
          (\<exists>a. r = ha_record a \<and> authorised b e (in_Repository i) (ha_actor a) \<and> own_words e a))"

definition new_input :: "intent \<Rightarrow> intent_action option \<Rightarrow> intent_input \<Rightarrow> bool" where
  "new_input i trig inp \<longleftrightarrow> ii_Revision inp = next_revision i \<and> next_revision i \<le> MaxIntentRound \<and>
     ii_Trigger inp = Some (case trig of Some r \<Rightarrow> r | None \<Rightarrow> lastTrigger i)"

definition may_approve :: "intent_ops \<Rightarrow> intent_env \<Rightarrow> intent \<Rightarrow> intent_plan \<Rightarrow> intent_input \<Rightarrow> human_action \<Rightarrow> bool" where
  "may_approve b e i pl inp a \<longleftrightarrow> is_Plan i = Some pl \<and> is_Input i = Some inp \<and>
     authorised b e (in_Repository i) (ha_actor a) \<and> own_words e a \<and> comment_as_posted b e pl \<and> issue_as_planned b e inp"

definition prev_record :: "intent_approval \<Rightarrow> intent_action" where
  "prev_record ap = \<lparr>ia_Source = iap_Source ap, ia_EventID = iap_EventID ap, ia_Login = [], ia_UserID = 0, ia_At = iap_At ap\<rparr>"

subsection \<open>The moves\<close>

inductive intent_move :: "intent_ops \<Rightarrow> intent_env \<Rightarrow> intent \<Rightarrow> intent \<Rightarrow> bool" for b e where
  aside: "same_core i j \<Longrightarrow> intent_move b e i j"
| enter: "same_core i c \<Longrightarrow> may_enter b e i c to \<Longrightarrow> SetIntentPhase c to (ie_now e) = Some d \<Longrightarrow> intent_move b e i (observed d)"
| unblock: "same_core i c \<Longrightarrow> is_Phase i = IntentBlocked \<Longrightarrow> SetIntentPhase c (resume_phase i) (ie_now e) = Some d \<Longrightarrow>
    intent_move b e i (observed d)"
| plan: "may_plan b e i trig \<Longrightarrow> new_input i trig inp \<Longrightarrow>
    SetIntentPhase (planning_status b inp trig i) IntentPlanning (ie_now e) = Some d \<Longrightarrow> intent_move b e i (observed d)"
| written: "is_Phase i = IntentPlanning \<Longrightarrow> is_Input i = Some inp \<Longrightarrow> pl_Revision pl = ii_Revision inp \<Longrightarrow> pl_PostedAt pl = None \<Longrightarrow>
    intent_move b e i (observed (i\<lparr>is_Plan := Some pl\<rparr>))"
| post: "is_Phase i = IntentPlanning \<Longrightarrow> is_Input i = Some inp \<Longrightarrow> is_Plan i = Some pl \<Longrightarrow> pl_Revision pl = ii_Revision inp \<Longrightarrow>
    SetIntentPhase (posted_status b c i) IntentAwaitingApproval (ie_now e) = Some d \<Longrightarrow> intent_move b e i (observed d)"
| approve: "is_Phase i = IntentAwaitingApproval \<Longrightarrow> may_approve b e i pl inp a \<Longrightarrow> pl_PostedAt pl = Some posted \<Longrightarrow> posted < ha_at a \<Longrightarrow>
    SetIntentPhase (approved_status b (approval_of a (pl_Revision pl) (pl_Digest pl) (ii_Digest inp)) i) IntentBuilding (ie_now e) = Some d \<Longrightarrow>
    intent_move b e i (observed d)"
| reapprove: "credentialReapproval b i \<Longrightarrow> may_approve b e i pl inp a \<Longrightarrow> is_Approval i = Some prev \<Longrightarrow>
    action_after a (prev_record prev) \<Longrightarrow>
    intent_move b e i (observed (approved_status b (approval_of a (iap_PlanRevision prev) (iap_PlanDigest prev) (iap_InputDigest prev)) i))"
| consume: "\<not> newer (lastTrigger i) r \<Longrightarrow> intent_move b e i (observed (i\<lparr>is_LastTrigger := Some r\<rparr>))"
| heard: "intent_move b e i (observed (i\<lparr>is_Commands := Some (next_commands i refused n t)\<rparr>))"

inductive_cases intent_moveE: "intent_move b e i j"

text \<open>What the handlers of rounds and of comments, which are not modelled, are allowed.\<close>

inductive round_move :: "intent_env \<Rightarrow> intent \<Rightarrow> intent \<Rightarrow> bool" for e where
  aside: "same_core i j \<Longrightarrow> round_move e i j"
| enter: "same_core i c \<Longrightarrow> SetIntentPhase c to (ie_now e) = Some d \<Longrightarrow>
    (is_Phase i, to) \<in> {(IntentInReview, IntentRevising), (IntentRevising, IntentInReview), (IntentInReview, IntentBlocked),
       (IntentRevising, IntentBlocked)} \<or> (to = IntentMerged \<and> all_merged c) \<or> (to = IntentClosed \<and> all_settled c) \<Longrightarrow>
    round_move e i (observed d)"

lemma round_move_intent: "round_move e i j \<Longrightarrow> intent_move b e i j"
  by (cases rule: round_move.cases, assumption)
    (auto intro: intent_move.aside intro!: intent_move.enter simp: may_enter_def may_close_def)

subsection \<open>Core and order\<close>

lemma same_core_refl [simp]: "same_core i i" by (simp add: same_core_def same_spec_def)

lemma same_core_trans: "same_core i j \<Longrightarrow> same_core j k \<Longrightarrow> same_core i k" by (simp add: same_core_def same_spec_def)

lemma same_core_observed [simp]: "same_core i (observed c) = same_core i c"
  by (simp add: same_core_def same_spec_def observed_def)

lemma same_core_aside [simp]:
  "same_core i (set_active x c) = same_core i c" "same_core i (setCondition b typ st reason msg c) = same_core i c"
  "same_core i (c\<lparr>is_PullRequests := prs\<rparr>) = same_core i c" "same_core i (c\<lparr>is_Branch := s\<rparr>) = same_core i c"
  "same_core i (c\<lparr>is_Usage := u\<rparr>) = same_core i c" "same_core i (c\<lparr>is_CredentialHold := h\<rparr>) = same_core i c"
  "same_core i (c\<lparr>is_ActiveRun := x\<rparr>) = same_core i c" "same_core i (c\<lparr>is_Conditions := cs\<rparr>) = same_core i c"
  by (simp_all add: same_core_def same_spec_def set_active_def setCondition_def)

lemma newer_irrefl [simp]: "\<not> newer x x" by (simp add: newer_def after_def)

lemma newer_trans: "newer x y \<Longrightarrow> newer y z \<Longrightarrow> newer x z"
  by (auto simp: newer_def after_def split: if_splits)

lemma newer_asym: "newer x y \<Longrightarrow> \<not> newer y x" using newer_trans newer_irrefl by blast

lemma newer_co_trans: "\<not> newer x y \<Longrightarrow> \<not> newer y z \<Longrightarrow> \<not> newer x z"
  by (auto simp: newer_def after_def split: if_splits)

lemma action_newer: "action_after a r = newer (ha_record a) r"
  by (simp add: action_after_def newer_def ha_record_def)

lemma event_newer: "event_after v r = newer (ha_record (label_action v vb l)) r"
  by (simp add: event_after_def newer_def ha_record_def label_action_def)

end
