(* ===== verification/IntentRefine.thy ===== *)
theory IntentRefine
  imports IntentMoves
begin

text \<open>
  The handlers against the abstract machine: a small calculus for what a handler writes, the acts
  that write nothing, and one lemma per handler that all its writes are moves.
\<close>

named_theorems calm "acts that write no status"
named_theorems vc "how the parts of an act make up the whole"

subsection \<open>The calculus\<close>

fun chain :: "('s \<Rightarrow> 's \<Rightarrow> bool) \<Rightarrow> 's \<Rightarrow> 's list \<Rightarrow> bool" where
  "chain R i [] = True"
| "chain R i (j # js) = (R i j \<and> chain R j js)"

lemma chain_append: "chain R i (xs @ ys) = (chain R i xs \<and> chain R (last (i # xs)) ys)"
  by (induction xs arbitrary: i) auto

lemma chain_mono: "chain R i js \<Longrightarrow> (\<And>x y. R x y \<Longrightarrow> S x y) \<Longrightarrow> chain S i js"
  by (induction js arbitrary: i) auto

definition good :: "(intent \<Rightarrow> intent \<Rightarrow> bool) \<Rightarrow> ('a \<Rightarrow> intent \<Rightarrow> bool) \<Rightarrow> pass \<Rightarrow> 'a outcome \<times> pass \<Rightarrow> bool" where
  "good R Q p r \<longleftrightarrow>
     (\<exists>ws. pp_writes (snd r) = pp_writes p @ ws \<and> chain R (pp_in p) ws \<and> pp_in (snd r) = last (pp_in p # ws)) \<and>
     (\<forall>v. fst r = Ok v \<longrightarrow> Q v (pp_in (snd r)))"

definition doing :: "(intent \<Rightarrow> intent \<Rightarrow> bool) \<Rightarrow> intent \<Rightarrow> 'a act \<Rightarrow> ('a \<Rightarrow> intent \<Rightarrow> bool) \<Rightarrow> bool" where
  "doing R i m Q \<longleftrightarrow> (\<forall>p. pp_in p = i \<longrightarrow> good R Q p (m p))"

definition calm_act :: "'a act \<Rightarrow> bool" where
  "calm_act m \<longleftrightarrow> (\<forall>p. pp_in (snd (m p)) = pp_in p \<and> pp_writes (snd (m p)) = pp_writes p)"

definition gives :: "'a act \<Rightarrow> ('a \<Rightarrow> intent \<Rightarrow> bool) \<Rightarrow> bool" where
  "gives m F \<longleftrightarrow> (\<forall>p v q. m p = (Ok v, q) \<longrightarrow> F v (pp_in p))"

lemma goodI:
  "pp_writes (snd r) = pp_writes p @ ws \<Longrightarrow> chain R (pp_in p) ws \<Longrightarrow> pp_in (snd r) = last (pp_in p # ws) \<Longrightarrow>
   (\<And>v. fst r = Ok v \<Longrightarrow> Q v (pp_in (snd r))) \<Longrightarrow> good R Q p r"
  unfolding good_def by blast

lemma good_quiet:
  "pp_writes (snd r) = pp_writes p \<Longrightarrow> pp_in (snd r) = pp_in p \<Longrightarrow> (\<And>v. fst r = Ok v \<Longrightarrow> Q v (pp_in p)) \<Longrightarrow> good R Q p r"
  by (rule goodI [of _ _ "[]"]) auto

lemma good_trans:
  assumes "good R S p (Ok v, q)" "good R Q q r"
  shows "good R Q p r"
proof -
  obtain ws where ws: "pp_writes q = pp_writes p @ ws" "chain R (pp_in p) ws" "pp_in q = last (pp_in p # ws)"
    using assms(1) unfolding good_def by auto
  obtain us where us: "pp_writes (snd r) = pp_writes q @ us" "chain R (pp_in q) us" "pp_in (snd r) = last (pp_in q # us)"
    and Q: "\<And>v. fst r = Ok v \<Longrightarrow> Q v (pp_in (snd r))"
    using assms(2) unfolding good_def by blast
  show ?thesis
  proof (rule goodI [of _ _ "ws @ us"])
    show "pp_writes (snd r) = pp_writes p @ ws @ us" using ws(1) us(1) by simp
    show "chain R (pp_in p) (ws @ us)" using ws(2,3) us(2) by (simp add: chain_append)
    show "pp_in (snd r) = last (pp_in p # ws @ us)" using ws(3) us(3) by (cases us) auto
  qed (rule Q)
qed

lemma good_raised: "good R S p (Raised f, q) \<Longrightarrow> good R Q p (Raised f, q)"
  unfolding good_def by simp

lemma doing_ret [vc]: "Q v i \<Longrightarrow> doing R i (ret v) Q"
  unfolding doing_def ret_def by (auto intro: good_quiet)

lemma doing_raise [vc]: "doing R i (raise f) Q"
  unfolding doing_def raise_def by (auto intro: good_quiet)

lemma doing_with_in [vc]: "doing R i (k i) Q \<Longrightarrow> doing R i (with_in k) Q"
  unfolding doing_def with_in_def by simp

lemma doing_with_pass [vc]: "(\<And>p. pp_in p = i \<Longrightarrow> doing R i (k p) Q) \<Longrightarrow> doing R i (with_pass k) Q"
  unfolding doing_def with_pass_def by blast

lemma doing_write:
  assumes m: "doing R i m S" and k: "\<And>v j. S v j \<Longrightarrow> doing R j (k v) Q"
  shows "doing R i (bnd m k) Q"
  unfolding doing_def
proof (intro allI impI)
  fix p :: pass assume p: "pp_in p = i"
  obtain y r where r: "m p = (y, r)" by force
  have g: "good R S p (y, r)" using m p r unfolding doing_def by metis
  show "good R Q p (bnd m k p)"
  proof (cases y)
    case (Raised f)
    then show ?thesis using g r by (simp add: bnd_def good_raised)
  next
    case (Ok v)
    then have "S v (pp_in r)" using g unfolding good_def by simp
    then have "good R Q r (k v r)" using k unfolding doing_def by blast
    then show ?thesis using good_trans [of R S p v r Q "k v r"] g r Ok by (simp add: bnd_def)
  qed
qed

lemma doing_bnd: "doing R i m (\<lambda>v j. doing R j (k v) Q) \<Longrightarrow> doing R i (bnd m k) Q"
  by (rule doing_write)

lemma doing_mono:
  assumes "doing R i m Q" "\<And>v j. Q v j \<Longrightarrow> S v j"
  shows "doing R i m S"
  using assms unfolding doing_def good_def by metis

lemma calm_doing:
  assumes "calm_act m" "gives m F" "\<And>v. F v i \<Longrightarrow> Q v i"
  shows "doing R i m Q"
  unfolding doing_def
proof (intro allI impI)
  fix p :: pass assume p: "pp_in p = i"
  show "good R Q p (m p)"
  proof (rule good_quiet)
    show "Q v (pp_in p)" if "fst (m p) = Ok v" for v
      using assms(2,3) p that unfolding gives_def by (metis prod.collapse)
  qed (use assms(1) in \<open>simp_all add: calm_act_def\<close>)
qed

lemma gives_any: "gives m (\<lambda>_ _. True)" by (simp add: gives_def)

lemma doing_calm:
  assumes "calm_act m" "\<And>v. doing R i (k v) Q"
  shows "doing R i (bnd m k) Q"
  by (rule doing_bnd, rule calm_doing [OF assms(1) gives_any]) (rule assms(2))

lemma doing_gives:
  assumes "calm_act m" "gives m F" "\<And>v. F v i \<Longrightarrow> doing R i (k v) Q"
  shows "doing R i (bnd m k) Q"
  by (rule doing_bnd, rule calm_doing [OF assms(1,2)]) (rule assms(3))

lemma doing_catch:
  assumes "doing R i m S" "\<And>v j. S v j \<Longrightarrow> Q (Inr v) j" "\<And>f j. Q (Inl f) j"
  shows "doing R i (catch m) Q"
  unfolding doing_def
proof (intro allI impI)
  fix p :: pass assume p: "pp_in p = i"
  obtain y q where y: "m p = (y, q)" by force
  then have "good R S p (y, q)" using assms(1) p unfolding doing_def by metis
  then show "good R Q p (catch m p)"
    using assms(2,3) y unfolding catch_def good_def by (auto split: outcome.splits)
qed

lemma doing_update [vc]:
  assumes "\<And>c. mutate i = Some c \<Longrightarrow> R i (observed c) \<and> Q () (observed c)"
  shows "doing R i (update e mutate) Q"
  unfolding doing_def
proof (intro allI impI)
  fix p :: pass assume p: "pp_in p = i"
  show "good R Q p (update e mutate p)"
  proof (cases "\<exists>c. mutate i = Some c \<and> ie_write e (length (pp_writes p)) = Written")
    case True
    then obtain c where c: "mutate i = Some c" "ie_write e (length (pp_writes p)) = Written" by blast
    then have u: "update e mutate p = (Ok (), p\<lparr>pp_in := observed c, pp_writes := pp_writes p @ [observed c]\<rparr>)"
      using p by (simp add: update_def observed_def Let_def)
    show ?thesis unfolding u by (rule goodI [of _ _ "[observed c]"]) (use assms [OF c(1)] p in auto)
  next
    case False
    then have "snd (update e mutate p) = p" "\<forall>v. fst (update e mutate p) \<noteq> Ok v"
      using p by (auto simp: update_def Let_def split: option.splits write_answer.splits)
    then show ?thesis by (intro good_quiet) simp_all
  qed
qed

lemma doing_if [vc]: "(c \<Longrightarrow> doing R i m Q) \<Longrightarrow> (\<not> c \<Longrightarrow> doing R i n Q) \<Longrightarrow> doing R i (if c then m else n) Q"
  by simp
lemma doing_option [vc]: "(x = None \<Longrightarrow> doing R i m Q) \<Longrightarrow> (\<And>v. x = Some v \<Longrightarrow> doing R i (k v) Q) \<Longrightarrow>
    doing R i (case x of None \<Rightarrow> m | Some v \<Rightarrow> k v) Q"
  by (cases x) auto
lemma doing_prod [vc]: "(\<And>v w. x = (v, w) \<Longrightarrow> doing R i (k v w) Q) \<Longrightarrow> doing R i (case x of (v, w) \<Rightarrow> k v w) Q"
  by (cases x) auto
lemma doing_sum [vc]: "(\<And>f. x = Inl f \<Longrightarrow> doing R i (m f) Q) \<Longrightarrow> (\<And>v. x = Inr v \<Longrightarrow> doing R i (k v) Q) \<Longrightarrow>
    doing R i (case x of Inl f \<Rightarrow> m f | Inr v \<Rightarrow> k v) Q"
  by (cases x) auto
lemma doing_list [vc]: "(x = [] \<Longrightarrow> doing R i m Q) \<Longrightarrow> (\<And>v vs. x = v # vs \<Longrightarrow> doing R i (k v vs) Q) \<Longrightarrow>
    doing R i (case x of [] \<Rightarrow> m | v # vs \<Rightarrow> k v vs) Q"
  by (cases x) auto
lemma doing_Let [vc]: "doing R i (f x) Q \<Longrightarrow> doing R i (Let x f) Q" by (simp add: Let_def)

subsection \<open>Acts that write nothing\<close>

lemma calm_ret [calm]: "calm_act (ret v)" by (simp add: calm_act_def ret_def)
lemma calm_raise [calm]: "calm_act (raise f)" by (simp add: calm_act_def raise_def)
lemma calm_bnd [calm]: "calm_act m \<Longrightarrow> (\<And>v. calm_act (k v)) \<Longrightarrow> calm_act (bnd m k)"
  by (auto simp: calm_act_def bnd_def split: prod.splits outcome.splits) (metis snd_conv)+
lemma calm_with_in [calm]: "(\<And>i. calm_act (k i)) \<Longrightarrow> calm_act (with_in k)" by (simp add: calm_act_def with_in_def)
lemma calm_with_pass [calm]: "(\<And>p. calm_act (k p)) \<Longrightarrow> calm_act (with_pass k)" by (simp add: calm_act_def with_pass_def)
lemma calm_touch: "(\<And>p. pp_in (f p) = pp_in p \<and> pp_writes (f p) = pp_writes p) \<Longrightarrow> calm_act (touch f)"
  by (simp add: calm_act_def touch_def)
lemma calm_memo [calm]: "calm_act (memo f)" unfolding memo_def by (rule calm_touch) simp
lemma calm_attempt [calm]: "calm_act (attempt e c)" by (simp add: calm_act_def attempt_def)
lemma calm_catch [calm]: "calm_act m \<Longrightarrow> calm_act (catch m)"
  by (auto simp: calm_act_def catch_def split: prod.splits outcome.splits) (metis snd_conv)+
lemma calm_if [calm]: "calm_act m \<Longrightarrow> calm_act n \<Longrightarrow> calm_act (if c then m else n)" by simp
lemma calm_Let [calm]: "calm_act (f x) \<Longrightarrow> calm_act (Let x f)" by (simp add: Let_def)
lemma calm_option [calm]: "calm_act m \<Longrightarrow> (\<And>v. calm_act (k v)) \<Longrightarrow> calm_act (case x of None \<Rightarrow> m | Some v \<Rightarrow> k v)"
  by (cases x) auto
lemma calm_prod [calm]: "(\<And>v w. calm_act (k v w)) \<Longrightarrow> calm_act (case x of (v, w) \<Rightarrow> k v w)" by (cases x) auto
lemma calm_sum [calm]: "(\<And>f. calm_act (m f)) \<Longrightarrow> (\<And>v. calm_act (k v)) \<Longrightarrow> calm_act (case x of Inl f \<Rightarrow> m f | Inr v \<Rightarrow> k v)"
  by (cases x) auto
lemma calm_list [calm]: "calm_act m \<Longrightarrow> (\<And>v vs. calm_act (k v vs)) \<Longrightarrow> calm_act (case x of [] \<Rightarrow> m | v # vs \<Rightarrow> k v vs)"
  by (cases x) auto
lemma calm_reply [calm]:
  "(\<And>v. calm_act (k v)) \<Longrightarrow> calm_act m1 \<Longrightarrow> calm_act m2 \<Longrightarrow> calm_act m3 \<Longrightarrow> calm_act m4 \<Longrightarrow> calm_act m5 \<Longrightarrow>
   calm_act (case x of Got v \<Rightarrow> k v | Missing \<Rightarrow> m1 | Denied \<Rightarrow> m2 | Refusal \<Rightarrow> m3 | Unresolved \<Rightarrow> m4 | Broken \<Rightarrow> m5)"
  by (cases x) auto
lemma calm_read [calm]:
  "(\<And>v. calm_act (k v)) \<Longrightarrow> calm_act m1 \<Longrightarrow> calm_act m2 \<Longrightarrow> calm_act (case x of Read v \<Rightarrow> k v | ReadRefused \<Rightarrow> m1 | ReadFails \<Rightarrow> m2)"
  by (cases x) auto
lemma calm_edit [calm]:
  "(\<And>v. calm_act (k v)) \<Longrightarrow> calm_act m1 \<Longrightarrow> calm_act m2 \<Longrightarrow>
   calm_act (case x of Edited v \<Rightarrow> k v | NodeNotFound \<Rightarrow> m1 | EditUnknown \<Rightarrow> m2)"
  by (cases x) auto
lemma calm_permission [calm]:
  "calm_act m1 \<Longrightarrow> calm_act m2 \<Longrightarrow> calm_act m3 \<Longrightarrow> (\<And>v. calm_act (k v)) \<Longrightarrow>
   calm_act (case x of NoSuchUser \<Rightarrow> m1 | PermissionForbidden \<Rightarrow> m2 | PermissionError \<Rightarrow> m3 | Permission v \<Rightarrow> k v)"
  by (cases x) auto

lemma calm_bool [calm]: "calm_act m \<Longrightarrow> calm_act n \<Longrightarrow> calm_act (case x of True \<Rightarrow> m | False \<Rightarrow> n)"
  by (cases x) auto

lemma calm_each [calm]: "(\<And>x. calm_act (f x)) \<Longrightarrow> calm_act (each f xs)"
  by (induction xs) (auto intro!: calm)

lemma calm_got [calm]: "calm_act (got r)" by (cases r) (auto simp: got_def intro!: calm)
lemma calm_deref [calm]: "calm_act (deref r)" by (cases r) (auto simp: deref_def intro!: calm)
lemma calm_must [calm]: "calm_act (must e c)" unfolding must_def by (intro calm)
lemma calm_parsed [calm]: "calm_act (parsed r)" by (cases r) (auto simp: parsed_def intro!: calm)

lemma calm_readBot [calm]: "calm_act (readBot e)"
  unfolding readBot_def by (intro calm calm_touch) simp
lemma calm_authorizeIn [calm]: "calm_act (authorizeIn b e url a)"
  unfolding authorizeIn_def by (intro calm)
lemma calm_authorize [calm]: "calm_act (authorize b e a)" unfolding authorize_def by (intro calm)
lemma calm_everEdited [calm]: "calm_act (everEdited e c)" unfolding everEdited_def by (intro calm)
lemma calm_listComments [calm]: "calm_act (listComments b e since)"
  unfolding listComments_def by (intro calm calm_touch) simp
lemma calm_findOwn [calm]: "calm_act (findOwn b e marker since)" unfolding findOwn_def by (intro calm)
lemma calm_postComment [calm]: "calm_act (postComment e marker)" unfolding postComment_def by (intro calm)
lemma calm_postOnce [calm]: "calm_act (postOnce b e marker since)"
  unfolding postOnce_def by (intro calm calm_touch) simp
lemma calm_notice [calm]: "calm_act (notice b e key since)" unfolding notice_def by (intro calm)
lemma calm_rateOK [calm]: "calm_act (rateOK b e url)"
  unfolding rateOK_def Let_def by (intro calm calm_touch) simp_all

lemma calm_createRun [calm]: "calm_act (createRun b e stage repo rnd n prev)"
  unfolding createRun_def Let_def by (intro calm calm_touch) simp
lemma calm_ensureConfigMap [calm]: "calm_act (ensureConfigMap e cm owner)"
  unfolding ensureConfigMap_def by (intro calm)
lemma calm_planBytes [calm]: "calm_act (planBytes b e pl)" unfolding planBytes_def by (intro calm)
lemma calm_runInput [calm]: "calm_act (runInput b e r)" unfolding runInput_def by (intro calm)
lemma calm_ensureRunRepository [calm]: "calm_act (ensureRunRepository e r name url)"
  unfolding ensureRunRepository_def by (intro calm)
lemma calm_ensureRunChildren: "ir_Stage r \<noteq> StageRevise \<Longrightarrow> calm_act (ensureRunChildren b e r)"
  unfolding ensureRunChildren_def by (simp, intro calm)
lemma calm_planning_repository [calm]: "calm_act (planning_repository e)"
  unfolding planning_repository_def by (intro calm)
lemma calm_branchConflict [calm]: "calm_act (branchConflict b e url rnd)"
  unfolding branchConflict_def Let_def by (intro calm)
lemma calm_create_builds [calm]: "calm_act (create_builds b e rnd ls)"
  by (induction ls) (auto intro!: calm)
lemma calm_checkCredential [calm]: "calm_act (checkCredential b e a)"
  unfolding checkCredential_def by (intro calm)
lemma calm_unedited [calm]: "calm_act (unedited e cs)"
  by (induction cs) (auto intro!: calm)
lemma calm_feedbackSince [calm]: "calm_act (feedbackSince b e since)"
  unfolding feedbackSince_def by (intro calm)
lemma calm_ensureInputConfigMap [calm]: "calm_act (ensureInputConfigMap b e n s c)"
  unfolding ensureInputConfigMap_def by (intro calm)
lemma calm_inputSnapshot [calm]: "calm_act (inputSnapshot e inp)" unfolding inputSnapshot_def by (intro calm)
lemma calm_replan_comments [calm]: "calm_act (replan_comments b e i)" unfolding replan_comments_def by (intro calm)
lemma calm_estimateNotice [calm]: "calm_act (estimateNotice b e rnd raw since)"
  unfolding estimateNotice_def by (intro calm)
lemma calm_plan_changed [calm]: "calm_act (plan_changed e found)" unfolding plan_changed_def by (intro calm)
lemma calm_ownPullRequest [calm]: "calm_act (ownPullRequest b e url pr base)" unfolding ownPullRequest_def by (intro calm)
lemma calm_findPullRequest [calm]: "calm_act (findPullRequest b e i url)" unfolding findPullRequest_def by (intro calm)
lemma calm_rate_reply [calm]: "calm_act (rate_reply b e url)" unfolding rate_reply_def by (intro calm)
lemma calm_readDeparted [calm]: "calm_act (readDepartedPullRequest b e rec)"
  unfolding readDepartedPullRequest_def depart_def Let_def by (intro calm)
lemma calm_read_prs [calm]: "calm_act (read_prs b e prs c)"
  by (induction prs arbitrary: c) (auto intro!: calm)
lemma calm_readReviewPRStates [calm]: "calm_act (readReviewPRStates b e prs)"
  unfolding readReviewPRStates_def by (intro calm calm_touch) simp
lemma calm_partialNotice [calm]: "calm_act (partialNotice b e t)" unfolding partialNotice_def by (intro calm)
lemma calm_polled_prs [calm]: "calm_act (polled_prs e)" unfolding polled_prs_def by (intro calm)
lemma calm_rate_each [calm]: "calm_act (rate_each b e prs)" by (induction prs) (auto intro!: calm)
lemma calm_rateOKForPullRequests [calm]: "calm_act (rateOKForPullRequests b e)"
  unfolding rateOKForPullRequests_def by (intro calm)
lemma calm_noteRefused [calm]: "calm_act (noteRefused a)" unfolding noteRefused_def by (intro calm_touch) simp
lemma calm_stillToAnswer [calm]: "calm_act (stillToAnswer b e a)"
  unfolding stillToAnswer_def by (intro calm calm_touch) simp
lemma calm_commands_of [calm]: "calm_act (commands_of b e cs)"
  by (induction cs) (auto intro!: calm)
lemma calm_commands [calm]: "calm_act (commands b e)" unfolding commands_def by (intro calm)
lemma calm_removeApproveLabel [calm]: "calm_act (removeApproveLabel e)" unfolding removeApproveLabel_def by (intro calm)
lemma calm_approveLabelAction [calm]: "calm_act (approveLabelAction b e issue events)"
  unfolding approveLabelAction_def Let_def by (intro calm)
lemma calm_gather [calm]: "calm_act (gather b e issue events)"
  unfolding gather_def Let_def by (intro calm)
lemma calm_answer_notice [calm]: "calm_act (answer_notice b e a)" unfolding answer_notice_def by (intro calm)
lemma calm_replyDone [calm]: "calm_act (replyDone b e a)" unfolding replyDone_def by (intro calm)
lemma calm_approvalChanged [calm]: "calm_act (approvalChanged b e pl inp issue)"
  unfolding approvalChanged_def by (intro calm)
lemma calm_react [calm]: "calm_act (react e n)" unfolding react_def by (intro calm)
lemma calm_branchRestoreHolds [calm]: "calm_act (branchRestoreHolds e i r)" unfolding branchRestoreHolds_def by (intro calm)
lemma calm_foreign_holds [calm]: "calm_act (foreign_holds b e i url)" unfolding foreign_holds_def by (intro calm)
lemma calm_branchHoldCheck: "branchHoldCheck b e p reason rnd repo = Some m \<Longrightarrow> calm_act m"
  by (auto simp: branchHoldCheck_def Let_def split: if_splits option.splits intro!: calm)
lemma calm_branches_hold [calm]: "calm_act (branches_hold b e reason rnd repos)"
proof (induction repos)
  case (Cons repo repos)
  have "calm_act (case branchHoldCheck b e p reason rnd repo of None \<Rightarrow> branches_hold b e reason rnd repos
      | Some check \<Rightarrow> bnd (rateOK b e (pjr_URL repo)) (\<lambda>ok. if \<not> ok then ret True
          else bnd check (\<lambda>holds. if holds then ret True else branches_hold b e reason rnd repos)))" for p
    by (cases "branchHoldCheck b e p reason rnd repo") (auto intro!: calm Cons.IH dest: calm_branchHoldCheck)
  then show ?case by (simp add: calm_with_pass)
qed (simp add: calm)
lemma calm_pinUnmoved [calm]: "calm_act (pinUnmoved b e r)" unfolding pinUnmoved_def by (intro calm)
lemma calm_heads_unmoved [calm]: "calm_act (heads_unmoved b e rnd repos)" by (induction repos) (auto intro!: calm)
lemma calm_headUnmoved [calm]: "calm_act (headUnmoved b e)" unfolding headUnmoved_def by (intro calm)
lemma calm_imageBlockHolds [calm]: "calm_act (imageBlockHolds b e)" unfolding imageBlockHolds_def by (intro calm)
lemma calm_resumePlan [calm]: "calm_act (resumePlan b e inp)" unfolding resumePlan_def Let_def by (intro calm)
lemma calm_resume_each [calm]: "calm_act (resume_each b e rnd repos x y)"
  by (induction repos arbitrary: x y) (auto simp: Let_def intro!: calm)
lemma calm_resumeBuilds [calm]: "calm_act (resumeBuilds b e ap)" unfolding resumeBuilds_def by (intro calm)
lemma calm_loadRuns [calm]: "calm_act (loadRuns e)" unfolding loadRuns_def by (intro calm calm_touch) simp

end
