(* ===== verification/IntentSteps.thy ===== *)
theory IntentSteps
  imports IntentRefine
begin

text \<open>
  Every handler of a pass writes only moves of the abstract machine. \<open>rests e\<close> is what the handlers
  that are not modelled keep to: their writes are round moves, and the input of a revise run is
  handed over without a write.
\<close>

definition anything :: "'a \<Rightarrow> intent \<Rightarrow> bool" where "anything v i \<longleftrightarrow> True"

lemma anything [simp]: "anything v i" by (simp add: anything_def)

definition rests :: "intent_env \<Rightarrow> bool" where
  "rests e \<longleftrightarrow> (\<forall>r. calm_act (ie_revise_children e r)) \<and>
     (\<forall>i. doing (round_move e) i (ie_round_records e) anything \<and> (\<forall>prs. doing (round_move e) i (ie_start_round e prs) anything) \<and>
        doing (round_move e) i (ie_revising e) anything \<and> doing (round_move e) i (ie_previews e) anything \<and>
        doing (round_move e) i (ie_ended_notices e) anything \<and> doing (round_move e) i (ie_untracked e) anything \<and>
        doing (round_move e) i (ie_status_comment e) anything) \<and>
     (\<forall>reason. calm_act (ie_revise_branch_holds e reason))"

lemma doing_relation:
  assumes "doing R i m Q" "\<And>x y. R x y \<Longrightarrow> S x y"
  shows "doing S i m Q"
  using assms(1) unfolding doing_def good_def by (metis assms(2) chain_mono)

lemma rest_doing:
  "doing (round_move e) i m anything \<Longrightarrow> doing (intent_move b e) i m anything"
  by (erule doing_relation) (rule round_move_intent)

lemma doing_any: "doing R i m Q \<Longrightarrow> doing R i m anything"
  by (erule doing_mono) simp

subsection \<open>Values\<close>

lemma gives_authorize: "gives (authorize b e a) (\<lambda>v i. fst v = authorised b e (in_Repository i) a)"
  by (auto simp: gives_def authorize_def with_in_def authorizeIn_def ret_def raise_def authorised_def
      split: permission_answer.splits if_splits)

lemma gives_everEdited: "gives (everEdited e c) (\<lambda>v i. v = (ie_edited e (cm_NodeID c) \<noteq> Edited False))"
  by (auto simp: gives_def everEdited_def ret_def raise_def split: edit_answer.splits)

lemma gives_got: "gives (got r) (\<lambda>v i. r = Got v)"
  by (cases r) (auto simp: gives_def got_def ret_def raise_def)

lemma gives_deref: "gives (deref r) (\<lambda>v i. r = Some v)"
  by (cases r) (auto simp: gives_def deref_def ret_def raise_def)

lemma doing_authorize:
  "(\<And>ok bot. ok = authorised b e (in_Repository i) a \<Longrightarrow> doing R i (k (ok, bot)) Q) \<Longrightarrow> doing R i (bnd (authorize b e a) k) Q"
  by (rule doing_gives [OF calm_authorize gives_authorize]) auto

lemma doing_everEdited:
  "(\<And>v. v = (ie_edited e (cm_NodeID c) \<noteq> Edited False) \<Longrightarrow> doing R i (k v) Q) \<Longrightarrow> doing R i (bnd (everEdited e c) k) Q"
  by (rule doing_gives [OF calm_everEdited gives_everEdited])

lemma doing_got: "(\<And>v. r = Got v \<Longrightarrow> doing R i (k v) Q) \<Longrightarrow> doing R i (bnd (got r) k) Q"
  by (rule doing_gives [OF calm_got gives_got])

lemma doing_deref: "(\<And>v. r = Some v \<Longrightarrow> doing R i (k v) Q) \<Longrightarrow> doing R i (bnd (deref r) k) Q"
  by (rule doing_gives [OF calm_deref gives_deref])

lemmas facts = doing_authorize doing_everEdited doing_got doing_deref

subsection \<open>Moves of the common kinds\<close>

definition keep :: "intent \<Rightarrow> intent \<Rightarrow> bool" where
  "keep i j \<longleftrightarrow> lastTrigger j = lastTrigger i \<and> same_spec i j"

lemma keep_refl [simp]: "keep i i" by (simp add: keep_def same_spec_def)
lemma keep_trans: "keep i j \<Longrightarrow> keep j k \<Longrightarrow> keep i k" by (simp add: keep_def same_spec_def)

lemma lastTrigger_same:
  "same_spec i j \<Longrightarrow> is_LastTrigger j = is_LastTrigger i \<Longrightarrow> lastTrigger j = lastTrigger i"
  by (cases "is_LastTrigger i") (simp_all add: lastTrigger_def same_spec_def)

lemma same_spec_refl [simp]: "same_spec i i" by (simp add: same_spec_def)
lemma same_spec_trans: "same_spec i j \<Longrightarrow> same_spec j k \<Longrightarrow> same_spec i k" by (simp add: same_spec_def)

lemma keepI: "same_spec i j \<Longrightarrow> is_LastTrigger j = is_LastTrigger i \<Longrightarrow> keep i j"
  by (simp add: keep_def lastTrigger_same)

lemma keep_core: "same_core i j \<Longrightarrow> keep i j"
  by (rule keepI) (simp_all add: same_core_def)

lemma phase_fields:
  assumes "SetIntentPhase c to t = Some d"
  shows "d = c \<and> is_Phase c = to \<or>
    is_Phase c \<noteq> to \<and> to \<in> set (intentTransitions (is_Phase c)) \<and>
    d = c\<lparr>is_Phase := to,
          is_PhaseTimes := keep_latest MaxIntentPhaseTimes (is_PhaseTimes c @ [\<lparr>pt_Phase = to, pt_At = t\<rparr>]),
          is_CompletedAt := (if IntentTerminal to then Some t else None)\<rparr>"
proof (cases "is_Phase c = to")
  case True
  then show ?thesis using assms by (simp add: SetIntentPhase_def CanTransitionIntent_def)
next
  case False
  then have "to \<in> set (intentTransitions (is_Phase c))"
    using assms by (simp add: SetIntentPhase_def CanTransitionIntent_def split: if_splits)
  moreover from this False have "d = c\<lparr>is_Phase := to,
          is_PhaseTimes := keep_latest MaxIntentPhaseTimes (is_PhaseTimes c @ [\<lparr>pt_Phase = to, pt_At = t\<rparr>]),
          is_CompletedAt := (if IntentTerminal to then Some t else None)\<rparr>"
    using assms by (simp add: SetIntentPhase_def CanTransitionIntent_def)
  ultimately show ?thesis using False by simp
qed

lemma phase_keeps:
  assumes "SetIntentPhase c to t = Some d"
  shows "same_spec c (observed d) \<and> is_LastTrigger (observed d) = is_LastTrigger c \<and> is_Phase (observed d) = to \<and>
    is_Input (observed d) = is_Input c \<and> is_Plan (observed d) = is_Plan c \<and> is_Approval (observed d) = is_Approval c \<and>
    is_Commands (observed d) = is_Commands c \<and> is_PullRequests (observed d) = is_PullRequests c"
  using phase_fields [OF assms] by (elim disjE conjE) (simp_all add: same_spec_def observed_def)

lemma keep_phase: "SetIntentPhase c to t = Some d \<Longrightarrow> keep i c \<Longrightarrow> keep i (observed d)"
  using phase_keeps [of c to t d] keepI [of c "observed d"] keep_trans by blast

lemma doing_aside:
  assumes "\<And>c. mutate i = Some c \<Longrightarrow> same_core i c"
  shows "doing (intent_move b e) i (update e mutate) (\<lambda>_ j. same_core i j)"
proof (rule doing_update)
  fix c assume "mutate i = Some c"
  then have "same_core i (observed c)" using assms by simp
  then show "intent_move b e i (observed c) \<and> same_core i (observed c)" using intent_move.aside by blast
qed

lemma doing_enter:
  assumes "same_core i (f i)" "may_enter b e i (f i) to"
  shows "doing (intent_move b e) i (setPhase e to f) (\<lambda>_ j. keep i j)"
  unfolding setPhase_def
proof (rule doing_update)
  fix d assume "SetIntentPhase (f i) to (ie_now e) = Some d"
  then show "intent_move b e i (observed d) \<and> keep i (observed d)"
    using intent_move.enter [OF assms] keep_phase keep_core [OF assms(1)] by blast
qed

lemma doing_then: "doing R i m S \<Longrightarrow> (\<And>u j. S u j \<Longrightarrow> Q v j) \<Longrightarrow> doing R i (bnd m (\<lambda>_. ret v)) Q"
  by (rule doing_write, assumption) (rule doing_ret, blast)

lemma doing_block: "doing (intent_move b e) i (block b e typ reason) (\<lambda>_ j. keep i j)"
  unfolding block_def
  by (rule doing_write [OF doing_enter], simp, simp add: may_enter_def) (rule calm_doing [OF calm_memo gives_any], simp)

lemma doing_fail: "doing (intent_move b e) i (fail e) (\<lambda>_ j. keep i j)"
  unfolding fail_def by (rule doing_calm [OF calm_must]) (rule doing_enter, auto simp: may_enter_def)

lemma doing_fail_True: "doing (intent_move b e) i (bnd (fail e) (\<lambda>_. ret v)) anything"
  by (rule doing_then [OF doing_fail]) simp

lemma doing_block_True: "doing (intent_move b e) i (bnd (block b e typ reason) (\<lambda>_. ret v)) anything"
  by (rule doing_then [OF doing_block]) simp

lemma doing_active: "doing (intent_move b e) i (bnd (update e (\<lambda>cur. Some (set_active a cur))) (\<lambda>_. ret v)) anything"
  by (rule doing_then [OF doing_aside]) auto

lemma doing_calm_any: "calm_act m \<Longrightarrow> doing R i m anything"
  by (rule calm_doing [OF _ gives_any]) auto

subsection \<open>Launching\<close>

lemma doing_hold: "doing (intent_move b e) i (intentHoldForCredential b e a reapprove) anything"
  unfolding intentHoldForCredential_def
  by (rule doing_calm [OF calm_checkCredential], rule doing_if, rule doing_ret, simp)
    (rule doing_then [OF doing_enter], auto simp: may_enter_def)

lemma doing_mayLaunch: "doing (intent_move b e) i (mayLaunch b e) anything"
  unfolding mayLaunch_def
  by (rule doing_if, rule doing_ret, simp, rule doing_with_in, rule doing_if, rule doing_block_True, rule doing_ret, simp)

lemma children_calm: "rests e \<Longrightarrow> calm_act (ensureRunChildren b e r)"
  unfolding ensureRunChildren_def rests_def by (intro calm) auto

lemma doing_ensureActive:
  assumes "rests e"
  shows "doing (intent_move b e) i (ensureActive b e r) anything"
  unfolding ensureActive_def
  by (rule doing_if, rule doing_ret, simp, rule doing_calm, rule calm_catch, rule children_calm [OF assms], rule doing_sum,
      rule doing_if, rule doing_fail_True, rule doing_raise, rule doing_with_in, rule doing_if, rule doing_ret, simp,
      rule doing_active)

lemma doing_launchPlan:
  assumes "rests e"
  shows "doing (intent_move b e) i (launchPlan b e rnd n prev) anything"
  unfolding launchPlan_def
  apply (rule doing_write [OF doing_mayLaunch])
  apply (rule doing_prod doing_if doing_ret doing_fail_True anything doing_with_in)+
  apply (rule doing_write [OF doing_hold])
  apply (rule doing_if doing_ret anything doing_calm [OF calm_planning_repository] doing_calm [OF calm_createRun] doing_ensureActive [OF assms])+
  done

lemma doing_blockOnBranch: "doing (intent_move b e) i (blockOnBranch b e rnd repo) anything"
  unfolding blockOnBranch_def
  by (rule doing_calm [OF calm_branchConflict]) (rule doing_prod doing_if doing_ret anything doing_block_True)+

lemma doing_block_on_any: "doing (intent_move b e) i (block_on_any b e rnd ls) anything"
proof (induction ls arbitrary: i)
  case (Cons l ls)
  obtain repo n prev where "l = (repo, n, prev)" by (cases l)
  then show ?case unfolding block_on_any.simps \<open>l = (repo, n, prev)\<close>
    by (intro doing_write [OF doing_blockOnBranch ] doing_if doing_ret anything Cons.IH)
next
  case Nil
  show ?case unfolding block_on_any.simps by (rule doing_ret) simp
qed

lemma doing_launchBuilds: "doing (intent_move b e) i (launchBuilds b e rnd ls) anything"
  unfolding launchBuilds_def
  apply (rule doing_write [OF doing_mayLaunch])
  apply (rule doing_prod doing_if doing_ret doing_fail_True anything)+
  apply (rule doing_write [OF doing_block_on_any])
  apply (rule doing_if doing_ret anything doing_with_in)+
  apply (rule doing_write [OF doing_hold])
  apply (rule doing_if doing_ret anything doing_calm [OF calm_create_builds])+
  done

subsection \<open>Planning\<close>

lemma keep_planning_status: "keep i (planning_status b inp None i)"
  by (rule keepI) (simp_all add: planning_status_def same_spec_def)

lemma same_planning_status: "same_spec i (planning_status b inp trig i)"
  by (simp add: planning_status_def same_spec_def)

definition moves_trigger :: "intent \<Rightarrow> intent_action option \<Rightarrow> intent \<Rightarrow> bool" where
  "moves_trigger i trig j \<longleftrightarrow> same_spec i j \<and> lastTrigger j = (case trig of Some r \<Rightarrow> r | None \<Rightarrow> lastTrigger i)"

lemma moves_trigger_planning:
  assumes "SetIntentPhase (planning_status b inp trig i) IntentPlanning t = Some d"
  shows "moves_trigger i trig (observed d)"
proof -
  have s: "same_spec i (observed d)" "is_LastTrigger (observed d) = is_LastTrigger (planning_status b inp trig i)"
    using phase_keeps [OF assms] same_planning_status same_spec_trans by blast+
  show ?thesis
  proof (cases trig)
    case None
    then show ?thesis using s lastTrigger_same by (simp add: moves_trigger_def planning_status_def)
  next
    case (Some r)
    then show ?thesis using s by (simp add: moves_trigger_def planning_status_def lastTrigger_def)
  qed
qed

lemma doing_startPlanning:
  assumes "may_plan b e i trig"
  shows "doing (intent_move b e) i (startPlanning b e issue trig) (\<lambda>_ j. moves_trigger i trig j)"
proof -
  have set: "doing (intent_move b e) i (setPhase e IntentPlanning (planning_status b inp trig)) (\<lambda>_ j. moves_trigger i trig j)"
    if "new_input i trig inp" for inp
    unfolding setPhase_def
  proof (rule doing_update)
    fix d assume d: "SetIntentPhase (planning_status b inp trig i) IntentPlanning (ie_now e) = Some d"
    show "intent_move b e i (observed d) \<and> moves_trigger i trig (observed d)"
      using intent_move.plan [OF assms that d] moves_trigger_planning [OF d] by blast
  qed
  show ?thesis
    unfolding startPlanning_def
    apply (rule doing_with_in)
    apply (rule doing_calm)
     apply (intro calm)
    apply (rule doing_calm)
     apply (intro calm)
    apply (rule doing_prod)
    apply (rule doing_if, rule doing_raise)
    apply (rule doing_calm [OF calm_ensureInputConfigMap])
    apply (rule set)
    apply (simp add: new_input_def not_less)
    done
qed

lemma doing_plan_True:
  "may_plan b e i trig \<Longrightarrow> doing (intent_move b e) i (bnd (startPlanning b e issue trig) (\<lambda>_. ret v)) anything"
  by (rule doing_then [OF doing_startPlanning]) auto

lemma doing_pending:
  assumes "is_Phase i = IntentPending"
  shows "doing (intent_move b e) i (pending b e) anything"
  unfolding pending_def Let_def
  apply (rule doing_with_in doing_calm [OF calm_readBot] doing_with_pass doing_authorize)+
  apply (simp only: prod.case)
  apply (rule doing_if)
   apply (rule doing_plan_True)
   apply (simp add: may_plan_def assms requester_def)
   apply blast
  apply (rule doing_calm [OF calm_must] doing_calm [OF calm_notice])+
  apply (rule doing_then [OF doing_enter])
    apply simp
   apply (simp add: may_enter_def may_close_def assms requester_def)
   apply blast
  apply simp
  done

lemma doing_record_plan:
  assumes "is_Phase i = IntentPlanning" "is_Input i = Some inp" "ir_Round r = ii_Revision inp"
  shows "doing (intent_move b e) i (record_plan b e r) anything"
  unfolding record_plan_def
  apply (rule doing_with_in doing_calm [OF calm_parsed] doing_calm [OF calm_ensureConfigMap])+
  apply (rule doing_update)
  using assms by (auto intro!: intent_move.written)

lemma doing_post_plan:
  assumes "is_Phase i = IntentPlanning" "is_Input i = Some inp" "is_Plan i = Some pl" "pl_Revision pl = ii_Revision inp"
  shows "doing (intent_move b e) i (post_plan b e marker pl rnd) anything"
proof -
  have set: "doing (intent_move b e) i (setPhase e IntentAwaitingApproval (posted_status b c)) anything" for c
    unfolding setPhase_def by (rule doing_update) (auto intro: intent_move.post [OF assms])
  show ?thesis
    unfolding post_plan_def
    apply (rule doing_with_in doing_calm [OF calm_planBytes])+
    apply (rule doing_prod)
    apply (rule doing_option)
     apply (rule doing_raise)
    subgoal for raw x y z
      apply (cases y)
        apply (simp only: plan_render.case)
        apply (rule doing_Let)
        apply (rule doing_calm [OF calm_findOwn] doing_calm [OF calm_plan_changed])+
        apply (rule doing_calm)
         apply (intro calm)
        apply (rule set)
       apply (simp_all only: plan_render.case doing_raise)
      done
    done
qed

lemma doing_writeBack:
  assumes "is_Phase i = IntentPlanning" "is_Input i = Some inp" "ir_Round r = ii_Revision inp"
  shows "doing (intent_move b e) i (writeBack b e r) anything"
  unfolding writeBack_def
  apply (rule doing_with_in)
  apply (rule doing_option)
   apply (rule doing_then [OF doing_record_plan [OF assms]], simp)
  apply (rule doing_if)
   apply (rule doing_then [OF doing_record_plan [OF assms]], simp)
  apply (rule doing_then [OF doing_post_plan [OF assms(1,2)]])
  using assms(3) by simp_all

lemma latest_round: "latest (round_runs b runs stage rnd url) = Some r \<Longrightarrow> ir_Round r = rnd \<and> ir_Stage r = stage \<and> r \<in> set runs"
  by (auto simp: latest_def round_runs_def split: if_splits dest!: last_in_set)

lemma doing_retry_plan: "rests e \<Longrightarrow> doing (intent_move b e) i (retry_plan b e rnd rs l) anything"
  unfolding retry_plan_def by (rule doing_if, rule doing_fail_True, rule doing_launchPlan)

lemma doing_planning:
  assumes "rests e" "is_Phase i = IntentPlanning"
  shows "doing (intent_move b e) i (planning b e) anything"
  unfolding planning_def Let_def
  apply (rule doing_with_pass)
  apply (simp only:)
  apply (rule doing_deref)
  apply (rule doing_option)
   apply (rule doing_launchPlan [OF assms(1)])
  apply (rule doing_if)
   apply (rule doing_prod)
   apply (rule doing_if)
    apply (rule doing_writeBack [OF assms(2)], assumption, simp add: latest_round)
   apply (rule doing_calm)
    apply (intro calm)
   apply (rule doing_retry_plan [OF assms(1)])
  apply (rule doing_if)
   apply (rule doing_if)
    apply (rule doing_if)
     apply (rule doing_fail_True)
    apply (unfold blockUnschedulable_def)
    apply (rule doing_block_True)
   apply (rule doing_retry_plan [OF assms(1)])
  apply (rule doing_ensureActive [OF assms(1)])
  done

end
