(* ===== verification/IntentTurns.thy ===== *)
theory IntentTurns
  imports IntentSteps
begin

text \<open>
  The rest of the handlers against the abstract machine: building, the endings, the human actions, the
  blocked Intent, and the whole pass.
\<close>

subsection \<open>Building\<close>

lemma doing_done: "doing R i m anything \<Longrightarrow> doing R i (bnd m (\<lambda>_. ret v)) anything"
  by (rule doing_then) auto

lemma doing_true: "doing R i (ret v) anything" by (rule doing_ret) simp

lemma doing_blockBuild: "doing (intent_move b e) i (blockBuild b e r) anything"
  unfolding blockBuild_def blockUnschedulable_def by (rule doing_if) (rule doing_any [OF doing_block])+

lemma doing_blockOnClass: "doing (intent_move b e) i (blockOnClass b e runs) (\<lambda>held j. held \<or> j = i)"
  unfolding blockOnClass_def
  by (rule doing_option, rule doing_ret, simp) (rule doing_then [OF doing_block], simp)

lemma doing_block_pr: "doing (intent_move b e) i (block_pr b e reason) anything"
  unfolding block_pr_def by (rule doing_block_True)

lemma doing_record_pr:
  assumes "is_Phase i = IntentBuilding"
  shows "doing (intent_move b e) i (record_pr b e repos rec) anything"
  unfolding record_pr_def Let_def
  by (rule doing_with_in, rule doing_done, rule doing_if)
    (rule doing_any [OF doing_enter] doing_any [OF doing_aside], auto simp: may_enter_def assms)+

lemma doing_create_pr:
  assumes "is_Phase i = IntentBuilding"
  shows "doing (intent_move b e) i (create_pr b e r base repos) anything"
  unfolding create_pr_def
  by (rule doing_with_in doing_deref doing_if doing_raise doing_calm [OF calm_attempt] doing_record_pr [OF assms] doing_block_pr)+

lemma doing_openPullRequest:
  assumes "is_Phase i = IntentBuilding"
  shows "doing (intent_move b e) i (openPullRequest b e r repos) anything"
proof -
  have head: "doing (intent_move b e) i (case rep of
         Missing \<Rightarrow> block_pr b e ''BranchMissing'' | Denied \<Rightarrow> block_pr b e ''PullRequestRefused''
       | Refusal \<Rightarrow> block_pr b e ''PullRequestRefused'' | Unresolved \<Rightarrow> raise ErrOther | Broken \<Rightarrow> raise ErrOther
       | Got head \<Rightarrow> if head \<noteq> ir_PushedCommit r then block_pr b e ''BranchChanged'' else create_pr b e r base repos) anything"
    for rep base
    by (cases rep) (simp_all add: doing_block_pr doing_raise doing_create_pr [OF assms])
  have "doing (intent_move b e) i (case found of
       ReadRefused \<Rightarrow> block_pr b e ''PullRequestRefused''
     | ReadFails \<Rightarrow> raise ErrOther
     | Read (Some pr, own, base) \<Rightarrow>
         if \<not> own then block_pr b e ''ForeignPullRequest'' else record_pr b e repos (new_record (ir_URL r) r pr)
     | Read (None, _, base) \<Rightarrow> (case pq_head (ie_pr e) (ir_URL r) (branchName (in_Name i)) of
         Missing \<Rightarrow> block_pr b e ''BranchMissing''
       | Denied \<Rightarrow> block_pr b e ''PullRequestRefused''
       | Refusal \<Rightarrow> block_pr b e ''PullRequestRefused''
       | Unresolved \<Rightarrow> raise ErrOther
       | Broken \<Rightarrow> raise ErrOther
       | Got head \<Rightarrow> if head \<noteq> ir_PushedCommit r then block_pr b e ''BranchChanged'' else create_pr b e r base repos)) anything"
    for found
  proof (cases found)
    case (Read x)
    obtain pr own base where x: "x = (pr, own, base)" by (cases x)
    show ?thesis unfolding Read x
      by (cases pr) (simp_all add: head doing_block_pr doing_record_pr [OF assms])
  qed (simp_all add: doing_block_pr doing_raise)
  then show ?thesis
    unfolding openPullRequest_def by (intro doing_with_in doing_calm [OF calm_findPullRequest])
qed

lemma doing_openPullRequests:
  assumes "is_Phase i = IntentBuilding"
  shows "doing (intent_move b e) i (openPullRequests b e rnd repos) anything"
  unfolding openPullRequests_def
  apply (rule doing_with_pass)
  apply (rule doing_option)
   apply (rule doing_done, rule doing_any [OF doing_enter])
    apply (auto simp: may_enter_def assms) [2]
  apply (rule doing_deref, rule doing_openPullRequest [OF assms])
  done

lemma doing_ensureBuilds:
  assumes "rests e"
  shows "doing (intent_move b e) i (ensureBuilds b e runs) anything"
  unfolding ensureBuilds_def
  apply (rule doing_calm)
   apply (intro calm children_calm [OF assms])
  apply (rule doing_sum doing_if doing_raise doing_fail_True doing_with_in doing_list doing_true doing_active)+
  done

lemma doing_round_verdict:
  "(v = RoundFails \<Longrightarrow> doing R i m Q) \<Longrightarrow> (\<And>br. v = RoundGoes br \<Longrightarrow> doing R i (k br) Q) \<Longrightarrow>
   doing R i (case v of RoundFails \<Rightarrow> m | RoundGoes br \<Rightarrow> k br) Q"
  by (cases v) auto

lemma doing_catch_any: "doing R i m anything \<Longrightarrow> doing R i (catch m) anything"
  by (rule doing_catch) auto

lemma doing_launched:
  assumes "rests e"
  shows "doing (intent_move b e) i (bnd (catch (launchBuilds b e rnd ls)) (\<lambda>x. case x of
       Inl f \<Rightarrow> if f = ErrRunNameTaken then bnd (blockKeyChanged b e) (\<lambda>_. ret True) else raise f
     | Inr (rs, stop) \<Rightarrow> if stop then ret True else ensureBuilds b e (inFlight @ rs))) anything"
  unfolding blockKeyChanged_def
  by (rule doing_write [OF doing_catch_any [OF doing_launchBuilds]])
    (rule doing_sum doing_prod doing_if doing_true doing_raise doing_block_True doing_ensureBuilds [OF assms])+

lemma doing_building:
  assumes "rests e" "is_Phase i = IntentBuilding"
  shows "doing (intent_move b e) i (building b e) anything"
  unfolding building_def
  apply (rule doing_with_pass)
  apply (simp only:)
  apply (rule doing_option, rule doing_fail_True)
  apply (rule doing_option, rule doing_fail_True)
  apply (rule doing_round_verdict, rule doing_fail_True)
  apply (rule doing_option)
   apply (rule doing_write [OF doing_blockOnClass])
   apply (erule disjE)
    apply (simp only: if_True, rule doing_true)
   apply (simp only:)
   apply (rule doing_if, rule doing_true)
   apply (rule doing_if, rule doing_openPullRequests [OF assms(2)])
   apply (rule doing_if, rule doing_ensureBuilds [OF assms(1)])
   apply (rule doing_launched [OF assms(1)])
  apply (rule doing_done [OF doing_blockBuild])
  done

subsection \<open>The endings\<close>

definition counts_ok :: "pr_counts \<Rightarrow> bool" where
  "counts_ok c \<longleftrightarrow> pc_mergedN c \<le> length (filter (\<lambda>pr. ipr_State pr = PRMerged) (pc_prs c)) \<and>
     pc_closedN c \<le> length (filter (\<lambda>pr. ipr_State pr = PRClosed) (pc_prs c))"

lemma gives_ret: "F v i \<Longrightarrow> (\<And>i. F v i) \<Longrightarrow> gives (ret v) F" by (simp add: gives_def ret_def)

lemma gives_raise: "gives (raise f) F" by (simp add: gives_def raise_def)

lemma gives_bnd:
  assumes "calm_act m" "\<And>v. gives (k v) F"
  shows "gives (bnd m k) F"
  unfolding gives_def
proof (intro allI impI)
  fix p v q assume m: "bnd m k p = (Ok v, q)"
  obtain y r where r: "m p = (y, r)" by force
  then have "pp_in r = pp_in p" using assms(1) unfolding calm_act_def by (metis snd_conv)
  then show "F v (pp_in p)" using m r assms(2) unfolding gives_def bnd_def by (cases y) (auto, metis)
qed

lemma count_pr_ok: "counts_ok c \<Longrightarrow> counts_ok (count_pr r stale c) \<and> length (pc_prs (count_pr r stale c)) = Suc (length (pc_prs c))"
  by (auto simp: counts_ok_def count_pr_def Let_def split: pr_state.splits)

definition read_ok :: "nat \<Rightarrow> pr_counts option \<Rightarrow> bool" where
  "read_ok n v \<longleftrightarrow> (case v of None \<Rightarrow> True | Some d \<Rightarrow> counts_ok d \<and> length (pc_prs d) = n)"

lemma gives_read_prs:
  "counts_ok c \<Longrightarrow> gives (read_prs b e prs c) (\<lambda>v i. read_ok (length (pc_prs c) + length prs) v)"
proof (induction prs arbitrary: c)
  case Nil
  then show ?case by (simp add: gives_def ret_def read_ok_def)
next
  case (Cons rec prs)
  have step: "gives (read_prs b e prs (count_pr r stale c)) (\<lambda>v i. read_ok (length (pc_prs c) + length (rec # prs)) v)" for r stale
    using Cons.IH [of "count_pr r stale c"] count_pr_ok [OF Cons.prems, of r stale] by simp
  show ?case
  proof (cases "leftProject b (ie_proj e) (ipr_Repository rec)")
    case True
    have "gives (bnd (readDepartedPullRequest b e rec) (\<lambda>(r, stale). read_prs b e prs (count_pr r stale c)))
        (\<lambda>v i. read_ok (length (pc_prs c) + length (rec # prs)) v)"
    proof (rule gives_bnd [OF calm_readDeparted])
      show "gives (case x of (r, stale) \<Rightarrow> read_prs b e prs (count_pr r stale c))
          (\<lambda>v i. read_ok (length (pc_prs c) + length (rec # prs)) v)" for x
        using step by (cases x) simp
    qed
    then show ?thesis using True by simp
  next
    case False
    show ?thesis
    proof (cases "readPullRequest e rec")
      case (Got x)
      then show ?thesis using False step [of _ False] by (cases x) (simp_all add: gives_def ret_def read_ok_def)
    qed (use False in \<open>simp_all add: gives_raise\<close>)
  qed
qed

lemma gives_readReview:
  "gives (readReviewPRStates b e prs) (\<lambda>v i. read_ok (length prs) v)"
proof -
  have "gives (read_prs b e prs no_counts) (\<lambda>v i. read_ok (length prs) v)"
    using gives_read_prs [of no_counts] by (simp add: counts_ok_def no_counts_def)
  then show ?thesis
    unfolding readReviewPRStates_def gives_def bnd_def ret_def touch_def
    by (fastforce split: prod.splits outcome.splits option.splits)
qed

lemma all_merged_counts:
  assumes "counts_ok c" "pc_mergedN c = length (pc_prs c)" "pc_prs c \<noteq> []"
  shows "all_merged (i\<lparr>is_PullRequests := pc_prs c\<rparr>)"
proof -
  have "length (filter (\<lambda>pr. ipr_State pr = PRMerged) (pc_prs c)) = length (pc_prs c)"
    using assms(1,2) length_filter_le [of "\<lambda>pr. ipr_State pr = PRMerged" "pc_prs c"] by (simp add: counts_ok_def)
  then have "filter (\<lambda>pr. ipr_State pr = PRMerged) (pc_prs c) = pc_prs c"
    by (metis filter_True length_filter_less less_irrefl)
  then show ?thesis using assms(3) by (auto simp: all_merged_def filter_id_conv)
qed

lemma filters_cover:
  assumes "length xs \<le> length (filter P xs) + length (filter Q xs)" "\<And>x. \<not> (P x \<and> Q x)" "x \<in> set xs"
  shows "P x \<or> Q x"
proof (rule ccontr)
  assume "\<not> (P x \<or> Q x)"
  then have "length (filter (\<lambda>x. P x \<or> Q x) xs) < length xs" using assms(3) by (rule length_filter_less [rotated])
  moreover have "length (filter (\<lambda>x. P x \<or> Q x) xs) = length (filter P xs) + length (filter Q xs)"
    using assms(2) by (induction xs) auto
  ultimately show False using assms(1) by linarith
qed

lemma all_settled_counts:
  assumes "counts_ok c" "pc_mergedN c + pc_closedN c = length (pc_prs c)" "pc_mergedN c \<noteq> length (pc_prs c)"
  shows "all_settled (i\<lparr>is_PullRequests := pc_prs c\<rparr>)"
proof -
  let ?m = "\<lambda>pr. ipr_State pr = PRMerged" and ?c = "\<lambda>pr. ipr_State pr = PRClosed"
  have "length (pc_prs c) \<le> length (filter ?m (pc_prs c)) + length (filter ?c (pc_prs c))"
    using assms(1,2) by (simp add: counts_ok_def)
  then have "\<forall>pr\<in>set (pc_prs c). ?m pr \<or> ?c pr" using filters_cover [of "pc_prs c" ?m ?c] by auto
  moreover have "0 < pc_closedN c" using assms(2,3) by linarith
  then have "0 < length (filter ?c (pc_prs c))" using assms(1) unfolding counts_ok_def by linarith
  then have "\<exists>pr\<in>set (pc_prs c). ?c pr" by (auto simp: filter_empty_conv)
  ultimately show ?thesis by (auto simp: all_settled_def)
qed

lemma doing_merged:
  assumes "all_merged (i\<lparr>is_PullRequests := prs\<rparr>)"
  shows "doing (intent_move b e) i (merged b e prs tm) anything"
  unfolding merged_def
  by (rule doing_with_in, rule doing_calm [OF calm_notice], rule doing_calm [OF calm_must], rule doing_any [OF doing_enter])
    (use assms in \<open>simp_all add: may_enter_def all_merged_def\<close>)

lemma doing_endReview:
  assumes "counts_ok c" "pc_prs c \<noteq> []"
  shows "doing (intent_move b e) i (endReview b e c) (\<lambda>ended j. ended \<or> j = i)"
  unfolding endReview_def Let_def
  apply (rule doing_with_in)
  apply (rule doing_if, rule doing_ret, simp)
  apply (rule doing_if)
   apply (rule doing_then [OF doing_merged [OF all_merged_counts [OF assms(1) _ assms(2)]]], assumption, simp)
  apply (rule doing_if)
   apply (rule doing_calm, intro calm)
   apply (rule doing_calm [OF calm_must])
   apply (rule doing_then [OF doing_enter])
     apply simp
    apply (simp add: may_enter_def may_close_def all_settled_counts [OF assms(1)])
   apply simp
  apply (rule doing_ret, simp)
  done

lemma rests_doing:
  assumes "rests e"
  shows "doing (intent_move b e) i (ie_round_records e) anything" "doing (intent_move b e) i (ie_start_round e prs) anything"
    "doing (intent_move b e) i (ie_revising e) anything" "doing (intent_move b e) i (ie_previews e) anything"
    "doing (intent_move b e) i (ie_ended_notices e) anything" "doing (intent_move b e) i (ie_untracked e) anything"
    "doing (intent_move b e) i (ie_status_comment e) anything"
  using assms unfolding rests_def by (blast intro: rest_doing)+

lemma doing_reviewNow:
  assumes "rests e"
  shows "doing (intent_move b e) i (reviewNow b e) anything"
proof -
  have records: "doing (intent_move b e) j (bnd (ie_round_records e) (\<lambda>changed. if changed then ret True
      else with_in (\<lambda>j. if is_Phase j \<noteq> IntentInReview then ret False else ie_start_round e (pc_prs c)))) anything" for j c
    by (rule doing_write [OF rests_doing(1) [OF assms]])
      (rule doing_if doing_true doing_with_in rests_doing(2) [OF assms])+
  show ?thesis
    unfolding reviewNow_def
    apply (rule doing_calm [OF calm_polled_prs])
    apply (rule doing_with_in)
    apply (rule doing_if, rule doing_true)
    apply (rule doing_gives [OF calm_readReviewPRStates gives_readReview])
    apply (rule doing_option, rule doing_true)
    apply (rule doing_write [OF doing_endReview])
      apply (simp add: read_ok_def)
     apply (force simp: read_ok_def)
    apply (rule doing_if, rule doing_true)
    apply (erule disjE, erule (1) notE)
    apply hypsubst
    apply (rule doing_if)
     apply (rule doing_then [OF doing_aside])
      apply auto [2]
    apply (rule records)
    done
qed

lemma doing_review:
  assumes "rests e"
  shows "doing (intent_move b e) i (review b e) anything"
  unfolding review_def
  apply (rule doing_with_pass)
  apply (rule doing_if, rule doing_true)
  apply (rule doing_calm [OF calm_catch [OF calm_rateOKForPullRequests]])
  apply (rule doing_sum)
   apply (rule doing_calm [OF calm_polled_prs], rule doing_raise)
  apply (rule doing_if, rule doing_reviewNow [OF assms])
  apply (rule doing_calm [OF calm_polled_prs], rule doing_true)
  done

lemma doing_issueClosed:
  assumes "rests e" "ie_issue e = Got issue" "gi_State issue = ''closed''"
  shows "doing (intent_move b e) i (issueClosed b e) anything"
proof -
  have close: "doing (intent_move b e) j (bnd (setPhase e IntentClosed (set_active None)) (\<lambda>_. ret True)) anything" for j
    by (rule doing_then [OF doing_enter]) (use assms(2,3) in \<open>auto simp: may_enter_def may_close_def\<close>)
  show ?thesis
    unfolding issueClosed_def Let_def
    apply (rule doing_with_in)
    apply (rule doing_if, rule close)
    apply (rule doing_calm [OF calm_rateOKForPullRequests])
    apply (rule doing_if, rule doing_true)
    apply (rule doing_write [OF doing_reviewNow [OF assms(1)]])
    apply (rule doing_if doing_true doing_with_pass)+
    apply (simp only:)
    apply (rule doing_if doing_true close)+
    done
qed

end
