(* ===== verification/IntentHeard.thy ===== *)
theory IntentHeard
  imports IntentTurns
begin

text \<open>
  The human actions against the abstract machine. What the poll gathers is in order and still to answer,
  and each answer is a move: the trigger an action consumes is never older than the newest consumed
  before it.
\<close>

subsection \<open>The order of the actions\<close>

definition in_order :: "human_action list \<Rightarrow> bool" where
  "in_order as \<longleftrightarrow> sorted_wrt (\<lambda>a c. \<not> newer (ha_record a) (ha_record c)) as"

lemma set_insert_action [simp]: "set (insert_action a as) = insert a (set as)"
  by (induction as) auto

lemma set_sort_actions [simp]: "set (sort_actions as) = set as"
  by (induction as) (simp_all add: sort_actions_def)

lemma insert_in_order: "in_order as \<Longrightarrow> in_order (insert_action a as)"
proof (induction as)
  case (Cons c cs)
  then have IH: "in_order (insert_action a cs)" by (simp add: in_order_def)
  show ?case
  proof (cases "newer (ha_record a) (ha_record c)")
    case True
    then have "\<not> newer (ha_record c) (ha_record a)" by (rule newer_asym)
    then show ?thesis using True IH Cons.prems by (auto simp: in_order_def action_newer)
  next
    case False
    then have "\<forall>d\<in>set cs. \<not> newer (ha_record a) (ha_record d)"
      using Cons.prems newer_co_trans by (simp add: in_order_def)
    then show ?thesis using False Cons.prems by (simp add: in_order_def action_newer)
  qed
qed (simp add: in_order_def)

lemma sorted_in_order: "in_order (sort_actions as)"
  by (induction as) (simp_all add: sort_actions_def insert_in_order in_order_def [of "[]"])

subsection \<open>What is gathered\<close>

definition fits :: "intent \<Rightarrow> human_action \<Rightarrow> bool" where
  "fits i a \<longleftrightarrow> (if ha_source a = IntentActionLabel then \<not> ha_recorded a else ha_comment a \<noteq> None) \<and>
     (ha_verb a = runes VerbReplan \<and> \<not> ha_recorded a \<longrightarrow> \<not> newer (lastTrigger i) (ha_record a))"

lemma gives_bnd2:
  assumes "calm_act m" "gives m F" "\<And>v. gives (k v) (G v)" "\<And>v w i. F v i \<Longrightarrow> G v w i \<Longrightarrow> H w i"
  shows "gives (bnd m k) H"
  unfolding gives_def
proof (intro allI impI)
  fix p v q assume m: "bnd m k p = (Ok v, q)"
  obtain y r where r: "m p = (y, r)" by force
  then have in_r: "pp_in r = pp_in p" using assms(1) unfolding calm_act_def by (metis snd_conv)
  obtain x where x: "y = Ok x" "k x r = (Ok v, q)" using m r unfolding bnd_def by (cases y) auto
  have "F x (pp_in p)" using assms(2) r x(1) unfolding gives_def by blast
  moreover have "G x v (pp_in p)" using assms(3) x(2) in_r unfolding gives_def by metis
  ultimately show "H v (pp_in p)" by (rule assms(4))
qed

lemma gives_with_pass: "(\<And>p. gives (k p) (\<lambda>v i. pp_in p = i \<longrightarrow> F v i)) \<Longrightarrow> gives (with_pass k) F"
  unfolding gives_def with_pass_def by blast

lemma gives_with_in: "(\<And>i. gives (k i) (\<lambda>v j. i = j \<longrightarrow> F v j)) \<Longrightarrow> gives (with_in k) F"
  unfolding gives_def with_in_def by blast

lemma verbs_differ [simp]:
  "runes VerbApprove \<noteq> runes VerbReplan" "runes VerbApprove \<noteq> runes VerbCancel" "runes VerbReplan \<noteq> runes VerbCancel"
  "runes VerbReplan \<noteq> runes VerbApprove" "runes VerbCancel \<noteq> runes VerbApprove" "runes VerbCancel \<noteq> runes VerbReplan"
  by (simp_all add: runes_def VerbApprove_def VerbReplan_def VerbCancel_def)

lemma ha_record_recorded [simp]: "ha_record (a\<lparr>ha_recorded := x\<rparr>) = ha_record a"
  by (simp add: ha_record_def)

lemma gives_stillToAnswer:
  assumes "ha_source a = IntentActionCommand" "ha_comment a \<noteq> None"
  shows "gives (stillToAnswer b e a) (\<lambda>x i. \<forall>y. x = Some y \<longrightarrow> fits i y)"
  using assms newer_asym
  by (auto simp: gives_def stillToAnswer_def with_in_def ret_def bnd_def touch_def fits_def action_newer split: if_splits)

lemma gives_commands_of: "gives (commands_of b e cs) (\<lambda>as i. \<forall>a\<in>set as. fits i a)"
proof (induction cs)
  case Nil
  show ?case by (simp add: gives_def ret_def)
next
  case (Cons c cs)
  have cmd: "ha_source a = IntentActionCommand \<and> ha_comment a \<noteq> None" if "a_command b p c = Some a" for a p
    using that by (auto simp: a_command_def command_action_def split: if_splits)
  have one: "gives (bnd (stillToAnswer b e a) (\<lambda>x. bnd (commands_of b e cs) (\<lambda>as. ret (case x of Some y \<Rightarrow> y # as | None \<Rightarrow> as))))
      (\<lambda>as i. \<forall>a\<in>set as. fits i a)" if "a_command b p c = Some a" for a p
  proof (rule gives_bnd2 [OF calm_stillToAnswer gives_stillToAnswer])
    show "ha_source a = IntentActionCommand" "ha_comment a \<noteq> None" using cmd [OF that] by simp_all
    show "gives (bnd (commands_of b e cs) (\<lambda>as. ret (case x of Some y \<Rightarrow> y # as | None \<Rightarrow> as)))
        (\<lambda>bs i. (\<forall>y. x = Some y \<longrightarrow> fits i y) \<longrightarrow> (\<forall>a\<in>set bs. fits i a))" for x
      by (rule gives_bnd2 [OF calm_commands_of Cons.IH, where G = "\<lambda>as bs i. bs = (case x of Some y \<Rightarrow> y # as | None \<Rightarrow> as)"])
        (auto simp: gives_def ret_def split: option.splits)
  qed blast
  show ?case
    unfolding commands_of.simps
  proof (rule gives_with_pass)
    fix p
    show "gives (case a_command b p c of None \<Rightarrow> commands_of b e cs
        | Some a \<Rightarrow> if hasOwnNotice b p (ha_key a)
           then bnd (if refusedLocally b (ie_proj e) (ha_actor a) then noteRefused (ha_actor a) else ret ()) (\<lambda>_. commands_of b e cs)
           else bnd (stillToAnswer b e a) (\<lambda>x. bnd (commands_of b e cs) (\<lambda>as. ret (case x of Some y \<Rightarrow> y # as | None \<Rightarrow> as))))
        (\<lambda>as i. pp_in p = i \<longrightarrow> (\<forall>a\<in>set as. fits i a))"
    proof (cases "a_command b p c")
      case None
      then show ?thesis using Cons.IH by (simp add: gives_def)
    next
      case (Some a)
      have "gives (bnd (if refusedLocally b (ie_proj e) (ha_actor a) then noteRefused (ha_actor a) else ret ()) (\<lambda>_. commands_of b e cs))
          (\<lambda>as i. \<forall>a\<in>set as. fits i a)"
        by (rule gives_bnd [OF _ Cons.IH]) (intro calm)
      then show ?thesis using Some one [OF Some] by (auto simp: gives_def)
    qed
  qed
qed

lemma gives_commands: "gives (commands b e) (\<lambda>as i. \<forall>a\<in>set as. fits i a)"
  unfolding commands_def by (rule gives_with_pass) (use gives_commands_of in \<open>auto simp: gives_def\<close>)

lemma fits_approve_label: "fits i (label_action v VerbApprove l)"
  by (simp add: fits_def label_action_def)

lemma gives_approveLabelAction: "gives (approveLabelAction b e issue events) (\<lambda>x i. \<forall>a. x = Some a \<longrightarrow> fits i a)"
  unfolding approveLabelAction_def Let_def gives_def with_pass_def
  by (auto simp: ret_def bnd_def fits_approve_label split: option.splits if_splits prod.splits outcome.splits)

lemma gives_gather: "gives (gather b e issue events) (\<lambda>as i. in_order as \<and> (\<forall>a\<in>set as. fits i a))"
  unfolding gather_def Let_def
proof (rule gives_bnd2 [OF calm_commands gives_commands])
  fix cmds
  let ?trig = "\<lambda>p. case newestLabeled b (isOwnLogin b p) (trigger e) events of
       Some v \<Rightarrow> if event_after v (lastTrigger (pp_in p)) then [label_action v VerbReplan (trigger e)] else [] | None \<Rightarrow> []"
  have trig: "\<forall>a\<in>set (?trig p). fits (pp_in p) a" for p
    by (auto simp: fits_def label_action_def event_newer [of _ _ VerbReplan "trigger e"] dest: newer_asym split: option.splits if_splits)
  show "gives (with_pass (\<lambda>p. bnd (approveLabelAction b e issue events) (\<lambda>approve.
      ret (sort_actions (cmds @ ?trig p @ (case approve of Some a \<Rightarrow> [a] | None \<Rightarrow> []))))))
    (\<lambda>as i. (\<forall>a\<in>set cmds. fits i a) \<longrightarrow> in_order as \<and> (\<forall>a\<in>set as. fits i a))"
  proof (rule gives_with_pass)
    fix p
    show "gives (bnd (approveLabelAction b e issue events) (\<lambda>approve.
        ret (sort_actions (cmds @ ?trig p @ (case approve of Some a \<Rightarrow> [a] | None \<Rightarrow> [])))))
      (\<lambda>as i. pp_in p = i \<longrightarrow> (\<forall>a\<in>set cmds. fits i a) \<longrightarrow> in_order as \<and> (\<forall>a\<in>set as. fits i a))"
      by (rule gives_bnd2 [OF calm_approveLabelAction gives_approveLabelAction,
            where G = "\<lambda>x as i. as = sort_actions (cmds @ ?trig p @ (case x of Some a \<Rightarrow> [a] | None \<Rightarrow> []))"])
        (use trig [of p] in \<open>auto simp: gives_def ret_def sorted_in_order split: option.splits\<close>)
  qed
qed auto

subsection \<open>What the answers write\<close>

definition moved :: "intent \<Rightarrow> human_action \<Rightarrow> intent \<Rightarrow> bool" where
  "moved i a j \<longleftrightarrow> same_spec i j \<and> (lastTrigger j = lastTrigger i \<or> lastTrigger j = ha_record a)"

lemma keep_moved: "keep i j \<Longrightarrow> moved i a j" by (simp add: keep_def moved_def)

lemma moved_refl [simp]: "moved i a i" by (simp add: moved_def)

lemma trigger_moved: "moves_trigger i (Some (ha_record a)) j \<Longrightarrow> moved i a j"
  by (simp add: moves_trigger_def moved_def)

lemma calm_moved: "calm_act m \<Longrightarrow> doing R i m (\<lambda>_ j. moved i a j)"
  by (rule calm_doing [OF _ gives_any]) auto

lemma doing_calm_after: "doing R i m (\<lambda>_ j. P j) \<Longrightarrow> calm_act n \<Longrightarrow> doing R i (bnd m (\<lambda>_. n)) (\<lambda>_ j. P j)"
  by (rule doing_write, assumption, rule calm_doing [OF _ gives_any])

lemma doing_settleCancel:
  assumes "own_words e a" "ha_verb a = runes VerbCancel"
  shows "doing (intent_move b e) i (settleCancel b e a) (\<lambda>_ j. moved i a j)"
  unfolding settleCancel_def
  apply (rule doing_authorize)
  apply (simp only: prod.case)
  apply (rule doing_if)
   apply (rule calm_moved [OF calm_answer_notice])
  apply (rule doing_calm [OF calm_must])
  apply (rule doing_calm [OF calm_answer_notice])
  apply (rule doing_mono [OF doing_enter])
    apply simp
   apply (simp add: may_enter_def may_close_def)
   apply (use assms in blast)
  apply (rule keep_moved, assumption)
  done

lemma doing_consume:
  assumes "\<not> newer (lastTrigger i) r"
  shows "doing (intent_move b e) i (consume_trigger e r) (\<lambda>_ j. moves_trigger i (Some r) j)"
  unfolding consume_trigger_def
  by (rule doing_update)
    (use intent_move.consume [OF assms] in \<open>auto simp: moves_trigger_def observed_def lastTrigger_def same_spec_def\<close>)

lemma doing_settleReplan:
  assumes "own_words e a" "\<not> newer (lastTrigger i) (ha_record a)"
  shows "doing (intent_move b e) i (settleReplan b e a issue) (\<lambda>_ j. moved i a j)"
  unfolding settleReplan_def
  apply (rule doing_authorize)
  apply (simp only: prod.case)
  apply (rule doing_with_in)
  apply (rule doing_if)
   apply (rule doing_calm [OF calm_answer_notice])
   apply (rule doing_mono [OF doing_consume [OF assms(2)]])
   apply (rule trigger_moved, assumption)
  apply (rule doing_calm_after [OF _ calm_replyDone])
  apply (rule doing_mono [OF doing_startPlanning])
   apply (simp add: may_plan_def assms(2))
   apply (use assms(1) in blast)
  apply (rule trigger_moved, assumption)
  done

lemma gives_approvalChanged:
  assumes "ie_issue e = Got issue"
  shows "gives (approvalChanged b e pl inp issue) (\<lambda>v i. (fst v \<or> comment_as_posted b e pl) \<and> (snd v \<or> issue_as_planned b e inp))"
proof -
  have plan: "gives (case ie_comment e (pl_CommentID pl) of Missing \<Rightarrow> ret True
      | Got c \<Rightarrow> if io_digest b (cm_Body c) \<noteq> pl_CommentDigest pl then ret True else everEdited e c | _ \<Rightarrow> raise ErrOther)
      (\<lambda>v i. v \<or> comment_as_posted b e pl)"
  proof (cases "ie_comment e (pl_CommentID pl)")
    case (Got c)
    then show ?thesis using gives_everEdited [of e c] by (auto simp: gives_def ret_def comment_as_posted_def)
  qed (simp_all add: gives_def ret_def raise_def)
  have issue: "gives (bnd (inputSnapshot e inp) (\<lambda>snap. case snap of None \<Rightarrow> ret (planChanged, True)
       | Some s \<Rightarrow> ret (planChanged, io_digest b (render b (s\<lparr>sn_Title := gi_Title issue, sn_Body := gi_Body issue\<rparr>)) \<noteq> ii_Digest inp)))
      (\<lambda>v i. fst v = planChanged \<and> (snd v \<or> issue_as_planned b e inp))" for planChanged
    using assms
    by (cases "ie_config e (ii_ConfigMap inp)") (auto simp: gives_def inputSnapshot_def bnd_def ret_def raise_def issue_as_planned_def)
  show ?thesis
    unfolding approvalChanged_def by (rule gives_bnd2 [OF _ plan issue]) (intro calm, auto)
qed

lemma doing_refuseApproval: "doing (intent_move b e) i (refuseApproval b e a issue) (\<lambda>_ j. moved i a j)"
  unfolding refuseApproval_def
  by (rule doing_calm_after [OF doing_mono [OF doing_aside]], auto intro: keep_moved keep_core intro!: calm)

lemma moved_approved: "SetIntentPhase (approved_status b ap i) to t = Some d \<Longrightarrow> moved i a (observed d)"
  by (rule keep_moved, rule keep_phase, assumption, rule keepI) (simp_all add: approved_status_def setCondition_def same_spec_def)

lemma moved_approved_aside: "moved i a (observed (approved_status b ap i))"
  by (rule keep_moved, rule keepI) (simp_all add: approved_status_def setCondition_def same_spec_def observed_def)

lemma doing_settlePlanApproval:
  assumes "own_words e a" "ie_issue e = Got issue"
  shows "doing (intent_move b e) i (settlePlanApproval b e a issue) (\<lambda>_ j. moved i a j)"
proof (cases "is_Phase i = IntentAwaitingApproval")
  case False
  then show ?thesis unfolding settlePlanApproval_def
    by (intro doing_with_in) (simp add: calm_moved [OF calm_answer_notice])
next
  case True
  have approve: "doing (intent_move b e) i (bnd (setPhase e IntentBuilding (approved_status b
      (approval_of a (pl_Revision pl) (pl_Digest pl) (ii_Digest inp)))) (\<lambda>_. replyDone b e a)) (\<lambda>_ j. moved i a j)"
    if "may_approve b e i pl inp a" "pl_PostedAt pl = Some posted" "posted < ha_at a" for pl inp posted
    unfolding setPhase_def
    by (rule doing_calm_after [OF doing_update calm_replyDone])
      (use intent_move.approve [OF True that] moved_approved in blast)
  show ?thesis
    unfolding settlePlanApproval_def
    apply (rule doing_with_in)
    apply (simp only: True refl)
    apply (simp only: prod.case bool.case)
    apply (rule doing_option, rule calm_moved [OF calm_answer_notice])
    apply (rule doing_option, rule calm_moved [OF calm_answer_notice])
    apply (rule doing_if, rule calm_moved [OF calm_answer_notice])
    apply (rule doing_authorize)
    apply (simp only: prod.case)
    apply (rule doing_if)
     apply (rule calm_moved, intro calm)
    apply (rule doing_got)
    apply (rule doing_option)
     apply (rule doing_deref)
     apply (rule doing_gives [OF calm_approvalChanged gives_approvalChanged [OF assms(2)]])
     apply (rule doing_prod)
     apply (rule doing_if, rule doing_refuseApproval)
     apply (rule approve)
       apply (simp add: may_approve_def assms(1))
      apply assumption
     apply simp
    apply (rule doing_calm_after [OF _ calm_answer_notice])
    apply (rule doing_mono [OF doing_aside])
     apply auto []
    apply (rule keep_moved, rule keep_core, assumption)
    done
qed

lemma calm_holds:
  "calm_act (case x of None \<Rightarrow> ret False | Some provider \<Rightarrow> (case f provider of Inl _ \<Rightarrow> raise ErrOther | Inr h \<Rightarrow> ret h))"
  by (intro calm)

lemma doing_settleReapproval:
  assumes "own_words e a" "ie_issue e = Got issue" "credentialReapproval b i"
  shows "doing (intent_move b e) i (settleCredentialReapproval b e a issue) (\<lambda>_ j. moved i a j)"
proof -
  have reapprove: "doing (intent_move b e) i (bnd (update e (\<lambda>cur. Some (approved_status b
      (approval_of a (iap_PlanRevision prev) (iap_PlanDigest prev) (iap_InputDigest prev)) cur))) (\<lambda>_. replyDone b e a)) (\<lambda>_ j. moved i a j)"
    if "may_approve b e i pl inp a" "is_Approval i = Some prev" "action_after a (prev_record prev)" for pl inp prev
    by (rule doing_calm_after [OF doing_update calm_replyDone])
      (use intent_move.reapprove [OF assms(3) that] moved_approved_aside in auto)
  show ?thesis
    unfolding settleCredentialReapproval_def Let_def prev_record_def [symmetric]
    apply (rule doing_with_in)
    apply (rule doing_deref)
    apply (rule doing_if, rule calm_moved [OF calm_answer_notice])
    apply (rule doing_authorize)
    apply (simp only: prod.case)
    apply (rule doing_if)
     apply (rule calm_moved, intro calm)
    apply (rule doing_deref)
    apply (rule doing_deref)
    apply (rule doing_gives [OF calm_approvalChanged gives_approvalChanged [OF assms(2)]])
    apply (rule doing_prod)
    apply (rule doing_if, rule doing_refuseApproval)
    apply (rule doing_calm [OF calm_holds])
    apply (rule doing_if)
     apply (rule calm_moved, intro calm)
    apply (rule reapprove)
      apply (simp add: may_approve_def assms(1))
     apply assumption
    apply simp
    done
qed

lemma doing_intent_decide:
  assumes "own_words e a" "ie_issue e = Got issue" "ha_verb a = runes VerbReplan \<Longrightarrow> \<not> newer (lastTrigger i) (ha_record a)"
  shows "doing (intent_move b e) i (intent_decide b e a issue) (\<lambda>_ j. moved i a j)"
  unfolding intent_decide_def settleApprove_def
  by (rule doing_if doing_settleCancel [OF assms(1)] doing_with_in doing_settleReapproval [OF assms(1,2)] doing_settlePlanApproval [OF assms(1,2)]
      doing_settleReplan [OF assms(1) assms(3)] calm_moved [OF calm_ret] | assumption)+

lemma doing_true_moved: "doing R i m (\<lambda>_ j. moved i a j) \<Longrightarrow> doing R i (bnd m (\<lambda>_. ret v)) (\<lambda>_ j. moved i a j)"
  by (rule doing_then)

lemma doing_settle_action:
  assumes "fits i a" "ie_issue e = Got issue"
  shows "doing (intent_move b e) i (settle_action b e a issue) (\<lambda>_ j. moved i a j)"
proof (cases "ha_source a = IntentActionLabel")
  case True
  then have "own_words e a" "ha_verb a = runes VerbReplan \<Longrightarrow> \<not> newer (lastTrigger i) (ha_record a)"
    using assms(1) by (simp_all add: own_words_def fits_def)
  then show ?thesis
    unfolding settle_action_def
    by (intro doing_with_pass) (simp add: True doing_true_moved doing_intent_decide assms(2))
next
  case False
  then have cmd: "ha_source a = IntentActionCommand" by (cases "ha_source a") auto
  obtain c where c: "ha_comment a = Some c" using assms(1) cmd by (auto simp: fits_def)
  let ?ask = "\<lambda>local. if \<not> local \<and> \<not> ha_recorded a \<and> acts (ha_verb a)
      then (case ha_comment a of Some c \<Rightarrow> everEdited e c | None \<Rightarrow> ret (ha_edited a)) else ret (ha_edited a)"
  have asked: "gives (?ask local) (\<lambda>edited i. \<not> local \<and> \<not> ha_recorded a \<and> acts (ha_verb a) \<and> \<not> edited \<longrightarrow> own_words e a)" for local
    using gives_everEdited [of e c] c by (auto simp: gives_def ret_def own_words_def)
  have calm_ask: "calm_act (?ask local)" for local by (intro calm)
  show ?thesis
    unfolding settle_action_def Let_def
    apply (rule doing_with_pass)
    apply (rule doing_if, simp only: cmd refl not_True_eq_False)
    apply (rule doing_if, rule doing_ret, simp)
    apply (rule doing_calm [OF calm_react])
    apply (rule doing_gives [OF calm_ask asked])
    apply (rule doing_true_moved)
    apply (rule doing_if, rule calm_moved [OF calm_replyDone])
    apply (rule doing_if)
     apply (rule calm_moved, intro calm)
    apply (rule doing_if)
     apply (rule calm_moved, intro calm)
    apply (rule doing_if)
     apply (rule calm_moved, intro calm)
    apply (rule doing_intent_decide [OF _ assms(2)])
     apply simp
    apply (use assms(1) in \<open>simp add: fits_def\<close>)
    done
qed

lemma doing_recordSeen: "doing (intent_move b e) i (recordSeen e n t) (\<lambda>_ j. keep i j)"
  unfolding recordSeen_def Let_def
  apply (rule doing_with_pass)
  apply (rule doing_if, rule doing_ret, simp)
  apply (rule doing_update)
  using intent_move.heard by (fastforce intro!: keepI simp: observed_def same_spec_def)

lemma fits_keep: "keep i j \<Longrightarrow> fits i a \<Longrightarrow> fits j a"
  by (simp add: keep_def fits_def)

lemma fits_moved: "moved i a j \<Longrightarrow> fits i c \<Longrightarrow> \<not> newer (ha_record a) (ha_record c) \<Longrightarrow> fits j c"
  by (auto simp: moved_def fits_def)

lemma doing_answer_each:
  assumes "ie_issue e = Got issue" "in_order as" "\<forall>a\<in>set as. fits i a"
  shows "doing (intent_move b e) i (answer_each b e issue as) anything"
  using assms(2,3)
proof (induction as arbitrary: i)
  case Nil
  show ?case unfolding answer_each.simps
    by (rule doing_with_pass, rule doing_option, rule doing_true, rule doing_then [OF doing_recordSeen], simp)
next
  case (Cons a as)
  have rest: "doing (intent_move b e) j (answer_each b e issue as) anything" if "moved i a j" for j
    using Cons.prems fits_moved [OF that] by (intro Cons.IH) (auto simp: in_order_def)
  have kept: "moved i a k" if "moved i a j" "keep j k" for j k
    using that same_spec_trans by (auto simp: moved_def keep_def)
  have "fits i a" using Cons.prems by simp
  then have settle: "doing (intent_move b e) i (settle_action b e a issue) (\<lambda>_ j. moved i a j)"
    by (rule doing_settle_action [OF _ assms(1)])
  show ?case
    unfolding answer_each.simps
    apply (rule doing_write [OF settle])
    apply (rule doing_with_pass)
    apply (rule doing_if, rule doing_true)
    apply (rule doing_write [where S = "\<lambda>_ k. moved i a k"])
     apply (rule doing_if)
      apply (rule doing_mono [OF doing_recordSeen], erule (1) kept)
     apply (rule doing_ret, assumption)
    apply (rule rest, assumption)
    done
qed

lemma calm_touch_polled: "calm_act (touch (\<lambda>p. p\<lparr>pp_polled := x\<rparr>))" by (rule calm_touch) simp
lemma calm_touch_newest: "calm_act (touch (\<lambda>p. p\<lparr>pp_pollNewest := newestSettled p\<rparr>))" by (rule calm_touch) simp

lemma doing_poll:
  assumes "rests e"
  shows "doing (intent_move b e) i (poll b e) anything"
  unfolding poll_def
  apply (rule doing_calm [OF calm_memo])
  apply (rule doing_with_in)
  apply (rule doing_calm [OF calm_rateOK])
  apply (rule doing_if, rule doing_true)
  apply (rule doing_calm [OF calm_touch_polled])
  apply (rule doing_got)
  apply (rule doing_calm [OF calm_got])
  apply (rule doing_calm [OF calm_listComments])
  apply (rule doing_gives [OF calm_gather gives_gather])
  apply (rule doing_calm [OF calm_touch_newest])
  apply (rule doing_write [OF doing_answer_each])
     apply assumption
    apply blast
   apply blast
  apply (rule doing_if doing_true doing_issueClosed [OF assms] | assumption)+
  done

lemma newestLabeled_later: "event_after v r \<Longrightarrow> \<not> newer r (ha_record (label_action v vb l))"
  using newer_asym event_newer by blast

lemma doing_handOff: "doing (intent_move b e) i (handOff b e) anything"
proof -
  let ?a = "\<lambda>v. label_action v VerbReplan (trigger e)"
  have label: "own_words e (?a v)" for v by (simp add: own_words_def label_action_def)
  have who: "gives (if is_Phase i = IntentFailed then authorize b e (ha_actor (?a v)) else ret (False, False))
      (\<lambda>x j. fst x \<longrightarrow> is_Phase i = IntentFailed \<and> authorised b e (in_Repository j) (ha_actor (?a v)))" for v
    using gives_authorize [of b e "ha_actor (?a v)"] by (auto simp: gives_def ret_def)
  have calm_who: "calm_act (if is_Phase i = IntentFailed then authorize b e (ha_actor (?a v)) else ret (False, False))" for v
    by (intro calm)
  show ?thesis
    unfolding handOff_def Let_def
    apply (rule doing_calm [OF calm_readBot])
    apply (rule doing_calm [OF calm_got])
    apply (rule doing_with_pass)
    apply (rule doing_option, rule doing_true)
    apply (rule doing_if, rule doing_true)
    apply (simp only: not_not)
    apply (rule doing_gives [OF calm_who who])
    apply (rule doing_prod)
    apply (rule doing_if)
     apply (rule doing_then [OF doing_startPlanning])
      apply (use label newestLabeled_later in \<open>fastforce simp: may_plan_def\<close>)
     apply simp
    apply (rule doing_calm [OF calm_must])
    apply (rule doing_calm [OF calm_answer_notice])
    apply (rule doing_then [OF doing_consume])
     apply (erule newestLabeled_later)
    apply simp
    done
qed

end
