(* ===== verification/IntentWhole.thy ===== *)
theory IntentWhole
  imports IntentHeard
begin

text \<open>
  The blocked Intent, the ended one and the whole pass against the abstract machine: every status a pass
  writes is a move away from the one before.
\<close>

subsection \<open>Blocked\<close>

lemma multiRepo_core: "same_core i (multiRepo_status b st reason c) = same_core i c"
  by (simp add: multiRepo_status_def)

lemma doing_holdMultiRepo: "doing (intent_move b e) i (holdMultiRepo b e) anything"
  unfolding holdMultiRepo_def
  by (rule doing_with_in, rule doing_if, rule doing_true, rule doing_if, rule doing_block_True, rule doing_if, rule doing_true,
      rule doing_then [OF doing_aside]) (auto simp: multiRepo_core)

lemma doing_credentialBlockHolds: "doing (intent_move b e) i (credentialBlockHolds b e) (\<lambda>_ j. same_core i j)"
  unfolding credentialBlockHolds_def Let_def
  apply (rule doing_with_in)
  apply (rule doing_option, rule doing_ret, simp)
  apply (rule doing_calm [OF calm_checkCredential])
  apply (rule doing_if, rule doing_ret, simp)
  apply (rule doing_if, rule doing_ret, simp)
  apply (rule doing_then [OF doing_aside])
   apply auto
  done

lemma calm_branchBlockHolds: "rests e \<Longrightarrow> calm_act (branchBlockHolds b e)"
  unfolding branchBlockHolds_def Let_def rests_def by (intro calm) auto

lemma doing_same: "calm_act m \<Longrightarrow> same_core i j \<Longrightarrow> doing R j m (\<lambda>_ k. same_core i k)"
  by (rule calm_doing [OF _ gives_any])

lemma doing_blockHolds:
  assumes "rests e"
  shows "doing (intent_move b e) i (blockHolds b e) (\<lambda>_ j. same_core i j)"
proof -
  have yes: "doing (intent_move b e) j (ret True) (\<lambda>_ k. same_core i k)" if "same_core i j" for j
    by (rule doing_ret) (rule that)
  show ?thesis
    unfolding blockHolds_def Let_def
    apply (rule doing_with_pass)
    apply (rule doing_if, rule yes, simp)+
    apply (rule doing_write [OF doing_credentialBlockHolds])
    apply (rule doing_if, erule yes)
    apply (rule doing_bnd)
    apply (rule doing_mono [OF doing_same [OF calm_branchBlockHolds [OF assms]]], assumption)
    apply (rule doing_if, erule yes)
    apply (erule doing_same [OF calm_imageBlockHolds])
    done
qed

lemma core_resumed: "same_core i (resumed_status b active i)"
proof -
  have one: "same_core i (resolve b c j)" if "same_core i j" for j c using that by (simp add: resolve_def)
  have "same_core i (fold (resolve b) cs j)" if "same_core i j" for cs j
    using that by (induction cs arbitrary: j) (simp_all add: one)
  then have "same_core i ((fold (resolve b) blockingConditions i)\<lparr>is_CredentialHold := None\<rparr>)" by simp
  then show ?thesis by (simp add: resumed_status_def Let_def split: option.split)
qed

lemma doing_resume:
  assumes "is_Phase i = IntentBlocked" "from = IntentBlockedFrom i"
  shows "doing (intent_move b e) i (resume b e from active) anything"
proof -
  have "doing (intent_move b e) i (setPhase e (resume_phase i) (resumed_status b active)) anything"
    unfolding setPhase_def
    by (rule doing_update) (auto intro: intent_move.unblock [OF core_resumed assms(1)])
  then show ?thesis unfolding resume_def assms(2) resume_phase_def by (rule doing_done)
qed

lemma resume_phase_core: "same_core i j \<Longrightarrow> IntentBlockedFrom j = IntentBlockedFrom i \<and> is_Phase j = is_Phase i"
  by (simp add: same_core_def IntentBlockedFrom_def)

lemma doing_from:
  assumes "\<And>v. doing R i (f v) Q" "\<And>w. doing R i (g w) Q" "doing R i h Q" "doing R i k Q"
  shows "doing R i (case (from, x, y) of (IntentPlanning, Some v, _) \<Rightarrow> f v | (IntentBuilding, _, Some w) \<Rightarrow> g w
    | (IntentRevising, _, _) \<Rightarrow> h | _ \<Rightarrow> k) Q"
  by (cases "from"; cases x; cases y) (simp_all add: assms)

lemma doing_resumed:
  assumes "is_Phase j = IntentBlocked" "pp_in p = j"
  shows "doing (intent_move b e) j (case (IntentBlockedFrom j, is_Input j, is_Approval j) of
            (IntentPlanning, Some inp, _) \<Rightarrow> bnd (resumePlan b e inp) (resume b e (IntentBlockedFrom j))
          | (IntentBuilding, _, Some ap) \<Rightarrow> bnd (catch (resumeBuilds b e ap)) (\<lambda>x. case x of
                Inl f \<Rightarrow> if f = ErrRunNameTaken then bnd (blockKeyChanged b e) (\<lambda>_. ret True) else raise f
              | Inr active \<Rightarrow> resume b e (IntentBlockedFrom j) active)
          | (IntentRevising, _, _) \<Rightarrow> resume b e (IntentBlockedFrom j) (unfinishedRound b p)
          | _ \<Rightarrow> resume b e (IntentBlockedFrom j) None) anything"
proof -
  have plain: "doing (intent_move b e) j (resume b e (IntentBlockedFrom j) active) anything" for active
    by (rule doing_resume [OF assms(1) refl])
  have plan: "doing (intent_move b e) j (bnd (resumePlan b e inp) (resume b e (IntentBlockedFrom j))) anything" for inp
    by (rule doing_calm [OF calm_resumePlan plain])
  have build: "doing (intent_move b e) j (bnd (catch (resumeBuilds b e ap)) (\<lambda>x. case x of
                Inl f \<Rightarrow> if f = ErrRunNameTaken then bnd (blockKeyChanged b e) (\<lambda>_. ret True) else raise f
              | Inr active \<Rightarrow> resume b e (IntentBlockedFrom j) active)) anything" for ap
    unfolding blockKeyChanged_def
    by (rule doing_calm [OF calm_catch [OF calm_resumeBuilds]])
      (rule doing_sum doing_if doing_block_True doing_raise plain)+
  show ?thesis by (rule doing_from) (rule plan build plain)+
qed

lemma doing_blocked:
  assumes "rests e" "is_Phase i = IntentBlocked"
  shows "doing (intent_move b e) i (blocked b e) anything"
  unfolding blocked_def Let_def
  apply (rule doing_if, rule doing_true)
  apply (rule doing_if, rule doing_holdMultiRepo)
  apply (rule doing_write [OF doing_blockHolds [OF assms(1)]])
  apply (rule doing_with_pass)
  apply (rule doing_if)
   apply (rule doing_if, rule doing_true)
   apply (rule doing_then [OF doing_aside])
    apply (auto simp: multiRepo_core) [2]
  apply hypsubst
  apply (rule doing_resumed [OF _ refl])
  using assms(2) resume_phase_core by simp

subsection \<open>The pass\<close>

lemma doing_syncUsage: "doing (intent_move b e) i (syncUsage e) (\<lambda>changed j. changed \<or> j = i)"
proof -
  have u: "doing (intent_move b e) i (catch (update e (\<lambda>cur. Some (cur\<lparr>is_Usage := u\<rparr>))))
      (\<lambda>x j. (\<exists>v. x = Inr v) \<or> j = i)" for u
    unfolding doing_def
  proof (intro allI impI)
    fix p :: pass assume p: "pp_in p = i"
    let ?f = "\<lambda>cur. Some (cur\<lparr>is_Usage := u\<rparr>)"
    have "doing (intent_move b e) i (update e ?f) anything" by (rule doing_any [OF doing_aside]) auto
    then have "good (intent_move b e) anything p (update e ?f p)" using p unfolding doing_def by blast
    then show "good (intent_move b e) (\<lambda>x j. (\<exists>v. x = Inr v) \<or> j = i) p (catch (update e ?f) p)"
      using p unfolding good_def catch_def
      by (cases "ie_write e (length (pp_writes p))") (auto simp: update_def Let_def)
  qed
  show ?thesis
    unfolding syncUsage_def
    apply (rule doing_with_pass)
    apply (rule doing_if, rule doing_ret, simp)
    apply (rule doing_write [OF u])
    apply (rule doing_sum)
     apply (rule doing_if, rule doing_raise)
     apply (rule doing_ret, simp)
    apply (rule doing_ret, simp)
    done
qed

lemma doing_phase_step:
  assumes "rests e"
  shows "doing (intent_move b e) i (phase_step b e) anything"
  unfolding phase_step_def
  by (rule doing_with_in, cases "is_Phase i")
    (simp_all add: doing_true doing_pending doing_planning doing_building doing_review doing_blocked assms rests_doing)

lemma doing_step_pass:
  assumes "rests e"
  shows "doing (intent_move b e) i (step_pass b e) anything"
  unfolding step_pass_def
  apply (rule doing_with_in)
  apply (rule doing_write [where S = anything])
   apply (rule doing_if doing_holdMultiRepo doing_true)+
  apply (rule doing_if doing_true doing_phase_step [OF assms])+
  done

lemma doing_nudged: "doing (intent_move b e) i (nudgedHandOff b e) anything"
  unfolding nudgedHandOff_def
  apply (rule doing_with_pass)
  apply (rule doing_if, rule doing_true)
  apply (rule doing_calm [OF calm_memo])
  apply (rule doing_write [OF doing_catch_any [OF doing_handOff]])
  apply (rule doing_sum)
   apply (rule doing_calm [OF calm_memo], rule doing_raise)
  apply (rule doing_true)
  done

lemma doing_owed:
  assumes "rests e" "\<And>j. doing (intent_move b e) j m anything" "\<And>j. doing (intent_move b e) j next anything"
  shows "doing (intent_move b e) i (owed e m next) anything"
proof -
  have comment: "doing (intent_move b e) j (bnd (ie_status_comment e) (\<lambda>_. k)) anything"
    if "\<And>j. doing (intent_move b e) j k anything" for j and k :: "duration option act"
    by (rule doing_write [OF rests_doing(7) [OF assms(1)]]) (rule that)
  show ?thesis
    unfolding owed_def
    apply (rule doing_write [OF doing_catch_any [OF assms(2)]])
    apply (rule doing_sum)
     apply (rule doing_if, rule doing_raise)
     apply (rule comment, rule doing_raise)
    apply (rule doing_prod)
    apply (rule doing_if, rule doing_true)
    apply (rule doing_if)
     apply (rule comment, rule doing_true)
    apply (rule assms(3))
    done
qed

lemma doing_ended:
  assumes "rests e"
  shows "doing (intent_move b e) i (ended b e) anything"
proof -
  let ?rest = "bnd (ie_previews e) (\<lambda>(changed, retry).
        if changed then ret None
        else bnd (nudgedHandOff b e) (\<lambda>stop.
          if stop then ret None
          else bnd (ie_status_comment e) (\<lambda>_. ret (if retry then later_look e else None))))"
  have rest: "doing (intent_move b e) j ?rest anything" for j
    apply (rule doing_write [OF rests_doing(4) [OF assms]])
    apply (rule doing_prod)
    apply (rule doing_if, rule doing_true)
    apply (rule doing_write [OF doing_nudged])
    apply (rule doing_if, rule doing_true)
    apply (rule doing_done [OF rests_doing(7) [OF assms]])
    done
  have untracked: "doing (intent_move b e) j (owed e (ie_untracked e) ?rest) anything" for j
    by (rule doing_owed [OF assms rests_doing(6) [OF assms] rest])
  show ?thesis
    unfolding ended_def
    by (rule doing_with_in)
      (simp add: untracked doing_owed [OF assms rests_doing(5) [OF assms] untracked])
qed

lemma doing_run_pass:
  assumes "rests e"
  shows "doing (intent_move b e) i (run_pass b e) anything"
proof -
  have finish: "doing (intent_move b e) j (bnd (ie_previews e) (\<lambda>(changed, _).
             if changed then ret None
             else bnd (ie_status_comment e) (\<lambda>_. with_pass (\<lambda>p. ret (Some (max nano_second (nextWake e p))))))) anything" for j
    apply (rule doing_write [OF rests_doing(4) [OF assms]])
    apply (rule doing_prod)
    apply (rule doing_if, rule doing_true)
    apply (rule doing_write [OF rests_doing(7) [OF assms]])
    apply (rule doing_with_pass, rule doing_true)
    done
  show ?thesis
    unfolding run_pass_def
    apply (rule doing_with_in)
    apply (rule doing_if)
     apply (rule doing_then [OF doing_enter])
       apply simp
      apply (simp add: may_enter_def)
     apply simp
    apply (rule doing_calm [OF calm_loadRuns])
    apply (rule doing_write [OF doing_syncUsage])
    apply (rule doing_if, rule doing_true)
    apply (rule doing_if, rule doing_ended [OF assms])
    apply (rule doing_with_pass)
    apply (rule doing_write [where S = anything])
     apply (rule doing_if, rule doing_poll [OF assms], rule doing_true)
    apply (rule doing_if, rule doing_true)
    apply (rule doing_write [OF doing_step_pass [OF assms]])
    apply (rule doing_if, rule doing_true)
    apply (rule finish)
    done
qed

end
