(* ===== verification/IntentLog.thy ===== *)
theory IntentLog
  imports IntentSteps
begin

text \<open>
  What every move of the abstract machine keeps: a legal phase log of at most 64 entries that ends in the
  phase, and, from the approval on, an approval bound to the plan and the request it was given for.
\<close>

subsection \<open>The phase log\<close>

definition phase_log :: "intent \<Rightarrow> intent_phase list" where
  "phase_log i = map pt_Phase (is_PhaseTimes i)"

abbreviation edge :: "intent_phase \<Rightarrow> intent_phase \<Rightarrow> bool" where
  "edge x y \<equiv> y \<in> set (intentTransitions x)"

definition log_ok :: "intent_phase \<Rightarrow> intent_phase list \<Rightarrow> bool" where
  "log_ok p lg \<longleftrightarrow> length lg \<le> MaxIntentPhaseTimes \<and> successively edge lg \<and>
     (lg = [] \<longrightarrow> p = IntentNone) \<and> (lg \<noteq> [] \<longrightarrow> last lg = p \<and> p \<noteq> IntentNone) \<and>
     (lg \<noteq> [] \<and> length lg < MaxIntentPhaseTimes \<longrightarrow> hd lg = IntentPending)"

definition intent_log_ok :: "intent \<Rightarrow> bool" where
  "intent_log_ok i \<longleftrightarrow> log_ok (is_Phase i) (phase_log i) \<and> (is_CompletedAt i \<noteq> None \<longleftrightarrow> IntentTerminal (is_Phase i))"

lemma no_self_edge: "\<not> edge x x" by (cases x) auto

lemma never_none: "edge x y \<Longrightarrow> y \<noteq> IntentNone" by (cases x) auto

lemma successively_keep: "successively P xs \<Longrightarrow> successively P (drop n xs)"
proof (induction n arbitrary: xs)
  case (Suc n)
  then show ?case by (cases xs) (auto simp: successively_Cons)
qed simp

lemma map_keep_latest: "map f (keep_latest n xs) = keep_latest n (map f xs)"
  by (simp add: keep_latest_def drop_map)

lemma log_ok_snoc:
  assumes "log_ok p lg" "edge p q"
  shows "log_ok q (keep_latest MaxIntentPhaseTimes (lg @ [q]))"
proof -
  let ?n = "Suc (length lg) - MaxIntentPhaseTimes"
  have legal: "successively edge (lg @ [q])"
    using assms by (cases "lg = []") (auto simp: log_ok_def successively_append_iff)
  have short: "?n \<le> length lg" by (simp add: MaxIntentPhaseTimes_def)
  have first: "hd (lg @ [q]) = IntentPending" if "Suc (length lg) < MaxIntentPhaseTimes"
    using assms that by (cases lg) (auto simp: log_ok_def)
  have "q \<noteq> IntentNone" using never_none [OF assms(2)] .
  then show ?thesis
    using successively_keep [OF legal, of ?n] short first assms(1)
    by (auto simp: log_ok_def keep_latest_def MaxIntentPhaseTimes_def)
qed

lemma phase_log_step:
  assumes "SetIntentPhase c to t = Some d" "intent_log_ok c"
  shows "intent_log_ok d"
proof -
  consider "d = c"
    | "edge (is_Phase c) to" "d = c\<lparr>is_Phase := to,
          is_PhaseTimes := keep_latest MaxIntentPhaseTimes (is_PhaseTimes c @ [\<lparr>pt_Phase = to, pt_At = t\<rparr>]),
          is_CompletedAt := (if IntentTerminal to then Some t else None)\<rparr>"
    using phase_fields [OF assms(1)] by blast
  then show ?thesis
  proof cases
    case 2
    have "phase_log d = keep_latest MaxIntentPhaseTimes (phase_log c @ [to])"
      using 2(2) by (simp add: phase_log_def map_keep_latest)
    moreover have "log_ok to (keep_latest MaxIntentPhaseTimes (phase_log c @ [to]))"
      using assms(2) 2(1) by (intro log_ok_snoc) (simp_all add: intent_log_ok_def)
    moreover have "is_Phase d = to" "is_CompletedAt d \<noteq> None \<longleftrightarrow> IntentTerminal to" using 2(2) by simp_all
    ultimately show ?thesis by (simp add: intent_log_ok_def)
  qed (use assms(2) in simp)
qed

lemma fold_blocked:
  "fold (\<lambda>pt prior. if pt_Phase pt \<noteq> IntentBlocked then pt_Phase pt else prior) ts p =
   fold (\<lambda>q prior. if q \<noteq> IntentBlocked then q else prior) (map pt_Phase ts) p"
  by (induction ts arbitrary: p) auto

lemma blocked_from:
  assumes "intent_log_ok i" "is_Phase i = IntentBlocked"
  shows "edge (IntentBlockedFrom i) IntentBlocked \<and> IntentBlockedFrom i \<noteq> IntentNone"
proof -
  have ok: "log_ok IntentBlocked (phase_log i)" using assms by (simp add: intent_log_ok_def)
  then obtain ys where ys: "phase_log i = ys @ [IntentBlocked]"
    by (metis append_butlast_last_id intent_phase.distinct(13) log_ok_def)
  have "ys \<noteq> []" using ok unfolding ys log_ok_def by (auto simp: MaxIntentPhaseTimes_def)
  then obtain zs x where zs: "ys = zs @ [x]" by (metis append_butlast_last_id)
  have x: "edge x IntentBlocked" using ok unfolding ys zs log_ok_def by (simp add: successively_append_iff)
  then have "x \<noteq> IntentBlocked" using no_self_edge by blast
  then have "IntentBlockedFrom i = x"
    using assms(2) ys zs unfolding IntentBlockedFrom_def fold_blocked phase_log_def [symmetric] by simp
  then show ?thesis using x by (cases x) auto
qed

lemma blocks_from: "edge x IntentBlocked \<Longrightarrow> x \<noteq> IntentNone \<Longrightarrow> edge IntentBlocked x"
  by (cases x) auto

lemma resume_legal:
  assumes "intent_log_ok i" "is_Phase i = IntentBlocked"
  shows "CanTransitionIntent IntentBlocked (resume_phase i) \<and> resume_phase i = IntentBlockedFrom i"
  using blocked_from [OF assms] blocks_from by (simp add: resume_phase_def CanTransitionIntent_def)

subsection \<open>What an approval is bound to\<close>

definition at_phase :: "intent \<Rightarrow> intent_phase" where
  "at_phase i = (if is_Phase i = IntentBlocked then IntentBlockedFrom i else is_Phase i)"

definition bound_approval :: "intent \<Rightarrow> bool" where
  "bound_approval i \<longleftrightarrow> (\<exists>ap pl inp posted. is_Approval i = Some ap \<and> is_Plan i = Some pl \<and> is_Input i = Some inp \<and>
     iap_PlanRevision ap = pl_Revision pl \<and> pl_Revision pl = ii_Revision inp \<and> iap_PlanDigest ap = pl_Digest pl \<and>
     iap_InputDigest ap = ii_Digest inp \<and> pl_PostedAt pl = Some posted \<and> unix posted \<le> unix (iap_At ap))"

definition plan_posted :: "intent \<Rightarrow> bool" where
  "plan_posted i \<longleftrightarrow> (\<exists>pl inp. is_Plan i = Some pl \<and> is_Input i = Some inp \<and> pl_Revision pl = ii_Revision inp \<and> pl_PostedAt pl \<noteq> None)"

definition stage_ok :: "intent_phase \<Rightarrow> intent \<Rightarrow> bool" where
  "stage_ok p i \<longleftrightarrow>
     (case p of
        IntentNone \<Rightarrow> is_Input i = None \<and> is_Plan i = None \<and> is_Approval i = None
      | IntentPending \<Rightarrow> is_Input i = None \<and> is_Plan i = None \<and> is_Approval i = None
      | IntentPlanning \<Rightarrow> is_Approval i = None \<and>
          (\<exists>inp. is_Input i = Some inp \<and> (\<forall>pl. is_Plan i = Some pl \<longrightarrow> pl_Revision pl = ii_Revision inp))
      | IntentAwaitingApproval \<Rightarrow> is_Approval i = None \<and> plan_posted i
      | IntentBuilding \<Rightarrow> bound_approval i
      | IntentInReview \<Rightarrow> bound_approval i
      | IntentRevising \<Rightarrow> bound_approval i
      | _ \<Rightarrow> is_Approval i = None \<or> bound_approval i)"

lemma stage_bound: "stage_ok p i \<Longrightarrow> is_Approval i \<noteq> None \<Longrightarrow> bound_approval i"
  by (cases p) (auto simp: stage_ok_def)

definition revision_ok :: "intent \<Rightarrow> bool" where
  "revision_ok i \<longleftrightarrow> (\<forall>inp. is_Input i = Some inp \<longrightarrow> 1 \<le> ii_Revision inp \<and> ii_Revision inp \<le> MaxIntentRound)"

definition intent_ok :: "intent \<Rightarrow> bool" where
  "intent_ok i \<longleftrightarrow> intent_log_ok i \<and> revision_ok i \<and> stage_ok (at_phase i) i"

lemmas stage_defs = stage_ok_def bound_approval_def plan_posted_def

lemma stage_cong:
  assumes "is_Input j = is_Input i" "is_Plan j = is_Plan i" "is_Approval j = is_Approval i"
  shows "stage_ok p j = stage_ok p i" "revision_ok j = revision_ok i"
  unfolding stage_defs revision_ok_def assms by (rule refl)+

lemma log_cong:
  assumes "is_Phase j = is_Phase i" "is_PhaseTimes j = is_PhaseTimes i" "is_CompletedAt j = is_CompletedAt i"
  shows "intent_log_ok j = intent_log_ok i" "at_phase j = at_phase i"
  unfolding intent_log_ok_def at_phase_def phase_log_def IntentBlockedFrom_def assms by (rule refl)+

lemma core_ok: "same_core i j \<Longrightarrow> intent_ok j = intent_ok i"
  unfolding intent_ok_def same_core_def using stage_cong [of j i] log_cong [of j i] by simp

lemma ok_observed [simp]: "intent_ok (observed i) = intent_ok i"
  by (rule core_ok) simp

lemma at_phase_step:
  assumes "SetIntentPhase c to t = Some d" "intent_log_ok c"
  shows "at_phase d = (if to = IntentBlocked then at_phase c else to)"
proof (cases "to = IntentBlocked \<and> is_Phase c \<noteq> IntentBlocked")
  case False
  then show ?thesis using phase_fields [OF assms(1)] by (auto simp: at_phase_def)
next
  case True
  then have e: "edge (is_Phase c) IntentBlocked" and d: "d = c\<lparr>is_Phase := IntentBlocked,
          is_PhaseTimes := keep_latest MaxIntentPhaseTimes (is_PhaseTimes c @ [\<lparr>pt_Phase = IntentBlocked, pt_At = t\<rparr>]),
          is_CompletedAt := None\<rparr>"
    using phase_fields [OF assms(1)] True by (auto simp: IntentTerminal_def intentTerminal_def)
  have ok: "log_ok (is_Phase c) (phase_log c)" using assms(2) by (simp add: intent_log_ok_def)
  have "phase_log c \<noteq> []" using ok e by (auto simp: log_ok_def)
  then obtain ys where ys: "phase_log c = ys @ [is_Phase c]" using ok by (metis append_butlast_last_id log_ok_def)
  have len: "length (phase_log c) \<le> 64" using ok by (simp add: log_ok_def MaxIntentPhaseTimes_def)
  have "phase_log d = keep_latest MaxIntentPhaseTimes (ys @ [is_Phase c, IntentBlocked])"
    using ys d by (simp add: phase_log_def map_keep_latest)
  also have "\<dots> = drop (length ys + 2 - 64) ys @ [is_Phase c, IntentBlocked]"
    using len ys by (simp add: keep_latest_def MaxIntentPhaseTimes_def)
  finally have "IntentBlockedFrom d = is_Phase c"
    using True d unfolding IntentBlockedFrom_def fold_blocked phase_log_def [symmetric] by simp
  then show ?thesis using True d by (simp add: at_phase_def)
qed

lemma phase_step_keeps:
  "SetIntentPhase c to t = Some d \<Longrightarrow> is_Input d = is_Input c \<and> is_Plan d = is_Plan c \<and> is_Approval d = is_Approval c"
  using phase_fields [of c to t d] by auto

lemma ok_step:
  assumes "SetIntentPhase c to t = Some d" "intent_log_ok c" "revision_ok c" "stage_ok (if to = IntentBlocked then at_phase c else to) c"
  shows "intent_ok d"
  using phase_log_step [OF assms(1,2)] at_phase_step [OF assms(1,2)] phase_step_keeps [OF assms(1)] stage_cong [of d c] assms(3,4)
  by (simp add: intent_ok_def)

subsection \<open>Every move keeps it\<close>

lemma enter_stage:
  assumes "may_enter b e i c to" "same_core i c" "stage_ok (at_phase i) i" "SetIntentPhase c to t = Some d"
  shows "stage_ok (if to = IntentBlocked then at_phase c else to) c"
proof -
  have c: "stage_ok p c = stage_ok p i" "at_phase c = at_phase i" "is_Phase c = is_Phase i" for p
    using assms(2) stage_cong(1) [of c i] log_cong(2) [of c i] by (simp_all add: same_core_def)
  have "at_phase i = is_Phase i" if "is_Phase i \<noteq> IntentBlocked" using that by (simp add: at_phase_def)
  moreover have "is_Approval i = None \<or> bound_approval i" using stage_bound [OF assms(3)] by blast
  ultimately show ?thesis
    using assms(1,3) unfolding c may_enter_def
    by (cases to) (auto simp: stage_ok_def)
qed

lemma next_revision_bounds:
  assumes "revision_ok i"
  shows "1 \<le> next_revision i"
  using assms by (auto simp: revision_ok_def next_revision_def MaxIntentRound_def wrap split: option.splits)

lemma aside_ok: "same_core i c \<Longrightarrow> intent_ok i \<Longrightarrow> intent_log_ok c \<and> revision_ok c"
  using core_ok [of i c] by (simp add: intent_ok_def)

lemma move_keeps_ok:
  assumes "intent_move b e i j" "intent_ok i"
  shows "intent_ok j"
  using assms
proof (induction rule: intent_move.induct)
  case (aside i j)
  then show ?case using core_ok [of i j] by simp
next
  case (enter i c to d)
  have "stage_ok (if to = IntentBlocked then at_phase c else to) c"
    using enter enter.prems by (intro enter_stage) (auto simp: intent_ok_def)
  then have "intent_ok d" using ok_step [OF enter(3)] aside_ok [OF enter(1) enter.prems] by blast
  then show ?case by simp
next
  case (unblock i c d)
  have i: "intent_log_ok i" "stage_ok (at_phase i) i" using unblock.prems by (simp_all add: intent_ok_def)
  have resumes: "resume_phase i = IntentBlockedFrom i" "edge (IntentBlockedFrom i) IntentBlocked"
    using resume_legal [OF i(1) unblock(2)] blocked_from [OF i(1) unblock(2)] by simp_all
  then have "resume_phase i \<noteq> IntentBlocked" using no_self_edge by metis
  moreover have "stage_ok (resume_phase i) c"
    using i(2) unblock(1,2) resumes(1) stage_cong(1) [of c i] by (simp add: at_phase_def same_core_def)
  ultimately have "intent_ok d" using ok_step [OF unblock(3)] aside_ok [OF unblock(1) unblock.prems] by simp
  then show ?case by simp
next
  case (plan i trig inp d)
  let ?c = "planning_status b inp trig i"
  have "intent_log_ok ?c" using plan.prems log_cong [of ?c i] by (simp add: intent_ok_def planning_status_def)
  moreover have "revision_ok ?c"
    using plan(2) next_revision_bounds plan.prems by (simp add: revision_ok_def planning_status_def new_input_def intent_ok_def)
  moreover have "stage_ok IntentPlanning ?c" by (simp add: stage_ok_def planning_status_def)
  ultimately have "intent_ok d" using ok_step [OF plan(3)] by simp
  then show ?case by simp
next
  case (written i inp pl)
  let ?c = "i\<lparr>is_Plan := Some pl\<rparr>"
  have "intent_ok ?c"
    using written.prems written log_cong [of ?c i] by (auto simp: intent_ok_def revision_ok_def at_phase_def stage_ok_def)
  then show ?case by simp
next
  case (post i inp pl c d)
  let ?c = "posted_status b c i"
  have i: "intent_log_ok i" "revision_ok i" "stage_ok IntentPlanning i"
    using post.prems post(1) by (simp_all add: intent_ok_def at_phase_def)
  have "intent_log_ok ?c" using i(1) log_cong [of ?c i] by (simp add: posted_status_def)
  moreover have "revision_ok ?c" using i(2) by (simp add: revision_ok_def posted_status_def)
  moreover have "stage_ok IntentAwaitingApproval ?c"
    using i(3) post by (simp add: stage_ok_def plan_posted_def posted_status_def)
  ultimately have "intent_ok d" using ok_step [OF post(5)] by simp
  then show ?case by simp
next
  case (approve i pl inp a posted d)
  let ?ap = "approval_of a (pl_Revision pl) (pl_Digest pl) (ii_Digest inp)"
  let ?c = "approved_status b ?ap i"
  have i: "intent_log_ok i" "revision_ok i" "stage_ok IntentAwaitingApproval i" "is_Plan i = Some pl" "is_Input i = Some inp"
    using approve.prems approve(1,2) by (simp_all add: intent_ok_def at_phase_def may_approve_def)
  have "intent_log_ok ?c" using i(1) log_cong [of ?c i] by (simp add: approved_status_def setCondition_def)
  moreover have "revision_ok ?c" using i(2) by (simp add: revision_ok_def approved_status_def setCondition_def)
  moreover have "unix posted \<le> unix (ha_at a)" using approve(4) by (simp add: unix_def zdiv_mono1)
  then have "stage_ok IntentBuilding ?c"
    using i(3-5) approve(3) by (simp add: stage_defs approved_status_def setCondition_def approval_of_def)
  ultimately have "intent_ok d" using ok_step [OF approve(5)] by simp
  then show ?case by simp
next
  case (reapprove i pl inp a prev)
  let ?c = "approved_status b (approval_of a (iap_PlanRevision prev) (iap_PlanDigest prev) (iap_InputDigest prev)) i"
  have i: "intent_log_ok i" "revision_ok i" "is_Plan i = Some pl" "is_Input i = Some inp" "is_Phase i = IntentBlocked" "IntentBlockedFrom i = IntentBuilding"
    using reapprove.prems reapprove(1,2) by (simp_all add: intent_ok_def may_approve_def credentialReapproval_def)
  have bound: "bound_approval i" using reapprove.prems i(5,6) by (simp add: intent_ok_def at_phase_def stage_ok_def)
  have "unix (iap_At prev) \<le> unix (ha_at a)" using reapprove(4) by (auto simp: action_after_def after_def prev_record_def split: if_splits)
  then have "bound_approval ?c"
    using bound i(3,4) reapprove(3) by (auto simp: bound_approval_def approved_status_def setCondition_def approval_of_def)
  moreover have "intent_log_ok ?c" "at_phase ?c = IntentBuilding"
    using i log_cong [of ?c i] by (simp_all add: approved_status_def setCondition_def at_phase_def)
  moreover have "revision_ok ?c" using i(2) by (simp add: revision_ok_def approved_status_def setCondition_def)
  ultimately have "intent_ok ?c" by (simp add: intent_ok_def stage_ok_def)
  then show ?case by simp
next
  case (consume i r)
  let ?c = "i\<lparr>is_LastTrigger := Some r\<rparr>"
  have "intent_ok ?c" using consume.prems log_cong [of ?c i] stage_cong [of ?c i] by (simp add: intent_ok_def)
  then show ?case by simp
next
  case (heard i refused n t)
  let ?c = "i\<lparr>is_Commands := Some (next_commands i refused n t)\<rparr>"
  have "intent_ok ?c" using heard.prems log_cong [of ?c i] stage_cong [of ?c i] by (simp add: intent_ok_def)
  then show ?case by simp
qed

end
