(* ===== verification/IntentDemo.thy ===== *)
theory IntentDemo
  imports IntentFlow
begin

text \<open>
  One Intent from its creation to the build of its approved plan, for the witnesses: the requester alice is an
  approver with write access, the plan run answers at once, and she approves with the label.
\<close>

definition demo_intent_ops :: intent_ops where
  "demo_intent_ops = \<lparr>io_meta = demo_meta, io_text = demo_text, io_lower = id, io_trim = id, io_fields = (\<lambda>s. [s]),
     io_runes = (\<lambda>_. []), io_graphic = (\<lambda>_. True), io_digest = take 3, io_sha = id, io_slug = id,
     io_marker = (\<lambda>n k. n @ k), io_plan_marker = (\<lambda>n r d. n), io_words = id\<rparr>"

definition demo_limits :: stage_limits where
  "demo_limits = \<lparr>sl_MaxTurns = 10, sl_TokenBudget = 10, sl_Timeout = None, sl_MaxCostMicroUSD = 10\<rparr>"

definition demo_repo :: project_repository where
  "demo_repo = \<lparr>pjr_Name = ''app'', pjr_URL = ''r'', pjr_Class = []\<rparr>"

definition demo_project :: project where
  "demo_project = \<lparr>pj_Name = ''p'', pj_Generation = 1, pj_Suspend = False, pj_Repositories = [demo_repo], pj_Approvers = [''alice''],
     pj_ApproveLabel = [], pj_TriggerLabel = [], pj_Codex = False, pj_Plan = demo_limits, pj_Build = demo_limits,
     pj_Revise = demo_limits, pj_MaxActiveIntents = 1, pj_MaxCostMicroUSD = 100, pj_MaxRevisions = None,
     pj_MaxCheckFixes = None, pj_RequireRepositoryImage = None\<rparr>"

definition demo_ceiling :: stage_ceiling where
  "demo_ceiling = \<lparr>sc_MaxTurns = 10, sc_TokenBudget = 10, sc_Timeout = 1\<rparr>"

definition demo_settings :: intent_settings where
  "demo_settings = \<lparr>st_PollInterval = 0, st_ApprovalPollInterval = 0, st_PRPollInterval = 0, st_RateLimitFloor = 0, st_MaxAttempts = 0,
     st_Plan = demo_ceiling, st_Build = demo_ceiling, st_Revise = demo_ceiling, st_MultiRepo = False, st_Attribution = ModeOff,
     st_UserCredentials = CredOff, st_AccountURL = [], st_CostBudgets = False, st_BrokerCostPerHour = 0, st_JobDeadline = 0,
     st_JobDeadlineMax = 0\<rparr>"

definition demo_issue :: gh_issue where
  "demo_issue = \<lparr>gi_Title = ''t'', gi_Body = ''b'', gi_State = ''open'', gi_Labels = [DefaultApproveLabel]\<rparr>"

definition demo_comment :: issue_comment where
  "demo_comment = \<lparr>cm_ID = 7, cm_NodeID = ''n'', cm_Body = ''plan'', cm_UserLogin = ''maul'', cm_UserID = 1, cm_UserType = ''Bot'',
     cm_CreatedAt = 3 * nano_second\<rparr>"

definition demo_snapshot :: snapshot where
  "demo_snapshot = \<lparr>sn_Title = ''t'', sn_Body = ''b'', sn_Repositories = [''r''], sn_Comments = []\<rparr>"

definition demo_config :: "string \<Rightarrow> config_map" where
  "demo_config n = \<lparr>cf_Name = n, cf_Owner = ''uid'', cf_Data = (\<lambda>_. [])(''issue.md'' := render demo_intent_ops demo_snapshot,
     ''title'' := ''t'', ''body'' := ''b'', ''repositories'' := ''r'', ''plan.md'' := ''plan'')\<rparr>"

definition demo_plan_run :: intent_run where
  "demo_plan_run = \<lparr>ir_Name = ''p-1-plan-r1-a1'', ir_UID = ''run'', ir_Created = 2 * nano_second, ir_Deleting = False,
     ir_IntentUID = ''uid'', ir_Stage = StagePlan, ir_URL = ''r'', ir_RepositoryRef = [], ir_Trees = [], ir_Round = 1, ir_Attempt = 1,
     ir_Trigger = NoRoundTrigger, ir_InputConfigMap = [], ir_InputDigest = [], ir_ContextDigest = [], ir_PlanRevision = 0,
     ir_PlanDigest = [], ir_Grant = \<lparr>rg_MaxTurns = 1, rg_TokenBudget = 1, rg_TimeoutMilliseconds = 1, rg_BudgetMicroUSD = 0\<rparr>,
     ir_PreviousAttempt = None, ir_AttributedTo = None, ir_Finalizers = [], ir_Codex = False, ir_Phase = RunComplete,
     ir_Outcome = [], ir_Detail = [], ir_Report = ''plan'', ir_Conditions = [], ir_PushedCommit = [],
     ir_Usage = \<lparr>ru_CostUSD = [], ru_Input = 0, ru_Output = 0, ru_CacheRead = 0, ru_CacheCreation = 0\<rparr>,
     ir_JobRef = False, ir_FinishedAt = None\<rparr>"

definition demo_approval_event :: issue_event where
  "demo_approval_event = \<lparr>ev_ID = 9, ev_Event = ''labeled'', ev_CreatedAt = 5 * nano_second,
     ev_Actor = \<lparr>ca_Login = ''alice'', ca_ID = 2, ca_Type = ''User''\<rparr>, ev_Label = DefaultApproveLabel\<rparr>"

definition demo_prs :: pull_request_reads where
  "demo_prs = \<lparr>pq_default_branch = (\<lambda>_. Got ''main''), pq_head = (\<lambda>_ _. Missing), pq_find = (\<lambda>_ _. Got None),
     pq_get = (\<lambda>_ _. Missing), pq_created = (\<lambda>_. \<lparr>fp_Number = 1, fp_URL = [], fp_NodeID = [], fp_HeadSHA = [], fp_Author = [],
       fp_Base = [], fp_HeadRepo = []\<rparr>), pq_resolved = (\<lambda>_. Missing), pq_requirements = (\<lambda>_. True)\<rparr>"

definition demo_env :: "time \<Rightarrow> intent_run list \<Rightarrow> issue_event list \<Rightarrow> intent_env" where
  "demo_env now runs events = \<lparr>ie_now = now, ie_set = demo_settings, ie_proj = demo_project, ie_harness = [], ie_images_enabled = True,
     ie_breaker_tripped = False, ie_class_known = (\<lambda>_. True), ie_lookup = None, ie_bot = (\<lambda>_. Got ''maul''),
     ie_rate = (\<lambda>_. Got 5000), ie_issue = Got demo_issue, ie_events = Got events, ie_comments = (\<lambda>_. Got []),
     ie_permission = (\<lambda>_ _. Permission ''write''), ie_edited = (\<lambda>_. Edited False), ie_comment = (\<lambda>_. Got demo_comment),
     ie_posted = (\<lambda>_. demo_comment), ie_config = (\<lambda>n. Got (demo_config n)), ie_cached_config = (\<lambda>_. Missing),
     ie_siblings = Got [], ie_runs = Got runs, ie_existing_run = (\<lambda>_. Missing), ie_created_run = (\<lambda>_. (''run'', now)),
     ie_repository_owner = (\<lambda>_. Missing), ie_cached_repository = (\<lambda>_. Missing),
     ie_parse_plan = (\<lambda>_. Some \<lparr>pn_Summary = [], pn_Repositories = [''r''], pn_MaxTurns = 1, pn_TokenBudget = 1\<rparr>),
     ie_plan_render = (\<lambda>_ _. PlanShown), ie_plan_same = (\<lambda>_. Some True), ie_plan_context = Got [], ie_open_prs = [],
     ie_feedback_text = (\<lambda>_. []), ie_pr = demo_prs, ie_call = (\<lambda>_ _. Accepted), ie_write = (\<lambda>_. Written),
     ie_revise_children = (\<lambda>_. ret ()), ie_round_records = ret False, ie_start_round = (\<lambda>_. ret False), ie_revising = ret False,
     ie_revise_branch_holds = (\<lambda>_. ret False), ie_previews = ret (False, False), ie_ended_notices = ret (False, False),
     ie_untracked = ret (False, False), ie_status_comment = ret ()\<rparr>"

definition demo_intent :: intent where
  "demo_intent = \<lparr>in_Name = ''p-1'', in_UID = ''uid'', in_Generation = 1, in_Created = nano_second, in_Deleting = False,
     in_Project = ''p'', in_Repository = ''r'', in_Number = 1, in_RequestedLogin = ''alice'', in_RequestedUserID = 2,
     in_RequestedAt = nano_second, in_RequestedEventID = 3, in_Suspend = False, is_Phase = IntentNone, is_PhaseTimes = [],
     is_Conditions = [], is_ObservedGeneration = 0, is_Input = None, is_Plan = None, is_Approval = None,
     is_CredentialHold = None, is_LastTrigger = None, is_Commands = None, is_Branch = [], is_PullRequests = [],
     is_Rounds = 0, is_RoundNoticesThrough = 0, is_Usage = no_usage, is_ActiveRun = None, is_CompletedAt = None\<rparr>"

definition demo_memo :: intent_memo where
  "demo_memo = \<lparr>mm_polled = None, mm_prPolled = None, mm_blockedAt = None, mm_departed = (\<lambda>_. None), mm_nudged = False\<rparr>"

text \<open>The statuses a pass at second \<open>n\<close> writes.\<close>

definition demo_writes :: "int \<Rightarrow> intent_run list \<Rightarrow> issue_event list \<Rightarrow> intent \<Rightarrow> intent list" where
  "demo_writes n runs events i =
     pp_writes (snd (intent_reconcile demo_intent_ops (demo_env (n * nano_second) runs events) True demo_memo i))"

definition demo_pending :: intent where
  "demo_pending = demo_intent\<lparr>is_Phase := IntentPending, is_PhaseTimes := [\<lparr>pt_Phase = IntentPending, pt_At = 2000000000\<rparr>],
     is_ObservedGeneration := 1\<rparr>"

definition demo_planning :: intent where
  "demo_planning = demo_pending\<lparr>is_Phase := IntentPlanning,
     is_PhaseTimes := [\<lparr>pt_Phase = IntentPending, pt_At = 2000000000\<rparr>, \<lparr>pt_Phase = IntentPlanning, pt_At = 2000000000\<rparr>],
     is_Input := Some \<lparr>ii_Revision = 1, ii_Digest = ''# t'', ii_ConfigMap = ''p-1-input-r1'', ii_ContextDigest = [],
       ii_Trigger = Some \<lparr>ia_Source = IntentActionLabel, ia_EventID = 3, ia_Login = ''alice'', ia_UserID = 2,
         ia_At = 1000000000\<rparr>\<rparr>\<rparr>"

definition demo_plan :: intent_plan where
  "demo_plan = \<lparr>pl_Revision = 1, pl_Digest = ''pla'', pl_ConfigMap = ''p-1-plan-r1'', pl_CommentID = 0, pl_CommentDigest = [],
     pl_PostedAt = None, pl_Summary = [], pl_Repositories = [''r'']\<rparr>"

definition demo_planned :: intent where "demo_planned = demo_planning\<lparr>is_Plan := Some demo_plan\<rparr>"

definition demo_posted :: intent where
  "demo_posted = demo_planned\<lparr>is_Phase := IntentAwaitingApproval,
     is_PhaseTimes := is_PhaseTimes demo_planned @ [\<lparr>pt_Phase = IntentAwaitingApproval, pt_At = 3000000000\<rparr>],
     is_Plan := Some (demo_plan\<lparr>pl_CommentID := 7, pl_CommentDigest := ''pla'', pl_PostedAt := Some 3000000000\<rparr>)\<rparr>"

definition demo_approved :: intent where
  "demo_approved = demo_posted\<lparr>is_Phase := IntentBuilding,
     is_PhaseTimes := is_PhaseTimes demo_posted @ [\<lparr>pt_Phase = IntentBuilding, pt_At = 6000000000\<rparr>],
     is_Conditions := [\<lparr>ctype = ConditionApprovalRejected, cstatus = ''False'', creason = ''Approved'', cmessage = ''Approved'',
       cgeneration = 1\<rparr>],
     is_Approval := Some \<lparr>iap_By = ''alice'', iap_ByID = 2, iap_Source = IntentActionLabel, iap_EventID = 9, iap_At = 5000000000,
       iap_PlanRevision = 1, iap_PlanDigest = ''pla'', iap_InputDigest = ''# t''\<rparr>\<rparr>"

definition demo_building :: intent where
  "demo_building = demo_approved\<lparr>is_ActiveRun := Some (''p-1-bld-r1-app-a1'', ''run'')\<rparr>"

definition demo_closed_env :: intent_env where
  "demo_closed_env = (demo_env (6 * nano_second) [demo_plan_run] [])\<lparr>ie_issue := Got (demo_issue\<lparr>gi_State := ''closed''\<rparr>)\<rparr>"

definition demo_closed :: intent where
  "demo_closed = demo_posted\<lparr>is_Phase := IntentClosed,
     is_PhaseTimes := is_PhaseTimes demo_posted @ [\<lparr>pt_Phase = IntentClosed, pt_At = 6000000000\<rparr>], is_CompletedAt := Some 6000000000\<rparr>"

definition demo_calls :: "call list" where
  "demo_calls = pp_calls (snd (intent_reconcile demo_intent_ops
     (demo_env (6 * nano_second) [demo_plan_run] [demo_approval_event]) True demo_memo demo_posted))"

fun is_build :: "call \<Rightarrow> bool" where
  "is_build (CreateRun r) = (ir_Stage r = StageBuild)"
| "is_build _ = False"

lemma demo_passes:
  "(demo_writes 2 [] [] demo_intent = [demo_pending] \<and> demo_writes 2 [] [] demo_pending = [demo_planning])
   \<and> (demo_writes 2 [demo_plan_run] [] demo_planning = [demo_planned] \<and> demo_writes 3 [demo_plan_run] [] demo_planned = [demo_posted])
   \<and> demo_writes 6 [demo_plan_run] [demo_approval_event] demo_posted = [demo_approved, demo_building]
   \<and> pp_writes (snd (intent_reconcile demo_intent_ops demo_closed_env True demo_memo demo_posted)) = [demo_closed]
   \<and> list_ex is_build demo_calls"
  by code_simp

lemmas demo_1 = demo_passes [THEN conjunct1, THEN conjunct1]
lemmas demo_2 = demo_passes [THEN conjunct1, THEN conjunct2]
lemmas demo_3 = demo_passes [THEN conjunct2, THEN conjunct1, THEN conjunct1]
lemmas demo_4 = demo_passes [THEN conjunct2, THEN conjunct1, THEN conjunct2]
lemmas demo_5 = demo_passes [THEN conjunct2, THEN conjunct2, THEN conjunct1]
lemmas demo_6 = demo_passes [THEN conjunct2, THEN conjunct2, THEN conjunct2, THEN conjunct1]
lemmas demo_7 = demo_passes [THEN conjunct2, THEN conjunct2, THEN conjunct2, THEN conjunct2]

end
