(* ===== verification/IntentProps.thy ===== *)
theory IntentProps
  imports IntentWhole IntentLog IntentDemo
begin

text \<open>
  The properties of the Intent: what a pass writes, what every stored Intent satisfies, and what an
  approval, an ending and a new plan each take. The handlers of the review rounds, of previews and of the
  notices kept beside an ended Intent are not modelled; \<open>rests\<close> says what they may write.
\<close>

subsection \<open>A pass\<close>

definition defaults :: "intent_env \<Rightarrow> intent_env" where
  "defaults e = e\<lparr>ie_set := withDefaults (ie_set e)\<rparr>"

definition pass_writes :: "intent_ops \<Rightarrow> intent_env \<Rightarrow> bool \<Rightarrow> intent_memo \<Rightarrow> intent \<Rightarrow> intent list" where
  "pass_writes b e has_project m i = pp_writes (snd (intent_reconcile b e has_project m i))"

definition next_to :: "'a \<Rightarrow> 'a \<Rightarrow> 'a list \<Rightarrow> bool" where
  "next_to x y zs \<longleftrightarrow> (\<exists>us vs. zs = us @ x # y # vs)"

lemma round_move_now: "round_move e i j \<Longrightarrow> ie_now e' = ie_now e \<Longrightarrow> round_move e' i j"
  by (induction rule: round_move.induct) (auto intro: round_move.intros)

lemma rests_defaults: "rests e \<Longrightarrow> rests (defaults e)"
  unfolding rests_def defaults_def
  by (simp, blast intro: doing_relation round_move_now [of e _ _ "e\<lparr>ie_set := s\<rparr>" for s, simplified])

lemma answers_defaults [simp]:
  "authorised b (defaults e) u a = authorised b e u a" "own_words (defaults e) h = own_words e h"
  "comment_as_posted b (defaults e) pl = comment_as_posted b e pl" "issue_as_planned b (defaults e) inp = issue_as_planned b e inp"
  "ie_issue (defaults e) = ie_issue e" "ie_now (defaults e) = ie_now e"
  by (simp_all add: authorised_def own_words_def comment_as_posted_def issue_as_planned_def defaults_def)

lemma closing_defaults [simp]:
  "may_close b (defaults e) i c = may_close b e i c" "may_plan b (defaults e) i trig = may_plan b e i trig"
  by (simp_all add: may_close_def may_plan_def split: option.split)

lemma reconcile_good:
  assumes "rests e"
  shows "chain (intent_move b (defaults e)) i (pass_writes b e has_project m i)"
proof -
  have "good (intent_move b (defaults e)) anything (new_pass i m) (run_pass b (defaults e) (new_pass i m))"
    using doing_run_pass [OF rests_defaults [OF assms], of b i] unfolding doing_def by (simp add: new_pass_def)
  then have "chain (intent_move b (defaults e)) i (pp_writes (snd (run_pass b (defaults e) (new_pass i m))))"
    by (auto simp: good_def new_pass_def)
  moreover have "pass_writes b e has_project m i = pp_writes (snd (run_pass b (defaults e) (new_pass i m))) \<or> pass_writes b e has_project m i = []"
    unfolding pass_writes_def intent_reconcile_def defaults_def Let_def
    by (cases "run_pass b (e\<lparr>ie_set := withDefaults (ie_set e)\<rparr>) (new_pass i m)" rule: prod.exhaust)
      (auto simp: new_pass_def split: outcome.splits fault.splits)
  ultimately show ?thesis by auto
qed

lemma chain_next: "chain R i ws \<Longrightarrow> next_to x y (i # ws) \<Longrightarrow> R x y"
proof (induction ws arbitrary: i)
  case Nil
  then show ?case by (auto simp: next_to_def Cons_eq_append_conv)
next
  case (Cons w ws)
  then show ?case by (fastforce simp: next_to_def Cons_eq_append_conv)
qed

subsection \<open>The life of an Intent\<close>

text \<open>
  Stored Intents: created with an empty status, rewritten by a pass (any of its writes may be the last one,
  for the process may stop after it), or edited from outside, which reaches only the suspension, the
  deletion mark and the generation: the rest of the spec is immutable and only the controller writes the status.
\<close>

definition fresh_intent :: "intent \<Rightarrow> bool" where
  "fresh_intent i \<longleftrightarrow> is_Phase i = IntentNone \<and> is_PhaseTimes i = [] \<and> is_Input i = None \<and> is_Plan i = None \<and>
     is_Approval i = None \<and> is_LastTrigger i = None \<and> is_Commands i = None \<and> is_CompletedAt i = None"

inductive intent_life :: "intent_ops \<Rightarrow> intent \<Rightarrow> bool" for b where
  created: "fresh_intent i \<Longrightarrow> intent_life b i"
| stored: "intent_life b i \<Longrightarrow> rests e \<Longrightarrow> j \<in> set (pass_writes b e has_project m i) \<Longrightarrow> intent_life b j"
| edited: "intent_life b i \<Longrightarrow> intent_life b (i\<lparr>in_Suspend := s, in_Deleting := d, in_Generation := g\<rparr>)"

lemma chain_keeps: "chain (intent_move b e) i ws \<Longrightarrow> intent_ok i \<Longrightarrow> \<forall>j\<in>set ws. intent_ok j"
  by (induction ws arbitrary: i) (auto dest: move_keeps_ok)

lemma life_ok: "intent_life b i \<Longrightarrow> intent_ok i"
proof (induction rule: intent_life.induct)
  case (created i)
  then show ?case
    by (simp add: fresh_intent_def intent_ok_def intent_log_ok_def log_ok_def phase_log_def revision_ok_def at_phase_def stage_ok_def
        IntentTerminal_def intentTerminal_def)
next
  case (stored i e j has_project m)
  then show ?case using chain_keeps [OF reconcile_good [OF stored.hyps(2)]] by blast
next
  case (edited i g d s)
  let ?j = "i\<lparr>in_Suspend := s, in_Deleting := d, in_Generation := g\<rparr>"
  show ?case using edited.IH stage_cong [of ?j i] log_cong [of ?j i] by (simp add: intent_ok_def)
qed

lemma next_cases: "next_to x y (i # ws) \<Longrightarrow> x = i \<or> x \<in> set ws"
  by (auto simp: next_to_def Cons_eq_append_conv)

lemma step_of_life:
  assumes "intent_life b i" "rests e" "next_to x y (i # pass_writes b e has_project m i)"
  shows "intent_move b (defaults e) x y \<and> intent_life b x"
  using chain_next [OF reconcile_good [OF assms(2)] assms(3)] next_cases [OF assms(3)] intent_life.stored [OF assms(1,2)] assms(1)
  by blast

subsection \<open>The demonstration\<close>

lemma demo_rests: "rests (demo_env n runs events)"
  by (auto simp: rests_def demo_env_def intro!: calm doing_ret)

lemma demo_pass: "pass_writes demo_intent_ops (demo_env (n * nano_second) runs events) True demo_memo i = demo_writes n runs events i"
  by (simp add: pass_writes_def demo_writes_def)

lemma demo_step: "intent_life demo_intent_ops i \<Longrightarrow> j \<in> set (demo_writes n runs events i) \<Longrightarrow> intent_life demo_intent_ops j"
  unfolding demo_pass [symmetric] by (rule intent_life.stored [OF _ demo_rests])

lemma demo_alive: "intent_life demo_intent_ops demo_pending" "intent_life demo_intent_ops demo_posted" "intent_life demo_intent_ops demo_building"
proof -
  have "intent_life demo_intent_ops demo_intent"
    by (rule intent_life.created) (simp add: fresh_intent_def demo_intent_def)
  then show pending: "intent_life demo_intent_ops demo_pending" by (rule demo_step) (subst demo_1, simp)
  then have "intent_life demo_intent_ops demo_planning" by (rule demo_step) (subst demo_2, simp)
  then have "intent_life demo_intent_ops demo_planned" by (rule demo_step) (subst demo_3, simp)
  then show posted: "intent_life demo_intent_ops demo_posted" by (rule demo_step) (subst demo_4, simp)
  then show "intent_life demo_intent_ops demo_building" by (rule demo_step) (subst demo_5, simp)
qed

lemma demo_next:
  "next_to demo_posted demo_approved (demo_posted # pass_writes demo_intent_ops
     (demo_env (6 * nano_second) [demo_plan_run] [demo_approval_event]) True demo_memo demo_posted)"
  unfolding demo_pass demo_5
  by (auto simp: next_to_def intro: exI [of _ "[]"])

subsection \<open>The properties\<close>



text \<open>
  C8. The phase log of every stored Intent is legal: at most 64 entries, each one edge of the table after the
  one before, the last one the phase; the Intent is completed exactly in a terminal phase; and a blocked
  one can always resume, to the phase it was blocked from.
\<close>

theorem intent_log_legal:
  assumes "intent_life b i"
  shows "length (is_PhaseTimes i) \<le> 64 \<and> successively (\<lambda>x y. y \<in> set (intentTransitions x)) (map pt_Phase (is_PhaseTimes i)) \<and>
    (if is_PhaseTimes i = [] then is_Phase i = IntentNone else pt_Phase (last (is_PhaseTimes i)) = is_Phase i) \<and>
    (is_CompletedAt i \<noteq> None \<longleftrightarrow> IntentTerminal (is_Phase i)) \<and>
    (is_Phase i = IntentBlocked \<longrightarrow> IntentBlockedFrom i \<notin> {IntentNone, IntentBlocked, IntentMerged, IntentClosed, IntentFailed} \<and>
       SetIntentPhase i (IntentBlockedFrom i) now \<noteq> None)"
proof -
  have ok: "intent_log_ok i" using life_ok [OF assms] by (simp add: intent_ok_def)
  have "IntentBlockedFrom i \<notin> {IntentNone, IntentBlocked, IntentMerged, IntentClosed, IntentFailed} \<and>
      SetIntentPhase i (IntentBlockedFrom i) now \<noteq> None" if "is_Phase i = IntentBlocked"
    using blocked_from [OF ok that] resume_legal [OF ok that] that
    by (cases "IntentBlockedFrom i") (auto simp: SetIntentPhase_def)
  then show ?thesis
    using ok by (auto simp: intent_log_ok_def log_ok_def phase_log_def MaxIntentPhaseTimes_def last_map)
qed

lemma intent_log_legal_witness:
  "length (is_PhaseTimes demo_building) = 4 \<and>
   successively (\<lambda>x y. y \<in> set (intentTransitions x)) (map pt_Phase (is_PhaseTimes demo_building)) \<and>
   pt_Phase (last (is_PhaseTimes demo_building)) = IntentBuilding"
  using intent_log_legal [OF demo_alive(3), of 0]
  by (simp add: demo_building_def demo_approved_def demo_posted_def demo_planned_def demo_planning_def)

text \<open>
  C5. Nothing is built without an approval: an Intent that builds, is in review or is being revised, or that
  was blocked from there, holds an approval of the very plan revision and plan bytes it holds and of
  the request they were made from, given no earlier than the second that plan was posted in.
\<close>

theorem build_only_approved:
  assumes "intent_life b i"
    and "(if is_Phase i = IntentBlocked then IntentBlockedFrom i else is_Phase i) \<in> {IntentBuilding, IntentInReview, IntentRevising}"
  shows "\<exists>ap pl inp posted. is_Approval i = Some ap \<and> is_Plan i = Some pl \<and> is_Input i = Some inp \<and>
    iap_PlanRevision ap = pl_Revision pl \<and> pl_Revision pl = ii_Revision inp \<and> iap_PlanDigest ap = pl_Digest pl \<and>
    iap_InputDigest ap = ii_Digest inp \<and> pl_PostedAt pl = Some posted \<and> unix posted \<le> unix (iap_At ap)"
proof -
  have "stage_ok (at_phase i) i" using life_ok [OF assms(1)] by (simp add: intent_ok_def)
  moreover have "at_phase i \<in> {IntentBuilding, IntentInReview, IntentRevising}" using assms(2) by (simp add: at_phase_def)
  ultimately have "bound_approval i" by (auto simp: stage_ok_def)
  then show ?thesis unfolding bound_approval_def .
qed

lemma build_only_approved_witness:
  "\<exists>ap pl. is_Approval demo_building = Some ap \<and> is_Plan demo_building = Some pl \<and> iap_PlanDigest ap = pl_Digest pl"
  using build_only_approved [OF demo_alive(3)]
  by (auto simp: demo_building_def demo_approved_def)





definition input_revision :: "intent \<Rightarrow> int" where
  "input_revision i = (case is_Input i of Some inp \<Rightarrow> ii_Revision inp | None \<Rightarrow> 0)"

lemma next_revision_of:
  "revision_ok i \<Longrightarrow> next_revision i = input_revision i + 1"
  by (auto simp: revision_ok_def next_revision_def input_revision_def MaxIntentRound_def wrap split: option.splits)

lemma move_monotone:
  assumes "intent_move b e x y" "intent_ok x"
  shows "\<not> newer (lastTrigger x) (lastTrigger y) \<and> input_revision x \<le> input_revision y"
  using assms
proof (induction rule: intent_move.induct)
  case (aside x y)
  then show ?case using keep_core [OF aside(1)] by (simp add: keep_def input_revision_def same_core_def)
next
  case (enter x c to d)
  have "keep x (observed d)" using keep_phase [OF enter(3)] keep_core [OF enter(1)] by blast
  then show ?case using phase_keeps [OF enter(3)] enter(1) by (simp add: keep_def input_revision_def same_core_def)
next
  case (unblock x c d)
  have "keep x (observed d)" using keep_phase [OF unblock(3)] keep_core [OF unblock(1)] by blast
  then show ?case using phase_keeps [OF unblock(3)] unblock(1) by (simp add: keep_def input_revision_def same_core_def)
next
  case (plan x trig inp d)
  have "lastTrigger (observed d) = (case trig of Some r \<Rightarrow> r | None \<Rightarrow> lastTrigger x)"
    using moves_trigger_planning [OF plan(3)] by (simp add: moves_trigger_def)
  moreover have "is_Input (observed d) = Some inp" using phase_keeps [OF plan(3)] by (simp add: planning_status_def)
  moreover have "ii_Revision inp = input_revision x + 1"
    using plan(2) next_revision_of [of x] plan.prems by (simp add: new_input_def intent_ok_def)
  ultimately show ?case using plan(1) by (auto simp: may_plan_def input_revision_def split: option.splits)
next
  case (post x inp pl c d)
  have "keep x (observed d)"
    by (rule keep_phase [OF post(5)], rule keepI) (simp_all add: posted_status_def same_spec_def)
  then show ?case using phase_keeps [OF post(5)] by (simp add: keep_def input_revision_def posted_status_def)
next
  case (approve x pl inp a posted d)
  have "keep x (observed d)"
    by (rule keep_phase [OF approve(5)], rule keepI) (simp_all add: approved_status_def setCondition_def same_spec_def)
  then show ?case using phase_keeps [OF approve(5)] by (simp add: keep_def input_revision_def approved_status_def setCondition_def)
qed (simp_all add: lastTrigger_def input_revision_def approved_status_def setCondition_def observed_def split: option.split)

lemma chain_monotone:
  "chain (intent_move b e) i ws \<Longrightarrow> intent_ok i \<Longrightarrow>
   \<forall>j\<in>set ws. \<not> newer (lastTrigger i) (lastTrigger j) \<and> input_revision i \<le> input_revision j"
proof (induction ws arbitrary: i)
  case (Cons w ws)
  have w: "intent_ok w" "\<not> newer (lastTrigger i) (lastTrigger w)" "input_revision i \<le> input_revision w"
    using Cons.prems move_keeps_ok move_monotone by auto
  have "\<forall>j\<in>set ws. \<not> newer (lastTrigger w) (lastTrigger j) \<and> input_revision w \<le> input_revision j"
    using Cons.IH [OF _ w(1)] Cons.prems by simp
  then show ?case using w(2,3) newer_co_trans by fastforce
qed simp

text \<open>
  C9. Plans follow triggers, and neither runs backwards: over a pass the newest trigger consumed and the input
  revision only grow; and a write that opens a plan takes the next revision, of at most 999, from an Intent that
  was pending, waited for approval or had failed, records the trigger it serves, which is no older than the
  last one consumed, drops the plan and the approval before it, and serves an authorised person.
\<close>

theorem plans_follow_triggers:
  assumes "intent_life b i" "rests e" "next_to x y (i # pp_writes (snd (intent_reconcile b e has_project m i)))"
  shows "\<not> newer (lastTrigger i) (lastTrigger y) \<and> \<not> newer (lastTrigger x) (lastTrigger y) \<and>
    input_revision i \<le> input_revision y \<and> input_revision x \<le> input_revision y \<and>
    (is_Input y \<noteq> is_Input x \<longrightarrow>
       (\<exists>inp tr. is_Input y = Some inp \<and> ii_Revision inp = input_revision x + 1 \<and> ii_Revision inp \<le> 999 \<and> ii_Trigger inp = Some tr \<and>
          tr = lastTrigger y \<and> is_Phase y = IntentPlanning \<and> is_Plan y = None \<and> is_Approval y = None \<and>
          is_Phase x \<in> {IntentPending, IntentAwaitingApproval, IntentFailed} \<and>
          (\<exists>who. authorised b e (in_Repository x) who \<and> (ca_Login who = ia_Login tr \<or> ca_Login who = in_RequestedLogin x))))"
proof -
  have step: "intent_move b (defaults e) x y" and life: "intent_life b x"
    using step_of_life [OF assms(1,2)] assms(3) by (simp_all add: pass_writes_def)
  have mono: "\<not> newer (lastTrigger x) (lastTrigger y) \<and> input_revision x \<le> input_revision y"
    using move_monotone [OF step life_ok [OF life]] .
  have "x = i \<or> \<not> newer (lastTrigger i) (lastTrigger x) \<and> input_revision i \<le> input_revision x"
    using chain_monotone [OF reconcile_good [OF assms(2)] life_ok [OF assms(1)]] next_cases [OF assms(3)] by (auto simp: pass_writes_def)
  then have over: "\<not> newer (lastTrigger i) (lastTrigger y) \<and> input_revision i \<le> input_revision y"
    using mono newer_co_trans by fastforce
  have "is_Input y \<noteq> is_Input x \<longrightarrow> (\<exists>inp trig. is_Input y = Some inp \<and> new_input x trig inp \<and> may_plan b e x trig \<and>
      lastTrigger y = (case trig of Some r \<Rightarrow> r | None \<Rightarrow> lastTrigger x) \<and> is_Phase y = IntentPlanning \<and> is_Plan y = None \<and> is_Approval y = None)"
    using step
  proof (induction rule: intent_move.induct)
    case (plan x trig inp d)
    have "lastTrigger (observed d) = (case trig of Some r \<Rightarrow> r | None \<Rightarrow> lastTrigger x)"
      using moves_trigger_planning [OF plan(3)] by (simp add: moves_trigger_def)
    then show ?case using plan(1,2) phase_keeps [OF plan(3)] by (auto simp: planning_status_def)
  next
    case (enter x c to d)
    then show ?case using phase_keeps [OF enter(3)] by (simp add: same_core_def)
  next
    case (unblock x c d)
    then show ?case using phase_keeps [OF unblock(3)] by (simp add: same_core_def)
  next
    case (post x inp pl c d)
    then show ?case using phase_keeps [OF post(5)] by (simp add: posted_status_def)
  next
    case (approve x pl inp a posted d)
    then show ?case using phase_keeps [OF approve(5)] by (simp add: approved_status_def setCondition_def)
  qed (simp_all add: same_core_def observed_def approved_status_def setCondition_def)
  moreover have "next_revision x = input_revision x + 1" using next_revision_of life_ok [OF life] by (simp add: intent_ok_def)
  ultimately show ?thesis
    using mono over
    by (fastforce simp: new_input_def may_plan_def requester_def MaxIntentRound_def ha_record_def split: option.splits)
qed

lemma plans_follow_triggers_witness:
  "\<exists>tr who. ii_Trigger (the (is_Input demo_planning)) = Some tr \<and>
     authorised demo_intent_ops (demo_env (2 * nano_second) [] []) (in_Repository demo_pending) who"
proof -
  have "next_to demo_pending demo_planning (demo_pending # pp_writes (snd (intent_reconcile demo_intent_ops (demo_env (2 * nano_second) [] []) True demo_memo demo_pending)))"
    unfolding demo_2 [unfolded demo_writes_def] by (auto simp: next_to_def intro: exI [of _ "[]"])
  moreover have "is_Input demo_planning \<noteq> is_Input demo_pending" by (simp add: demo_planning_def demo_pending_def demo_intent_def)
  ultimately show ?thesis using plans_follow_triggers [OF demo_alive(1) demo_rests] by (metis option.sel)
qed

end
