(* ===== verification/IntentCalls.thy ===== *)
theory IntentCalls
  imports IntentWhole
begin

text \<open>
  What a pass does outside the Intent: the calls it attempts, each made while one of the statuses of the
  pass held. A calculus like the one for writes, for a condition on a call and the status it is made under.
\<close>

named_theorems fine "acts whose calls are as required"

subsection \<open>The calculus\<close>

definition as_required :: "(intent \<Rightarrow> call \<Rightarrow> bool) \<Rightarrow> pass \<Rightarrow> pass \<Rightarrow> bool" where
  "as_required C p q \<longleftrightarrow>
     (\<exists>cs ws. pp_calls q = pp_calls p @ cs \<and> pp_writes q = pp_writes p @ ws \<and> pp_in q = last (pp_in p # ws) \<and>
        (\<forall>c\<in>set cs. \<exists>i\<in>set (pp_in p # ws). C i c))"

definition calling :: "(intent \<Rightarrow> call \<Rightarrow> bool) \<Rightarrow> 'a act \<Rightarrow> bool" where
  "calling C m \<longleftrightarrow> (\<forall>p. as_required C p (snd (m p)))"

lemma as_required_refl [simp]: "as_required C p p"
  unfolding as_required_def by (intro exI [of _ "[]"]) simp

lemma as_required_quiet:
  "pp_calls q = pp_calls p \<Longrightarrow> pp_writes q = pp_writes p \<Longrightarrow> pp_in q = pp_in p \<Longrightarrow> as_required C p q"
  unfolding as_required_def by (intro exI [of _ "[]"]) simp

lemma as_required_trans:
  assumes "as_required C p q" "as_required C q r"
  shows "as_required C p r"
proof -
  obtain cs ws where p: "pp_calls q = pp_calls p @ cs" "pp_writes q = pp_writes p @ ws" "pp_in q = last (pp_in p # ws)"
    "\<forall>c\<in>set cs. \<exists>i\<in>set (pp_in p # ws). C i c" using assms(1) unfolding as_required_def by blast
  obtain ds us where q: "pp_calls r = pp_calls q @ ds" "pp_writes r = pp_writes q @ us" "pp_in r = last (pp_in q # us)"
    "\<forall>c\<in>set ds. \<exists>i\<in>set (pp_in q # us). C i c" using assms(2) unfolding as_required_def by blast
  have "pp_in q \<in> set (pp_in p # ws)" using p(3) last_in_set [of "pp_in p # ws"] by simp
  then have "\<forall>c\<in>set (cs @ ds). \<exists>i\<in>set (pp_in p # ws @ us). C i c" using p(4) q(4) by fastforce
  moreover have "pp_in r = last (pp_in p # ws @ us)" using p(3) q(3) by (cases us) auto
  ultimately show ?thesis unfolding as_required_def using p(1,2) q(1,2) by (intro exI [of _ "cs @ ds"] exI [of _ "ws @ us"]) simp
qed

lemma calling_ret [fine]: "calling C (ret v)" by (simp add: calling_def ret_def)
lemma calling_raise [fine]: "calling C (raise f)" by (simp add: calling_def raise_def)

lemma calling_bnd [fine]:
  assumes "calling C m" "\<And>v. calling C (k v)"
  shows "calling C (bnd m k)"
  unfolding calling_def
proof
  fix p
  obtain y q where y: "m p = (y, q)" by force
  then have pq: "as_required C p q" using assms(1) unfolding calling_def by (metis snd_conv)
  show "as_required C p (snd (bnd m k p))"
  proof (cases y)
    case (Ok v)
    have "as_required C q (snd (k v q))" using assms(2) unfolding calling_def by blast
    then show ?thesis using as_required_trans [OF pq] y Ok by (simp add: bnd_def)
  qed (use pq y in \<open>simp add: bnd_def\<close>)
qed

lemma calling_with_in [fine]: "(\<And>i. calling C (k i)) \<Longrightarrow> calling C (with_in k)" by (simp add: calling_def with_in_def)
lemma calling_with_pass [fine]: "(\<And>p. calling C (k p)) \<Longrightarrow> calling C (with_pass k)" by (simp add: calling_def with_pass_def)

lemma calling_touch:
  "(\<And>p. pp_in (f p) = pp_in p \<and> pp_writes (f p) = pp_writes p \<and> pp_calls (f p) = pp_calls p) \<Longrightarrow> calling C (touch f)"
  by (simp add: calling_def touch_def as_required_quiet)

lemma calling_memo [fine]: "calling C (memo f)" unfolding memo_def by (rule calling_touch) simp

lemma calling_catch [fine]: "calling C m \<Longrightarrow> calling C (catch m)"
  by (auto simp: calling_def catch_def split: prod.splits outcome.splits) (metis snd_conv)+

lemma calling_attempt: "(\<And>i. C i c) \<Longrightarrow> calling C (attempt e c)"
  unfolding calling_def attempt_def as_required_def by (intro allI exI [of _ "[c]"] exI [of _ "[]"]) simp

lemma calling_update [fine]: "calling C (update e f)"
  unfolding calling_def
proof
  fix p
  show "as_required C p (snd (update e f p))"
  proof (cases "\<exists>c. f (pp_in p) = Some c \<and> ie_write e (length (pp_writes p)) = Written")
    case True
    then obtain c where "f (pp_in p) = Some c" "ie_write e (length (pp_writes p)) = Written" by blast
    then show ?thesis unfolding as_required_def update_def
      by (intro exI [of _ "[]"] exI [of _ "[c\<lparr>is_ObservedGeneration := in_Generation c\<rparr>]"]) (simp add: Let_def)
  next
    case False
    then have "snd (update e f p) = p" by (auto simp: update_def Let_def split: option.splits write_answer.splits)
    then show ?thesis by simp
  qed
qed

lemma calling_setPhase [fine]: "calling C (setPhase e to f)" unfolding setPhase_def by (rule calling_update)

lemma calling_if [fine]: "calling C m \<Longrightarrow> calling C n \<Longrightarrow> calling C (if c then m else n)" by simp
lemma calling_Let [fine]: "calling C (f x) \<Longrightarrow> calling C (Let x f)" by (simp add: Let_def)
lemma calling_option [fine]: "calling C m \<Longrightarrow> (\<And>v. calling C (k v)) \<Longrightarrow> calling C (case x of None \<Rightarrow> m | Some v \<Rightarrow> k v)"
  by (cases x) auto
lemma calling_prod [fine]: "(\<And>v w. calling C (k v w)) \<Longrightarrow> calling C (case x of (v, w) \<Rightarrow> k v w)" by (cases x) auto
lemma calling_sum [fine]: "(\<And>f. calling C (m f)) \<Longrightarrow> (\<And>v. calling C (k v)) \<Longrightarrow> calling C (case x of Inl f \<Rightarrow> m f | Inr v \<Rightarrow> k v)"
  by (cases x) auto
lemma calling_list [fine]: "calling C m \<Longrightarrow> (\<And>v vs. calling C (k v vs)) \<Longrightarrow> calling C (case x of [] \<Rightarrow> m | v # vs \<Rightarrow> k v vs)"
  by (cases x) auto
lemma calling_bool [fine]: "calling C m \<Longrightarrow> calling C n \<Longrightarrow> calling C (case x of True \<Rightarrow> m | False \<Rightarrow> n)"
  by (cases x) auto
lemma calling_reply [fine]:
  "(\<And>v. calling C (k v)) \<Longrightarrow> calling C m1 \<Longrightarrow> calling C m2 \<Longrightarrow> calling C m3 \<Longrightarrow> calling C m4 \<Longrightarrow> calling C m5 \<Longrightarrow>
   calling C (case x of Got v \<Rightarrow> k v | Missing \<Rightarrow> m1 | Denied \<Rightarrow> m2 | Refusal \<Rightarrow> m3 | Unresolved \<Rightarrow> m4 | Broken \<Rightarrow> m5)"
  by (cases x) auto
lemma calling_read [fine]:
  "(\<And>v. calling C (k v)) \<Longrightarrow> calling C m1 \<Longrightarrow> calling C m2 \<Longrightarrow> calling C (case x of Read v \<Rightarrow> k v | ReadRefused \<Rightarrow> m1 | ReadFails \<Rightarrow> m2)"
  by (cases x) auto
lemma calling_edit [fine]:
  "(\<And>v. calling C (k v)) \<Longrightarrow> calling C m1 \<Longrightarrow> calling C m2 \<Longrightarrow>
   calling C (case x of Edited v \<Rightarrow> k v | NodeNotFound \<Rightarrow> m1 | EditUnknown \<Rightarrow> m2)"
  by (cases x) auto
lemma calling_permission [fine]:
  "calling C m1 \<Longrightarrow> calling C m2 \<Longrightarrow> calling C m3 \<Longrightarrow> (\<And>v. calling C (k v)) \<Longrightarrow>
   calling C (case x of NoSuchUser \<Rightarrow> m1 | PermissionForbidden \<Rightarrow> m2 | PermissionError \<Rightarrow> m3 | Permission v \<Rightarrow> k v)"
  by (cases x) auto
lemma calling_render [fine]:
  "calling C m \<Longrightarrow> calling C n \<Longrightarrow> calling C l \<Longrightarrow> calling C (case x of PlanShown \<Rightarrow> m | PlanUnshowable w \<Rightarrow> n | PlanRenderError w \<Rightarrow> l)"
  by (cases x) auto
lemma calling_verdict [fine]:
  "calling C m \<Longrightarrow> (\<And>br. calling C (k br)) \<Longrightarrow> calling C (case v of RoundFails \<Rightarrow> m | RoundGoes br \<Rightarrow> k br)"
  by (cases v) auto
lemma calling_each [fine]: "(\<And>x. calling C (f x)) \<Longrightarrow> calling C (each f xs)"
  by (induction xs) (auto intro!: fine)

subsection \<open>Building under an approval\<close>

text \<open>
  What is required of a call: a run is the Intent's own, a build run carries the approval the Intent holds,
  and a pull request is opened only for an approved Intent, from the Intent's own branch.
\<close>

definition approved_call :: "intent \<Rightarrow> call \<Rightarrow> bool" where
  "approved_call i c \<longleftrightarrow>
     (case c of
        CreateRun r \<Rightarrow> ir_IntentUID r = in_UID i \<and> (ir_Stage r = StageBuild \<longrightarrow> (\<exists>ap. is_Approval i = Some ap \<and>
          ir_PlanRevision r = iap_PlanRevision ap \<and> ir_PlanDigest r = iap_PlanDigest ap \<and> ir_InputDigest r = iap_InputDigest ap))
      | CreatePullRequest url head base \<Rightarrow> is_Approval i \<noteq> None \<and> head = branchName (in_Name i)
      | _ \<Rightarrow> True)"

lemma calling_plain [fine]:
  "calling approved_call (attempt e (RemoveLabel l))" "calling approved_call (attempt e (CloseIssue d))"
  "calling approved_call (attempt e (React n))" "calling approved_call (attempt e (PostComment s))"
  "calling approved_call (attempt e (CreateConfigMap cm))" "calling approved_call (attempt e (EnsureRepository x y z))"
  by (rule calling_attempt, simp add: approved_call_def)+

lemma calling_must [fine]: "calling approved_call (attempt e c) \<Longrightarrow> calling approved_call (must e c)"
  unfolding must_def by (intro fine)

text \<open>An act whose calls are made under the status it starts from.\<close>

definition calling_at :: "(intent \<Rightarrow> call \<Rightarrow> bool) \<Rightarrow> intent \<Rightarrow> 'a act \<Rightarrow> bool" where
  "calling_at C i m \<longleftrightarrow> (\<forall>p. pp_in p = i \<longrightarrow> as_required C p (snd (m p)))"

lemma calling_here: "calling C m \<Longrightarrow> calling_at C i m" by (simp add: calling_def calling_at_def)

lemma calling_from: "(\<And>i. calling_at C i (k i)) \<Longrightarrow> calling C (with_in k)" by (simp add: calling_def calling_at_def with_in_def)

lemma calling_at_attempt: "C i c \<Longrightarrow> calling_at C i (attempt e c)"
  unfolding calling_at_def attempt_def as_required_def by (intro allI impI exI [of _ "[c]"] exI [of _ "[]"]) simp

lemma calling_at_bnd:
  assumes "calling_at C i m" "\<And>v. calling C (k v)"
  shows "calling_at C i (bnd m k)"
  unfolding calling_at_def
proof (intro allI impI)
  fix p :: pass assume p: "pp_in p = i"
  obtain y q where y: "m p = (y, q)" by force
  then have pq: "as_required C p q" using assms(1) p unfolding calling_at_def by (metis snd_conv)
  show "as_required C p (snd (bnd m k p))"
  proof (cases y)
    case (Ok v)
    have "as_required C q (snd (k v q))" using assms(2) unfolding calling_def by blast
    then show ?thesis using as_required_trans [OF pq] y Ok by (simp add: bnd_def)
  qed (use pq y in \<open>simp add: bnd_def\<close>)
qed

lemma bnd_ret: "bnd (ret v) k = k v" by (simp add: bnd_def ret_def fun_eq_iff)
lemma bnd_raise: "bnd (raise f) k = raise f" by (simp add: bnd_def raise_def fun_eq_iff)

lemmas bnd_pure = bnd_ret bnd_raise deref_def

lemma calling_got [fine]: "calling approved_call (got r)" by (cases r) (auto simp: got_def intro!: fine)
lemma calling_deref [fine]: "calling approved_call (deref r)" by (cases r) (auto simp: deref_def intro!: fine)
lemma calling_parsed [fine]: "calling approved_call (parsed r)" by (cases r) (auto simp: parsed_def intro!: fine)

lemma calling_readBot [fine]: "calling approved_call (readBot e)"
  unfolding readBot_def by (intro fine calling_touch) simp
lemma calling_authorizeIn [fine]: "calling approved_call (authorizeIn b e url a)"
  unfolding authorizeIn_def by (intro fine)
lemma calling_authorize [fine]: "calling approved_call (authorize b e a)" unfolding authorize_def by (intro fine)
lemma calling_everEdited [fine]: "calling approved_call (everEdited e c)" unfolding everEdited_def by (intro fine)
lemma calling_listComments [fine]: "calling approved_call (listComments b e since)"
  unfolding listComments_def by (intro fine calling_touch) simp
lemma calling_findOwn [fine]: "calling approved_call (findOwn b e marker since)" unfolding findOwn_def by (intro fine)
lemma calling_postComment [fine]: "calling approved_call (postComment e marker)" unfolding postComment_def by (intro fine)
lemma calling_postOnce [fine]: "calling approved_call (postOnce b e marker since)"
  unfolding postOnce_def by (intro fine calling_touch) simp
lemma calling_notice [fine]: "calling approved_call (notice b e key since)" unfolding notice_def by (intro fine)
lemma calling_rateOK [fine]: "calling approved_call (rateOK b e url)"
  unfolding rateOK_def Let_def by (intro fine calling_touch) simp_all

lemma calling_createRun [fine]: "calling approved_call (createRun b e stage repo rnd n prev)"
  unfolding createRun_def
proof (rule calling_from)
  fix i :: intent
  define rest where "rest ap r = (\<lambda>a. if a = Accepted then bnd (touch (\<lambda>p. p\<lparr>pp_runs := pp_runs p @ [r]\<rparr>)) (\<lambda>_. ret r)
         else if a \<noteq> AlreadyExists then raise ErrOther
         else bnd (got (ie_existing_run e (ir_Name r))) (\<lambda>old.
           if ir_IntentUID old \<noteq> in_UID i then raise ErrNotOwned
           else if \<not> same_lease b r old then raise ErrRunNameTaken
           else ret old))" for ap :: "intent_approval option" and r
  have rest: "calling approved_call (rest ap r a)" for ap r a
    unfolding rest_def by (intro fine calling_touch) simp
  have go: "calling_at approved_call i (bnd (attempt e (CreateRun r)) (rest ap r))" if "approved_call i (CreateRun r)" for ap r
    by (rule calling_at_bnd [OF calling_at_attempt [where C = approved_call, OF that]]) (rule rest)
  have run: "approved_call i (CreateRun (new_run b e i inp ap stage repo rnd n prev))"
    if "stage = StageBuild \<Longrightarrow> ap = is_Approval i \<and> ap \<noteq> None" for inp ap
    using that by (auto simp: approved_call_def new_run_def Let_def)
  show "calling_at approved_call i (bnd (deref (is_Input i)) (\<lambda>inp.
     bnd (if stage = StageBuild then bnd (deref (is_Approval i)) (\<lambda>a. ret (Some a)) else ret None) (\<lambda>ap.
       let r = new_run b e i inp ap stage repo rnd n prev in
       bnd (attempt e (CreateRun r)) (\<lambda>a.
         if a = Accepted then bnd (touch (\<lambda>p. p\<lparr>pp_runs := pp_runs p @ [r]\<rparr>)) (\<lambda>_. ret r)
         else if a \<noteq> AlreadyExists then raise ErrOther
         else bnd (got (ie_existing_run e (ir_Name r))) (\<lambda>old.
           if ir_IntentUID old \<noteq> in_UID i then raise ErrNotOwned
           else if \<not> same_lease b r old then raise ErrRunNameTaken
           else ret old)))))"
    using go [OF run, unfolded rest_def]
    by (cases "is_Input i"; cases "is_Approval i"; cases stage)
      (simp_all add: bnd_pure Let_def calling_here calling_raise cong: if_cong)
qed


lemma calling_ensureConfigMap [fine]: "calling approved_call (ensureConfigMap e cm owner)"
  unfolding ensureConfigMap_def by (intro fine)
lemma calling_planBytes [fine]: "calling approved_call (planBytes b e pl)" unfolding planBytes_def by (intro fine)
lemma calling_runInput [fine]: "calling approved_call (runInput b e r)" unfolding runInput_def by (intro fine)
lemma calling_ensureRunRepository [fine]: "calling approved_call (ensureRunRepository e r name url)"
  unfolding ensureRunRepository_def by (intro fine)

lemma calling_planning_repository [fine]: "calling approved_call (planning_repository e)"
  unfolding planning_repository_def by (intro fine)
lemma calling_branchConflict [fine]: "calling approved_call (branchConflict b e url rnd)"
  unfolding branchConflict_def Let_def by (intro fine)
lemma calling_create_builds [fine]: "calling approved_call (create_builds b e rnd ls)"
  by (induction ls) (auto intro!: fine)
lemma calling_checkCredential [fine]: "calling approved_call (checkCredential b e a)"
  unfolding checkCredential_def by (intro fine)
lemma calling_unedited [fine]: "calling approved_call (unedited e cs)"
  by (induction cs) (auto intro!: fine)
lemma calling_feedbackSince [fine]: "calling approved_call (feedbackSince b e since)"
  unfolding feedbackSince_def by (intro fine)
lemma calling_ensureInputConfigMap [fine]: "calling approved_call (ensureInputConfigMap b e n s c)"
  unfolding ensureInputConfigMap_def by (intro fine)
lemma calling_inputSnapshot [fine]: "calling approved_call (inputSnapshot e inp)" unfolding inputSnapshot_def by (intro fine)
lemma calling_replan_comments [fine]: "calling approved_call (replan_comments b e i)" unfolding replan_comments_def by (intro fine)
lemma calling_estimateNotice [fine]: "calling approved_call (estimateNotice b e rnd raw since)"
  unfolding estimateNotice_def by (intro fine)
lemma calling_plan_changed [fine]: "calling approved_call (plan_changed e found)" unfolding plan_changed_def by (intro fine)
lemma calling_ownPullRequest [fine]: "calling approved_call (ownPullRequest b e url pr base)" unfolding ownPullRequest_def by (intro fine)
lemma calling_findPullRequest [fine]: "calling approved_call (findPullRequest b e i url)" unfolding findPullRequest_def by (intro fine)
lemma calling_rate_reply [fine]: "calling approved_call (rate_reply b e url)" unfolding rate_reply_def by (intro fine)
lemma calling_readDeparted [fine]: "calling approved_call (readDepartedPullRequest b e rec)"
  unfolding readDepartedPullRequest_def depart_def Let_def by (intro fine)
lemma calling_read_prs [fine]: "calling approved_call (read_prs b e prs c)"
  by (induction prs arbitrary: c) (auto intro!: fine)
lemma calling_readReviewPRStates [fine]: "calling approved_call (readReviewPRStates b e prs)"
  unfolding readReviewPRStates_def by (intro fine calling_touch) simp
lemma calling_partialNotice [fine]: "calling approved_call (partialNotice b e t)" unfolding partialNotice_def by (intro fine)
lemma calling_polled_prs [fine]: "calling approved_call (polled_prs e)" unfolding polled_prs_def by (intro fine)
lemma calling_rate_each [fine]: "calling approved_call (rate_each b e prs)" by (induction prs) (auto intro!: fine)
lemma calling_rateOKForPullRequests [fine]: "calling approved_call (rateOKForPullRequests b e)"
  unfolding rateOKForPullRequests_def by (intro fine)
lemma calling_noteRefused [fine]: "calling approved_call (noteRefused a)" unfolding noteRefused_def by (intro calling_touch) simp
lemma calling_stillToAnswer [fine]: "calling approved_call (stillToAnswer b e a)"
  unfolding stillToAnswer_def by (intro fine calling_touch) simp
lemma calling_commands_of [fine]: "calling approved_call (commands_of b e cs)"
  by (induction cs) (auto intro!: fine)
lemma calling_commands [fine]: "calling approved_call (commands b e)" unfolding commands_def by (intro fine)
lemma calling_removeApproveLabel [fine]: "calling approved_call (removeApproveLabel e)" unfolding removeApproveLabel_def by (intro fine)
lemma calling_approveLabelAction [fine]: "calling approved_call (approveLabelAction b e issue events)"
  unfolding approveLabelAction_def Let_def by (intro fine)
lemma calling_gather [fine]: "calling approved_call (gather b e issue events)"
  unfolding gather_def Let_def by (intro fine)
lemma calling_answer_notice [fine]: "calling approved_call (answer_notice b e a)" unfolding answer_notice_def by (intro fine)
lemma calling_replyDone [fine]: "calling approved_call (replyDone b e a)" unfolding replyDone_def by (intro fine)
lemma calling_approvalChanged [fine]: "calling approved_call (approvalChanged b e pl inp issue)"
  unfolding approvalChanged_def by (intro fine)
lemma calling_react [fine]: "calling approved_call (react e n)" unfolding react_def by (intro fine)
lemma calling_branchRestoreHolds [fine]: "calling approved_call (branchRestoreHolds e i r)" unfolding branchRestoreHolds_def by (intro fine)
lemma calling_foreign_holds [fine]: "calling approved_call (foreign_holds b e i url)" unfolding foreign_holds_def by (intro fine)
lemma calling_branchHoldCheck: "branchHoldCheck b e p reason rnd repo = Some m \<Longrightarrow> calling approved_call m"
  by (auto simp: branchHoldCheck_def Let_def split: if_splits option.splits intro!: fine)
lemma calling_branches_hold [fine]: "calling approved_call (branches_hold b e reason rnd repos)"
proof (induction repos)
  case (Cons repo repos)
  have "calling approved_call (case branchHoldCheck b e p reason rnd repo of None \<Rightarrow> branches_hold b e reason rnd repos
      | Some check \<Rightarrow> bnd (rateOK b e (pjr_URL repo)) (\<lambda>ok. if \<not> ok then ret True
          else bnd check (\<lambda>holds. if holds then ret True else branches_hold b e reason rnd repos)))" for p
    by (cases "branchHoldCheck b e p reason rnd repo") (auto intro!: fine Cons.IH dest: calling_branchHoldCheck)
  then show ?case by (simp add: calling_with_pass)
qed (simp add: fine)
lemma calling_pinUnmoved [fine]: "calling approved_call (pinUnmoved b e r)" unfolding pinUnmoved_def by (intro fine)
lemma calling_heads_unmoved [fine]: "calling approved_call (heads_unmoved b e rnd repos)" by (induction repos) (auto intro!: fine)
lemma calling_headUnmoved [fine]: "calling approved_call (headUnmoved b e)" unfolding headUnmoved_def by (intro fine)
lemma calling_imageBlockHolds [fine]: "calling approved_call (imageBlockHolds b e)" unfolding imageBlockHolds_def by (intro fine)
lemma calling_resumePlan [fine]: "calling approved_call (resumePlan b e inp)" unfolding resumePlan_def Let_def by (intro fine)
lemma calling_resume_each [fine]: "calling approved_call (resume_each b e rnd repos x y)"
  by (induction repos arbitrary: x y) (auto simp: Let_def intro!: fine)
lemma calling_resumeBuilds [fine]: "calling approved_call (resumeBuilds b e ap)" unfolding resumeBuilds_def by (intro fine)
lemma calling_loadRuns [fine]: "calling approved_call (loadRuns e)" unfolding loadRuns_def by (intro fine calling_touch) simp


subsection \<open>The handlers that write\<close>

definition rests_call :: "intent_env \<Rightarrow> bool" where
  "rests_call e \<longleftrightarrow> (\<forall>r. calling approved_call (ie_revise_children e r)) \<and> calling approved_call (ie_round_records e) \<and>
     (\<forall>prs. calling approved_call (ie_start_round e prs)) \<and> calling approved_call (ie_revising e) \<and>
     calling approved_call (ie_previews e) \<and> calling approved_call (ie_ended_notices e) \<and> calling approved_call (ie_untracked e) \<and>
     calling approved_call (ie_status_comment e) \<and> (\<forall>reason. calling approved_call (ie_revise_branch_holds e reason))"

lemma calling_writes [fine]:
  "calling approved_call (block b e typ reason)" "calling approved_call (blockKeyChanged b e)"
  "calling approved_call (blockUnschedulable b e r)" "calling approved_call (blockOnClass b e runs)"
  "calling approved_call (fail e)" "calling approved_call (intentHoldForCredential b e a reapprove)"
  "calling approved_call (blockBuild b e r)" "calling approved_call (block_pr b e reason)"
  "calling approved_call (holdMultiRepo b e)"
  unfolding block_pr_def blockBuild_def blockKeyChanged_def blockUnschedulable_def blockOnClass_def block_def fail_def
    intentHoldForCredential_def holdMultiRepo_def Let_def
  by (intro fine)+


lemma calling_block_on_any [fine]: "calling approved_call (block_on_any b e rnd ls)"
  by (induction ls) (auto simp: blockOnBranch_def intro!: fine)

lemma calling_mayLaunch [fine]: "calling approved_call (mayLaunch b e)" unfolding mayLaunch_def by (intro fine)

lemma calling_launchBuilds [fine]: "calling approved_call (launchBuilds b e rnd ls)"
  unfolding launchBuilds_def by (intro fine)

lemma calling_upkeep [fine]:
  "calling approved_call (record_pr b e repos rec)" "calling approved_call (credentialBlockHolds b e)"
  "calling approved_call (recordSeen e n t)" "calling approved_call (resume b e ph active)"
  "calling approved_call (syncUsage e)" "calling approved_call (record_plan b e r)"
  unfolding record_pr_def credentialBlockHolds_def recordSeen_def resume_def syncUsage_def record_plan_def Let_def
  by (intro fine)+

lemma calling_create_pr [fine]: "calling approved_call (create_pr b e r base repos)"
  unfolding create_pr_def
proof (rule calling_from)
  fix i :: intent
  define rest where "rest = (\<lambda>a. if a = Accepted then record_pr b e repos (new_record (ir_URL r) r (pq_created (ie_pr e) (ir_URL r)))
         else if a = Fails then raise ErrOther
         else block_pr b e ''PullRequestRefused'')"
  have rest: "calling approved_call (rest a)" for a unfolding rest_def by (intro fine)
  have go: "calling_at approved_call i (bnd (attempt e (CreatePullRequest (ir_URL r) (branchName (in_Name i)) base)) rest)"
    if "is_Approval i \<noteq> None"
    by (rule calling_at_bnd [OF calling_at_attempt [where C = approved_call] rest]) (use that in \<open>simp add: approved_call_def\<close>)
  show "calling_at approved_call i (bnd (deref (is_Approval i)) (\<lambda>ap. bnd (deref (is_Plan i)) (\<lambda>pl.
       if \<not> pq_requirements (ie_pr e) (ir_URL r) then raise ErrOther
       else bnd (attempt e (CreatePullRequest (ir_URL r) (branchName (in_Name i)) base)) (\<lambda>a.
         if a = Accepted then record_pr b e repos (new_record (ir_URL r) r (pq_created (ie_pr e) (ir_URL r)))
         else if a = Fails then raise ErrOther
         else block_pr b e ''PullRequestRefused''))))"
    using go [unfolded rest_def]
    by (cases "is_Approval i"; cases "is_Plan i") (auto simp: bnd_pure intro!: calling_here fine)
qed

lemma calling_opening [fine]:
  "calling approved_call (openPullRequest b e r repos)" "calling approved_call (openPullRequests b e rnd repos)"
proof -
  show one: "calling approved_call (openPullRequest b e r repos)" for r
    unfolding openPullRequest_def by (intro fine)
  show "calling approved_call (openPullRequests b e rnd repos)"
    unfolding openPullRequests_def by (intro fine one)
qed

lemma calling_planning_parts [fine]:
  "calling approved_call (startPlanning b e issue trig)" "calling approved_call (pending b e)"
  unfolding pending_def startPlanning_def Let_def by (intro fine)+

lemma calling_post_plan [fine]: "calling approved_call (post_plan b e marker pl rnd)"
  unfolding post_plan_def Let_def by (intro fine)

lemma calling_writeBack [fine]: "calling approved_call (writeBack b e r)" unfolding writeBack_def by (intro fine)

lemma calling_settling [fine]:
  "calling approved_call (settleCancel b e a)" "calling approved_call (consume_trigger e t)"
  "calling approved_call (settleReplan b e a issue)" "calling approved_call (refuseApproval b e a issue)"
  "calling approved_call (settlePlanApproval b e a issue)"
  unfolding settlePlanApproval_def refuseApproval_def settleReplan_def settleCancel_def consume_trigger_def
  by (intro fine)+

lemma calling_settleCredentialReapproval [fine]: "calling approved_call (settleCredentialReapproval b e a issue)"
  unfolding settleCredentialReapproval_def Let_def by (intro fine)

lemma calling_settle_action [fine]:
  "calling approved_call (intent_decide b e a issue)" "calling approved_call (settle_action b e a issue)"
  unfolding settle_action_def intent_decide_def settleApprove_def Let_def by (intro fine)+

lemma calling_answer_each [fine]: "calling approved_call (answer_each b e issue as)"
  by (induction as) (auto intro!: fine)

lemma calling_ending [fine]: "calling approved_call (merged b e prs t)" "calling approved_call (endReview b e c)"
  unfolding endReview_def merged_def Let_def by (intro fine)+

subsection \<open>The whole pass\<close>

lemma calling_rest:
  assumes "rests_call e"
  shows "calling approved_call (ie_revise_children e r)" "calling approved_call (ie_round_records e)"
    "calling approved_call (ie_start_round e prs)" "calling approved_call (ie_revising e)" "calling approved_call (ie_previews e)"
    "calling approved_call (ie_ended_notices e)" "calling approved_call (ie_untracked e)" "calling approved_call (ie_status_comment e)"
    "calling approved_call (ie_revise_branch_holds e reason)"
  using assms unfolding rests_call_def by blast+

lemma calling_active:
  assumes "rests_call e"
  shows "calling approved_call (ensureRunChildren b e r)" "calling approved_call (ensureActive b e r)" "calling approved_call (ensureBuilds b e runs)"
proof -
  show c: "calling approved_call (ensureRunChildren b e r)" for r
    unfolding ensureRunChildren_def by (intro fine calling_rest [OF assms])
  show "calling approved_call (ensureActive b e r)"
    unfolding ensureActive_def by (intro fine c)
  show "calling approved_call (ensureBuilds b e runs)"
    unfolding ensureBuilds_def by (intro fine c)
qed

lemma calling_blockHolds:
  assumes "rests_call e"
  shows "calling approved_call (blockHolds b e)"
  unfolding blockHolds_def branchBlockHolds_def Let_def by (intro fine calling_rest [OF assms])

lemma calling_owed:
  assumes "rests_call e" "calling approved_call m" "calling approved_call n"
  shows "calling approved_call (owed e m n)"
  unfolding owed_def by (intro fine assms(2,3) calling_rest [OF assms(1)])

lemma calling_rounds:
  assumes "rests_call e"
  shows "calling approved_call (planning b e)" "calling approved_call (building b e)" "calling approved_call (reviewNow b e)"
    "calling approved_call (review b e)" "calling approved_call (issueClosed b e)" "calling approved_call (poll b e)"
    "calling approved_call (handOff b e)" "calling approved_call (blocked b e)"
proof -
  note go = calling_active [OF assms] calling_rest [OF assms]
  show "calling approved_call (planning b e)"
    unfolding planning_def retry_plan_def launchPlan_def Let_def by (intro fine go)
  show "calling approved_call (building b e)"
    unfolding building_def by (intro fine go)
  show now: "calling approved_call (reviewNow b e)"
    unfolding reviewNow_def by (intro fine go)
  show "calling approved_call (review b e)"
    unfolding review_def by (intro fine now)
  show closed: "calling approved_call (issueClosed b e)"
    unfolding issueClosed_def Let_def by (intro fine now)
  show "calling approved_call (poll b e)"
    unfolding poll_def by (intro fine closed calling_touch) simp_all
  show "calling approved_call (handOff b e)"
    unfolding handOff_def Let_def by (intro fine)
  show "calling approved_call (blocked b e)"
    unfolding blocked_def Let_def
    by (intro fine calling_blockHolds [OF assms]) (auto split: intent_phase.split option.split intro!: fine)
qed

lemma calling_run_pass:
  assumes "rests_call e"
  shows "calling approved_call (run_pass b e)"
proof -
  note go = calling_rounds [OF assms] calling_rest [OF assms]
  have step: "calling approved_call (step_pass b e)"
    unfolding step_pass_def phase_step_def
    by (rule calling_with_in) (auto split: intent_phase.split intro!: fine go)
  have ended: "calling approved_call (ended b e)"
    unfolding ended_def nudgedHandOff_def
    by (rule calling_with_in) (simp, intro conjI impI calling_owed [OF assms] fine go)
  show ?thesis
    unfolding run_pass_def by (intro fine go step ended)
qed

end
