(* ===== verification/IntentDeeds.thy ===== *)
theory IntentDeeds
  imports IntentProps IntentCalls
begin

text \<open>
  What a pass does outside the Intent, as a property: no build run and no pull request without an approval
  of the plan they are made from.
\<close>

lemma rests_call_defaults: "rests_call e \<Longrightarrow> rests_call (defaults e)"
  by (simp add: rests_call_def defaults_def)

lemma reconcile_calls:
  assumes "rests_call e" "c \<in> set (pp_calls (snd (intent_reconcile b e has_project m i)))"
  shows "\<exists>x\<in>set (i # pass_writes b e has_project m i). approved_call x c"
proof -
  let ?r = "run_pass b (defaults e) (new_pass i m)"
  have calls: "as_required approved_call (new_pass i m) (snd ?r)"
    using calling_run_pass [OF rests_call_defaults [OF assms(1)]] unfolding calling_def by blast
  have same: "pp_calls (snd (intent_reconcile b e has_project m i)) = pp_calls (snd ?r) \<and> pass_writes b e has_project m i = pp_writes (snd ?r)"
    if "\<not> in_Deleting i" "\<not> in_Suspend i" has_project
    using that unfolding pass_writes_def intent_reconcile_def defaults_def Let_def
    by (cases "run_pass b (e\<lparr>ie_set := withDefaults (ie_set e)\<rparr>) (new_pass i m)" rule: prod.exhaust)
      (auto split: outcome.splits fault.splits)
  have live: "\<not> in_Deleting i" "\<not> in_Suspend i" has_project
    using assms(2) by (auto simp: intent_reconcile_def new_pass_def Let_def split: if_splits)
  show ?thesis
    using calls assms(2) unfolding same [OF live, THEN conjunct1] same [OF live, THEN conjunct2]
    by (auto simp: as_required_def new_pass_def)
qed

lemma ok_bound: "intent_ok x \<Longrightarrow> is_Approval x \<noteq> None \<Longrightarrow> bound_approval x"
  by (auto simp: intent_ok_def intro: stage_bound)

text \<open>
  C6. No work without an approval: a pass asks for a build run only under a status that holds an approval of
  the plan it holds, posted before the approval, and the run names that plan revision, those plan bytes and that
  request; and it asks for a pull request only then too, and only from the Intent's own branch.
\<close>

theorem work_only_approved:
  assumes "intent_life b i" "rests e" "rests_call e" "c \<in> set (pp_calls (snd (intent_reconcile b e has_project m i)))"
  shows "\<exists>x\<in>set (i # pp_writes (snd (intent_reconcile b e has_project m i))).
    (\<forall>r. c = CreateRun r \<longrightarrow> ir_IntentUID r = in_UID x \<and> (ir_Stage r = StageBuild \<longrightarrow>
       (\<exists>ap pl inp. is_Approval x = Some ap \<and> is_Plan x = Some pl \<and> is_Input x = Some inp \<and> bound_approval x \<and>
          ir_PlanRevision r = pl_Revision pl \<and> ir_PlanDigest r = pl_Digest pl \<and> ir_InputDigest r = ii_Digest inp))) \<and>
    (\<forall>url head base. c = CreatePullRequest url head base \<longrightarrow> bound_approval x \<and> head = IntentBranchPrefix @ in_Name x)"
proof -
  obtain x where x: "x \<in> set (i # pass_writes b e has_project m i)" "approved_call x c"
    using reconcile_calls [OF assms(3,4)] by blast
  have "intent_ok x"
    using x(1) life_ok [OF assms(1)] life_ok [OF intent_life.stored [OF assms(1,2)]] by auto
  then have bound: "bound_approval x" if "is_Approval x \<noteq> None" using ok_bound that by blast
  show ?thesis
  proof (rule bexI [OF _ x(1) [unfolded pass_writes_def]], intro conjI allI impI)
    fix r assume r: "c = CreateRun r"
    then show "ir_IntentUID r = in_UID x" using x(2) by (simp add: approved_call_def)
    assume "ir_Stage r = StageBuild"
    then obtain ap where ap: "is_Approval x = Some ap" "ir_PlanRevision r = iap_PlanRevision ap"
        "ir_PlanDigest r = iap_PlanDigest ap" "ir_InputDigest r = iap_InputDigest ap"
      using x(2) r by (auto simp: approved_call_def)
    then have "bound_approval x" using bound by simp
    then show "\<exists>ap pl inp. is_Approval x = Some ap \<and> is_Plan x = Some pl \<and> is_Input x = Some inp \<and> bound_approval x \<and>
        ir_PlanRevision r = pl_Revision pl \<and> ir_PlanDigest r = pl_Digest pl \<and> ir_InputDigest r = ii_Digest inp"
      using ap by (auto simp: bound_approval_def)
  next
    fix url head base assume "c = CreatePullRequest url head base"
    then show "bound_approval x" "head = IntentBranchPrefix @ in_Name x"
      using x(2) bound by (auto simp: approved_call_def branchName_def)
  qed
qed

lemma work_only_approved_witness:
  "\<exists>r x pl. CreateRun r \<in> set demo_calls \<and> ir_Stage r = StageBuild \<and> bound_approval x \<and> is_Plan x = Some pl \<and>
     ir_PlanDigest r = pl_Digest pl"
proof -
  let ?e = "demo_env (6 * nano_second) [demo_plan_run] [demo_approval_event]"
  have rest: "rests_call ?e" by (simp add: rests_call_def demo_env_def calling_ret)
  obtain r where r: "CreateRun r \<in> set demo_calls" "ir_Stage r = StageBuild"
    using demo_7 by (auto simp: list_ex_iff elim: is_build.elims(2))
  show ?thesis
  proof (rule bexE [OF work_only_approved [OF demo_alive(2) demo_rests rest r(1) [unfolded demo_calls_def]]])
    fix x
    assume "(\<forall>r'. CreateRun r = CreateRun r' \<longrightarrow> ir_IntentUID r' = in_UID x \<and> (ir_Stage r' = StageBuild \<longrightarrow>
       (\<exists>ap pl inp. is_Approval x = Some ap \<and> is_Plan x = Some pl \<and> is_Input x = Some inp \<and> bound_approval x \<and>
          ir_PlanRevision r' = pl_Revision pl \<and> ir_PlanDigest r' = pl_Digest pl \<and> ir_InputDigest r' = ii_Digest inp))) \<and>
      (\<forall>url head base. CreateRun r = CreatePullRequest url head base \<longrightarrow> bound_approval x \<and> head = IntentBranchPrefix @ in_Name x)"
    then show ?thesis using r by (intro exI [of _ r] exI [of _ x]) auto
  qed
qed

end
