(* ===== verification/IntentTally.thy ===== *)
theory IntentTally
  imports IntentDemo
begin

text \<open>
  The tally of an Intent's usage (\<open>internal/controller/intent/names.go\<close>) against its specification: the sum of
  the runs' figures, held at the largest int64.
\<close>

lemma addUsage_min:
  assumes "0 \<le> t" "t \<le> max_int64" "n \<le> max_int64"
  shows "addUsage t n = min max_int64 (t + max 0 n)"
  using assms by (simp add: addUsage_def i64_id min_def)

lemma fold_addUsage:
  assumes "\<forall>r\<in>set runs. f r \<le> max_int64" "0 \<le> t" "t \<le> max_int64"
  shows "fold (\<lambda>r t. addUsage t (f r)) runs t = min max_int64 (t + (\<Sum>r\<leftarrow>runs. max 0 (f r)))"
  using assms
proof (induction runs arbitrary: t)
  case (Cons r runs)
  have r: "addUsage t (f r) = min max_int64 (t + max 0 (f r))" using Cons.prems addUsage_min by simp
  have "0 \<le> addUsage t (f r)" "addUsage t (f r) \<le> max_int64" unfolding r using Cons.prems(2) by simp_all
  then have "fold (\<lambda>r t. addUsage t (f r)) runs (addUsage t (f r)) = min max_int64 (addUsage t (f r) + (\<Sum>r\<leftarrow>runs. max 0 (f r)))"
    using Cons.IH Cons.prems by simp
  moreover have "0 \<le> (\<Sum>r\<leftarrow>runs. max 0 (f r))" by (rule sum_list_nonneg) auto
  ultimately have "fold (\<lambda>r t. addUsage t (f r)) runs (addUsage t (f r)) = min max_int64 (t + max 0 (f r) + (\<Sum>r\<leftarrow>runs. max 0 (f r)))"
    using r by (simp add: min_def)
  then show ?case by (simp add: add.assoc)
qed simp

definition tally_step :: "intent_run \<Rightarrow> intent_usage \<Rightarrow> intent_usage" where
  "tally_step r u = 
     \<lparr>iu_Cost = addUsage (iu_Cost u) (microUSD (ru_CostUSD (ir_Usage r))),
      iu_Input = addUsage (iu_Input u) (ru_Input (ir_Usage r)),
      iu_Output = addUsage (iu_Output u) (ru_Output (ir_Usage r)),
      iu_CacheRead = addUsage (iu_CacheRead u) (ru_CacheRead (ir_Usage r)),
      iu_CacheCreation = addUsage (iu_CacheCreation u) (ru_CacheCreation (ir_Usage r))\<rparr>"

lemma tally_fields:
  "iu_Cost (fold tally_step runs u) = fold (\<lambda>r t. addUsage t (microUSD (ru_CostUSD (ir_Usage r)))) runs (iu_Cost u)"
  "iu_Input (fold tally_step runs u) = fold (\<lambda>r t. addUsage t (ru_Input (ir_Usage r))) runs (iu_Input u)"
  "iu_Output (fold tally_step runs u) = fold (\<lambda>r t. addUsage t (ru_Output (ir_Usage r))) runs (iu_Output u)"
  "iu_CacheRead (fold tally_step runs u) = fold (\<lambda>r t. addUsage t (ru_CacheRead (ir_Usage r))) runs (iu_CacheRead u)"
  "iu_CacheCreation (fold tally_step runs u) = fold (\<lambda>r t. addUsage t (ru_CacheCreation (ir_Usage r))) runs (iu_CacheCreation u)"
  by (induction runs arbitrary: u) (simp_all add: tally_step_def)

lemma run_tally_steps: "run_tally runs = fold tally_step runs no_usage"
  by (simp add: run_tally_def tally_step_def [abs_def])

lemma microUSD_small: "microUSD s \<le> max_int64"
  by (auto simp: microUSD_def Let_def i64_range split: option.split prod.split)


definition heavy_run :: intent_run where
  "heavy_run = demo_plan_run\<lparr>ir_Usage := \<lparr>ru_CostUSD = ''1.5'', ru_Input = 9223372036854775000, ru_Output = 3, ru_CacheRead = -4,
     ru_CacheCreation = 0\<rparr>\<rparr>"


end
