(* ===== verification/Spec2Isabelle.thy ===== *)
theory Spec2Isabelle
  imports LedgerProps Schedule ProxyPath RollupProps Slots Tunnel Commands IntentDeeds IntentTally
begin

text \<open>
  Maul: the pipeline from an alert to a merged fix, and from an issue to merged pull requests.

  The program is a set of Kubernetes controllers and two proxies. An alert becomes a Finding, which is
  accumulated, enhanced, investigated by an agent run, judged, perhaps approved by a human, remediated
  by another agent run, and followed through the review of its pull request. An issue with the trigger
  label becomes an Intent, which is planned by an agent, approved by a human, built in each repository
  of its Project, reviewed and merged. Agents run in pods without a credential: the broker forwards and
  meters their calls to the model provider, the egress proxy their module downloads and tunnels. The
  theories model the decisions of these parts and what they write; what talks to Kubernetes, GitHub
  or a model provider is an argument of the definitions that use its answers.

  Conventions. A Go string is its bytes (a HOL string); int64 and int32 are \<open>int\<close> with the wrap-around
  written out (\<open>i64\<close>, \<open>i32\<close>); a struct is a record with a short prefix for its fields; an error is a
  value of a sum or option; a time is nanoseconds; a pointer is an option; a map is a function to an
  option or an association list where its order or its serialisation matters. A function of
  another package that the code calls and the repository does not hold (SHA-256, the URL and address
  parsers, regular expressions apart from those written out in \<open>Regex\<close>, \<open>strings.ToLower\<close> and
  \<open>TrimSpace\<close> beyond ASCII, \<open>meta.SetStatusCondition\<close>) is a parameter; a locale names the laws used
  of it, and each locale is interpreted.

  \<^bold>\<open>Findings.\<close> \<open>ApiTypes\<close>, \<open>Cluster\<close>: the objects of \<open>api/v1alpha1\<close> and a reconcile as the list of its calls.
  \<open>Finding\<close>: the phases, \<open>SetPhase\<close>, the phase log (\<open>transitions.go\<close>). \<open>Ingest\<close>: the placing of an alert and
  the accumulation window (\<open>internal/controller/integration/ingest.go\<close>). \<open>Enhance\<close>: the context
  controller. \<open>Gate\<close>, \<open>Investigate\<close>: the investigation gate and controller. \<open>Spawner\<close>, \<open>Remediate\<close>: the
  remediation spawner and controller. \<open>Signals\<close>, \<open>CommandText\<close>, \<open>Commands\<close>: the webhook deliveries, the
  comment grammar and the commands on a tracking issue (\<open>webhooks.go\<close>, \<open>commands.go\<close>,
  \<open>internal/command\<close>). \<open>Actions\<close>: the human actions (\<open>internal/action\<close>). \<open>Schedule\<close>, \<open>Slots\<close>: which pending
  runs get the free slots. \<open>Attribution\<close>, \<open>CredGate\<close>, \<open>Models\<close>, \<open>Runs\<close>, \<open>Changeset\<close>: attribution, model
  credentials, the model registry, what runs share, and what is accepted of an agent's change.
  \<open>Moves\<close>, \<open>Lifecycle\<close>, \<open>Flight\<close> compose them: a history of one finding's objects under any interleaving of
  the handlers, with stale caches, lost writes and crashes. The properties there are about the whole
  pipeline: the log is legal, a human's gate holds, one remediation is in flight, and what a lost
  write does.

  \<^bold>\<open>Intents.\<close> \<open>IntentTypes\<close>: the Intent, its runs, the Project, grants and budgets. \<open>IntentPass\<close>: one
  reconcile as an action over the state of a pass, which records each status written and each call
  made, with the answers of GitHub and the API server in an environment; any call may fail and any
  write be lost. \<open>IntentRuns\<close>, \<open>IntentPlan\<close>, \<open>IntentBuild\<close>, \<open>IntentActions\<close>, \<open>IntentBlocked\<close>, \<open>IntentFlow\<close>: the
  handlers in \<open>internal/controller/intent\<close>. \<open>IntentMoves\<close> is the specification: an abstract machine
  whose moves say what each change of the status takes. \<open>IntentRefine\<close>, \<open>IntentSteps\<close>, \<open>IntentTurns\<close>,
  \<open>IntentHeard\<close>, \<open>IntentWhole\<close> show, with a small calculus of writes, that every handler and the whole pass
  make moves only; \<open>IntentLog\<close> what every move keeps; \<open>IntentCalls\<close> under which status a call is made.
  \<open>IntentProps\<close> and \<open>IntentDeeds\<close> state the properties, \<open>IntentDemo\<close> is the history their witnesses run, and
  \<open>IntentTally\<close> is the arithmetic of the usage.

  \<^bold>\<open>The broker.\<close> \<open>HourWindow\<close>, \<open>BrokerLedger\<close>: the spend ledger of \<open>internal/broker\<close>. \<open>LedgerSafety\<close> is its
  transition system (admission, charge, release, in any order on any pods) and \<open>LedgerProps\<close> its properties.

  \<^bold>\<open>The egress proxy.\<close> \<open>ProxyPath\<close>: the request grammar of the module and checksum proxies. \<open>Host\<close>,
  \<open>DeniedHosts\<close>: tunnel host names and the deny list. \<open>TunnelBudget\<close>, \<open>Dial\<close>, \<open>ClientHello\<close>: byte budgets,
  the guarded dialer, the TLS hello parser and its incremental reader. \<open>Tunnel\<close>: one CONNECT as a step
  relation with both copies and the watch.

  \<^bold>\<open>Rollups.\<close> \<open>CostDate\<close>, \<open>OnceLedger\<close>, \<open>UsageStats\<close>, \<open>FindingStats\<close>, \<open>FindingRollup\<close>, \<open>RollupProps\<close>: decimal costs,
  the exactly-once ledger, and the usage and finding rollups of \<open>internal/stats\<close> and
  \<open>internal/controller/rollup\<close>.

  \<^bold>\<open>Shared.\<close> \<open>Prelude\<close>, \<open>Utf8\<close>, \<open>Regex\<close>.

  \<^bold>\<open>Fuel and bounds.\<close> The parsers of the ClientHello recurse on the bytes that are left with the length of
  the input as fuel; each step consumes at least two bytes, so the fuel is never what stops them. All
  other recursion is structural or has a termination proof. The copies of a tunnel, the broker and the
  histories are step relations, so nothing bounds their length.

  \<^bold>\<open>Not modelled.\<close> Of an Intent: the review rounds and check polling that revise a pull request, the
  previews, the notices kept beside an ended Intent and the status comment. They enter a pass as
  arguments of its environment, and \<open>rests\<close> and \<open>rests_call\<close> state what they may write and call; the
  properties of a whole pass carry that as a hypothesis. The reconcilers of IntentRuns and Projects,
  the preview controllers with their sign-in relay, and the command-line tool. Object construction for Jobs
  and the process control in a pod, templates and report contracts, HTTP handlers, the status server's views,
  metrics and logs, and the clients of GitHub, GitLab, cloud providers and the model providers: they format
  text or call libraries and services the repository does not hold. Generated deepcopy code is not modelled.
\<close>

end
